(* ===== verification/Prelude.thy ===== *)
theory Prelude
  imports Main "HOL-Library.Word"
begin

text \<open>
  Shared vocabulary of the development: the machine integers of the Rust sources, the
  sequencing of fallible computations (\<open>Result\<close> with the \<open>?\<close> operator) as a bind on sums,
  Rust's checked arithmetic, and the facts on words, lists and sums that the component
  theories use.  Plain \<open>+\<close>, \<open>-\<close> and \<open>*\<close> on words wrap, which is what the release build
  that is deployed does; the checked operations return \<open>None\<close> where Rust does.
\<close>

unbundle bit_operations_syntax

type_synonym u8 = "8 word"
type_synonym u16 = "16 word"
type_synonym u32 = "32 word"
type_synonym u64 = "64 word"
type_synonym u128 = "128 word"

text \<open>\<open>[u64; 4]\<close>: a public key as four aligned 64-bit words.\<close>

type_synonym aligned = "u64 \<times> u64 \<times> u64 \<times> u64"

named_theorems res_simps \<open>equations of the sequencing of fallible computations\<close>
named_theorems unat_simps \<open>values of machine arithmetic as natural numbers\<close>

subsection \<open>Sequencing: Rust's \<open>?\<close> operator\<close>

definition and_then :: "'e + 'a \<Rightarrow> ('a \<Rightarrow> 'e + 'b) \<Rightarrow> 'e + 'b" where
  "and_then r f = (case r of Inl e \<Rightarrow> Inl e | Inr x \<Rightarrow> f x)"

definition map_err :: "('e \<Rightarrow> 'f) \<Rightarrow> 'e + 'a \<Rightarrow> 'f + 'a" where
  "map_err g r = (case r of Inl e \<Rightarrow> Inl (g e) | Inr x \<Rightarrow> Inr x)"

definition ok_or :: "'a option \<Rightarrow> 'e \<Rightarrow> 'e + 'a" where
  "ok_or x e = (case x of None \<Rightarrow> Inl e | Some y \<Rightarrow> Inr y)"

definition guard :: "bool \<Rightarrow> 'e \<Rightarrow> 'e + unit" where
  "guard b e = (if b then Inr () else Inl e)"

lemma and_then_simps [simp, res_simps]:
  "and_then (Inl e) f = Inl e"
  "and_then (Inr x) f = f x"
  by (simp_all add: and_then_def)

lemma and_then_eq_Inr [res_simps]:
  "and_then r f = Inr y \<longleftrightarrow> (\<exists>x. r = Inr x \<and> f x = Inr y)"
  by (cases r) auto

lemma and_then_eq_Inl [res_simps]:
  "and_then r f = Inl e \<longleftrightarrow> r = Inl e \<or> (\<exists>x. r = Inr x \<and> f x = Inl e)"
  by (cases r) auto

lemma and_then_assoc: "and_then (and_then r f) g = and_then r (\<lambda>x. and_then (f x) g)"
  by (cases r) auto

lemma map_err_simps [simp, res_simps]:
  "map_err g (Inl e) = Inl (g e)"
  "map_err g (Inr x) = Inr x"
  by (simp_all add: map_err_def)

lemma map_err_eq_Inr [res_simps]: "map_err g r = Inr y \<longleftrightarrow> r = Inr y"
  by (cases r) auto

lemma ok_or_simps [simp, res_simps]:
  "ok_or None e = Inl e"
  "ok_or (Some y) e = Inr y"
  by (simp_all add: ok_or_def)

lemma ok_or_eq_Inr [res_simps]: "ok_or x e = Inr y \<longleftrightarrow> x = Some y"
  by (cases x) auto

lemma ok_or_eq_Inl [res_simps]: "ok_or x e = Inl e' \<longleftrightarrow> x = None \<and> e' = e"
  by (cases x) auto

lemma guard_simps [simp, res_simps]:
  "guard True e = Inr ()"
  "guard False e = Inl e"
  by (simp_all add: guard_def)

lemma guard_eq_Inr [res_simps]: "guard b e = Inr u \<longleftrightarrow> b"
  by (simp add: guard_def)

lemma guard_eq_Inl [res_simps]: "guard b e = Inl e' \<longleftrightarrow> \<not> b \<and> e' = e"
  by (auto simp: guard_def)

subsection \<open>Checked arithmetic and \<open>NonZeroU64\<close>\<close>

definition checked_add :: "'a::len word \<Rightarrow> 'a word \<Rightarrow> 'a word option" where
  "checked_add x y = (if unat x + unat y < 2 ^ LENGTH('a) then Some (x + y) else None)"

definition checked_sub :: "'a::len word \<Rightarrow> 'a word \<Rightarrow> 'a word option" where
  "checked_sub x y = (if y \<le> x then Some (x - y) else None)"

definition checked_mul :: "'a::len word \<Rightarrow> 'a word \<Rightarrow> 'a word option" where
  "checked_mul x y = (if unat x * unat y < 2 ^ LENGTH('a) then Some (x * y) else None)"

text \<open>Forms that evaluate on words, without natural numbers of that size.\<close>

lemma checked_add_code [code]: "checked_add x y = (if x + y < x then None else Some (x + y))"
proof -
  let ?n = "2 ^ LENGTH('a) :: nat"
  have b: "unat x < ?n" "unat y < ?n" by (rule unsigned_less)+
  have "unat x + unat y < ?n \<longleftrightarrow> \<not> x + y < x"
  proof (cases "unat x + unat y < ?n")
    case True
    then show ?thesis by (simp add: word_less_nat_alt unat_add_lem [THEN iffD1])
  next
    case False
    have "unat x + unat y - ?n < ?n" using b by linarith
    then have "(unat x + unat y) mod ?n = unat x + unat y - ?n" using False by (simp add: le_mod_geq)
    then have "unat (x + y) = unat x + unat y - ?n" by (simp add: unat_word_ariths)
    then have "unat (x + y) < unat x" using b False by linarith
    then show ?thesis using False by (simp add: word_less_nat_alt)
  qed
  then show ?thesis by (simp add: checked_add_def)
qed

lemma checked_mul_code [code]:
  "checked_mul x y = (if y = 0 \<or> x \<le> (- 1) div y then Some (x * y) else None)"
proof (cases "y = 0")
  case False
  then have y: "0 < unat y" by (simp add: unat_gt_0)
  have "unat (- 1 :: 'a word) = 2 ^ LENGTH('a) - 1" by (simp add: unsigned_minus_1_eq_mask mask_eq_exp_minus_1)
  then have "x \<le> (- 1) div y \<longleftrightarrow> unat x \<le> (2 ^ LENGTH('a) - 1) div unat y"
    by (simp add: word_le_nat_alt unat_div_distrib)
  also have "\<dots> \<longleftrightarrow> unat x * unat y < 2 ^ LENGTH('a)"
    using y less_eq_div_iff_mult_less_eq [OF y, of "unat x" "2 ^ LENGTH('a) - 1"] zero_less_power [of "2::nat" "LENGTH('a)"]
    by linarith
  finally show ?thesis using False by (simp add: checked_mul_def)
qed (simp add: checked_mul_def)

text \<open>
  \<open>NonZeroU64\<close> is a \<open>u64\<close> whose constructor \<open>NonZeroU64::new\<close> refuses zero; its
  \<open>get\<close> is the identity.
\<close>

definition nonzero_new :: "u64 \<Rightarrow> u64 option" where
  "nonzero_new x = (if x = 0 then None else Some x)"

lemma checked_add_SomeD: "checked_add x y = Some z \<Longrightarrow> z = x + y \<and> unat z = unat x + unat y"
  by (auto simp: checked_add_def unat_add_lem [symmetric] split: if_splits)

lemma checked_sub_SomeD:
  "checked_sub x y = Some z \<Longrightarrow> z = x - y \<and> y \<le> x \<and> unat z = unat x - unat y"
  by (auto simp: checked_sub_def unat_sub word_le_nat_alt split: if_splits)

lemma checked_mul_SomeD: "checked_mul x y = Some z \<Longrightarrow> z = x * y \<and> unat z = unat x * unat y"
  by (auto simp: checked_mul_def unat_mult_lem [symmetric] split: if_splits)

lemma nonzero_new_eq_Some [simp]: "nonzero_new x = Some y \<longleftrightarrow> y = x \<and> x \<noteq> 0"
  by (auto simp: nonzero_new_def)

lemma nonzero_new_eq_None [simp]: "nonzero_new x = None \<longleftrightarrow> x = 0"
  by (simp add: nonzero_new_def)

lemma unat_add_small [unat_simps]:
  fixes x y :: "'a::len word"
  assumes "unat x + unat y < 2 ^ LENGTH('a)"
  shows "unat (x + y) = unat x + unat y"
  using assms by (simp add: unat_add_lem)

lemma unat_mult_small [unat_simps]:
  fixes x y :: "'a::len word"
  assumes "unat x * unat y < 2 ^ LENGTH('a)"
  shows "unat (x * y) = unat x * unat y"
  using assms by (simp add: unat_mult_lem)

lemma unat_ucast_up [unat_simps]:
  fixes x :: "'a::len word"
  assumes "LENGTH('a) \<le> LENGTH('b::len)"
  shows "unat (ucast x :: 'b word) = unat x"
proof -
  have "unat x < 2 ^ LENGTH('a)" by (rule unsigned_less)
  also have "(2::nat) ^ LENGTH('a) \<le> 2 ^ LENGTH('b)" using assms by simp
  finally show ?thesis by (simp add: unsigned_ucast_eq take_bit_nat_eq_self)
qed

lemma unat_u64_lt: "unat (x::u64) < 2 ^ 64"
  using unsigned_less [of x, where 'a = nat] by simp

lemma unat_u128_lt: "unat (x::u128) < 2 ^ 128"
  using unsigned_less [of x, where 'a = nat] by simp

lemma unat_ucast_u64_u128 [simp]: "unat (ucast (x::u64) :: u128) = unat x"
  by (rule unat_ucast_up) simp

lemma unat_ucast_u128_u64: "unat (ucast (x::u128) :: u64) = unat x mod 2 ^ 64"
  by (simp add: unsigned_ucast_eq take_bit_nat_def)

end
