(* ===== verification/DexErrors.thy ===== *)
theory DexErrors
  imports Prelude
begin

text \<open>
  The error type of the on-chain exchange program (\<open>dex/src/error.rs\<close>): the numbered error
  codes, the assertion errors that carry a source line and a file id, and their embedding
  into the \<open>u32\<close> the runtime reports.  The model adds the two ways a Rust computation can
  fail to return a \<open>Result\<close>: a panic (\<open>unwrap\<close>, \<open>assert!\<close>, \<open>unreachable!\<close>, an index out
  of range), and a loop that never ends.
\<close>

datatype (plugins only: code) dex_error_code =
    InvalidMarketFlags | InvalidAskFlags | InvalidBidFlags | InvalidQueueLength
  | OwnerAccountNotProvided | ConsumeEventsQueueFailure | WrongCoinVault | WrongPcVault
  | WrongCoinMint | WrongPcMint | CoinVaultProgramId | PcVaultProgramId | CoinMintProgramId
  | PcMintProgramId | WrongCoinMintSize | WrongPcMintSize | WrongCoinVaultSize
  | WrongPcVaultSize | UninitializedVault | UninitializedMint | CoinMintUninitialized
  | PcMintUninitialized | WrongMint | WrongVaultOwner | VaultHasDelegate | AlreadyInitialized
  | WrongAccountDataAlignment | WrongAccountDataPaddingLength | WrongAccountHeadPadding
  | WrongAccountTailPadding | RequestQueueEmpty | EventQueueTooSmall | SlabTooSmall
  | BadVaultSignerNonce | InsufficientFunds | SplAccountProgramId | SplAccountLen
  | WrongFeeDiscountAccountOwner | WrongFeeDiscountMint | CoinPayerProgramId
  | PcPayerProgramId | ClientIdNotFound | TooManyOpenOrders | FakeErrorSoWeDontChangeNumbers
  | BorrowError | WrongOrdersAccount | WrongBidsAccount | WrongAsksAccount
  | WrongRequestQueueAccount | WrongEventQueueAccount | RequestQueueFull | EventQueueFull
  | MarketIsDisabled | WrongSigner | TransferFailed | ClientOrderIdIsZero
  | WrongRentSysvarAccount | RentNotProvided | OrdersNotRentExempt | Unknown | AssertionError

primrec dex_error_code_u32 :: "dex_error_code \<Rightarrow> u32" where
  "dex_error_code_u32 InvalidMarketFlags = 0"
| "dex_error_code_u32 InvalidAskFlags = 1"
| "dex_error_code_u32 InvalidBidFlags = 2"
| "dex_error_code_u32 InvalidQueueLength = 3"
| "dex_error_code_u32 OwnerAccountNotProvided = 4"
| "dex_error_code_u32 ConsumeEventsQueueFailure = 5"
| "dex_error_code_u32 WrongCoinVault = 6"
| "dex_error_code_u32 WrongPcVault = 7"
| "dex_error_code_u32 WrongCoinMint = 8"
| "dex_error_code_u32 WrongPcMint = 9"
| "dex_error_code_u32 CoinVaultProgramId = 10"
| "dex_error_code_u32 PcVaultProgramId = 11"
| "dex_error_code_u32 CoinMintProgramId = 12"
| "dex_error_code_u32 PcMintProgramId = 13"
| "dex_error_code_u32 WrongCoinMintSize = 14"
| "dex_error_code_u32 WrongPcMintSize = 15"
| "dex_error_code_u32 WrongCoinVaultSize = 16"
| "dex_error_code_u32 WrongPcVaultSize = 17"
| "dex_error_code_u32 UninitializedVault = 18"
| "dex_error_code_u32 UninitializedMint = 19"
| "dex_error_code_u32 CoinMintUninitialized = 20"
| "dex_error_code_u32 PcMintUninitialized = 21"
| "dex_error_code_u32 WrongMint = 22"
| "dex_error_code_u32 WrongVaultOwner = 23"
| "dex_error_code_u32 VaultHasDelegate = 24"
| "dex_error_code_u32 AlreadyInitialized = 25"
| "dex_error_code_u32 WrongAccountDataAlignment = 26"
| "dex_error_code_u32 WrongAccountDataPaddingLength = 27"
| "dex_error_code_u32 WrongAccountHeadPadding = 28"
| "dex_error_code_u32 WrongAccountTailPadding = 29"
| "dex_error_code_u32 RequestQueueEmpty = 30"
| "dex_error_code_u32 EventQueueTooSmall = 31"
| "dex_error_code_u32 SlabTooSmall = 32"
| "dex_error_code_u32 BadVaultSignerNonce = 33"
| "dex_error_code_u32 InsufficientFunds = 34"
| "dex_error_code_u32 SplAccountProgramId = 35"
| "dex_error_code_u32 SplAccountLen = 36"
| "dex_error_code_u32 WrongFeeDiscountAccountOwner = 37"
| "dex_error_code_u32 WrongFeeDiscountMint = 38"
| "dex_error_code_u32 CoinPayerProgramId = 39"
| "dex_error_code_u32 PcPayerProgramId = 40"
| "dex_error_code_u32 ClientIdNotFound = 41"
| "dex_error_code_u32 TooManyOpenOrders = 42"
| "dex_error_code_u32 FakeErrorSoWeDontChangeNumbers = 43"
| "dex_error_code_u32 BorrowError = 44"
| "dex_error_code_u32 WrongOrdersAccount = 45"
| "dex_error_code_u32 WrongBidsAccount = 46"
| "dex_error_code_u32 WrongAsksAccount = 47"
| "dex_error_code_u32 WrongRequestQueueAccount = 48"
| "dex_error_code_u32 WrongEventQueueAccount = 49"
| "dex_error_code_u32 RequestQueueFull = 50"
| "dex_error_code_u32 EventQueueFull = 51"
| "dex_error_code_u32 MarketIsDisabled = 52"
| "dex_error_code_u32 WrongSigner = 53"
| "dex_error_code_u32 TransferFailed = 54"
| "dex_error_code_u32 ClientOrderIdIsZero = 55"
| "dex_error_code_u32 WrongRentSysvarAccount = 56"
| "dex_error_code_u32 RentNotProvided = 57"
| "dex_error_code_u32 OrdersNotRentExempt = 58"
| "dex_error_code_u32 Unknown = 1000"
| "dex_error_code_u32 AssertionError = 1001"

datatype source_file_id = StateFile | MatchingFile | CritbitFile

primrec source_file_id_u8 :: "source_file_id \<Rightarrow> u8" where
  "source_file_id_u8 StateFile = 1"
| "source_file_id_u8 MatchingFile = 2"
| "source_file_id_u8 CritbitFile = 3"

record assertion_error =
  ae_line :: u16
  ae_file_id :: source_file_id

definition assertion_error_u32 :: "assertion_error \<Rightarrow> u32" where
  "assertion_error_u32 err =
     ucast (ae_line err) + push_bit 24 (ucast (source_file_id_u8 (ae_file_id err)))"

text \<open>
  \<open>ProgramError\<close> belongs to \<open>solana_sdk\<close>; the program builds two of its variants itself
  and passes any other through unread.
\<close>

datatype program_error = Custom u32 | InvalidArgument | OtherProgramError nat

datatype dex_error = ProgramError program_error | ErrorCode dex_error_code

definition dex_error_of_assertion :: "assertion_error \<Rightarrow> dex_error" where
  "dex_error_of_assertion err = ProgramError (Custom (assertion_error_u32 err))"

fun program_error_of_dex :: "dex_error \<Rightarrow> program_error" where
  "program_error_of_dex (ProgramError e) = e"
| "program_error_of_dex (ErrorCode c) = Custom (dex_error_code_u32 c)"

datatype dex_fault = DexErr dex_error | Panic | Diverges

definition err_code :: "dex_error_code \<Rightarrow> dex_fault" where
  "err_code c = DexErr (ErrorCode c)"

definition assertion_fault :: "source_file_id \<Rightarrow> u16 \<Rightarrow> dex_fault" where
  "assertion_fault f l = DexErr (dex_error_of_assertion \<lparr>ae_line = l, ae_file_id = f\<rparr>)"

definition check_assert :: "source_file_id \<Rightarrow> u16 \<Rightarrow> bool \<Rightarrow> dex_fault + unit" where
  "check_assert f l b = guard b (assertion_fault f l)"

text \<open>\<open>Option::unwrap\<close> and \<open>assert!\<close>.\<close>

definition unwrap :: "'a option \<Rightarrow> dex_fault + 'a" where
  "unwrap x = ok_or x Panic"

definition assert_panic :: "bool \<Rightarrow> dex_fault + unit" where
  "assert_panic b = guard b Panic"

lemma unwrap_simps [simp, res_simps]:
  "unwrap None = Inl Panic"
  "unwrap (Some y) = Inr y"
  by (simp_all add: unwrap_def)

lemma unwrap_eq_Inr [res_simps]: "unwrap x = Inr y \<longleftrightarrow> x = Some y"
  by (simp add: unwrap_def ok_or_eq_Inr)

lemma check_assert_simps [simp, res_simps]:
  "check_assert f l True = Inr ()"
  "check_assert f l False = Inl (assertion_fault f l)"
  by (simp_all add: check_assert_def)

lemma check_assert_eq_Inr [res_simps]: "check_assert f l b = Inr u \<longleftrightarrow> b"
  by (simp add: check_assert_def guard_eq_Inr)

lemma assert_panic_simps [simp, res_simps]:
  "assert_panic True = Inr ()"
  "assert_panic False = Inl Panic"
  by (simp_all add: assert_panic_def)

lemma assert_panic_eq_Inr [res_simps]: "assert_panic b = Inr u \<longleftrightarrow> b"
  by (simp add: assert_panic_def guard_eq_Inr)

subsection \<open>The reported numbers identify the failure\<close>

lemma unat_file_id: "1 \<le> unat (source_file_id_u8 f) \<and> unat (source_file_id_u8 f) \<le> 3"
  by (cases f) simp_all

lemma unat_assertion_error_u32:
  "unat (assertion_error_u32 e) = unat (ae_line e) + unat (source_file_id_u8 (ae_file_id e)) * 2 ^ 24"
proof -
  have l: "unat (ucast (ae_line e) :: u32) = unat (ae_line e)" by (rule unat_ucast_up) simp
  have lb: "unat (ae_line e) < 65536" using unsigned_less [of "ae_line e", where 'a = nat] by simp
  have f: "unat (push_bit 24 (ucast (source_file_id_u8 (ae_file_id e)) :: u32))
             = unat (source_file_id_u8 (ae_file_id e)) * 2 ^ 24"
    by (cases "ae_file_id e") simp_all
  have "unat (source_file_id_u8 (ae_file_id e)) \<le> 3" using unat_file_id by blast
  then show ?thesis
    using lb unfolding assertion_error_u32_def by (subst unat_add_small) (simp_all add: l f)
qed

lemma unat_dex_error_code_le: "unat (dex_error_code_u32 c) \<le> 1001"
  by (cases c) simp_all

text \<open>
  An assertion failure is reported with a number that determines its source file and
  line, and that no numbered error code shares.
\<close>

theorem assertion_error_identifies_site:
  "(assertion_error_u32 a = assertion_error_u32 b
      \<longleftrightarrow> ae_line a = ae_line b \<and> ae_file_id a = ae_file_id b)
   \<and> program_error_of_dex (dex_error_of_assertion a) \<noteq> program_error_of_dex (ErrorCode c)"
proof
  have lb: "unat (ae_line x) < 65536" for x :: assertion_error
    using unsigned_less [of "ae_line x", where 'a = nat] by simp
  show "assertion_error_u32 a = assertion_error_u32 b
          \<longleftrightarrow> ae_line a = ae_line b \<and> ae_file_id a = ae_file_id b"
  proof
    assume "assertion_error_u32 a = assertion_error_u32 b"
    then have eq: "unat (ae_line a) + unat (source_file_id_u8 (ae_file_id a)) * 2 ^ 24
        = unat (ae_line b) + unat (source_file_id_u8 (ae_file_id b)) * 2 ^ 24"
      using unat_assertion_error_u32 by metis
    have "unat (source_file_id_u8 (ae_file_id a)) = unat (source_file_id_u8 (ae_file_id b))"
      using eq lb [of a] lb [of b] by simp
    then have "ae_file_id a = ae_file_id b"
      by (cases "ae_file_id a"; cases "ae_file_id b") simp_all
    with eq show "ae_line a = ae_line b \<and> ae_file_id a = ae_file_id b"
      by (simp add: word_unat_eq_iff)
  qed (simp add: assertion_error_u32_def)
  have "unat (source_file_id_u8 (ae_file_id a)) \<ge> 1" using unat_file_id by blast
  then have "unat (assertion_error_u32 a) > 1001" by (simp add: unat_assertion_error_u32)
  then have "assertion_error_u32 a \<noteq> dex_error_code_u32 c"
    using unat_dex_error_code_le [of c] by (metis not_less)
  then show "program_error_of_dex (dex_error_of_assertion a) \<noteq> program_error_of_dex (ErrorCode c)"
    by (simp add: dex_error_of_assertion_def)
qed

end
