(* ===== verification/Fees.thy ===== *)
theory Fees
  imports DexErrors
begin

text \<open>
  The fee schedule (\<open>dex/src/fees.rs\<close>): fixed-point rates with 64 fractional bits over
  \<open>u128\<close>, the fee tier of a user from its SRM and MSRM holdings, the maker's rebate (rounded
  down), the taker's fee (rounded up), its inverse on an amount that already includes the
  fee, and the referrer's share.  The lemmas give the value of each as a natural number (no
  intermediate product overflows), show that \<open>remove_taker_fee\<close> returns the greatest
  affordable amount, and that a trade never pays out more than it takes in.
\<close>

datatype fee_tier = Base | SRM2 | SRM3 | SRM4 | SRM5 | SRM6 | MSRM

primrec fee_tier_u8 :: "fee_tier \<Rightarrow> u8" where
  "fee_tier_u8 Base = 0"
| "fee_tier_u8 SRM2 = 1"
| "fee_tier_u8 SRM3 = 2"
| "fee_tier_u8 SRM4 = 3"
| "fee_tier_u8 SRM5 = 4"
| "fee_tier_u8 SRM6 = 5"
| "fee_tier_u8 MSRM = 6"

text \<open>\<open>FeeTier::try_from_primitive\<close>, derived by \<open>TryFromPrimitive\<close>.\<close>

definition fee_tier_try_from :: "u8 \<Rightarrow> fee_tier option" where
  "fee_tier_try_from b =
     (if b = 0 then Some Base else if b = 1 then Some SRM2 else if b = 2 then Some SRM3
      else if b = 3 then Some SRM4 else if b = 4 then Some SRM5 else if b = 5 then Some SRM6
      else if b = 6 then Some MSRM else None)"

lemma fee_tier_try_from_u8 [simp]: "fee_tier_try_from (fee_tier_u8 t) = Some t"
  by (cases t) (simp_all add: fee_tier_try_from_def)

lemma fee_tier_try_from_SomeD: "fee_tier_try_from b = Some t \<Longrightarrow> fee_tier_u8 t = b"
  by (auto simp: fee_tier_try_from_def split: if_splits)

type_synonym u64f64 = u128

definition u64f64_ONE :: u64f64 where
  "u64f64_ONE = push_bit 64 1"

definition u64f64_add :: "u64f64 \<Rightarrow> u64f64 \<Rightarrow> u64f64" where
  "u64f64_add x y = x + y"

definition u64f64_div :: "u64f64 \<Rightarrow> u64f64 \<Rightarrow> u128" where
  "u64f64_div x y = x div y"

definition u64f64_mul_u64 :: "u64f64 \<Rightarrow> u64 \<Rightarrow> u64f64" where
  "u64f64_mul_u64 x n = x * ucast n"

definition u64f64_floor :: "u64f64 \<Rightarrow> u64" where
  "u64f64_floor x = ucast (drop_bit 64 x)"

definition u64f64_frac_part :: "u64f64 \<Rightarrow> u64" where
  "u64f64_frac_part x = ucast x"

definition u64f64_from_int :: "u64 \<Rightarrow> u64f64" where
  "u64f64_from_int n = push_bit 64 (ucast n)"

definition fee_bps :: "u64 \<Rightarrow> u64f64" where
  "fee_bps bps = push_bit 64 (ucast bps) div 10000"

definition rebate_bps :: "u64 \<Rightarrow> u64f64" where
  "rebate_bps bps = fee_bps bps + 1"

definition from_srm_and_msrm_balances :: "u64 \<Rightarrow> u64 \<Rightarrow> fee_tier" where
  "from_srm_and_msrm_balances srm_held msrm_held =
     (let one_srm = 1000000 in
      if msrm_held \<ge> 1 then MSRM
      else if srm_held \<ge> one_srm * 1000000 then SRM6
      else if srm_held \<ge> one_srm * 100000 then SRM5
      else if srm_held \<ge> one_srm * 10000 then SRM4
      else if srm_held \<ge> one_srm * 1000 then SRM3
      else if srm_held \<ge> one_srm * 100 then SRM2
      else Base)"

definition maker_rebate :: "fee_tier \<Rightarrow> u64 \<Rightarrow> u64" where
  "maker_rebate t pc_qty =
     (let rate = (case t of MSRM \<Rightarrow> rebate_bps 5 | _ \<Rightarrow> rebate_bps 3)
      in u64f64_floor (u64f64_mul_u64 rate pc_qty))"

definition taker_rate :: "fee_tier \<Rightarrow> u64f64" where
  "taker_rate t =
     (case t of Base \<Rightarrow> fee_bps 22 | SRM2 \<Rightarrow> fee_bps 20 | SRM3 \<Rightarrow> fee_bps 18
      | SRM4 \<Rightarrow> fee_bps 16 | SRM5 \<Rightarrow> fee_bps 14 | SRM6 \<Rightarrow> fee_bps 12 | MSRM \<Rightarrow> fee_bps 10)"

definition taker_fee :: "fee_tier \<Rightarrow> u64 \<Rightarrow> u64" where
  "taker_fee t pc_qty =
     (let exact_fee = u64f64_mul_u64 (taker_rate t) pc_qty
      in u64f64_floor exact_fee + (if u64f64_frac_part exact_fee \<noteq> 0 then 1 else 0))"

text \<open>The conversion \<open>u128 \<rightarrow> u64\<close> of \<open>remove_taker_fee\<close> is checked and unwrapped.\<close>

definition remove_taker_fee :: "fee_tier \<Rightarrow> u64 \<Rightarrow> dex_fault + u64" where
  "remove_taker_fee t pc_qty_incl_fee =
     (let rate = taker_rate t;
          q = u64f64_div (u64f64_from_int pc_qty_incl_fee) (u64f64_add u64f64_ONE rate)
      in if unat q < 2 ^ 64 then Inr (ucast q) else Inl Panic)"

lemma remove_taker_fee_code [code]:
  "remove_taker_fee t pc_qty_incl_fee =
     (let rate = taker_rate t;
          q = u64f64_div (u64f64_from_int pc_qty_incl_fee) (u64f64_add u64f64_ONE rate)
      in if q < 18446744073709551616 then Inr (ucast q) else Inl Panic)"
  by (simp add: remove_taker_fee_def word_less_nat_alt)

definition referrer_rebate :: "u64 \<Rightarrow> u64" where
  "referrer_rebate amount = amount div 5"

subsection \<open>The rates as natural numbers\<close>

text \<open>Numerators over \<open>2 ^ 64\<close>.\<close>

definition taker_rate_nat :: "fee_tier \<Rightarrow> nat" where
  "taker_rate_nat t =
     (case t of Base \<Rightarrow> 22 | SRM2 \<Rightarrow> 20 | SRM3 \<Rightarrow> 18 | SRM4 \<Rightarrow> 16 | SRM5 \<Rightarrow> 14 | SRM6 \<Rightarrow> 12 | MSRM \<Rightarrow> 10)
     * 2 ^ 64 div 10000"

definition rebate_rate_nat :: "fee_tier \<Rightarrow> nat" where
  "rebate_rate_nat t = (case t of MSRM \<Rightarrow> 5 | _ \<Rightarrow> 3) * 2 ^ 64 div 10000 + 1"

lemma unat_taker_rate: "unat (taker_rate t) = taker_rate_nat t"
  by (cases t) (simp_all add: taker_rate_def fee_bps_def taker_rate_nat_def unat_div)

lemma unat_rebate_rate:
  "unat (case t of MSRM \<Rightarrow> rebate_bps 5 | _ \<Rightarrow> rebate_bps 3) = rebate_rate_nat t"
  by (cases t) (simp_all add: rebate_bps_def fee_bps_def rebate_rate_nat_def)

lemma taker_rate_nat_bounds:
  "2 ^ 64 div 1000 \<le> taker_rate_nat t" "taker_rate_nat t < 2 ^ 56"
  by (cases t; simp add: taker_rate_nat_def)+

lemma rebate_rate_nat_bounds:
  "rebate_rate_nat t \<le> 5 * 2 ^ 64 div 10000 + 1" "rebate_rate_nat t < 2 ^ 56"
  by (cases t; simp add: rebate_rate_nat_def)+

lemma unat_u64f64_mul:
  assumes "unat r < 2 ^ 56"
  shows "unat (u64f64_mul_u64 r q) = unat r * unat q" "unat r * unat q < 2 ^ 120"
proof -
  have "unat r * unat q < 2 ^ 56 * 2 ^ 64"
    by (rule mult_strict_mono) (use assms unat_u64_lt [of q] in auto)
  then show b: "unat r * unat q < 2 ^ 120" by simp
  then have "unat r * unat (ucast q :: u128) < 2 ^ LENGTH(128)" by simp
  then show "unat (u64f64_mul_u64 r q) = unat r * unat q"
    unfolding u64f64_mul_u64_def by (subst unat_mult_small) simp_all
qed

lemma unat_u64f64_floor:
  assumes "unat x < 2 ^ 120"
  shows "unat (u64f64_floor x) = unat x div 2 ^ 64" "unat x div 2 ^ 64 < 2 ^ 56"
proof -
  show b: "unat x div 2 ^ 64 < 2 ^ 56" using assms by (simp add: less_mult_imp_div_less)
  then show "unat (u64f64_floor x) = unat x div 2 ^ 64"
    by (simp add: u64f64_floor_def unat_ucast_u128_u64 drop_bit_eq_div unat_div)
qed

lemma u64f64_frac_zero_iff: "u64f64_frac_part x = 0 \<longleftrightarrow> unat x mod 2 ^ 64 = 0"
  by (simp add: u64f64_frac_part_def unat_eq_0 [symmetric] unat_ucast_u128_u64)

subsection \<open>Fees and rebates as natural numbers\<close>

lemma unat_maker_rebate:
  "unat (maker_rebate t q) = rebate_rate_nat t * unat q div 2 ^ 64"
proof -
  let ?r = "case t of MSRM \<Rightarrow> rebate_bps 5 | _ \<Rightarrow> rebate_bps 3"
  have "unat ?r < 2 ^ 56" using rebate_rate_nat_bounds(2) [of t] by (simp add: unat_rebate_rate)
  note m = unat_u64f64_mul [OF this, of q]
  have "unat (u64f64_mul_u64 ?r q) < 2 ^ 120" using m by simp
  note f = unat_u64f64_floor(1) [OF this]
  show ?thesis unfolding maker_rebate_def Let_def by (simp only: f m(1) unat_rebate_rate)
qed

definition ceil_div :: "nat \<Rightarrow> nat \<Rightarrow> nat" where
  "ceil_div a b = a div b + (if a mod b = 0 then 0 else 1)"

lemma ceil_div_bounds:
  assumes "0 < b"
  shows "a \<le> ceil_div a b * b \<and> ceil_div a b * b < a + b"
proof -
  define p m where "p = a div b * b" and "m = a mod b"
  have "p + m = a" "m < b" using assms by (simp_all add: p_def m_def)
  moreover have "ceil_div a b * b = p + (if m = 0 then 0 else b)"
    by (simp add: ceil_div_def p_def m_def)
  ultimately show ?thesis by auto
qed

lemma ceil_div_le_iff: "0 < b \<Longrightarrow> ceil_div a b \<le> c \<longleftrightarrow> a \<le> c * b"
proof
  assume b: "0 < b" and "ceil_div a b \<le> c"
  then have "ceil_div a b * b \<le> c * b" by (intro mult_right_mono) simp_all
  with ceil_div_bounds [OF b, of a] show "a \<le> c * b" by linarith
next
  assume b: "0 < b" and le: "a \<le> c * b"
  have "ceil_div a b * b < c * b + b" using ceil_div_bounds [OF b, of a] le by linarith
  then have "ceil_div a b * b < Suc c * b" by simp
  then show "ceil_div a b \<le> c" using b by (simp only: mult_less_cancel2 less_Suc_eq_le)
qed

lemma unat_taker_fee:
  "unat (taker_fee t q) = ceil_div (taker_rate_nat t * unat q) (2 ^ 64)"
  and taker_fee_bound: "unat (taker_fee t q) \<le> 2 ^ 56"
proof -
  let ?x = "u64f64_mul_u64 (taker_rate t) q"
  have r: "unat (taker_rate t) < 2 ^ 56"
    using taker_rate_nat_bounds(2) [of t] by (simp add: unat_taker_rate)
  have x: "unat ?x = taker_rate_nat t * unat q" "unat ?x < 2 ^ 120"
    using unat_u64f64_mul [OF r, of q] by (simp_all add: unat_taker_rate)
  note fl = unat_u64f64_floor [OF x(2)]
  have "unat (taker_fee t q)
      = unat (u64f64_floor ?x) + unat (if u64f64_frac_part ?x \<noteq> 0 then 1 else 0 :: u64)"
    unfolding taker_fee_def Let_def
    by (rule unat_add_small) (use fl in simp)
  then have eq: "unat (taker_fee t q) = ceil_div (unat ?x) (2 ^ 64)"
    by (simp add: fl(1) ceil_div_def u64f64_frac_zero_iff)
  then show "unat (taker_fee t q) = ceil_div (taker_rate_nat t * unat q) (2 ^ 64)"
    by (simp add: x(1))
  show "unat (taker_fee t q) \<le> 2 ^ 56"
    using fl(2) eq by (simp add: ceil_div_def)
qed

lemma taker_fee_le_iff:
  "unat (taker_fee t q) \<le> n \<longleftrightarrow> taker_rate_nat t * unat q \<le> n * 2 ^ 64"
  by (simp add: unat_taker_fee ceil_div_le_iff)

lemma unat_referrer_rebate: "unat (referrer_rebate a) = unat a div 5"
  by (simp add: referrer_rebate_def unat_div)

lemma taker_fee_0 [simp]: "taker_fee t 0 = 0"
  by (simp add: unat_eq_0 [symmetric] unat_taker_fee ceil_div_def)

lemma maker_rebate_0 [simp]: "maker_rebate t 0 = 0"
  by (simp add: unat_eq_0 [symmetric] unat_maker_rebate)

lemma remove_taker_fee_nat:
  obtains y where "remove_taker_fee t q = Inr y"
    "unat y = unat q * 2 ^ 64 div (2 ^ 64 + taker_rate_nat t)"
proof -
  let ?q = "u64f64_div (u64f64_from_int q) (u64f64_add u64f64_ONE (taker_rate t))"
  have q: "unat (u64f64_from_int q) = unat q * 2 ^ 64"
  proof -
    have "unat (ucast q :: u128) * unat (2 ^ 64 :: u128) < 2 ^ LENGTH(128)"
      using unat_u64_lt [of q] by simp
    then have "unat ((ucast q :: u128) * 2 ^ 64) = unat q * 2 ^ 64"
      by (subst unat_mult_small) simp_all
    then show ?thesis by (simp add: u64f64_from_int_def push_bit_eq_mult)
  qed
  have d: "unat (u64f64_add u64f64_ONE (taker_rate t)) = 2 ^ 64 + taker_rate_nat t"
    unfolding u64f64_add_def u64f64_ONE_def
    using taker_rate_nat_bounds(2) [of t]
    by (subst unat_add_small) (simp_all add: unat_taker_rate)
  have u: "unat ?q = unat q * 2 ^ 64 div (2 ^ 64 + taker_rate_nat t)"
    unfolding u64f64_div_def by (simp only: unat_div q d)
  have "unat q * 2 ^ 64 div (2 ^ 64 + taker_rate_nat t) \<le> unat q * 2 ^ 64 div 2 ^ 64"
    by (intro div_le_mono2) simp_all
  then have lt: "unat ?q < 2 ^ 64" unfolding u using unat_u64_lt [of q] by simp
  show thesis
  proof (rule that)
    show "remove_taker_fee t q = Inr (ucast ?q)"
      using lt by (simp add: remove_taker_fee_def Let_def)
    show "unat (ucast ?q :: u64) = unat q * 2 ^ 64 div (2 ^ 64 + taker_rate_nat t)"
      using lt u by (simp add: unat_ucast_u128_u64)
  qed
qed

lemma affordable_iff:
  "unat z + unat (taker_fee t z) \<le> unat q
     \<longleftrightarrow> unat z \<le> unat q * 2 ^ 64 div (2 ^ 64 + taker_rate_nat t)"
proof -
  have "unat z \<le> unat q * 2 ^ 64 div (2 ^ 64 + taker_rate_nat t)
      \<longleftrightarrow> unat z * (2 ^ 64 + taker_rate_nat t) \<le> unat q * 2 ^ 64"
    by (rule less_eq_div_iff_mult_less_eq) simp
  also have "\<dots> \<longleftrightarrow> unat z \<le> unat q \<and> taker_rate_nat t * unat z \<le> (unat q - unat z) * 2 ^ 64"
    by (auto simp: algebra_simps diff_mult_distrib2)
  also have "\<dots> \<longleftrightarrow> unat z \<le> unat q \<and> unat (taker_fee t z) \<le> unat q - unat z"
    by (simp only: taker_fee_le_iff)
  finally show ?thesis by auto
qed

text \<open>
  Claim C40: \<open>remove_taker_fee\<close> never panics, and returns the greatest quantity whose value plus
  taker fee fits in the given amount; at most one unit of the amount is then left over.
\<close>

theorem remove_taker_fee_greatest:
  "\<exists>y. remove_taker_fee t q = Inr y
     \<and> {z. unat z + unat (taker_fee t z) \<le> unat q} = {..y}
     \<and> unat q - (unat y + unat (taker_fee t y)) \<le> 1"
proof -
  obtain y where y: "remove_taker_fee t q = Inr y"
    "unat y = unat q * 2 ^ 64 div (2 ^ 64 + taker_rate_nat t)"
    by (rule remove_taker_fee_nat)
  have "{z. unat z + unat (taker_fee t z) \<le> unat q} = {..y}"
    by (auto simp: affordable_iff y(2) word_le_nat_alt)
  moreover have "unat q \<le> unat y + unat (taker_fee t y) + 1"
  proof -
    have "unat q * 2 ^ 64 < (unat y + 1) * (2 ^ 64 + taker_rate_nat t)"
      using dividend_less_div_times [of "2 ^ 64 + taker_rate_nat t" "unat q * 2 ^ 64"]
      by (simp add: y(2) algebra_simps)
    moreover have "taker_rate_nat t * unat y \<le> unat (taker_fee t y) * 2 ^ 64"
      using taker_fee_le_iff [of t y "unat (taker_fee t y)"] by simp
    ultimately have "unat q * 2 ^ 64 < (unat y + unat (taker_fee t y) + 2) * 2 ^ 64"
      using taker_rate_nat_bounds(2) [of t] by (simp add: algebra_simps)
    then show ?thesis by simp
  qed
  ultimately show ?thesis using y(1) by auto
qed

text \<open>
  Whatever the tiers of the two sides, the fee the taker pays on a fill covers the
  maker's rebate and the referrer's share; the excess is at least three basis points, up to
  the rounding of the two 64-bit quantities.
\<close>

theorem net_fees_positive:
  assumes "0 < q"
  shows "let fee = unat (taker_fee tt q);
             paid_out = unat (maker_rebate mt q) + unat (referrer_rebate (taker_fee tt q))
         in paid_out < fee \<and> 3 * unat q \<le> (fee - paid_out) * 10000 + 6848"
proof -
  define fee where "fee = unat (taker_fee tt q)"
  define R where "R = unat (maker_rebate mt q)"
  define P where "P = unat (referrer_rebate (taker_fee tt q))"
  have q: "1 \<le> unat q" using assms(1) by (simp add: word_less_nat_alt Suc_le_eq)
  have "18446744073709551 * unat q \<le> taker_rate_nat tt * unat q"
    using taker_rate_nat_bounds(1) [of tt] by (intro mult_right_mono) simp_all
  moreover have "taker_rate_nat tt * unat q \<le> 18446744073709551616 * fee"
    using taker_fee_le_iff [of tt q fee] by (simp add: fee_def mult.commute)
  ultimately have F: "18446744073709551 * unat q \<le> 18446744073709551616 * fee"
    by (rule order_trans)
  have "18446744073709551616 * R \<le> rebate_rate_nat mt * unat q"
    using div_times_less_eq_dividend [of "rebate_rate_nat mt * unat q" "2 ^ 64"]
    by (simp add: R_def unat_maker_rebate mult.commute)
  moreover have "rebate_rate_nat mt * unat q \<le> 9223372036854776 * unat q"
    using rebate_rate_nat_bounds(1) [of mt] by (intro mult_right_mono) simp_all
  ultimately have R: "18446744073709551616 * R \<le> 9223372036854776 * unat q"
    by (rule order_trans)
  have P: "5 * P \<le> fee" by (simp add: P_def fee_def unat_referrer_rebate)
  have lt: "R + P < fee" using F R P q by linarith
  moreover have "3 * unat q \<le> (fee - (R + P)) * 10000 + 6848"
    using F R P lt unat_u64_lt [of q] by simp
  ultimately show ?thesis by (simp add: Let_def fee_def R_def P_def)

qed

theorem net_fees_positive_witness:
  "let fee = unat (taker_fee MSRM 1000000);
       paid_out = unat (maker_rebate MSRM 1000000) + unat (referrer_rebate (taker_fee MSRM 1000000))
   in paid_out < fee \<and> 3 * unat (1000000 :: u64) \<le> (fee - paid_out) * 10000 + 6848"
  by (rule net_fees_positive) simp

end
