(* ===== verification/KeyBits.thy ===== *)
theory KeyBits
  imports Prelude
begin

text \<open>
  Bits of order keys.  The order book's tree reads 128-bit keys from the most significant
  bit: \<open>leading_zeros\<close> of an exclusive or is the length of a common prefix, and a shifted
  single bit is a mask that tests one position.  This theory models those two idioms and
  relates them to the numeric order of the keys.
\<close>

definition leading_zeros :: "'a::len word \<Rightarrow> u32" where
  "leading_zeros w = of_nat (length (takeWhile (\<lambda>i. \<not> bit w i) (rev [0..<LENGTH('a)])))"

definition trailing_zeros :: "'a::len word \<Rightarrow> u32" where
  "trailing_zeros w = of_nat (length (takeWhile (\<lambda>i. \<not> bit w i) [0..<LENGTH('a)]))"

text \<open>The \<open>i\<close>-th bit of a key, counted from the most significant one.\<close>

definition kbit :: "u128 \<Rightarrow> nat \<Rightarrow> bool" where
  "kbit k i = bit k (127 - i)"

text \<open>Two keys share their first \<open>p\<close> bits.\<close>

definition agree :: "nat \<Rightarrow> u128 \<Rightarrow> u128 \<Rightarrow> bool" where
  "agree p x y \<longleftrightarrow> (\<forall>i<p. kbit x i = kbit y i)"

lemma agree_refl [simp]: "agree p x x"
  by (simp add: agree_def)

lemma agree_sym: "agree p x y \<Longrightarrow> agree p y x"
  by (simp add: agree_def)

lemma agree_trans: "agree p x y \<Longrightarrow> agree p y z \<Longrightarrow> agree p x z"
  by (simp add: agree_def)

lemma agree_mono: "agree p x y \<Longrightarrow> q \<le> p \<Longrightarrow> agree q x y"
  by (simp add: agree_def)

lemma agree_0 [simp]: "agree 0 x y"
  by (simp add: agree_def)

lemma kbit_eqI:
  assumes "\<And>i. i < 128 \<Longrightarrow> kbit x i = kbit y i"
  shows "x = y"
proof (rule bit_word_eqI)
  fix n assume "n < LENGTH(128)"
  then have "127 - (127 - n) = n" "127 - n < 128" by simp_all
  then show "bit x n = bit y n" using assms [of "127 - n"] by (simp add: kbit_def)
qed

lemma agree_128_iff [simp]: "agree 128 x y \<longleftrightarrow> x = y"
  by (auto simp: agree_def intro: kbit_eqI)

lemma takeWhile_upt_length:
  fixes P :: "nat \<Rightarrow> bool" and n :: nat
  defines "m \<equiv> length (takeWhile P [0..<n])"
  shows "m \<le> n \<and> (\<forall>i<m. P i) \<and> (m < n \<longrightarrow> \<not> P m)"
proof -
  let ?xs = "[0..<n]"
  have le: "m \<le> n" unfolding m_def using length_takeWhile_le [of P ?xs] by simp
  have "P i" if "i < m" for i
  proof -
    have "takeWhile P ?xs ! i = ?xs ! i" using that by (simp add: m_def takeWhile_nth)
    moreover have "takeWhile P ?xs ! i \<in> set (takeWhile P ?xs)" using that by (simp add: m_def)
    ultimately have "P (?xs ! i)" by (metis set_takeWhileD)
    then show ?thesis using that le by simp
  qed
  moreover have "\<not> P m" if "m < n"
    using nth_length_takeWhile [of P ?xs] that by (simp add: m_def)
  ultimately show ?thesis using le by blast
qed

lemma leading_zeros_xor:
  fixes x y :: u128 and p :: nat
  defines "n \<equiv> \<lambda>x y. unat (leading_zeros (x XOR y :: u128))"
  shows "n x y \<le> 128" and "agree p x y \<longleftrightarrow> p \<le> n x y \<or> x = y"
    and "n x y < 128 \<Longrightarrow> kbit x (n x y) \<noteq> kbit y (n x y)"
    and "n x y = 128 \<longleftrightarrow> x = y"
proof -
  let ?P = "\<lambda>i. kbit x i = kbit y i"
  let ?m = "length (takeWhile ?P [0..<128])"
  have "rev [0..<128] = map (\<lambda>i. 127 - i) [0..<128]"
    by (rule nth_equalityI) (simp_all add: rev_nth)
  then have "takeWhile (\<lambda>i. \<not> bit (x XOR y) i) (rev [0..<LENGTH(128)])
      = map (\<lambda>i. 127 - i) (takeWhile (\<lambda>i. \<not> bit (x XOR y) (127 - i)) [0..<128])"
    by (simp add: takeWhile_map comp_def)
  moreover have "(\<lambda>i. \<not> bit (x XOR y) (127 - i)) = ?P"
    by (auto simp: fun_eq_iff kbit_def bit_xor_iff)
  ultimately have lz: "leading_zeros (x XOR y) = of_nat ?m" by (simp add: leading_zeros_def)
  define m where "m = ?m"
  have m: "m \<le> 128" "\<And>i. i < m \<Longrightarrow> kbit x i = kbit y i" "m < 128 \<Longrightarrow> kbit x m \<noteq> kbit y m"
    using takeWhile_upt_length [of ?P 128] by (simp_all add: m_def)
  have "n x y = unat (of_nat m :: u32)" by (simp add: n_def lz m_def)
  then have n: "n x y = m" using m(1) by (simp add: unat_of_nat)
  have eq: "m = 128" if "x = y" using m(1,3) that by (metis le_neq_implies_less)
  have ne: "x = y" if "m = 128" by (rule kbit_eqI) (use m(2) that in simp)
  show "n x y \<le> 128" "n x y < 128 \<Longrightarrow> kbit x (n x y) \<noteq> kbit y (n x y)" "n x y = 128 \<longleftrightarrow> x = y"
    using m(1,3) eq ne unfolding n by blast+
  have "p \<le> m" if "agree p x y" "x \<noteq> y"
  proof (rule ccontr)
    assume "\<not> p \<le> m"
    then have "kbit x m = kbit y m" using that(1) by (simp add: agree_def)
    then have "m = 128" using m(1,3) by (metis le_neq_implies_less)
    with ne that(2) show False by simp
  qed
  moreover have "agree p x y" if "p \<le> m" using m(2) that by (simp add: agree_def)
  ultimately show "agree p x y \<longleftrightarrow> p \<le> n x y \<or> x = y" unfolding n by auto
qed

subsection \<open>Numeric order and prefixes\<close>

lemma key_less_by_bit:
  assumes "agree p x y" "p < 128" "\<not> kbit x p" "kbit y p"
  shows "x < y"
proof -
  let ?a = "127 - p"
  have "drop_bit (Suc ?a) x = drop_bit (Suc ?a) y"
  proof (rule bit_word_eqI)
    fix n assume "n < LENGTH(128)"
    show "bit (drop_bit (Suc ?a) x) n = bit (drop_bit (Suc ?a) y) n"
    proof (cases "Suc ?a + n < 128")
      case True
      then have "127 - (127 - (Suc ?a + n)) = Suc ?a + n" "127 - (Suc ?a + n) < p"
        using assms(2) by simp_all
      then have "bit x (Suc ?a + n) = bit y (Suc ?a + n)"
        using assms(1) unfolding agree_def kbit_def by metis
      then show ?thesis by (simp only: bit_drop_bit_eq comp_def)
    next
      case False
      then show ?thesis by (auto simp: bit_drop_bit_eq dest: bit_imp_le_length)
    qed
  qed
  then have "unat x div 2 ^ Suc ?a = unat y div 2 ^ Suc ?a"
    by (metis drop_bit_eq_div unat_drop_bit_eq)
  then have h: "unat x div 2 ^ ?a div 2 = unat y div 2 ^ ?a div 2"
    by (simp only: power_Suc2 div_mult2_eq)
  have "\<not> bit (unat x) ?a" "bit (unat y) ?a"
    using assms(3,4) by (simp_all add: kbit_def bit_unsigned_iff)
  then have "even (unat x div 2 ^ ?a)" "odd (unat y div 2 ^ ?a)"
    by (auto simp only: bit_iff_odd)
  with h have "unat x div 2 ^ ?a < unat y div 2 ^ ?a"
    by (metis dvd_div_mult_self lessI odd_two_times_div_two_succ Suc_eq_plus1 mult.commute)
  then have "unat x < unat y" by (metis div_le_mono not_le)
  then show ?thesis by (simp add: word_less_nat_alt)
qed

subsection \<open>The mask idiom\<close>

definition crit_bit_mask :: "u32 \<Rightarrow> u128" where
  "crit_bit_mask p = drop_bit (unat p mod 128) (push_bit 127 1)"

lemma crit_bit_mask_test:
  assumes "unat p < 128"
  shows "(k AND crit_bit_mask p) \<noteq> 0 \<longleftrightarrow> kbit k (unat p)"
proof -
  have top: "bit (push_bit 127 1 :: u128) j \<longleftrightarrow> j = 127" for j
    by (auto simp only: bit_push_bit_iff bit_1_iff possible_bit_word) simp_all
  have b: "bit (crit_bit_mask p) n \<longleftrightarrow> n = 127 - unat p" if "n < 128" for n
    unfolding crit_bit_mask_def bit_drop_bit_eq comp_def top mod_less [OF assms] using assms by arith
  have "(k AND crit_bit_mask p) \<noteq> 0 \<longleftrightarrow> (\<exists>n<128. bit (k AND crit_bit_mask p) n)"
    by (auto simp: bit_eq_iff dest: bit_imp_le_length)
  also have "\<dots> \<longleftrightarrow> kbit k (unat p)"
    using b [of "127 - unat p"] b by (auto simp: bit_and_iff kbit_def intro: exI [of _ "127 - unat p"])
  finally show ?thesis .
qed

end
