(* ===== verification/Slab.thy ===== *)
theory Slab
  imports Fees KeyBits
begin

text \<open>
  The node store of an order book side (\<open>dex/src/critbit.rs\<close>, \<open>Slab\<close> as \<open>SlabView<AnyNode>\<close>):
  an array of fixed-size nodes behind a header, handed out by a bump index and a linked list
  of freed nodes that lives in the freed nodes themselves.  A node's tag decides how its bytes
  are read, so a node is a datatype with the tags as constructors; the padding and the unused
  bytes of a freed node are not modelled.  The interface its client (the tree) relies on is
  the locale \<open>handle_store\<close>, interpreted on the slab at the end.
\<close>

subsection \<open>Nodes and header\<close>

type_synonym node_handle = u32

record inner_node =
  in_prefix_len :: u32
  in_key :: u128
  in_children :: "u32 \<times> u32"

record leaf_node =
  lf_owner_slot :: u8
  lf_fee_tier :: u8
  lf_key :: u128
  lf_owner :: aligned
  lf_quantity :: u64
  lf_client_order_id :: u64

datatype any_node =
    Uninitialized
  | InnerNode inner_node
  | LeafNode leaf_node
  | FreeNode u32
  | LastFreeNode u32

text \<open>\<open>self.children[crit_bit as usize]\<close> and the assignment to one child.\<close>

definition child :: "u32 \<times> u32 \<Rightarrow> bool \<Rightarrow> u32" where
  "child c b = (if b then snd c else fst c)"

definition walk_down :: "inner_node \<Rightarrow> u128 \<Rightarrow> u32 \<times> bool" where
  "walk_down n search_key =
     (let crit_bit = (search_key AND crit_bit_mask (in_prefix_len n)) \<noteq> 0
      in (child (in_children n) crit_bit, crit_bit))"

definition leaf_node_new :: "u8 \<Rightarrow> u128 \<Rightarrow> aligned \<Rightarrow> u64 \<Rightarrow> fee_tier \<Rightarrow> u64 \<Rightarrow> leaf_node" where
  "leaf_node_new owner_slot key owner quantity tier client_order_id =
     \<lparr>lf_owner_slot = owner_slot, lf_fee_tier = fee_tier_u8 tier, lf_key = key,
      lf_owner = owner, lf_quantity = quantity, lf_client_order_id = client_order_id\<rparr>"

definition leaf_fee_tier :: "leaf_node \<Rightarrow> dex_fault + fee_tier" where
  "leaf_fee_tier l = unwrap (fee_tier_try_from (lf_fee_tier l))"

definition leaf_price :: "leaf_node \<Rightarrow> dex_fault + u64" where
  "leaf_price l = unwrap (nonzero_new (ucast (drop_bit 64 (lf_key l))))"

definition node_key :: "any_node \<Rightarrow> u128 option" where
  "node_key n = (case n of InnerNode i \<Rightarrow> Some (in_key i) | LeafNode l \<Rightarrow> Some (lf_key l) | _ \<Rightarrow> None)"

text \<open>\<open>AnyNode::children\<close> unwraps \<open>case()\<close>.\<close>

definition node_children :: "any_node \<Rightarrow> dex_fault + (u32 \<times> u32) option" where
  "node_children n =
     (case n of InnerNode i \<Rightarrow> Inr (Some (in_children i)) | LeafNode l \<Rightarrow> Inr None | _ \<Rightarrow> Inl Panic)"

definition as_leaf :: "any_node \<Rightarrow> leaf_node option" where
  "as_leaf n = (case n of LeafNode l \<Rightarrow> Some l | _ \<Rightarrow> None)"

text \<open>The tags for which \<open>AnyNode::case\<close> is defined.\<close>

definition is_live :: "any_node \<Rightarrow> bool" where
  "is_live n = (case n of InnerNode _ \<Rightarrow> True | LeafNode _ \<Rightarrow> True | _ \<Rightarrow> False)"

record slab_header =
  bump_index :: u64
  free_list_len :: u64
  free_list_head :: u32
  root_node :: u32
  leaf_count :: u64

record slab =
  header :: slab_header
  nodes :: "any_node list"

subsection \<open>Operations\<close>

definition slab_assert_minimum_capacity :: "u32 \<Rightarrow> slab \<Rightarrow> dex_fault + unit" where
  "slab_assert_minimum_capacity capacity s =
     (if length (nodes s) \<le> unat capacity * 2 then Inl (err_code SlabTooSmall) else Inr ())"

definition slab_capacity :: "slab \<Rightarrow> nat" where
  "slab_capacity s = length (nodes s)"

definition slab_clear :: "slab \<Rightarrow> slab" where
  "slab_clear s =
     s\<lparr>header := \<lparr>bump_index = 0, free_list_len = 0, free_list_head = 0, root_node = 0, leaf_count = 0\<rparr>\<rparr>"

definition slab_is_empty :: "slab \<Rightarrow> bool" where
  "slab_is_empty s \<longleftrightarrow> bump_index (header s) = free_list_len (header s)"

definition slab_get :: "slab \<Rightarrow> u32 \<Rightarrow> any_node option" where
  "slab_get s key =
     (if unat key < length (nodes s) \<and> is_live (nodes s ! unat key)
      then Some (nodes s ! unat key) else None)"

definition slab_contains :: "slab \<Rightarrow> u32 \<Rightarrow> bool" where
  "slab_contains s key \<longleftrightarrow> slab_get s key \<noteq> None"

text \<open>The store through the reference that \<open>get_mut\<close> returns.\<close>

definition slab_put :: "slab \<Rightarrow> u32 \<Rightarrow> any_node \<Rightarrow> slab" where
  "slab_put s key n = s\<lparr>nodes := (nodes s)[unat key := n]\<rparr>"

definition u32_max :: u64 where  \<comment> \<open>\<open>std::u32::MAX as u64\<close>\<close>
  "u32_max = 4294967295"

text \<open>\<open>Err(())\<close> of the source is \<open>None\<close>; it leaves the slab as it was.\<close>

definition slab_insert :: "any_node \<Rightarrow> slab \<Rightarrow> dex_fault + (u32 option \<times> slab)" where
  "slab_insert val s =
     (if \<not> is_live val then Inl Panic
      else if free_list_len (header s) = 0 then
        (if unat (bump_index (header s)) = length (nodes s) then Inr (None, s)
         else if bump_index (header s) = u32_max then Inr (None, s)
         else
           let key = ucast (bump_index (header s)) :: u32;
               s1 = s\<lparr>header := (header s)\<lparr>bump_index := bump_index (header s) + 1\<rparr>\<rparr>
           in if unat key < length (nodes s) then Inr (Some key, slab_put s1 key val) else Inl Panic)
      else
        let key = free_list_head (header s)
        in if unat key < length (nodes s) then
             and_then
               (case nodes s ! unat key of
                  FreeNode next \<Rightarrow>
                    and_then (assert_panic (1 < free_list_len (header s))) (\<lambda>_. Inr next)
                | LastFreeNode next \<Rightarrow>
                    and_then (assert_panic (free_list_len (header s) = 1)) (\<lambda>_. Inr next)
                | _ \<Rightarrow> Inl Panic)
               (\<lambda>next.
                  Inr (Some key,
                    slab_put (s\<lparr>header := (header s)\<lparr>free_list_head := next,
                                    free_list_len := free_list_len (header s) - 1\<rparr>\<rparr>) key val))
           else Inl Panic)"

definition slab_remove :: "u32 \<Rightarrow> slab \<Rightarrow> any_node option \<times> slab" where
  "slab_remove key s =
     (case slab_get s key of
        None \<Rightarrow> (None, s)
      | Some val \<Rightarrow>
          (let h = header s;
               free_node = (if free_list_len h = 0 then LastFreeNode (free_list_head h)
                            else FreeNode (free_list_head h));
               s1 = slab_put s key free_node
           in (Some val,
               s1\<lparr>header := h\<lparr>free_list_len := free_list_len h + 1, free_list_head := key\<rparr>\<rparr>)))"

subsection \<open>The free list and the live handles\<close>

fun free_chain :: "any_node list \<Rightarrow> u32 \<Rightarrow> u32 list \<Rightarrow> bool" where
  "free_chain ns h [] = True"
| "free_chain ns h [x] = (x = h \<and> unat h < length ns \<and> (\<exists>n. ns ! unat h = LastFreeNode n))"
| "free_chain ns h (x # y # r) =
     (x = h \<and> unat h < length ns \<and> ns ! unat h = FreeNode y \<and> free_chain ns y (y # r))"

definition handles_below :: "nat \<Rightarrow> u32 set" where
  "handles_below b = {h. unat h < b}"

definition slab_alloc_with :: "slab \<Rightarrow> u32 set \<Rightarrow> u32 list \<Rightarrow> bool" where
  "slab_alloc_with s L fs \<longleftrightarrow>
     free_chain (nodes s) (free_list_head (header s)) fs \<and> distinct fs \<and>
     unat (free_list_len (header s)) = length fs \<and>
     set fs \<union> L = handles_below (unat (bump_index (header s))) \<and> set fs \<inter> L = {} \<and>
     unat (bump_index (header s)) \<le> length (nodes s) \<and> length (nodes s) < 2 ^ 32 \<and>
     (\<forall>h\<in>L. is_live (nodes s ! unat h))"

text \<open>The handles in \<open>L\<close> are live, and every other one can still be handed out.\<close>

definition slab_alloc :: "slab \<Rightarrow> u32 set \<Rightarrow> bool" where
  "slab_alloc s L \<longleftrightarrow> (\<exists>fs. slab_alloc_with s L fs)"

lemma finite_handles [simp]: "finite (L :: u32 set)"
  by (rule finite)

lemma card_handles_below:
  assumes "b \<le> 2 ^ 32"
  shows "card (handles_below b) = b"
proof -
  have "unat ` handles_below b = {..<b}"
  proof
    show "unat ` handles_below b \<subseteq> {..<b}" by (auto simp: handles_below_def)
    show "{..<b} \<subseteq> unat ` handles_below b"
    proof
      fix n assume "n \<in> {..<b}"
      then have "n < 2 ^ 32" using assms by simp
      then have "unat (of_nat n :: u32) = n" by (simp add: unat_of_nat)
      with \<open>n \<in> {..<b}\<close> show "n \<in> unat ` handles_below b"
        by (intro image_eqI [of _ _ "of_nat n"]) (simp_all add: handles_below_def)
    qed
  qed
  moreover have "inj_on unat (handles_below b)" by (simp add: inj_on_def word_unat_eq_iff)
  ultimately show ?thesis by (metis card_image card_lessThan)
qed

lemma slab_alloc_card:
  assumes "slab_alloc_with s L fs"
  shows "length fs + card L = unat (bump_index (header s))"
proof -
  let ?b = "unat (bump_index (header s))"
  have u: "set fs \<union> L = handles_below ?b" "set fs \<inter> L = {}" "?b \<le> 2 ^ 32" "distinct fs"
    using assms by (simp_all add: slab_alloc_with_def)
  have "card (set fs \<union> L) = card (set fs) + card L" by (rule card_Un_disjoint) (use u in simp_all)
  then show ?thesis using card_handles_below [OF u(3)] u by (simp add: distinct_card)
qed

lemma slab_alloc_card_le:
  assumes "slab_alloc s L"
  shows "card L \<le> length (nodes s)"
proof -
  obtain fs where fs: "slab_alloc_with s L fs" using assms by (auto simp: slab_alloc_def)
  have "unat (bump_index (header s)) \<le> length (nodes s)" using fs by (simp add: slab_alloc_with_def)
  then show ?thesis using slab_alloc_card [OF fs] by simp
qed

lemma slab_alloc_bound:
  assumes "slab_alloc s L" "h \<in> L"
  shows "unat h < length (nodes s)"
proof -
  obtain fs where fs: "slab_alloc_with s L fs" using assms(1) by (auto simp: slab_alloc_def)
  have "h \<in> set fs \<union> L" using assms(2) by simp
  also have "\<dots> = handles_below (unat (bump_index (header s)))"
    using fs by (simp add: slab_alloc_with_def)
  finally show ?thesis using fs by (simp add: handles_below_def slab_alloc_with_def)
qed

lemma slab_alloc_get:
  assumes "slab_alloc s L" "h \<in> L"
  shows "slab_get s h = Some (nodes s ! unat h)"
  using slab_alloc_bound [OF assms] assms
  by (auto simp: slab_get_def slab_alloc_def slab_alloc_with_def)

lemma free_chain_cong:
  assumes "\<And>h. h \<in> set fs \<Longrightarrow> ns' ! unat h = ns ! unat h" "length ns' = length ns"
  shows "free_chain ns' h fs \<longleftrightarrow> free_chain ns h fs"
  using assms by (induction ns h fs rule: free_chain.induct) fastforce+

lemma free_chain_put:
  assumes "x \<notin> set fs"
  shows "free_chain (ns[unat x := v]) h fs \<longleftrightarrow> free_chain ns h fs"
  using assms by (intro free_chain_cong) (metis nth_list_update_neq word_unat_eq_iff, simp)

lemma free_chain_bound: "free_chain ns h fs \<Longrightarrow> x \<in> set fs \<Longrightarrow> unat x < length ns"
  by (induction ns h fs rule: free_chain.induct) auto

lemma free_chain_head: "free_chain ns h (x # r) \<Longrightarrow> x = h"
  by (cases r) auto

subsection \<open>The laws of the store\<close>

lemma nodes_slab_put [simp]: "nodes (slab_put s h v) = (nodes s)[unat h := v]"
  and header_slab_put [simp]: "header (slab_put s h v) = header s"
  by (simp_all add: slab_put_def)

lemma put_other [simp]: "h \<noteq> g \<Longrightarrow> ns[unat h := v] ! unat g = ns ! unat g"
  by (simp add: word_unat_eq_iff)

lemma put_other' [simp]: "g \<noteq> h \<Longrightarrow> ns[unat h := v] ! unat g = ns ! unat g"
  by (simp add: word_unat_eq_iff)

lemma live_put:
  assumes "\<forall>g\<in>L. is_live (ns ! unat g)" "is_live v" "unat h < length ns"
  shows "\<forall>g\<in>insert h L. is_live (ns[unat h := v] ! unat g)"
  using assms by (metis insert_iff nth_list_update_eq put_other)

lemma slab_insert_full:
  assumes "slab_alloc s L" "is_live v" "card L = length (nodes s)"
  shows "slab_insert v s = Inr (None, s)"
proof -
  obtain fs where fs: "slab_alloc_with s L fs" using assms(1) by (auto simp: slab_alloc_def)
  have b: "unat (bump_index (header s)) \<le> length (nodes s)" "unat (free_list_len (header s)) = length fs"
    using fs by (simp_all add: slab_alloc_with_def)
  then have "length fs = 0" "unat (bump_index (header s)) = length (nodes s)"
    using slab_alloc_card [OF fs] assms(3) by linarith+
  then show ?thesis using assms(2) b by (simp add: slab_insert_def unat_eq_0)
qed

lemma slab_insert_bump:
  assumes "slab_alloc_with s L []" "is_live v" "card L < length (nodes s)"
  shows "\<exists>h s'. slab_insert v s = Inr (Some h, s') \<and> h \<notin> L \<and> slab_alloc s' (insert h L)
           \<and> s' = \<lparr>header = (header s)\<lparr>bump_index := bump_index (header s) + 1\<rparr>,
                   nodes = (nodes s)[unat h := v]\<rparr>"
proof -
  let ?b = "bump_index (header s)" and ?k = "ucast (bump_index (header s)) :: u32"
  have b: "unat ?b = card L" using slab_alloc_card [OF assms(1)] by simp
  have len: "length (nodes s) < 2 ^ 32" and fl: "free_list_len (header s) = 0"
    and L: "L = handles_below (unat ?b)" and live: "\<forall>h\<in>L. is_live (nodes s ! unat h)"
    using assms(1) by (simp_all add: slab_alloc_with_def unat_eq_0)
  have k: "unat ?k = unat ?b"
    using b len assms(3) by (simp add: unsigned_ucast_eq take_bit_nat_eq_self)
  have kl: "unat ?k < length (nodes s)" using k b assms(3) by simp
  have ne: "?b \<noteq> u32_max"
    using b len assms(3) by (auto simp: u32_max_def)
  have b1: "unat (?b + 1) = unat ?b + 1"
    using b len assms(3) by (subst unat_add_small) simp_all
  let ?s' = "\<lparr>header = (header s)\<lparr>bump_index := ?b + 1\<rparr>, nodes = (nodes s)[unat ?k := v]\<rparr>"
  have eq: "slab_insert v s = Inr (Some ?k, ?s')"
    using assms(2) fl b assms(3) ne kl by (simp add: slab_insert_def Let_def slab_put_def)
  have "insert ?k L = handles_below (unat ?b + 1)"
    using k unfolding L by (auto simp: handles_below_def less_Suc_eq word_unat_eq_iff)
  then have "slab_alloc_with ?s' (insert ?k L) []"
    using len b b1 assms(3) fl live_put [OF live assms(2) kl]
    unfolding slab_alloc_with_def by simp
  moreover have "?k \<notin> L" using k unfolding L by (simp add: handles_below_def)
  ultimately show ?thesis using eq by (metis slab_alloc_def)
qed

lemma slab_insert_reuse:
  assumes "slab_alloc_with s L (x # fs)" "is_live v"
  shows "\<exists>next s'. slab_insert v s = Inr (Some x, s') \<and> x \<notin> L \<and> slab_alloc s' (insert x L)
           \<and> s' = \<lparr>header = (header s)\<lparr>free_list_head := next,
                              free_list_len := free_list_len (header s) - 1\<rparr>,
                   nodes = (nodes s)[unat x := v]\<rparr>"
proof -
  let ?h = "header s"
  have chain: "free_chain (nodes s) (free_list_head ?h) (x # fs)" and dist: "distinct (x # fs)"
    and fl: "unat (free_list_len ?h) = Suc (length fs)"
    and cover: "set (x # fs) \<union> L = handles_below (unat (bump_index ?h))"
    and disj: "set (x # fs) \<inter> L = {}"
    and bump: "unat (bump_index ?h) \<le> length (nodes s)" "length (nodes s) < 2 ^ 32"
    and live: "\<forall>h\<in>L. is_live (nodes s ! unat h)"
    using assms(1) by (simp_all add: slab_alloc_with_def)
  have x: "x = free_list_head ?h" "unat x < length (nodes s)"
    using chain free_chain_head free_chain_bound by (blast, fastforce)
  obtain nx where tag: "if fs = [] then nodes s ! unat x = LastFreeNode nx
      else nodes s ! unat x = FreeNode nx \<and> free_chain (nodes s) nx fs"
    using chain x by (cases fs) auto
  have fl1: "unat (free_list_len ?h - 1) = length fs" "free_list_len ?h \<noteq> 0"
    using fl by (auto simp: unat_sub word_le_nat_alt)
  have one: "free_list_len ?h = 1 \<longleftrightarrow> fs = []"
    using fl by (auto simp: word_unat_eq_iff)
  have gt: "1 < free_list_len ?h \<longleftrightarrow> fs \<noteq> []"
    using fl by (auto simp: word_less_nat_alt)
  let ?s' = "\<lparr>header = ?h\<lparr>free_list_head := nx, free_list_len := free_list_len ?h - 1\<rparr>,
              nodes = (nodes s)[unat x := v]\<rparr>"
  have eq: "slab_insert v s = Inr (Some x, ?s')"
    using assms(2) fl1 x tag one gt
    by (auto simp: slab_insert_def Let_def slab_put_def split: if_splits)
  have "free_chain ((nodes s)[unat x := v]) nx fs"
    using tag dist by (cases fs) (auto simp: free_chain_put)
  then have "slab_alloc_with ?s' (insert x L) fs"
    using dist fl1 cover disj bump live_put [OF live assms(2) x(2)]
    unfolding slab_alloc_with_def by auto
  then show ?thesis using eq disj by (auto simp: slab_alloc_def)
qed

lemma slab_insert_room:
  assumes "slab_alloc s L" "is_live v" "card L < length (nodes s)"
  obtains h s' where "slab_insert v s = Inr (Some h, s')" "h \<notin> L" "slab_alloc s' (insert h L)"
    "slab_get s' h = Some v" "nodes s' = (nodes s)[unat h := v]"
    "root_node (header s') = root_node (header s)" "leaf_count (header s') = leaf_count (header s)"
proof -
  obtain fs where fs: "slab_alloc_with s L fs" using assms(1) by (auto simp: slab_alloc_def)
  obtain h s' where *: "slab_insert v s = Inr (Some h, s')" "h \<notin> L" "slab_alloc s' (insert h L)"
    "nodes s' = (nodes s)[unat h := v]"
    "root_node (header s') = root_node (header s)" "leaf_count (header s') = leaf_count (header s)"
  proof (cases fs)
    case Nil
    then show thesis using slab_insert_bump [OF _ assms(2,3)] fs that by fastforce
  next
    case (Cons x xs)
    then show thesis using slab_insert_reuse [OF _ assms(2)] fs that by fastforce
  qed
  have "unat h < length (nodes s)" using slab_alloc_bound [OF *(3), of h] *(4) by simp
  then have "slab_get s' h = Some v" using slab_alloc_get [OF *(3), of h] *(4) by simp
  with * show thesis using that by blast
qed

lemma slab_remove_live:
  assumes "slab_alloc s L" "h \<in> L"
  obtains s' w where "slab_remove h s = (slab_get s h, s')" "slab_alloc s' (L - {h})"
    "nodes s' = (nodes s)[unat h := w]"
    "root_node (header s') = root_node (header s)" "leaf_count (header s') = leaf_count (header s)"
proof -
  obtain fs where fs: "slab_alloc_with s L fs" using assms(1) by (auto simp: slab_alloc_def)
  let ?h = "header s"
  have chain: "free_chain (nodes s) (free_list_head ?h) fs" and dist: "distinct fs"
    and fl: "unat (free_list_len ?h) = length fs"
    and cover: "set fs \<union> L = handles_below (unat (bump_index ?h))" and disj: "set fs \<inter> L = {}"
    and bump: "unat (bump_index ?h) \<le> length (nodes s)" "length (nodes s) < 2 ^ 32"
    and live: "\<forall>h\<in>L. is_live (nodes s ! unat h)"
    using fs by (simp_all add: slab_alloc_with_def)
  have hl: "unat h < length (nodes s)" by (rule slab_alloc_bound [OF assms])
  have nfs: "h \<notin> set fs" using assms(2) disj by blast
  define w where "w = (if free_list_len ?h = 0 then LastFreeNode (free_list_head ?h)
      else FreeNode (free_list_head ?h))"
  let ?ns = "(nodes s)[unat h := w]"
  let ?s' = "\<lparr>header = ?h\<lparr>free_list_len := free_list_len ?h + 1, free_list_head := h\<rparr>, nodes = ?ns\<rparr>"
  have eq: "slab_remove h s = (slab_get s h, ?s')"
    using slab_alloc_get [OF assms] by (simp add: slab_remove_def Let_def w_def slab_put_def)
  have "length fs < 2 ^ 32" using slab_alloc_card [OF fs] bump by simp
  then have fl1: "unat (free_list_len ?h + 1) = length (h # fs)"
    using fl by (subst unat_add_small) simp_all
  have c: "free_chain ?ns (free_list_head ?h) fs" using chain nfs by (simp add: free_chain_put)
  have "free_chain ?ns h (h # fs)"
  proof (cases fs)
    case Nil
    then show ?thesis using fl hl by (simp add: w_def unat_eq_0)
  next
    case (Cons y r)
    then have "y = free_list_head ?h" using chain free_chain_head by blast
    moreover have "free_list_len ?h \<noteq> 0" using fl Cons by auto
    ultimately show ?thesis using c hl Cons by (simp add: w_def)
  qed
  moreover have "\<forall>g\<in>L - {h}. is_live (?ns ! unat g)"
    using live by (metis Diff_iff insertI1 put_other)
  ultimately have "slab_alloc_with ?s' (L - {h}) (h # fs)"
    using dist nfs fl1 cover disj bump assms(2) unfolding slab_alloc_with_def by auto
  then have "slab_alloc ?s' (L - {h})" by (auto simp: slab_alloc_def)
  then show thesis by (rule that [OF eq]) simp_all
qed

lemma slab_alloc_put:
  assumes "slab_alloc s L" "h \<in> L" "is_live v"
  shows "slab_alloc (slab_put s h v) L"
proof -
  obtain fs where fs: "slab_alloc_with s L fs" using assms(1) by (auto simp: slab_alloc_def)
  have "h \<notin> set fs" using fs assms(2) by (auto simp: slab_alloc_with_def)
  moreover have "\<forall>g\<in>insert h L. is_live ((nodes s)[unat h := v] ! unat g)"
    by (rule live_put) (use fs assms slab_alloc_bound in \<open>auto simp: slab_alloc_with_def\<close>)
  ultimately have "slab_alloc_with (slab_put s h v) L fs"
    using fs by (auto simp: slab_alloc_with_def free_chain_put)
  then show ?thesis by (auto simp: slab_alloc_def)
qed

subsection \<open>The interface of the store\<close>

text \<open>
  What the tree relies on: \<open>alloc s L\<close> says that exactly the handles in \<open>L\<close> are in use,
  \<open>cap\<close> bounds their number, \<open>meta\<close> is what the client keeps beside the nodes.
\<close>

locale handle_store =
  fixes alloc :: "'s \<Rightarrow> 'h set \<Rightarrow> bool"
    and cap :: "'s \<Rightarrow> nat"
    and meta :: "'s \<Rightarrow> 'm"
    and ok :: "'n \<Rightarrow> bool"
    and get :: "'s \<Rightarrow> 'h \<Rightarrow> 'n option"
    and put :: "'s \<Rightarrow> 'h \<Rightarrow> 'n \<Rightarrow> 's"
    and ins :: "'n \<Rightarrow> 's \<Rightarrow> 'f + ('h option \<times> 's)"
    and rem :: "'h \<Rightarrow> 's \<Rightarrow> 'n option \<times> 's"
  assumes finite_live: "alloc s L \<Longrightarrow> finite L"
    and get_live: "alloc s L \<Longrightarrow> h \<in> L \<Longrightarrow> \<exists>n. get s h = Some n \<and> ok n"
    and put_live: "alloc s L \<Longrightarrow> h \<in> L \<Longrightarrow> ok v \<Longrightarrow>
          alloc (put s h v) L \<and> get (put s h v) h = Some v \<and>
          (\<forall>g\<in>L - {h}. get (put s h v) g = get s g) \<and> cap (put s h v) = cap s \<and>
          meta (put s h v) = meta s"
    and ins_full: "alloc s L \<Longrightarrow> ok v \<Longrightarrow> card L = cap s \<Longrightarrow> ins v s = Inr (None, s)"
    and ins_room: "alloc s L \<Longrightarrow> ok v \<Longrightarrow> card L < cap s \<Longrightarrow>
          \<exists>h s'. ins v s = Inr (Some h, s') \<and> h \<notin> L \<and> alloc s' (insert h L) \<and>
            get s' h = Some v \<and> (\<forall>g\<in>L. get s' g = get s g) \<and> cap s' = cap s \<and> meta s' = meta s"
    and rem_live: "alloc s L \<Longrightarrow> h \<in> L \<Longrightarrow>
          \<exists>s'. rem h s = (get s h, s') \<and> alloc s' (L - {h}) \<and>
            (\<forall>g\<in>L - {h}. get s' g = get s g) \<and> cap s' = cap s \<and> meta s' = meta s"
    and live_le_cap: "alloc s L \<Longrightarrow> card L \<le> cap s"
begin

lemma ins_two:
  assumes "alloc s L" "ok v" "ok w" "card L + 2 \<le> cap s"
  obtains g h s1 s2 where "ins v s = Inr (Some g, s1)" "ins w s1 = Inr (Some h, s2)"
    "g \<notin> L" "h \<notin> L" "g \<noteq> h" "alloc s2 (insert h (insert g L))"
    "get s2 g = Some v" "get s2 h = Some w" "\<forall>x\<in>L. get s2 x = get s x"
    "cap s2 = cap s" "meta s2 = meta s"
proof -
  obtain g s1 where 1: "ins v s = Inr (Some g, s1)" "g \<notin> L" "alloc s1 (insert g L)"
    "get s1 g = Some v" "\<forall>x\<in>L. get s1 x = get s x" "cap s1 = cap s" "meta s1 = meta s"
    using ins_room [OF assms(1,2)] assms(4) by auto
  have "card (insert g L) < cap s1" using 1 assms finite_live [OF assms(1)] by simp
  then obtain h s2 where "ins w s1 = Inr (Some h, s2)" "h \<notin> insert g L"
    "alloc s2 (insert h (insert g L))" "get s2 h = Some w" "\<forall>x\<in>insert g L. get s2 x = get s1 x"
    "cap s2 = cap s1" "meta s2 = meta s1"
    using ins_room [OF 1(3) assms(3)] by auto
  with 1 show thesis by (intro that [of g s1 h s2]) auto
qed

text \<open>One free slot is not enough for two: taking it back restores the store.\<close>

lemma ins_one_rollback:
  assumes "alloc s L" "ok v" "ok w" "card L + 1 = cap s"
  obtains g s1 s2 where "ins v s = Inr (Some g, s1)" "ins w s1 = Inr (None, s1)"
    "rem g s1 = (Some v, s2)" "alloc s2 L" "\<forall>x\<in>L. get s2 x = get s x"
    "cap s2 = cap s" "meta s2 = meta s"
proof -
  obtain g s1 where 1: "ins v s = Inr (Some g, s1)" "g \<notin> L" "alloc s1 (insert g L)"
    "get s1 g = Some v" "\<forall>x\<in>L. get s1 x = get s x" "cap s1 = cap s" "meta s1 = meta s"
    using ins_room [OF assms(1,2)] assms(4) by auto
  have full: "ins w s1 = Inr (None, s1)"
    using ins_full [OF 1(3) assms(3)] 1 assms finite_live [OF assms(1)] by simp
  obtain s2 where 2: "rem g s1 = (get s1 g, s2)" "alloc s2 (insert g L - {g})"
    "\<forall>x\<in>insert g L - {g}. get s2 x = get s1 x" "cap s2 = cap s1" "meta s2 = meta s1"
    using rem_live [OF 1(3), of g] by auto
  have "insert g L - {g} = L" using 1(2) by simp
  with 2 have "alloc s2 L" "\<forall>x\<in>L. get s2 x = get s1 x" by simp_all
  with 1 2 full show thesis by (intro that [of g s1 s2]) auto
qed

text \<open>Freeing \<open>x\<close> with its contents moved to \<open>p\<close>, then freeing \<open>c\<close>.\<close>

lemma move_and_free:
  assumes "alloc s L" "x \<in> L" "p \<in> L" "c \<in> L" "x \<noteq> p" "x \<noteq> c" "p \<noteq> c" "get s x = Some v"
  obtains s1 s2 s3 where "rem x s = (Some v, s1)" "get s1 p \<noteq> None" "s2 = put s1 p v"
    "rem c s2 = (get s c, s3)" "alloc s3 (L - {x, c})" "get s3 p = Some v"
    "\<forall>g\<in>L - {x, c, p}. get s3 g = get s g" "cap s3 = cap s" "meta s2 = meta s" "meta s3 = meta s"
proof -
  obtain s1 where 1: "rem x s = (get s x, s1)" "alloc s1 (L - {x})"
    "\<forall>g\<in>L - {x}. get s1 g = get s g" "cap s1 = cap s" "meta s1 = meta s"
    using rem_live [OF assms(1,2)] by auto
  have v: "ok v" using get_live [OF assms(1,2)] assms(8) by auto
  have p1: "get s1 p \<noteq> None" using get_live [OF 1(2), of p] assms by auto
  define s2 where "s2 = put s1 p v"
  have 2: "alloc s2 (L - {x})" "get s2 p = Some v" "\<forall>g\<in>L - {x} - {p}. get s2 g = get s1 g"
    "cap s2 = cap s1" "meta s2 = meta s1"
    using put_live [OF 1(2), of p v] v assms unfolding s2_def by auto
  obtain s3 where 3: "rem c s2 = (get s2 c, s3)" "alloc s3 (L - {x} - {c})"
    "\<forall>g\<in>L - {x} - {c}. get s3 g = get s2 g" "cap s3 = cap s2" "meta s3 = meta s2"
    using rem_live [OF 2(1), of c] assms by auto
  have "get s2 c = get s c" using 1(3) 2(3) assms by auto
  moreover have "L - {x} - {c} = L - {x, c}" by auto
  ultimately show thesis
    using 1 2 3 p1 s2_def assms by (intro that [of s1 s2 s3]) auto
qed

end

definition slab_meta :: "slab \<Rightarrow> u32 \<times> u64" where
  "slab_meta s = (root_node (header s), leaf_count (header s))"

interpretation slab_store: handle_store slab_alloc slab_capacity slab_meta is_live slab_get slab_put
  slab_insert slab_remove
proof (unfold_locales, goal_cases)
  case (1 s L)
  show ?case by simp
next
  case (2 s L h)
  then show ?case
    using slab_alloc_get [of s L h] by (auto simp: slab_alloc_def slab_alloc_with_def)
next
  case (3 s L h v)
  then have "slab_alloc (slab_put s h v) L" by (rule slab_alloc_put)
  moreover have "unat h < length (nodes s)" using 3 slab_alloc_bound by blast
  ultimately show ?case
    using slab_alloc_get [of "slab_put s h v" L] slab_alloc_get [of s L] 3 put_other [of h _ "nodes s" v]
    by (auto simp: slab_capacity_def slab_meta_def)
next
  case (4 s L v)
  then show ?case by (simp add: slab_insert_full slab_capacity_def)
next
  case (5 s L v)
  obtain h s' where *: "slab_insert v s = Inr (Some h, s')" "h \<notin> L" "slab_alloc s' (insert h L)"
    "slab_get s' h = Some v" "nodes s' = (nodes s)[unat h := v]"
    "root_node (header s') = root_node (header s)" "leaf_count (header s') = leaf_count (header s)"
    by (rule slab_insert_room [of s L v]) (use 5 in \<open>simp_all add: slab_capacity_def\<close>)
  have "slab_get s' g = slab_get s g" if "g \<in> L" for g
  proof -
    have "h \<noteq> g" using that *(2) by blast
    then show ?thesis
      using slab_alloc_get [OF *(3), of g] slab_alloc_get [OF 5(1), of g] that *(5) by simp
  qed
  with * show ?case by (auto simp: slab_capacity_def slab_meta_def)
next
  case (6 s L h)
  obtain s' w where *: "slab_remove h s = (slab_get s h, s')" "slab_alloc s' (L - {h})"
    "nodes s' = (nodes s)[unat h := w]"
    "root_node (header s') = root_node (header s)" "leaf_count (header s') = leaf_count (header s)"
    by (rule slab_remove_live [OF 6])
  have "slab_get s' g = slab_get s g" if "g \<in> L - {h}" for g
    using slab_alloc_get [OF *(2), of g] slab_alloc_get [OF 6(1), of g] that *(3) by auto
  with * show ?case by (auto simp: slab_capacity_def slab_meta_def)
next
  case (7 s L)
  then show ?case by (simp add: slab_alloc_card_le slab_capacity_def)
qed

end
