(* ===== verification/CritTree.thy ===== *)
theory CritTree
  imports Slab
begin

text \<open>
  Abstract crit-bit trees: the shape that the linked nodes of a slab spell out, with the
  handle of every node kept.  A branch at bit \<open>p\<close> has all keys with that bit clear on its
  left and set on its right, and all of them share its first \<open>p\<close> bits.  The theory has the
  in-order leaves, the descent along a search key, the replacement of the subtree where a
  descent stops (\<open>graft\<close>), and the order facts that make the leaves a sorted map.
\<close>

datatype ctree = Tip u32 leaf_node | Br u32 nat u128 ctree ctree

primrec troot :: "ctree \<Rightarrow> u32" where
  "troot (Tip h l) = h"
| "troot (Br h p k a b) = h"

primrec leaves :: "ctree \<Rightarrow> leaf_node list" where
  "leaves (Tip h l) = [l]"
| "leaves (Br h p k a b) = leaves a @ leaves b"

primrec handles :: "ctree \<Rightarrow> u32 list" where
  "handles (Tip h l) = [h]"
| "handles (Br h p k a b) = h # handles a @ handles b"

primrec move :: "u32 \<Rightarrow> ctree \<Rightarrow> ctree" where
  "move g (Tip h l) = Tip g l"
| "move g (Br h p k a b) = Br g p k a b"

text \<open>The contents of the node at the root, and the tree being spelled out by a store.\<close>

primrec tnode :: "ctree \<Rightarrow> any_node" where
  "tnode (Tip h l) = LeafNode l"
| "tnode (Br h p k a b) =
     InnerNode \<lparr>in_prefix_len = of_nat p, in_key = k, in_children = (troot a, troot b)\<rparr>"

primrec repr :: "(u32 \<Rightarrow> any_node option) \<Rightarrow> ctree \<Rightarrow> bool" where
  "repr g (Tip h l) = (g h = Some (LeafNode l))"
| "repr g (Br h p k a b) =
     (g h = Some (tnode (Br h p k a b)) \<and> repr g a \<and> repr g b)"

primrec crit :: "ctree \<Rightarrow> bool" where
  "crit (Tip h l) = True"
| "crit (Br h p k a b) =
     (p < 128 \<and> crit a \<and> crit b \<and>
      (\<forall>l\<in>set (leaves a). agree p (lf_key l) k \<and> \<not> kbit (lf_key l) p) \<and>
      (\<forall>l\<in>set (leaves b). agree p (lf_key l) k \<and> kbit (lf_key l) p))"

lemma leaves_not_Nil [simp]: "leaves t \<noteq> []"
  by (induction t) auto

lemma leaves_move [simp]: "leaves (move g t) = leaves t"
  and crit_move [simp]: "crit (move g t) = crit t"
  and troot_move [simp]: "troot (move g t) = g"
  and tnode_move [simp]: "tnode (move g t) = tnode t"
  by (cases t; simp)+

lemma handles_Cons: "handles t = troot t # tl (handles t)"
  by (cases t) simp_all

lemma handles_move: "handles (move g t) = g # tl (handles t)"
  by (cases t) simp_all

lemma troot_in_handles [simp]: "troot t \<in> set (handles t)"
  by (cases t) simp_all

lemma length_handles: "Suc (length (handles t)) = 2 * length (leaves t)"
  by (induction t) auto

lemma repr_root: "repr g t \<Longrightarrow> g (troot t) = Some (tnode t)"
  by (cases t) simp_all

lemma repr_cong:
  assumes "\<And>h. h \<in> set (handles t) \<Longrightarrow> g' h = g h"
  shows "repr g' t = repr g t"
  using assms by (induction t) auto

lemma repr_move:
  assumes "repr g t" "g' h = Some (tnode t)" "\<And>x. x \<in> set (tl (handles t)) \<Longrightarrow> g' x = g x"
  shows "repr g' (move h t)"
proof (cases t)
  case (Br r p k a b)
  have "repr g' a" "repr g' b"
    using assms(1,3) Br repr_cong [of a g' g] repr_cong [of b g' g] by auto
  with assms(2) Br show ?thesis by simp
qed (use assms in simp)

lemma crit_agree:
  assumes "crit (Br h p k a b)" "l \<in> set (leaves (Br h p k a b))"
  shows "agree p (lf_key l) k"
  using assms by auto

lemma crit_leaves_sorted: "crit t \<Longrightarrow> sorted_wrt (\<lambda>x y. lf_key x < lf_key y) (leaves t)"
proof (induction t)
  case (Br h p k a b)
  have "lf_key x < lf_key y" if "x \<in> set (leaves a)" "y \<in> set (leaves b)" for x y
  proof (rule key_less_by_bit [of p])
    have "agree p (lf_key x) k" "agree p (lf_key y) k" using Br.prems that by simp_all
    then show "agree p (lf_key x) (lf_key y)" by (rule agree_trans [OF _ agree_sym])
  qed (use Br.prems that in simp_all)
  with Br show ?case by (auto simp: sorted_wrt_append)
qed simp

lemma crit_distinct_keys:
  assumes "crit t" "x \<in> set (leaves t)" "y \<in> set (leaves t)" "lf_key x = lf_key y"
  shows "x = y"
  using crit_leaves_sorted [OF assms(1)] assms(2-4)
  by (metis in_set_conv_nth less_irrefl linorder_neqE_nat sorted_wrt_iff_nth_less)

lemma crit_map_of:
  assumes "crit t" "l \<in> set (leaves t)"
  shows "map_of (map (\<lambda>l. (lf_key l, l)) (leaves t)) (lf_key l) = Some l"
proof -
  have "sorted_wrt (<) (map lf_key (leaves t))"
    using crit_leaves_sorted [OF assms(1)] by (simp add: sorted_wrt_map)
  then have "distinct (map lf_key (leaves t))" by (simp add: strict_sorted_iff)
  then show ?thesis using assms(2) by (intro map_of_is_SomeI) (auto simp: comp_def)
qed

subsection \<open>Descent and graft\<close>

text \<open>
  A descent follows the bits of the key and stops at a leaf, or at the first branch that
  satisfies \<open>st\<close>.
\<close>

primrec desc :: "(ctree \<Rightarrow> bool) \<Rightarrow> u128 \<Rightarrow> ctree \<Rightarrow> ctree" where
  "desc st key (Tip h l) = Tip h l"
| "desc st key (Br h p k a b) =
     (if st (Br h p k a b) then Br h p k a b
      else if kbit key p then desc st key b else desc st key a)"

primrec graft :: "(ctree \<Rightarrow> bool) \<Rightarrow> u128 \<Rightarrow> ctree \<Rightarrow> ctree \<Rightarrow> ctree" where
  "graft st key u (Tip h l) = u"
| "graft st key u (Br h p k a b) =
     (if st (Br h p k a b) then u
      else if kbit key p then Br h p k a (graft st key u b) else Br h p k (graft st key u a) b)"

lemma desc_handles: "set (handles (desc st key t)) \<subseteq> set (handles t)"
  by (induction t) auto

lemma desc_leaves: "set (leaves (desc st key t)) \<subseteq> set (leaves t)"
  by (induction t) auto

lemma desc_distinct: "distinct (handles t) \<Longrightarrow> distinct (handles (desc st key t))"
  by (induction t) auto

lemma desc_crit: "crit t \<Longrightarrow> crit (desc st key t)"
  by (induction t) auto

lemma desc_repr: "repr g t \<Longrightarrow> repr g (desc st key t)"
  by (induction t) auto

lemma desc_stop: "(\<exists>h l. desc st key t = Tip h l) \<or> st (desc st key t)"
  by (induction t) auto

lemma troot_graft: "troot u = troot (desc st key t) \<Longrightarrow> troot (graft st key u t) = troot t"
  by (induction t) auto

lemma graft_leaves:
  "\<exists>xs ys. leaves t = xs @ leaves (desc st key t) @ ys
         \<and> (\<forall>u. leaves (graft st key u t) = xs @ leaves u @ ys)"
proof (induction t)
  case (Tip h l)
  show ?case by (rule exI [of _ "[]"], rule exI [of _ "[]"]) simp
next
  case (Br h p k a b)
  show ?case
  proof (cases "st (Br h p k a b)")
    case True
    then show ?thesis by (intro exI [of _ "[]"]) simp
  next
    case False
    obtain xs ys where a: "leaves a = xs @ leaves (desc st key a) @ ys"
      "\<forall>u. leaves (graft st key u a) = xs @ leaves u @ ys" using Br.IH(1) by blast
    obtain xs' ys' where b: "leaves b = xs' @ leaves (desc st key b) @ ys'"
      "\<forall>u. leaves (graft st key u b) = xs' @ leaves u @ ys'" using Br.IH(2) by blast
    show ?thesis
    proof (cases "kbit key p")
      case True
      with False b show ?thesis by (intro exI [of _ "leaves a @ xs'"] exI [of _ ys']) simp
    next
      case kb: False
      with False a show ?thesis by (intro exI [of _ xs] exI [of _ "ys @ leaves b"]) simp
    qed
  qed
qed

lemma graft_handles:
  assumes "distinct (handles t)" "troot u = troot (desc st key t)" "distinct (handles u)"
    "set (handles u) \<inter> (set (handles t) - set (handles (desc st key t))) = {}"
  shows "set (handles (graft st key u t)) =
           (set (handles t) - set (handles (desc st key t))) \<union> set (handles u)
       \<and> distinct (handles (graft st key u t))"
  using assms
proof (induction t)
  case (Br h p k a b)
  show ?case
  proof (cases "st (Br h p k a b)")
    case False
    have d: "h \<notin> set (handles a)" "h \<notin> set (handles b)" "distinct (handles a)" "distinct (handles b)"
      "set (handles a) \<inter> set (handles b) = {}" using Br.prems(1) by auto
    show ?thesis
    proof (cases "kbit key p")
      case True
      have sub: "set (handles (desc st key b)) \<subseteq> set (handles b)" by (rule desc_handles)
      have root: "troot u \<in> set (handles u)" by simp
      have "set (handles u) \<inter> (set (handles b) - set (handles (desc st key b))) = {}"
        using Br.prems(4) False True by auto
      then have IH: "set (handles (graft st key u b)) =
           (set (handles b) - set (handles (desc st key b))) \<union> set (handles u)"
         "distinct (handles (graft st key u b))"
        using Br.IH(2) Br.prems d False True by auto
      have "set (handles u) \<inter> insert h (set (handles a)) = {}"
        using Br.prems(4) False True d sub by auto
      then show ?thesis using IH d sub False True by auto
    next
      case kb: False
      have sub: "set (handles (desc st key a)) \<subseteq> set (handles a)" by (rule desc_handles)
      have "set (handles u) \<inter> (set (handles a) - set (handles (desc st key a))) = {}"
        using Br.prems(4) False kb by auto
      then have IH: "set (handles (graft st key u a)) =
           (set (handles a) - set (handles (desc st key a))) \<union> set (handles u)"
         "distinct (handles (graft st key u a))"
        using Br.IH(1) Br.prems d False kb by auto
      have "set (handles u) \<inter> insert h (set (handles b)) = {}"
        using Br.prems(4) False kb d sub by auto
      then show ?thesis using IH d sub False kb by auto
    qed
  qed (use Br.prems in auto)
qed auto

lemma graft_repr:
  assumes "repr g t" "distinct (handles t)" "repr g' u" "troot u = troot (desc st key t)"
    "\<And>h. h \<in> set (handles t) - set (handles (desc st key t)) \<Longrightarrow> g' h = g h"
  shows "repr g' (graft st key u t)"
  using assms
proof (induction t)
  case (Br h p k a b)
  show ?case
  proof (cases "st (Br h p k a b)")
    case False
    have d: "h \<notin> set (handles a)" "h \<notin> set (handles b)" "distinct (handles a)" "distinct (handles b)"
      "set (handles a) \<inter> set (handles b) = {}" using Br.prems(2) by auto
    have suba: "set (handles (desc st key a)) \<subseteq> set (handles a)"
      and subb: "set (handles (desc st key b)) \<subseteq> set (handles b)" by (rule desc_handles)+
    show ?thesis
    proof (cases "kbit key p")
      case True
      have same: "g' x = g x" if "x = h \<or> x \<in> set (handles a) \<or>
          x \<in> set (handles b) - set (handles (desc st key b))" for x
        using Br.prems(5) [of x] that False True d subb by auto
      have "repr g' (graft st key u b)" using Br.IH(2) Br.prems d same False True by auto
      moreover have "repr g' a" using Br.prems(1) repr_cong [of a g' g] same by auto
      moreover have "troot (graft st key u b) = troot b"
        using Br.prems(4) False True by (simp add: troot_graft)
      ultimately show ?thesis using Br.prems(1) same [of h] False True by simp
    next
      case kb: False
      have same: "g' x = g x" if "x = h \<or> x \<in> set (handles b) \<or>
          x \<in> set (handles a) - set (handles (desc st key a))" for x
        using Br.prems(5) [of x] that False kb d suba by auto
      have "repr g' (graft st key u a)" using Br.IH(1) Br.prems d same False kb by auto
      moreover have "repr g' b" using Br.prems(1) repr_cong [of b g' g] same by auto
      moreover have "troot (graft st key u a) = troot a"
        using Br.prems(4) False kb by (simp add: troot_graft)
      ultimately show ?thesis using Br.prems(1) same [of h] False kb by simp
    qed
  qed (use Br.prems in simp)
qed simp

text \<open>A graft keeps the critical-bit property when its new keys fit every branch it passed.\<close>

definition fits :: "(ctree \<Rightarrow> bool) \<Rightarrow> u128 \<Rightarrow> u128 \<Rightarrow> bool" where
  "fits st key x \<longleftrightarrow>
     (\<forall>h p k a b. \<not> st (Br h p k a b) \<longrightarrow> p < 128 \<longrightarrow> agree p x k \<and> (kbit x p \<longleftrightarrow> kbit key p))"

lemma graft_crit:
  assumes "crit t" "crit u"
    "\<And>l. l \<in> set (leaves u) \<Longrightarrow> l \<in> set (leaves (desc st key t)) \<or> fits st key (lf_key l)"
  shows "crit (graft st key u t)"
  using assms
proof (induction t)
  case (Br h p k a b)
  show ?case
  proof (cases "st (Br h p k a b)")
    case False
    have fit: "agree p (lf_key l) k \<and> (kbit (lf_key l) p \<longleftrightarrow> kbit key p)"
      if "fits st key (lf_key l)" for l
      using that False Br.prems(1) unfolding fits_def by (metis crit.simps(2))
    have suba: "set (leaves (desc st key a)) \<subseteq> set (leaves a)"
      and subb: "set (leaves (desc st key b)) \<subseteq> set (leaves b)" by (rule desc_leaves)+
    show ?thesis
    proof (cases "kbit key p")
      case True
      obtain xs ys where b: "leaves b = xs @ leaves (desc st key b) @ ys"
        "\<forall>u. leaves (graft st key u b) = xs @ leaves u @ ys" using graft_leaves by blast
      have "crit (graft st key u b)" using Br.IH(2) Br.prems False True by simp
      moreover have "agree p (lf_key l) k \<and> kbit (lf_key l) p"
        if "l \<in> set (leaves (graft st key u b))" for l
      proof -
        have "l \<in> set (leaves b) \<or> fits st key (lf_key l)"
          using that b Br.prems(3) [of l] False True by auto
        then show ?thesis using Br.prems(1) fit [of l] True by auto
      qed
      ultimately show ?thesis using Br.prems(1) False True by simp
    next
      case kb: False
      obtain xs ys where a: "leaves a = xs @ leaves (desc st key a) @ ys"
        "\<forall>u. leaves (graft st key u a) = xs @ leaves u @ ys" using graft_leaves by blast
      have "crit (graft st key u a)" using Br.IH(1) Br.prems False kb by simp
      moreover have "agree p (lf_key l) k \<and> \<not> kbit (lf_key l) p"
        if "l \<in> set (leaves (graft st key u a))" for l
      proof -
        have "l \<in> set (leaves a) \<or> fits st key (lf_key l)"
          using that a Br.prems(3) [of l] False kb by auto
        then show ?thesis using Br.prems(1) fit [of l] kb by auto
      qed
      ultimately show ?thesis using Br.prems(1) False kb by simp
    qed
  qed (use Br.prems in simp)
qed simp

end
