(* ===== verification/Critbit.thy ===== *)
theory Critbit
  imports CritTree
begin

text \<open>
  The tree operations of an order book side (\<open>dex/src/critbit.rs\<close>, \<open>impl Slab\<close>): insertion,
  removal and the extreme keys of a crit-bit tree whose nodes live in the slab.  A loop that
  follows child handles carries fuel one above the number of nodes: the handle is its whole
  state, so a walk longer than the array has met a node twice and goes on forever, which is
  the outcome \<open>Diverges\<close>.  The second half relates the operations to the abstract trees.
\<close>

datatype slab_tree_error = OutOfSpace

definition slab_fuel :: "slab \<Rightarrow> nat" where
  "slab_fuel s = Suc (length (nodes s))"

definition slab_root :: "slab \<Rightarrow> u32 option" where
  "slab_root s = (if leaf_count (header s) = 0 then None else Some (root_node (header s)))"

primrec find_min_max_loop :: "nat \<Rightarrow> bool \<Rightarrow> u32 \<Rightarrow> slab \<Rightarrow> dex_fault + u32 option" where
  "find_min_max_loop 0 find_max root s = Inl Diverges"
| "find_min_max_loop (Suc n) find_max root s =
     (case slab_get s root of
        None \<Rightarrow> Inl Panic
      | Some (InnerNode i) \<Rightarrow> find_min_max_loop n find_max (child (in_children i) find_max) s
      | Some _ \<Rightarrow> Inr (Some root))"

definition find_min_max :: "bool \<Rightarrow> slab \<Rightarrow> dex_fault + u32 option" where
  "find_min_max find_max s =
     (case slab_root s of
        None \<Rightarrow> Inr None
      | Some root \<Rightarrow> find_min_max_loop (slab_fuel s) find_max root s)"

definition find_min :: "slab \<Rightarrow> dex_fault + u32 option" where
  "find_min s = find_min_max False s"

definition find_max :: "slab \<Rightarrow> dex_fault + u32 option" where
  "find_max s = find_min_max True s"

subsection \<open>Insertion\<close>

type_synonym insert_result = "slab_tree_error + (u32 \<times> leaf_node option)"

text \<open>
  The part of \<open>insert_leaf\<close> that turns the node at \<open>root\<close> into the branch above the new
  leaf and the node's old contents.
\<close>

definition insert_split ::
  "leaf_node \<Rightarrow> u32 \<Rightarrow> any_node \<Rightarrow> u32 \<Rightarrow> slab \<Rightarrow> dex_fault + (insert_result \<times> slab)" where
  "insert_split new_leaf root root_contents shared_prefix_len s =
     (let new_leaf_crit_bit = (crit_bit_mask shared_prefix_len AND lf_key new_leaf) \<noteq> 0
      in and_then (slab_insert (LeafNode new_leaf) s) (\<lambda>(r1, s1).
         case r1 of
           None \<Rightarrow> Inr (Inl OutOfSpace, s1)
         | Some new_leaf_handle \<Rightarrow>
             and_then (slab_insert root_contents s1) (\<lambda>(r2, s2).
             case r2 of
               None \<Rightarrow>
                 (case slab_remove new_leaf_handle s2 of
                    (None, _) \<Rightarrow> Inl Panic
                  | (Some _, s3) \<Rightarrow> Inr (Inl OutOfSpace, s3))
             | Some moved_root_handle \<Rightarrow>
                 (if slab_get s2 root = None then Inl Panic
                  else
                    let new_root =
                          \<lparr>in_prefix_len = shared_prefix_len, in_key = lf_key new_leaf,
                           in_children = (if new_leaf_crit_bit
                              then (moved_root_handle, new_leaf_handle)
                              else (new_leaf_handle, moved_root_handle))\<rparr>;
                        s3 = slab_put s2 root (InnerNode new_root)
                    in Inr (Inr (new_leaf_handle, None),
                         s3\<lparr>header := (header s3)\<lparr>leaf_count := leaf_count (header s3) + 1\<rparr>\<rparr>)))))"

primrec insert_leaf_loop ::
  "nat \<Rightarrow> leaf_node \<Rightarrow> u32 \<Rightarrow> slab \<Rightarrow> dex_fault + (insert_result \<times> slab)" where
  "insert_leaf_loop 0 new_leaf root s = Inl Diverges"
| "insert_leaf_loop (Suc n) new_leaf root s =
     (case slab_get s root of
        None \<Rightarrow> Inl Panic
      | Some root_contents \<Rightarrow>
          and_then (unwrap (node_key root_contents)) (\<lambda>root_key.
          if root_key = lf_key new_leaf \<and> as_leaf root_contents \<noteq> None then
            Inr (Inr (root, as_leaf root_contents), slab_put s root (LeafNode new_leaf))
          else
            let shared_prefix_len = leading_zeros (root_key XOR lf_key new_leaf)
            in (case root_contents of
                  InnerNode inner \<Rightarrow>
                    (if in_prefix_len inner \<le> shared_prefix_len then
                       insert_leaf_loop n new_leaf (fst (walk_down inner (lf_key new_leaf))) s
                     else insert_split new_leaf root root_contents shared_prefix_len s)
                | _ \<Rightarrow> insert_split new_leaf root root_contents shared_prefix_len s)))"

definition insert_leaf :: "leaf_node \<Rightarrow> slab \<Rightarrow> dex_fault + (insert_result \<times> slab)" where
  "insert_leaf new_leaf s =
     (case slab_root s of
        Some root \<Rightarrow> insert_leaf_loop (slab_fuel s) new_leaf root s
      | None \<Rightarrow>
          and_then (slab_insert (LeafNode new_leaf) s) (\<lambda>(r, s1).
          case r of
            None \<Rightarrow> Inr (Inl OutOfSpace, s1)
          | Some h \<Rightarrow>
              Inr (Inr (h, None),
                   s1\<lparr>header := (header s1)\<lparr>root_node := h, leaf_count := 1\<rparr>\<rparr>)))"

subsection \<open>Removal\<close>

text \<open>
  The loop of \<open>remove_by_key\<close>, from a child and the branch above it to the leaf where it
  stops; \<open>None\<close> when that leaf has another key.
\<close>

primrec remove_walk ::
  "nat \<Rightarrow> u128 \<Rightarrow> u32 \<Rightarrow> u32 \<Rightarrow> bool \<Rightarrow> slab \<Rightarrow> dex_fault + (u32 \<times> u32 \<times> bool) option" where
  "remove_walk 0 search_key parent_h child_h crit_bit s = Inl Diverges"
| "remove_walk (Suc n) search_key parent_h child_h crit_bit s =
     (case slab_get s child_h of
        Some (InnerNode inner) \<Rightarrow>
          (case walk_down inner search_key of
             (grandchild_h, grandchild_crit_bit) \<Rightarrow>
               remove_walk n search_key child_h grandchild_h grandchild_crit_bit s)
      | Some (LeafNode leaf) \<Rightarrow>
          (if lf_key leaf \<noteq> search_key then Inr None
           else Inr (Some (parent_h, child_h, crit_bit)))
      | _ \<Rightarrow> Inl Panic)"

text \<open>
  The final \<open>cast\<close> reinterprets the bytes of the removed node; what it meets is the leaf the
  loop stopped at, so another tag is a case that does not arise, written as a panic.
\<close>

definition remove_splice :: "u32 \<Rightarrow> u32 \<Rightarrow> bool \<Rightarrow> slab \<Rightarrow> dex_fault + (leaf_node option \<times> slab)" where
  "remove_splice parent_h child_h crit_bit s =
     and_then (unwrap (slab_get s parent_h)) (\<lambda>parent.
     and_then (node_children parent) (\<lambda>cs.
     and_then (unwrap cs) (\<lambda>children.
     case slab_remove (child children (\<not> crit_bit)) s of (other, s1) \<Rightarrow>
     and_then (unwrap other) (\<lambda>other_child_node_contents.
     and_then (unwrap (slab_get s1 parent_h)) (\<lambda>_.
     let s2 = slab_put s1 parent_h other_child_node_contents;
         s3 = s2\<lparr>header := (header s2)\<lparr>leaf_count := leaf_count (header s2) - 1\<rparr>\<rparr>
     in case slab_remove child_h s3 of (removed, s4) \<Rightarrow>
     and_then (unwrap removed) (\<lambda>node.
     case node of LeafNode l \<Rightarrow> Inr (Some l, s4) | _ \<Rightarrow> Inl Panic))))))"

definition remove_by_key :: "u128 \<Rightarrow> slab \<Rightarrow> dex_fault + (leaf_node option \<times> slab)" where
  "remove_by_key search_key s =
     (case slab_root s of
        None \<Rightarrow> Inr (None, s)
      | Some parent_h \<Rightarrow>
          (case slab_get s parent_h of
             Some (LeafNode leaf) \<Rightarrow>
               (if lf_key leaf = search_key then
                  (if leaf_count (header s) \<noteq> 1 then Inl Panic
                   else
                     let s1 = s\<lparr>header := (header s)\<lparr>root_node := 0, leaf_count := 0\<rparr>\<rparr>
                     in case slab_remove parent_h s1 of
                          (None, _) \<Rightarrow> Inl Panic
                        | (Some _, s2) \<Rightarrow> Inr (Some leaf, s2))
                else Inr (None, s))
           | Some (InnerNode inner) \<Rightarrow>
               (case walk_down inner search_key of
                  (child_h, crit_bit) \<Rightarrow>
                    and_then (remove_walk (slab_fuel s) search_key parent_h child_h crit_bit s) (\<lambda>r.
                    case r of
                      None \<Rightarrow> Inr (None, s)
                    | Some (parent_h, child_h, crit_bit) \<Rightarrow> remove_splice parent_h child_h crit_bit s))
           | _ \<Rightarrow> Inl Panic))"

definition remove_extreme :: "bool \<Rightarrow> slab \<Rightarrow> dex_fault + (leaf_node option \<times> slab)" where
  "remove_extreme largest s =
     and_then (find_min_max largest s) (\<lambda>h.
     case Option.bind (Option.bind h (slab_get s)) node_key of
       None \<Rightarrow> Inr (None, s)
     | Some key \<Rightarrow> remove_by_key key s)"

definition remove_min :: "slab \<Rightarrow> dex_fault + (leaf_node option \<times> slab)" where
  "remove_min s = remove_extreme False s"

definition remove_max :: "slab \<Rightarrow> dex_fault + (leaf_node option \<times> slab)" where
  "remove_max s = remove_extreme True s"

subsection \<open>Lookup and traversal\<close>

definition node_prefix_len :: "any_node \<Rightarrow> dex_fault + u32" where
  "node_prefix_len n =
     (case n of InnerNode i \<Rightarrow> Inr (in_prefix_len i) | LeafNode l \<Rightarrow> Inr 128 | _ \<Rightarrow> Inl Panic)"

primrec find_by_key_loop :: "nat \<Rightarrow> u128 \<Rightarrow> u32 \<Rightarrow> slab \<Rightarrow> dex_fault + u32 option" where
  "find_by_key_loop 0 search_key node_handle s = Inl Diverges"
| "find_by_key_loop (Suc n) search_key node_handle s =
     and_then (unwrap (slab_get s node_handle)) (\<lambda>node_ref.
     and_then (node_prefix_len node_ref) (\<lambda>prefix_len.
     and_then (unwrap (node_key node_ref)) (\<lambda>key.
     if leading_zeros (search_key XOR key) < prefix_len then Inr None
     else
       case node_ref of
         InnerNode inner \<Rightarrow> find_by_key_loop n search_key (fst (walk_down inner search_key)) s
       | _ \<Rightarrow> Inr (Some node_handle))))"

definition find_by_key :: "u128 \<Rightarrow> slab \<Rightarrow> dex_fault + u32 option" where
  "find_by_key search_key s =
     (case slab_root s of
        None \<Rightarrow> Inr None
      | Some h \<Rightarrow> find_by_key_loop (slab_fuel s) search_key h s)"

primrec walk_rec :: "nat \<Rightarrow> slab \<Rightarrow> u32 \<Rightarrow> leaf_node list \<Rightarrow> dex_fault + leaf_node list" where
  "walk_rec 0 s sub_root buf = Inl Diverges"
| "walk_rec (Suc n) s sub_root buf =
     (case slab_get s sub_root of
        Some (LeafNode leaf) \<Rightarrow> Inr (buf @ [leaf])
      | Some (InnerNode inner) \<Rightarrow>
          and_then (walk_rec n s (fst (in_children inner)) buf)
            (walk_rec n s (snd (in_children inner)))
      | _ \<Rightarrow> Inl Panic)"

definition traverse :: "slab \<Rightarrow> dex_fault + leaf_node list" where
  "traverse s =
     and_then (case slab_root s of None \<Rightarrow> Inr [] | Some r \<Rightarrow> walk_rec (slab_fuel s) s r []) (\<lambda>buf.
     if length buf = unat (leaf_count (header s)) then Inr buf else Inl Panic)"

end
