(* ===== verification/CritbitCorrect.thy ===== *)
theory CritbitCorrect
  imports Critbit
begin

text \<open>
  The order book's tree implements a finite map from order keys to leaves.  \<open>slab_tree s t\<close>
  says that slab \<open>s\<close> holds the abstract tree \<open>t\<close> and nothing else; \<open>slab_inv\<close> that it holds
  some tree or is empty; \<open>slab_orders\<close> is the map it stands for, read off by the code's own
  \<open>traverse\<close>.  The theorems give the effect of every operation on that map, the absence of
  panics and of endless walks, and what happens when the slab is full.
\<close>

definition slab_tree :: "slab \<Rightarrow> ctree \<Rightarrow> bool" where
  "slab_tree s t \<longleftrightarrow>
     repr (slab_get s) t \<and> crit t \<and> distinct (handles t) \<and> slab_alloc s (set (handles t)) \<and>
     root_node (header s) = troot t \<and> unat (leaf_count (header s)) = length (leaves t)"

definition slab_vacant :: "slab \<Rightarrow> bool" where
  "slab_vacant s \<longleftrightarrow> leaf_count (header s) = 0 \<and> slab_alloc s {}"

definition slab_inv :: "slab \<Rightarrow> bool" where
  "slab_inv s \<longleftrightarrow> slab_vacant s \<or> (\<exists>t. slab_tree s t)"

definition leaf_map :: "leaf_node list \<Rightarrow> u128 \<rightharpoonup> leaf_node" where
  "leaf_map ls = map_of (map (\<lambda>l. (lf_key l, l)) ls)"

definition slab_leaves :: "slab \<Rightarrow> leaf_node list" where
  "slab_leaves s = (case traverse s of Inl _ \<Rightarrow> [] | Inr ls \<Rightarrow> ls)"

definition slab_orders :: "slab \<Rightarrow> u128 \<rightharpoonup> leaf_node" where
  "slab_orders s = leaf_map (slab_leaves s)"

subsection \<open>The walks of the code are descents\<close>

lemma unat_of_nat_p: "p < 128 \<Longrightarrow> unat (of_nat p :: u32) = p"
  by (simp add: unat_of_nat)

lemma handles_fuel:
  assumes "slab_tree s t"
  shows "length (handles t) \<le> length (nodes s)"
proof -
  have "card (set (handles t)) \<le> length (nodes s)"
    using assms slab_alloc_card_le by (auto simp: slab_tree_def)
  then show ?thesis using assms by (simp add: slab_tree_def distinct_card)
qed

lemma slab_root_tree: "slab_tree s t \<Longrightarrow> slab_root s = Some (troot t)"
  by (auto simp: slab_tree_def slab_root_def)

lemma slab_root_vacant: "slab_vacant s \<Longrightarrow> slab_root s = None"
  by (auto simp: slab_vacant_def slab_root_def)

lemma walk_down_br:
  assumes "p < 128"
  shows "walk_down \<lparr>in_prefix_len = of_nat p, in_key = k, in_children = (x, y)\<rparr> key
       = (if kbit key p then y else x, kbit key p)"
  using crit_bit_mask_test [of "of_nat p" key] assms
  by (simp add: walk_down_def child_def unat_of_nat_p)

lemma walk_rec_leaves:
  "repr (slab_get s) t \<Longrightarrow> length (handles t) \<le> n \<Longrightarrow> walk_rec n s (troot t) buf = Inr (buf @ leaves t)"
proof (induction t arbitrary: n buf)
  case (Tip h l)
  then show ?case by (cases n) simp_all
next
  case (Br h p k a b)
  then obtain m where "n = Suc m" by (cases n) auto
  with Br show ?case by simp
qed

lemma traverse_tree:
  assumes "slab_tree s t"
  shows "traverse s = Inr (leaves t)"
proof -
  have "walk_rec (slab_fuel s) s (troot t) [] = Inr (leaves t)"
    using walk_rec_leaves [of s t "slab_fuel s" "[]"] handles_fuel [OF assms] assms
    by (simp add: slab_tree_def slab_fuel_def del: walk_rec.simps)
  then show ?thesis
    using assms by (simp add: traverse_def slab_root_tree) (simp add: slab_tree_def)
qed

lemma traverse_vacant: "slab_vacant s \<Longrightarrow> traverse s = Inr []"
  by (simp add: traverse_def slab_root_vacant) (simp add: slab_vacant_def)

lemma slab_leaves_tree: "slab_tree s t \<Longrightarrow> slab_leaves s = leaves t"
  by (simp add: slab_leaves_def traverse_tree)

lemma slab_leaves_vacant: "slab_vacant s \<Longrightarrow> slab_leaves s = []"
  by (simp add: slab_leaves_def traverse_vacant)

lemma leaf_map_eq_Some:
  assumes "crit t"
  shows "leaf_map (leaves t) key = Some l \<longleftrightarrow> l \<in> set (leaves t) \<and> lf_key l = key"
  using crit_map_of [OF assms] by (auto simp: leaf_map_def dest: map_of_SomeD)

lemma leaf_map_eq_None: "leaf_map ls key = None \<longleftrightarrow> key \<notin> lf_key ` set ls"
  by (auto simp: leaf_map_def map_of_eq_None_iff image_image)

subsection \<open>Insertion\<close>

definition ins_stop :: "u128 \<Rightarrow> ctree \<Rightarrow> bool" where
  "ins_stop key t = (case t of Tip h l \<Rightarrow> True | Br h p k a b \<Rightarrow> \<not> agree p k key)"

definition ins_at :: "leaf_node \<Rightarrow> ctree \<Rightarrow> slab \<Rightarrow> dex_fault + (insert_result \<times> slab)" where
  "ins_at l t s =
     (case t of
        Tip h l0 \<Rightarrow>
          (if lf_key l0 = lf_key l then Inr (Inr (h, Some l0), slab_put s h (LeafNode l))
           else insert_split l h (LeafNode l0) (leading_zeros (lf_key l0 XOR lf_key l)) s)
      | Br h p k a b \<Rightarrow> insert_split l h (tnode t) (leading_zeros (k XOR lf_key l)) s)"

lemma shared_ge: "p < 128 \<Longrightarrow> of_nat p \<le> leading_zeros (k XOR key :: u128) \<longleftrightarrow> agree p k key"
  using leading_zeros_xor(2) [of p k key] leading_zeros_xor(4) [of k key]
  by (auto simp: word_le_nat_alt unat_of_nat_p)

lemma insert_leaf_loop_desc:
  "repr (slab_get s) t \<Longrightarrow> crit t \<Longrightarrow> length (handles t) \<le> n \<Longrightarrow>
   insert_leaf_loop n l (troot t) s = ins_at l (desc (ins_stop (lf_key l)) (lf_key l) t) s"
proof (induction t arbitrary: n)
  case (Tip h l0)
  then show ?case by (cases n) (simp_all add: node_key_def as_leaf_def ins_at_def)
next
  case (Br h p k a b)
  then obtain m where n: "n = Suc m" by (cases n) auto
  have p: "p < 128" using Br.prems by simp
  show ?case
  proof (cases "agree p k (lf_key l)")
    case True
    with Br n p show ?thesis
      by (simp add: node_key_def as_leaf_def shared_ge walk_down_br ins_stop_def Let_def)
  next
    case False
    then have "k \<noteq> lf_key l" by auto
    with False Br n p show ?thesis
      by (simp add: node_key_def as_leaf_def shared_ge ins_stop_def ins_at_def Let_def)
  qed
qed

lemma fits_ins: "fits (ins_stop key) key key"
  by (simp add: fits_def ins_stop_def agree_def)

text \<open>Headers apart, and the two fields the tree keeps there.\<close>

lemma slab_get_header [simp]: "slab_get (s\<lparr>header := hdr\<rparr>) h = slab_get s h"
  by (simp add: slab_get_def)

lemma slab_get_header' [simp]: "slab_get (s\<lparr>header := hdr\<rparr>) = slab_get s"
  by (simp add: fun_eq_iff)

lemma slab_alloc_meta [simp]:
  "slab_alloc (s\<lparr>header := (header s)\<lparr>leaf_count := x\<rparr>\<rparr>) L = slab_alloc s L"
  "slab_alloc (s\<lparr>header := (header s)\<lparr>root_node := r, leaf_count := x\<rparr>\<rparr>) L = slab_alloc s L"
  by (simp_all add: slab_alloc_def slab_alloc_with_def)

lemma slab_capacity_header [simp]: "slab_capacity (s\<lparr>header := hdr\<rparr>) = slab_capacity s"
  by (simp add: slab_capacity_def)

lemma is_live_simps [simp]: "is_live (LeafNode l)" "is_live (InnerNode i)" "is_live (tnode t)"
  by (cases t; simp add: is_live_def)+

lemma leaf_count_bound:
  assumes "slab_tree s t"
  shows "2 * length (leaves t) \<le> Suc (length (nodes s)) \<and> length (nodes s) < 2 ^ 32"
  using handles_fuel [OF assms] length_handles [of t] assms
  by (auto simp: slab_tree_def slab_alloc_def slab_alloc_with_def)

definition new_branch :: "leaf_node \<Rightarrow> nat \<Rightarrow> u32 \<Rightarrow> u32 \<Rightarrow> ctree \<Rightarrow> ctree" where
  "new_branch l q g h u =
     (if kbit (lf_key l) q then Br (troot u) q (lf_key l) (move h u) (Tip g l)
      else Br (troot u) q (lf_key l) (Tip g l) (move h u))"

lemma new_branch_simps [simp]:
  "troot (new_branch l q g h u) = troot u"
  "set (leaves (new_branch l q g h u)) = insert l (set (leaves u))"
  "length (leaves (new_branch l q g h u)) = Suc (length (leaves u))"
  "set (handles (new_branch l q g h u)) = {g, h} \<union> set (handles u)"
  by (cases u; auto simp: new_branch_def)+

lemma new_branch_tnode:
  "tnode (new_branch l q g h u) = InnerNode
     \<lparr>in_prefix_len = of_nat q, in_key = lf_key l,
      in_children = (if kbit (lf_key l) q then (h, g) else (g, h))\<rparr>"
  by (simp add: new_branch_def)

lemma new_branch_distinct:
  "distinct (handles u) \<Longrightarrow> g \<noteq> h \<Longrightarrow> g \<notin> set (handles u) \<Longrightarrow> h \<notin> set (handles u) \<Longrightarrow>
   distinct (handles (new_branch l q g h u))"
  by (cases u) (auto simp: new_branch_def)

lemma new_branch_crit:
  assumes "crit u" "q < 128"
    "\<And>x. x \<in> set (leaves u) \<Longrightarrow> agree q (lf_key x) (lf_key l) \<and> kbit (lf_key x) q \<noteq> kbit (lf_key l) q"
  shows "crit (new_branch l q g h u)"
  using assms by (auto simp: new_branch_def)

lemma new_branch_repr:
  assumes "repr f u" "distinct (handles u)" "f' (troot u) = Some (tnode (new_branch l q g h u))"
    "f' g = Some (LeafNode l)" "f' h = Some (tnode u)"
    "\<And>x. x \<in> set (handles u) \<Longrightarrow> x \<noteq> troot u \<Longrightarrow> f' x = f x"
  shows "repr f' (new_branch l q g h u)"
proof -
  have "repr f' (move h u)"
  proof (rule repr_move [of f])
    show "f' x = f x" if "x \<in> set (tl (handles u))" for x
      using that assms(2,6) by (cases u) auto
  qed (use assms in simp_all)
  with assms(3,4) show ?thesis by (simp add: new_branch_def split: if_splits)
qed

lemma insert_split_ok:
  fixes key :: u128
  defines "st \<equiv> ins_stop key"
  assumes tree: "slab_tree s t" and u: "u = desc st key t" and key: "key = lf_key l"
    and q: "q < 128" "unat sp = q"
    and split: "\<And>x. x \<in> set (leaves u) \<Longrightarrow> agree q (lf_key x) key \<and> kbit (lf_key x) q \<noteq> kbit key q"
    and room: "length (handles t) + 2 \<le> length (nodes s)"
  shows "\<exists>g h s'. insert_split l (troot u) (tnode u) sp s = Inr (Inr (g, None), s')
           \<and> slab_get s' g = Some (LeafNode l) \<and> slab_capacity s' = slab_capacity s
           \<and> slab_tree s' (graft st key (new_branch l q g h u) t)"
proof -
  let ?L = "set (handles t)" and ?Lu = "set (handles u)"
  have t: "repr (slab_get s) t" "crit t" "distinct (handles t)" "slab_alloc s ?L"
    "root_node (header s) = troot t" "unat (leaf_count (header s)) = length (leaves t)"
    using tree by (simp_all add: slab_tree_def)
  have sub: "?Lu \<subseteq> ?L" "set (leaves u) \<subseteq> set (leaves t)"
    unfolding u by (rule desc_handles desc_leaves)+
  have du: "distinct (handles u)" and ru: "repr (slab_get s) u" and cu: "crit u"
    unfolding u by (intro desc_distinct desc_repr desc_crit t)+
  have "card ?L + 2 \<le> slab_capacity s"
    using room t(3) by (simp add: distinct_card slab_capacity_def)
  then obtain g h s1 s2 where ins: "slab_insert (LeafNode l) s = Inr (Some g, s1)"
    "slab_insert (tnode u) s1 = Inr (Some h, s2)" "g \<notin> ?L" "h \<notin> ?L" "g \<noteq> h"
    "slab_alloc s2 (insert h (insert g ?L))" "slab_get s2 g = Some (LeafNode l)"
    "slab_get s2 h = Some (tnode u)" "\<forall>x\<in>?L. slab_get s2 x = slab_get s x"
    "slab_capacity s2 = slab_capacity s" "slab_meta s2 = slab_meta s"
    by (rule slab_store.ins_two [OF t(4) is_live_simps(1) is_live_simps(3)])
  let ?nb = "new_branch l q g h u"
  have rL: "troot u \<in> ?L" using sub(1) by auto
  let ?s3 = "slab_put s2 (troot u) (tnode ?nb)"
  have put: "slab_alloc ?s3 (insert h (insert g ?L))" "slab_get ?s3 (troot u) = Some (tnode ?nb)"
    "\<forall>x\<in>insert h (insert g ?L) - {troot u}. slab_get ?s3 x = slab_get s2 x"
    "slab_capacity ?s3 = slab_capacity s2" "slab_meta ?s3 = slab_meta s2"
    using slab_store.put_live [OF ins(6), of "troot u" "tnode ?nb"] rL by auto
  have live: "slab_get s2 (troot u) \<noteq> None" using ins(9) rL ru repr_root by force
  have spq: "sp = of_nat q" using q by (simp add: word_unat_eq_iff unat_of_nat_p)
  have bit: "(crit_bit_mask sp AND lf_key l) \<noteq> 0 \<longleftrightarrow> kbit (lf_key l) q"
    using crit_bit_mask_test [of sp "lf_key l"] q by (simp add: and.commute)
  let ?s4 = "?s3\<lparr>header := (header ?s3)\<lparr>leaf_count := leaf_count (header ?s3) + 1\<rparr>\<rparr>"
  have run: "insert_split l (troot u) (tnode u) sp s = Inr (Inr (g, None), ?s4)"
    using ins(1,2) live
    by (simp add: insert_split_def Let_def bit [unfolded spq] new_branch_tnode spq)
  have gs: "g \<noteq> troot u" "h \<noteq> troot u" using ins(3,4) rL by auto
  have get: "slab_get ?s4 g = Some (LeafNode l)" "slab_get ?s4 h = Some (tnode u)"
    "slab_get ?s4 (troot u) = Some (tnode ?nb)"
    "\<And>x. x \<in> ?L \<Longrightarrow> x \<noteq> troot u \<Longrightarrow> slab_get ?s4 x = slab_get s x"
    using put(2,3) ins(7,8,9) gs by simp_all
  have nbr: "repr (slab_get ?s4) ?nb"
    by (rule new_branch_repr [OF ru du]) (use get sub(1) in blast)+
  have gh: "set (handles (graft st key ?nb t)) = insert h (insert g ?L)
      \<and> distinct (handles (graft st key ?nb t))"
  proof -
    have "distinct (handles ?nb)" by (rule new_branch_distinct) (use du ins sub in auto)
    moreover have "set (handles ?nb) \<inter> (?L - ?Lu) = {}" using ins(3,4) by auto
    ultimately have "set (handles (graft st key ?nb t)) = (?L - ?Lu) \<union> set (handles ?nb)
        \<and> distinct (handles (graft st key ?nb t))"
      using graft_handles [OF t(3), of ?nb st key] unfolding u [symmetric] by simp
    then show ?thesis using sub(1) by auto
  qed
  have gr: "repr (slab_get ?s4) (graft st key ?nb t)"
    by (rule graft_repr [OF t(1,3) nbr]) (use get(4) u in \<open>simp, metis Diff_iff troot_in_handles\<close>)
  have gc: "crit (graft st key ?nb t)"
  proof (rule graft_crit [OF t(2)])
    show "crit ?nb" by (rule new_branch_crit [OF cu q(1)]) (use split key in simp)
    show "x \<in> set (leaves (desc st key t)) \<or> fits st key (lf_key x)" if "x \<in> set (leaves ?nb)" for x
      using that fits_ins unfolding st_def u [unfolded st_def, symmetric] key [symmetric]
      by (auto simp: key)
  qed
  obtain xs ys where lv: "leaves t = xs @ leaves u @ ys"
    "leaves (graft st key ?nb t) = xs @ leaves ?nb @ ys"
    using graft_leaves [of t st key] unfolding u [symmetric] by blast
  have hdr: "root_node (header ?s3) = troot t" "leaf_count (header ?s3) = leaf_count (header s)"
    using put(5) ins(11) t(5) by (simp_all add: slab_meta_def)
  have "unat (leaf_count (header ?s3) + 1) = length (leaves (graft st key ?nb t))"
    using hdr(2) t(6) lv leaf_count_bound [OF tree] by (subst unat_add_small) simp_all
  moreover have "slab_alloc ?s4 (insert h (insert g ?L))" using put(1) by (simp only: slab_alloc_meta)
  ultimately have "slab_tree ?s4 (graft st key ?nb t)"
    using gr gc gh hdr(1) troot_graft [of ?nb st key t]
    unfolding slab_tree_def by (simp add: u [symmetric])
  with run get(1) put(4) ins(10) show ?thesis by (metis slab_capacity_header)
qed

text \<open>Where the insertion walk stops, and what the stop says about the key.\<close>

lemma desc_contains:
  "crit t \<Longrightarrow> x \<in> set (leaves t) \<Longrightarrow> x \<in> set (leaves (desc st (lf_key x) t))"
  by (induction t) auto

lemma ins_stop_cases:
  assumes "crit t" and u: "u = desc (ins_stop key) key t"
  obtains (same) h l where "u = Tip h l" "lf_key l = key"
  | (fresh) k where "key \<notin> lf_key ` set (leaves t)"
      "\<And>l s. lf_key l = key \<Longrightarrow>
         ins_at l u s = insert_split l (troot u) (tnode u) (leading_zeros (k XOR key)) s"
      "unat (leading_zeros (k XOR key)) < 128"
      "\<And>x. x \<in> set (leaves u) \<Longrightarrow>
         agree (unat (leading_zeros (k XOR key))) (lf_key x) key
         \<and> kbit (lf_key x) (unat (leading_zeros (k XOR key)))
           \<noteq> kbit key (unat (leading_zeros (k XOR key)))"
proof -
  have cu: "crit u" unfolding u by (rule desc_crit [OF assms(1)])
  have there: "\<exists>x\<in>set (leaves u). lf_key x = key" if "key \<in> lf_key ` set (leaves t)"
    using that desc_contains [OF assms(1)] unfolding u by blast
  show thesis
  proof (cases u)
    case (Tip h l)
    show thesis
    proof (cases "lf_key l = key")
      case False
      let ?n = "unat (leading_zeros (lf_key l XOR key))"
      have n: "?n < 128"
        using leading_zeros_xor(1,4) [of "lf_key l" key] False by linarith
      have "agree ?n (lf_key l) key" "kbit (lf_key l) ?n \<noteq> kbit key ?n"
        using leading_zeros_xor(2) [of ?n "lf_key l" key] leading_zeros_xor(3) [of "lf_key l" key] n
        by simp_all
      then show thesis using fresh [of "lf_key l"] n there False Tip by (auto simp: ins_at_def)
    qed (use Tip same in blast)
  next
    case (Br h p k a b)
    have "ins_stop key u" using desc_stop [of "ins_stop key" key t] Br unfolding u by auto
    then have na: "\<not> agree p k key" using Br by (simp add: ins_stop_def)
    let ?n = "unat (leading_zeros (k XOR key))"
    have np: "?n < p" "k \<noteq> key"
      using leading_zeros_xor(2) [of p k key] na by auto
    have n: "?n < 128" using np cu Br by simp
    have kk: "agree ?n k key" "kbit k ?n \<noteq> kbit key ?n"
      using leading_zeros_xor(2) [of ?n k key] leading_zeros_xor(3) [of k key] n by simp_all
    have x: "agree ?n (lf_key x) key \<and> kbit (lf_key x) ?n \<noteq> kbit key ?n" if "x \<in> set (leaves u)" for x
    proof -
      have "agree p (lf_key x) k" using crit_agree cu that unfolding Br by blast
      then have "agree ?n (lf_key x) k" "kbit (lf_key x) ?n = kbit k ?n"
        using np(1) agree_mono less_imp_le by (blast, simp add: agree_def)
      then show ?thesis using kk agree_trans by blast
    qed
    have "key \<notin> lf_key ` set (leaves t)" using there x by metis
    then show thesis using fresh [of k] n x Br by (auto simp: ins_at_def)
  qed
qed

lemma insert_split_full:
  assumes tree: "slab_tree s t" and full: "length (nodes s) < length (handles t) + 2"
  shows "\<exists>s'. insert_split l (troot u) (tnode u) sp s = Inr (Inl OutOfSpace, s')
      \<and> slab_tree s' t \<and> slab_capacity s' = slab_capacity s"
proof -
  let ?L = "set (handles t)"
  have t: "slab_alloc s ?L" "distinct (handles t)" using tree by (simp_all add: slab_tree_def)
  have card: "card ?L = length (handles t)" using t(2) by (rule distinct_card)
  consider "card ?L = slab_capacity s" | "card ?L + 1 = slab_capacity s"
    using full handles_fuel [OF tree] card unfolding slab_capacity_def by linarith
  then show ?thesis
  proof cases
    case 1
    then have "slab_insert (LeafNode l) s = Inr (None, s)"
      using slab_store.ins_full [OF t(1)] by simp
    then show ?thesis using tree by (simp add: insert_split_def Let_def)
  next
    case 2
    then obtain g s1 s2 where "slab_insert (LeafNode l) s = Inr (Some g, s1)"
      "slab_insert (tnode u) s1 = Inr (None, s1)" "slab_remove g s1 = (Some (LeafNode l), s2)"
      and s2: "slab_alloc s2 ?L" "\<forall>x\<in>?L. slab_get s2 x = slab_get s x"
      "slab_capacity s2 = slab_capacity s" "slab_meta s2 = slab_meta s"
      by (rule slab_store.ins_one_rollback [OF t(1) is_live_simps(1) is_live_simps(3)])
    then have "insert_split l (troot u) (tnode u) sp s = Inr (Inl OutOfSpace, s2)"
      by (simp add: insert_split_def Let_def)
    moreover have "repr (slab_get s2) t"
      using repr_cong [of t "slab_get s2" "slab_get s"] s2(2) tree by (simp add: slab_tree_def)
    ultimately show ?thesis using s2 tree by (auto simp: slab_tree_def slab_meta_def)
  qed
qed

lemma leaf_map_insert:
  assumes "crit t" "crit t'"
    "set (leaves t') = insert l {x \<in> set (leaves t). lf_key x \<noteq> lf_key l}"
  shows "leaf_map (leaves t') = (leaf_map (leaves t))(lf_key l \<mapsto> l)"
proof
  fix key
  show "leaf_map (leaves t') key = ((leaf_map (leaves t))(lf_key l \<mapsto> l)) key"
  proof (cases "key = lf_key l")
    case True
    then show ?thesis using assms(3) by (simp add: leaf_map_eq_Some [OF assms(2)])
  next
    case False
    have "leaf_map (leaves t') key = Some x \<longleftrightarrow> leaf_map (leaves t) key = Some x" for x
      unfolding leaf_map_eq_Some [OF assms(1)] leaf_map_eq_Some [OF assms(2)] assms(3)
      using False by auto
    then show ?thesis using False by (metis fun_upd_apply not_Some_eq)
  qed
qed

lemma leaf_map_delete:
  assumes "crit t" "crit t'" "set (leaves t') = {x \<in> set (leaves t). lf_key x \<noteq> key}"
  shows "leaf_map (leaves t') = (leaf_map (leaves t))(key := None)"
proof
  fix k
  have "leaf_map (leaves t') k = Some x \<longleftrightarrow> ((leaf_map (leaves t))(key := None)) k = Some x" for x
    using assms(3) by (auto simp: leaf_map_eq_Some [OF assms(1)] leaf_map_eq_Some [OF assms(2)])
  then show "leaf_map (leaves t') k = ((leaf_map (leaves t))(key := None)) k"
    by (metis not_Some_eq)
qed

lemma crit_distinct:
  assumes "crit t"
  shows "distinct (map lf_key (leaves t))"
proof -
  have "sorted_wrt (<) (map lf_key (leaves t))"
    using crit_leaves_sorted [OF assms] by (simp add: sorted_wrt_map)
  then show ?thesis by (simp add: strict_sorted_iff)
qed

text \<open>Taking one leaf out of the in-order list, or putting another one in its place.\<close>

lemma leaves_without:
  assumes "distinct (map lf_key ls)" "ls = xs @ l # ys"
  shows "set xs \<union> set ys = {x \<in> set ls. lf_key x \<noteq> lf_key l}"
proof -
  have "lf_key x \<noteq> lf_key l" if "x \<in> set xs \<union> set ys" for x
  proof -
    have "lf_key l \<notin> lf_key ` (set xs \<union> set ys)" using assms by auto
    then show ?thesis using that by (metis imageI)
  qed
  with assms(2) show ?thesis by auto
qed

lemma ins_replace:
  assumes tree: "slab_tree s t" and u: "desc (ins_stop (lf_key l)) (lf_key l) t = Tip h l0"
    and same: "lf_key l0 = lf_key l"
  shows "slab_tree (slab_put s h (LeafNode l)) (graft (ins_stop (lf_key l)) (lf_key l) (Tip h l) t)
    \<and> slab_get (slab_put s h (LeafNode l)) h = Some (LeafNode l)
    \<and> set (leaves (graft (ins_stop (lf_key l)) (lf_key l) (Tip h l) t)) =
        insert l {x \<in> set (leaves t). lf_key x \<noteq> lf_key l}
    \<and> slab_capacity (slab_put s h (LeafNode l)) = slab_capacity s
    \<and> leaf_map (leaves t) (lf_key l) = Some l0"
proof -
  let ?st = "ins_stop (lf_key l)" and ?key = "lf_key l" and ?L = "set (handles t)"
  let ?t' = "graft ?st ?key (Tip h l) t" and ?s' = "slab_put s h (LeafNode l)"
  have t: "repr (slab_get s) t" "crit t" "distinct (handles t)" "slab_alloc s ?L"
    using tree by (simp_all add: slab_tree_def)
  have hL: "h \<in> ?L" using desc_handles [of ?st ?key t] u by simp
  have l0: "l0 \<in> set (leaves t)" using desc_leaves [of ?st ?key t] u by simp
  have put: "slab_alloc ?s' ?L" "slab_get ?s' h = Some (LeafNode l)"
    "\<forall>g\<in>?L - {h}. slab_get ?s' g = slab_get s g" "slab_capacity ?s' = slab_capacity s"
    "slab_meta ?s' = slab_meta s"
    using slab_store.put_live [OF t(4) hL, of "LeafNode l"] by simp_all
  obtain xs ys where lv: "leaves t = xs @ l0 # ys" "leaves ?t' = xs @ l # ys"
    using graft_leaves [of t ?st ?key] unfolding u by auto
  have set: "set (leaves ?t') = insert l {x \<in> set (leaves t). lf_key x \<noteq> ?key}"
    using leaves_without [OF crit_distinct [OF t(2)] lv(1)] same unfolding lv(2) by auto
  have hs: "set (handles ?t') = ?L \<and> distinct (handles ?t')"
    using graft_handles [OF t(3), of "Tip h l" ?st ?key] u hL by auto
  have "repr (slab_get ?s') ?t'"
    by (rule graft_repr [OF t(1,3)]) (use put(2,3) u in auto)
  moreover have "crit ?t'"
    by (rule graft_crit [OF t(2)]) (use fits_ins in auto)
  ultimately have "slab_tree ?s' ?t'"
    using hs put tree lv troot_graft [of "Tip h l" ?st ?key t] u
    by (simp add: slab_tree_def slab_meta_def)
  with put set l0 same show ?thesis by (simp add: leaf_map_eq_Some [OF t(2)])
qed

lemma insert_leaf_tree:
  assumes tree: "slab_tree s t"
  shows "\<exists>r s'. insert_leaf l s = Inr (r, s') \<and> slab_capacity s' = slab_capacity s \<and>
    (case r of
       Inr (h, old) \<Rightarrow>
         (\<exists>t'. slab_tree s' t' \<and>
            set (leaves t') = insert l {x \<in> set (leaves t). lf_key x \<noteq> lf_key l}) \<and>
         slab_get s' h = Some (LeafNode l) \<and> old = leaf_map (leaves t) (lf_key l) \<and>
         (old = None \<longrightarrow> 2 * length (leaves t) < slab_capacity s)
     | Inl OutOfSpace \<Rightarrow>
         slab_tree s' t \<and> leaf_map (leaves t) (lf_key l) = None \<and>
         slab_capacity s \<le> 2 * length (leaves t))"
proof -
  define u where "u = desc (ins_stop (lf_key l)) (lf_key l) t"
  have ct: "crit t" using tree by (simp add: slab_tree_def)
  have run: "insert_leaf l s = ins_at l u s"
    using insert_leaf_loop_desc [of s t "slab_fuel s" l] tree handles_fuel [OF tree]
    by (simp add: insert_leaf_def slab_root_tree [OF tree] slab_tree_def slab_fuel_def u_def
             del: insert_leaf_loop.simps)
  show ?thesis
  proof (cases rule: ins_stop_cases [OF ct u_def])
    case (1 h l0)
    then have "insert_leaf l s = Inr (Inr (h, Some l0), slab_put s h (LeafNode l))"
      using run by (simp add: ins_at_def)
    then show ?thesis using ins_replace [OF tree 1 [unfolded u_def]] 1(2) by auto
  next
    case (2 k)
    let ?sp = "leading_zeros (k XOR lf_key l)"
    have run: "insert_leaf l s = insert_split l (troot u) (tnode u) ?sp s" using run 2(2) by simp
    have none: "leaf_map (leaves t) (lf_key l) = None" using 2(1) by (simp add: leaf_map_eq_None)
    have nl: "Suc (length (handles t)) = 2 * length (leaves t)" by (rule length_handles)
    show ?thesis
    proof (cases "length (handles t) + 2 \<le> length (nodes s)")
      case True
      obtain g h s' where s': "insert_split l (troot u) (tnode u) ?sp s = Inr (Inr (g, None), s')"
        "slab_get s' g = Some (LeafNode l)" "slab_capacity s' = slab_capacity s"
        "slab_tree s' (graft (ins_stop (lf_key l)) (lf_key l)
           (new_branch l (unat ?sp) g h u) t)"
        using insert_split_ok [OF tree u_def refl 2(3) refl 2(4) True] by blast
      let ?t' = "graft (ins_stop (lf_key l)) (lf_key l) (new_branch l (unat ?sp) g h u) t"
      obtain xs ys where "leaves t = xs @ leaves u @ ys"
        "leaves ?t' = xs @ leaves (new_branch l (unat ?sp) g h u) @ ys"
        using graft_leaves [of t "ins_stop (lf_key l)" "lf_key l"] unfolding u_def by blast
      moreover have "\<forall>x\<in>set (leaves t). lf_key x \<noteq> lf_key l" using 2(1) by (metis imageI)
      ultimately have "set (leaves ?t') = insert l {x \<in> set (leaves t). lf_key x \<noteq> lf_key l}"
        by auto
      then show ?thesis using run s' none nl True by (auto simp: slab_capacity_def)
    next
      case False
      then show ?thesis
        using insert_split_full [OF tree, of l u ?sp] run none nl by (auto simp: slab_capacity_def)
    qed
  qed
qed

end
