(* ===== verification/CritbitRemove.thy ===== *)
theory CritbitRemove
  imports CritbitCorrect
begin

text \<open>
  Removal from the order book's tree: the walk to the branch above the leaf, the splice that
  moves the leaf's sibling into the branch's place, and the extreme keys.
\<close>

primrec pick :: "u128 \<Rightarrow> ctree \<Rightarrow> ctree" where
  "pick key (Tip h l) = Tip h l"
| "pick key (Br h p k a b) = (if kbit key p then b else a)"

primrec sibling :: "u128 \<Rightarrow> ctree \<Rightarrow> ctree" where
  "sibling key (Tip h l) = Tip h l"
| "sibling key (Br h p k a b) = (if kbit key p then a else b)"

primrec split_bit :: "u128 \<Rightarrow> ctree \<Rightarrow> bool" where
  "split_bit key (Tip h l) = False"
| "split_bit key (Br h p k a b) = kbit key p"

definition is_tip :: "ctree \<Rightarrow> bool" where
  "is_tip t = (case t of Tip h l \<Rightarrow> True | Br h p k a b \<Rightarrow> False)"

lemma is_tip_simps [simp]: "is_tip (Tip h l)" "\<not> is_tip (Br h p k a b)"
  by (simp_all add: is_tip_def)

definition rem_stop :: "u128 \<Rightarrow> ctree \<Rightarrow> bool" where
  "rem_stop key t = is_tip (pick key t)"

lemma remove_walk_desc:
  "repr (slab_get s) t \<Longrightarrow> crit t \<Longrightarrow> \<not> is_tip t \<Longrightarrow> length (handles t) \<le> n \<Longrightarrow>
   \<exists>c l. pick key (desc (rem_stop key) key t) = Tip c l \<and> \<not> is_tip (desc (rem_stop key) key t) \<and>
     remove_walk n key (troot t) (troot (pick key t)) (split_bit key t) s =
       Inr (if lf_key l = key
            then Some (troot (desc (rem_stop key) key t), c, split_bit key (desc (rem_stop key) key t))
            else None)"
proof (induction t arbitrary: n)
  case (Br h p k a b)
  let ?t = "Br h p k a b" and ?c = "if kbit key p then b else a"
  obtain m where n: "n = Suc m" using Br.prems by (cases n) auto
  show ?case
  proof (cases ?c)
    case (Tip c l)
    then show ?thesis using Br.prems n by (auto simp: rem_stop_def split: if_splits)
  next
    case c: (Br h' p' k' a' b')
    have IH: "\<exists>d l. pick key (desc (rem_stop key) key ?c) = Tip d l
        \<and> \<not> is_tip (desc (rem_stop key) key ?c) \<and>
        remove_walk m key (troot ?c) (troot (pick key ?c)) (split_bit key ?c) s =
        Inr (if lf_key l = key
            then Some (troot (desc (rem_stop key) key ?c), d, split_bit key (desc (rem_stop key) key ?c))
            else None)"
    proof (cases "kbit key p")
      case True
      have "repr (slab_get s) b" "crit b" "\<not> is_tip b" "length (handles b) \<le> m"
        using Br.prems n c True by auto
      from Br.IH(2) [OF this] True show ?thesis by (simp only: if_True)
    next
      case False
      have "repr (slab_get s) a" "crit a" "\<not> is_tip a" "length (handles a) \<le> m"
        using Br.prems n c False by auto
      from Br.IH(1) [OF this] False show ?thesis by (simp only: if_False)
    qed
    have "\<not> is_tip ?c" by (simp only: c) simp
    then have d: "desc (rem_stop key) key ?t = desc (rem_stop key) key ?c"
      by (simp add: rem_stop_def)
    have "repr (slab_get s) ?c" "crit ?c" using Br.prems by simp_all
    then have "slab_get s (troot ?c) = Some (tnode ?c)" "p' < 128"
      using repr_root c by (blast, simp)
    then have "remove_walk n key h (troot ?c) (kbit key p) s =
        remove_walk m key (troot ?c) (troot (pick key ?c)) (split_bit key ?c) s"
      unfolding n c by (simp add: walk_down_br)
    then show ?thesis using IH unfolding d by simp
  qed
qed simp

lemma slab_remove_meta:
  "slab_remove h (s\<lparr>header := (header s)\<lparr>leaf_count := x\<rparr>\<rparr>) =
     (fst (slab_remove h s),
      (snd (slab_remove h s))\<lparr>header := (header (snd (slab_remove h s)))\<lparr>leaf_count := x\<rparr>\<rparr>)"
  "slab_remove h (s\<lparr>header := (header s)\<lparr>root_node := r, leaf_count := x\<rparr>\<rparr>) =
     (fst (slab_remove h s),
      (snd (slab_remove h s))\<lparr>header := (header (snd (slab_remove h s)))
        \<lparr>root_node := r, leaf_count := x\<rparr>\<rparr>)"
  by (simp_all add: slab_remove_def Let_def slab_put_def split: option.splits)

lemma remove_splice_ok:
  fixes key :: u128
  defines "st \<equiv> rem_stop key"
  assumes tree: "slab_tree s t" and u: "u = desc st key t" "\<not> is_tip u" "pick key u = Tip c l"
  shows "\<exists>s' t'. remove_splice (troot u) c (split_bit key u) s = Inr (Some l, s')
    \<and> slab_capacity s' = slab_capacity s \<and> slab_tree s' t'
    \<and> set (leaves t') = {x \<in> set (leaves t). lf_key x \<noteq> lf_key l}"
proof -
  let ?L = "set (handles t)"
  obtain h p k a b where br: "u = Br h p k a b" using u(2) by (cases u) auto
  define v where "v = sibling key u"
  have t: "repr (slab_get s) t" "crit t" "distinct (handles t)" "slab_alloc s ?L"
    "root_node (header s) = troot t" "unat (leaf_count (header s)) = length (leaves t)"
    using tree by (simp_all add: slab_tree_def)
  have sub: "set (handles u) \<subseteq> ?L" and ru: "repr (slab_get s) u" and du: "distinct (handles u)"
    and cu: "crit u"
    unfolding u(1) by (rule desc_handles desc_repr desc_distinct desc_crit t)+
  have hs: "set (handles u) = {h, c} \<union> set (handles v)" "h \<notin> set (handles v)" "c \<notin> set (handles v)"
    "h \<noteq> c" "distinct (handles v)"
    using du u(3) unfolding br v_def by (auto split: if_splits)
  have rv: "repr (slab_get s) v" and cv: "crit v" using ru cu unfolding br v_def by auto
  have lu: "leaves u = (if kbit key p then leaves v @ [l] else l # leaves v)"
    using u(3) unfolding br v_def by (auto split: if_splits)
  have gets: "slab_get s h = Some (tnode u)" "slab_get s c = Some (LeafNode l)"
    "slab_get s (troot v) = Some (tnode v)"
    using ru rv repr_root u(3) unfolding br by (auto split: if_splits)
  have vL: "troot v \<in> ?L" "h \<in> ?L" "c \<in> ?L" "troot v \<noteq> h" "troot v \<noteq> c"
    using hs sub troot_in_handles [of v] by blast+
  obtain s1 s2 s3 where mv: "slab_remove (troot v) s = (Some (tnode v), s1)" "slab_get s1 h \<noteq> None"
    "s2 = slab_put s1 h (tnode v)" "slab_remove c s2 = (slab_get s c, s3)"
    and s3: "slab_alloc s3 (?L - {troot v, c})" "slab_get s3 h = Some (tnode v)"
    "\<forall>g\<in>?L - {troot v, c, h}. slab_get s3 g = slab_get s g" "slab_capacity s3 = slab_capacity s"
    and meta: "slab_meta s2 = slab_meta s" "slab_meta s3 = slab_meta s"
    using slab_store.move_and_free [OF t(4) vL(1,2,3,4,5) hs(4) gets(3)] by blast
  let ?x = "leaf_count (header s) - 1" and ?t' = "graft st key (move h v) t"
  let ?s4 = "s3\<lparr>header := (header s3)\<lparr>leaf_count := ?x\<rparr>\<rparr>"
  have kids: "node_children (tnode u) = Inr (Some (troot a, troot b))"
    "child (troot a, troot b) (\<not> kbit key p) = troot v"
    by (simp_all add: br node_children_def child_def v_def)
  have lc: "leaf_count (header s1) = leaf_count (header s)"
    using meta mv(3) by (simp add: slab_meta_def)
  have run: "remove_splice (troot u) c (split_bit key u) s = Inr (Some l, ?s4)"
    using mv gets kids unfolding br remove_splice_def
    by (auto simp: Let_def slab_remove_meta lc)
  have rm: "repr (slab_get s3) (move h v)"
  proof (rule repr_move [of "slab_get s" v "slab_get s3" h, OF rv s3(2)])
    fix g assume g: "g \<in> set (tl (handles v))"
    then have "g \<in> set (handles v)" "g \<noteq> troot v" using hs(5) by (cases v; auto)+
    then show "slab_get s3 g = slab_get s g" using s3(3) hs sub by auto
  qed
  have hm: "set (handles (move h v)) = insert h (set (handles v) - {troot v})"
    "distinct (handles (move h v))"
    using hs(2,5) by (cases v; auto)+
  have dis: "set (handles (move h v)) \<inter> (?L - set (handles u)) = {}"
    unfolding hm(1) hs(1) by auto
  have "set (handles ?t') = (?L - set (handles u)) \<union> set (handles (move h v))
      \<and> distinct (handles ?t')"
    using graft_handles [OF t(3), of "move h v" st key] dis hm(2) unfolding u(1) [symmetric] br by simp
  moreover have "(?L - set (handles u)) \<union> set (handles (move h v)) = ?L - {troot v, c}"
    using sub vL(2) hs troot_in_handles [of v] unfolding hm(1) hs(1) by auto
  ultimately have th: "set (handles ?t') = ?L - {troot v, c}" "distinct (handles ?t')" by simp_all
  have rt: "repr (slab_get s3) ?t'"
  proof (rule graft_repr [OF t(1,3) rm])
    show "troot (move h v) = troot (desc st key t)" unfolding u(1) [symmetric] br by simp
    show "slab_get s3 g = slab_get s g" if "g \<in> ?L - set (handles (desc st key t))" for g
      using that s3(3) hs(1) troot_in_handles [of v] unfolding u(1) [symmetric] by auto
  qed
  have ctt: "crit ?t'"
    by (rule graft_crit [OF t(2)]) (use cv lu in \<open>auto simp: u(1) [symmetric]\<close>)
  obtain xs ys where g: "leaves t = xs @ leaves u @ ys" "leaves ?t' = xs @ leaves v @ ys"
    using graft_leaves [of t st key] unfolding u(1) [symmetric] by auto
  have set: "set (leaves ?t') = {x \<in> set (leaves t). lf_key x \<noteq> lf_key l}"
  proof (cases "kbit key p")
    case True
    then show ?thesis
      using leaves_without [OF crit_distinct [OF t(2)], of "xs @ leaves v" l ys] g lu by auto
  next
    case False
    then show ?thesis
      using leaves_without [OF crit_distinct [OF t(2)], of xs l "leaves v @ ys"] g lu by auto
  qed
  have "length (leaves t) = Suc (length (leaves ?t'))" using g lu by simp
  then have "unat ?x = length (leaves ?t')"
    using t(6) by (subst unat_sub) (simp_all add: word_le_nat_alt)
  moreover have "root_node (header s3) = troot ?t'"
    using meta(2) t(5) troot_graft [of "move h v" st key t] by (simp add: slab_meta_def u(1) [symmetric] br)
  ultimately have "slab_tree ?s4 ?t'"
    using rt ctt th s3(1) by (simp add: slab_tree_def)
  with run set s3(4) show ?thesis by (metis slab_capacity_header)
qed

end
