(* ===== verification/OrderMap.thy ===== *)
theory OrderMap
  imports CritbitRemove
begin

text \<open>
  The contract of an order book side: on a slab that satisfies \<open>slab_inv\<close> the tree operations
  return, and act on the map \<open>slab_orders\<close> from order keys to leaves as lookup, update and
  delete do on a map.  The rest of the development uses a side only through these facts.
\<close>

subsection \<open>Removal and search on the tree\<close>

lemma remove_by_key_tree:
  assumes tree: "slab_tree s t"
  shows "\<exists>s'. remove_by_key key s = Inr (leaf_map (leaves t) key, s')
    \<and> slab_capacity s' = slab_capacity s
    \<and> (if key \<in> lf_key ` set (leaves t)
       then (slab_vacant s' \<and> leaves t = [the (leaf_map (leaves t) key)]) \<or>
            (\<exists>t'. slab_tree s' t' \<and> set (leaves t') = {x \<in> set (leaves t). lf_key x \<noteq> key})
       else s' = s)"
proof -
  have t: "repr (slab_get s) t" "crit t" "slab_alloc s (set (handles t))"
    "unat (leaf_count (header s)) = length (leaves t)"
    using tree by (simp_all add: slab_tree_def)
  have root: "slab_root s = Some (troot t)" by (rule slab_root_tree [OF tree])
  show ?thesis
  proof (cases t)
    case (Tip h l)
    have g: "slab_get s h = Some (LeafNode l)" using t(1) Tip by simp
    show ?thesis
    proof (cases "lf_key l = key")
      case True
      have one: "leaf_count (header s) = 1" using t(4) Tip by (simp add: word_unat_eq_iff)
      obtain s' where s': "slab_remove h s = (Some (LeafNode l), s')" "slab_alloc s' {}"
        "slab_capacity s' = slab_capacity s"
        using slab_store.rem_live [OF t(3), of h] g Tip by auto
      let ?s2 = "s'\<lparr>header := (header s')\<lparr>root_node := 0, leaf_count := 0\<rparr>\<rparr>"
      have "remove_by_key key s = Inr (Some l, ?s2)"
        using True g one root s'(1) Tip
        by (simp add: remove_by_key_def Let_def slab_remove_meta)
      moreover have "slab_vacant ?s2" using s'(2) by (simp add: slab_vacant_def)
      ultimately show ?thesis using True Tip s'(3) by (simp add: leaf_map_def)
    next
      case False
      then show ?thesis using g root Tip by (simp add: remove_by_key_def leaf_map_def)
    qed
  next
    case (Br h p k a b)
    let ?u = "desc (rem_stop key) key t"
    have nt: "\<not> is_tip t" using Br by simp
    have "length (handles t) \<le> slab_fuel s" using handles_fuel [OF tree] by (simp add: slab_fuel_def)
    then obtain c l where cl: "pick key ?u = Tip c l" "\<not> is_tip ?u"
      "remove_walk (slab_fuel s) key (troot t) (troot (pick key t)) (split_bit key t) s =
       Inr (if lf_key l = key then Some (troot ?u, c, split_bit key ?u) else None)"
      using remove_walk_desc [OF t(1,2) nt] by blast
    obtain inner where g: "slab_get s (troot t) = Some (InnerNode inner)"
      "walk_down inner key = (troot (pick key t), split_bit key t)"
      using repr_root [OF t(1)] t(2) unfolding Br by (auto simp: walk_down_br)
    have run: "remove_by_key key s =
        (if lf_key l = key then remove_splice (troot ?u) c (split_bit key ?u) s else Inr (None, s))"
      using cl(3) g root by (simp add: remove_by_key_def)
    have lu: "l \<in> set (leaves ?u)" using cl(1,2) by (cases ?u) (auto split: if_splits)
    then have lt: "l \<in> set (leaves t)" using desc_leaves by blast
    show ?thesis
    proof (cases "lf_key l = key")
      case True
      then have "leaf_map (leaves t) key = Some l" using lt by (simp add: leaf_map_eq_Some [OF t(2)])
      then show ?thesis
        using remove_splice_ok [OF tree refl cl(2,1)] run True lt by auto
    next
      case False
      have "key \<notin> lf_key ` set (leaves t)"
      proof
        assume "key \<in> lf_key ` set (leaves t)"
        then obtain x where x: "x \<in> set (leaves t)" "lf_key x = key" by auto
        then have xu: "x \<in> set (leaves ?u)" using desc_contains [OF t(2), of x "rem_stop key"] by simp
        have "crit ?u" by (rule desc_crit [OF t(2)])
        then have "x \<in> set (leaves (pick key ?u))" using xu x(2) cl(2) by (cases ?u) auto
        then show False using cl(1) x(2) False by simp
      qed
      then have "leaf_map (leaves t) key = None" "key \<notin> lf_key ` set (leaves t)"
        by (simp_all add: leaf_map_eq_None)
      then show ?thesis using run False by simp
    qed
  qed
qed

primrec tips :: "ctree \<Rightarrow> (u32 \<times> leaf_node) list" where
  "tips (Tip h l) = [(h, l)]"
| "tips (Br h p k a b) = tips a @ tips b"

lemma leaves_tips: "leaves t = map snd (tips t)"
  by (induction t) auto

lemma tips_handles: "fst ` set (tips t) \<subseteq> set (handles t)"
  by (induction t) auto

lemma tips_get: "repr g t \<Longrightarrow> (h, l) \<in> set (tips t) \<Longrightarrow> g h = Some (LeafNode l)"
  by (induction t) auto

lemma desc_tips: "set (tips (desc st key t)) \<subseteq> set (tips t)"
  by (induction t) auto

lemma graft_tips: "set (tips u) \<subseteq> set (tips (graft st key u t))"
  by (induction t) auto

lemma tips_unique:
  assumes "crit t" "(h, l) \<in> set (tips t)" "(h', l') \<in> set (tips t)" "lf_key l = lf_key l'"
  shows "h = h' \<and> l = l'"
proof -
  have "distinct (map (lf_key \<circ> snd) (tips t))"
    using crit_distinct [OF assms(1)] by (simp add: leaves_tips)
  then have "inj_on (lf_key \<circ> snd) (set (tips t))" by (simp add: distinct_map)
  then have "(h, l) = (h', l')" using assms(2-4) by (intro inj_onD [of "lf_key \<circ> snd"]) simp_all
  then show ?thesis by simp
qed

lemma find_min_max_tree:
  "repr (slab_get s) t \<Longrightarrow> length (handles t) \<le> n \<Longrightarrow>
   \<exists>h. find_min_max_loop n m (troot t) s = Inr (Some h)
     \<and> (h, if m then last (leaves t) else hd (leaves t)) \<in> set (tips t)"
proof (induction t arbitrary: n)
  case (Tip h l)
  then show ?case by (cases n) simp_all
next
  case (Br h p k a b)
  then obtain j where n: "n = Suc j" by (cases n) auto
  obtain x y where x: "find_min_max_loop j m (troot a) s = Inr (Some x)"
      "(x, if m then last (leaves a) else hd (leaves a)) \<in> set (tips a)"
    and y: "find_min_max_loop j m (troot b) s = Inr (Some y)"
      "(y, if m then last (leaves b) else hd (leaves b)) \<in> set (tips b)"
    using Br.IH(1) [of j] Br.IH(2) [of j] Br.prems n by auto
  then show ?case using Br.prems n by (cases m) (simp_all add: child_def)
qed

subsection \<open>The contract\<close>

text \<open>Handle \<open>h\<close> is the place of order \<open>l\<close>.\<close>

definition slab_holds :: "slab \<Rightarrow> u32 \<Rightarrow> leaf_node \<Rightarrow> bool" where
  "slab_holds s h l \<longleftrightarrow> (\<exists>t. slab_tree s t \<and> (h, l) \<in> set (tips t))"

lemma slab_orders_tree:
  assumes "slab_tree s t"
  shows "slab_orders s key = Some l \<longleftrightarrow> l \<in> set (leaves t) \<and> lf_key l = key"
    and "slab_orders s = leaf_map (leaves t)"
proof -
  show eq: "slab_orders s = leaf_map (leaves t)"
    by (simp add: slab_orders_def slab_leaves_tree [OF assms])
  show "slab_orders s key = Some l \<longleftrightarrow> l \<in> set (leaves t) \<and> lf_key l = key"
    using leaf_map_eq_Some [of t] assms unfolding eq by (simp add: slab_tree_def)
qed

lemma slab_orders_vacant: "slab_vacant s \<Longrightarrow> slab_orders s = Map.empty"
  by (simp add: slab_orders_def slab_leaves_vacant leaf_map_def fun_eq_iff)

lemma slab_leaves_sorted:
  assumes "slab_inv s"
  shows "sorted_wrt (\<lambda>x y. lf_key x < lf_key y) (slab_leaves s)"
  using assms crit_leaves_sorted
  by (auto simp: slab_inv_def slab_leaves_vacant slab_leaves_tree) (simp add: slab_tree_def)

lemma slab_orders_eq_Some:
  assumes "slab_inv s"
  shows "slab_orders s key = Some l \<longleftrightarrow> l \<in> set (slab_leaves s) \<and> lf_key l = key"
  using assms slab_orders_tree(1)
  by (auto simp: slab_inv_def slab_leaves_vacant slab_orders_vacant slab_leaves_tree)

lemma slab_count_leaves: "slab_inv s \<Longrightarrow> unat (leaf_count (header s)) = length (slab_leaves s)"
  by (auto simp: slab_inv_def slab_leaves_vacant slab_leaves_tree)
    (auto simp: slab_vacant_def slab_tree_def)

lemma insert_leaf_vacant:
  assumes "slab_vacant s"
  shows "\<exists>r s'. insert_leaf l s = Inr (r, s') \<and> slab_capacity s' = slab_capacity s \<and>
    (case r of Inr (h, old) \<Rightarrow> old = None \<and> slab_tree s' (Tip h l) \<and> 0 < slab_capacity s
     | Inl OutOfSpace \<Rightarrow> s' = s \<and> slab_capacity s = 0)"
proof -
  have v: "slab_alloc s {}" using assms by (simp add: slab_vacant_def)
  show ?thesis
  proof (cases "slab_capacity s = 0")
    case True
    then show ?thesis using slab_store.ins_full [OF v, of "LeafNode l"]
      by (simp add: insert_leaf_def slab_root_vacant [OF assms])
  next
    case False
    then obtain h s1 where s1: "slab_insert (LeafNode l) s = Inr (Some h, s1)" "slab_alloc s1 {h}"
      "slab_get s1 h = Some (LeafNode l)" "slab_capacity s1 = slab_capacity s"
      using slab_store.ins_room [OF v, of "LeafNode l"] by auto
    then show ?thesis using False
      by (simp add: insert_leaf_def slab_root_vacant [OF assms] slab_tree_def)
  qed
qed

lemma insert_leaf_run:
  assumes "slab_inv s"
  shows "\<exists>r s'. insert_leaf l s = Inr (r, s') \<and> slab_inv s' \<and> slab_capacity s' = slab_capacity s \<and>
    (case r of
       Inr (h, old) \<Rightarrow>
         old = slab_orders s (lf_key l) \<and> slab_orders s' = (slab_orders s)(lf_key l \<mapsto> l) \<and>
         slab_get s' h = Some (LeafNode l) \<and>
         (old = None \<longrightarrow> 2 * length (slab_leaves s) < slab_capacity s)
     | Inl OutOfSpace \<Rightarrow>
         slab_orders s' = slab_orders s \<and> slab_orders s (lf_key l) = None \<and>
         slab_capacity s \<le> 2 * length (slab_leaves s))"
proof (cases "slab_vacant s")
  case True
  obtain r s' where r: "insert_leaf l s = Inr (r, s')" "slab_capacity s' = slab_capacity s"
    "case r of Inr (h, old) \<Rightarrow> old = None \<and> slab_tree s' (Tip h l) \<and> 0 < slab_capacity s
     | Inl OutOfSpace \<Rightarrow> s' = s \<and> slab_capacity s = 0"
    using insert_leaf_vacant [OF True] by blast
  have "slab_orders s' = [lf_key l \<mapsto> l] \<and> slab_get s' h = Some (LeafNode l)" if "slab_tree s' (Tip h l)" for h
    using slab_orders_tree(2) [OF that] that by (simp add: leaf_map_def slab_tree_def)
  then show ?thesis using r True assms
    by (auto simp: slab_orders_vacant slab_leaves_vacant slab_inv_def
        split: sum.splits prod.splits slab_tree_error.splits)
next
  case False
  then obtain t where t: "slab_tree s t" using assms by (auto simp: slab_inv_def)
  then have ct: "crit t" by (simp add: slab_tree_def)
  obtain r s' where r: "insert_leaf l s = Inr (r, s')" "slab_capacity s' = slab_capacity s"
    "case r of
       Inr (h, old) \<Rightarrow>
         (\<exists>t'. slab_tree s' t' \<and>
            set (leaves t') = insert l {x \<in> set (leaves t). lf_key x \<noteq> lf_key l}) \<and>
         slab_get s' h = Some (LeafNode l) \<and> old = leaf_map (leaves t) (lf_key l) \<and>
         (old = None \<longrightarrow> 2 * length (leaves t) < slab_capacity s)
     | Inl OutOfSpace \<Rightarrow>
         slab_tree s' t \<and> leaf_map (leaves t) (lf_key l) = None \<and>
         slab_capacity s \<le> 2 * length (leaves t)"
    using insert_leaf_tree [OF t] by blast
  show ?thesis
  proof (cases r)
    case (Inl e)
    then show ?thesis using r t slab_orders_tree(2) slab_leaves_tree
      by (cases e) (auto simp: slab_inv_def)
  next
    case (Inr x)
    obtain h old where x: "x = (h, old)" by (cases x)
    obtain t' where t': "slab_tree s' t'"
      "set (leaves t') = insert l {x \<in> set (leaves t). lf_key x \<noteq> lf_key l}"
      using r(3) Inr x by auto
    have "leaf_map (leaves t') = (leaf_map (leaves t))(lf_key l \<mapsto> l)"
      by (rule leaf_map_insert [OF ct _ t'(2)]) (use t'(1) in \<open>simp add: slab_tree_def\<close>)
    then have "slab_orders s' = (slab_orders s)(lf_key l \<mapsto> l)"
      using slab_orders_tree(2) t t'(1) by simp
    then show ?thesis
      using r t' t Inr x slab_orders_tree(2) [OF t] slab_leaves_tree [OF t]
      by (auto simp: slab_inv_def)
  qed
qed

lemma remove_by_key_run:
  assumes "slab_inv s"
  shows "\<exists>s'. remove_by_key key s = Inr (slab_orders s key, s') \<and> slab_inv s'
    \<and> slab_capacity s' = slab_capacity s \<and> slab_orders s' = (slab_orders s)(key := None)"
proof (cases "slab_vacant s")
  case True
  then show ?thesis using assms
    by (simp add: remove_by_key_def slab_root_vacant slab_orders_vacant fun_eq_iff)
next
  case False
  then obtain t where t: "slab_tree s t" using assms by (auto simp: slab_inv_def)
  then have ct: "crit t" by (simp add: slab_tree_def)
  note so = slab_orders_tree(2) [OF t]
  obtain s' where s': "remove_by_key key s = Inr (leaf_map (leaves t) key, s')"
    "slab_capacity s' = slab_capacity s"
    "if key \<in> lf_key ` set (leaves t)
       then (slab_vacant s' \<and> leaves t = [the (leaf_map (leaves t) key)]) \<or>
            (\<exists>t'. slab_tree s' t' \<and> set (leaves t') = {x \<in> set (leaves t). lf_key x \<noteq> key})
       else s' = s"
    using remove_by_key_tree [OF t] by blast
  show ?thesis
  proof (cases "key \<in> lf_key ` set (leaves t)")
    case nk: False
    then have "leaf_map (leaves t) key = None" by (simp add: leaf_map_eq_None)
    then have "(leaf_map (leaves t))(key := None) = leaf_map (leaves t)" by (rule fun_upd_idem)
    then show ?thesis using s' nk assms so by simp
  next
    case True
    with s'(3) consider
      (one) "slab_vacant s'" "leaves t = [the (leaf_map (leaves t) key)]"
      | (more) t' where "slab_tree s' t'" "set (leaves t') = {x \<in> set (leaves t). lf_key x \<noteq> key}"
      by auto
    then show ?thesis
    proof cases
      case one
      obtain l where l: "leaf_map (leaves t) key = Some l" "lf_key l = key"
        using True by (auto simp: leaf_map_eq_Some [OF ct])
      then have "leaves t = [l]" using one(2) by simp
      then have "leaf_map (leaves t) = [key \<mapsto> l]" using l(2) by (simp add: leaf_map_def)
      then show ?thesis using one(1) s' so
        by (simp add: slab_inv_def slab_orders_vacant fun_eq_iff)
    next
      case more
      have "leaf_map (leaves t') = (leaf_map (leaves t))(key := None)"
        by (rule leaf_map_delete [OF ct _ more(2)]) (use more(1) in \<open>simp add: slab_tree_def\<close>)
      then show ?thesis using s' so more(1) slab_orders_tree(2) by (auto simp: slab_inv_def)
    qed
  qed
qed

lemma find_min_max_run:
  assumes "slab_inv s"
  shows "if slab_leaves s = [] then find_min_max m s = Inr None
    else \<exists>h l. find_min_max m s = Inr (Some h) \<and> slab_holds s h l
      \<and> l = (if m then last else hd) (slab_leaves s)"
proof (cases "slab_vacant s")
  case True
  then show ?thesis by (simp add: find_min_max_def slab_root_vacant slab_leaves_vacant)
next
  case False
  then obtain t where t: "slab_tree s t" using assms by (auto simp: slab_inv_def)
  have "length (handles t) \<le> slab_fuel s" using handles_fuel [OF t] by (simp add: slab_fuel_def)
  moreover have "repr (slab_get s) t" using t by (simp add: slab_tree_def)
  ultimately show ?thesis
    using find_min_max_tree [of s t "slab_fuel s" m] t slab_root_tree [OF t]
    by (auto simp: find_min_max_def slab_holds_def slab_leaves_tree)
qed

lemma slab_holds_get: "slab_holds s h l \<Longrightarrow> slab_get s h = Some (LeafNode l)"
  by (auto simp: slab_holds_def slab_tree_def tips_get)

lemma slab_holds_orders: "slab_holds s h l \<Longrightarrow> slab_orders s (lf_key l) = Some l"
proof -
  assume "slab_holds s h l"
  then obtain t where t: "slab_tree s t" "(h, l) \<in> set (tips t)" by (auto simp: slab_holds_def)
  then have "l \<in> set (leaves t)" by (force simp: leaves_tips)
  then show ?thesis using slab_orders_tree(1) [OF t(1)] by simp
qed

text \<open>Writing a leaf with the same key through the reference of a found order.\<close>

lemma slab_put_run:
  assumes "slab_holds s h l0" "lf_key l = lf_key l0"
  shows "slab_inv (slab_put s h (LeafNode l)) \<and> slab_capacity (slab_put s h (LeafNode l)) = slab_capacity s
    \<and> slab_orders (slab_put s h (LeafNode l)) = (slab_orders s)(lf_key l \<mapsto> l)
    \<and> slab_holds (slab_put s h (LeafNode l)) h l"
proof -
  obtain t where t: "slab_tree s t" "(h, l0) \<in> set (tips t)" using assms(1) by (auto simp: slab_holds_def)
  then have ct: "crit t" by (simp add: slab_tree_def)
  have "l0 \<in> set (leaves t)" using t(2) by (force simp: leaves_tips)
  then have there: "lf_key l \<in> lf_key ` set (leaves t)" using assms(2) by auto
  define u where "u = desc (ins_stop (lf_key l)) (lf_key l) t"
  obtain h' l' where u: "u = Tip h' l'" "lf_key l' = lf_key l"
    using ins_stop_cases [OF ct u_def] there by metis
  have "(h', l') \<in> set (tips t)" using desc_tips [of "ins_stop (lf_key l)" "lf_key l" t] u u_def by auto
  then have eq: "h' = h" "l' = l0" using tips_unique [OF ct _ t(2)] u(2) assms(2) by auto
  note ir = ins_replace [OF t(1) u(1) [unfolded u_def eq] assms(2) [symmetric]]
  let ?s' = "slab_put s h (LeafNode l)" and ?t' = "graft (ins_stop (lf_key l)) (lf_key l) (Tip h l) t"
  have t': "slab_tree ?s' ?t'" using ir by simp
  have "leaf_map (leaves ?t') = (leaf_map (leaves t))(lf_key l \<mapsto> l)"
    by (rule leaf_map_insert [OF ct]) (use t' ir in \<open>simp_all add: slab_tree_def\<close>)
  then have "slab_orders ?s' = (slab_orders s)(lf_key l \<mapsto> l)"
    using slab_orders_tree(2) [OF t'] slab_orders_tree(2) [OF t(1)] by simp
  moreover have "slab_holds ?s' h l"
    using t' graft_tips [of "Tip h l" "ins_stop (lf_key l)" "lf_key l" t] by (auto simp: slab_holds_def)
  ultimately show ?thesis using t' ir by (auto simp: slab_inv_def)
qed

text \<open>The extreme key of a side that is not empty.\<close>

lemma slab_orders_empty: "slab_inv s \<Longrightarrow> slab_leaves s = [] \<longleftrightarrow> slab_orders s = Map.empty"
  using slab_orders_eq_Some [of s] by (auto simp: slab_orders_def leaf_map_def)

definition key_before :: "bool \<Rightarrow> u128 \<Rightarrow> u128 \<Rightarrow> bool" where
  "key_before largest x y \<longleftrightarrow> (if largest then y \<le> x else x \<le> y)"

lemma sorted_ends:
  assumes "sorted_wrt (\<lambda>x y. f x < (f y :: 'a::linorder)) xs" "x \<in> set xs"
  shows "f (hd xs) \<le> f x" "f x \<le> f (last xs)"
proof -
  obtain i where i: "i < length xs" "x = xs ! i" using assms(2) by (auto simp: in_set_conv_nth)
  have le: "f (xs ! j) \<le> f (xs ! k)" if "j \<le> k" "k < length xs" for j k
    using assms(1) that by (cases "j = k") (auto simp: sorted_wrt_iff_nth_less order_less_imp_le)
  show "f (hd xs) \<le> f x" using le [of 0 i] i by (cases xs) auto
  show "f x \<le> f (last xs)" using le [of i "length xs - 1"] i by (cases xs) (auto simp: last_conv_nth)
qed

lemma find_extreme_run:
  assumes "slab_inv s" "slab_orders s \<noteq> Map.empty"
  obtains h l where "find_min_max m s = Inr (Some h)" "slab_holds s h l"
    "slab_orders s (lf_key l) = Some l" "\<And>k. k \<in> dom (slab_orders s) \<Longrightarrow> key_before m (lf_key l) k"
proof -
  have ne: "slab_leaves s \<noteq> []" using assms slab_orders_empty by blast
  obtain h l where hl: "find_min_max m s = Inr (Some h)" "slab_holds s h l"
    "l = (if m then last else hd) (slab_leaves s)"
    using find_min_max_run [OF assms(1), of m] ne by auto
  have "key_before m (lf_key l) k" if "k \<in> dom (slab_orders s)" for k
    using that sorted_ends [OF slab_leaves_sorted [OF assms(1)]] hl(3)
    by (auto simp: key_before_def slab_orders_eq_Some [OF assms(1)])
  with hl slab_holds_orders show thesis using that by blast
qed

lemma find_extreme_empty:
  "slab_inv s \<Longrightarrow> slab_orders s = Map.empty \<Longrightarrow> find_min_max m s = Inr None"
  using find_min_max_run [of s m] slab_orders_empty [of s] by simp

lemma key_before_antisym: "key_before m x y \<Longrightarrow> key_before m y x \<Longrightarrow> x = y"
  by (auto simp: key_before_def split: if_splits)

lemma remove_extreme_run:
  assumes "slab_inv s"
  shows "\<exists>r s'. remove_extreme m s = Inr (r, s') \<and> slab_inv s' \<and> slab_capacity s' = slab_capacity s
    \<and> (if slab_orders s = Map.empty then r = None \<and> s' = s
       else \<exists>l. r = Some l \<and> slab_orders s (lf_key l) = Some l
         \<and> (\<forall>k\<in>dom (slab_orders s). key_before m (lf_key l) k)
         \<and> slab_orders s' = (slab_orders s)(lf_key l := None))"
proof (cases "slab_orders s = Map.empty")
  case True
  then show ?thesis using assms by (simp add: remove_extreme_def find_extreme_empty)
next
  case False
  obtain h l where hl: "find_min_max m s = Inr (Some h)" "slab_holds s h l"
    "slab_orders s (lf_key l) = Some l" "\<And>k. k \<in> dom (slab_orders s) \<Longrightarrow> key_before m (lf_key l) k"
    using find_extreme_run [OF assms False] by blast
  obtain s' where s': "remove_by_key (lf_key l) s = Inr (slab_orders s (lf_key l), s')" "slab_inv s'"
    "slab_capacity s' = slab_capacity s" "slab_orders s' = (slab_orders s)(lf_key l := None)"
    using remove_by_key_run [OF assms, of "lf_key l"] by blast
  have "remove_extreme m s = Inr (Some l, s')"
    using hl(1,3) s'(1) slab_holds_get [OF hl(2)] by (simp add: remove_extreme_def node_key_def)
  then show ?thesis using s'(2-4) hl(3,4) False by auto
qed

lemma dom_orders: "slab_inv s \<Longrightarrow> dom (slab_orders s) = lf_key ` set (slab_leaves s)"
  by (auto simp: slab_orders_eq_Some)

lemma card_orders:
  assumes "slab_inv s"
  shows "card (dom (slab_orders s)) = length (slab_leaves s)"
proof -
  have "sorted_wrt (<) (map lf_key (slab_leaves s))"
    using slab_leaves_sorted [OF assms] by (simp add: sorted_wrt_map)
  then have "distinct (map lf_key (slab_leaves s))" by (simp add: strict_sorted_iff)
  then show ?thesis using distinct_card [of "map lf_key (slab_leaves s)"] dom_orders [OF assms] by simp
qed

lemma slab_clear_vacant:
  assumes "length (nodes s) < 2 ^ 32"
  shows "slab_vacant (slab_clear s)"
proof -
  have "slab_alloc_with (slab_clear s) {} []"
    using assms by (simp add: slab_alloc_with_def slab_clear_def handles_below_def)
  then show ?thesis by (auto simp: slab_vacant_def slab_alloc_def) (simp add: slab_clear_def)
qed

lemma slab_capacity_clear [simp]: "slab_capacity (slab_clear s) = slab_capacity s"
  by (simp add: slab_capacity_def slab_clear_def)

definition blank_slab :: "nat \<Rightarrow> slab" where
  "blank_slab n = slab_clear
     \<lparr>header = \<lparr>bump_index = 0, free_list_len = 0, free_list_head = 0, root_node = 0, leaf_count = 0\<rparr>,
      nodes = replicate n Uninitialized\<rparr>"

lemma blank_slab_inv: "n < 2 ^ 32 \<Longrightarrow> slab_inv (blank_slab n)"
  unfolding blank_slab_def slab_inv_def by (rule disjI1, rule slab_clear_vacant) simp

lemma blank_slab_orders: "n < 2 ^ 32 \<Longrightarrow> slab_orders (blank_slab n) = Map.empty"
  unfolding blank_slab_def by (rule slab_orders_vacant, rule slab_clear_vacant) simp

lemma blank_slab_capacity [simp]: "slab_capacity (blank_slab n) = n"
  unfolding blank_slab_def slab_capacity_clear by (simp add: slab_capacity_def)

subsection \<open>The properties\<close>

text \<open>
  On a well-formed side, inserting a leaf returns, keeps the side well formed, hands
  back the leaf it replaced, and puts the new leaf at its key and touches no other order;
  it fails exactly when the key is new and fewer than \<open>2 n + 1\<close> nodes are there for the
  \<open>n\<close> orders already present, and then no order changes.
\<close>

theorem insert_leaf_correct:
  assumes "slab_inv s"
  shows "\<exists>r s'. insert_leaf l s = Inr (r, s') \<and> slab_inv s' \<and> slab_capacity s' = slab_capacity s \<and>
    (if slab_orders s (lf_key l) = None \<and> slab_capacity s \<le> 2 * card (dom (slab_orders s))
     then r = Inl OutOfSpace \<and> slab_orders s' = slab_orders s
     else \<exists>h. r = Inr (h, slab_orders s (lf_key l)) \<and> slab_get s' h = Some (LeafNode l) \<and>
            slab_orders s' = (slab_orders s)(lf_key l \<mapsto> l))"
proof -
  obtain r s' where r: "insert_leaf l s = Inr (r, s')" "slab_inv s'" "slab_capacity s' = slab_capacity s"
    and c: "case r of
       Inr (h, old) \<Rightarrow>
         old = slab_orders s (lf_key l) \<and> slab_orders s' = (slab_orders s)(lf_key l \<mapsto> l) \<and>
         slab_get s' h = Some (LeafNode l) \<and>
         (old = None \<longrightarrow> 2 * length (slab_leaves s) < slab_capacity s)
     | Inl OutOfSpace \<Rightarrow>
         slab_orders s' = slab_orders s \<and> slab_orders s (lf_key l) = None \<and>
         slab_capacity s \<le> 2 * length (slab_leaves s)"
    using insert_leaf_run [OF assms] by blast
  show ?thesis
  proof (cases r)
    case (Inl e)
    then show ?thesis using r c card_orders [OF assms] by (cases e) auto
  next
    case (Inr x)
    then show ?thesis using r c card_orders [OF assms] by (cases x) auto
  qed
qed

theorem insert_leaf_correct_witness:
  "\<exists>r s'. insert_leaf (leaf_node_new 3 77 (1, 2, 3, 4) 10 Base 9) (blank_slab 5) = Inr (r, s') \<and> slab_inv s'"
  using insert_leaf_correct [OF blank_slab_inv [of 5], of "leaf_node_new 3 77 (1, 2, 3, 4) 10 Base 9"]
  by auto

text \<open>
  On a well-formed side, removing a key returns the order under that key (or nothing
  when there is none), deletes it and no other order, and keeps the side well formed.
\<close>

theorem remove_by_key_correct:
  assumes "slab_inv s"
  shows "\<exists>s'. remove_by_key key s = Inr (slab_orders s key, s') \<and> slab_inv s'
    \<and> slab_capacity s' = slab_capacity s \<and> slab_orders s' = (slab_orders s)(key := None)"
  using assms by (rule remove_by_key_run)

theorem remove_by_key_correct_witness:
  "\<exists>s'. remove_by_key 77 (blank_slab 5) = Inr (None, s') \<and> slab_inv s'"
  using remove_by_key_correct [OF blank_slab_inv [of 5], of 77] by (auto simp: blank_slab_orders)

text \<open>
  \<open>find_min\<close> and \<open>find_max\<close> return nothing exactly on an empty side, and otherwise the
  handle of an order whose key is the least (the greatest) of all keys present.
\<close>

theorem find_extremes_correct:
  assumes "slab_inv s"
  shows "(slab_orders s = Map.empty \<longrightarrow> find_min s = Inr None \<and> find_max s = Inr None) \<and>
    (slab_orders s \<noteq> Map.empty \<longrightarrow>
      (\<exists>h l g k. find_min s = Inr (Some h) \<and> slab_get s h = Some (LeafNode l) \<and>
         slab_orders s (lf_key l) = Some l \<and> (\<forall>x\<in>dom (slab_orders s). lf_key l \<le> x) \<and>
         find_max s = Inr (Some g) \<and> slab_get s g = Some (LeafNode k) \<and>
         slab_orders s (lf_key k) = Some k \<and> (\<forall>x\<in>dom (slab_orders s). x \<le> lf_key k)))"
proof (cases "slab_orders s = Map.empty")
  case True
  then show ?thesis using find_extreme_empty [OF assms] by (simp add: find_min_def find_max_def)
next
  case False
  obtain h l where "find_min s = Inr (Some h)" "slab_get s h = Some (LeafNode l)"
    "slab_orders s (lf_key l) = Some l" "\<And>k. k \<in> dom (slab_orders s) \<Longrightarrow> lf_key l \<le> k"
    using find_extreme_run [OF assms False, of False] slab_holds_get
    unfolding find_min_def key_before_def by (metis (full_types))
  moreover obtain g k where "find_max s = Inr (Some g)" "slab_get s g = Some (LeafNode k)"
    "slab_orders s (lf_key k) = Some k" "\<And>x. x \<in> dom (slab_orders s) \<Longrightarrow> x \<le> lf_key k"
    using find_extreme_run [OF assms False, of True] slab_holds_get
    unfolding find_max_def key_before_def by (metis (full_types))
  ultimately show ?thesis using False by blast
qed

theorem find_extremes_correct_witness: "find_min (blank_slab 3) = Inr None \<and> find_max (blank_slab 3) = Inr None"
  using find_extremes_correct [OF blank_slab_inv [of 3]] by (simp add: blank_slab_orders)

subsection \<open>Refinement: any history of operations\<close>

datatype side_op = InsertLeaf leaf_node | RemoveKey u128 | RemoveMin | RemoveMax

type_synonym side_reply = "slab_tree_error + leaf_node option"

definition side_step :: "side_op \<Rightarrow> slab \<Rightarrow> dex_fault + (side_reply \<times> slab)" where
  "side_step o1 s =
     (case o1 of
        InsertLeaf l \<Rightarrow>
          and_then (insert_leaf l s) (\<lambda>(r, s'). Inr (case r of Inl e \<Rightarrow> Inl e | Inr (h, old) \<Rightarrow> Inr old, s'))
      | RemoveKey k \<Rightarrow> and_then (remove_by_key k s) (\<lambda>(r, s'). Inr (Inr r, s'))
      | RemoveMin \<Rightarrow> and_then (remove_min s) (\<lambda>(r, s'). Inr (Inr r, s'))
      | RemoveMax \<Rightarrow> and_then (remove_max s) (\<lambda>(r, s'). Inr (Inr r, s')))"

text \<open>The abstract side: a finite map that refuses a new key when \<open>n\<close> nodes are too few.\<close>

type_synonym order_map = "u128 \<rightharpoonup> leaf_node"

definition map_pop :: "u128 \<Rightarrow> order_map \<Rightarrow> side_reply \<times> order_map" where
  "map_pop k m = (if m = Map.empty then (Inr None, m) else (Inr (m k), m(k := None)))"

definition map_step :: "nat \<Rightarrow> side_op \<Rightarrow> order_map \<Rightarrow> side_reply \<times> order_map" where
  "map_step n o1 m =
     (case o1 of
        InsertLeaf l \<Rightarrow>
          (if m (lf_key l) = None \<and> n \<le> 2 * card (dom m) then (Inl OutOfSpace, m)
           else (Inr (m (lf_key l)), m(lf_key l \<mapsto> l)))
      | RemoveKey k \<Rightarrow> (Inr (m k), m(k := None))
      | RemoveMin \<Rightarrow> map_pop (Min (dom m)) m
      | RemoveMax \<Rightarrow> map_pop (Max (dom m)) m)"

primrec side_run :: "side_op list \<Rightarrow> slab \<Rightarrow> dex_fault + (side_reply list \<times> slab)" where
  "side_run [] s = Inr ([], s)"
| "side_run (o1 # os) s =
     and_then (side_step o1 s) (\<lambda>(r, s1). and_then (side_run os s1) (\<lambda>(rs, s2). Inr (r # rs, s2)))"

primrec map_run :: "nat \<Rightarrow> side_op list \<Rightarrow> order_map \<Rightarrow> side_reply list \<times> order_map" where
  "map_run n [] m = ([], m)"
| "map_run n (o1 # os) m =
     (case map_step n o1 m of (r, m1) \<Rightarrow> case map_run n os m1 of (rs, m2) \<Rightarrow> (r # rs, m2))"

lemma finite_dom_u128 [simp]: "finite (A :: u128 set)"
  by (rule finite)

lemma remove_extreme_pop:
  assumes "slab_inv s"
  shows "\<exists>s'. slab_inv s' \<and> slab_capacity s' = slab_capacity s \<and>
    and_then (remove_extreme m s) (\<lambda>(r, s'). Inr (Inr r :: side_reply, s')) =
      Inr (fst (map_pop ((if m then Max else Min) (dom (slab_orders s))) (slab_orders s)), s') \<and>
    slab_orders s' = snd (map_pop ((if m then Max else Min) (dom (slab_orders s))) (slab_orders s))"
proof -
  let ?k = "(if m then Max else Min) (dom (slab_orders s))"
  obtain r s' where r: "remove_extreme m s = Inr (r, s')" "slab_inv s'" "slab_capacity s' = slab_capacity s"
    "if slab_orders s = Map.empty then r = None \<and> s' = s
     else \<exists>l. r = Some l \<and> slab_orders s (lf_key l) = Some l
         \<and> (\<forall>k\<in>dom (slab_orders s). key_before m (lf_key l) k)
         \<and> slab_orders s' = (slab_orders s)(lf_key l := None)"
    using remove_extreme_run [OF assms, of m] by blast
  show ?thesis
  proof (cases "slab_orders s = Map.empty")
    case True
    then show ?thesis using r by (simp add: map_pop_def)
  next
    case False
    obtain l where l: "r = Some l" "slab_orders s (lf_key l) = Some l"
      "\<forall>k\<in>dom (slab_orders s). key_before m (lf_key l) k"
      "slab_orders s' = (slab_orders s)(lf_key l := None)" using r(4) False by auto
    have "lf_key l \<in> dom (slab_orders s)" using l(2) by blast
    then have "?k = lf_key l"
      using l(3) Max_eqI [of "dom (slab_orders s)" "lf_key l"] Min_eqI [of "dom (slab_orders s)" "lf_key l"]
      by (simp add: key_before_def)
    then show ?thesis using r l False by (simp add: map_pop_def)
  qed
qed

lemma side_step_simulates:
  assumes "slab_inv s"
  shows "\<exists>s'. side_step o1 s = Inr (fst (map_step (slab_capacity s) o1 (slab_orders s)), s')
    \<and> slab_inv s' \<and> slab_capacity s' = slab_capacity s
    \<and> slab_orders s' = snd (map_step (slab_capacity s) o1 (slab_orders s))"
proof (cases o1)
  case (InsertLeaf l)
  obtain r s' where r: "insert_leaf l s = Inr (r, s')" "slab_inv s'" "slab_capacity s' = slab_capacity s"
    and c: "case r of
       Inr (h, old) \<Rightarrow>
         old = slab_orders s (lf_key l) \<and> slab_orders s' = (slab_orders s)(lf_key l \<mapsto> l) \<and>
         slab_get s' h = Some (LeafNode l) \<and>
         (old = None \<longrightarrow> 2 * length (slab_leaves s) < slab_capacity s)
     | Inl OutOfSpace \<Rightarrow>
         slab_orders s' = slab_orders s \<and> slab_orders s (lf_key l) = None \<and>
         slab_capacity s \<le> 2 * length (slab_leaves s)"
    using insert_leaf_run [OF assms] by blast
  show ?thesis
  proof (cases r)
    case (Inl e)
    then show ?thesis using r c card_orders [OF assms] InsertLeaf
      by (cases e) (auto simp: side_step_def map_step_def)
  next
    case (Inr x)
    then show ?thesis using r c card_orders [OF assms] InsertLeaf
      by (cases x) (auto simp: side_step_def map_step_def)
  qed
next
  case (RemoveKey k)
  then show ?thesis
    using remove_by_key_run [OF assms, of k] by (auto simp: side_step_def map_step_def)
next
  case RemoveMin
  then show ?thesis
    using remove_extreme_pop [OF assms, of False]
    by (auto simp: side_step_def map_step_def remove_min_def)
next
  case RemoveMax
  then show ?thesis
    using remove_extreme_pop [OF assms, of True]
    by (auto simp: side_step_def map_step_def remove_max_def)
qed

lemma side_run_simulates:
  "slab_inv s \<Longrightarrow>
   \<exists>s'. side_run os s = Inr (fst (map_run (slab_capacity s) os (slab_orders s)), s') \<and> slab_inv s'
     \<and> slab_orders s' = snd (map_run (slab_capacity s) os (slab_orders s))"
proof (induction os arbitrary: s)
  case (Cons o1 os)
  obtain s1 where s1: "side_step o1 s = Inr (fst (map_step (slab_capacity s) o1 (slab_orders s)), s1)"
    "slab_inv s1" "slab_capacity s1 = slab_capacity s"
    "slab_orders s1 = snd (map_step (slab_capacity s) o1 (slab_orders s))"
    using side_step_simulates [OF Cons.prems] by blast
  obtain s2 where "side_run os s1 = Inr (fst (map_run (slab_capacity s1) os (slab_orders s1)), s2)"
    "slab_inv s2" "slab_orders s2 = snd (map_run (slab_capacity s1) os (slab_orders s1))"
    using Cons.IH [OF s1(2)] by blast
  then show ?case using s1 by (simp add: case_prod_unfold)
qed simp

text \<open>
  Claim C28: from a cleared side of \<open>n\<close> nodes, every sequence of insertions, removals by key and
  removals of the extreme orders runs without a panic or an endless walk, answers as the
  finite map does at every step, and ends in a side that stands for the final map.
\<close>

theorem side_refines_map:
  assumes "n < 2 ^ 32"
  shows "\<exists>s'. side_run os (blank_slab n) = Inr (fst (map_run n os Map.empty), s')
    \<and> slab_orders s' = snd (map_run n os Map.empty)"
  using side_run_simulates [OF blank_slab_inv [OF assms], of os]
  by (auto simp: blank_slab_orders [OF assms])

theorem side_refines_map_witness:
  "\<exists>s'. side_run [InsertLeaf (leaf_node_new 3 77 (1, 2, 3, 4) 10 Base 9), RemoveKey 5] (blank_slab 5) =
     Inr ([Inr None, Inr None], s')"
  using side_refines_map
    [of 5 "[InsertLeaf (leaf_node_new 3 77 (1, 2, 3, 4) 10 Base 9), RemoveKey 5]"]
  by (simp add: map_step_def leaf_node_new_def) blast

end
