(* ===== verification/Queue.thy ===== *)
theory Queue
  imports DexErrors
begin

text \<open>
  The ring buffers that carry requests and events (\<open>dex/src/state.rs\<close>, \<open>Queue\<close> and the
  trait \<open>QueueHeader\<close> with its two implementations).  The trait is a record of operations;
  its contract is the locale \<open>queue_header\<close>, in which the queue is proved to implement a
  bounded list and to account for its sequence number, and which is interpreted on the
  request header and on the event header.
\<close>

subsection \<open>Operations\<close>

record 'h header_ops =
  qh_head :: "'h \<Rightarrow> u64"
  qh_set_head :: "u64 \<Rightarrow> 'h \<Rightarrow> 'h"
  qh_count :: "'h \<Rightarrow> u64"
  qh_set_count :: "u64 \<Rightarrow> 'h \<Rightarrow> 'h"
  incr_event_id :: "'h \<Rightarrow> 'h"
  decr_event_id :: "u64 \<Rightarrow> 'h \<Rightarrow> 'h"

record ('h, 'a) queue =
  q_header :: 'h
  q_buf :: "'a list"

definition queue_len :: "'h header_ops \<Rightarrow> ('h, 'a) queue \<Rightarrow> u64" where
  "queue_len ops q = qh_count ops (q_header q)"

definition queue_full :: "'h header_ops \<Rightarrow> ('h, 'a) queue \<Rightarrow> bool" where
  "queue_full ops q \<longleftrightarrow> unat (qh_count ops (q_header q)) = length (q_buf q)"

definition queue_empty :: "'h header_ops \<Rightarrow> ('h, 'a) queue \<Rightarrow> bool" where
  "queue_empty ops q \<longleftrightarrow> qh_count ops (q_header q) = 0"

text \<open>\<open>Err(value)\<close> hands the value back; the remainder by an empty buffer's length panics.\<close>

definition push_back ::
  "'h header_ops \<Rightarrow> 'a \<Rightarrow> ('h, 'a) queue \<Rightarrow> dex_fault + (('a + unit) \<times> ('h, 'a) queue)" where
  "push_back ops value q =
     (if queue_full ops q then Inr (Inl value, q)
      else if q_buf q = [] then Inl Panic
      else
        let h = q_header q;
            slot = unat (qh_head ops h + qh_count ops h) mod length (q_buf q);
            h1 = qh_set_count ops (qh_count ops h + 1) h
        in Inr (Inr (), q\<lparr>q_buf := (q_buf q)[slot := value], q_header := incr_event_id ops h1\<rparr>))"

definition peek_front :: "'h header_ops \<Rightarrow> ('h, 'a) queue \<Rightarrow> dex_fault + 'a option" where
  "peek_front ops q =
     (if queue_empty ops q then Inr None
      else
        let i = unat (qh_head ops (q_header q))
        in if i < length (q_buf q) then Inr (Some (q_buf q ! i)) else Inl Panic)"

definition pop_front ::
  "'h header_ops \<Rightarrow> ('h, 'a) queue \<Rightarrow> dex_fault + ('a option \<times> ('h, 'a) queue)" where
  "pop_front ops q =
     (if queue_empty ops q then Inr (None, q)
      else
        let h = q_header q;
            i = unat (qh_head ops h)
        in if i < length (q_buf q) then
             let h1 = qh_set_count ops (qh_count ops h - 1) h;
                 h2 = qh_set_head ops ((qh_head ops h1 + 1) mod of_nat (length (q_buf q))) h1
             in Inr (Some (q_buf q ! i), q\<lparr>q_header := h2\<rparr>)
           else Inl Panic)"

definition revert_pushes ::
  "'h header_ops \<Rightarrow> u64 \<Rightarrow> ('h, 'a) queue \<Rightarrow> dex_fault + ('h, 'a) queue" where
  "revert_pushes ops desired_len q =
     and_then (check_assert StateFile 579 (desired_len \<le> qh_count ops (q_header q))) (\<lambda>_.
     let h = q_header q;
         len_diff = qh_count ops h - desired_len
     in Inr (q\<lparr>q_header := decr_event_id ops len_diff (qh_set_count ops desired_len h)\<rparr>))"

text \<open>\<open>QueueIterator::next\<close>, and the items of the iteration that \<open>iter\<close> starts at index 0.\<close>

definition iter_next ::
  "'h header_ops \<Rightarrow> ('h, 'a) queue \<Rightarrow> u64 \<Rightarrow> dex_fault + ('a \<times> u64) option" where
  "iter_next ops q index =
     (if index = queue_len ops q then Inr None
      else if q_buf q = [] then Inl Panic
      else Inr (Some (q_buf q ! (unat (qh_head ops (q_header q) + index) mod length (q_buf q)),
                      index + 1)))"

primrec iter_collect ::
  "nat \<Rightarrow> 'h header_ops \<Rightarrow> ('h, 'a) queue \<Rightarrow> u64 \<Rightarrow> dex_fault + 'a list" where
  "iter_collect 0 ops q index = Inl Diverges"
| "iter_collect (Suc n) ops q index =
     and_then (iter_next ops q index) (\<lambda>r.
     case r of
       None \<Rightarrow> Inr []
     | Some (x, index') \<Rightarrow> and_then (iter_collect n ops q index') (\<lambda>xs. Inr (x # xs)))"

definition queue_iter :: "'h header_ops \<Rightarrow> ('h, 'a) queue \<Rightarrow> dex_fault + 'a list" where
  "queue_iter ops q = iter_collect (Suc (unat (queue_len ops q))) ops q 0"

text \<open>Pushing the items of a list one after the other, until one is refused.\<close>

primrec push_all ::
  "'h header_ops \<Rightarrow> 'a list \<Rightarrow> ('h, 'a) queue \<Rightarrow> dex_fault + (('a + unit) \<times> ('h, 'a) queue)" where
  "push_all ops [] q = Inr (Inr (), q)"
| "push_all ops (x # xs) q =
     and_then (push_back ops x q) (\<lambda>(r, q1).
     case r of Inl v \<Rightarrow> Inr (Inl v, q1) | Inr _ \<Rightarrow> push_all ops xs q1)"

subsection \<open>The two headers\<close>

record request_queue_header =
  rqh_account_flags :: u64
  rqh_head :: u64
  rqh_count :: u64
  rqh_next_seq_num :: u64

definition request_header_ops :: "request_queue_header header_ops" where
  "request_header_ops =
     \<lparr>qh_head = rqh_head, qh_set_head = (\<lambda>x h. h\<lparr>rqh_head := x\<rparr>),
      qh_count = rqh_count, qh_set_count = (\<lambda>x h. h\<lparr>rqh_count := x\<rparr>),
      incr_event_id = (\<lambda>h. h), decr_event_id = (\<lambda>n h. h)\<rparr>"

record event_queue_header =
  eqh_account_flags :: u64
  eqh_head :: u64
  eqh_count :: u64
  eqh_seq_num :: u64

definition event_header_ops :: "event_queue_header header_ops" where
  "event_header_ops =
     \<lparr>qh_head = eqh_head, qh_set_head = (\<lambda>x h. h\<lparr>eqh_head := x\<rparr>),
      qh_count = eqh_count, qh_set_count = (\<lambda>x h. h\<lparr>eqh_count := x\<rparr>),
      incr_event_id = (\<lambda>h. h\<lparr>eqh_seq_num := eqh_seq_num h + 1\<rparr>),
      decr_event_id = (\<lambda>n h. h\<lparr>eqh_seq_num := eqh_seq_num h - n\<rparr>)\<rparr>"

subsection \<open>The list a queue stands for\<close>

definition queue_list :: "'h header_ops \<Rightarrow> ('h, 'a) queue \<Rightarrow> 'a list" where
  "queue_list ops q =
     map (\<lambda>i. q_buf q ! ((unat (qh_head ops (q_header q)) + i) mod length (q_buf q)))
       [0..<unat (qh_count ops (q_header q))]"

definition queue_inv :: "'h header_ops \<Rightarrow> ('h, 'a) queue \<Rightarrow> bool" where
  "queue_inv ops q \<longleftrightarrow>
     length (q_buf q) < 2 ^ 32 \<and>
     unat (qh_head ops (q_header q)) < length (q_buf q) \<and>
     unat (qh_count ops (q_header q)) \<le> length (q_buf q)"

lemma length_queue_list: "length (queue_list ops q) = unat (qh_count ops (q_header q))"
  by (simp add: queue_list_def)

lemma queue_list_cong:
  assumes "qh_head ops (q_header q') = qh_head ops (q_header q)"
    "qh_count ops (q_header q') = qh_count ops (q_header q)" "q_buf q' = q_buf q"
  shows "queue_list ops q' = queue_list ops q"
  using assms by (simp add: queue_list_def)

lemma ring_inj:
  fixes h :: nat
  assumes "h < n" "i < n" "j < n" "(h + i) mod n = (h + j) mod n"
  shows "i = j"
proof -
  have "(h + x) mod n = (if h + x < n then h + x else h + x - n)" if "x < n" for x
    using that assms(1) by (simp add: le_mod_geq not_less)
  then show ?thesis using assms by (auto split: if_splits)
qed

locale queue_header =
  fixes ops :: "'h header_ops" and seq :: "'h \<Rightarrow> u64" and unit_step :: u64
  assumes head_set_head: "qh_head ops (qh_set_head ops x h) = x"
    and count_set_head: "qh_count ops (qh_set_head ops x h) = qh_count ops h"
    and head_set_count: "qh_head ops (qh_set_count ops x h) = qh_head ops h"
    and count_set_count: "qh_count ops (qh_set_count ops x h) = x"
    and head_incr: "qh_head ops (incr_event_id ops h) = qh_head ops h"
    and count_incr: "qh_count ops (incr_event_id ops h) = qh_count ops h"
    and head_decr: "qh_head ops (decr_event_id ops n h) = qh_head ops h"
    and count_decr: "qh_count ops (decr_event_id ops n h) = qh_count ops h"
    and seq_set_head: "seq (qh_set_head ops x h) = seq h"
    and seq_set_count: "seq (qh_set_count ops x h) = seq h"
    and seq_incr: "seq (incr_event_id ops h) = seq h + unit_step"
    and seq_decr: "seq (decr_event_id ops n h) = seq h - unit_step * n"
begin

lemmas header_simps = head_set_head count_set_head head_set_count count_set_count
  head_incr count_incr head_decr count_decr seq_set_head seq_set_count seq_incr seq_decr

lemma push_back_full:
  assumes "queue_inv ops q" "length (queue_list ops q) = length (q_buf q)"
  shows "push_back ops v q = Inr (Inl v, q)"
  using assms by (simp add: push_back_def queue_full_def length_queue_list)

lemma push_back_room:
  assumes inv: "queue_inv ops q" and room: "length (queue_list ops q) < length (q_buf q)"
  shows "\<exists>q'. push_back ops v q = Inr (Inr (), q') \<and> queue_inv ops q' \<and>
    queue_list ops q' = queue_list ops q @ [v] \<and> length (q_buf q') = length (q_buf q) \<and>
    seq (q_header q') = seq (q_header q) + unit_step"
proof -
  let ?h = "q_header q" and ?n = "length (q_buf q)"
  let ?hd = "unat (qh_head ops ?h)" and ?c = "unat (qh_count ops ?h)"
  have b: "?n < 2 ^ 32" "?hd < ?n" "?c < ?n" using assms by (auto simp: queue_inv_def length_queue_list)
  have u: "unat (qh_head ops ?h + qh_count ops ?h) = ?hd + ?c"
    "unat (qh_count ops ?h + 1) = Suc ?c"
    using b by (subst unat_add_small; simp)+
  let ?q' = "q\<lparr>q_buf := (q_buf q)[(?hd + ?c) mod ?n := v],
               q_header := incr_event_id ops (qh_set_count ops (qh_count ops ?h + 1) ?h)\<rparr>"
  have run: "push_back ops v q = Inr (Inr (), ?q')"
    using b by (auto simp: push_back_def queue_full_def Let_def u)
  have "(q_buf q)[(?hd + ?c) mod ?n := v] ! ((?hd + i) mod ?n) = q_buf q ! ((?hd + i) mod ?n)"
    if "i < ?c" for i
  proof -
    have "(?hd + ?c) mod ?n \<noteq> (?hd + i) mod ?n" using ring_inj [of ?hd ?n ?c i] b that by auto
    then show ?thesis by simp
  qed
  moreover have "(?hd + ?c) mod ?n < ?n" by (rule mod_less_divisor) (use b in linarith)
  ultimately have "queue_list ops ?q' = queue_list ops q @ [v]"
    by (simp add: queue_list_def header_simps u)
  moreover have "queue_inv ops ?q'" using b by (simp add: queue_inv_def header_simps u)
  ultimately show ?thesis using run by (simp add: header_simps)
qed

lemma pop_front_list:
  assumes inv: "queue_inv ops q"
  shows "\<exists>q'. pop_front ops q = Inr (case queue_list ops q of [] \<Rightarrow> None | x # xs \<Rightarrow> Some x, q') \<and>
    queue_inv ops q' \<and> queue_list ops q' = tl (queue_list ops q) \<and>
    length (q_buf q') = length (q_buf q) \<and> seq (q_header q') = seq (q_header q)"
proof (cases "qh_count ops (q_header q) = 0")
  case True
  then show ?thesis using inv by (simp add: pop_front_def queue_empty_def queue_list_def)
next
  case False
  let ?h = "q_header q" and ?n = "length (q_buf q)"
  let ?hd = "unat (qh_head ops ?h)" and ?c = "unat (qh_count ops ?h)"
  have b: "?n < 2 ^ 32" "?hd < ?n" "?c \<le> ?n" "0 < ?c"
    using assms False by (auto simp: queue_inv_def unat_gt_0)
  have c1: "unat (qh_count ops ?h - 1) = ?c - 1"
    using b by (subst unat_sub) (simp_all add: word_le_nat_alt)
  have n: "unat (of_nat ?n :: u64) = ?n" using b by (simp add: unat_of_nat)
  have "unat (qh_head ops ?h + 1) = Suc ?hd" using b by (subst unat_add_small) simp_all
  then have h1: "unat ((qh_head ops ?h + 1) mod of_nat ?n) = Suc ?hd mod ?n"
    by (simp add: unat_mod n)
  let ?q' = "q\<lparr>q_header := qh_set_head ops ((qh_head ops ?h + 1) mod of_nat ?n)
               (qh_set_count ops (qh_count ops ?h - 1) ?h)\<rparr>"
  have run: "pop_front ops q = Inr (Some (q_buf q ! ?hd), ?q')"
    using False b by (simp add: pop_front_def queue_empty_def Let_def header_simps)
  have l: "queue_list ops q = q_buf q ! ?hd # map (\<lambda>i. q_buf q ! ((?hd + Suc i) mod ?n)) [0..<?c - 1]"
  proof -
    have "[0..<?c] = 0 # map Suc [0..<?c - 1]" using b(4) by (simp add: map_Suc_upt upt_rec [of 0 ?c])
    then show ?thesis using b(2) by (simp add: queue_list_def)
  qed
  have "queue_list ops ?q' = map (\<lambda>i. q_buf q ! ((?hd + Suc i) mod ?n)) [0..<?c - 1]"
    by (simp add: queue_list_def header_simps h1 c1 mod_add_left_eq)
  then have "queue_list ops ?q' = tl (queue_list ops q)" using l by simp
  moreover have "Suc ?hd mod ?n < ?n" by (rule mod_less_divisor) (use b in linarith)
  then have "queue_inv ops ?q'" using b by (simp add: queue_inv_def header_simps h1 c1)
  ultimately show ?thesis using run l by (simp add: header_simps)
qed

lemma peek_front_list:
  assumes inv: "queue_inv ops q"
  shows "peek_front ops q = Inr (case queue_list ops q of [] \<Rightarrow> None | x # xs \<Rightarrow> Some x)"
proof -
  obtain q' where p: "pop_front ops q = Inr (case queue_list ops q of [] \<Rightarrow> None | x # xs \<Rightarrow> Some x, q')"
    using pop_front_list [OF inv] by blast
  have "peek_front ops q = and_then (pop_front ops q) (\<lambda>(r, _). Inr r)"
    by (simp add: peek_front_def pop_front_def Let_def)
  then show ?thesis by (simp add: p)
qed

lemma revert_pushes_list:
  assumes inv: "queue_inv ops q"
  shows "if unat n \<le> length (queue_list ops q)
    then \<exists>q'. revert_pushes ops n q = Inr q' \<and> queue_inv ops q' \<and>
      queue_list ops q' = take (unat n) (queue_list ops q) \<and> q_buf q' = q_buf q \<and>
      seq (q_header q') = seq (q_header q) - unit_step * (qh_count ops (q_header q) - n)
    else revert_pushes ops n q = Inl (assertion_fault StateFile 579)"
  using inv
  by (auto simp: revert_pushes_def length_queue_list word_le_nat_alt check_assert_def guard_def
      queue_inv_def header_simps queue_list_def take_map take_upt Let_def)

lemma iter_collect_list:
  assumes inv: "queue_inv ops q"
  shows "unat index + k = unat (qh_count ops (q_header q)) \<Longrightarrow>
    iter_collect (Suc k) ops q index = Inr (drop (unat index) (queue_list ops q))"
proof (induction k arbitrary: index)
  case 0
  then show ?case
    by (simp add: iter_next_def queue_len_def length_queue_list word_unat_eq_iff [symmetric])
next
  case (Suc k)
  let ?h = "q_header q" and ?n = "length (q_buf q)"
  have b: "?n < 2 ^ 32" "unat (qh_head ops ?h) < ?n" "unat (qh_count ops ?h) \<le> ?n"
    using inv by (simp_all add: queue_inv_def)
  have i1: "unat (index + 1) = Suc (unat index)" using Suc.prems b by (subst unat_add_small) simp_all
  have hi: "unat (qh_head ops ?h + index) = unat (qh_head ops ?h) + unat index"
    using Suc.prems b by (subst unat_add_small) simp_all
  have ne: "index \<noteq> qh_count ops ?h" "q_buf q \<noteq> []" using Suc.prems b by auto
  have lt: "unat index < length (queue_list ops q)" using Suc.prems by (simp add: length_queue_list)
  have "queue_list ops q ! unat index = q_buf q ! ((unat (qh_head ops ?h) + unat index) mod ?n)"
    using lt by (simp add: queue_list_def)
  moreover have "iter_collect (Suc k) ops q (index + 1) = Inr (drop (Suc (unat index)) (queue_list ops q))"
    using Suc.IH [of "index + 1"] Suc.prems i1 by simp
  moreover have "iter_next ops q index =
      Inr (Some (q_buf q ! ((unat (qh_head ops ?h) + unat index) mod ?n), index + 1))"
    using ne by (simp add: iter_next_def queue_len_def hi)
  moreover have "iter_collect (Suc (Suc k)) ops q index =
      and_then (iter_next ops q index) (\<lambda>r.
       case r of None \<Rightarrow> Inr []
       | Some (x, index') \<Rightarrow> and_then (iter_collect (Suc k) ops q index') (\<lambda>xs. Inr (x # xs)))"
    by (rule iter_collect.simps(2))
  ultimately show ?case using Cons_nth_drop_Suc [OF lt] by simp
qed

lemma queue_iter_list: "queue_inv ops q \<Longrightarrow> queue_iter ops q = Inr (queue_list ops q)"
  using iter_collect_list [of q 0 "unat (qh_count ops (q_header q))"]
  by (simp add: queue_iter_def queue_len_def del: iter_collect.simps)

text \<open>The operations side by side with those of a list of bounded length.\<close>

lemma bounded_fifo:
  assumes inv: "queue_inv ops q"
  shows "(\<exists>q'. push_back ops v q = Inr (if length (queue_list ops q) = length (q_buf q) then Inl v else Inr (), q') \<and>
       queue_inv ops q' \<and> length (q_buf q') = length (q_buf q) \<and>
       queue_list ops q' = (if length (queue_list ops q) = length (q_buf q) then queue_list ops q
                            else queue_list ops q @ [v]))
    \<and> (\<exists>q'. pop_front ops q =
         Inr (if queue_list ops q = [] then None else Some (hd (queue_list ops q)), q') \<and>
       queue_inv ops q' \<and> queue_list ops q' = tl (queue_list ops q))
    \<and> peek_front ops q = Inr (if queue_list ops q = [] then None else Some (hd (queue_list ops q)))
    \<and> queue_iter ops q = Inr (queue_list ops q)"
proof -
  have c: "(case queue_list ops q of [] \<Rightarrow> None | x # xs \<Rightarrow> Some x)
      = (if queue_list ops q = [] then None else Some (hd (queue_list ops q)))"
    by (cases "queue_list ops q") auto
  have le: "length (queue_list ops q) \<le> length (q_buf q)"
    using inv by (simp add: queue_inv_def length_queue_list)
  show ?thesis
    using push_back_full [OF inv, of v] push_back_room [OF inv, of v] le
      pop_front_list [OF inv, unfolded c] peek_front_list [OF inv, unfolded c] queue_iter_list [OF inv] inv
    by (cases "length (queue_list ops q) = length (q_buf q)") auto
qed

lemma push_all_room:
  "queue_inv ops q \<Longrightarrow> length (queue_list ops q) + length xs \<le> length (q_buf q) \<Longrightarrow>
   \<exists>q'. push_all ops xs q = Inr (Inr (), q') \<and> queue_inv ops q' \<and>
     queue_list ops q' = queue_list ops q @ xs \<and> length (q_buf q') = length (q_buf q) \<and>
     seq (q_header q') = seq (q_header q) + unit_step * of_nat (length xs)"
proof (induction xs arbitrary: q)
  case (Cons x xs)
  obtain q1 where q1: "push_back ops x q = Inr (Inr (), q1)" "queue_inv ops q1"
    "queue_list ops q1 = queue_list ops q @ [x]" "length (q_buf q1) = length (q_buf q)"
    "seq (q_header q1) = seq (q_header q) + unit_step"
    using push_back_room [OF Cons.prems(1), of x] Cons.prems(2) by auto
  obtain q2 where "push_all ops xs q1 = Inr (Inr (), q2)" "queue_inv ops q2"
    "queue_list ops q2 = queue_list ops q1 @ xs" "length (q_buf q2) = length (q_buf q1)"
    "seq (q_header q2) = seq (q_header q1) + unit_step * of_nat (length xs)"
    using Cons.IH [OF q1(2)] Cons.prems(2) q1(3,4) by auto
  then show ?case using q1 by (simp add: algebra_simps)
qed simp

end

interpretation request_q: queue_header request_header_ops rqh_next_seq_num 0
  by unfold_locales (simp_all add: request_header_ops_def)

interpretation event_q: queue_header event_header_ops eqh_seq_num 1
  by unfold_locales (simp_all add: event_header_ops_def)

lemma queue_inv_new:
  "0 < n \<Longrightarrow> n < 2 ^ 32 \<Longrightarrow> qh_head ops h = 0 \<Longrightarrow> qh_count ops h = 0 \<Longrightarrow>
   queue_inv ops \<lparr>q_header = h, q_buf = replicate n x\<rparr>"
  by (simp add: queue_inv_def)

subsection \<open>The properties\<close>

text \<open>
  Claim C32: a well-formed event queue is a bounded first-in first-out list: a push appends or,
  exactly when the buffer is full, hands the event back and changes nothing; a pop removes
  and returns the oldest event; a peek and the iterator see the same list.
\<close>

theorem event_queue_fifo:
  fixes q :: "(event_queue_header, 'a) queue"
  assumes "queue_inv event_header_ops q"
  shows "(\<exists>q'. push_back event_header_ops v q =
       Inr (if length (queue_list event_header_ops q) = length (q_buf q) then Inl v else Inr (), q') \<and>
       queue_inv event_header_ops q' \<and> length (q_buf q') = length (q_buf q) \<and>
       queue_list event_header_ops q' =
         (if length (queue_list event_header_ops q) = length (q_buf q) then queue_list event_header_ops q
          else queue_list event_header_ops q @ [v]))
    \<and> (\<exists>q'. pop_front event_header_ops q =
         Inr (if queue_list event_header_ops q = [] then None
              else Some (hd (queue_list event_header_ops q)), q') \<and>
       queue_inv event_header_ops q' \<and>
       queue_list event_header_ops q' = tl (queue_list event_header_ops q))
    \<and> peek_front event_header_ops q =
        Inr (if queue_list event_header_ops q = [] then None
             else Some (hd (queue_list event_header_ops q)))
    \<and> queue_iter event_header_ops q = Inr (queue_list event_header_ops q)"
  using assms by (rule event_q.bounded_fifo)

definition sample_event_queue :: "(event_queue_header, u64) queue" where
  "sample_event_queue =
     \<lparr>q_header = \<lparr>eqh_account_flags = 33, eqh_head = 2, eqh_count = 2, eqh_seq_num = 9\<rparr>,
      q_buf = [7, 8, 9]\<rparr>"

lemma sample_event_queue_inv: "queue_inv event_header_ops sample_event_queue"
  by (simp add: queue_inv_def sample_event_queue_def event_header_ops_def)

lemma sample_event_queue_list: "queue_list event_header_ops sample_event_queue = [9, 7]"
  by (simp add: queue_list_def sample_event_queue_def event_header_ops_def upt_rec)

theorem event_queue_fifo_witness:
  "\<exists>q'. push_back event_header_ops 5 sample_event_queue = Inr (Inr (), q') \<and>
     queue_list event_header_ops q' = [9, 7, 5]"
proof -
  have "length (q_buf sample_event_queue) = 3" by (simp add: sample_event_queue_def)
  then show ?thesis
    using conjunct1 [OF event_queue_fifo [OF sample_event_queue_inv, of 5]]
    by (simp add: sample_event_queue_list) metis
qed

text \<open>
  \<open>revert_pushes\<close> cuts a well-formed event queue back to a wished length and takes the
  removed events' numbers back, so that pushing any list of events that fits and then
  reverting to the old length restores the list and the sequence number; a wish for more
  events than there are is refused by the assertion in line 579.
\<close>

theorem event_queue_revert:
  fixes q :: "(event_queue_header, 'a) queue"
  assumes "queue_inv event_header_ops q"
    and "length (queue_list event_header_ops q) + length xs \<le> length (q_buf q)"
  shows "\<exists>q1 q2. push_all event_header_ops xs q = Inr (Inr (), q1)
    \<and> queue_list event_header_ops q1 = queue_list event_header_ops q @ xs
    \<and> eqh_seq_num (q_header q1) = eqh_seq_num (q_header q) + of_nat (length xs)
    \<and> revert_pushes event_header_ops (queue_len event_header_ops q) q1 = Inr q2
    \<and> queue_list event_header_ops q2 = queue_list event_header_ops q
    \<and> eqh_seq_num (q_header q2) = eqh_seq_num (q_header q)
    \<and> (queue_len event_header_ops q < n \<longrightarrow>
         revert_pushes event_header_ops n q = Inl (assertion_fault StateFile 579))"
proof -
  let ?l = "queue_len event_header_ops q"
  obtain q1 where q1: "push_all event_header_ops xs q = Inr (Inr (), q1)" "queue_inv event_header_ops q1"
    "queue_list event_header_ops q1 = queue_list event_header_ops q @ xs"
    "eqh_seq_num (q_header q1) = eqh_seq_num (q_header q) + of_nat (length xs)"
    using event_q.push_all_room [OF assms] by auto
  have l: "unat ?l = length (queue_list event_header_ops q)"
    by (simp add: queue_len_def length_queue_list)
  have "unat (qh_count event_header_ops (q_header q1)) = unat ?l + length xs"
    using q1(3) l by (metis length_append length_queue_list)
  from arg_cong [OF this, of "of_nat :: nat \<Rightarrow> u64"]
  have d: "qh_count event_header_ops (q_header q1) - ?l = of_nat (length xs)" by simp
  obtain q2 where "revert_pushes event_header_ops ?l q1 = Inr q2"
    "queue_list event_header_ops q2 = take (unat ?l) (queue_list event_header_ops q1)"
    "eqh_seq_num (q_header q2) = eqh_seq_num (q_header q1) - 1 * of_nat (length xs)"
    using event_q.revert_pushes_list [OF q1(2), of ?l] q1(3) l unfolding d by auto
  moreover have "revert_pushes event_header_ops n q = Inl (assertion_fault StateFile 579)" if "?l < n"
    using event_q.revert_pushes_list [OF assms(1), of n] that l by (simp add: word_less_nat_alt)
  ultimately show ?thesis using q1 l by auto
qed

theorem event_queue_revert_witness:
  "\<exists>q1 q2. push_all event_header_ops [5] sample_event_queue = Inr (Inr (), q1)
    \<and> revert_pushes event_header_ops (queue_len event_header_ops sample_event_queue) q1 = Inr q2
    \<and> queue_list event_header_ops q2 = [9, 7] \<and> eqh_seq_num (q_header q2) = 9"
proof -
  have e: "length (q_buf sample_event_queue) = 3" "eqh_seq_num (q_header sample_event_queue) = 9"
    by (simp_all add: sample_event_queue_def)
  have fit: "length (queue_list event_header_ops sample_event_queue) + length [5::u64]
      \<le> length (q_buf sample_event_queue)"
    by (simp add: sample_event_queue_list e)
  obtain q1 q2 where "push_all event_header_ops [5] sample_event_queue = Inr (Inr (), q1)"
    "revert_pushes event_header_ops (queue_len event_header_ops sample_event_queue) q1 = Inr q2"
    "queue_list event_header_ops q2 = queue_list event_header_ops sample_event_queue"
    "eqh_seq_num (q_header q2) = eqh_seq_num (q_header sample_event_queue)"
    using event_queue_revert [OF sample_event_queue_inv fit, of 3] by blast
  then show ?thesis unfolding sample_event_queue_list e(2) by blast
qed

end
