(* ===== verification/Orders.thy ===== *)
theory Orders
  imports Queue Fees
begin

text \<open>
  Order vocabulary and the wire forms of requests and events (\<open>dex/src/state.rs\<close>,
  \<open>dex/src/matching.rs\<close>): sides, order types, the 128-bit order ids that encode price-time
  priority, and the flag-byte encodings of \<open>Request\<close> and \<open>Event\<close> with their checked
  decoders.  The zero padding of the wire structs is not modelled.
\<close>

datatype side = Bid | Ask

datatype order_type = Limit | ImmediateOrCancel | PostOnly

datatype self_trade_behavior = DecrementTake | CancelProvide

primrec side_u8 :: "side \<Rightarrow> u8" where
  "side_u8 Bid = 0"
| "side_u8 Ask = 1"

definition side_try_from :: "u32 \<Rightarrow> side option" where
  "side_try_from x = (if x = 0 then Some Bid else if x = 1 then Some Ask else None)"

definition order_type_try_from :: "u32 \<Rightarrow> order_type option" where
  "order_type_try_from x =
     (if x = 0 then Some Limit else if x = 1 then Some ImmediateOrCancel
      else if x = 2 then Some PostOnly else None)"

primrec self_trade_behavior_u8 :: "self_trade_behavior \<Rightarrow> u8" where
  "self_trade_behavior_u8 DecrementTake = 0"
| "self_trade_behavior_u8 CancelProvide = 1"

definition self_trade_behavior_try_from :: "u8 \<Rightarrow> self_trade_behavior option" where
  "self_trade_behavior_try_from x =
     (if x = 0 then Some DecrementTake else if x = 1 then Some CancelProvide else None)"

subsection \<open>Order ids\<close>

type_synonym 'a request_queue = "(request_queue_header, 'a) queue"

definition gen_seq_num :: "'a request_queue \<Rightarrow> u64 \<times> 'a request_queue" where
  "gen_seq_num q =
     (rqh_next_seq_num (q_header q),
      q\<lparr>q_header := (q_header q)\<lparr>rqh_next_seq_num := rqh_next_seq_num (q_header q) + 1\<rparr>\<rparr>)"

definition gen_order_id :: "u64 \<Rightarrow> side \<Rightarrow> 'a request_queue \<Rightarrow> u128 \<times> 'a request_queue" where
  "gen_order_id limit_price sd q =
     (case gen_seq_num q of (seq_num, q1) \<Rightarrow>
        let upper = push_bit 64 (ucast limit_price);
            lower = (case sd of Bid \<Rightarrow> NOT seq_num | Ask \<Rightarrow> seq_num)
        in (upper OR ucast lower, q1))"

definition extract_price_from_order_id :: "u128 \<Rightarrow> u64" where
  "extract_price_from_order_id order_id = ucast (drop_bit 64 order_id)"

subsection \<open>Requests\<close>

record new_order_request =
  nr_side :: side
  nr_order_type :: order_type
  nr_owner_slot :: u8
  nr_fee_tier :: fee_tier
  nr_order_id :: u128
  nr_max_coin_qty :: u64
  nr_native_pc_qty_locked :: "u64 option"
  nr_owner :: aligned
  nr_client_order_id :: "u64 option"
  nr_self_trade_behavior :: self_trade_behavior

record cancel_order_request =
  cr_side :: side
  cr_order_id :: u128
  cr_cancel_id :: u64
  cr_expected_owner_slot :: u8
  cr_expected_owner :: aligned
  cr_client_order_id :: "u64 option"

datatype request_view = NewOrderView new_order_request | CancelOrderView cancel_order_request

record request =
  rq_flags :: u8
  rq_owner_slot :: u8
  rq_fee_tier :: u8
  rq_self_trade_behavior :: u8
  rq_max_coin_qty_or_cancel_id :: u64
  rq_native_pc_qty_locked :: u64
  rq_order_id :: u128
  rq_owner :: aligned
  rq_client_order_id :: u64

text \<open>The bits of \<open>RequestFlag\<close>, and \<open>BitFlags::contains\<close>.\<close>

definition RF_NewOrder :: u8 where "RF_NewOrder = 0x01"
definition RF_CancelOrder :: u8 where "RF_CancelOrder = 0x02"
definition RF_Bid :: u8 where "RF_Bid = 0x04"
definition RF_PostOnly :: u8 where "RF_PostOnly = 0x08"
definition RF_ImmediateOrCancel :: u8 where "RF_ImmediateOrCancel = 0x10"
definition RF_all :: u8 where "RF_all = 0x3F"

lemmas request_flag_defs = RF_NewOrder_def RF_CancelOrder_def RF_Bid_def RF_PostOnly_def
  RF_ImmediateOrCancel_def RF_all_def

definition flags_contain :: "'a::len word \<Rightarrow> 'a word \<Rightarrow> bool" where
  "flags_contain a b \<longleftrightarrow> a AND b = b"

definition bits_of_option :: "u64 option \<Rightarrow> u64" where  \<comment> \<open>\<open>map_or(0, NonZeroU64::get)\<close>\<close>
  "bits_of_option x = (case x of None \<Rightarrow> 0 | Some n \<Rightarrow> n)"

definition request_new :: "request_view \<Rightarrow> request" where
  "request_new view =
     (case view of
        NewOrderView v \<Rightarrow>
          \<lparr>rq_flags = RF_NewOrder OR (if nr_side v = Bid then RF_Bid else 0) OR
             (case nr_order_type v of PostOnly \<Rightarrow> RF_PostOnly
              | ImmediateOrCancel \<Rightarrow> RF_ImmediateOrCancel | Limit \<Rightarrow> 0),
           rq_owner_slot = nr_owner_slot v,
           rq_fee_tier = fee_tier_u8 (nr_fee_tier v),
           rq_self_trade_behavior = self_trade_behavior_u8 (nr_self_trade_behavior v),
           rq_max_coin_qty_or_cancel_id = nr_max_coin_qty v,
           rq_native_pc_qty_locked = bits_of_option (nr_native_pc_qty_locked v),
           rq_order_id = nr_order_id v, rq_owner = nr_owner v,
           rq_client_order_id = bits_of_option (nr_client_order_id v)\<rparr>
      | CancelOrderView v \<Rightarrow>
          \<lparr>rq_flags = RF_CancelOrder OR (if cr_side v = Bid then RF_Bid else 0),
           rq_owner_slot = cr_expected_owner_slot v, rq_fee_tier = 0, rq_self_trade_behavior = 0,
           rq_max_coin_qty_or_cancel_id = cr_cancel_id v, rq_native_pc_qty_locked = 0,
           rq_order_id = cr_order_id v, rq_owner = cr_expected_owner v,
           rq_client_order_id = bits_of_option (cr_client_order_id v)\<rparr>)"

definition request_as_view :: "request \<Rightarrow> dex_fault + request_view" where
  "request_as_view r =
     (let flags = rq_flags r in
      and_then (assert_panic (flags_contain RF_all flags)) (\<lambda>_.
      let sd = (if flags_contain flags RF_Bid then Bid else Ask) in
      if flags_contain flags RF_NewOrder then
        and_then (check_assert StateFile 797
          (flags_contain (RF_NewOrder OR RF_Bid OR RF_PostOnly OR RF_ImmediateOrCancel) flags)) (\<lambda>_.
        let post_only = flags_contain flags RF_PostOnly;
            ioc = flags_contain flags RF_ImmediateOrCancel in
        and_then (if post_only \<and> ioc then Inl Panic
                  else Inr (if post_only then PostOnly else if ioc then ImmediateOrCancel else Limit))
          (\<lambda>ot.
        and_then (ok_or (fee_tier_try_from (rq_fee_tier r)) (assertion_fault StateFile 806)) (\<lambda>tier.
        and_then (ok_or (self_trade_behavior_try_from (rq_self_trade_behavior r))
          (assertion_fault StateFile 809)) (\<lambda>stb.
        and_then (unwrap (nonzero_new (rq_max_coin_qty_or_cancel_id r))) (\<lambda>max_coin_qty.
        Inr (NewOrderView
          \<lparr>nr_side = sd, nr_order_type = ot, nr_owner_slot = rq_owner_slot r, nr_fee_tier = tier,
           nr_order_id = rq_order_id r, nr_max_coin_qty = max_coin_qty,
           nr_native_pc_qty_locked = nonzero_new (rq_native_pc_qty_locked r),
           nr_owner = rq_owner r, nr_client_order_id = nonzero_new (rq_client_order_id r),
           nr_self_trade_behavior = stb\<rparr>))))))
      else
        and_then (check_assert StateFile 823 (flags_contain flags RF_CancelOrder)) (\<lambda>_.
        and_then (check_assert StateFile 828 (flags_contain (RF_CancelOrder OR RF_Bid) flags)) (\<lambda>_.
        Inr (CancelOrderView
          \<lparr>cr_side = sd, cr_order_id = rq_order_id r, cr_cancel_id = rq_max_coin_qty_or_cancel_id r,
           cr_expected_owner_slot = rq_owner_slot r, cr_expected_owner = rq_owner r,
           cr_client_order_id = nonzero_new (rq_client_order_id r)\<rparr>)))))"

subsection \<open>Events\<close>

record fill_event =
  fe_side :: side
  fe_maker :: bool
  fe_native_qty_paid :: u64
  fe_native_qty_received :: u64
  fe_native_fee_or_rebate :: u64
  fe_order_id :: u128
  fe_owner :: aligned
  fe_owner_slot :: u8
  fe_fee_tier :: fee_tier
  fe_client_order_id :: "u64 option"

record out_event =
  oe_side :: side
  oe_native_qty_unlocked :: u64
  oe_native_qty_still_locked :: u64
  oe_order_id :: u128
  oe_owner :: aligned
  oe_owner_slot :: u8
  oe_client_order_id :: "u64 option"

datatype event_view = Fill fill_event | Out out_event

record event =
  ev_flags :: u8
  ev_owner_slot :: u8
  ev_fee_tier :: u8
  ev_native_qty_released :: u64
  ev_native_qty_paid :: u64
  ev_native_fee_or_rebate :: u64
  ev_order_id :: u128
  ev_owner :: aligned
  ev_client_order_id :: u64

definition EF_Fill :: u8 where "EF_Fill = 0x1"
definition EF_Out :: u8 where "EF_Out = 0x2"
definition EF_Bid :: u8 where "EF_Bid = 0x4"
definition EF_Maker :: u8 where "EF_Maker = 0x8"
definition EF_all :: u8 where "EF_all = 0xF"

lemmas event_flag_defs = EF_Fill_def EF_Out_def EF_Bid_def EF_Maker_def EF_all_def

definition flags_from_side :: "side \<Rightarrow> u8" where
  "flags_from_side sd = (case sd of Bid \<Rightarrow> EF_Bid | Ask \<Rightarrow> 0)"

definition flags_to_side :: "u8 \<Rightarrow> side" where
  "flags_to_side flags = (if flags_contain flags EF_Bid then Bid else Ask)"

definition event_new :: "event_view \<Rightarrow> event" where
  "event_new view =
     (case view of
        Fill v \<Rightarrow>
          \<lparr>ev_flags = (flags_from_side (fe_side v) OR EF_Fill) OR (if fe_maker v then EF_Maker else 0),
           ev_owner_slot = fe_owner_slot v, ev_fee_tier = fee_tier_u8 (fe_fee_tier v),
           ev_native_qty_released = fe_native_qty_received v,
           ev_native_qty_paid = fe_native_qty_paid v,
           ev_native_fee_or_rebate = fe_native_fee_or_rebate v,
           ev_order_id = fe_order_id v, ev_owner = fe_owner v,
           ev_client_order_id = bits_of_option (fe_client_order_id v)\<rparr>
      | Out v \<Rightarrow>
          \<lparr>ev_flags = flags_from_side (oe_side v) OR EF_Out,
           ev_owner_slot = oe_owner_slot v, ev_fee_tier = 0,
           ev_native_qty_released = oe_native_qty_unlocked v,
           ev_native_qty_paid = oe_native_qty_still_locked v,
           ev_native_fee_or_rebate = 0,
           ev_order_id = oe_order_id v, ev_owner = oe_owner v,
           ev_client_order_id = bits_of_option (oe_client_order_id v)\<rparr>)"

definition event_as_view :: "event \<Rightarrow> dex_fault + event_view" where
  "event_as_view e =
     (let flags = ev_flags e in
      and_then (assert_panic (flags_contain EF_all flags)) (\<lambda>_.
      let sd = flags_to_side flags;
          client_order_id = nonzero_new (ev_client_order_id e) in
      if flags_contain flags EF_Fill then
        and_then (check_assert StateFile 1012 (flags_contain (EF_Fill OR EF_Bid OR EF_Maker) flags)) (\<lambda>_.
        and_then (ok_or (fee_tier_try_from (ev_fee_tier e)) (assertion_fault StateFile 1025)) (\<lambda>tier.
        Inr (Fill
          \<lparr>fe_side = sd, fe_maker = flags_contain flags EF_Maker,
           fe_native_qty_paid = ev_native_qty_paid e,
           fe_native_qty_received = ev_native_qty_released e,
           fe_native_fee_or_rebate = ev_native_fee_or_rebate e,
           fe_order_id = ev_order_id e, fe_owner = ev_owner e, fe_owner_slot = ev_owner_slot e,
           fe_fee_tier = tier, fe_client_order_id = client_order_id\<rparr>)))
      else
        and_then (check_assert StateFile 1033 (flags_contain (EF_Out OR EF_Bid OR EF_Maker) flags)) (\<lambda>_.
        Inr (Out
          \<lparr>oe_side = sd, oe_native_qty_unlocked = ev_native_qty_released e,
           oe_native_qty_still_locked = ev_native_qty_paid e,
           oe_order_id = ev_order_id e, oe_owner = ev_owner e, oe_owner_slot = ev_owner_slot e,
           oe_client_order_id = client_order_id\<rparr>))))"

definition event_view_side :: "event_view \<Rightarrow> side" where
  "event_view_side v = (case v of Fill f \<Rightarrow> fe_side f | Out u \<Rightarrow> oe_side u)"

subsection \<open>Order ids encode price-time priority\<close>

lemma unat_or_halves:
  fixes x y :: u64
  shows "unat (push_bit 64 (ucast x :: u128) OR ucast y) = unat x * 2 ^ 64 + unat y"
proof -
  have d: "push_bit 64 (ucast x :: u128) AND ucast y = 0"
    by (rule bit_word_eqI) (auto simp: bit_simps dest: bit_imp_le_length)
  have "push_bit 64 (ucast x :: u128) OR ucast y = push_bit 64 (ucast x) + ucast y"
    using d by (simp add: disjunctive_add_eq_or)
  moreover have "unat (push_bit 64 (ucast x :: u128)) = unat x * 2 ^ 64"
    using unat_u64_lt [of x] by (simp add: push_bit_eq_mult unat_mult_small mult.commute)
  moreover have "unat x * 2 ^ 64 + unat y < 2 ^ 128"
  proof -
    have "unat x * 2 ^ 64 \<le> (2 ^ 64 - 1) * 2 ^ 64"
      by (rule mult_right_mono) (use unat_u64_lt [of x] in simp_all)
    then show ?thesis using unat_u64_lt [of y] by simp
  qed
  ultimately show ?thesis by (simp add: unat_add_small)
qed

definition order_key :: "u64 \<Rightarrow> side \<Rightarrow> u64 \<Rightarrow> u128" where
  "order_key price sd n = push_bit 64 (ucast price) OR ucast (case sd of Bid \<Rightarrow> NOT n | Ask \<Rightarrow> n)"

lemma gen_order_id_key:
  "gen_order_id price sd q =
     (order_key price sd (rqh_next_seq_num (q_header q)),
      q\<lparr>q_header := (q_header q)\<lparr>rqh_next_seq_num := rqh_next_seq_num (q_header q) + 1\<rparr>\<rparr>)"
  by (simp add: gen_order_id_def gen_seq_num_def order_key_def Let_def)

lemma high_half: "unat (ucast (drop_bit 64 k) :: u64) = unat (k :: u128) div 2 ^ 64"
proof -
  have "unat (drop_bit 64 k) = unat k div 2 ^ 64"
    unfolding unat_drop_bit_eq by (rule drop_bit_eq_div)
  moreover have "unat k div 2 ^ 64 < 2 ^ 64"
    using unat_u128_lt [of k] by (simp add: div_less_iff_less_mult)
  ultimately show ?thesis unfolding unat_ucast_u128_u64 by (simp only: mod_less)
qed

lemma extract_price_order_key: "extract_price_from_order_id (order_key p sd n) = p"
proof -
  have div: "(a * 2 ^ 64 + c) div 2 ^ 64 = a" if "c < 2 ^ 64" for a c :: nat using that by simp
  show ?thesis
    unfolding extract_price_from_order_id_def order_key_def word_unat_eq_iff high_half unat_or_halves
    by (rule div [OF unat_u64_lt])
qed

lemma lex_nat:
  fixes a b c d n :: nat
  assumes "c < n" "d < n"
  shows "a * n + c < b * n + d \<longleftrightarrow> a < b \<or> a = b \<and> c < d"
proof -
  have less: "x * n + y < x' * n + y'" if "x < x'" "y < n" for x y x' y'
  proof -
    have "(x + 1) * n \<le> x' * n" using that by (intro mult_right_mono) simp_all
    then have "x * n + n \<le> x' * n" by (simp add: add_mult_distrib)
    then show ?thesis using that(2) by linarith
  qed
  consider "a < b" | "a = b" | "b < a" by linarith
  then show ?thesis
  proof cases
    case 3
    then show ?thesis using less [OF 3 assms(2), of c] by simp
  qed (use less [OF _ assms(1)] in simp_all)
qed

lemma unat_not_less: "unat (NOT x :: u64) < unat (NOT y :: u64) \<longleftrightarrow> unat y < unat x"
proof -
  have "unat (NOT z :: u64) = 2 ^ 64 - 1 - unat z" for z
  proof -
    have "NOT z = - 1 - z" by (simp add: not_eq_complement)
    moreover have "unat (- 1 - z) = unat (- 1 :: u64) - unat z"
      by (rule unat_sub) simp
    ultimately show ?thesis by (simp add: unsigned_minus_1_eq_mask mask_eq_exp_minus_1)
  qed
  then show ?thesis using unat_u64_lt [of x] unat_u64_lt [of y] by auto
qed

lemma order_key_less:
  "order_key p Ask m < order_key q Ask n \<longleftrightarrow> p < q \<or> p = q \<and> m < n"
  "order_key p Bid m < order_key q Bid n \<longleftrightarrow> p < q \<or> p = q \<and> n < m"
  unfolding word_less_nat_alt order_key_def unat_or_halves lex_nat [OF unat_u64_lt unat_u64_lt]
  by (simp_all add: unat_not_less word_unat_eq_iff)

text \<open>
  Claim C31: the ids handed out by a request queue order the books by price, then time.  Asks
  are matched from the least id: the cheaper order first, and among equal prices the one
  numbered earlier.  Bids are matched from the greatest id: the dearer order first, and again
  among equal prices the one numbered earlier.  The price can be read back off the id, and
  handing out an id takes one number.
\<close>

theorem gen_order_id_price_time:
  fixes q r :: "'a request_queue"
  defines "m \<equiv> rqh_next_seq_num (q_header q)" and "n \<equiv> rqh_next_seq_num (q_header r)"
  shows "(fst (gen_order_id p1 Ask q) < fst (gen_order_id p2 Ask r) \<longleftrightarrow> p1 < p2 \<or> p1 = p2 \<and> m < n)
    \<and> (fst (gen_order_id p2 Bid r) < fst (gen_order_id p1 Bid q) \<longleftrightarrow> p2 < p1 \<or> p1 = p2 \<and> m < n)
    \<and> extract_price_from_order_id (fst (gen_order_id p1 sd q)) = p1
    \<and> rqh_next_seq_num (q_header (snd (gen_order_id p1 sd q))) = m + 1"
  by (auto simp: gen_order_id_key order_key_less extract_price_order_key m_def n_def)

subsection \<open>The codecs\<close>

text \<open>The views a caller can build in Rust: \<open>NonZeroU64\<close> values are not zero.\<close>

definition request_view_ok :: "request_view \<Rightarrow> bool" where
  "request_view_ok view =
     (case view of
        NewOrderView v \<Rightarrow> nr_max_coin_qty v \<noteq> 0 \<and> nr_native_pc_qty_locked v \<noteq> Some 0
          \<and> nr_client_order_id v \<noteq> Some 0
      | CancelOrderView v \<Rightarrow> cr_client_order_id v \<noteq> Some 0)"

definition event_view_ok :: "event_view \<Rightarrow> bool" where
  "event_view_ok view =
     (case view of Fill v \<Rightarrow> fe_client_order_id v \<noteq> Some 0 | Out v \<Rightarrow> oe_client_order_id v \<noteq> Some 0)"

lemma nonzero_bits_of_option [simp]: "x \<noteq> Some 0 \<Longrightarrow> nonzero_new (bits_of_option x) = x"
  by (cases x) (auto simp: bits_of_option_def nonzero_new_def)

lemma nonzero_new_nonzero: "x \<noteq> 0 \<Longrightarrow> nonzero_new x = Some x"
  by simp

lemma self_trade_behavior_try_from_u8 [simp]:
  "self_trade_behavior_try_from (self_trade_behavior_u8 b) = Some b"
  by (cases b) (simp_all add: self_trade_behavior_try_from_def)

lemma request_as_view_new:
  assumes "request_view_ok view"
  shows "request_as_view (request_new view) = Inr view"
proof (cases view)
  case (NewOrderView v)
  then show ?thesis using assms
    by (cases "nr_side v"; cases "nr_order_type v")
      (simp_all add: request_view_ok_def request_new_def request_as_view_def flags_contain_def
        request_flag_defs Let_def nonzero_new_nonzero)
next
  case (CancelOrderView v)
  then show ?thesis using assms
    by (cases "cr_side v")
      (simp_all add: request_view_ok_def request_new_def request_as_view_def flags_contain_def
        request_flag_defs Let_def)
qed

lemma event_as_view_new:
  assumes "event_view_ok view"
  shows "event_as_view (event_new view) = Inr view"
proof (cases view)
  case (Fill v)
  then show ?thesis using assms
    by (cases "fe_side v"; cases "fe_maker v")
      (simp_all add: event_view_ok_def event_new_def event_as_view_def flags_contain_def
        flags_from_side_def flags_to_side_def event_flag_defs Let_def)
next
  case (Out v)
  then show ?thesis using assms
    by (cases "oe_side v")
      (simp_all add: event_view_ok_def event_new_def event_as_view_def flags_contain_def
        flags_from_side_def flags_to_side_def event_flag_defs Let_def)
qed

text \<open>
  Every request and every event that the program can write is read back as the same
  view: the decoders accept what the encoders produce and lose nothing.
\<close>

theorem request_event_round_trip:
  assumes "request_view_ok rv" and "event_view_ok ev"
  shows "request_as_view (request_new rv) = Inr rv \<and> event_as_view (event_new ev) = Inr ev"
  using assms request_as_view_new event_as_view_new by blast

theorem request_event_round_trip_witness:
  "request_as_view (request_new (CancelOrderView
     \<lparr>cr_side = Bid, cr_order_id = 5, cr_cancel_id = 7, cr_expected_owner_slot = 1,
      cr_expected_owner = (1, 2, 3, 4), cr_client_order_id = Some 9\<rparr>)) =
   Inr (CancelOrderView
     \<lparr>cr_side = Bid, cr_order_id = 5, cr_cancel_id = 7, cr_expected_owner_slot = 1,
      cr_expected_owner = (1, 2, 3, 4), cr_client_order_id = Some 9\<rparr>)"
  by (rule conjunct1 [OF request_event_round_trip
        [where ev = "Out \<lparr>oe_side = Ask, oe_native_qty_unlocked = 1, oe_native_qty_still_locked = 0,
           oe_order_id = 5, oe_owner = (1, 2, 3, 4), oe_owner_slot = 1, oe_client_order_id = None\<rparr>"]])
    (simp_all add: request_view_ok_def event_view_ok_def)

end
