(* ===== verification/OpenOrders.thy ===== *)
theory OpenOrders
  imports Orders KeyBits
begin

text \<open>
  The flags of program accounts and a trader's open-orders account (\<open>dex/src/state.rs\<close>,
  \<open>AccountFlag\<close>, \<open>OpenOrders\<close>): balances, and 128 order slots kept as a free bitmap, a side
  bitmap and two arrays.  \<open>oo_slots\<close> is the map from slots to orders the account stands for.
\<close>

subsection \<open>Account flags\<close>

definition AF_Initialized :: u64 where "AF_Initialized = 0x01"
definition AF_Market :: u64 where "AF_Market = 0x02"
definition AF_OpenOrders :: u64 where "AF_OpenOrders = 0x04"
definition AF_RequestQueue :: u64 where "AF_RequestQueue = 0x08"
definition AF_EventQueue :: u64 where "AF_EventQueue = 0x10"
definition AF_Bids :: u64 where "AF_Bids = 0x20"
definition AF_Asks :: u64 where "AF_Asks = 0x40"
definition AF_Disabled :: u64 where "AF_Disabled = 0x80"
definition AF_all :: u64 where "AF_all = 0xFF"

lemmas account_flag_defs = AF_Initialized_def AF_Market_def AF_OpenOrders_def AF_RequestQueue_def
  AF_EventQueue_def AF_Bids_def AF_Asks_def AF_Disabled_def AF_all_def

text \<open>\<open>BitFlags::from_bits\<close>: bits outside the enumeration are refused.\<close>

definition account_flags_from_bits :: "u64 \<Rightarrow> u64 option" where
  "account_flags_from_bits b = (if flags_contain AF_all b then Some b else None)"

subsection \<open>The account\<close>

record open_orders =
  oo_account_flags :: u64
  oo_market :: aligned
  oo_owner :: aligned
  oo_native_coin_free :: u64
  oo_native_coin_total :: u64
  oo_native_pc_free :: u64
  oo_native_pc_total :: u64
  oo_free_slot_bits :: u128
  oo_is_bid_bits :: u128
  oo_orders :: "u128 list"
  oo_client_order_ids :: "u64 list"
  oo_referrer_rebates_accrued :: u64

definition oo_check_flags :: "open_orders \<Rightarrow> dex_fault + unit" where
  "oo_check_flags oo =
     and_then (ok_or (account_flags_from_bits (oo_account_flags oo)) (err_code InvalidMarketFlags)) (\<lambda>flags.
     if flags \<noteq> (AF_Initialized OR AF_OpenOrders) then Inl (err_code WrongOrdersAccount) else Inr ())"

definition oo_init :: "aligned \<Rightarrow> aligned \<Rightarrow> open_orders \<Rightarrow> dex_fault + open_orders" where
  "oo_init market owner oo =
     and_then (check_assert StateFile 416 (oo_account_flags oo = 0)) (\<lambda>_.
     Inr (oo\<lparr>oo_account_flags := AF_Initialized OR AF_OpenOrders, oo_market := market, oo_owner := owner,
             oo_native_coin_total := 0, oo_native_coin_free := 0,
             oo_native_pc_total := 0, oo_native_pc_free := 0, oo_free_slot_bits := - 1\<rparr>))"

definition credit_locked_coin :: "u64 \<Rightarrow> open_orders \<Rightarrow> dex_fault + open_orders" where
  "credit_locked_coin amount oo =
     and_then (unwrap (checked_add (oo_native_coin_total oo) amount)) (\<lambda>x.
     Inr (oo\<lparr>oo_native_coin_total := x\<rparr>))"

definition credit_locked_pc :: "u64 \<Rightarrow> open_orders \<Rightarrow> dex_fault + open_orders" where
  "credit_locked_pc amount oo =
     and_then (unwrap (checked_add (oo_native_pc_total oo) amount)) (\<lambda>x.
     Inr (oo\<lparr>oo_native_pc_total := x\<rparr>))"

definition lock_free_coin :: "u64 \<Rightarrow> open_orders \<Rightarrow> dex_fault + open_orders" where
  "lock_free_coin amount oo =
     and_then (unwrap (checked_sub (oo_native_coin_free oo) amount)) (\<lambda>x.
     Inr (oo\<lparr>oo_native_coin_free := x\<rparr>))"

definition lock_free_pc :: "u64 \<Rightarrow> open_orders \<Rightarrow> dex_fault + open_orders" where
  "lock_free_pc amount oo =
     and_then (unwrap (checked_sub (oo_native_pc_free oo) amount)) (\<lambda>x.
     Inr (oo\<lparr>oo_native_pc_free := x\<rparr>))"

text \<open>\<open>1u128 << slot\<close> with a \<open>u8\<close> or \<open>u32\<close> shift amount.\<close>

definition slot_mask :: "nat \<Rightarrow> u128" where
  "slot_mask slot = push_bit (slot mod 128) 1"

definition slot_is_free :: "u8 \<Rightarrow> open_orders \<Rightarrow> bool" where
  "slot_is_free slot oo \<longleftrightarrow> (oo_free_slot_bits oo AND slot_mask (unat slot)) \<noteq> 0"

definition slot_side :: "u8 \<Rightarrow> open_orders \<Rightarrow> side option" where
  "slot_side slot oo =
     (if (oo_free_slot_bits oo AND slot_mask (unat slot)) \<noteq> 0 then None
      else if (oo_is_bid_bits oo AND slot_mask (unat slot)) \<noteq> 0 then Some Bid
      else Some Ask)"

definition remove_order :: "u8 \<Rightarrow> open_orders \<Rightarrow> dex_fault + open_orders" where
  "remove_order slot oo =
     and_then (check_assert StateFile 467 (slot < 128)) (\<lambda>_.
     and_then (check_assert StateFile 468 (\<not> slot_is_free slot oo)) (\<lambda>_.
     let mask = slot_mask (unat slot)
     in Inr (oo\<lparr>oo_orders := (oo_orders oo)[unat slot := 0],
                oo_client_order_ids := (oo_client_order_ids oo)[unat slot := 0],
                oo_free_slot_bits := oo_free_slot_bits oo OR mask,
                oo_is_bid_bits := oo_is_bid_bits oo AND NOT mask\<rparr>)))"

definition add_order :: "u128 \<Rightarrow> side \<Rightarrow> open_orders \<Rightarrow> dex_fault + (u8 \<times> open_orders)" where
  "add_order oid sd oo =
     (if oo_free_slot_bits oo = 0 then Inl (err_code TooManyOpenOrders)
      else
        let slot = trailing_zeros (oo_free_slot_bits oo) in
        and_then (check_assert StateFile 484 (slot_is_free (ucast slot) oo)) (\<lambda>_.
        let mask = slot_mask (unat slot)
        in Inr (ucast slot,
             oo\<lparr>oo_free_slot_bits := oo_free_slot_bits oo AND NOT mask,
                oo_is_bid_bits := (case sd of Bid \<Rightarrow> oo_is_bid_bits oo OR mask
                                   | Ask \<Rightarrow> oo_is_bid_bits oo AND NOT mask),
                oo_orders := (oo_orders oo)[unat slot := oid]\<rparr>)))"

subsection \<open>The slots an account stands for\<close>

definition oo_arrays :: "open_orders \<Rightarrow> bool" where
  "oo_arrays oo \<longleftrightarrow> length (oo_orders oo) = 128 \<and> length (oo_client_order_ids oo) = 128"

definition oo_slots :: "open_orders \<Rightarrow> nat \<rightharpoonup> side \<times> u128" where
  "oo_slots oo i =
     (if i < 128 \<and> \<not> bit (oo_free_slot_bits oo) i
      then Some (if bit (oo_is_bid_bits oo) i then Bid else Ask, oo_orders oo ! i) else None)"

lemma slot_mask_test: "n < 128 \<Longrightarrow> (b AND slot_mask n) \<noteq> 0 \<longleftrightarrow> bit b n"
  unfolding slot_mask_def
  by (auto simp: and_exp_eq_0_iff_not_bit push_bit_eq_mult)

lemma bit_slot_mask: "n < 128 \<Longrightarrow> bit (slot_mask n) i \<longleftrightarrow> i = n"
  unfolding slot_mask_def by (auto simp: bit_exp_iff)

lemma slot_is_free_bit: "slot < 128 \<Longrightarrow> slot_is_free slot oo \<longleftrightarrow> bit (oo_free_slot_bits oo) (unat slot)"
  by (simp add: slot_is_free_def slot_mask_test word_less_nat_alt)

lemma slot_side_slots: "slot < 128 \<Longrightarrow> slot_side slot oo = map_option fst (oo_slots oo (unat slot))"
  using slot_mask_test [of "unat slot"]
  by (auto simp: slot_side_def oo_slots_def word_less_nat_alt)

lemma trailing_zeros_bit:
  fixes b :: u128
  assumes "b \<noteq> 0"
  shows "unat (trailing_zeros b) < 128 \<and> bit b (unat (trailing_zeros b))
    \<and> (\<forall>i<unat (trailing_zeros b). \<not> bit b i)"
proof -
  define m where "m = length (takeWhile (\<lambda>i. \<not> bit b i) [0..<128])"
  have m: "m \<le> 128" "\<forall>i<m. \<not> bit b i" "m < 128 \<longrightarrow> bit b m"
    using takeWhile_upt_length [of "\<lambda>i. \<not> bit b i" 128] by (simp_all add: m_def)
  have "m \<noteq> 128"
  proof
    assume "m = 128"
    then have "b = 0" using m(2) by (intro bit_word_eqI) simp
    with assms show False by simp
  qed
  then have "m < 128" using m(1) by simp
  moreover have "unat (trailing_zeros b) = m"
    using m(1) by (simp add: trailing_zeros_def m_def [symmetric] unat_of_nat)
  ultimately show ?thesis using m by simp
qed

lemma oo_slots_full: "oo_free_slot_bits oo = 0 \<longleftrightarrow> dom (oo_slots oo) = {..<128}"
proof
  assume "dom (oo_slots oo) = {..<128}"
  then have "\<not> bit (oo_free_slot_bits oo) i" if "i < 128" for i
    using that by (auto simp: oo_slots_def dom_def set_eq_iff split: if_splits)
  then show "oo_free_slot_bits oo = 0" by (intro bit_word_eqI) simp
qed (auto simp: oo_slots_def dom_def set_eq_iff split: if_splits)

lemma remove_order_slots:
  assumes "slot < 128" "oo_slots oo (unat slot) \<noteq> None" "oo_arrays oo"
  obtains oo' where "remove_order slot oo = Inr oo'" "oo_slots oo' = (oo_slots oo)(unat slot := None)"
    "oo_arrays oo'" "oo_client_order_ids oo' = (oo_client_order_ids oo)[unat slot := 0]"
    "oo_native_coin_free oo' = oo_native_coin_free oo" "oo_native_coin_total oo' = oo_native_coin_total oo"
    "oo_native_pc_free oo' = oo_native_pc_free oo" "oo_native_pc_total oo' = oo_native_pc_total oo"
proof -
  have n: "unat slot < 128" using assms(1) by (simp add: word_less_nat_alt)
  have nf: "\<not> slot_is_free slot oo"
    using assms(1,2) by (auto simp: slot_is_free_bit oo_slots_def split: if_splits)
  let ?oo = "oo\<lparr>oo_orders := (oo_orders oo)[unat slot := 0],
                oo_client_order_ids := (oo_client_order_ids oo)[unat slot := 0],
                oo_free_slot_bits := oo_free_slot_bits oo OR slot_mask (unat slot),
                oo_is_bid_bits := oo_is_bid_bits oo AND NOT (slot_mask (unat slot))\<rparr>"
  have "oo_slots ?oo i = ((oo_slots oo)(unat slot := None)) i" for i
    using n by (auto simp: oo_slots_def bit_or_iff bit_and_iff bit_not_iff bit_slot_mask)
  then have "oo_slots ?oo = (oo_slots oo)(unat slot := None)" by (rule ext)
  then show thesis
    using assms nf by (intro that [of ?oo]) (auto simp: remove_order_def Let_def oo_arrays_def)
qed

lemma add_order_slots:
  assumes "oo_free_slot_bits oo \<noteq> 0" "oo_arrays oo"
  obtains slot oo' where "add_order oid sd oo = Inr (slot, oo')" "slot < 128"
    "oo_slots oo (unat slot) = None" "\<forall>i<unat slot. oo_slots oo i \<noteq> None"
    "oo_slots oo' = (oo_slots oo)(unat slot \<mapsto> (sd, oid))"
    "oo_arrays oo'" "oo_client_order_ids oo' = oo_client_order_ids oo"
proof -
  let ?slot = "trailing_zeros (oo_free_slot_bits oo)"
  have n: "unat ?slot < 128" "bit (oo_free_slot_bits oo) (unat ?slot)"
    "\<forall>i<unat ?slot. \<not> bit (oo_free_slot_bits oo) i"
    using trailing_zeros_bit [OF assms(1)] by simp_all
  have u: "unat (ucast ?slot :: u8) = unat ?slot"
    using n(1) by (simp add: unsigned_ucast_eq take_bit_nat_eq_self)
  then have s: "(ucast ?slot :: u8) < 128" using n(1) by (simp add: word_less_nat_alt)
  have f: "slot_is_free (ucast ?slot) oo" using n(2) u s by (simp add: slot_is_free_bit)
  let ?oo = "oo\<lparr>oo_free_slot_bits := oo_free_slot_bits oo AND NOT (slot_mask (unat ?slot)),
                oo_is_bid_bits := (case sd of Bid \<Rightarrow> oo_is_bid_bits oo OR slot_mask (unat ?slot)
                                   | Ask \<Rightarrow> oo_is_bid_bits oo AND NOT (slot_mask (unat ?slot))),
                oo_orders := (oo_orders oo)[unat ?slot := oid]\<rparr>"
  have "oo_slots ?oo i = ((oo_slots oo)(unat ?slot \<mapsto> (sd, oid))) i" for i
    using n(1) assms(2)
    by (cases sd) (auto simp: oo_slots_def oo_arrays_def bit_or_iff bit_and_iff bit_not_iff bit_slot_mask)
  then have "oo_slots ?oo = (oo_slots oo)(unat ?slot \<mapsto> (sd, oid))" by (rule ext)
  then show thesis
    using n u s f assms
    by (intro that [of "ucast ?slot" ?oo]) (auto simp: add_order_def Let_def oo_arrays_def oo_slots_def)
qed

lemma oo_init_slots: "oo_init m ow oo = Inr oo' \<Longrightarrow> oo_slots oo' = Map.empty"
  by (auto simp: oo_init_def oo_slots_def res_simps fun_eq_iff)

subsection \<open>The properties\<close>

text \<open>
  \<open>add_order\<close> puts an order into the lowest free slot of the account, records its side
  and id there and changes no other slot; it fails, with the error code for it, exactly when
  all 128 slots are taken.
\<close>

theorem add_order_correct:
  assumes "oo_arrays oo"
  shows "(dom (oo_slots oo) = {..<128} \<longrightarrow> add_order oid sd oo = Inl (err_code TooManyOpenOrders)) \<and>
    (dom (oo_slots oo) \<noteq> {..<128} \<longrightarrow>
      (\<exists>slot oo'. add_order oid sd oo = Inr (slot, oo') \<and> slot < 128 \<and>
         oo_slots oo (unat slot) = None \<and> (\<forall>i<unat slot. oo_slots oo i \<noteq> None) \<and>
         oo_slots oo' = (oo_slots oo)(unat slot \<mapsto> (sd, oid)) \<and> slot_side slot oo' = Some sd \<and>
         oo_arrays oo'))"
proof (cases "oo_free_slot_bits oo = 0")
  case True
  then show ?thesis using oo_slots_full [of oo] by (simp add: add_order_def)
next
  case False
  obtain slot oo' where r: "add_order oid sd oo = Inr (slot, oo')" "slot < 128"
    "oo_slots oo (unat slot) = None" "\<forall>i<unat slot. oo_slots oo i \<noteq> None"
    "oo_slots oo' = (oo_slots oo)(unat slot \<mapsto> (sd, oid))" "oo_arrays oo'"
    by (rule add_order_slots [OF False assms])
  have "slot_side slot oo' = Some sd" using r(5) by (simp add: slot_side_slots [OF r(2)])
  then show ?thesis using r False oo_slots_full [of oo] by blast
qed

text \<open>
  \<open>remove_order\<close> empties exactly the slot it is given and its client id, and refuses,
  with the assertion of its line, a slot number above 127 or a slot that is free; removing
  what was just added restores the slots.
\<close>

theorem remove_order_correct:
  assumes "oo_arrays oo"
  shows "(\<not> slot < 128 \<longrightarrow> remove_order slot oo = Inl (assertion_fault StateFile 467)) \<and>
    (slot < 128 \<and> oo_slots oo (unat slot) = None \<longrightarrow>
       remove_order slot oo = Inl (assertion_fault StateFile 468)) \<and>
    (slot < 128 \<and> oo_slots oo (unat slot) \<noteq> None \<longrightarrow>
      (\<exists>oo'. remove_order slot oo = Inr oo' \<and> oo_arrays oo' \<and>
         oo_slots oo' = (oo_slots oo)(unat slot := None) \<and>
         oo_client_order_ids oo' = (oo_client_order_ids oo)[unat slot := 0])) \<and>
    (\<forall>oid sd s' oo1. add_order oid sd oo = Inr (s', oo1) \<longrightarrow>
      (\<exists>oo2. remove_order s' oo1 = Inr oo2 \<and> oo_slots oo2 = oo_slots oo))"
proof (intro conjI allI impI)
  assume "\<not> slot < 128"
  then show "remove_order slot oo = Inl (assertion_fault StateFile 467)"
    by (simp add: remove_order_def check_assert_def)
next
  assume a: "slot < 128 \<and> oo_slots oo (unat slot) = None"
  then have "slot_is_free slot oo"
    by (auto simp: slot_is_free_bit oo_slots_def word_less_nat_alt split: if_splits)
  then show "remove_order slot oo = Inl (assertion_fault StateFile 468)"
    using a by (simp add: remove_order_def check_assert_def)
next
  assume "slot < 128 \<and> oo_slots oo (unat slot) \<noteq> None"
  then show "\<exists>oo'. remove_order slot oo = Inr oo' \<and> oo_arrays oo' \<and>
         oo_slots oo' = (oo_slots oo)(unat slot := None) \<and>
         oo_client_order_ids oo' = (oo_client_order_ids oo)[unat slot := 0]"
    using remove_order_slots [OF _ _ assms] by metis
next
  fix oid sd s' oo1 assume add: "add_order oid sd oo = Inr (s', oo1)"
  then have "oo_free_slot_bits oo \<noteq> 0" by (auto simp: add_order_def split: if_splits)
  then obtain slot oo' where r: "add_order oid sd oo = Inr (slot, oo')" "slot < 128"
    "oo_slots oo (unat slot) = None" "oo_slots oo' = (oo_slots oo)(unat slot \<mapsto> (sd, oid))" "oo_arrays oo'"
    using add_order_slots [OF _ assms] by metis
  then obtain oo2 where "remove_order slot oo' = Inr oo2"
    "oo_slots oo2 = (oo_slots oo')(unat slot := None)"
    using remove_order_slots [of slot oo'] by auto
  then show "\<exists>oo2. remove_order s' oo1 = Inr oo2 \<and> oo_slots oo2 = oo_slots oo"
    using r add by (simp add: fun_upd_idem)
qed

definition sample_open_orders :: open_orders where
  "sample_open_orders =
     \<lparr>oo_account_flags = 5, oo_market = (1, 2, 3, 4), oo_owner = (5, 6, 7, 8),
      oo_native_coin_free = 10, oo_native_coin_total = 40, oo_native_pc_free = 300,
      oo_native_pc_total = 900, oo_free_slot_bits = NOT 3, oo_is_bid_bits = 2,
      oo_orders = [17, 18] @ replicate 126 0, oo_client_order_ids = [9, 0] @ replicate 126 0,
      oo_referrer_rebates_accrued = 0\<rparr>"

lemma sample_open_orders_arrays: "oo_arrays sample_open_orders"
  by (simp add: oo_arrays_def sample_open_orders_def)

lemma sample_open_orders_slots: "oo_slots sample_open_orders = [0 \<mapsto> (Ask, 17), 1 \<mapsto> (Bid, 18)]"
proof
  fix i :: nat
  consider "i = 0" | "i = 1" | "1 < i" "i < 128" | "128 \<le> i" by linarith
  then show "oo_slots sample_open_orders i = [0 \<mapsto> (Ask, 17), 1 \<mapsto> (Bid, 18)] i"
  proof cases
    case 3
    have "(- 4 :: u128) = NOT (mask 2)" by (simp add: mask_eq_exp_minus_1)
    then have "bit (- 4 :: u128) i" using 3 by (simp only: bit_not_iff bit_mask_iff possible_bit_word) simp
    then show ?thesis using 3 by (simp add: oo_slots_def sample_open_orders_def)
  qed (simp_all add: oo_slots_def sample_open_orders_def bit_not_iff)
qed

theorem add_order_correct_witness:
  "\<exists>slot oo'. add_order 99 Bid sample_open_orders = Inr (slot, oo') \<and> slot_side slot oo' = Some Bid"
proof -
  have "2 \<notin> dom (oo_slots sample_open_orders)" by (simp add: sample_open_orders_slots)
  then have "dom (oo_slots sample_open_orders) \<noteq> {..<128}" by auto
  then show ?thesis using add_order_correct [OF sample_open_orders_arrays, of 99 Bid] by blast
qed

theorem remove_order_correct_witness:
  "\<exists>oo'. remove_order 1 sample_open_orders = Inr oo' \<and> oo_slots oo' = [0 \<mapsto> (Ask, 17)]"
  using remove_order_correct [OF sample_open_orders_arrays, of 1]
  by (simp add: sample_open_orders_slots fun_upd_twist) blast

end
