(* ===== verification/Bytes.thy ===== *)
theory Bytes
  imports DexErrors
begin

text \<open>
  Little-endian integers in byte strings, as \<open>from_le_bytes\<close> and the casts between byte and
  word slices of the sources read and write them, and slices of byte strings.
\<close>

primrec le_word :: "u8 list \<Rightarrow> 'a::len word" where
  "le_word [] = 0"
| "le_word (b # bs) = ucast b OR push_bit 8 (le_word bs)"

primrec le_bytes :: "nat \<Rightarrow> 'a::len word \<Rightarrow> u8 list" where
  "le_bytes 0 w = []"
| "le_bytes (Suc n) w = ucast w # le_bytes n (drop_bit 8 w)"

text \<open>The \<open>n\<close> bytes of \<open>d\<close> from \<open>i\<close> on: one field of \<open>array_refs!\<close>.\<close>

definition cut :: "nat \<Rightarrow> nat \<Rightarrow> 'b list \<Rightarrow> 'b list" where
  "cut i n d = take n (drop i d)"

text \<open>Elements of \<open>n\<close> items each; what is left over at the end is dropped.\<close>

function chunks :: "nat \<Rightarrow> 'b list \<Rightarrow> 'b list list" where
  "chunks n d = (if n = 0 \<or> length d < n then [] else take n d # chunks n (drop n d))"
  by pat_completeness auto
termination by (relation "measure (\<lambda>(n, d). length d)") auto

declare chunks.simps [simp del]

lemma length_le_bytes [simp]: "length (le_bytes n w) = n"
  by (induction n arbitrary: w) simp_all

lemma bit_le_word:
  "bit (le_word bs :: 'a::len word) i \<longleftrightarrow> i < LENGTH('a) \<and> i < 8 * length bs \<and> bit (bs ! (i div 8)) (i mod 8)"
proof (induction bs arbitrary: i)
  case Nil
  then show ?case by simp
next
  case (Cons b bs)
  show ?case
  proof (cases "i < 8")
    case True
    then show ?thesis by (auto simp: bit_simps)
  next
    case False
    then have "i div 8 = Suc ((i - 8) div 8)" "i mod 8 = (i - 8) mod 8"
      by (simp_all add: le_div_geq le_mod_geq)
    moreover have "\<not> bit b i" using False by (auto dest: bit_imp_le_length)
    ultimately show ?thesis using False by (auto simp: bit_simps Cons.IH dest: bit_imp_le_length)
  qed
qed

lemma nth_le_bytes: "i < n \<Longrightarrow> le_bytes n w ! i = ucast (drop_bit (8 * i) w)"
  by (induction n arbitrary: w i) (auto simp: nth_Cons drop_bit_drop_bit ac_simps split: nat.splits)

lemma le_word_bytes:
  assumes "LENGTH('a) \<le> 8 * n"
  shows "le_word (le_bytes n w) = (w :: 'a::len word)"
proof (rule bit_word_eqI)
  fix i assume i: "i < LENGTH('a)"
  then have "i div 8 < n" using assms by linarith
  then have "bit (le_bytes n w ! (i div 8)) (i mod 8) \<longleftrightarrow> bit w (8 * (i div 8) + i mod 8)"
    by (simp add: nth_le_bytes bit_simps)
  then show "bit (le_word (le_bytes n w) :: 'a word) i = bit w i"
    using i assms by (simp add: bit_le_word)
qed

lemma le_bytes_word:
  assumes "8 * length bs \<le> LENGTH('a)"
  shows "le_bytes (length bs) (le_word bs :: 'a::len word) = bs"
proof (rule nth_equalityI)
  fix i assume "i < length (le_bytes (length bs) (le_word bs :: 'a word))"
  then have i: "i < length bs" by simp
  show "le_bytes (length bs) (le_word bs :: 'a word) ! i = bs ! i"
  proof (rule bit_word_eqI)
    fix j assume "j < LENGTH(8)"
    then have j: "j < 8" by simp
    then have d: "(8 * i + j) div 8 = i" "(8 * i + j) mod 8 = j" by simp_all
    show "bit (le_bytes (length bs) (le_word bs :: 'a word) ! i) j = bit (bs ! i) j"
      using i j assms by (simp add: nth_le_bytes bit_simps bit_le_word d)
  qed
qed simp

text \<open>A byte string is read as a word and that word written back: nothing is lost.\<close>

lemma le_word_eq_iff:
  assumes "8 * n = LENGTH('a)" "length bs = n"
  shows "le_word bs = (w :: 'a::len word) \<longleftrightarrow> bs = le_bytes n w"
  using le_word_bytes [of n w] le_bytes_word [of bs] assms by (metis order_refl)

lemma length_cut [simp]: "i + n \<le> length d \<Longrightarrow> length (cut i n d) = n"
  by (simp add: cut_def)

lemma cut_append_left [simp]: "i + n \<le> length xs \<Longrightarrow> cut i n (xs @ ys) = cut i n xs"
  by (simp add: cut_def)

lemma cut_append_right: "length xs \<le> i \<Longrightarrow> cut i n (xs @ ys) = cut (i - length xs) n ys"
  by (simp add: cut_def)

lemma cut_all [simp]: "length d \<le> n \<Longrightarrow> cut 0 n d = d"
  by (simp add: cut_def)

lemma cut_Cons [simp]: "cut (Suc i) n (x # d) = cut i n d"
  by (simp add: cut_def)

lemma split_cut: "i + n \<le> length d \<Longrightarrow> drop i d = cut i n d @ drop (i + n) d"
proof -
  have "drop (i + n) d = drop n (drop i d)" by (simp add: add.commute)
  then show ?thesis by (simp only: cut_def append_take_drop_id)
qed

subsection \<open>Words in bytes\<close>

definition u64_of_le :: "u8 list \<Rightarrow> u64" where
  "u64_of_le d = le_word d"

definition u64_to_le :: "u64 \<Rightarrow> u8 list" where
  "u64_to_le w = le_bytes 8 w"

text \<open>\<open>cast_slice\<close> from bytes to words (a length that is no multiple of 8 is refused) and back.\<close>

fun words_of_bytes :: "u8 list \<Rightarrow> u64 list option" where
  "words_of_bytes [] = Some []"
| "words_of_bytes (b0 # b1 # b2 # b3 # b4 # b5 # b6 # b7 # bs) =
     map_option (\<lambda>ws. u64_of_le [b0, b1, b2, b3, b4, b5, b6, b7] # ws) (words_of_bytes bs)"
| "words_of_bytes bs = None"

definition bytes_of_words :: "u64 list \<Rightarrow> u8 list" where
  "bytes_of_words ws = concat (map u64_to_le ws)"

definition aligned_bytes :: "aligned \<Rightarrow> u8 list" where
  "aligned_bytes a = (case a of (w0, w1, w2, w3) \<Rightarrow> bytes_of_words [w0, w1, w2, w3])"

lemma words_of_bytes_length: "words_of_bytes d = Some ws \<Longrightarrow> length d = 8 * length ws"
  by (induction d arbitrary: ws rule: words_of_bytes.induct) auto

lemma length_u64_to_le [simp]: "length (u64_to_le w) = 8"
  by (simp add: u64_to_le_def)

lemma u64_le [simp]: "u64_of_le (u64_to_le w) = w"
  by (simp add: u64_of_le_def u64_to_le_def le_word_bytes)

lemma u64_to_of_le: "length d = 8 \<Longrightarrow> u64_to_le (u64_of_le d) = d"
  using le_bytes_word [of d, where 'a = 64] by (simp add: u64_of_le_def u64_to_le_def)

lemma words_of_bytes_app:
  assumes "length d = 8"
  shows "words_of_bytes (d @ bs) = map_option (\<lambda>ws. u64_of_le d # ws) (words_of_bytes bs)"
proof -
  obtain b0 b1 b2 b3 b4 b5 b6 b7 where "d = [b0, b1, b2, b3, b4, b5, b6, b7]"
    using assms by (auto simp: numeral_eq_Suc length_Suc_conv)
  then show ?thesis by simp
qed

lemma words_of_bytes_of_words [simp]: "words_of_bytes (bytes_of_words ws) = Some ws"
  by (induction ws) (simp_all add: bytes_of_words_def words_of_bytes_app)

lemma bytes_of_words_of_bytes: "words_of_bytes d = Some ws \<Longrightarrow> bytes_of_words ws = d"
proof (induction d arbitrary: ws rule: words_of_bytes.induct)
  case (2 b0 b1 b2 b3 b4 b5 b6 b7 bs)
  then show ?case by (auto simp: bytes_of_words_def u64_to_of_le)
qed (simp_all add: bytes_of_words_def)

lemma length_bytes_of_words [simp]: "length (bytes_of_words ws) = 8 * length ws"
  by (induction ws) (simp_all add: bytes_of_words_def)

lemma aligned_bytes_inj [simp]: "aligned_bytes a = aligned_bytes b \<longleftrightarrow> a = b"
proof
  assume "aligned_bytes a = aligned_bytes b"
  then have "words_of_bytes (aligned_bytes a) = words_of_bytes (aligned_bytes b)" by simp
  then show "a = b" by (simp add: aligned_bytes_def split: prod.splits)
qed simp

text \<open>The cast of 32 bytes to four words.\<close>

definition aligned_of_bytes :: "u8 list \<Rightarrow> aligned" where
  "aligned_of_bytes d =
     (u64_of_le (cut 0 8 d), u64_of_le (cut 8 8 d), u64_of_le (cut 16 8 d), u64_of_le (cut 24 8 d))"

lemma length_aligned_bytes [simp]: "length (aligned_bytes a) = 32"
  by (simp add: aligned_bytes_def split: prod.splits)

lemma aligned_of_bytes [simp]: "aligned_of_bytes (aligned_bytes a) = a"
  by (cases a) (simp add: aligned_of_bytes_def aligned_bytes_def bytes_of_words_def cut_def)

lemma aligned_bytes_of_bytes: "length d = 32 \<Longrightarrow> aligned_bytes (aligned_of_bytes d) = d"
  using split_cut [of 0 8 d] split_cut [of 8 8 d] split_cut [of 16 8 d] split_cut [of 24 8 d]
  by (simp add: aligned_of_bytes_def aligned_bytes_def bytes_of_words_def u64_to_of_le)

end
