(* ===== verification/Market.thy ===== *)
theory Market
  imports OpenOrders Bytes
begin

text \<open>
  The market account (\<open>dex/src/state.rs\<close>): the state record, the byte padding around every
  account, the flag checks that guard each load, the vault and payer checks, and the fee tier
  read off a token account.  Account bytes are lists of \<open>u8\<close>, read little-endian; that the
  runtime places account data so that the words inside are aligned is taken for granted.
\<close>

subsection \<open>The padding of accounts\<close>

definition ACCOUNT_HEAD_PADDING :: "u8 list" where  \<comment> \<open>\<open>b"serum"\<close>\<close>
  "ACCOUNT_HEAD_PADDING = [115, 101, 114, 117, 109]"

definition ACCOUNT_TAIL_PADDING :: "u8 list" where  \<comment> \<open>\<open>b"padding"\<close>\<close>
  "ACCOUNT_TAIL_PADDING = [112, 97, 100, 100, 105, 110, 103]"

text \<open>The first 5 bytes, the bytes between, and the last 7.\<close>

definition split_padding :: "u8 list \<Rightarrow> u8 list \<times> u8 list \<times> u8 list" where
  "split_padding d = (take 5 d, take (length d - 12) (drop 5 d), drop (length d - 7) d)"

definition init_account_padding :: "u8 list \<Rightarrow> dex_fault + (u8 list \<times> u64 list)" where
  "init_account_padding d =
     and_then (check_assert StateFile 135 (12 \<le> length d)) (\<lambda>_.
     case split_padding d of (_, inner, _) \<Rightarrow>
     and_then (ok_or (words_of_bytes inner) (assertion_fault StateFile 139)) (\<lambda>ws.
     Inr (ACCOUNT_HEAD_PADDING @ inner @ ACCOUNT_TAIL_PADDING, ws)))"

definition check_account_padding :: "u8 list \<Rightarrow> dex_fault + (u8 list \<times> u64 list)" where
  "check_account_padding d =
     and_then (check_assert StateFile 143 (12 \<le> length d)) (\<lambda>_.
     case split_padding d of (head, inner, tail) \<Rightarrow>
     and_then (check_assert StateFile 145 (head = ACCOUNT_HEAD_PADDING)) (\<lambda>_.
     and_then (check_assert StateFile 146 (tail = ACCOUNT_TAIL_PADDING)) (\<lambda>_.
     and_then (ok_or (words_of_bytes inner) (assertion_fault StateFile 147)) (\<lambda>ws.
     Inr (d, ws)))))"

definition strip_account_padding :: "bool \<Rightarrow> u8 list \<Rightarrow> dex_fault + (u8 list \<times> u64 list)" where
  "strip_account_padding init_allowed d =
     (if init_allowed then init_account_padding d else check_account_padding d)"

subsection \<open>The market state\<close>

record market_state =
  ms_account_flags :: u64
  ms_own_address :: aligned
  ms_vault_signer_nonce :: u64
  ms_coin_mint :: aligned
  ms_pc_mint :: aligned
  ms_coin_vault :: aligned
  ms_coin_deposits_total :: u64
  ms_coin_fees_accrued :: u64
  ms_pc_vault :: aligned
  ms_pc_deposits_total :: u64
  ms_pc_fees_accrued :: u64
  ms_pc_dust_threshold :: u64
  ms_req_q :: aligned
  ms_event_q :: aligned
  ms_bids :: aligned
  ms_asks :: aligned
  ms_coin_lot_size :: u64
  ms_pc_lot_size :: u64
  ms_fee_rate_bps :: u64
  ms_referrer_rebates_accrued :: u64

definition ms_check_flags :: "market_state \<Rightarrow> dex_fault + unit" where
  "ms_check_flags m =
     and_then (ok_or (account_flags_from_bits (ms_account_flags m)) (err_code InvalidMarketFlags)) (\<lambda>flags.
     if flags \<noteq> (AF_Initialized OR AF_Market) then Inl (err_code InvalidMarketFlags) else Inr ())"

definition ms_check_enabled :: "market_state \<Rightarrow> dex_fault + unit" where
  "ms_check_enabled m =
     and_then (unwrap (account_flags_from_bits (ms_account_flags m))) (\<lambda>flags.
     if flags_contain flags AF_Disabled then Inl (err_code MarketIsDisabled) else Inr ())"

text \<open>A token account as these checks see it: its address and its bytes.\<close>

record token_account =
  ta_key :: aligned
  ta_data :: "u8 list"

definition check_coin_vault :: "token_account \<Rightarrow> market_state \<Rightarrow> dex_fault + unit" where
  "check_coin_vault vault m =
     (if ms_coin_vault m \<noteq> ta_key vault then Inl (err_code WrongCoinVault) else Inr ())"

definition check_pc_vault :: "token_account \<Rightarrow> market_state \<Rightarrow> dex_fault + unit" where
  "check_pc_vault vault m =
     (if ms_pc_vault m \<noteq> ta_key vault then Inl (err_code WrongPcVault) else Inr ())"

definition bytes_prefix :: "nat \<Rightarrow> u8 list \<Rightarrow> dex_fault + u8 list" where  \<comment> \<open>\<open>&data[..n]\<close>\<close>
  "bytes_prefix n d = (if n \<le> length d then Inr (take n d) else Inl Panic)"

definition check_coin_payer :: "token_account \<Rightarrow> market_state \<Rightarrow> dex_fault + unit" where
  "check_coin_payer payer m =
     and_then (bytes_prefix 32 (ta_data payer)) (\<lambda>p.
     if p \<noteq> aligned_bytes (ms_coin_mint m) then Inl (err_code WrongCoinMint) else Inr ())"

definition check_pc_payer :: "token_account \<Rightarrow> market_state \<Rightarrow> dex_fault + unit" where
  "check_pc_payer payer m =
     and_then (bytes_prefix 32 (ta_data payer)) (\<lambda>p.
     if p \<noteq> aligned_bytes (ms_pc_mint m) then Inl (err_code WrongPcMint) else Inr ())"

text \<open>
  The two token mints are constants whose bytes come from a base-58 string that a macro of
  the SDK decodes; they are arguments here.
\<close>

definition load_fee_tier ::
  "aligned \<Rightarrow> aligned \<Rightarrow> aligned \<Rightarrow> token_account option \<Rightarrow> dex_fault + fee_tier" where
  "load_fee_tier srm_token_id msrm_token_id expected_owner srm_or_msrm_account =
     (case srm_or_msrm_account of
        None \<Rightarrow> Inr Base
      | Some a \<Rightarrow>
          and_then (bytes_prefix 72 (ta_data a)) (\<lambda>d.
          case words_of_bytes d of
            Some [m0, m1, m2, m3, o0, o1, o2, o3, balance] \<Rightarrow>
              and_then (check_assert StateFile 355 ((o0, o1, o2, o3) = expected_owner)) (\<lambda>_.
              if (m0, m1, m2, m3) = srm_token_id then
                Inr (from_srm_and_msrm_balances balance 0)
              else if (m0, m1, m2, m3) = msrm_token_id then
                Inr (from_srm_and_msrm_balances 0 balance)
              else Inr (from_srm_and_msrm_balances 0 0))
          | _ \<Rightarrow> Inl Panic))"

subsection \<open>The properties\<close>

lemma split_padding_app:
  "split_padding (ACCOUNT_HEAD_PADDING @ inner @ ACCOUNT_TAIL_PADDING)
     = (ACCOUNT_HEAD_PADDING, inner, ACCOUNT_TAIL_PADDING)"
  by (simp add: split_padding_def ACCOUNT_HEAD_PADDING_def ACCOUNT_TAIL_PADDING_def)

lemma split_padding_join:
  assumes "12 \<le> length d"
  shows "fst (split_padding d) @ fst (snd (split_padding d)) @ snd (snd (split_padding d)) = d"
proof -
  have "take (length d - 12) (drop 5 d) @ drop (length d - 7) d = drop 5 d"
  proof -
    have "drop (length d - 7) d = drop (length d - 12) (drop 5 d)" using assms by simp
    then show ?thesis by (simp only: append_take_drop_id)
  qed
  then show ?thesis by (simp add: split_padding_def)
qed

text \<open>
  The padding checker accepts exactly the accounts the initialiser leaves behind: what
  \<open>init_account_padding\<close> writes passes \<open>check_account_padding\<close> with the same words inside and
  not a byte changed, and an account that passes the check is one the initialiser leaves as
  it is.
\<close>

theorem account_padding_round_trip:
  "(init_account_padding d = Inr (d', ws) \<longrightarrow> check_account_padding d' = Inr (d', ws)) \<and>
   (check_account_padding d = Inr (d', ws) \<longrightarrow> d' = d \<and> init_account_padding d = Inr (d, ws))"
proof (intro conjI impI)
  assume "init_account_padding d = Inr (d', ws)"
  then obtain inner where "words_of_bytes inner = Some ws"
    "d' = ACCOUNT_HEAD_PADDING @ inner @ ACCOUNT_TAIL_PADDING"
    by (auto simp: init_account_padding_def res_simps split: prod.splits)
  moreover have "12 \<le> length (ACCOUNT_HEAD_PADDING @ inner @ ACCOUNT_TAIL_PADDING)"
    by (simp add: ACCOUNT_HEAD_PADDING_def ACCOUNT_TAIL_PADDING_def)
  ultimately show "check_account_padding d' = Inr (d', ws)"
    by (simp add: check_account_padding_def split_padding_app)
next
  assume c: "check_account_padding d = Inr (d', ws)"
  then show "d' = d" by (auto simp: check_account_padding_def res_simps split: prod.splits)
  obtain inner where s: "split_padding d = (ACCOUNT_HEAD_PADDING, inner, ACCOUNT_TAIL_PADDING)"
    "words_of_bytes inner = Some ws" "12 \<le> length d"
    using c by (auto simp: check_account_padding_def res_simps split: prod.splits)
  then show "init_account_padding d = Inr (d, ws)"
    using split_padding_join [OF s(3)] by (simp add: init_account_padding_def)
qed

theorem account_padding_round_trip_witness:
  "check_account_padding (ACCOUNT_HEAD_PADDING @ replicate 8 0 @ ACCOUNT_TAIL_PADDING) =
     Inr (ACCOUNT_HEAD_PADDING @ replicate 8 0 @ ACCOUNT_TAIL_PADDING, [0])"
  by (rule mp [OF conjunct1 [OF account_padding_round_trip [of "replicate 20 0"]]])
    (simp add: init_account_padding_def split_padding_def numeral_eq_Suc u64_of_le_def)

text \<open>
  A market whose flag word carries the disabled bit never passes the flag check of a
  load, whatever else it carries, so the check that reports a disabled market can only see
  enabled ones: after \<open>check_flags\<close> has accepted a market, \<open>check_enabled\<close> accepts it too.
\<close>

theorem check_enabled_after_load:
  "(flags_contain (ms_account_flags m) AF_Disabled \<longrightarrow>
      ms_check_flags m = Inl (err_code InvalidMarketFlags)) \<and>
   (ms_check_flags m = Inr () \<longrightarrow> ms_check_enabled m = Inr ())"
  by (auto simp: ms_check_flags_def ms_check_enabled_def account_flags_from_bits_def res_simps
      flags_contain_def account_flag_defs split: if_splits)

definition sample_market :: market_state where
  "sample_market =
     \<lparr>ms_account_flags = 3, ms_own_address = (1, 2, 3, 4), ms_vault_signer_nonce = 0,
      ms_coin_mint = (11, 0, 0, 0), ms_pc_mint = (12, 0, 0, 0), ms_coin_vault = (13, 0, 0, 0),
      ms_coin_deposits_total = 1000, ms_coin_fees_accrued = 0, ms_pc_vault = (14, 0, 0, 0),
      ms_pc_deposits_total = 100000, ms_pc_fees_accrued = 0, ms_pc_dust_threshold = 10,
      ms_req_q = (15, 0, 0, 0), ms_event_q = (16, 0, 0, 0), ms_bids = (17, 0, 0, 0),
      ms_asks = (18, 0, 0, 0), ms_coin_lot_size = 10, ms_pc_lot_size = 100, ms_fee_rate_bps = 0,
      ms_referrer_rebates_accrued = 0\<rparr>"

theorem check_enabled_after_load_witness:
  "ms_check_enabled sample_market = Inr () \<and>
   ms_check_flags (sample_market\<lparr>ms_account_flags := 131\<rparr>) = Inl (err_code InvalidMarketFlags)"
proof
  show "ms_check_enabled sample_market = Inr ()"
    by (rule mp [OF conjunct2 [OF check_enabled_after_load]])
      (simp add: ms_check_flags_def sample_market_def account_flags_from_bits_def flags_contain_def
        account_flag_defs)
  show "ms_check_flags (sample_market\<lparr>ms_account_flags := 131\<rparr>) = Inl (err_code InvalidMarketFlags)"
    by (rule mp [OF conjunct1 [OF check_enabled_after_load]])
      (simp add: sample_market_def flags_contain_def account_flag_defs)
qed

end
