(* ===== verification/Matching.thy ===== *)
theory Matching
  imports OrderMap Market
begin

text \<open>
  The matching engine (\<open>dex/src/matching.rs\<close>, \<open>OrderBookState\<close>): a new ask or bid meets the
  best opposite order once per call, trades or cancels against itself, and the rest is posted
  or sent back; a request is worked off call by call under a limit.  The bodies of \<open>new_ask\<close>
  and \<open>new_bid\<close> are cut at the end of their \<open>loop\<close> blocks, whose bodies run once: every
  path through them breaks or returns.  A mutable reference to a leaf is its handle and the
  leaf read through it; a write is \<open>slab_put\<close>.
\<close>

type_synonym event_queue = "(event_queue_header, event) queue"
type_synonym req_queue = "(request_queue_header, request) queue"

record order_book =
  ob_bids :: slab
  ob_asks :: slab
  ob_market :: market_state

record order_remaining =
  or_coin_qty_remaining :: u64
  or_native_pc_qty_remaining :: "u64 option"

type_synonym 'x matching = "dex_fault + ('x \<times> order_book \<times> event_queue)"

primrec ob_orders :: "side \<Rightarrow> order_book \<Rightarrow> slab" where
  "ob_orders Bid ob = ob_bids ob"
| "ob_orders Ask ob = ob_asks ob"

primrec ob_set_orders :: "side \<Rightarrow> slab \<Rightarrow> order_book \<Rightarrow> order_book" where
  "ob_set_orders Bid s ob = ob\<lparr>ob_bids := s\<rparr>"
| "ob_set_orders Ask s ob = ob\<lparr>ob_asks := s\<rparr>"

primrec find_bbo :: "side \<Rightarrow> order_book \<Rightarrow> dex_fault + u32 option" where
  "find_bbo Bid ob = find_max (ob_bids ob)"
| "find_bbo Ask ob = find_min (ob_asks ob)"

text \<open>The best order of a side: \<open>find_bbo\<close>, then \<open>get_mut(..).unwrap().as_leaf_mut().unwrap()\<close>.\<close>

definition best_order :: "side \<Rightarrow> order_book \<Rightarrow> dex_fault + (u32 \<times> leaf_node) option" where
  "best_order sd ob =
     and_then (find_bbo sd ob) (\<lambda>r.
     case r of
       None \<Rightarrow> Inr None
     | Some h \<Rightarrow>
         and_then (unwrap (slab_get (ob_orders sd ob) h)) (\<lambda>n.
         and_then (unwrap (as_leaf n)) (\<lambda>l. Inr (Some (h, l)))))"

definition push_event :: "event_view \<Rightarrow> event_queue \<Rightarrow> dex_fault + event_queue" where
  "push_event v q =
     and_then (push_back event_header_ops (event_new v) q) (\<lambda>(r, q').
     case r of Inl _ \<Rightarrow> Inl (err_code EventQueueFull) | Inr _ \<Rightarrow> Inr q')"

definition remove_unwrap :: "u128 \<Rightarrow> slab \<Rightarrow> dex_fault + slab" where
  "remove_unwrap key s =
     and_then (remove_by_key key s) (\<lambda>(r, s'). and_then (unwrap r) (\<lambda>_. Inr s'))"

definition leaf_set_quantity :: "u64 \<Rightarrow> leaf_node \<Rightarrow> leaf_node" where
  "leaf_set_quantity q l = l\<lparr>lf_quantity := q\<rparr>"

text \<open>An \<open>Out\<close> event about an order of the book.\<close>

definition leaf_out :: "side \<Rightarrow> leaf_node \<Rightarrow> u64 \<Rightarrow> u64 \<Rightarrow> event_view" where
  "leaf_out sd l unlocked still_locked = Out
     \<lparr>oe_side = sd, oe_native_qty_unlocked = unlocked, oe_native_qty_still_locked = still_locked,
      oe_order_id = lf_key l, oe_owner = lf_owner l, oe_owner_slot = lf_owner_slot l,
      oe_client_order_id = nonzero_new (lf_client_order_id l)\<rparr>"

text \<open>
  Posting: insert the leaf; when the side is out of nodes, throw the order furthest from the
  market out and insert again.  \<open>unlock\<close> computes what the thrown-out order releases.
\<close>

definition insert_unwrap :: "leaf_node \<Rightarrow> slab \<Rightarrow> dex_fault + slab" where
  "insert_unwrap l s =
     and_then (insert_leaf l s) (\<lambda>(r, s'). case r of Inl _ \<Rightarrow> Inl Panic | Inr _ \<Rightarrow> Inr s')"

definition post_order ::
  "side \<Rightarrow> (slab \<Rightarrow> dex_fault + (leaf_node option \<times> slab)) \<Rightarrow> (leaf_node \<Rightarrow> dex_fault + u64) \<Rightarrow>
   leaf_node \<Rightarrow> order_book \<Rightarrow> event_queue \<Rightarrow> unit matching" where
  "post_order sd remove_worst unlock new_leaf ob q =
     and_then (insert_leaf new_leaf (ob_orders sd ob)) (\<lambda>(r, s1).
     case r of
       Inl OutOfSpace \<Rightarrow>
         and_then (remove_worst s1) (\<lambda>(worst, s2).
         and_then (unwrap worst) (\<lambda>order.
         and_then (unlock order) (\<lambda>unlocked.
         and_then (push_event (leaf_out sd order unlocked 0) q) (\<lambda>q1.
         and_then (insert_unwrap new_leaf s2) (\<lambda>s3.
         Inr ((), ob_set_orders sd s3 ob, q1))))))
     | Inr _ \<Rightarrow> Inr ((), ob_set_orders sd s1 ob, q))"

text \<open>
  The bookkeeping of fees that ends both functions: \<open>native_taker_fee\<close> less what went to the
  makers leaves the deposits, and is split between the referrer and the market.
\<close>

definition accrue_fees :: "u64 \<Rightarrow> u64 \<Rightarrow> market_state \<Rightarrow> market_state" where
  "accrue_fees native_taker_fee accum_maker_rebates m =
     (let net_fees_before_referrer_rebate = native_taker_fee - accum_maker_rebates;
          rebate = referrer_rebate native_taker_fee;
          net_fees = net_fees_before_referrer_rebate - rebate
      in m\<lparr>ms_referrer_rebates_accrued := ms_referrer_rebates_accrued m + rebate,
           ms_pc_fees_accrued := ms_pc_fees_accrued m + net_fees,
           ms_pc_deposits_total := ms_pc_deposits_total m - net_fees_before_referrer_rebate\<rparr>)"

text \<open>What the \<open>loop\<close> block leaves: \<open>cs_pc\<close> is the accumulated fill price of an ask, or the
  remaining quote lots of a bid.\<close>

record crossing =
  cs_done :: bool
  cs_crossed :: bool
  cs_coin :: u64
  cs_pc :: u64
  cs_maker_rebates :: u64

subsection \<open>Asks\<close>

record new_ask_params =
  na_max_qty :: u64
  na_limit_price :: u64
  na_order_id :: u128
  na_owner :: aligned
  na_owner_slot :: u8
  na_fee_tier :: fee_tier
  na_post_only :: bool
  na_post_allowed :: bool
  na_client_order_id :: u64
  na_self_trade_behavior :: self_trade_behavior

definition ask_out :: "new_ask_params \<Rightarrow> u64 \<Rightarrow> u64 \<Rightarrow> event_view" where
  "ask_out p unlocked still_locked = Out
     \<lparr>oe_side = Ask, oe_native_qty_unlocked = unlocked, oe_native_qty_still_locked = still_locked,
      oe_order_id = na_order_id p, oe_owner = na_owner p, oe_owner_slot = na_owner_slot p,
      oe_client_order_id = nonzero_new (na_client_order_id p)\<rparr>"

definition ask_self_trade ::
  "new_ask_params \<Rightarrow> u32 \<Rightarrow> leaf_node \<Rightarrow> u64 \<Rightarrow> u64 \<Rightarrow> order_book \<Rightarrow> event_queue \<Rightarrow>
   order_remaining option matching" where
  "ask_self_trade p best_bid_h best_bid trade_price trade_qty ob q =
     (let pc_lot_size = ms_pc_lot_size (ob_market ob);
          coin_lot_size = ms_coin_lot_size (ob_market ob);
          best_bid_id = lf_key best_bid;
          (cancelled_provide_qty, cancelled_take_qty) =
            (case na_self_trade_behavior p of
               DecrementTake \<Rightarrow> (trade_qty, trade_qty)
             | CancelProvide \<Rightarrow> (lf_quantity best_bid, 0));
          remaining_provide_size = lf_quantity best_bid - cancelled_provide_qty
      in
      and_then (push_event
        (leaf_out Bid best_bid (cancelled_provide_qty * trade_price * pc_lot_size)
          (remaining_provide_size * trade_price * pc_lot_size)) q) (\<lambda>q1.
      and_then
        (if remaining_provide_size = 0 then remove_unwrap best_bid_id (ob_bids ob)
         else Inr (slab_put (ob_bids ob) best_bid_h
                (LeafNode (leaf_set_quantity remaining_provide_size best_bid)))) (\<lambda>bids.
      let unfilled_qty = na_max_qty p - cancelled_take_qty in
      and_then (push_event (ask_out p (cancelled_take_qty * coin_lot_size) unfilled_qty) q1) (\<lambda>q2.
      Inr (map_option (\<lambda>c. \<lparr>or_coin_qty_remaining = c, or_native_pc_qty_remaining = None\<rparr>)
             (nonzero_new unfilled_qty),
           ob\<lparr>ob_bids := bids\<rparr>, q2)))))"

definition ask_fill ::
  "new_ask_params \<Rightarrow> u32 \<Rightarrow> leaf_node \<Rightarrow> u64 \<Rightarrow> u64 \<Rightarrow> order_book \<Rightarrow> event_queue \<Rightarrow> crossing matching" where
  "ask_fill p best_bid_h best_bid trade_price trade_qty ob q =
     (let pc_lot_size = ms_pc_lot_size (ob_market ob);
          coin_lot_size = ms_coin_lot_size (ob_market ob) in
      and_then (leaf_fee_tier best_bid) (\<lambda>maker_fee_tier.
      let native_maker_pc_qty = trade_qty * trade_price * pc_lot_size;
          native_maker_rebate = maker_rebate maker_fee_tier native_maker_pc_qty in
      and_then (push_event (Fill
        \<lparr>fe_side = Bid, fe_maker = True,
         fe_native_qty_paid = native_maker_pc_qty - native_maker_rebate,
         fe_native_qty_received = trade_qty * coin_lot_size,
         fe_native_fee_or_rebate = native_maker_rebate,
         fe_order_id = lf_key best_bid, fe_owner = lf_owner best_bid,
         fe_owner_slot = lf_owner_slot best_bid, fe_fee_tier = maker_fee_tier,
         fe_client_order_id = nonzero_new (lf_client_order_id best_bid)\<rparr>) q) (\<lambda>q1.
      let left = lf_quantity best_bid - trade_qty;
          bids = slab_put (ob_bids ob) best_bid_h (LeafNode (leaf_set_quantity left best_bid));
          cs = \<lparr>cs_done = False, cs_crossed = True, cs_coin = na_max_qty p - trade_qty,
                cs_pc = trade_qty * trade_price, cs_maker_rebates = native_maker_rebate\<rparr>
      in if left = 0 then
           and_then (push_event (leaf_out Bid best_bid 0 0) q1) (\<lambda>q2.
           and_then (remove_unwrap (lf_key best_bid) bids) (\<lambda>bids'.
           Inr (cs, ob\<lparr>ob_bids := bids'\<rparr>, q2)))
         else Inr (cs, ob\<lparr>ob_bids := bids\<rparr>, q1))))"

text \<open>The \<open>loop\<close> block: \<open>Inl\<close> when it returns from the function.\<close>

definition ask_cross ::
  "new_ask_params \<Rightarrow> order_book \<Rightarrow> event_queue \<Rightarrow> (order_remaining option + crossing) matching" where
  "ask_cross p ob q =
     (let rest = (\<lambda>crossed. \<lparr>cs_done = True, cs_crossed = crossed, cs_coin = na_max_qty p,
                            cs_pc = 0, cs_maker_rebates = 0\<rparr>) in
      and_then (best_order Bid ob) (\<lambda>best.
      case best of
        None \<Rightarrow> Inr (Inr (rest False), ob, q)
      | Some (best_bid_h, best_bid) \<Rightarrow>
          and_then (leaf_price best_bid) (\<lambda>trade_price.
          let crossed = na_limit_price p \<le> trade_price in
          if \<not> crossed \<or> na_post_only p then Inr (Inr (rest crossed), ob, q)
          else
            let trade_qty = min (lf_quantity best_bid) (na_max_qty p) in
            if trade_qty = 0 then Inr (Inr (rest crossed), ob, q)
            else if na_owner p = lf_owner best_bid then
              and_then (ask_self_trade p best_bid_h best_bid trade_price trade_qty ob q)
                (\<lambda>(r, ob', q'). Inr (Inl r, ob', q'))
            else
              and_then (ask_fill p best_bid_h best_bid trade_price trade_qty ob q)
                (\<lambda>(cs, ob', q'). Inr (Inr cs, ob', q')))))"

text \<open>From line 447 on: settle the fill, then post or send back what is left.\<close>

definition ask_settle ::
  "new_ask_params \<Rightarrow> crossing \<Rightarrow> order_book \<Rightarrow> event_queue \<Rightarrow> order_remaining option matching" where
  "ask_settle p cs ob q =
     (let pc_lot_size = ms_pc_lot_size (ob_market ob);
          coin_lot_size = ms_coin_lot_size (ob_market ob);
          unfilled_qty = cs_coin cs;
          native_taker_pc_qty = cs_pc cs * pc_lot_size;
          native_taker_fee = taker_fee (na_fee_tier p) native_taker_pc_qty in
      and_then
        (if native_taker_pc_qty > 0 then
           push_event (Fill
             \<lparr>fe_side = Ask, fe_maker = False,
              fe_native_qty_paid = (na_max_qty p - unfilled_qty) * coin_lot_size,
              fe_native_qty_received = native_taker_pc_qty - native_taker_fee,
              fe_native_fee_or_rebate = native_taker_fee,
              fe_order_id = na_order_id p, fe_owner = na_owner p,
              fe_owner_slot = na_owner_slot p, fe_fee_tier = na_fee_tier p,
              fe_client_order_id = nonzero_new (na_client_order_id p)\<rparr>) q
         else Inr q) (\<lambda>q1.
      let ob1 = ob\<lparr>ob_market := accrue_fees native_taker_fee (cs_maker_rebates cs) (ob_market ob)\<rparr> in
      if \<not> cs_done cs \<and> unfilled_qty \<noteq> 0 then
        Inr (Some \<lparr>or_coin_qty_remaining = unfilled_qty, or_native_pc_qty_remaining = None\<rparr>, ob1, q1)
      else if na_post_allowed p \<and> \<not> cs_crossed cs \<and> unfilled_qty > 0 then
        and_then
          (post_order Ask remove_max (\<lambda>order. Inr (lf_quantity order * coin_lot_size))
            (leaf_node_new (na_owner_slot p) (na_order_id p) (na_owner p) unfilled_qty
               (na_fee_tier p) (na_client_order_id p)) ob1 q1)
          (\<lambda>(_, ob2, q2). Inr (None, ob2, q2))
      else
        and_then (push_event (ask_out p (unfilled_qty * coin_lot_size) 0) q1) (\<lambda>q2.
        Inr (None, ob1, q2))))"

definition new_ask ::
  "new_ask_params \<Rightarrow> order_book \<Rightarrow> event_queue \<Rightarrow> order_remaining option matching" where
  "new_ask p ob q =
     and_then (ask_cross p ob q) (\<lambda>(r, ob1, q1).
     case r of Inl returned \<Rightarrow> Inr (returned, ob1, q1) | Inr cs \<Rightarrow> ask_settle p cs ob1 q1)"

subsection \<open>Bids\<close>

record new_bid_params =
  nb_max_coin_qty :: u64
  nb_native_pc_qty_locked :: u64
  nb_limit_price :: "u64 option"
  nb_order_id :: u128
  nb_owner :: aligned
  nb_owner_slot :: u8
  nb_fee_tier :: fee_tier
  nb_post_only :: bool
  nb_post_allowed :: bool
  nb_client_order_id :: u64
  nb_self_trade_behavior :: self_trade_behavior

definition bid_out :: "new_bid_params \<Rightarrow> u64 \<Rightarrow> u64 \<Rightarrow> event_view" where
  "bid_out p unlocked still_locked = Out
     \<lparr>oe_side = Bid, oe_native_qty_unlocked = unlocked, oe_native_qty_still_locked = still_locked,
      oe_order_id = nb_order_id p, oe_owner = nb_owner p, oe_owner_slot = nb_owner_slot p,
      oe_client_order_id = nonzero_new (nb_client_order_id p)\<rparr>"

text \<open>Division of \<open>u64\<close> values: by zero it panics.\<close>

definition u64_div :: "u64 \<Rightarrow> u64 \<Rightarrow> dex_fault + u64" where
  "u64_div x y = (if y = 0 then Inl Panic else Inr (x div y))"

text \<open>The remainder of a bid: none when the quantity or the locked amount is used up.\<close>

definition bid_remaining :: "u64 \<Rightarrow> u64 \<Rightarrow> order_remaining option" where
  "bid_remaining coin_qty pc_qty =
     (if coin_qty \<noteq> 0 \<and> pc_qty \<noteq> 0
      then Some \<lparr>or_coin_qty_remaining = coin_qty, or_native_pc_qty_remaining = Some pc_qty\<rparr>
      else None)"

definition bid_take_out :: "new_bid_params \<Rightarrow> order_remaining option \<Rightarrow> u64 \<Rightarrow> u64 \<Rightarrow> event_view" where
  "bid_take_out p order_remaining unlocked still_locked =
     (case order_remaining of
        Some _ \<Rightarrow> bid_out p unlocked still_locked
      | None \<Rightarrow> bid_out p (nb_native_pc_qty_locked p) 0)"

definition bid_self_trade ::
  "new_bid_params \<Rightarrow> u32 \<Rightarrow> leaf_node \<Rightarrow> u64 \<Rightarrow> u64 \<Rightarrow> order_book \<Rightarrow> event_queue \<Rightarrow>
   order_remaining option matching" where
  "bid_self_trade p best_offer_h best_offer trade_price trade_qty ob q =
     (let pc_lot_size = ms_pc_lot_size (ob_market ob);
          coin_lot_size = ms_coin_lot_size (ob_market ob);
          best_offer_id = lf_key best_offer;
          (cancelled_take_qty, cancelled_provide_qty) =
            (case nb_self_trade_behavior p of
               CancelProvide \<Rightarrow> (0, lf_quantity best_offer)
             | DecrementTake \<Rightarrow> (trade_qty, trade_qty));
          remaining_provide_qty = lf_quantity best_offer - cancelled_provide_qty
      in
      and_then (push_event
        (leaf_out Ask best_offer (cancelled_provide_qty * coin_lot_size)
          (remaining_provide_qty * coin_lot_size)) q) (\<lambda>q1.
      and_then
        (if remaining_provide_qty = 0 then remove_unwrap best_offer_id (ob_asks ob)
         else Inr (slab_put (ob_asks ob) best_offer_h
                (LeafNode (leaf_set_quantity remaining_provide_qty best_offer)))) (\<lambda>asks.
      let native_taker_pc_unlocked = cancelled_take_qty * trade_price * pc_lot_size;
          native_taker_pc_still_locked = nb_native_pc_qty_locked p - native_taker_pc_unlocked;
          order_remaining =
            bid_remaining (nb_max_coin_qty p - cancelled_take_qty) native_taker_pc_still_locked in
      and_then (push_event
        (bid_take_out p order_remaining native_taker_pc_unlocked native_taker_pc_still_locked) q1) (\<lambda>q2.
      Inr (order_remaining, ob\<lparr>ob_asks := asks\<rparr>, q2)))))"

definition bid_fill ::
  "new_bid_params \<Rightarrow> u64 \<Rightarrow> u32 \<Rightarrow> leaf_node \<Rightarrow> u64 \<Rightarrow> u64 \<Rightarrow> order_book \<Rightarrow> event_queue \<Rightarrow>
   crossing matching" where
  "bid_fill p max_pc_qty best_offer_h best_offer trade_price trade_qty ob q =
     (let pc_lot_size = ms_pc_lot_size (ob_market ob);
          coin_lot_size = ms_coin_lot_size (ob_market ob) in
      and_then (leaf_fee_tier best_offer) (\<lambda>maker_fee_tier.
      let native_maker_pc_qty = trade_qty * trade_price * pc_lot_size;
          native_maker_rebate = maker_rebate maker_fee_tier native_maker_pc_qty in
      and_then (push_event (Fill
        \<lparr>fe_side = Ask, fe_maker = True,
         fe_native_qty_paid = trade_qty * coin_lot_size,
         fe_native_qty_received = native_maker_pc_qty + native_maker_rebate,
         fe_native_fee_or_rebate = native_maker_rebate,
         fe_order_id = lf_key best_offer, fe_owner = lf_owner best_offer,
         fe_owner_slot = lf_owner_slot best_offer, fe_fee_tier = maker_fee_tier,
         fe_client_order_id = nonzero_new (lf_client_order_id best_offer)\<rparr>) q) (\<lambda>q1.
      let left = lf_quantity best_offer - trade_qty;
          asks = slab_put (ob_asks ob) best_offer_h (LeafNode (leaf_set_quantity left best_offer));
          cs = \<lparr>cs_done = False, cs_crossed = True, cs_coin = nb_max_coin_qty p - trade_qty,
                cs_pc = max_pc_qty - trade_qty * trade_price, cs_maker_rebates = native_maker_rebate\<rparr>
      in if left = 0 then
           and_then (push_event (leaf_out Ask best_offer 0 0) q1) (\<lambda>q2.
           and_then (remove_unwrap (lf_key best_offer) asks) (\<lambda>asks'.
           Inr (cs, ob\<lparr>ob_asks := asks'\<rparr>, q2)))
         else Inr (cs, ob\<lparr>ob_asks := asks\<rparr>, q1))))"

definition bid_cross ::
  "new_bid_params \<Rightarrow> u64 \<Rightarrow> order_book \<Rightarrow> event_queue \<Rightarrow> (order_remaining option + crossing) matching" where
  "bid_cross p max_pc_qty ob q =
     (let rest = (\<lambda>crossed. \<lparr>cs_done = True, cs_crossed = crossed, cs_coin = nb_max_coin_qty p,
                            cs_pc = max_pc_qty, cs_maker_rebates = 0\<rparr>) in
      and_then (best_order Ask ob) (\<lambda>best.
      case best of
        None \<Rightarrow> Inr (Inr (rest False), ob, q)
      | Some (best_offer_h, best_offer) \<Rightarrow>
          and_then (leaf_price best_offer) (\<lambda>trade_price.
          let crossed = (case nb_limit_price p of Some limit_price \<Rightarrow> trade_price \<le> limit_price | None \<Rightarrow> True) in
          if \<not> crossed \<or> nb_post_only p then Inr (Inr (rest crossed), ob, q)
          else
            let trade_qty = min (min (lf_quantity best_offer) (nb_max_coin_qty p)) (max_pc_qty div trade_price) in
            if trade_qty = 0 then Inr (Inr (rest crossed), ob, q)
            else if nb_owner p = lf_owner best_offer then
              and_then (bid_self_trade p best_offer_h best_offer trade_price trade_qty ob q)
                (\<lambda>(r, ob', q'). Inr (Inl r, ob', q'))
            else
              and_then (bid_fill p max_pc_qty best_offer_h best_offer trade_price trade_qty ob q)
                (\<lambda>(cs, ob', q'). Inr (Inr cs, ob', q')))))"

text \<open>From line 743 on.\<close>

definition bid_settle ::
  "new_bid_params \<Rightarrow> u64 \<Rightarrow> crossing \<Rightarrow> order_book \<Rightarrow> event_queue \<Rightarrow> order_remaining option matching" where
  "bid_settle p max_pc_qty cs ob q =
     (let pc_lot_size = ms_pc_lot_size (ob_market ob);
          coin_lot_size = ms_coin_lot_size (ob_market ob);
          coin_qty_remaining = cs_coin cs;
          native_accum_fill_price = (max_pc_qty - cs_pc cs) * pc_lot_size;
          native_taker_fee = taker_fee (nb_fee_tier p) native_accum_fill_price;
          native_pc_qty_remaining = nb_native_pc_qty_locked p - native_accum_fill_price - native_taker_fee in
      and_then
        (if native_accum_fill_price > 0 then
           push_event (Fill
             \<lparr>fe_side = Bid, fe_maker = False,
              fe_native_qty_paid = native_accum_fill_price + native_taker_fee,
              fe_native_qty_received = (nb_max_coin_qty p - coin_qty_remaining) * coin_lot_size,
              fe_native_fee_or_rebate = native_taker_fee,
              fe_order_id = nb_order_id p, fe_owner = nb_owner p,
              fe_owner_slot = nb_owner_slot p, fe_fee_tier = nb_fee_tier p,
              fe_client_order_id = nonzero_new (nb_client_order_id p)\<rparr>) q
         else Inr q) (\<lambda>q1.
      let ob1 = ob\<lparr>ob_market := accrue_fees native_taker_fee (cs_maker_rebates cs) (ob_market ob)\<rparr> in
      if \<not> cs_done cs \<and> coin_qty_remaining \<noteq> 0 \<and> native_pc_qty_remaining \<noteq> 0 then
        Inr (Some \<lparr>or_coin_qty_remaining = coin_qty_remaining,
                   or_native_pc_qty_remaining = Some native_pc_qty_remaining\<rparr>, ob1, q1)
      else
        and_then
          (case nb_limit_price p of
             Some price \<Rightarrow>
               (if nb_post_allowed p \<and> \<not> cs_crossed cs then
                  and_then (u64_div native_pc_qty_remaining pc_lot_size) (\<lambda>lots.
                  let coin_qty_to_post = min coin_qty_remaining (lots div price)
                  in Inr (coin_qty_to_post, coin_qty_to_post * price))
                else Inr (0, 0))
           | None \<Rightarrow> Inr (0, 0)) (\<lambda>(coin_qty_to_post, pc_qty_to_keep_locked).
        let native_qty_still_locked = pc_qty_to_keep_locked * pc_lot_size;
            native_qty_unlocked = native_pc_qty_remaining - native_qty_still_locked in
        and_then (push_event (bid_out p native_qty_unlocked native_qty_still_locked) q1) (\<lambda>q2.
        if pc_qty_to_keep_locked > 0 then
          and_then
            (post_order Bid remove_min
              (\<lambda>order. and_then (leaf_price order) (\<lambda>price. Inr (lf_quantity order * price * pc_lot_size)))
              (leaf_node_new (nb_owner_slot p) (nb_order_id p) (nb_owner p) coin_qty_to_post
                 (nb_fee_tier p) (nb_client_order_id p)) ob1 q2)
            (\<lambda>(_, ob2, q3). Inr (None, ob2, q3))
        else Inr (None, ob1, q2)))))"

definition new_bid ::
  "new_bid_params \<Rightarrow> order_book \<Rightarrow> event_queue \<Rightarrow> order_remaining option matching" where
  "new_bid p ob q =
     and_then (check_assert MatchingFile 568 (nb_post_allowed p \<longrightarrow> nb_limit_price p \<noteq> None)) (\<lambda>_.
     and_then (remove_taker_fee (nb_fee_tier p) (nb_native_pc_qty_locked p)) (\<lambda>net.
     and_then (u64_div net (ms_pc_lot_size (ob_market ob))) (\<lambda>max_pc_qty.
     and_then (bid_cross p max_pc_qty ob q) (\<lambda>(r, ob1, q1).
     case r of Inl returned \<Rightarrow> Inr (returned, ob1, q1) | Inr cs \<Rightarrow> bid_settle p max_pc_qty cs ob1 q1))))"

subsection \<open>Orders, cancellations and the request loop\<close>

record new_order_params =
  no_side :: side
  no_order_type :: order_type
  no_order_id :: u128
  no_owner :: aligned
  no_owner_slot :: u8
  no_fee_tier :: fee_tier
  no_max_coin_qty :: u64
  no_native_pc_qty_locked :: "u64 option"
  no_client_order_id :: u64
  no_self_trade_behavior :: self_trade_behavior

text \<open>One pass of the loop of \<open>new_order\<close>.\<close>

definition new_order_step ::
  "new_order_params \<Rightarrow> order_book \<Rightarrow> event_queue \<Rightarrow> order_remaining option matching" where
  "new_order_step p ob q =
     (let (post_only, post_allowed) =
            (case no_order_type p of
               Limit \<Rightarrow> (False, True) | ImmediateOrCancel \<Rightarrow> (False, False) | PostOnly \<Rightarrow> (True, True));
          limit_price = extract_price_from_order_id (no_order_id p) in
      case no_side p of
        Bid \<Rightarrow>
          and_then (unwrap (no_native_pc_qty_locked p)) (\<lambda>locked.
          new_bid
            \<lparr>nb_max_coin_qty = no_max_coin_qty p, nb_native_pc_qty_locked = locked,
             nb_limit_price = nonzero_new limit_price, nb_order_id = no_order_id p,
             nb_owner = no_owner p, nb_owner_slot = no_owner_slot p, nb_fee_tier = no_fee_tier p,
             nb_post_only = post_only, nb_post_allowed = post_allowed,
             nb_client_order_id = no_client_order_id p,
             nb_self_trade_behavior = no_self_trade_behavior p\<rparr> ob q)
      | Ask \<Rightarrow>
          and_then (assert_panic (no_native_pc_qty_locked p = None)) (\<lambda>_.
          and_then (unwrap (nonzero_new limit_price)) (\<lambda>price.
          new_ask
            \<lparr>na_max_qty = no_max_coin_qty p, na_limit_price = price, na_order_id = no_order_id p,
             na_owner = no_owner p, na_owner_slot = no_owner_slot p, na_fee_tier = no_fee_tier p,
             na_post_only = post_only, na_post_allowed = post_allowed,
             na_client_order_id = no_client_order_id p,
             na_self_trade_behavior = no_self_trade_behavior p\<rparr> ob q)))"

text \<open>The loop runs on the value of \<open>*limit\<close>, and hands it back with the result.\<close>

primrec new_order ::
  "nat \<Rightarrow> new_order_params \<Rightarrow> order_book \<Rightarrow> event_queue \<Rightarrow> (order_remaining option \<times> nat) matching" where
  "new_order 0 p ob q = Inr ((None, 0), ob, q)"
| "new_order (Suc limit) p ob q =
     and_then (new_order_step p ob q) (\<lambda>(remaining_order, ob1, q1).
     if limit = 0 then Inr ((remaining_order, 0), ob1, q1)
     else
       case remaining_order of
         None \<Rightarrow> Inr ((None, limit), ob1, q1)
       | Some r \<Rightarrow>
           new_order limit
             (p\<lparr>no_max_coin_qty := or_coin_qty_remaining r,
                no_native_pc_qty_locked := or_native_pc_qty_remaining r\<rparr>) ob1 q1)"

definition cancel_order ::
  "side \<Rightarrow> u128 \<Rightarrow> aligned \<Rightarrow> u8 \<Rightarrow> u64 option \<Rightarrow> order_book \<Rightarrow> event_queue \<Rightarrow> unit matching" where
  "cancel_order sd order_id expected_owner expected_owner_slot client_order_id ob q =
     and_then (remove_by_key order_id (ob_orders sd ob)) (\<lambda>(r, s1).
     case r of
       None \<Rightarrow> Inr ((), ob_set_orders sd s1 ob, q)
     | Some leaf \<Rightarrow>
         if lf_owner leaf = expected_owner \<and> lf_owner_slot leaf = expected_owner_slot then
           and_then
             (case sd of
                Bid \<Rightarrow> and_then (leaf_price leaf) (\<lambda>price.
                         Inr (lf_quantity leaf * price * ms_pc_lot_size (ob_market ob)))
              | Ask \<Rightarrow> Inr (lf_quantity leaf * ms_coin_lot_size (ob_market ob))) (\<lambda>native_qty_unlocked.
           and_then (push_event (Out
             \<lparr>oe_side = sd, oe_native_qty_unlocked = native_qty_unlocked,
              oe_native_qty_still_locked = 0, oe_order_id = order_id, oe_owner = expected_owner,
              oe_owner_slot = expected_owner_slot,
              oe_client_order_id = nonzero_new (lf_client_order_id leaf)\<rparr>) q) (\<lambda>q1.
           Inr ((), ob_set_orders sd s1 ob, q1)))
         else
           and_then (insert_unwrap leaf s1) (\<lambda>s2. Inr ((), ob_set_orders sd s2 ob, q)))"

text \<open>The remainder of a request, as it is written back to the queue.\<close>

definition process_orderbook_request ::
  "request \<Rightarrow> nat \<Rightarrow> order_book \<Rightarrow> event_queue \<Rightarrow> (request option \<times> nat) matching" where
  "process_orderbook_request r limit ob q =
     and_then (request_as_view r) (\<lambda>view.
     case view of
       NewOrderView v \<Rightarrow>
         and_then (new_order limit
           \<lparr>no_side = nr_side v, no_order_type = nr_order_type v, no_order_id = nr_order_id v,
            no_owner = nr_owner v, no_owner_slot = nr_owner_slot v, no_fee_tier = nr_fee_tier v,
            no_max_coin_qty = nr_max_coin_qty v,
            no_native_pc_qty_locked = nr_native_pc_qty_locked v,
            no_client_order_id = bits_of_option (nr_client_order_id v),
            no_self_trade_behavior = nr_self_trade_behavior v\<rparr> ob q) (\<lambda>((rem, limit'), ob1, q1).
         Inr ((map_option (\<lambda>remaining. request_new (NewOrderView
                 (v\<lparr>nr_max_coin_qty := or_coin_qty_remaining remaining,
                    nr_native_pc_qty_locked := or_native_pc_qty_remaining remaining\<rparr>))) rem,
               limit'), ob1, q1))
     | CancelOrderView v \<Rightarrow>
         and_then (cancel_order (cr_side v) (cr_order_id v) (cr_expected_owner v)
           (cr_expected_owner_slot v) (cr_client_order_id v) ob q) (\<lambda>(_, ob1, q1).
         Inr ((None, limit - 1), ob1, q1)))"

text \<open>\<open>*request = remaining_request\<close> through the reference \<open>peek_front_mut\<close> returned.\<close>

definition set_front :: "'a \<Rightarrow> 'a request_queue \<Rightarrow> 'a request_queue" where
  "set_front x q = q\<lparr>q_buf := (q_buf q)[unat (rqh_head (q_header q)) := x]\<rparr>"

primrec process_requests_loop ::
  "nat \<Rightarrow> nat \<Rightarrow> req_queue \<Rightarrow> order_book \<Rightarrow> event_queue \<Rightarrow> req_queue matching" where
  "process_requests_loop 0 limit_remaining rq ob q = Inl Diverges"
| "process_requests_loop (Suc n) limit_remaining rq ob q =
     (if limit_remaining = 0 then Inr (rq, ob, q)
      else
        and_then (peek_front request_header_ops rq) (\<lambda>front.
        case front of
          None \<Rightarrow> Inr (rq, ob, q)
        | Some request \<Rightarrow>
            and_then (process_orderbook_request request limit_remaining ob q) (\<lambda>((rem, limit'), ob1, q1).
            case rem of
              Some remaining_request \<Rightarrow>
                process_requests_loop n limit' (set_front remaining_request rq) ob1 q1
            | None \<Rightarrow>
                and_then (pop_front request_header_ops rq) (\<lambda>(popped, rq1).
                and_then (unwrap popped) (\<lambda>_. process_requests_loop n limit' rq1 ob1 q1)))))"

text \<open>Every pass uses up some of the limit, so the limit and one is fuel enough.\<close>

definition process_requests :: "u16 \<Rightarrow> req_queue \<Rightarrow> order_book \<Rightarrow> event_queue \<Rightarrow> req_queue matching" where
  "process_requests limit rq ob q = process_requests_loop (Suc (unat limit)) (unat limit) rq ob q"

end
