(* ===== verification/Outcomes.thy ===== *)
theory Outcomes
  imports DexErrors
begin

text \<open>
  Outcome specifications: \<open>outcome E P r\<close> says that a fallible computation either returns a
  value with \<open>P\<close> or stops with one of the faults in \<open>E\<close>.  The rules follow the sequencing
  of the code, so a handler is verified statement by statement.
\<close>

definition outcome :: "'e set \<Rightarrow> ('a \<Rightarrow> bool) \<Rightarrow> 'e + 'a \<Rightarrow> bool" where
  "outcome E P r \<longleftrightarrow> (case r of Inl e \<Rightarrow> e \<in> E | Inr x \<Rightarrow> P x)"

named_theorems outcome_rules \<open>rules for outcome specifications\<close>

lemma outcome_simps [simp]:
  "outcome E P (Inl e) \<longleftrightarrow> e \<in> E"
  "outcome E P (Inr x) \<longleftrightarrow> P x"
  by (simp_all add: outcome_def)

lemma outcome_and_then:
  "outcome E P r \<Longrightarrow> (\<And>x. P x \<Longrightarrow> r = Inr x \<Longrightarrow> outcome E Q (f x)) \<Longrightarrow> outcome E Q (and_then r f)"
  by (cases r) auto

lemma outcome_mono:
  "outcome E P r \<Longrightarrow> E \<subseteq> F \<Longrightarrow> (\<And>x. P x \<Longrightarrow> Q x) \<Longrightarrow> outcome F Q r"
  by (cases r) auto

lemma outcome_imp: "outcome E P r \<Longrightarrow> (\<And>x. P x \<Longrightarrow> Q x) \<Longrightarrow> outcome E Q r"
  by (cases r) auto

lemma outcome_unwrap [outcome_rules]:
  "x = Some y \<Longrightarrow> P y \<Longrightarrow> outcome E P (unwrap x)"
  by simp

lemma outcome_InrD: "outcome E P r \<Longrightarrow> r = Inr x \<Longrightarrow> P x"
  by simp

lemma outcome_total: "outcome {} P r \<longleftrightarrow> (\<exists>x. r = Inr x \<and> P x)"
  by (cases r) auto

end
