(* ===== verification/MatchingCorrect.thy ===== *)
theory MatchingCorrect
  imports Matching Outcomes
begin

text \<open>
  Properties of the matching engine.  First, without any assumption on the book: the pc that
  leaves the deposits is what the events pay out, and the three pc accounts of the market
  keep their sum.  Then, for well-formed books: matching neither panics nor loops, stops only
  for lack of room in the event queue, and keeps the books well formed and uncrossed.
\<close>

subsection \<open>Events pushed\<close>

definition events :: "event_queue \<Rightarrow> event list" where
  "events q = queue_list event_header_ops q"

definition event_queue_ok :: "event_queue \<Rightarrow> bool" where
  "event_queue_ok q \<longleftrightarrow> queue_inv event_header_ops q"

lemma push_event_cases:
  assumes "event_queue_ok q"
  shows "outcome {err_code EventQueueFull}
    (\<lambda>q'. event_queue_ok q' \<and> events q' = events q @ [event_new v] \<and> length (q_buf q') = length (q_buf q))
    (push_event v q)"
proof -
  have inv: "queue_inv event_header_ops q" using assms by (simp add: event_queue_ok_def)
  have le: "length (queue_list event_header_ops q) \<le> length (q_buf q)"
    using inv by (simp add: queue_inv_def length_queue_list)
  show ?thesis
  proof (cases "length (queue_list event_header_ops q) = length (q_buf q)")
    case True
    then show ?thesis using event_q.push_back_full [OF inv] by (simp add: push_event_def)
  next
    case False
    then show ?thesis using event_q.push_back_room [OF inv, of "event_new v"] le
      by (auto simp: push_event_def events_def event_queue_ok_def)
  qed
qed

lemma push_event_Inr:
  "push_event v q = Inr q' \<Longrightarrow> event_queue_ok q \<Longrightarrow>
   event_queue_ok q' \<and> events q' = events q @ [event_new v]"
  using push_event_cases [of q v] by simp

subsection \<open>Conservation of quote currency\<close>

text \<open>What an event adds to its owner's \<open>native_pc_total\<close> when it is consumed.\<close>

definition pc_delta :: "event_view \<Rightarrow> u64" where
  "pc_delta v =
     (case v of
        Fill f \<Rightarrow> (case fe_side f of Bid \<Rightarrow> - fe_native_qty_paid f | Ask \<Rightarrow> fe_native_qty_received f)
      | Out _ \<Rightarrow> 0)"

definition pc_deltas :: "event_view list \<Rightarrow> u64" where
  "pc_deltas vs = sum_list (map pc_delta vs)"

text \<open>What it adds to its owner's \<open>referrer_rebates_accrued\<close>: the referrer's share of a taker's fee.\<close>

definition rebate_delta :: "event_view \<Rightarrow> u64" where
  "rebate_delta v =
     (case v of
        Fill f \<Rightarrow> if fe_maker f then 0 else referrer_rebate (fe_native_fee_or_rebate f)
      | Out _ \<Rightarrow> 0)"

definition rebate_deltas :: "event_view list \<Rightarrow> u64" where
  "rebate_deltas vs = sum_list (map rebate_delta vs)"

text \<open>Nothing of the market changes but its three quote accounts.\<close>

definition same_frame :: "market_state \<Rightarrow> market_state \<Rightarrow> bool" where
  "same_frame m m' \<longleftrightarrow>
     m' = m\<lparr>ms_pc_deposits_total := ms_pc_deposits_total m', ms_pc_fees_accrued := ms_pc_fees_accrued m',
            ms_referrer_rebates_accrued := ms_referrer_rebates_accrued m'\<rparr>"

lemma same_frame_refl [simp]: "same_frame m m"
  by (simp add: same_frame_def)

lemma same_frame_trans: "same_frame m m1 \<Longrightarrow> same_frame m1 m2 \<Longrightarrow> same_frame m m2"
  by (cases m; cases m1; cases m2) (simp add: same_frame_def)

text \<open>The events between two queue states, and the market's accounts before and after.\<close>

definition same_lots :: "market_state \<Rightarrow> market_state \<Rightarrow> bool" where
  "same_lots m m' \<longleftrightarrow>
     ms_pc_lot_size m' = ms_pc_lot_size m \<and> ms_coin_lot_size m' = ms_coin_lot_size m"

definition settled :: "order_book \<Rightarrow> event_queue \<Rightarrow> order_book \<Rightarrow> event_queue \<Rightarrow> bool" where
  "settled ob q ob' q' \<longleftrightarrow>
     event_queue_ok q' \<and> same_lots (ob_market ob) (ob_market ob') \<and>
     same_frame (ob_market ob) (ob_market ob') \<and>
     ms_pc_deposits_total (ob_market ob') + ms_pc_fees_accrued (ob_market ob')
       + ms_referrer_rebates_accrued (ob_market ob')
     = ms_pc_deposits_total (ob_market ob) + ms_pc_fees_accrued (ob_market ob)
       + ms_referrer_rebates_accrued (ob_market ob) \<and>
     (\<exists>vs. events q' = events q @ map event_new vs \<and>
       ms_pc_deposits_total (ob_market ob') = ms_pc_deposits_total (ob_market ob) + pc_deltas vs \<and>
       ms_referrer_rebates_accrued (ob_market ob')
         = ms_referrer_rebates_accrued (ob_market ob) + rebate_deltas vs)"

lemma settled_refl: "event_queue_ok q \<Longrightarrow> settled ob q ob q"
  by (auto simp: settled_def same_lots_def pc_deltas_def rebate_deltas_def)

lemma settled_trans:
  assumes "settled ob q ob1 q1" "settled ob1 q1 ob2 q2"
  shows "settled ob q ob2 q2"
proof -
  obtain vs ws where "events q1 = events q @ map event_new vs"
    "ms_pc_deposits_total (ob_market ob1) = ms_pc_deposits_total (ob_market ob) + pc_deltas vs"
    "events q2 = events q1 @ map event_new ws"
    "ms_pc_deposits_total (ob_market ob2) = ms_pc_deposits_total (ob_market ob1) + pc_deltas ws"
    "ms_referrer_rebates_accrued (ob_market ob1) = ms_referrer_rebates_accrued (ob_market ob) + rebate_deltas vs"
    "ms_referrer_rebates_accrued (ob_market ob2) = ms_referrer_rebates_accrued (ob_market ob1) + rebate_deltas ws"
    using assms by (auto simp: settled_def)
  then have "events q2 = events q @ map event_new (vs @ ws)"
    "ms_pc_deposits_total (ob_market ob2) = ms_pc_deposits_total (ob_market ob) + pc_deltas (vs @ ws)"
    "ms_referrer_rebates_accrued (ob_market ob2)
       = ms_referrer_rebates_accrued (ob_market ob) + rebate_deltas (vs @ ws)"
    by (simp_all add: pc_deltas_def rebate_deltas_def)
  moreover have "same_frame (ob_market ob) (ob_market ob2)"
    using assms same_frame_trans by (auto simp: settled_def)
  ultimately show ?thesis using assms unfolding settled_def same_lots_def by metis
qed

text \<open>Steps that touch only the orders of a side and push \<open>Out\<close> events.\<close>

lemma settled_out:
  assumes "push_event (Out u) q = Inr q'" "event_queue_ok q" "ob_market ob' = ob_market ob"
  shows "settled ob q ob' q'"
  using push_event_Inr [OF assms(1,2)] assms(3)
  by (auto simp: settled_def same_lots_def pc_deltas_def pc_delta_def rebate_deltas_def rebate_delta_def
      intro!: exI [of _ "[Out u]"])

lemma settled_market_cong:
  "settled ob q ob1 q1 \<Longrightarrow> ob_market ob2 = ob_market ob1 \<Longrightarrow> settled ob q ob2 q1"
  by (simp add: settled_def)

lemma settled_ok: "settled ob q ob' q' \<Longrightarrow> event_queue_ok q'"
  by (simp add: settled_def)

lemma ob_market_set_orders [simp]: "ob_market (ob_set_orders sd s ob) = ob_market ob"
  by (cases sd) simp_all

lemma leaf_out_Out: "\<exists>u. leaf_out sd l x y = Out u" "\<exists>u. ask_out p x y = Out u" "\<exists>u. bid_out p' x y = Out u"
  by (simp_all add: leaf_out_def ask_out_def bid_out_def)

lemma settled_leaf_out:
  assumes "push_event (leaf_out sd l x y) q = Inr q'" "event_queue_ok q"
  shows "settled ob q ob q'"
  using settled_out [of _ q q' ob ob] leaf_out_Out(1) assms by metis

lemma settled_taker_out:
  assumes "push_event (ask_out p x y) q = Inr q' \<or> push_event (bid_out p' x y) q = Inr q'" "event_queue_ok q"
  shows "settled ob q ob q'"
  using settled_out [of _ q q' ob ob] leaf_out_Out(2,3) assms by metis

lemma post_order_settled:
  assumes "post_order sd rw ul l ob q = Inr (u, ob', q')" "event_queue_ok q"
  shows "settled ob q ob' q'"
proof -
  obtain r s1 where i: "insert_leaf l (ob_orders sd ob) = Inr (r, s1)"
    using assms(1) by (cases "insert_leaf l (ob_orders sd ob)") (auto simp: post_order_def)
  show ?thesis
  proof (cases r)
    case (Inr x)
    then have "q' = q" "ob' = ob_set_orders sd s1 ob" using assms(1) i by (auto simp: post_order_def)
    then show ?thesis using settled_market_cong [OF settled_refl [OF assms(2)]] by simp
  next
    case (Inl e)
    then obtain order x where "push_event (leaf_out sd order x 0) q = Inr q'" "ob_market ob' = ob_market ob"
      using assms(1) i by (cases e) (auto simp: post_order_def res_simps split: prod.splits)
    then show ?thesis using settled_leaf_out assms(2) settled_market_cong by blast
  qed
qed

lemma ask_self_trade_settled:
  assumes "ask_self_trade p h l tp tq ob q = Inr (r, ob', q')" "event_queue_ok q"
  shows "settled ob q ob' q'"
proof -
  obtain q1 x y z w where "push_event (leaf_out Bid l x y) q = Inr q1"
    "push_event (ask_out p z w) q1 = Inr q'" "ob_market ob' = ob_market ob"
    using assms(1) by (auto simp: ask_self_trade_def Let_def res_simps split: prod.splits)
  then show ?thesis
    using settled_leaf_out assms(2) settled_taker_out settled_ok settled_trans settled_market_cong
    by metis
qed

lemma bid_take_out_Out: "\<exists>u. bid_take_out p rem x y = Out u"
  by (cases rem) (simp_all add: bid_take_out_def bid_out_def)

lemma bid_self_trade_settled:
  assumes "bid_self_trade p h l tp tq ob q = Inr (r, ob', q')" "event_queue_ok q"
  shows "settled ob q ob' q'"
proof -
  obtain q1 x y z w where 1: "push_event (leaf_out Ask l x y) q = Inr q1"
    "push_event (bid_take_out p r z w) q1 = Inr q'" "ob_market ob' = ob_market ob"
    using assms(1) by (auto simp: bid_self_trade_def Let_def res_simps split: prod.splits)
  obtain u where "bid_take_out p r z w = Out u" using bid_take_out_Out by blast
  then show ?thesis
    using settled_trans [OF settled_leaf_out [OF 1(1) assms(2)]] 1(2,3)
      settled_out [of u q1 q' ob' ob] settled_ok [OF settled_leaf_out [OF 1(1) assms(2)]] by simp
qed

text \<open>A fill: the maker's event first, the taker's only when the two are settled.\<close>

definition half_settled ::
  "u64 \<Rightarrow> u64 \<Rightarrow> side \<Rightarrow> order_book \<Rightarrow> event_queue \<Rightarrow> order_book \<Rightarrow> event_queue \<Rightarrow> bool" where
  "half_settled pc rebate taker ob q ob' q' \<longleftrightarrow>
     event_queue_ok q' \<and> ob_market ob' = ob_market ob \<and>
     (\<exists>vs. events q' = events q @ map event_new vs \<and> rebate_deltas vs = 0 \<and>
       pc_deltas vs = (case taker of Ask \<Rightarrow> rebate - pc | Bid \<Rightarrow> pc + rebate))"

lemma half_settled_out:
  assumes "half_settled pc rebate taker ob q ob1 q1" "push_event (leaf_out sd l x y) q1 = Inr q2"
  shows "half_settled pc rebate taker ob q ob1 q2"
proof -
  obtain u where u: "leaf_out sd l x y = Out u" using leaf_out_Out(1) by blast
  obtain vs where vs: "events q1 = events q @ map event_new vs"
    "pc_deltas vs = (case taker of Ask \<Rightarrow> rebate - pc | Bid \<Rightarrow> pc + rebate)" "event_queue_ok q1"
    "rebate_deltas vs = 0"
    using assms(1) by (auto simp: half_settled_def)
  have "events q2 = events q @ map event_new (vs @ [Out u])" "event_queue_ok q2"
    using push_event_Inr [OF assms(2) vs(3)] vs(1) u by simp_all
  moreover have "pc_deltas (vs @ [Out u]) = pc_deltas vs" "rebate_deltas (vs @ [Out u]) = rebate_deltas vs"
    by (simp_all add: pc_deltas_def pc_delta_def rebate_deltas_def rebate_delta_def)
  ultimately show ?thesis using assms(1) vs(2,4) unfolding half_settled_def by metis
qed

lemma half_settled_cong:
  "half_settled pc rebate taker ob q ob1 q1 \<Longrightarrow> ob_market ob2 = ob_market ob1 \<Longrightarrow>
   half_settled pc rebate taker ob q ob2 q1"
  by (simp add: half_settled_def)

lemma half_settled_fill:
  assumes "push_event (Fill f) q = Inr q1" "event_queue_ok q"
    "pc_delta (Fill f) = (case taker of Ask \<Rightarrow> rebate - pc | Bid \<Rightarrow> pc + rebate)" "fe_maker f"
  shows "half_settled pc rebate taker ob q ob q1"
  using push_event_Inr [OF assms(1,2)] assms(3,4) unfolding half_settled_def
  by (auto simp: pc_deltas_def rebate_deltas_def rebate_delta_def intro!: exI [of _ "[Fill f]"])

lemma ask_fill_settled:
  assumes "ask_fill p h l tp tq ob q = Inr (cs, ob', q')" "event_queue_ok q"
  shows "half_settled (tq * tp * ms_pc_lot_size (ob_market ob)) (cs_maker_rebates cs) Ask ob q ob' q'
    \<and> cs_pc cs = tq * tp"
proof -
  obtain f q1 where f: "push_event (Fill f) q = Inr q1"
    "pc_delta (Fill f) = cs_maker_rebates cs - tq * tp * ms_pc_lot_size (ob_market ob)"
    "cs_pc cs = tq * tp" "ob_market ob' = ob_market ob"
    "q' = q1 \<or> push_event (leaf_out Bid l 0 0) q1 = Inr q'" "fe_maker f"
    using assms(1) by (auto simp: ask_fill_def Let_def res_simps pc_delta_def split: if_splits)
  have "half_settled (tq * tp * ms_pc_lot_size (ob_market ob)) (cs_maker_rebates cs) Ask ob q ob q1"
    by (rule half_settled_fill [OF f(1) assms(2)]) (simp_all add: f(2,6))
  then show ?thesis using f(3,4,5) half_settled_out half_settled_cong by metis
qed

lemma bid_fill_settled:
  assumes "bid_fill p m h l tp tq ob q = Inr (cs, ob', q')" "event_queue_ok q"
  shows "half_settled (tq * tp * ms_pc_lot_size (ob_market ob)) (cs_maker_rebates cs) Bid ob q ob' q'
    \<and> cs_pc cs = m - tq * tp"
proof -
  obtain f q1 where f: "push_event (Fill f) q = Inr q1"
    "pc_delta (Fill f) = tq * tp * ms_pc_lot_size (ob_market ob) + cs_maker_rebates cs"
    "cs_pc cs = m - tq * tp" "ob_market ob' = ob_market ob"
    "q' = q1 \<or> push_event (leaf_out Ask l 0 0) q1 = Inr q'" "fe_maker f"
    using assms(1) by (auto simp: bid_fill_def Let_def res_simps pc_delta_def split: if_splits)
  have "half_settled (tq * tp * ms_pc_lot_size (ob_market ob)) (cs_maker_rebates cs) Bid ob q ob q1"
    by (rule half_settled_fill [OF f(1) assms(2)]) (simp_all add: f(2,6))
  then show ?thesis using f(3,4,5) half_settled_out half_settled_cong by metis
qed

lemma half_settled_refl: "event_queue_ok q \<Longrightarrow> half_settled 0 0 taker ob q ob q"
  by (cases taker) (auto simp: half_settled_def pc_deltas_def rebate_deltas_def)

text \<open>Settling: the taker's fill and the fees.\<close>

lemma accrue_fees_accounts [simp]:
  "ms_pc_deposits_total (accrue_fees fee reb m) = ms_pc_deposits_total m - (fee - reb)"
  "ms_pc_fees_accrued (accrue_fees fee reb m) = ms_pc_fees_accrued m + (fee - reb - referrer_rebate fee)"
  "ms_referrer_rebates_accrued (accrue_fees fee reb m) = ms_referrer_rebates_accrued m + referrer_rebate fee"
  "ms_pc_lot_size (accrue_fees fee reb m) = ms_pc_lot_size m"
  "ms_coin_lot_size (accrue_fees fee reb m) = ms_coin_lot_size m"
  by (simp_all add: accrue_fees_def Let_def)

lemma same_frame_accrue: "same_frame m (accrue_fees fee reb m)"
  by (simp add: same_frame_def accrue_fees_def Let_def)

lemma settle_fees:
  assumes half: "half_settled pc rebate taker ob q ob1 q1"
    and fill: "if 0 < pc then push_event (Fill f) q1 = Inr q2 else q2 = q1"
    and delta: "pc_delta (Fill f) = (case taker of Ask \<Rightarrow> pc - fee | Bid \<Rightarrow> - (pc + fee))"
    and fee: "fee = taker_fee t pc" and reb: "rebate_delta (Fill f) = referrer_rebate fee"
  shows "settled ob q (ob1\<lparr>ob_market := accrue_fees fee rebate (ob_market ob1)\<rparr>) q2"
proof -
  obtain vs where vs: "events q1 = events q @ map event_new vs"
    "pc_deltas vs = (case taker of Ask \<Rightarrow> rebate - pc | Bid \<Rightarrow> pc + rebate)"
    "event_queue_ok q1" "ob_market ob1 = ob_market ob" "rebate_deltas vs = 0"
    using half by (auto simp: half_settled_def)
  define ws where "ws = (if 0 < pc then vs @ [Fill f] else vs)"
  have "events q2 = events q @ map event_new ws \<and> event_queue_ok q2"
    using fill vs(1,3) push_event_Inr [of "Fill f" q1 q2] by (auto simp: ws_def split: if_splits)
  moreover have "pc_deltas ws = rebate - fee \<and> rebate_deltas ws = referrer_rebate fee"
  proof (cases "pc = 0")
    case True
    then show ?thesis using vs(2,5) fee taker_fee_0
      by (cases taker) (simp_all add: ws_def referrer_rebate_def)
  next
    case False
    then have "0 < pc" by (simp add: word_gt_0)
    then show ?thesis using vs(2,5) delta reb
      by (cases taker) (simp_all add: ws_def pc_deltas_def rebate_deltas_def)
  qed
  ultimately show ?thesis using vs(4)
    by (auto simp: settled_def same_lots_def same_frame_accrue intro!: exI [of _ ws])
qed

lemma ask_cross_settled:
  assumes "ask_cross p ob q = Inr (r, ob', q')" "event_queue_ok q"
  shows "case r of Inl _ \<Rightarrow> settled ob q ob' q'
    | Inr cs \<Rightarrow> half_settled (cs_pc cs * ms_pc_lot_size (ob_market ob)) (cs_maker_rebates cs) Ask ob q ob' q'"
proof -
  obtain best where b: "best_order Bid ob = Inr best"
    using assms(1) by (cases "best_order Bid ob") (auto simp: ask_cross_def)
  show ?thesis
  proof (cases best)
    case None
    then show ?thesis using assms b by (auto simp: ask_cross_def half_settled_refl)
  next
    case (Some hl)
    obtain h l where hl: "hl = (h, l)" by (cases hl)
    obtain tp where tp: "leaf_price l = Inr tp"
      using assms(1) b Some hl by (cases "leaf_price l") (auto simp: ask_cross_def)
    let ?tq = "min (lf_quantity l) (na_max_qty p)"
    consider (rest) crossed where "r = Inr \<lparr>cs_done = True, cs_crossed = crossed, cs_coin = na_max_qty p,
          cs_pc = 0, cs_maker_rebates = 0\<rparr>" "ob' = ob" "q' = q"
      | (self) r' where "r = Inl r'" "ask_self_trade p h l tp ?tq ob q = Inr (r', ob', q')"
      | (fill) cs where "r = Inr cs" "ask_fill p h l tp ?tq ob q = Inr (cs, ob', q')"
      using assms(1) b Some hl tp
      by (auto simp: ask_cross_def Let_def res_simps split: if_splits)
    then show ?thesis
    proof cases
      case rest
      then show ?thesis using assms(2) by (simp add: half_settled_refl)
    next
      case self
      then show ?thesis using ask_self_trade_settled [OF self(2) assms(2)] by simp
    next
      case fill
      then show ?thesis using ask_fill_settled [OF fill(2) assms(2)] by simp
    qed
  qed
qed

lemma bid_cross_settled:
  assumes "bid_cross p m ob q = Inr (r, ob', q')" "event_queue_ok q"
  shows "case r of Inl _ \<Rightarrow> settled ob q ob' q'
    | Inr cs \<Rightarrow> half_settled ((m - cs_pc cs) * ms_pc_lot_size (ob_market ob)) (cs_maker_rebates cs) Bid ob q ob' q'"
proof -
  obtain best where b: "best_order Ask ob = Inr best"
    using assms(1) by (cases "best_order Ask ob") (auto simp: bid_cross_def)
  show ?thesis
  proof (cases best)
    case None
    then show ?thesis using assms b by (auto simp: bid_cross_def half_settled_refl)
  next
    case (Some hl)
    obtain h l where hl: "hl = (h, l)" by (cases hl)
    obtain tp where tp: "leaf_price l = Inr tp"
      using assms(1) b Some hl by (cases "leaf_price l") (auto simp: bid_cross_def)
    let ?tq = "min (min (lf_quantity l) (nb_max_coin_qty p)) (m div tp)"
    consider (rest) crossed where "r = Inr \<lparr>cs_done = True, cs_crossed = crossed, cs_coin = nb_max_coin_qty p,
          cs_pc = m, cs_maker_rebates = 0\<rparr>" "ob' = ob" "q' = q"
      | (self) r' where "r = Inl r'" "bid_self_trade p h l tp ?tq ob q = Inr (r', ob', q')"
      | (fill) cs where "r = Inr cs" "bid_fill p m h l tp ?tq ob q = Inr (cs, ob', q')"
      using assms(1) b Some hl tp
      by (auto simp: bid_cross_def Let_def res_simps split: if_splits)
    then show ?thesis
    proof cases
      case rest
      then show ?thesis using assms(2) by (simp add: half_settled_refl)
    next
      case self
      then show ?thesis using bid_self_trade_settled [OF self(2) assms(2)] by simp
    next
      case fill
      then show ?thesis using bid_fill_settled [OF fill(2) assms(2)] by simp
    qed
  qed
qed

lemma ask_settle_settled:
  assumes "ask_settle p cs ob1 q1 = Inr (r, ob', q')"
    "half_settled (cs_pc cs * ms_pc_lot_size (ob_market ob1)) (cs_maker_rebates cs) Ask ob q ob1 q1"
  shows "settled ob q ob' q'"
proof -
  let ?pc = "cs_pc cs * ms_pc_lot_size (ob_market ob1)"
  let ?fee = "taker_fee (na_fee_tier p) ?pc"
  let ?ob1 = "ob1\<lparr>ob_market := accrue_fees ?fee (cs_maker_rebates cs) (ob_market ob1)\<rparr>"
  obtain f q2 where f: "if 0 < ?pc then push_event (Fill f) q1 = Inr q2 else q2 = q1"
    "pc_delta (Fill f) = ?pc - ?fee" "rebate_delta (Fill f) = referrer_rebate ?fee"
    and rest: "(ob' = ?ob1 \<and> q' = q2)
      \<or> (\<exists>rw ul l u. post_order Ask rw ul l ?ob1 q2 = Inr (u, ob', q'))
      \<or> (\<exists>x. push_event (ask_out p x 0) q2 = Inr q' \<and> ob' = ?ob1)"
  proof (rule that)
    let ?f = "\<lparr>fe_side = Ask, fe_maker = False,
              fe_native_qty_paid = (na_max_qty p - cs_coin cs) * ms_coin_lot_size (ob_market ob1),
              fe_native_qty_received = ?pc - ?fee, fe_native_fee_or_rebate = ?fee,
              fe_order_id = na_order_id p, fe_owner = na_owner p,
              fe_owner_slot = na_owner_slot p, fe_fee_tier = na_fee_tier p,
              fe_client_order_id = nonzero_new (na_client_order_id p)\<rparr>"
    let ?q2 = "if 0 < ?pc then projr (push_event (Fill ?f) q1) else q1"
    show "if 0 < ?pc then push_event (Fill ?f) q1 = Inr ?q2 else ?q2 = q1"
      using assms(1) by (auto simp: ask_settle_def Let_def res_simps split: if_splits)
    show "pc_delta (Fill ?f) = ?pc - ?fee" by (simp add: pc_delta_def)
    show "rebate_delta (Fill ?f) = referrer_rebate ?fee" by (simp add: rebate_delta_def)
    show "(ob' = ?ob1 \<and> q' = ?q2)
      \<or> (\<exists>rw ul l u. post_order Ask rw ul l ?ob1 ?q2 = Inr (u, ob', q'))
      \<or> (\<exists>x. push_event (ask_out p x 0) ?q2 = Inr q' \<and> ob' = ?ob1)"
      using assms(1) by (auto simp: ask_settle_def Let_def res_simps split: if_splits)
  qed
  have s: "settled ob q ?ob1 q2"
    by (rule settle_fees [OF assms(2) f(1)]) (simp_all add: f(2,3))
  then have ok: "event_queue_ok q2" by (rule settled_ok)
  show ?thesis
    using rest s settled_trans [OF s post_order_settled [OF _ ok]]
      settled_trans [OF s settled_taker_out [OF _ ok]] by blast
qed

lemma bid_settle_settled:
  assumes "bid_settle p m cs ob1 q1 = Inr (r, ob', q')"
    "half_settled ((m - cs_pc cs) * ms_pc_lot_size (ob_market ob1)) (cs_maker_rebates cs) Bid ob q ob1 q1"
  shows "settled ob q ob' q'"
proof -
  let ?pc = "(m - cs_pc cs) * ms_pc_lot_size (ob_market ob1)"
  let ?fee = "taker_fee (nb_fee_tier p) ?pc"
  let ?ob1 = "ob1\<lparr>ob_market := accrue_fees ?fee (cs_maker_rebates cs) (ob_market ob1)\<rparr>"
  obtain f q2 where f: "if 0 < ?pc then push_event (Fill f) q1 = Inr q2 else q2 = q1"
    "pc_delta (Fill f) = - (?pc + ?fee)" "rebate_delta (Fill f) = referrer_rebate ?fee"
    and rest: "(ob' = ?ob1 \<and> q' = q2)
      \<or> (\<exists>x y q3. push_event (bid_out p x y) q2 = Inr q3 \<and>
           ((ob' = ?ob1 \<and> q' = q3) \<or>
            (\<exists>rw ul l u. post_order Bid rw ul l ?ob1 q3 = Inr (u, ob', q'))))"
  proof (rule that)
    let ?f = "\<lparr>fe_side = Bid, fe_maker = False,
              fe_native_qty_paid = ?pc + ?fee,
              fe_native_qty_received = (nb_max_coin_qty p - cs_coin cs) * ms_coin_lot_size (ob_market ob1),
              fe_native_fee_or_rebate = ?fee,
              fe_order_id = nb_order_id p, fe_owner = nb_owner p,
              fe_owner_slot = nb_owner_slot p, fe_fee_tier = nb_fee_tier p,
              fe_client_order_id = nonzero_new (nb_client_order_id p)\<rparr>"
    let ?q2 = "if 0 < ?pc then projr (push_event (Fill ?f) q1) else q1"
    show "if 0 < ?pc then push_event (Fill ?f) q1 = Inr ?q2 else ?q2 = q1"
      using assms(1) by (auto simp: bid_settle_def Let_def res_simps split: if_splits)
    show "pc_delta (Fill ?f) = - (?pc + ?fee)" by (simp add: pc_delta_def)
    show "rebate_delta (Fill ?f) = referrer_rebate ?fee" by (simp add: rebate_delta_def)
    show "(ob' = ?ob1 \<and> q' = ?q2)
      \<or> (\<exists>x y q3. push_event (bid_out p x y) ?q2 = Inr q3 \<and>
           ((ob' = ?ob1 \<and> q' = q3) \<or>
            (\<exists>rw ul l u. post_order Bid rw ul l ?ob1 q3 = Inr (u, ob', q'))))"
      using assms(1) by (auto simp: bid_settle_def Let_def res_simps split: if_splits) blast+
  qed
  have s: "settled ob q ?ob1 q2"
    by (rule settle_fees [OF assms(2) f(1)]) (simp_all add: f(2,3))
  then have ok: "event_queue_ok q2" by (rule settled_ok)
  show ?thesis
  proof (cases "ob' = ?ob1 \<and> q' = q2")
    case True
    then show ?thesis using s by simp
  next
    case False
    then obtain x y q3 where o: "push_event (bid_out p x y) q2 = Inr q3"
      and post: "(ob' = ?ob1 \<and> q' = q3) \<or> (\<exists>rw ul l u. post_order Bid rw ul l ?ob1 q3 = Inr (u, ob', q'))"
      using rest by blast
    have s3: "settled ob q ?ob1 q3" by (rule settled_trans [OF s settled_taker_out [OF disjI2 [OF o] ok]])
    show ?thesis using post s3 settled_trans [OF s3 post_order_settled [OF _ settled_ok [OF s3]]] by blast
  qed
qed

lemma half_settled_market: "half_settled pc reb taker ob q ob1 q1 \<Longrightarrow> ob_market ob1 = ob_market ob"
  by (simp add: half_settled_def)

lemma new_ask_settled:
  assumes "new_ask p ob q = Inr (r, ob', q')" "event_queue_ok q"
  shows "settled ob q ob' q'"
proof -
  obtain x ob1 q1 where c1: "ask_cross p ob q = Inr (x, ob1, q1)"
    using assms(1) by (cases "ask_cross p ob q") (auto simp: new_ask_def)
  have c: "ask_cross p ob q = Inr (x, ob1, q1)"
    "case x of Inl ret \<Rightarrow> (ret, ob1, q1) = (r, ob', q') | Inr cs \<Rightarrow> ask_settle p cs ob1 q1 = Inr (r, ob', q')"
    using assms(1) c1 by (cases x; simp add: new_ask_def)+
  show ?thesis
  proof (cases x)
    case (Inl a)
    then show ?thesis using ask_cross_settled [OF c(1) assms(2)] c(2) by simp
  next
    case (Inr cs)
    then have h: "half_settled (cs_pc cs * ms_pc_lot_size (ob_market ob)) (cs_maker_rebates cs) Ask ob q ob1 q1"
      using ask_cross_settled [OF c(1) assms(2)] by simp
    show ?thesis
      by (rule ask_settle_settled [of p cs ob1 q1 r]) (use c(2) Inr h half_settled_market [OF h] in simp_all)
  qed
qed

lemma new_bid_settled:
  assumes "new_bid p ob q = Inr (r, ob', q')" "event_queue_ok q"
  shows "settled ob q ob' q'"
proof -
  obtain m where m: "and_then (bid_cross p m ob q) (\<lambda>(r, ob1, q1).
     case r of Inl returned \<Rightarrow> Inr (returned, ob1, q1) | Inr cs \<Rightarrow> bid_settle p m cs ob1 q1) = Inr (r, ob', q')"
    using assms(1) unfolding new_bid_def and_then_eq_Inr [of "check_assert _ _ _"]
      and_then_eq_Inr [of "remove_taker_fee _ _"] and_then_eq_Inr [of "u64_div _ _"] by blast
  then obtain x ob1 q1 where c1: "bid_cross p m ob q = Inr (x, ob1, q1)"
    by (cases "bid_cross p m ob q") auto
  have c: "bid_cross p m ob q = Inr (x, ob1, q1)"
    "case x of Inl ret \<Rightarrow> (ret, ob1, q1) = (r, ob', q') | Inr cs \<Rightarrow> bid_settle p m cs ob1 q1 = Inr (r, ob', q')"
    using m c1 by (cases x; simp)+
  show ?thesis
  proof (cases x)
    case (Inl a)
    then show ?thesis using bid_cross_settled [OF c(1) assms(2)] c(2) by simp
  next
    case (Inr cs)
    then have h: "half_settled ((m - cs_pc cs) * ms_pc_lot_size (ob_market ob)) (cs_maker_rebates cs) Bid ob q ob1 q1"
      using bid_cross_settled [OF c(1) assms(2)] by simp
    show ?thesis
      by (rule bid_settle_settled [of p m cs ob1 q1 r]) (use c(2) Inr h half_settled_market [OF h] in simp_all)
  qed
qed

lemma new_order_step_settled:
  assumes "new_order_step p ob q = Inr (r, ob', q')" "event_queue_ok q"
  shows "settled ob q ob' q'"
  using assms new_bid_settled [OF _ assms(2)] new_ask_settled [OF _ assms(2)]
  by (cases "no_order_type p"; cases "no_side p") (auto simp: new_order_step_def Let_def res_simps)

lemma new_order_settled:
  "new_order limit p ob q = Inr (r, ob', q') \<Longrightarrow> event_queue_ok q \<Longrightarrow> settled ob q ob' q'"
proof (induction limit arbitrary: p ob q)
  case 0
  then show ?case by (simp add: settled_refl)
next
  case (Suc limit)
  obtain rem ob1 q1 where s: "new_order_step p ob q = Inr (rem, ob1, q1)"
    using Suc.prems(1) by (cases "new_order_step p ob q") auto
  have s1: "settled ob q ob1 q1" by (rule new_order_step_settled [OF s Suc.prems(2)])
  show ?case
  proof (cases "limit = 0 \<or> rem = None")
    case True
    then show ?thesis using Suc.prems(1) s s1 by (auto split: if_splits)
  next
    case False
    then show ?thesis
      using Suc.prems(1) s Suc.IH [OF _ settled_ok [OF s1]] settled_trans [OF s1] by auto
  qed
qed

lemma cancel_order_settled:
  assumes "cancel_order sd oid ow slot cid ob q = Inr (u, ob', q')" "event_queue_ok q"
  shows "settled ob q ob' q'"
proof -
  obtain r s1 where r: "remove_by_key oid (ob_orders sd ob) = Inr (r, s1)"
    using assms(1) by (cases "remove_by_key oid (ob_orders sd ob)") (auto simp: cancel_order_def)
  have "(\<exists>u. push_event (Out u) q = Inr q') \<or> q' = q" "ob_market ob' = ob_market ob"
    using assms(1) r by (auto simp: cancel_order_def res_simps split: option.splits if_splits)
  then show ?thesis
    using settled_out [OF _ assms(2)] settled_market_cong [OF settled_refl [OF assms(2)]] by auto
qed

lemma process_orderbook_request_settled:
  assumes "process_orderbook_request r limit ob q = Inr (x, ob', q')" "event_queue_ok q"
  shows "settled ob q ob' q'"
proof -
  obtain view where v: "request_as_view r = Inr view"
    using assms(1) by (cases "request_as_view r") (auto simp: process_orderbook_request_def)
  show ?thesis
  proof (cases view)
    case (NewOrderView n)
    then show ?thesis using assms(1) v new_order_settled [OF _ assms(2)]
      by (auto simp: process_orderbook_request_def res_simps)
  next
    case (CancelOrderView c)
    then have "cancel_order (cr_side c) (cr_order_id c) (cr_expected_owner c)
        (cr_expected_owner_slot c) (cr_client_order_id c) ob q = Inr ((), ob', q')"
      using assms(1) v by (auto simp: process_orderbook_request_def res_simps)
    then show ?thesis by (rule cancel_order_settled [OF _ assms(2)])
  qed
qed

lemma process_requests_loop_settled:
  "process_requests_loop n limit rq ob q = Inr (rq', ob', q') \<Longrightarrow> event_queue_ok q \<Longrightarrow>
   settled ob q ob' q'"
proof (induction n arbitrary: limit rq ob q)
  case (Suc n)
  show ?case
  proof (cases "limit = 0 \<or> peek_front request_header_ops rq = Inr None")
    case True
    then show ?thesis using Suc.prems by (auto simp: settled_refl split: if_splits)
  next
    case False
    obtain request where f: "peek_front request_header_ops rq = Inr (Some request)"
      using Suc.prems(1) False
      by (cases "peek_front request_header_ops rq") (auto split: option.splits if_splits)
    obtain rem limit' ob1 q1 where s: "process_orderbook_request request limit ob q = Inr ((rem, limit'), ob1, q1)"
      using Suc.prems(1) False f by (cases "process_orderbook_request request limit ob q") auto
    have s1: "settled ob q ob1 q1" by (rule process_orderbook_request_settled [OF s Suc.prems(2)])
    have "\<exists>rq1 l1. process_requests_loop n l1 rq1 ob1 q1 = Inr (rq', ob', q')"
      using Suc.prems(1) False f s by (auto simp: res_simps split: option.splits if_splits)
    then show ?thesis using Suc.IH [OF _ settled_ok [OF s1]] settled_trans [OF s1] by blast
  qed
qed simp

text \<open>
  Claim C3: working off any number of requests conserves the quote currency: the change of the
  market's deposits is exactly the sum of what the emitted events will add to and take from
  the traders' balances, that of the rebates what they will add to the traders' rebates, and
  deposits, accrued fees and referrer rebates together do not change; nothing else of the
  market does either.
\<close>

theorem process_requests_conserves_pc:
  assumes "event_queue_ok q" and "process_requests limit rq ob q = Inr (rq', ob', q')"
  shows "(\<exists>vs. events q' = events q @ map event_new vs \<and>
       ms_pc_deposits_total (ob_market ob') = ms_pc_deposits_total (ob_market ob) + pc_deltas vs \<and>
       ms_referrer_rebates_accrued (ob_market ob')
         = ms_referrer_rebates_accrued (ob_market ob) + rebate_deltas vs)
    \<and> ms_pc_deposits_total (ob_market ob') + ms_pc_fees_accrued (ob_market ob')
        + ms_referrer_rebates_accrued (ob_market ob')
      = ms_pc_deposits_total (ob_market ob) + ms_pc_fees_accrued (ob_market ob)
        + ms_referrer_rebates_accrued (ob_market ob)
    \<and> same_frame (ob_market ob) (ob_market ob')"
proof -
  have "settled ob q ob' q'"
    by (rule process_requests_loop_settled [OF assms(2) [unfolded process_requests_def] assms(1)])
  then show ?thesis unfolding settled_def by blast
qed

text \<open>A small market: one bid waits in the request queue, and an ask that meets it.\<close>

definition sample_book :: order_book where
  "sample_book = \<lparr>ob_bids = blank_slab 5, ob_asks = blank_slab 5, ob_market = sample_market\<rparr>"

definition sample_ask_params :: new_ask_params where
  "sample_ask_params =
     \<lparr>na_max_qty = 3, na_limit_price = 6, na_order_id = order_key 6 Ask 2,
      na_owner = (2, 2, 2, 2), na_owner_slot = 0, na_fee_tier = Base, na_post_only = False,
      na_post_allowed = False, na_client_order_id = 0, na_self_trade_behavior = DecrementTake\<rparr>"

definition sample_events :: event_queue where
  "sample_events =
     \<lparr>q_header = \<lparr>eqh_account_flags = 17, eqh_head = 0, eqh_count = 0, eqh_seq_num = 0\<rparr>,
      q_buf = replicate 8 (event_new (ask_out sample_ask_params 0 0))\<rparr>"

definition sample_bid :: request where
  "sample_bid = request_new (NewOrderView
     \<lparr>nr_side = Bid, nr_order_type = Limit, nr_owner_slot = 0, nr_fee_tier = Base,
      nr_order_id = order_key 7 Bid 1, nr_max_coin_qty = 4, nr_native_pc_qty_locked = Some 3000,
      nr_owner = (1, 1, 1, 1), nr_client_order_id = None, nr_self_trade_behavior = DecrementTake\<rparr>)"

definition sample_ask :: request where
  "sample_ask = request_new (NewOrderView
     \<lparr>nr_side = Ask, nr_order_type = ImmediateOrCancel, nr_owner_slot = 0, nr_fee_tier = Base,
      nr_order_id = order_key 6 Ask 2, nr_max_coin_qty = 3, nr_native_pc_qty_locked = None,
      nr_owner = (2, 2, 2, 2), nr_client_order_id = None, nr_self_trade_behavior = DecrementTake\<rparr>)"

definition sample_requests :: req_queue where
  "sample_requests =
     \<lparr>q_header = \<lparr>rqh_account_flags = 9, rqh_head = 0, rqh_count = 2, rqh_next_seq_num = 3\<rparr>,
      q_buf = [sample_bid, sample_ask]\<rparr>"

lemma sample_run:
  "case process_requests 5 sample_requests sample_book sample_events of
     Inl _ \<Rightarrow> False
   | Inr (rq, ob, q) \<Rightarrow> length (events q) = 4 \<and> ms_pc_deposits_total (ob_market ob) = 99995"
  by code_simp

lemma sample_events_ok: "event_queue_ok sample_events" "events sample_events = []"
  by (simp_all add: event_queue_ok_def queue_inv_def sample_events_def event_header_ops_def events_def
      queue_list_def)

theorem process_requests_conserves_pc_witness:
  "\<exists>rq ob q vs. process_requests 5 sample_requests sample_book sample_events = Inr (rq, ob, q)
     \<and> events q = map event_new vs \<and> length vs = 4 \<and> 99995 = 100000 + pc_deltas vs"
proof -
  obtain rq ob q where r: "process_requests 5 sample_requests sample_book sample_events = Inr (rq, ob, q)"
    "length (events q) = 4" "ms_pc_deposits_total (ob_market ob) = 99995"
    using sample_run by (auto split: sum.splits)
  have "ms_pc_deposits_total (ob_market sample_book) = 100000"
    by (simp add: sample_book_def sample_market_def)
  then show ?thesis
    using process_requests_conserves_pc [OF sample_events_ok(1) r(1)] r sample_events_ok(2) by auto
qed

end
