(* ===== verification/MatchingSafe.thy ===== *)
theory MatchingSafe
  imports MatchingCorrect
begin

text \<open>
  Safety of the matching engine on well-formed books.  \<open>book_ok\<close>: both sides are well-formed
  trees with at least one node, every resting order can be read and locks an amount that fits
  a word, no bid meets an ask, and the lots are not zero.  On such a book requests are worked
  off without a panic or an endless walk; only a full event queue stops them; and the book is
  well formed again after every step.
\<close>

abbreviation price_of :: "u128 \<Rightarrow> u64" where
  "price_of \<equiv> extract_price_from_order_id"

definition leaf_ok :: "market_state \<Rightarrow> side \<Rightarrow> leaf_node \<Rightarrow> bool" where
  "leaf_ok m sd l \<longleftrightarrow>
     fee_tier_try_from (lf_fee_tier l) \<noteq> None \<and> price_of (lf_key l) \<noteq> 0 \<and> lf_quantity l \<noteq> 0 \<and>
     (case sd of
        Bid \<Rightarrow> unat (lf_quantity l) * unat (price_of (lf_key l)) * unat (ms_pc_lot_size m) < 2 ^ 64
      | Ask \<Rightarrow> unat (lf_quantity l) * unat (ms_coin_lot_size m) < 2 ^ 64)"

definition side_ok :: "market_state \<Rightarrow> side \<Rightarrow> slab \<Rightarrow> bool" where
  "side_ok m sd s \<longleftrightarrow>
     slab_inv s \<and> 0 < slab_capacity s \<and> (\<forall>l\<in>ran (slab_orders s). leaf_ok m sd l)"

definition uncrossed :: "order_book \<Rightarrow> bool" where
  "uncrossed ob \<longleftrightarrow>
     (\<forall>b\<in>dom (slab_orders (ob_bids ob)). \<forall>a\<in>dom (slab_orders (ob_asks ob)). price_of b < price_of a)"

definition book_ok :: "order_book \<Rightarrow> bool" where
  "book_ok ob \<longleftrightarrow>
     side_ok (ob_market ob) Bid (ob_bids ob) \<and> side_ok (ob_market ob) Ask (ob_asks ob) \<and>
     uncrossed ob \<and> ms_pc_lot_size (ob_market ob) \<noteq> 0 \<and> ms_coin_lot_size (ob_market ob) \<noteq> 0"

abbreviation full :: "dex_fault set" where
  "full \<equiv> {err_code EventQueueFull}"

subsection \<open>Sides\<close>

lemma price_mono: "k \<le> k' \<Longrightarrow> price_of k \<le> price_of k'"
  unfolding extract_price_from_order_id_def word_le_nat_alt high_half by (rule div_le_mono)

lemma leaf_price_ok: "leaf_ok m sd l \<Longrightarrow> leaf_price l = Inr (price_of (lf_key l))"
  by (simp add: leaf_price_def leaf_ok_def extract_price_from_order_id_def nonzero_new_nonzero)

lemma leaf_fee_tier_ok: "leaf_ok m sd l \<Longrightarrow> \<exists>t. leaf_fee_tier l = Inr t"
  by (auto simp: leaf_fee_tier_def leaf_ok_def)

lemma side_ok_leaf: "side_ok m sd s \<Longrightarrow> slab_orders s k = Some l \<Longrightarrow> leaf_ok m sd l"
  by (auto simp: side_ok_def ran_def)

lemma same_lots_leaf: "same_lots m m' \<Longrightarrow> leaf_ok m' sd l = leaf_ok m sd l"
  by (cases sd) (auto simp: same_lots_def leaf_ok_def)

lemma same_lots_side: "same_lots m m' \<Longrightarrow> side_ok m' sd s = side_ok m sd s"
  by (simp add: side_ok_def same_lots_leaf)

text \<open>A side with fewer orders, each of them fit, is fit.\<close>

lemma side_ok_sub:
  assumes "side_ok m sd s" "slab_inv s'" "slab_capacity s' = slab_capacity s"
    "\<And>l. l \<in> ran (slab_orders s') \<Longrightarrow> l \<in> ran (slab_orders s) \<or> leaf_ok m sd l"
  shows "side_ok m sd s'"
  using assms by (auto simp: side_ok_def)

lemma ran_upd_subset: "ran (m(k := v)) \<subseteq> ran m \<union> set_option v"
  by (cases v) (auto simp: ran_def split: if_splits)

lemma remove_unwrap_ok:
  assumes "side_ok m sd s" "k \<in> dom (slab_orders s)"
  obtains s' where "remove_unwrap k s = Inr s'" "side_ok m sd s'"
    "slab_orders s' = (slab_orders s)(k := None)"
proof -
  have inv: "slab_inv s" using assms(1) by (simp add: side_ok_def)
  obtain s' where s': "remove_by_key k s = Inr (slab_orders s k, s')" "slab_inv s'"
    "slab_capacity s' = slab_capacity s" "slab_orders s' = (slab_orders s)(k := None)"
    using remove_by_key_run [OF inv] by blast
  have "side_ok m sd s'"
    by (rule side_ok_sub [OF assms(1) s'(2,3)]) (use ran_upd_subset [of "slab_orders s" k None] s'(4) in auto)
  then show thesis using s' assms(2) that by (auto simp: remove_unwrap_def)
qed

lemma put_quantity_ok:
  assumes "side_ok m sd s" "slab_holds s h l0" "lf_key l = lf_key l0" "leaf_ok m sd l"
  shows "side_ok m sd (slab_put s h (LeafNode l))
    \<and> slab_orders (slab_put s h (LeafNode l)) = (slab_orders s)(lf_key l \<mapsto> l)"
proof -
  note p = slab_put_run [OF assms(2,3)]
  have "side_ok m sd (slab_put s h (LeafNode l))"
    by (rule side_ok_sub [OF assms(1)])
      (use p assms(4) ran_upd_subset [of "slab_orders s" "lf_key l" "Some l"] in auto)
  then show ?thesis using p by simp
qed

lemma capacity_bound:
  assumes "slab_inv s"
  shows "2 * card (dom (slab_orders s)) \<le> Suc (slab_capacity s)"
  unfolding card_orders [OF assms]
  using assms leaf_count_bound slab_leaves_tree slab_leaves_vacant
  by (auto simp: slab_inv_def slab_capacity_def)

lemma insert_room_ok:
  assumes "side_ok m sd s" "leaf_ok m sd l" "2 * card (dom (slab_orders s)) < slab_capacity s"
  obtains s' where "insert_unwrap l s = Inr s'" "side_ok m sd s'"
    "slab_orders s' = (slab_orders s)(lf_key l \<mapsto> l)"
proof -
  have inv: "slab_inv s" using assms(1) by (simp add: side_ok_def)
  obtain r s' where r: "insert_leaf l s = Inr (r, s')" "slab_inv s'" "slab_capacity s' = slab_capacity s"
    and c: "case r of
       Inr (h, old) \<Rightarrow>
         old = slab_orders s (lf_key l) \<and> slab_orders s' = (slab_orders s)(lf_key l \<mapsto> l) \<and>
         slab_get s' h = Some (LeafNode l) \<and>
         (old = None \<longrightarrow> 2 * length (slab_leaves s) < slab_capacity s)
     | Inl OutOfSpace \<Rightarrow>
         slab_orders s' = slab_orders s \<and> slab_orders s (lf_key l) = None \<and>
         slab_capacity s \<le> 2 * length (slab_leaves s)"
    using insert_leaf_run [OF inv] by blast
  obtain x where x: "r = Inr x" using c assms(3) card_orders [OF inv] by (cases r) (auto split: slab_tree_error.splits)
  then have so: "slab_orders s' = (slab_orders s)(lf_key l \<mapsto> l)" using c by (cases x) auto
  have "side_ok m sd s'"
    by (rule side_ok_sub [OF assms(1) r(2,3)])
      (use so assms(2) ran_upd_subset [of "slab_orders s" "lf_key l" "Some l"] in auto)
  then show thesis using so r(1) x that by (auto simp: insert_unwrap_def)
qed

lemma best_order_ok:
  assumes "slab_inv (ob_orders sd ob)"
  shows "outcome {} (\<lambda>r. case r of
      None \<Rightarrow> slab_orders (ob_orders sd ob) = Map.empty
    | Some (h, l) \<Rightarrow> slab_holds (ob_orders sd ob) h l
        \<and> slab_orders (ob_orders sd ob) (lf_key l) = Some l
        \<and> (\<forall>k\<in>dom (slab_orders (ob_orders sd ob)). key_before (sd = Bid) (lf_key l) k))
    (best_order sd ob)"
proof (cases "slab_orders (ob_orders sd ob) = Map.empty")
  case True
  then show ?thesis using find_extreme_empty [OF assms]
    by (cases sd) (simp_all add: best_order_def find_min_def find_max_def)
next
  case False
  obtain h l where hl: "find_min_max (sd = Bid) (ob_orders sd ob) = Inr (Some h)"
    "slab_holds (ob_orders sd ob) h l" "slab_orders (ob_orders sd ob) (lf_key l) = Some l"
    "\<And>k. k \<in> dom (slab_orders (ob_orders sd ob)) \<Longrightarrow> key_before (sd = Bid) (lf_key l) k"
    using find_extreme_run [OF assms False, where m = "sd = Bid"] by metis
  have "best_order sd ob = Inr (Some (h, l))"
    using hl(1) slab_holds_get [OF hl(2)]
    by (cases sd) (simp_all add: best_order_def find_min_def find_max_def as_leaf_def)
  then show ?thesis using hl by auto
qed

lemma best_bid_ok:
  "slab_inv (ob_bids ob) \<Longrightarrow> outcome {} (\<lambda>r. case r of
      None \<Rightarrow> slab_orders (ob_bids ob) = Map.empty
    | Some (h, l) \<Rightarrow> slab_holds (ob_bids ob) h l \<and> slab_orders (ob_bids ob) (lf_key l) = Some l
        \<and> (\<forall>k\<in>dom (slab_orders (ob_bids ob)). key_before True (lf_key l) k))
    (best_order Bid ob)"
  using best_order_ok [of Bid ob] by simp

lemma best_ask_ok:
  "slab_inv (ob_asks ob) \<Longrightarrow> outcome {} (\<lambda>r. case r of
      None \<Rightarrow> slab_orders (ob_asks ob) = Map.empty
    | Some (h, l) \<Rightarrow> slab_holds (ob_asks ob) h l \<and> slab_orders (ob_asks ob) (lf_key l) = Some l
        \<and> (\<forall>k\<in>dom (slab_orders (ob_asks ob)). key_before False (lf_key l) k))
    (best_order Ask ob)"
  using best_order_ok [of Ask ob] by simp

lemma post_order_ok:
  assumes side: "side_ok m sd (ob_orders sd ob)" and leaf: "leaf_ok m sd l" and q: "event_queue_ok q"
    and rw: "rw = remove_extreme b" and unlock: "\<And>x. leaf_ok m sd x \<Longrightarrow> \<exists>u. ul x = Inr u"
  shows "outcome full (\<lambda>(_, ob', q'). \<exists>s'. ob' = ob_set_orders sd s' ob \<and> side_ok m sd s' \<and>
      dom (slab_orders s') \<subseteq> insert (lf_key l) (dom (slab_orders (ob_orders sd ob))) \<and> event_queue_ok q')
    (post_order sd rw ul l ob q)"
proof -
  let ?s = "ob_orders sd ob"
  have inv: "slab_inv ?s" "0 < slab_capacity ?s" using side by (simp_all add: side_ok_def)
  obtain r s1 where r: "insert_leaf l ?s = Inr (r, s1)" "slab_inv s1" "slab_capacity s1 = slab_capacity ?s"
    and c: "case r of
       Inr (h, old) \<Rightarrow>
         old = slab_orders ?s (lf_key l) \<and> slab_orders s1 = (slab_orders ?s)(lf_key l \<mapsto> l) \<and>
         slab_get s1 h = Some (LeafNode l) \<and>
         (old = None \<longrightarrow> 2 * length (slab_leaves ?s) < slab_capacity ?s)
     | Inl OutOfSpace \<Rightarrow>
         slab_orders s1 = slab_orders ?s \<and> slab_orders ?s (lf_key l) = None \<and>
         slab_capacity ?s \<le> 2 * length (slab_leaves ?s)"
    using insert_leaf_run [OF inv(1)] by blast
  show ?thesis
  proof (cases r)
    case (Inr x)
    then have so: "slab_orders s1 = (slab_orders ?s)(lf_key l \<mapsto> l)" using c by (cases x) auto
    have "side_ok m sd s1"
      by (rule side_ok_sub [OF side r(2,3)])
        (use so leaf ran_upd_subset [of "slab_orders ?s" "lf_key l" "Some l"] in auto)
    then show ?thesis using Inr r(1) so q by (auto simp: post_order_def)
  next
    case (Inl e)
    then have full: "slab_orders s1 = slab_orders ?s" "slab_capacity ?s \<le> 2 * card (dom (slab_orders ?s))"
      using c card_orders [OF inv(1)] by (cases e; simp)+
    have ne: "slab_orders s1 \<noteq> Map.empty"
    proof
      assume "slab_orders s1 = Map.empty"
      then have "card (dom (slab_orders ?s)) = 0" using full(1) by simp
      then show False using full(2) inv(2) by linarith
    qed
    obtain w s2 where w: "remove_extreme b s1 = Inr (Some w, s2)" "slab_inv s2"
      "slab_capacity s2 = slab_capacity s1" "slab_orders s1 (lf_key w) = Some w"
      "slab_orders s2 = (slab_orders s1)(lf_key w := None)"
      using remove_extreme_run [OF r(2), of b] ne by auto
    have wok: "leaf_ok m sd w" using side_ok_leaf [OF side] w(4) full(1) by simp
    obtain u where u: "ul w = Inr u" using unlock [OF wok] by blast
    have s2: "side_ok m sd s2"
      by (rule side_ok_sub [OF side w(2)])
        (use w(3,5) r(3) full(1) ran_upd_subset [of "slab_orders s1" "lf_key w" None] in auto)
    have "lf_key w \<in> dom (slab_orders s1)" using w(4) by blast
    then have "card (dom (slab_orders s2)) = card (dom (slab_orders ?s)) - 1"
      using w(5) full(1) by simp
    moreover have "2 * card (dom (slab_orders ?s)) \<le> Suc (slab_capacity ?s)"
      by (rule capacity_bound [OF inv(1)])
    moreover have "card (dom (slab_orders ?s)) \<noteq> 0" using full(2) inv(2) by linarith
    ultimately have room: "2 * card (dom (slab_orders s2)) < slab_capacity s2"
      unfolding w(3) r(3) by linarith
    obtain s3 where s3: "insert_unwrap l s2 = Inr s3" "side_ok m sd s3"
      "slab_orders s3 = (slab_orders s2)(lf_key l \<mapsto> l)"
      by (rule insert_room_ok [OF s2 leaf room])
    have dom: "dom (slab_orders s3) \<subseteq> insert (lf_key l) (dom (slab_orders ?s))"
      using s3(3) w(5) full(1) by auto
    have "outcome full (\<lambda>(_, ob', q'). \<exists>s'. ob' = ob_set_orders sd s' ob \<and> side_ok m sd s' \<and>
      dom (slab_orders s') \<subseteq> insert (lf_key l) (dom (slab_orders ?s)) \<and> event_queue_ok q')
      (and_then (push_event (leaf_out sd w u 0) q) (\<lambda>q1. Inr ((), ob_set_orders sd s3 ob, q1)))"
      by (rule outcome_and_then [OF push_event_cases [OF q]]) (use s3(2) dom in \<open>auto intro!: exI [of _ s3]\<close>)
    then show ?thesis using Inl r(1) w(1) u s3(1) rw by (cases e) (simp add: post_order_def)
  qed
qed

subsection \<open>Asks\<close>

definition ask_params_ok :: "market_state \<Rightarrow> new_ask_params \<Rightarrow> bool" where
  "ask_params_ok m p \<longleftrightarrow>
     na_max_qty p \<noteq> 0 \<and> unat (na_max_qty p) * unat (ms_coin_lot_size m) < 2 ^ 64 \<and>
     na_limit_price p = price_of (na_order_id p) \<and> na_limit_price p \<noteq> 0"

text \<open>What every step keeps: the book, the lots and the queue.\<close>

definition kept :: "order_book \<Rightarrow> order_book \<Rightarrow> event_queue \<Rightarrow> bool" where
  "kept ob ob' q' \<longleftrightarrow> book_ok ob' \<and> same_lots (ob_market ob) (ob_market ob') \<and> event_queue_ok q'"

lemma kept_trans: "kept ob ob1 q1 \<Longrightarrow> kept ob1 ob2 q2 \<Longrightarrow> kept ob ob2 q2"
  by (auto simp: kept_def same_lots_def)

lemma same_lots_refl [simp]: "same_lots m m"
  by (simp add: same_lots_def)

lemma same_lots_accrue [simp]: "same_lots m (accrue_fees f r m)"
  by (simp add: same_lots_def)

text \<open>A book with fewer orders on one side is still uncrossed.\<close>

lemma book_ok_side:
  assumes "book_ok ob" "side_ok (ob_market ob) sd s"
    "dom (slab_orders s) \<subseteq> dom (slab_orders (ob_orders sd ob))"
  shows "book_ok (ob_set_orders sd s ob)"
  using assms unfolding book_ok_def uncrossed_def by (cases sd) (simp_all, blast+)

lemma book_ok_market:
  assumes "book_ok ob" "same_lots (ob_market ob) m"
  shows "book_ok (ob\<lparr>ob_market := m\<rparr>)"
  using assms same_lots_side [OF assms(2)] by (auto simp: book_ok_def uncrossed_def same_lots_def)

lemma book_ok_sides:
  "book_ok ob \<Longrightarrow> side_ok (ob_market ob) sd (ob_orders sd ob) \<and> slab_inv (ob_orders sd ob)"
  by (cases sd) (auto simp: book_ok_def side_ok_def)

text \<open>The shared step on a resting order: lower its quantity, or take it out at zero.\<close>

lemma shrink_ok:
  assumes "leaf_ok m sd l" "x \<le> lf_quantity l" "x \<noteq> 0"
  shows "leaf_ok m sd (leaf_set_quantity x l)"
proof -
  have le: "unat x * k \<le> unat (lf_quantity l) * k" for k
    using assms(2) by (simp add: word_le_nat_alt)
  have "unat x * unat (price_of (lf_key l)) * unat (ms_pc_lot_size m) < 2 ^ 64" if "sd = Bid"
    by (rule le_less_trans [OF le [of "unat (price_of (lf_key l)) * unat (ms_pc_lot_size m)",
            unfolded mult.assoc [symmetric]]])
      (use assms(1) that in \<open>simp add: leaf_ok_def\<close>)
  moreover have "unat x * unat (ms_coin_lot_size m) < 2 ^ 64" if "sd = Ask"
    by (rule le_less_trans [OF le]) (use assms(1) that in \<open>simp add: leaf_ok_def\<close>)
  ultimately show ?thesis using assms(1,3)
    by (cases sd) (simp_all add: leaf_ok_def leaf_set_quantity_def)
qed

lemma leaf_set_quantity_key [simp]: "lf_key (leaf_set_quantity x l) = lf_key l"
  by (simp add: leaf_set_quantity_def)

text \<open>Writing the lowered quantity first and removing then, as the fills do at zero.\<close>

lemma put_remove_ok:
  assumes side: "side_ok m sd s" and h: "slab_holds s h l"
  obtains s' where "remove_unwrap (lf_key l) (slab_put s h (LeafNode (leaf_set_quantity x l))) = Inr s'"
    "side_ok m sd s'" "slab_orders s' = (slab_orders s)(lf_key l := None)"
proof -
  let ?l = "leaf_set_quantity x l"
  let ?s1 = "slab_put s h (LeafNode ?l)"
  have p: "slab_inv ?s1" "slab_capacity ?s1 = slab_capacity s"
    "slab_orders ?s1 = (slab_orders s)(lf_key l \<mapsto> ?l)"
    using slab_put_run [OF h, of ?l] by simp_all
  obtain s' where s': "remove_by_key (lf_key l) ?s1 = Inr (slab_orders ?s1 (lf_key l), s')" "slab_inv s'"
    "slab_capacity s' = slab_capacity ?s1" "slab_orders s' = (slab_orders ?s1)(lf_key l := None)"
    using remove_by_key_run [OF p(1)] by blast
  have so: "slab_orders s' = (slab_orders s)(lf_key l := None)" using s'(4) p(3) by simp
  have "side_ok m sd s'"
    by (rule side_ok_sub [OF side s'(2)])
      (use s'(3) p(2) so ran_upd_subset [of "slab_orders s" "lf_key l" None] in auto)
  then show thesis using so s'(1) p(3) that by (auto simp: remove_unwrap_def)
qed

lemma ob_set_orders_simps:
  "ob\<lparr>ob_bids := s\<rparr> = ob_set_orders Bid s ob" "ob\<lparr>ob_asks := s\<rparr> = ob_set_orders Ask s ob"
  by simp_all

lemma resting_update:
  assumes ob: "book_ok ob" and h: "slab_holds (ob_orders sd ob) h l" and x: "x \<le> lf_quantity l"
  shows "outcome {} (\<lambda>s'. book_ok (ob_set_orders sd s' ob))
    (if x = 0 then remove_unwrap (lf_key l) (ob_orders sd ob)
     else Inr (slab_put (ob_orders sd ob) h (LeafNode (leaf_set_quantity x l))))"
proof -
  let ?s = "ob_orders sd ob"
  have side: "side_ok (ob_market ob) sd ?s" using book_ok_sides [OF ob] by blast
  have lo: "slab_orders ?s (lf_key l) = Some l" by (rule slab_holds_orders [OF h])
  show ?thesis
  proof (cases "x = 0")
    case True
    obtain s' where s': "remove_unwrap (lf_key l) ?s = Inr s'" "side_ok (ob_market ob) sd s'"
      "slab_orders s' = (slab_orders ?s)(lf_key l := None)"
      by (rule remove_unwrap_ok [OF side, of "lf_key l"]) (use lo in auto)
    then show ?thesis using True book_ok_side [OF ob s'(2)] by auto
  next
    case False
    let ?l = "leaf_set_quantity x l"
    have lk: "leaf_ok (ob_market ob) sd ?l" by (rule shrink_ok [OF side_ok_leaf [OF side lo] x False])
    have p: "side_ok (ob_market ob) sd (slab_put ?s h (LeafNode ?l))"
      "slab_orders (slab_put ?s h (LeafNode ?l)) = (slab_orders ?s)(lf_key l \<mapsto> ?l)"
      using put_quantity_ok [OF side h _ lk] by simp_all
    have "dom (slab_orders (slab_put ?s h (LeafNode ?l))) \<subseteq> dom (slab_orders ?s)"
      using p(2) lo by auto
    then show ?thesis using False book_ok_side [OF ob p(1)] by simp
  qed
qed

definition remaining_ok :: "(order_remaining \<Rightarrow> bool) \<Rightarrow> order_remaining option \<Rightarrow> bool" where
  "remaining_ok P r \<longleftrightarrow> (case r of None \<Rightarrow> True | Some x \<Rightarrow> P x)"

lemma remaining_ok_simps [simp]: "remaining_ok P None" "remaining_ok P (Some x) = P x"
  by (simp_all add: remaining_ok_def)

definition ask_left :: "new_ask_params \<Rightarrow> order_remaining \<Rightarrow> bool" where
  "ask_left p x \<longleftrightarrow> or_coin_qty_remaining x \<noteq> 0 \<and> or_coin_qty_remaining x \<le> na_max_qty p \<and>
     or_native_pc_qty_remaining x = None"

lemma kept_book: "book_ok ob' \<Longrightarrow> ob_market ob' = ob_market ob \<Longrightarrow> event_queue_ok q' \<Longrightarrow> kept ob ob' q'"
  by (simp add: kept_def)

lemma word_diff_le: "y \<le> x \<Longrightarrow> x - y \<le> (x :: u64)"
  by (simp add: word_le_nat_alt unat_sub)

lemma push_ok:
  assumes "event_queue_ok q"
  shows "outcome full event_queue_ok (push_event v q)"
  by (rule outcome_imp [OF push_event_cases [OF assms]]) simp

lemma ask_self_trade_ok:
  assumes ob: "book_ok ob" and q: "event_queue_ok q" and h: "slab_holds (ob_bids ob) h l"
    and tq: "tq \<le> lf_quantity l" "tq \<le> na_max_qty p"
  shows "outcome full (\<lambda>(r, ob', q'). kept ob ob' q' \<and> remaining_ok (ask_left p) r)
    (ask_self_trade p h l tp tq ob q)"
proof -
  obtain cp ct where c: "(case na_self_trade_behavior p of
      DecrementTake \<Rightarrow> (tq, tq) | CancelProvide \<Rightarrow> (lf_quantity l, 0)) = (cp, ct)"
    "cp \<le> lf_quantity l" "ct \<le> na_max_qty p"
    using tq by (cases "na_self_trade_behavior p") auto
  have upd: "outcome full (\<lambda>s'. book_ok (ob_set_orders Bid s' ob))
    (if lf_quantity l - cp = 0 then remove_unwrap (lf_key l) (ob_bids ob)
     else Inr (slab_put (ob_bids ob) h (LeafNode (leaf_set_quantity (lf_quantity l - cp) l))))"
    by (rule outcome_mono [OF resting_update [OF ob, where sd = Bid, unfolded ob_orders.simps]])
      (use h word_diff_le [OF c(2)] in auto)
  have le: "na_max_qty p - ct \<le> na_max_qty p" by (rule word_diff_le [OF c(3)])
  show ?thesis
    unfolding ask_self_trade_def Let_def c(1) prod.case
    by (intro outcome_and_then [OF push_ok [OF q]] outcome_and_then [OF upd]
        outcome_and_then [OF push_ok])
      (use le in \<open>auto simp: ask_left_def nonzero_new_def intro: kept_book\<close>)
qed

lemma ask_fill_ok:
  assumes ob: "book_ok ob" and q: "event_queue_ok q" and h: "slab_holds (ob_bids ob) h l"
    and tq: "tq \<le> lf_quantity l" "tq \<le> na_max_qty p"
  shows "outcome full (\<lambda>(cs, ob', q'). kept ob ob' q' \<and> cs_coin cs \<le> na_max_qty p \<and> cs_crossed cs)
    (ask_fill p h l tp tq ob q)"
proof -
  have side: "side_ok (ob_market ob) Bid (ob_bids ob)" using ob by (simp add: book_ok_def)
  have lo: "slab_orders (ob_bids ob) (lf_key l) = Some l" by (rule slab_holds_orders [OF h])
  obtain t where t: "leaf_fee_tier l = Inr t" using leaf_fee_tier_ok [OF side_ok_leaf [OF side lo]] by blast
  have le: "na_max_qty p - tq \<le> na_max_qty p" by (rule word_diff_le [OF tq(2)])
  show ?thesis
  proof (cases "lf_quantity l - tq = 0")
    case True
    obtain s' where s': "remove_unwrap (lf_key l)
        (slab_put (ob_bids ob) h (LeafNode (leaf_set_quantity (lf_quantity l - tq) l))) = Inr s'"
      "side_ok (ob_market ob) Bid s'" "slab_orders s' = (slab_orders (ob_bids ob))(lf_key l := None)"
      by (rule put_remove_ok [OF side h])
    have b: "book_ok (ob_set_orders Bid s' ob)" by (rule book_ok_side [OF ob s'(2)]) (use s'(3) in auto)
    show ?thesis
      unfolding ask_fill_def Let_def t and_then_simps if_P [OF True] s'(1)
      by (intro outcome_and_then [OF push_ok [OF q]] outcome_and_then [OF push_ok])
        (use le b in \<open>auto intro: kept_book\<close>)
  next
    case False
    have b: "book_ok (ob_set_orders Bid (slab_put (ob_bids ob) h
        (LeafNode (leaf_set_quantity (lf_quantity l - tq) l))) ob)"
      using resting_update [OF ob, of Bid h l "lf_quantity l - tq"] h word_diff_le [OF tq(1)] False by simp
    show ?thesis
      unfolding ask_fill_def Let_def t and_then_simps if_not_P [OF False]
      by (intro outcome_and_then [OF push_ok [OF q]]) (use le b in \<open>auto intro: kept_book\<close>)
  qed
qed

definition ask_clear :: "new_ask_params \<Rightarrow> order_book \<Rightarrow> bool" where
  "ask_clear p ob \<longleftrightarrow> (\<forall>b\<in>dom (slab_orders (ob_bids ob)). price_of b < na_limit_price p)"

lemma ask_cross_ok:
  assumes ob: "book_ok ob" and q: "event_queue_ok q"
  shows "outcome full (\<lambda>(r, ob', q'). kept ob ob' q' \<and>
      (case r of Inl ret \<Rightarrow> remaining_ok (ask_left p) ret
       | Inr cs \<Rightarrow> cs_coin cs \<le> na_max_qty p \<and> (\<not> cs_crossed cs \<longrightarrow> ask_clear p ob')))
    (ask_cross p ob q)"
proof -
  have side: "side_ok (ob_market ob) Bid (ob_bids ob)" "slab_inv (ob_bids ob)"
    using book_ok_sides [OF ob, of Bid] by simp_all
  obtain best where b: "best_order Bid ob = Inr best"
    "case best of None \<Rightarrow> slab_orders (ob_bids ob) = Map.empty
     | Some (h, l) \<Rightarrow> slab_holds (ob_bids ob) h l \<and> slab_orders (ob_bids ob) (lf_key l) = Some l
        \<and> (\<forall>k\<in>dom (slab_orders (ob_bids ob)). key_before True (lf_key l) k)"
    using best_bid_ok [OF side(2)] unfolding outcome_total by blast
  have k: "kept ob ob q" by (simp add: kept_def ob q)
  show ?thesis
  proof (cases best)
    case None
    then show ?thesis using b k by (simp add: ask_cross_def ask_clear_def)
  next
    case (Some hl)
    obtain h l where hl: "best = Some (h, l)" using Some by (cases hl) auto
    have l: "slab_holds (ob_bids ob) h l" "slab_orders (ob_bids ob) (lf_key l) = Some l"
      "\<And>x. x \<in> dom (slab_orders (ob_bids ob)) \<Longrightarrow> x \<le> lf_key l"
      using b(2) hl by (auto simp: key_before_def)
    have lp: "leaf_price l = Inr (price_of (lf_key l))"
      by (rule leaf_price_ok [OF side_ok_leaf [OF side(1) l(2)]])
    have clear: "ask_clear p ob" if "\<not> na_limit_price p \<le> price_of (lf_key l)"
      using that price_mono [OF l(3)] unfolding ask_clear_def by (meson le_less_trans not_le)
    let ?tq = "min (lf_quantity l) (na_max_qty p)"
    have tq: "?tq \<le> lf_quantity l" "?tq \<le> na_max_qty p" by simp_all
    show ?thesis
      unfolding ask_cross_def Let_def b(1) hl and_then_simps option.case prod.case lp
      using k clear
      by (auto intro!: outcome_and_then [OF ask_self_trade_ok [OF ob q l(1) tq]]
          outcome_and_then [OF ask_fill_ok [OF ob q l(1) tq]])
  qed
qed

text \<open>Posting an order that does not meet the other side.\<close>

definition clear_of :: "side \<Rightarrow> u64 \<Rightarrow> order_book \<Rightarrow> bool" where
  "clear_of sd price ob \<longleftrightarrow>
     (case sd of
        Ask \<Rightarrow> \<forall>b\<in>dom (slab_orders (ob_bids ob)). price_of b < price
      | Bid \<Rightarrow> \<forall>a\<in>dom (slab_orders (ob_asks ob)). price < price_of a)"

lemma posted_ok:
  assumes ob: "book_ok ob" and side: "side_ok (ob_market ob) sd s'"
    and dom: "dom (slab_orders s') \<subseteq> insert key (dom (slab_orders (ob_orders sd ob)))"
    and clear: "clear_of sd (price_of key) ob"
  shows "book_ok (ob_set_orders sd s' ob)"
proof (cases sd)
  case Bid
  then show ?thesis using assms unfolding book_ok_def uncrossed_def clear_of_def by simp blast
next
  case Ask
  then show ?thesis using assms unfolding book_ok_def uncrossed_def clear_of_def by simp blast
qed

lemma leaf_node_new_simps [simp]:
  "lf_key (leaf_node_new a k ow x t c) = k" "lf_quantity (leaf_node_new a k ow x t c) = x"
  "lf_fee_tier (leaf_node_new a k ow x t c) = fee_tier_u8 t"
  by (simp_all add: leaf_node_new_def)

lemma kept_accrue:
  assumes "kept ob ob1 q1" "event_queue_ok q2"
  shows "kept ob (ob1\<lparr>ob_market := accrue_fees f r (ob_market ob1)\<rparr>) q2"
proof -
  have "book_ok (ob1\<lparr>ob_market := accrue_fees f r (ob_market ob1)\<rparr>)"
    by (rule book_ok_market) (use assms(1) in \<open>simp_all add: kept_def\<close>)
  then show ?thesis using assms by (simp add: kept_def same_lots_def)
qed

lemma post_kept:
  assumes k: "kept ob ob1 q" and leaf: "leaf_ok (ob_market ob1) sd l"
    and clear: "clear_of sd (price_of (lf_key l)) ob1"
    and rw: "rw = remove_extreme b" and unlock: "\<And>x. leaf_ok (ob_market ob1) sd x \<Longrightarrow> \<exists>u. ul x = Inr u"
  shows "outcome full (\<lambda>(_, ob', q'). kept ob ob' q') (post_order sd rw ul l ob1 q)"
proof -
  have ob: "book_ok ob1" and q: "event_queue_ok q" using k by (simp_all add: kept_def)
  show ?thesis
    by (rule outcome_imp [OF post_order_ok [OF _ leaf q rw unlock]])
      (use book_ok_sides [OF ob] posted_ok [OF ob _ _ clear] k in \<open>auto simp: kept_def\<close>)
qed

lemma ask_settle_ok:
  assumes p: "ask_params_ok (ob_market ob) p" and k: "kept ob ob1 q1"
    and cs: "cs_coin cs \<le> na_max_qty p" "\<not> cs_crossed cs \<longrightarrow> ask_clear p ob1"
  shows "outcome full (\<lambda>(r, ob', q'). kept ob ob' q' \<and> remaining_ok (ask_left p) r) (ask_settle p cs ob1 q1)"
proof -
  let ?ob2 = "\<lambda>fee. ob1\<lparr>ob_market := accrue_fees fee (cs_maker_rebates cs) (ob_market ob1)\<rparr>"
  have q1: "event_queue_ok q1" using k by (simp add: kept_def)
  have fill: "outcome full event_queue_ok (if b then push_event v q1 else Inr q1)" for b v
    using push_ok [OF q1] q1 by simp
  let ?leaf = "leaf_node_new (na_owner_slot p) (na_order_id p) (na_owner p) (cs_coin cs)
               (na_fee_tier p) (na_client_order_id p)"
  have lots: "ms_coin_lot_size (ob_market ob1) = ms_coin_lot_size (ob_market ob)"
    using k by (simp add: kept_def same_lots_def)
  have leaf: "leaf_ok (ob_market (?ob2 fee)) Ask ?leaf" if "cs_coin cs \<noteq> 0" for fee
  proof -
    have "unat (cs_coin cs) * unat (ms_coin_lot_size (ob_market ob)) < 2 ^ 64"
      by (rule le_less_trans [of _ "unat (na_max_qty p) * unat (ms_coin_lot_size (ob_market ob))"])
        (use p cs(1) in \<open>auto simp: ask_params_ok_def word_le_nat_alt intro: mult_right_mono\<close>)
    then show ?thesis using p that lots by (auto simp: leaf_ok_def ask_params_ok_def)
  qed
  have post: "outcome full (\<lambda>(_, ob', q'). kept ob ob' q')
      (post_order Ask remove_max (\<lambda>order. Inr (lf_quantity order * ms_coin_lot_size (ob_market ob1)))
        ?leaf (?ob2 fee) q2)"
    if "\<not> cs_crossed cs" "cs_coin cs \<noteq> 0" "event_queue_ok q2" for fee q2
  proof (rule post_kept [OF kept_accrue [OF k that(3)] leaf [OF that(2)]])
    show "clear_of Ask (price_of (lf_key ?leaf)) (?ob2 fee)"
      using cs(2) that(1) p by (simp add: clear_of_def ask_clear_def ask_params_ok_def)
    show "remove_max = remove_extreme True" by (simp add: fun_eq_iff remove_max_def)
  qed simp
  show ?thesis
    unfolding ask_settle_def Let_def
  proof (rule outcome_and_then [OF fill], goal_cases)
    case (1 q2)
    have k2: "kept ob (?ob2 fee) q2" for fee by (rule kept_accrue [OF k 1(1)])
    show ?case
    proof (split if_split, intro conjI impI, goal_cases)
      case 1
      then show ?case using k2 cs(1) by (simp add: ask_left_def)
    next
      case 2
      show ?case
      proof (split if_split, intro conjI impI, goal_cases)
        case 1
        then show ?case
          by (intro outcome_and_then [OF post]) (use \<open>event_queue_ok q2\<close> in \<open>auto simp: word_gt_0\<close>)
      next
        case 2
        show ?case
          by (rule outcome_and_then [OF push_ok [OF \<open>event_queue_ok q2\<close>]])
            (use kept_accrue [OF k] in auto)
      qed
    qed
  qed
qed

lemma new_ask_ok:
  assumes ob: "book_ok ob" and q: "event_queue_ok q" and p: "ask_params_ok (ob_market ob) p"
  shows "outcome full (\<lambda>(r, ob', q'). kept ob ob' q' \<and> remaining_ok (ask_left p) r) (new_ask p ob q)"
  unfolding new_ask_def
  by (rule outcome_and_then [OF ask_cross_ok [OF ob q]])
    (auto split: sum.splits intro!: ask_settle_ok [OF p])

subsection \<open>Bids\<close>

definition bid_params_ok :: "new_bid_params \<Rightarrow> bool" where
  "bid_params_ok p \<longleftrightarrow>
     nb_max_coin_qty p \<noteq> 0 \<and> nb_native_pc_qty_locked p \<noteq> 0 \<and>
     nb_limit_price p = nonzero_new (price_of (nb_order_id p)) \<and>
     (nb_post_allowed p \<longrightarrow> price_of (nb_order_id p) \<noteq> 0)"

definition bid_left :: "order_remaining \<Rightarrow> bool" where
  "bid_left x \<longleftrightarrow> or_coin_qty_remaining x \<noteq> 0 \<and>
     (\<exists>n. or_native_pc_qty_remaining x = Some n \<and> n \<noteq> 0)"

definition bid_clear :: "new_bid_params \<Rightarrow> order_book \<Rightarrow> bool" where
  "bid_clear p ob \<longleftrightarrow> clear_of Bid (price_of (nb_order_id p)) ob"

lemma bid_remaining_left: "remaining_ok bid_left (bid_remaining c n)"
  by (simp add: bid_remaining_def bid_left_def)

lemma bid_self_trade_ok:
  assumes ob: "book_ok ob" and q: "event_queue_ok q" and h: "slab_holds (ob_asks ob) h l"
    and tq: "tq \<le> lf_quantity l"
  shows "outcome full (\<lambda>(r, ob', q'). kept ob ob' q' \<and> remaining_ok bid_left r)
    (bid_self_trade p h l tp tq ob q)"
proof -
  obtain ct cp where c: "(case nb_self_trade_behavior p of
      DecrementTake \<Rightarrow> (tq, tq) | CancelProvide \<Rightarrow> (0, lf_quantity l)) = (ct, cp)"
    "cp \<le> lf_quantity l"
    using tq by (cases "nb_self_trade_behavior p") auto
  have upd: "outcome full (\<lambda>s'. book_ok (ob_set_orders Ask s' ob))
    (if lf_quantity l - cp = 0 then remove_unwrap (lf_key l) (ob_asks ob)
     else Inr (slab_put (ob_asks ob) h (LeafNode (leaf_set_quantity (lf_quantity l - cp) l))))"
    by (rule outcome_mono [OF resting_update [OF ob, where sd = Ask, unfolded ob_orders.simps]])
      (use h word_diff_le [OF c(2)] in auto)
  show ?thesis
    unfolding bid_self_trade_def Let_def c(1) prod.case
    by (intro outcome_and_then [OF push_ok [OF q]] outcome_and_then [OF upd]
        outcome_and_then [OF push_ok])
      (auto simp: bid_remaining_left intro: kept_book)
qed

lemma bid_fill_ok:
  assumes ob: "book_ok ob" and q: "event_queue_ok q" and h: "slab_holds (ob_asks ob) h l"
    and tq: "tq \<le> lf_quantity l"
  shows "outcome full (\<lambda>(cs, ob', q'). kept ob ob' q' \<and> cs_crossed cs) (bid_fill p m h l tp tq ob q)"
proof -
  have side: "side_ok (ob_market ob) Ask (ob_asks ob)" using ob by (simp add: book_ok_def)
  have lo: "slab_orders (ob_asks ob) (lf_key l) = Some l" by (rule slab_holds_orders [OF h])
  obtain t where t: "leaf_fee_tier l = Inr t" using leaf_fee_tier_ok [OF side_ok_leaf [OF side lo]] by blast
  show ?thesis
  proof (cases "lf_quantity l - tq = 0")
    case True
    obtain s' where s': "remove_unwrap (lf_key l)
        (slab_put (ob_asks ob) h (LeafNode (leaf_set_quantity (lf_quantity l - tq) l))) = Inr s'"
      "side_ok (ob_market ob) Ask s'" "slab_orders s' = (slab_orders (ob_asks ob))(lf_key l := None)"
      by (rule put_remove_ok [OF side h])
    have b: "book_ok (ob_set_orders Ask s' ob)" by (rule book_ok_side [OF ob s'(2)]) (use s'(3) in auto)
    show ?thesis
      unfolding bid_fill_def Let_def t and_then_simps if_P [OF True] s'(1)
      by (intro outcome_and_then [OF push_ok [OF q]] outcome_and_then [OF push_ok])
        (use b in \<open>auto intro: kept_book\<close>)
  next
    case False
    have b: "book_ok (ob_set_orders Ask (slab_put (ob_asks ob) h
        (LeafNode (leaf_set_quantity (lf_quantity l - tq) l))) ob)"
      using resting_update [OF ob, of Ask h l "lf_quantity l - tq"] h word_diff_le [OF tq] False by simp
    show ?thesis
      unfolding bid_fill_def Let_def t and_then_simps if_not_P [OF False]
      by (intro outcome_and_then [OF push_ok [OF q]]) (use b in \<open>auto intro: kept_book\<close>)
  qed
qed

lemma bid_cross_ok:
  assumes ob: "book_ok ob" and q: "event_queue_ok q" and p: "bid_params_ok p"
  shows "outcome full (\<lambda>(r, ob', q'). kept ob ob' q' \<and>
      (case r of Inl ret \<Rightarrow> remaining_ok bid_left ret
       | Inr cs \<Rightarrow> \<not> cs_crossed cs \<longrightarrow> bid_clear p ob'))
    (bid_cross p m ob q)"
proof -
  have side: "side_ok (ob_market ob) Ask (ob_asks ob)" "slab_inv (ob_asks ob)"
    using book_ok_sides [OF ob, of Ask] by simp_all
  obtain best where b: "best_order Ask ob = Inr best"
    "case best of None \<Rightarrow> slab_orders (ob_asks ob) = Map.empty
     | Some (h, l) \<Rightarrow> slab_holds (ob_asks ob) h l \<and> slab_orders (ob_asks ob) (lf_key l) = Some l
        \<and> (\<forall>k\<in>dom (slab_orders (ob_asks ob)). key_before False (lf_key l) k)"
    using best_ask_ok [OF side(2)] unfolding outcome_total by blast
  have k: "kept ob ob q" by (simp add: kept_def ob q)
  show ?thesis
  proof (cases best)
    case None
    then show ?thesis using b k by (simp add: bid_cross_def bid_clear_def clear_of_def)
  next
    case (Some hl)
    obtain h l where hl: "best = Some (h, l)" using Some by (cases hl) auto
    have l: "slab_holds (ob_asks ob) h l" "slab_orders (ob_asks ob) (lf_key l) = Some l"
      "\<And>x. x \<in> dom (slab_orders (ob_asks ob)) \<Longrightarrow> lf_key l \<le> x"
      using b(2) hl by (auto simp: key_before_def)
    have lp: "leaf_price l = Inr (price_of (lf_key l))"
      by (rule leaf_price_ok [OF side_ok_leaf [OF side(1) l(2)]])
    let ?crossed = "case nb_limit_price p of Some limit_price \<Rightarrow> price_of (lf_key l) \<le> limit_price | None \<Rightarrow> True"
    have clear: "bid_clear p ob" if "\<not> ?crossed"
    proof -
      have "price_of (nb_order_id p) < price_of (lf_key l)"
        using that p by (auto simp: bid_params_ok_def nonzero_new_def not_le split: option.splits if_splits)
      then show ?thesis
        using price_mono [OF l(3)] unfolding bid_clear_def clear_of_def by (simp, meson less_le_trans domI)
    qed
    let ?tq = "min (min (lf_quantity l) (nb_max_coin_qty p)) (m div price_of (lf_key l))"
    have tq: "?tq \<le> lf_quantity l" by (meson min.cobounded1 min.coboundedI1)
    show ?thesis
      unfolding bid_cross_def Let_def b(1) hl and_then_simps option.case prod.case lp
    proof (split if_split, intro conjI impI, goal_cases)
      case 1
      then show ?case using k clear by auto
    next
      case 2
      show ?case
        using k clear by (auto intro!: outcome_and_then [OF bid_self_trade_ok [OF ob q l(1) tq]]
          outcome_and_then [OF bid_fill_ok [OF ob q l(1) tq]])
    qed
  qed
qed

lemma post_fits:
  fixes locked lot price c :: u64
  assumes "c \<le> locked div lot div price"
  shows "unat c * unat price * unat lot < 2 ^ 64"
proof -
  have "unat c \<le> unat locked div unat lot div unat price"
    using assms by (simp add: word_le_nat_alt unat_div)
  then have "unat c * unat price \<le> unat locked div unat lot div unat price * unat price"
    by (rule mult_right_mono) simp
  also have "\<dots> \<le> unat locked div unat lot" by simp
  finally have "unat c * unat price * unat lot \<le> unat locked div unat lot * unat lot"
    by (rule mult_right_mono) simp
  also have "\<dots> \<le> unat locked" by simp
  finally show ?thesis using unat_u64_lt [of locked] by (rule le_less_trans)
qed

text \<open>The amount a bid posts, with what stays locked for it.\<close>

definition bid_post_amount :: "new_bid_params \<Rightarrow> crossing \<Rightarrow> u64 \<Rightarrow> u64 \<Rightarrow> dex_fault + (u64 \<times> u64)" where
  "bid_post_amount p cs native_pc_qty_remaining pc_lot_size =
     (case nb_limit_price p of
        Some price \<Rightarrow>
          (if nb_post_allowed p \<and> \<not> cs_crossed cs then
             and_then (u64_div native_pc_qty_remaining pc_lot_size) (\<lambda>lots.
             let coin_qty_to_post = min (cs_coin cs) (lots div price)
             in Inr (coin_qty_to_post, coin_qty_to_post * price))
           else Inr (0, 0))
      | None \<Rightarrow> Inr (0, 0))"

lemma bid_post_amount_ok:
  assumes "lot \<noteq> 0" "bid_params_ok p"
  shows "outcome {} (\<lambda>(c, k). k > 0 \<longrightarrow> c \<noteq> 0 \<and> \<not> cs_crossed cs \<and> nb_post_allowed p \<and>
      unat c * unat (price_of (nb_order_id p)) * unat lot < 2 ^ 64)
    (bid_post_amount p cs n lot)"
  using assms post_fits [of "min (cs_coin cs) (n div lot div price_of (nb_order_id p))" n lot
      "price_of (nb_order_id p)"]
  by (auto simp: bid_post_amount_def u64_div_def Let_def bid_params_ok_def nonzero_new_def
      split: option.splits)

lemma bid_settle_ok:
  assumes ob: "ms_pc_lot_size (ob_market ob) \<noteq> 0" and p: "bid_params_ok p" and k: "kept ob ob1 q1"
    and cs: "\<not> cs_crossed cs \<longrightarrow> bid_clear p ob1"
  shows "outcome full (\<lambda>(r, ob', q'). kept ob ob' q' \<and> remaining_ok bid_left r) (bid_settle p m cs ob1 q1)"
proof -
  let ?ob2 = "\<lambda>fee. ob1\<lparr>ob_market := accrue_fees fee (cs_maker_rebates cs) (ob_market ob1)\<rparr>"
  let ?lot = "ms_pc_lot_size (ob_market ob1)"
  have q1: "event_queue_ok q1" using k by (simp add: kept_def)
  have lots: "ms_pc_lot_size (ob_market ob1) \<noteq> 0" using k ob by (simp add: kept_def same_lots_def)
  have fill: "outcome full event_queue_ok (if b then push_event v q1 else Inr q1)" for b v
    using push_ok [OF q1] q1 by simp
  let ?leaf = "\<lambda>c. leaf_node_new (nb_owner_slot p) (nb_order_id p) (nb_owner p) c
               (nb_fee_tier p) (nb_client_order_id p)"
  have post: "outcome full (\<lambda>(_, ob', q'). kept ob ob' q')
      (post_order Bid remove_min
        (\<lambda>order. and_then (leaf_price order) (\<lambda>price. Inr (lf_quantity order * price * ?lot)))
        (?leaf c) (?ob2 fee) q2)"
    if "c \<noteq> 0" "\<not> cs_crossed cs" "nb_post_allowed p"
      "unat c * unat (price_of (nb_order_id p)) * unat ?lot < 2 ^ 64" "event_queue_ok q2" for c fee q2
  proof (rule post_kept [OF kept_accrue [OF k that(5)]])
    show "leaf_ok (ob_market (?ob2 fee)) Bid (?leaf c)"
      using that p by (auto simp: leaf_ok_def bid_params_ok_def)
    show "clear_of Bid (price_of (lf_key (?leaf c))) (?ob2 fee)"
      using cs that(2) by (simp add: clear_of_def bid_clear_def)
    show "remove_min = remove_extreme False" by (simp add: fun_eq_iff remove_min_def)
  qed (use leaf_price_ok in fastforce)
  have amount: "outcome full (\<lambda>(c, k). k > 0 \<longrightarrow> c \<noteq> 0 \<and> \<not> cs_crossed cs \<and> nb_post_allowed p \<and>
      unat c * unat (price_of (nb_order_id p)) * unat ?lot < 2 ^ 64) (bid_post_amount p cs n ?lot)" for n
    by (rule outcome_mono [OF bid_post_amount_ok [OF lots p]]) auto
  show ?thesis
    unfolding bid_settle_def Let_def bid_post_amount_def [unfolded Let_def, symmetric]
  proof (rule outcome_and_then [OF fill], goal_cases)
    case (1 q2)
    have k2: "kept ob (?ob2 fee) q" if "event_queue_ok q" for fee q by (rule kept_accrue [OF k that])
    show ?case
    proof (split if_split, intro conjI impI, goal_cases)
      case 1
      then show ?case using k2 [OF \<open>event_queue_ok q2\<close>] by (simp add: bid_left_def)
    next
      case 2
      show ?case
      proof (rule outcome_and_then [OF amount], goal_cases)
        case (1 x)
        note amt = 1(1)
        obtain c kl where x: "x = (c, kl)" by (cases x)
        show ?case unfolding x prod.case
        proof (rule outcome_and_then [OF push_ok [OF \<open>event_queue_ok q2\<close>]], goal_cases)
          case (1 q3)
          show ?case
          proof (cases "kl > 0")
            case True
            then have c: "c \<noteq> 0" "\<not> cs_crossed cs" "nb_post_allowed p"
              "unat c * unat (price_of (nb_order_id p)) * unat ?lot < 2 ^ 64"
              using amt x by auto
            show ?thesis unfolding if_P [OF True]
              by (rule outcome_and_then [OF post [OF c \<open>event_queue_ok q3\<close>]]) auto
          next
            case False
            then show ?thesis using k2 [OF \<open>event_queue_ok q3\<close>] by simp
          qed
        qed
      qed
    qed
  qed
qed

lemma new_bid_ok:
  assumes ob: "book_ok ob" and q: "event_queue_ok q" and p: "bid_params_ok p"
  shows "outcome full (\<lambda>(r, ob', q'). kept ob ob' q' \<and> remaining_ok bid_left r) (new_bid p ob q)"
proof -
  have lot: "ms_pc_lot_size (ob_market ob) \<noteq> 0" using ob by (simp add: book_ok_def)
  obtain net where net: "remove_taker_fee (nb_fee_tier p) (nb_native_pc_qty_locked p) = Inr net"
    by (rule remove_taker_fee_nat)
  have chk: "nb_post_allowed p \<longrightarrow> nb_limit_price p \<noteq> None"
    using p by (auto simp: bid_params_ok_def)
  have "outcome full (\<lambda>(r, ob', q'). kept ob ob' q' \<and> remaining_ok bid_left r)
     (and_then (bid_cross p m ob q) (\<lambda>(r, ob1, q1).
       case r of Inl returned \<Rightarrow> Inr (returned, ob1, q1) | Inr cs \<Rightarrow> bid_settle p m cs ob1 q1))" for m
    by (rule outcome_and_then [OF bid_cross_ok [OF ob q p]])
      (auto split: sum.splits intro!: bid_settle_ok [OF lot p])
  then show ?thesis
    using chk lot by (simp add: new_bid_def net u64_div_def)
qed

subsection \<open>Orders and requests\<close>

definition order_params_ok :: "market_state \<Rightarrow> new_order_params \<Rightarrow> bool" where
  "order_params_ok m p \<longleftrightarrow>
     no_max_coin_qty p \<noteq> 0 \<and>
     (case no_side p of
        Ask \<Rightarrow> no_native_pc_qty_locked p = None \<and> price_of (no_order_id p) \<noteq> 0 \<and>
          unat (no_max_coin_qty p) * unat (ms_coin_lot_size m) < 2 ^ 64
      | Bid \<Rightarrow> (\<exists>n. no_native_pc_qty_locked p = Some n \<and> n \<noteq> 0) \<and>
          (no_order_type p \<noteq> ImmediateOrCancel \<longrightarrow> price_of (no_order_id p) \<noteq> 0))"

abbreviation with_remaining :: "new_order_params \<Rightarrow> order_remaining \<Rightarrow> new_order_params" where
  "with_remaining p x \<equiv> p\<lparr>no_max_coin_qty := or_coin_qty_remaining x,
     no_native_pc_qty_locked := or_native_pc_qty_remaining x\<rparr>"

lemma new_order_step_ok:
  assumes ob: "book_ok ob" and q: "event_queue_ok q" and p: "order_params_ok (ob_market ob) p"
  shows "outcome full (\<lambda>(r, ob', q'). kept ob ob' q' \<and>
      remaining_ok (\<lambda>x. order_params_ok (ob_market ob') (with_remaining p x)) r) (new_order_step p ob q)"
proof (cases "no_side p")
  case Bid
  obtain n where n: "no_native_pc_qty_locked p = Some n" "n \<noteq> 0"
    using p Bid by (auto simp: order_params_ok_def)
  have fin: "order_params_ok m (with_remaining p x)" if "bid_left x" for m x
    using that p Bid by (auto simp: order_params_ok_def bid_left_def)
  have "outcome full (\<lambda>(r, ob', q'). kept ob ob' q' \<and>
      remaining_ok (\<lambda>x. order_params_ok (ob_market ob') (with_remaining p x)) r) (new_bid b ob q)"
    if "bid_params_ok b" for b
    by (rule outcome_imp [OF new_bid_ok [OF ob q that]]) (auto simp: remaining_ok_def fin split: option.splits)
  note step = this
  have pb: "no_max_coin_qty p \<noteq> 0" "no_order_type p \<noteq> ImmediateOrCancel \<longrightarrow> price_of (no_order_id p) \<noteq> 0"
    using p Bid by (simp_all add: order_params_ok_def)
  show ?thesis using n(1)
    by (cases "no_order_type p")
      (simp_all add: new_order_step_def Bid Let_def step bid_params_ok_def n(2) pb)
next
  case Ask
  have np: "no_native_pc_qty_locked p = None" "price_of (no_order_id p) \<noteq> 0"
    using p Ask by (auto simp: order_params_ok_def)
  have fin: "order_params_ok (ob_market ob') (with_remaining p x)"
    if "ask_left a x" "na_max_qty a = no_max_coin_qty p" "kept ob ob' q'" for a x ob' q'
  proof -
    have "unat (or_coin_qty_remaining x) * unat (ms_coin_lot_size (ob_market ob)) < 2 ^ 64"
      by (rule le_less_trans [of _ "unat (no_max_coin_qty p) * unat (ms_coin_lot_size (ob_market ob))"])
        (use p Ask that in \<open>auto simp: order_params_ok_def ask_left_def word_le_nat_alt intro: mult_right_mono\<close>)
    then show ?thesis using that np Ask
      by (auto simp: order_params_ok_def ask_left_def kept_def same_lots_def)
  qed
  have "outcome full (\<lambda>(r, ob', q'). kept ob ob' q' \<and>
      remaining_ok (\<lambda>x. order_params_ok (ob_market ob') (with_remaining p x)) r) (new_ask a ob q)"
    if "ask_params_ok (ob_market ob) a" "na_max_qty a = no_max_coin_qty p" for a
    by (rule outcome_imp [OF new_ask_ok [OF ob q that(1)]])
      (use that(2) fin in \<open>auto simp: remaining_ok_def split: option.splits\<close>)
  note step = this
  have pa: "no_max_coin_qty p \<noteq> 0"
    "unat (no_max_coin_qty p) * unat (ms_coin_lot_size (ob_market ob)) < 2 ^ 64"
    using p Ask by (simp_all add: order_params_ok_def)
  show ?thesis
    by (cases "no_order_type p")
      (simp_all add: new_order_step_def Ask Let_def step ask_params_ok_def np pa [simplified]
        nonzero_new_nonzero)
qed

lemma new_order_ok:
  "book_ok ob \<Longrightarrow> event_queue_ok q \<Longrightarrow> order_params_ok (ob_market ob) p \<Longrightarrow>
   outcome full (\<lambda>((r, l), ob', q'). kept ob ob' q' \<and> (0 < limit \<longrightarrow> l < limit) \<and>
      remaining_ok (\<lambda>x. order_params_ok (ob_market ob') (with_remaining p x)) r) (new_order limit p ob q)"
proof (induction limit arbitrary: p ob q)
  case 0
  then show ?case by (simp add: kept_def)
next
  case (Suc limit)
  show ?case unfolding new_order.simps
  proof (rule outcome_and_then [OF new_order_step_ok [OF Suc.prems]], goal_cases)
    case (1 x)
    obtain r ob1 q1 where x: "x = (r, ob1, q1)" by (cases x)
    have k: "kept ob ob1 q1" using 1(1) x by simp
    show ?case
    proof (cases "limit = 0 \<or> r = None")
      case True
      then show ?thesis using 1(1) x by auto
    next
      case False
      then obtain y where y: "r = Some y" "0 < limit" by auto
      have "outcome full (\<lambda>((r, l), ob', q'). kept ob1 ob' q' \<and> (0 < limit \<longrightarrow> l < limit) \<and>
        remaining_ok (\<lambda>x. order_params_ok (ob_market ob') (with_remaining (with_remaining p y) x)) r)
        (new_order limit (with_remaining p y) ob1 q1)"
        by (rule Suc.IH) (use 1(1) x y k in \<open>auto simp: kept_def\<close>)
      then have "outcome full (\<lambda>((r, l), ob', q'). kept ob ob' q' \<and> (0 < Suc limit \<longrightarrow> l < Suc limit) \<and>
        remaining_ok (\<lambda>x. order_params_ok (ob_market ob') (with_remaining p x)) r)
        (new_order limit (with_remaining p y) ob1 q1)"
        by (rule outcome_imp) (use k y(2) kept_trans in auto)
      then show ?thesis using x y by simp
    qed
  qed
qed

lemma cancel_order_ok:
  assumes ob: "book_ok ob" and q: "event_queue_ok q"
  shows "outcome full (\<lambda>(_, ob', q'). kept ob ob' q') (cancel_order sd oid ow slot cid ob q)"
proof -
  let ?s = "ob_orders sd ob"
  have side: "side_ok (ob_market ob) sd ?s" "slab_inv ?s" using book_ok_sides [OF ob] by simp_all
  obtain s1 where s1: "remove_by_key oid ?s = Inr (slab_orders ?s oid, s1)" "slab_inv s1"
    "slab_capacity s1 = slab_capacity ?s" "slab_orders s1 = (slab_orders ?s)(oid := None)"
    using remove_by_key_run [OF side(2)] by blast
  have s1ok: "side_ok (ob_market ob) sd s1"
    by (rule side_ok_sub [OF side(1) s1(2,3)])
      (use s1(4) ran_upd_subset [of "slab_orders ?s" oid None] in auto)
  have b1: "book_ok (ob_set_orders sd s1 ob)" by (rule book_ok_side [OF ob s1ok]) (use s1(4) in auto)
  show ?thesis
  proof (cases "slab_orders ?s oid")
    case None
    then show ?thesis using s1(1) b1 q by (simp add: cancel_order_def kept_def)
  next
    case (Some l)
    have lok: "leaf_ok (ob_market ob) sd l" by (rule side_ok_leaf [OF side(1) Some])
    have lk: "lf_key l = oid" using slab_orders_eq_Some [OF side(2)] Some by simp
    show ?thesis
    proof (cases "lf_owner l = ow \<and> lf_owner_slot l = slot")
      case True
      then show ?thesis using s1(1) Some b1
        by (cases sd) (auto simp: cancel_order_def leaf_price_ok [OF lok] kept_def
            intro!: outcome_and_then [OF push_ok [OF q]])
    next
      case False
      have "2 * card (dom (slab_orders ?s)) \<le> Suc (slab_capacity ?s)" by (rule capacity_bound [OF side(2)])
      moreover have "card (dom (slab_orders s1)) = card (dom (slab_orders ?s)) - 1" "oid \<in> dom (slab_orders ?s)"
        using s1(4) Some by (auto simp: domI)
      moreover from this have "card (dom (slab_orders ?s)) \<noteq> 0" by auto
      ultimately have room: "2 * card (dom (slab_orders s1)) < slab_capacity s1"
        unfolding s1(3) by linarith
      obtain s2 where s2: "insert_unwrap l s1 = Inr s2" "side_ok (ob_market ob) sd s2"
        "slab_orders s2 = (slab_orders s1)(lf_key l \<mapsto> l)"
        by (rule insert_room_ok [OF s1ok lok room])
      have "book_ok (ob_set_orders sd s2 ob)"
        by (rule book_ok_side [OF ob s2(2)]) (use s2(3) s1(4) lk Some in auto)
      then show ?thesis using s1(1) Some False s2(1) q by (auto simp: cancel_order_def kept_def)
    qed
  qed
qed

definition request_fit :: "market_state \<Rightarrow> request \<Rightarrow> bool" where
  "request_fit m r \<longleftrightarrow>
     (case request_as_view r of
        Inl _ \<Rightarrow> False
      | Inr (CancelOrderView v) \<Rightarrow> True
      | Inr (NewOrderView v) \<Rightarrow>
          nr_client_order_id v \<noteq> Some 0 \<and>
          order_params_ok m
           \<lparr>no_side = nr_side v, no_order_type = nr_order_type v, no_order_id = nr_order_id v,
            no_owner = nr_owner v, no_owner_slot = nr_owner_slot v, no_fee_tier = nr_fee_tier v,
            no_max_coin_qty = nr_max_coin_qty v,
            no_native_pc_qty_locked = nr_native_pc_qty_locked v,
            no_client_order_id = bits_of_option (nr_client_order_id v),
            no_self_trade_behavior = nr_self_trade_behavior v\<rparr>)"

lemma same_lots_request: "same_lots m m' \<Longrightarrow> request_fit m' r = request_fit m r"
  by (auto simp: request_fit_def order_params_ok_def same_lots_def split: sum.splits request_view.splits
      side.splits)

lemma order_params_pc: "order_params_ok m p \<Longrightarrow> no_native_pc_qty_locked p \<noteq> Some 0"
  by (cases "no_side p") (auto simp: order_params_ok_def)

lemma process_orderbook_request_ok:
  assumes ob: "book_ok ob" and q: "event_queue_ok q" and r: "request_fit (ob_market ob) r" and l: "0 < limit"
  shows "outcome full (\<lambda>((rem, l'), ob', q'). kept ob ob' q' \<and> l' < limit \<and>
      (\<forall>r'. rem = Some r' \<longrightarrow> request_fit (ob_market ob') r')) (process_orderbook_request r limit ob q)"
proof -
  obtain view where v: "request_as_view r = Inr view" using r by (auto simp: request_fit_def split: sum.splits)
  show ?thesis
  proof (cases view)
    case (CancelOrderView c)
    then show ?thesis unfolding process_orderbook_request_def v
      using l by (auto intro!: outcome_and_then [OF cancel_order_ok [OF ob q]])
  next
    case (NewOrderView n)
    let ?p = "\<lparr>no_side = nr_side n, no_order_type = nr_order_type n, no_order_id = nr_order_id n,
            no_owner = nr_owner n, no_owner_slot = nr_owner_slot n, no_fee_tier = nr_fee_tier n,
            no_max_coin_qty = nr_max_coin_qty n,
            no_native_pc_qty_locked = nr_native_pc_qty_locked n,
            no_client_order_id = bits_of_option (nr_client_order_id n),
            no_self_trade_behavior = nr_self_trade_behavior n\<rparr>"
    have p: "order_params_ok (ob_market ob) ?p" "nr_client_order_id n \<noteq> Some 0"
      using r v NewOrderView by (simp_all add: request_fit_def)
    have fit: "request_fit m (request_new (NewOrderView
        (n\<lparr>nr_max_coin_qty := or_coin_qty_remaining x, nr_native_pc_qty_locked := or_native_pc_qty_remaining x\<rparr>)))"
      if "order_params_ok m (with_remaining ?p x)" for m x
    proof -
      let ?n = "n\<lparr>nr_max_coin_qty := or_coin_qty_remaining x,
        nr_native_pc_qty_locked := or_native_pc_qty_remaining x\<rparr>"
      have "request_view_ok (NewOrderView ?n)"
        using order_params_pc [OF that] that p(2) by (simp add: request_view_ok_def order_params_ok_def)
      then show ?thesis using that p(2) by (simp add: request_fit_def request_as_view_new)
    qed
    show ?thesis
      unfolding process_orderbook_request_def v and_then_simps NewOrderView request_view.case
      by (rule outcome_and_then [OF new_order_ok [OF ob q p(1)]])
        (use fit l in \<open>auto simp: remaining_ok_def split: option.splits\<close>)
  qed
qed

end
