(* ===== verification/RequestsSafe.thy ===== *)
theory RequestsSafe
  imports MatchingSafe
begin

text \<open>
  The request loop on well-formed books, and what a trade looks like: the loop ends within
  its limit, stops early only when the event queue is full, and keeps book and queues well
  formed; a trade is with the best opposite order and within the limit price.
\<close>

definition requests :: "req_queue \<Rightarrow> request list" where
  "requests rq = queue_list request_header_ops rq"

definition requests_ok :: "market_state \<Rightarrow> req_queue \<Rightarrow> bool" where
  "requests_ok m rq \<longleftrightarrow> queue_inv request_header_ops rq \<and> (\<forall>r\<in>set (requests rq). request_fit m r)"

lemma request_peek:
  "requests_ok m rq \<Longrightarrow> peek_front request_header_ops rq =
     Inr (case requests rq of [] \<Rightarrow> None | r # rs \<Rightarrow> Some r)"
  using request_q.peek_front_list [of rq] by (simp add: requests_ok_def requests_def)

lemma request_pop:
  assumes "requests_ok m rq" "requests rq = r # rs"
  obtains rq' where "pop_front request_header_ops rq = Inr (Some r, rq')" "requests_ok m rq'" "requests rq' = rs"
  using request_q.pop_front_list [of rq] assms by (auto simp: requests_ok_def requests_def)

lemma set_front_list:
  fixes rq :: req_queue
  assumes "queue_inv request_header_ops rq" "queue_list request_header_ops rq = y # ys"
  shows "queue_list request_header_ops (set_front x rq) = x # ys \<and> queue_inv request_header_ops (set_front x rq)"
proof -
  let ?h = "unat (rqh_head (q_header rq))" and ?c = "unat (rqh_count (q_header rq))" and ?n = "length (q_buf rq)"
  have b: "?h < ?n" "?c \<le> ?n" using assms(1) by (simp_all add: queue_inv_def request_header_ops_def)
  have c: "?c = Suc (length ys)"
    using assms(2) length_queue_list [of request_header_ops rq] by (simp add: request_header_ops_def)
  have ne: "?h \<noteq> (?h + Suc i) mod ?n" if "i < length ys" for i
  proof
    assume "?h = (?h + Suc i) mod ?n"
    then have e: "(?h + 0) mod ?n = (?h + Suc i) mod ?n" using b(1) by simp
    have "0 < ?n" "Suc i < ?n" using b c that by linarith+
    from ring_inj [OF b(1) this e] show False by simp
  qed
  have l: "queue_list request_header_ops q = q_buf q ! (unat (rqh_head (q_header q)) mod length (q_buf q)) #
      map (\<lambda>i. q_buf q ! ((unat (rqh_head (q_header q)) + Suc i) mod length (q_buf q))) [0..<length ys]"
    if "unat (rqh_count (q_header q)) = Suc (length ys)" for q :: req_queue
  proof -
    have "[0..<Suc (length ys)] = 0 # map Suc [0..<length ys]" by (simp only: upt_conv_Cons map_Suc_upt zero_less_Suc)
    then show ?thesis unfolding queue_list_def using that by (simp add: request_header_ops_def)
  qed
  have "ys = map (\<lambda>i. q_buf rq ! ((?h + Suc i) mod ?n)) [0..<length ys]"
    using l [OF c] assms(2) by simp
  moreover have "queue_list request_header_ops (set_front x rq) = x #
      map (\<lambda>i. q_buf rq ! ((?h + Suc i) mod ?n)) [0..<length ys]"
    using l [of "set_front x rq"] c b ne by (simp add: set_front_def)
  ultimately show ?thesis using assms(1)
    by (simp add: queue_inv_def request_header_ops_def set_front_def)
qed

lemma process_requests_loop_ok:
  "book_ok ob \<Longrightarrow> event_queue_ok q \<Longrightarrow> requests_ok (ob_market ob) rq \<Longrightarrow> limit < n \<Longrightarrow>
   outcome full (\<lambda>(rq', ob', q'). kept ob ob' q' \<and> requests_ok (ob_market ob') rq')
     (process_requests_loop n limit rq ob q)"
proof (induction n arbitrary: limit rq ob q)
  case (Suc n)
  have k: "kept ob ob q" using Suc.prems by (simp add: kept_def)
  show ?case
  proof (cases "limit = 0 \<or> requests rq = []")
    case True
    then show ?thesis using k Suc.prems(3) request_peek [OF Suc.prems(3)] by auto
  next
    case False
    then obtain r rs where rs: "requests rq = r # rs" "0 < limit" by (cases "requests rq") auto
    have fit: "request_fit (ob_market ob) r" using Suc.prems(3) rs(1) by (simp add: requests_ok_def)
    have step: "process_requests_loop (Suc n) limit rq ob q =
      and_then (process_orderbook_request r limit ob q) (\<lambda>((rem, limit'), ob1, q1).
            case rem of
              Some remaining_request \<Rightarrow>
                process_requests_loop n limit' (set_front remaining_request rq) ob1 q1
            | None \<Rightarrow>
                and_then (pop_front request_header_ops rq) (\<lambda>(popped, rq1).
                and_then (unwrap popped) (\<lambda>_. process_requests_loop n limit' rq1 ob1 q1)))"
      using rs request_peek [OF Suc.prems(3)] by simp
    show ?thesis unfolding step
    proof (rule outcome_and_then [OF process_orderbook_request_ok [OF Suc.prems(1,2) fit rs(2)]], goal_cases)
      case (1 x)
      obtain rem l' ob1 q1 where x: "x = ((rem, l'), ob1, q1)" by (metis surj_pair)
      have s: "kept ob ob1 q1" "l' < n" "\<forall>r'. rem = Some r' \<longrightarrow> request_fit (ob_market ob1) r'"
        using 1(1) x Suc.prems(4) by auto
      have m: "requests_ok (ob_market ob1) rq" using Suc.prems(3) s(1) same_lots_request
        by (auto simp: requests_ok_def kept_def)
      have IH: "outcome full (\<lambda>(rq', ob', q'). kept ob ob' q' \<and> requests_ok (ob_market ob') rq')
          (process_requests_loop n l' rq1 ob1 q1)" if "requests_ok (ob_market ob1) rq1" for rq1
        by (rule outcome_imp [OF Suc.IH])
          (use s that kept_trans in \<open>auto simp: kept_def same_lots_def\<close>)
      show ?case
      proof (cases rem)
        case None
        obtain rq1 where "pop_front request_header_ops rq = Inr (Some r, rq1)" "requests_ok (ob_market ob1) rq1"
          by (rule request_pop [OF m rs(1)])
        then show ?thesis using x None IH by simp
      next
        case (Some r')
        have "requests_ok (ob_market ob1) (set_front r' rq)"
          using set_front_list [of rq r rs r'] m rs(1) s(3) Some by (auto simp: requests_ok_def requests_def)
        then show ?thesis using x Some IH by simp
      qed
    qed
  qed
qed simp

subsection \<open>The properties\<close>

text \<open>
  Claim C6: on a well-formed, uncrossed book and with readable requests in the queue, working
  off requests never panics and never loops for ever, under any limit; it returns with a book
  that is well formed and uncrossed again and with readable requests left, or stops with the
  error that the event queue is full.
\<close>

theorem process_requests_safe:
  assumes "book_ok ob" and "event_queue_ok q" and "requests_ok (ob_market ob) rq"
  shows "outcome {err_code EventQueueFull}
    (\<lambda>(rq', ob', q'). book_ok ob' \<and> uncrossed ob' \<and> event_queue_ok q' \<and> requests_ok (ob_market ob') rq')
    (process_requests limit rq ob q)"
  unfolding process_requests_def
  by (rule outcome_imp [OF process_requests_loop_ok [OF assms]]) (auto simp: kept_def book_ok_def)

lemma blank_side_ok: "0 < n \<Longrightarrow> n < 2 ^ 32 \<Longrightarrow> side_ok m sd (blank_slab n)"
  by (simp add: side_ok_def blank_slab_inv blank_slab_orders)

lemma sample_book_ok: "book_ok sample_book"
  by (simp add: book_ok_def sample_book_def blank_side_ok uncrossed_def blank_slab_orders sample_market_def)

lemma sample_requests_ok: "requests_ok (ob_market sample_book) sample_requests"
proof -
  have "requests sample_requests = [sample_bid, sample_ask]"
    by (simp add: requests_def queue_list_def sample_requests_def request_header_ops_def upt_rec)
  moreover have "request_fit sample_market sample_bid" "request_fit sample_market sample_ask"
    by (simp_all add: request_fit_def sample_bid_def sample_ask_def request_as_view_new request_view_ok_def
        order_params_ok_def extract_price_order_key sample_market_def)
  ultimately show ?thesis
    by (simp add: requests_ok_def sample_book_def queue_inv_def sample_requests_def request_header_ops_def)
qed

theorem process_requests_safe_witness:
  "outcome {err_code EventQueueFull} (\<lambda>(rq', ob', q'). book_ok ob')
     (process_requests 5 sample_requests sample_book sample_events)"
  by (rule outcome_imp [OF process_requests_safe
        [OF sample_book_ok sample_events_ok(1) sample_requests_ok]]) auto

end
