(* ===== verification/BestPrice.thy ===== *)
theory BestPrice
  imports RequestsSafe
begin

text \<open>
  What a trade looks like: every maker's fill that a new order causes is with the best order
  of the opposite side, at a price within the taker's limit, of another owner, and never for
  a post-only order.
\<close>

definition emits :: "(event_view \<Rightarrow> bool) \<Rightarrow> event_queue \<Rightarrow> event_queue \<Rightarrow> bool" where
  "emits P q q' \<longleftrightarrow>
     event_queue_ok q' \<and> (\<exists>vs. events q' = events q @ map event_new vs \<and> (\<forall>v\<in>set vs. P v))"

lemma emits_refl: "event_queue_ok q \<Longrightarrow> emits P q q"
  by (auto simp: emits_def)

lemma emits_trans: "emits P q q1 \<Longrightarrow> emits P q1 q2 \<Longrightarrow> emits P q q2"
  unfolding emits_def by (elim conjE exE, intro conjI) (assumption, rule_tac x = "vs @ vsa" in exI, auto)

lemma emits_push: "push_event v q = Inr q' \<Longrightarrow> event_queue_ok q \<Longrightarrow> P v \<Longrightarrow> emits P q q'"
  using push_event_Inr [of v q q'] by (auto simp: emits_def intro!: exI [of _ "[v]"])

lemma emits_ok: "emits P q q' \<Longrightarrow> event_queue_ok q'"
  by (simp add: emits_def)

text \<open>Only the maker's fills are constrained.\<close>

definition maker_fills :: "(fill_event \<Rightarrow> bool) \<Rightarrow> event_view \<Rightarrow> bool" where
  "maker_fills P v = (case v of Fill f \<Rightarrow> fe_maker f \<longrightarrow> P f | Out _ \<Rightarrow> True)"

lemma maker_fills_out [simp]:
  "maker_fills P (leaf_out sd l x y)" "maker_fills P (ask_out p x y)" "maker_fills P (bid_out b x y)"
  "maker_fills P (bid_take_out b rem x y)"
  by (cases rem; simp add: maker_fills_def leaf_out_def ask_out_def bid_out_def bid_take_out_def)+

lemma emits_step:
  assumes "emits (maker_fills P) q q1" "push_event v q1 = Inr q2" "maker_fills P v"
  shows "emits (maker_fills P) q q2"
  by (rule emits_trans [OF assms(1) emits_push [where P = "maker_fills P", OF assms(2) emits_ok [OF assms(1)] assms(3)]])

lemma post_order_emits:
  assumes "post_order sd rw ul l ob q = Inr (u, ob', q')" "event_queue_ok q"
  shows "emits (maker_fills P) q q'"
proof -
  obtain r s1 where i: "insert_leaf l (ob_orders sd ob) = Inr (r, s1)"
    using assms(1) by (cases "insert_leaf l (ob_orders sd ob)") (auto simp: post_order_def)
  show ?thesis
  proof (cases r)
    case (Inr x)
    then show ?thesis using assms i emits_refl by (auto simp: post_order_def)
  next
    case (Inl e)
    then obtain order x where "push_event (leaf_out sd order x 0) q = Inr q'"
      using assms(1) i by (cases e) (auto simp: post_order_def res_simps split: prod.splits)
    then show ?thesis using emits_push assms(2) by simp
  qed
qed

subsection \<open>Asks\<close>

definition ask_meets :: "new_ask_params \<Rightarrow> order_book \<Rightarrow> fill_event \<Rightarrow> bool" where
  "ask_meets p ob f \<longleftrightarrow>
     \<not> na_post_only p \<and> na_limit_price p \<le> price_of (fe_order_id f) \<and> fe_owner f \<noteq> na_owner p \<and>
     (\<forall>k\<in>dom (slab_orders (ob_bids ob)). k \<le> fe_order_id f) \<and>
     (\<exists>l. slab_orders (ob_bids ob) (fe_order_id f) = Some l \<and> fe_owner f = lf_owner l \<and>
        fe_native_qty_received f =
          min (lf_quantity l) (na_max_qty p) * ms_coin_lot_size (ob_market ob))"

lemma ask_cross_emits:
  assumes "slab_inv (ob_bids ob)" "event_queue_ok q" "ask_cross p ob q = Inr (r, ob', q')"
  shows "emits (maker_fills (ask_meets p ob)) q q'"
proof -
  obtain best where b: "best_order Bid ob = Inr best"
    "case best of None \<Rightarrow> slab_orders (ob_bids ob) = Map.empty
     | Some (h, l) \<Rightarrow> slab_holds (ob_bids ob) h l \<and> slab_orders (ob_bids ob) (lf_key l) = Some l
        \<and> (\<forall>k\<in>dom (slab_orders (ob_bids ob)). key_before True (lf_key l) k)"
    using best_bid_ok [OF assms(1)] unfolding outcome_total by blast
  show ?thesis
  proof (cases best)
    case None
    then show ?thesis using assms(2,3) b by (auto simp: ask_cross_def emits_refl)
  next
    case (Some hl)
    obtain h l where hl: "hl = (h, l)" by (cases hl)
    obtain tp where tp: "leaf_price l = Inr tp"
      using assms(3) b Some hl by (cases "leaf_price l") (auto simp: ask_cross_def)
    then have tpk: "tp = price_of (lf_key l)"
      by (auto simp: leaf_price_def extract_price_from_order_id_def res_simps)
    let ?tq = "min (lf_quantity l) (na_max_qty p)"
    consider (rest) "q' = q"
      | (self) r' where "ask_self_trade p h l tp ?tq ob q = Inr (r', ob', q')"
      | (fill) cs where "ask_fill p h l tp ?tq ob q = Inr (cs, ob', q')" "na_limit_price p \<le> tp"
          "\<not> na_post_only p" "na_owner p \<noteq> lf_owner l"
      using assms(3) b Some hl tp by (auto simp: ask_cross_def Let_def res_simps split: if_splits)
    then show ?thesis
    proof cases
      case rest
      then show ?thesis using assms(2) by (simp add: emits_refl)
    next
      case self
      then obtain q1 x y z w where "push_event (leaf_out Bid l x y) q = Inr q1"
        "push_event (ask_out p z w) q1 = Inr q'"
        by (auto simp: ask_self_trade_def Let_def res_simps split: prod.splits)
      then show ?thesis using emits_step [OF emits_push] assms(2) by simp
    next
      case fill
      then obtain f q1 where f: "push_event (Fill f) q = Inr q1"
        "fe_order_id f = lf_key l" "fe_owner f = lf_owner l"
        "fe_native_qty_received f = ?tq * ms_coin_lot_size (ob_market ob)"
        "q' = q1 \<or> push_event (leaf_out Bid l 0 0) q1 = Inr q'"
        by (auto simp: ask_fill_def Let_def res_simps split: if_splits)
      have "ask_meets p ob f" using f fill(2-4) b(2) Some hl tpk by (auto simp: ask_meets_def key_before_def)
      then have "emits (maker_fills (ask_meets p ob)) q q1"
        using emits_push [OF f(1) assms(2)] by (simp add: maker_fills_def)
      then show ?thesis using f(5) emits_step by auto
    qed
  qed
qed

lemma ask_settle_emits:
  assumes "ask_settle p cs ob q = Inr (r, ob', q')" "event_queue_ok q"
  shows "emits (maker_fills P) q q'"
proof -
  obtain f q2 where f: "push_event (Fill f) q = Inr q2 \<or> q2 = q" "\<not> fe_maker f"
    and rest: "q' = q2
      \<or> (\<exists>rw ul l u ob2. post_order Ask rw ul l ob2 q2 = Inr (u, ob', q'))
      \<or> (\<exists>x. push_event (ask_out p x 0) q2 = Inr q')"
  proof -
    let ?pc = "cs_pc cs * ms_pc_lot_size (ob_market ob)"
    let ?fee = "taker_fee (na_fee_tier p) ?pc"
    let ?f = "\<lparr>fe_side = Ask, fe_maker = False,
              fe_native_qty_paid = (na_max_qty p - cs_coin cs) * ms_coin_lot_size (ob_market ob),
              fe_native_qty_received = ?pc - ?fee, fe_native_fee_or_rebate = ?fee,
              fe_order_id = na_order_id p, fe_owner = na_owner p,
              fe_owner_slot = na_owner_slot p, fe_fee_tier = na_fee_tier p,
              fe_client_order_id = nonzero_new (na_client_order_id p)\<rparr>"
    let ?q2 = "if 0 < ?pc then projr (push_event (Fill ?f) q) else q"
    show thesis
    proof (rule that)
      show "push_event (Fill ?f) q = Inr ?q2 \<or> ?q2 = q"
        using assms(1) by (auto simp: ask_settle_def Let_def res_simps split: if_splits)
      show "\<not> fe_maker ?f" by simp
      show "q' = ?q2
        \<or> (\<exists>rw ul l u ob2. post_order Ask rw ul l ob2 ?q2 = Inr (u, ob', q'))
        \<or> (\<exists>x. push_event (ask_out p x 0) ?q2 = Inr q')"
        using assms(1) by (auto simp: ask_settle_def Let_def res_simps split: if_splits)
    qed
  qed
  have e: "emits (maker_fills P) q q2"
    using f emits_refl [OF assms(2)] emits_push [OF _ assms(2)] by (auto simp: maker_fills_def)
  show ?thesis
    using rest e emits_trans [OF e post_order_emits [OF _ emits_ok [OF e]]] emits_step [OF e] by auto
qed

text \<open>
  Claim C29: every maker's fill caused by a new ask is with the bid of the greatest id, which is
  of another owner, priced at the ask's limit or above, and pays out the smaller of the two
  quantities; a post-only ask causes none.
\<close>

theorem ask_trades_at_best_bid:
  assumes "slab_inv (ob_bids ob)" and "event_queue_ok q" and "new_ask p ob q = Inr (r, ob', q')"
  shows "\<exists>vs. events q' = events q @ map event_new vs \<and>
    (\<forall>f. Fill f \<in> set vs \<and> fe_maker f \<longrightarrow> ask_meets p ob f)"
proof -
  obtain x ob1 q1 where c: "ask_cross p ob q = Inr (x, ob1, q1)"
    using assms(3) by (cases "ask_cross p ob q") (auto simp: new_ask_def)
  have e: "emits (maker_fills (ask_meets p ob)) q q1" by (rule ask_cross_emits [OF assms(1,2) c])
  have "emits (maker_fills (ask_meets p ob)) q q'"
  proof (cases x)
    case (Inl a)
    then show ?thesis using assms(3) c e by (simp add: new_ask_def)
  next
    case (Inr cs)
    then have "ask_settle p cs ob1 q1 = Inr (r, ob', q')" using assms(3) c by (simp add: new_ask_def)
    then show ?thesis by (rule emits_trans [OF e ask_settle_emits [OF _ emits_ok [OF e]]])
  qed
  then show ?thesis by (auto simp: emits_def maker_fills_def) (metis (no_types) event_view.simps(5))
qed

definition sample_resting_bid :: leaf_node where
  "sample_resting_bid = leaf_node_new 0 (order_key 7 Bid 1) (1, 1, 1, 1) 2 Base 0"

definition sample_bid_book :: order_book where
  "sample_bid_book = sample_book
     \<lparr>ob_bids := snd (projr (insert_leaf sample_resting_bid (blank_slab 5)))\<rparr>"

lemma sample_bid_book_inv: "slab_inv (ob_bids sample_bid_book)"
  using insert_leaf_run [OF blank_slab_inv [of 5], of sample_resting_bid]
  by (auto simp: sample_bid_book_def)

lemma sample_ask_run:
  "case new_ask sample_ask_params sample_bid_book sample_events of
     Inl _ \<Rightarrow> False | Inr (r, ob, q) \<Rightarrow> length (events q) = 3"
  by code_simp

theorem ask_trades_at_best_bid_witness:
  "\<exists>r ob q vs. new_ask sample_ask_params sample_bid_book sample_events = Inr (r, ob, q)
     \<and> events q = map event_new vs \<and> length vs = 3
     \<and> (\<forall>f. Fill f \<in> set vs \<and> fe_maker f \<longrightarrow> ask_meets sample_ask_params sample_bid_book f)"
proof -
  obtain r ob q where n: "new_ask sample_ask_params sample_bid_book sample_events = Inr (r, ob, q)"
    "length (events q) = 3"
    using sample_ask_run by (auto split: sum.splits)
  show ?thesis
    using ask_trades_at_best_bid [OF sample_bid_book_inv sample_events_ok(1) n(1)] n
      sample_events_ok(2) by auto
qed

subsection \<open>Bids\<close>

definition bid_lots :: "new_bid_params \<Rightarrow> market_state \<Rightarrow> u64" where
  "bid_lots p m = projr (remove_taker_fee (nb_fee_tier p) (nb_native_pc_qty_locked p)) div ms_pc_lot_size m"

definition bid_meets :: "new_bid_params \<Rightarrow> order_book \<Rightarrow> fill_event \<Rightarrow> bool" where
  "bid_meets p ob f \<longleftrightarrow>
     \<not> nb_post_only p \<and> fe_owner f \<noteq> nb_owner p \<and>
     (\<forall>price. nb_limit_price p = Some price \<longrightarrow> price_of (fe_order_id f) \<le> price) \<and>
     (\<forall>k\<in>dom (slab_orders (ob_asks ob)). fe_order_id f \<le> k) \<and>
     (\<exists>l. slab_orders (ob_asks ob) (fe_order_id f) = Some l \<and> fe_owner f = lf_owner l \<and>
        fe_native_qty_paid f =
          min (min (lf_quantity l) (nb_max_coin_qty p))
              (bid_lots p (ob_market ob) div price_of (fe_order_id f)) * ms_coin_lot_size (ob_market ob))"

lemma bid_cross_emits:
  assumes "slab_inv (ob_asks ob)" "event_queue_ok q"
    "bid_cross p (bid_lots p (ob_market ob)) ob q = Inr (r, ob', q')"
  shows "emits (maker_fills (bid_meets p ob)) q q'"
proof -
  let ?m = "bid_lots p (ob_market ob)"
  obtain best where b: "best_order Ask ob = Inr best"
    "case best of None \<Rightarrow> slab_orders (ob_asks ob) = Map.empty
     | Some (h, l) \<Rightarrow> slab_holds (ob_asks ob) h l \<and> slab_orders (ob_asks ob) (lf_key l) = Some l
        \<and> (\<forall>k\<in>dom (slab_orders (ob_asks ob)). key_before False (lf_key l) k)"
    using best_ask_ok [OF assms(1)] unfolding outcome_total by blast
  show ?thesis
  proof (cases best)
    case None
    then show ?thesis using assms(2,3) b by (auto simp: bid_cross_def emits_refl)
  next
    case (Some hl)
    obtain h l where hl: "hl = (h, l)" by (cases hl)
    obtain tp where tp: "leaf_price l = Inr tp"
      using assms(3) b Some hl by (cases "leaf_price l") (auto simp: bid_cross_def)
    then have tpk: "tp = price_of (lf_key l)"
      by (auto simp: leaf_price_def extract_price_from_order_id_def res_simps)
    let ?tq = "min (min (lf_quantity l) (nb_max_coin_qty p)) (?m div tp)"
    consider (rest) "q' = q"
      | (self) r' where "bid_self_trade p h l tp ?tq ob q = Inr (r', ob', q')"
      | (fill) cs where "bid_fill p ?m h l tp ?tq ob q = Inr (cs, ob', q')"
          "\<forall>price. nb_limit_price p = Some price \<longrightarrow> tp \<le> price" "\<not> nb_post_only p"
          "nb_owner p \<noteq> lf_owner l"
      using assms(3) b Some hl tp
      by (auto simp: bid_cross_def Let_def res_simps split: if_splits option.splits)
    then show ?thesis
    proof cases
      case rest
      then show ?thesis using assms(2) by (simp add: emits_refl)
    next
      case self
      then obtain q1 x y z w where "push_event (leaf_out Ask l x y) q = Inr q1"
        "push_event (bid_take_out p r' z w) q1 = Inr q'"
        by (auto simp: bid_self_trade_def Let_def res_simps split: prod.splits)
      then show ?thesis using emits_step [OF emits_push] assms(2) by simp
    next
      case fill
      then obtain f q1 where f: "push_event (Fill f) q = Inr q1"
        "fe_order_id f = lf_key l" "fe_owner f = lf_owner l"
        "fe_native_qty_paid f = ?tq * ms_coin_lot_size (ob_market ob)"
        "q' = q1 \<or> push_event (leaf_out Ask l 0 0) q1 = Inr q'"
        by (auto simp: bid_fill_def Let_def res_simps split: if_splits)
      have "bid_meets p ob f" using f fill(2-4) b(2) Some hl tpk by (auto simp: bid_meets_def key_before_def)
      then have "emits (maker_fills (bid_meets p ob)) q q1"
        using emits_push [OF f(1) assms(2)] by (simp add: maker_fills_def)
      then show ?thesis using f(5) emits_step by auto
    qed
  qed
qed

lemma bid_settle_emits:
  assumes "bid_settle p m cs ob q = Inr (r, ob', q')" "event_queue_ok q"
  shows "emits (maker_fills P) q q'"
proof -
  obtain f q2 where f: "push_event (Fill f) q = Inr q2 \<or> q2 = q" "\<not> fe_maker f"
    and rest: "q' = q2
      \<or> (\<exists>x y q3. push_event (bid_out p x y) q2 = Inr q3 \<and>
           (q' = q3 \<or> (\<exists>rw ul l u ob2. post_order Bid rw ul l ob2 q3 = Inr (u, ob', q'))))"
  proof -
    let ?pc = "(m - cs_pc cs) * ms_pc_lot_size (ob_market ob)"
    let ?fee = "taker_fee (nb_fee_tier p) ?pc"
    let ?f = "\<lparr>fe_side = Bid, fe_maker = False,
              fe_native_qty_paid = ?pc + ?fee,
              fe_native_qty_received = (nb_max_coin_qty p - cs_coin cs) * ms_coin_lot_size (ob_market ob),
              fe_native_fee_or_rebate = ?fee,
              fe_order_id = nb_order_id p, fe_owner = nb_owner p,
              fe_owner_slot = nb_owner_slot p, fe_fee_tier = nb_fee_tier p,
              fe_client_order_id = nonzero_new (nb_client_order_id p)\<rparr>"
    let ?q2 = "if 0 < ?pc then projr (push_event (Fill ?f) q) else q"
    show thesis
    proof (rule that)
      show "push_event (Fill ?f) q = Inr ?q2 \<or> ?q2 = q"
        using assms(1) by (auto simp: bid_settle_def Let_def res_simps split: if_splits)
      show "\<not> fe_maker ?f" by simp
      show "q' = ?q2
        \<or> (\<exists>x y q3. push_event (bid_out p x y) ?q2 = Inr q3 \<and>
           (q' = q3 \<or> (\<exists>rw ul l u ob2. post_order Bid rw ul l ob2 q3 = Inr (u, ob', q'))))"
        using assms(1) by (auto simp: bid_settle_def Let_def res_simps split: if_splits) blast+
    qed
  qed
  have e: "emits (maker_fills P) q q2"
    using f emits_refl [OF assms(2)] emits_push [OF _ assms(2)] by (auto simp: maker_fills_def)
  show ?thesis
  proof (cases "q' = q2")
    case True
    then show ?thesis using e by simp
  next
    case False
    then obtain x y q3 where o: "push_event (bid_out p x y) q2 = Inr q3"
      and post: "q' = q3 \<or> (\<exists>rw ul l u ob2. post_order Bid rw ul l ob2 q3 = Inr (u, ob', q'))"
      using rest by blast
    have e3: "emits (maker_fills P) q q3" by (rule emits_step [OF e o]) simp
    show ?thesis using post e3 emits_trans [OF e3 post_order_emits [OF _ emits_ok [OF e3]]] by blast
  qed
qed

text \<open>
  Claim C30: every maker's fill caused by a new bid is with the ask of the least id, which is of
  another owner and, when the bid has a limit, priced at the limit or below; its quantity is
  the least of the two orders' quantities and what the locked funds net of the taker fee
  can pay for; a post-only bid causes none.
\<close>

theorem bid_trades_at_best_ask:
  assumes "slab_inv (ob_asks ob)" and "event_queue_ok q" and "new_bid p ob q = Inr (r, ob', q')"
  shows "\<exists>vs. events q' = events q @ map event_new vs \<and>
    (\<forall>f. Fill f \<in> set vs \<and> fe_maker f \<longrightarrow> bid_meets p ob f)"
proof -
  let ?m = "bid_lots p (ob_market ob)"
  have m: "and_then (bid_cross p ?m ob q) (\<lambda>(r, ob1, q1).
     case r of Inl returned \<Rightarrow> Inr (returned, ob1, q1) | Inr cs \<Rightarrow> bid_settle p ?m cs ob1 q1) = Inr (r, ob', q')"
  proof -
    obtain net where net: "remove_taker_fee (nb_fee_tier p) (nb_native_pc_qty_locked p) = Inr net"
      "ms_pc_lot_size (ob_market ob) \<noteq> 0"
      using assms(3)
      by (cases "remove_taker_fee (nb_fee_tier p) (nb_native_pc_qty_locked p)")
        (auto simp: new_bid_def u64_div_def res_simps split: if_splits)
    have lots: "?m = net div ms_pc_lot_size (ob_market ob)" by (simp add: bid_lots_def net)
    show ?thesis unfolding lots using assms(3) net
      by (cases "nb_post_allowed p \<longrightarrow> nb_limit_price p \<noteq> None")
        (simp_all add: new_bid_def u64_div_def check_assert_def)
  qed
  obtain x ob1 q1 where c: "bid_cross p ?m ob q = Inr (x, ob1, q1)"
    using m by (cases "bid_cross p ?m ob q") auto
  have e: "emits (maker_fills (bid_meets p ob)) q q1" by (rule bid_cross_emits [OF assms(1,2) c])
  have "emits (maker_fills (bid_meets p ob)) q q'"
  proof (cases x)
    case (Inl a)
    then show ?thesis using m c e by simp
  next
    case (Inr cs)
    then have "bid_settle p ?m cs ob1 q1 = Inr (r, ob', q')" using m c by simp
    then show ?thesis by (rule emits_trans [OF e bid_settle_emits [OF _ emits_ok [OF e]]])
  qed
  then show ?thesis by (auto simp: emits_def maker_fills_def) (metis (no_types) event_view.simps(5))
qed

definition sample_resting_ask :: leaf_node where
  "sample_resting_ask = leaf_node_new 0 (order_key 6 Ask 1) (1, 1, 1, 1) 2 Base 0"

definition sample_ask_book :: order_book where
  "sample_ask_book = sample_book
     \<lparr>ob_asks := snd (projr (insert_leaf sample_resting_ask (blank_slab 5)))\<rparr>"

definition sample_bid_params :: new_bid_params where
  "sample_bid_params =
     \<lparr>nb_max_coin_qty = 3, nb_native_pc_qty_locked = 3000, nb_limit_price = Some 7,
      nb_order_id = order_key 7 Bid 2, nb_owner = (2, 2, 2, 2), nb_owner_slot = 0,
      nb_fee_tier = Base, nb_post_only = False, nb_post_allowed = False, nb_client_order_id = 0,
      nb_self_trade_behavior = DecrementTake\<rparr>"

lemma sample_ask_book_inv: "slab_inv (ob_asks sample_ask_book)"
  using insert_leaf_run [OF blank_slab_inv [of 5], of sample_resting_ask]
  by (auto simp: sample_ask_book_def)

lemma sample_bid_run:
  "case new_bid sample_bid_params sample_ask_book sample_events of
     Inl _ \<Rightarrow> False | Inr (r, ob, q) \<Rightarrow> length (events q) = 3"
  by code_simp

theorem bid_trades_at_best_ask_witness:
  "\<exists>r ob q vs. new_bid sample_bid_params sample_ask_book sample_events = Inr (r, ob, q)
     \<and> events q = map event_new vs \<and> length vs = 3
     \<and> (\<forall>f. Fill f \<in> set vs \<and> fe_maker f \<longrightarrow> bid_meets sample_bid_params sample_ask_book f)"
proof -
  obtain r ob q where n: "new_bid sample_bid_params sample_ask_book sample_events = Inr (r, ob, q)"
    "length (events q) = 3"
    using sample_bid_run by (auto split: sum.splits)
  show ?thesis
    using bid_trades_at_best_ask [OF sample_ask_book_inv sample_events_ok(1) n(1)] n
      sample_events_ok(2) by auto
qed

end
