(* ===== verification/EventRoom.thy ===== *)
theory EventRoom
  imports MatchingCorrect
begin

text \<open>
  Room in the event queue.  Matching stops with \<open>EventQueueFull\<close> only where it pushes an
  event, and one unit of the limit pushes at most five: the fill and the removal of the maker,
  the fill and the end of the taker, and the removal of an order that makes room.  The proof
  hands each function a credit of events to push, which it returns in part: a function that
  starts with room for its credit does not fail for lack of room, and leaves room for what it
  returns.
\<close>

definition quiet :: "dex_fault + 'a \<Rightarrow> bool" where
  "quiet r \<longleftrightarrow> r \<noteq> Inl (err_code EventQueueFull)"

definition pays :: "nat \<Rightarrow> event_queue \<Rightarrow> ('x \<Rightarrow> nat) \<Rightarrow> 'x matching \<Rightarrow> bool" where
  "pays c q d r \<longleftrightarrow> (event_queue_ok q \<longrightarrow>
     outcome {f. f = err_code EventQueueFull \<longrightarrow> length (q_buf q) < length (events q) + c}
       (\<lambda>(x, ob', q'). event_queue_ok q' \<and> length (q_buf q') = length (q_buf q) \<and>
          length (events q') + d x \<le> length (events q) + c) r)"

named_theorems quiets \<open>computations that push no event\<close>

subsection \<open>Computations that push no event\<close>

lemma quiet_simps [simp, quiets]:
  "quiet (Inr x)" "quiet (Inl Panic)" "quiet (Inl Diverges)"
  "quiet (Inl (assertion_fault f l))"
  "quiet (unwrap y)" "quiet (assert_panic b)" "quiet (check_assert f l b)"
  "quiet (ok_or y (assertion_fault f l))"
  by (cases y; cases b;
      simp add: quiet_def err_code_def assertion_fault_def dex_error_of_assertion_def)+

lemma quiet_and_then [quiets]: "quiet r \<Longrightarrow> (\<And>x. quiet (f x)) \<Longrightarrow> quiet (and_then r f)"
  by (cases r) (simp_all add: quiet_def)

lemma quiet_slab_insert [quiets]: "quiet (slab_insert v s)"
  unfolding slab_insert_def Let_def by (auto split: any_node.split intro!: quiets)

lemma quiet_insert_split [quiets]: "quiet (insert_split l root c n s)"
  unfolding insert_split_def Let_def by (auto split: option.split prod.split intro!: quiets)

lemma quiet_insert_leaf_loop [quiets]: "quiet (insert_leaf_loop n l root s)"
  by (induction n arbitrary: root)
    (auto simp: Let_def split: option.split any_node.split intro!: quiets)

lemma quiet_insert_leaf [quiets]: "quiet (insert_leaf l s)"
  unfolding insert_leaf_def by (auto split: option.split intro!: quiets)

lemma quiet_remove_walk [quiets]: "quiet (remove_walk n k p c b s)"
  by (induction n arbitrary: p c b)
    (auto split: option.split any_node.split prod.split intro!: quiets)

lemma quiet_node_children [quiets]: "quiet (node_children n)"
  unfolding node_children_def by (auto split: any_node.split)

lemma quiet_remove_splice [quiets]: "quiet (remove_splice p c b s)"
  unfolding remove_splice_def Let_def
  by (auto split: prod.split any_node.split intro!: quiets)

lemma quiet_remove_by_key [quiets]: "quiet (remove_by_key k s)"
  unfolding remove_by_key_def Let_def
  by (auto split: option.split any_node.split prod.split intro!: quiets)

lemma quiet_find_loop [quiets]: "quiet (find_min_max_loop n b h s)"
  by (induction n arbitrary: h) (auto split: option.split any_node.split)

lemma quiet_find_min_max [quiets]: "quiet (find_min_max b s)"
  unfolding find_min_max_def by (auto split: option.split intro!: quiets)

lemma quiet_remove_extreme [quiets]: "quiet (remove_extreme b s)" "quiet (remove_min s)" "quiet (remove_max s)"
  unfolding remove_extreme_def remove_min_def remove_max_def by (auto split: option.split intro!: quiets)

lemma quiet_side [quiets]:
  "quiet (best_order sd ob)" "quiet (remove_unwrap k s)" "quiet (insert_unwrap l s)"
  "quiet (leaf_price l)" "quiet (leaf_fee_tier l)" "quiet (u64_div x y)" "quiet (remove_taker_fee t n)"
  by (cases sd; auto simp: best_order_def find_min_def find_max_def remove_unwrap_def insert_unwrap_def
      leaf_price_def leaf_fee_tier_def u64_div_def remove_taker_fee_def Let_def
      split: option.split sum.split prod.split intro!: quiets)+

lemma quiet_request_as_view [quiets]: "quiet (request_as_view r)"
  unfolding request_as_view_def Let_def by (auto intro!: quiets)

subsection \<open>Paying for events\<close>

lemma pays_return: "d x \<le> c \<Longrightarrow> pays c q d (Inr (x, ob, q))"
  by (simp add: pays_def)

lemma pays_quiet: "quiet r \<Longrightarrow> (\<And>x. r = Inr x \<Longrightarrow> pays c q d (f x)) \<Longrightarrow> pays c q d (and_then r f)"
  by (cases r) (auto simp: pays_def quiet_def)

lemma pays_fault: "quiet (Inl e :: dex_fault + unit) \<Longrightarrow> pays c q d (Inl e)"
  by (simp add: pays_def quiet_def)

lemma pays_push:
  assumes "\<And>q1. pays c q1 d (f q1)"
  shows "pays (Suc c) q d (and_then (push_event v q) f)"
  unfolding pays_def
proof (intro impI)
  assume q: "event_queue_ok q"
  show "outcome {f. f = err_code EventQueueFull \<longrightarrow> length (q_buf q) < length (events q) + Suc c}
    (\<lambda>(x, ob', q'). event_queue_ok q' \<and> length (q_buf q') = length (q_buf q) \<and>
       length (events q') + d x \<le> length (events q) + Suc c) (and_then (push_event v q) f)"
  proof (cases "push_event v q")
    case (Inl e)
    then have "length (events q) = length (q_buf q)" if "e = err_code EventQueueFull"
      using that event_q.push_back_room [of q "event_new v"] q length_queue_list [of event_header_ops q]
      by (auto simp: push_event_def event_queue_ok_def events_def queue_inv_def le_less)
    then show ?thesis using Inl by simp
  next
    case (Inr q1)
    have "event_queue_ok q1 \<and> events q1 = events q @ [event_new v] \<and> length (q_buf q1) = length (q_buf q)"
      using push_event_cases [OF q, of v] Inr by simp
    then show ?thesis using assms [of q1] Inr by (auto simp: pays_def)
  qed
qed

lemma pays_push_if:
  assumes "\<And>q1. pays c q1 d (f q1)" "pays (Suc c) q d (f q)"
  shows "pays (Suc c) q d (and_then (if b then push_event v q else Inr q) f)"
  using pays_push [OF assms(1), where q = q and v = v] assms(2) by simp

lemma pays_and_then:
  assumes r: "pays c q e r" and f: "\<And>x ob q1. r = Inr (x, ob, q1) \<Longrightarrow> pays (e x) q1 d (f (x, ob, q1))"
  shows "pays c q d (and_then r f)"
  unfolding pays_def
proof (intro impI)
  assume q: "event_queue_ok q"
  show "outcome {f. f = err_code EventQueueFull \<longrightarrow> length (q_buf q) < length (events q) + c}
    (\<lambda>(x, ob', q'). event_queue_ok q' \<and> length (q_buf q') = length (q_buf q) \<and>
       length (events q') + d x \<le> length (events q) + c) (and_then r f)"
  proof (cases r)
    case (Inr y)
    obtain x ob q1 where y: "y = (x, ob, q1)" by (cases y)
    have 1: "event_queue_ok q1" "length (q_buf q1) = length (q_buf q)"
      "length (events q1) + e x \<le> length (events q) + c"
      using r q Inr y by (simp_all add: pays_def)
    show ?thesis
      by (rule outcome_mono [where P = "\<lambda>(z, ob', q'). event_queue_ok q' \<and>
             length (q_buf q') = length (q_buf q1) \<and> length (events q') + d z \<le> length (events q1) + e x"
           and E = "{f. f = err_code EventQueueFull \<longrightarrow> length (q_buf q1) < length (events q1) + e x}"])
        (use f [OF Inr [unfolded y]] Inr y 1 in \<open>auto simp: pays_def\<close>)
  qed (use r q in \<open>simp add: pays_def\<close>)
qed

lemma pays_mono:
  assumes "pays c q e r" "\<And>x. d x \<le> e x + k"
  shows "pays (c + k) q d r"
  unfolding pays_def
proof (intro impI)
  assume "event_queue_ok q"
  then have "outcome {f. f = err_code EventQueueFull \<longrightarrow> length (q_buf q) < length (events q) + c}
    (\<lambda>(x, ob', q'). event_queue_ok q' \<and> length (q_buf q') = length (q_buf q) \<and>
       length (events q') + e x \<le> length (events q) + c) r"
    using assms(1) by (simp add: pays_def)
  then show "outcome {f. f = err_code EventQueueFull \<longrightarrow> length (q_buf q) < length (events q) + (c + k)}
    (\<lambda>(x, ob', q'). event_queue_ok q' \<and> length (q_buf q') = length (q_buf q) \<and>
       length (events q') + d x \<le> length (events q) + (c + k)) r"
  proof (rule outcome_mono, goal_cases)
    case (2 y)
    obtain x ob q1 where y: "y = (x, ob, q1)" by (cases y)
    show ?case using 2 assms(2) [of x] y by simp
  qed auto
qed

lemma pays_more: "pays c q d r \<Longrightarrow> c \<le> k \<Longrightarrow> pays k q d r"
  using pays_mono [of c q d r d "k - c"] by simp

subsection \<open>The functions of the engine\<close>

lemma pays_post_order:
  assumes "\<And>s. quiet (rw s)" "\<And>l. quiet (ul l)"
  shows "pays (Suc c) q (\<lambda>_. c) (post_order sd rw ul l ob q)"
  unfolding post_order_def
  by (auto split: sum.split slab_tree_error.split prod.split
      intro!: pays_quiet pays_push pays_return quiets assms)

lemma pays_ask_self_trade: "pays (Suc (Suc c)) q (\<lambda>_. c) (ask_self_trade p h l tp tq ob q)"
  unfolding ask_self_trade_def Let_def
  by (auto split: prod.split intro!: pays_quiet pays_push pays_return quiets)

lemma pays_ask_fill: "pays (Suc (Suc c)) q (\<lambda>_. c) (ask_fill p h l tp tq ob q)"
  unfolding ask_fill_def Let_def
  by (auto intro!: pays_quiet pays_push pays_return quiets)

lemma pays_bid_self_trade: "pays (Suc (Suc c)) q (\<lambda>_. c) (bid_self_trade p h l tp tq ob q)"
  unfolding bid_self_trade_def Let_def
  by (auto split: prod.split intro!: pays_quiet pays_push pays_return quiets)

lemma pays_bid_fill: "pays (Suc (Suc c)) q (\<lambda>_. c) (bid_fill p m h l tp tq ob q)"
  unfolding bid_fill_def Let_def
  by (auto intro!: pays_quiet pays_push pays_return quiets)

lemma pays_ask_cross: "pays (Suc (Suc c)) q (\<lambda>_. c) (ask_cross p ob q)"
  unfolding ask_cross_def Let_def
  by (auto split: option.split prod.split intro!: pays_quiet pays_return quiets
      pays_and_then [OF pays_ask_self_trade] pays_and_then [OF pays_ask_fill])

lemma pays_bid_cross: "pays (Suc (Suc c)) q (\<lambda>_. c) (bid_cross p m ob q)"
  unfolding bid_cross_def Let_def
  by (auto split: option.split prod.split intro!: pays_quiet pays_return quiets
      pays_and_then [OF pays_bid_self_trade] pays_and_then [OF pays_bid_fill])

lemma pays_ask_settle: "pays (Suc (Suc c)) q (\<lambda>_. c) (ask_settle p cs ob q)"
  unfolding ask_settle_def Let_def
  by (rule pays_push_if)
    (auto intro!: pays_push pays_return quiets pays_and_then [OF pays_post_order])

lemma quiet_post_amount [quiets]:
  "quiet (case x of Some price \<Rightarrow> if b then and_then (u64_div n lot) (\<lambda>lots. Inr (g price lots)) else Inr z
     | None \<Rightarrow> Inr z)"
  by (auto split: option.split intro!: quiets)

lemma pays_bid_settle: "pays (Suc (Suc (Suc c))) q (\<lambda>_. c) (bid_settle p m cs ob q)"
  unfolding bid_settle_def Let_def
  by (rule pays_push_if)
    (auto intro!: pays_quiet [OF quiet_post_amount] pays_push pays_return quiets
      pays_and_then [OF pays_post_order])

lemma pays_new_ask: "pays (c + 5) q (\<lambda>_. c) (new_ask p ob q)"
proof -
  have "pays (Suc (Suc (Suc (Suc (Suc c))))) q (\<lambda>_. c) (new_ask p ob q)"
    unfolding new_ask_def
    by (rule pays_and_then [OF pays_ask_cross])
      (auto split: sum.split intro!: pays_return pays_more [OF pays_ask_settle])
  then show ?thesis by (simp add: numeral_eq_Suc)
qed

lemma pays_new_bid: "pays (c + 5) q (\<lambda>_. c) (new_bid p ob q)"
proof -
  have "pays (Suc (Suc (Suc (Suc (Suc c))))) q (\<lambda>_. c) (new_bid p ob q)"
    unfolding new_bid_def
    by (intro pays_quiet quiets pays_and_then [OF pays_bid_cross])
      (auto split: sum.split intro!: pays_return pays_bid_settle)
  then show ?thesis by (simp add: numeral_eq_Suc)
qed

lemma pays_new_order_step: "pays (c + 5) q (\<lambda>_. c) (new_order_step p ob q)"
  unfolding new_order_step_def Let_def
  by (auto split: prod.split side.split intro!: pays_quiet quiets pays_new_ask pays_new_bid)

text \<open>The credit of a loop is five for every unit of the limit, and what is left of it returns.\<close>

lemma pays_new_order: "pays (5 * limit) q (\<lambda>(_, l). 5 * l) (new_order limit p ob q)"
proof (induction limit arbitrary: p ob q)
  case (Suc limit)
  have "pays (5 * limit + 5) q (\<lambda>(_, l). 5 * l) (new_order (Suc limit) p ob q)"
    unfolding new_order.simps
    by (rule pays_and_then [OF pays_new_order_step])
      (use Suc.IH in \<open>auto split: option.split intro!: pays_return\<close>)
  then show ?case by (simp add: add.commute)
qed (simp add: pays_return)

lemma pays_cancel_order: "pays (Suc c) q (\<lambda>_. c) (cancel_order sd oid ow slot cid ob q)"
  unfolding cancel_order_def
  by (auto split: option.split side.split prod.split intro!: pays_quiet [OF quiet_remove_by_key]
      pays_quiet [OF quiet_side(3)] pays_quiet [OF quiet_and_then] pays_push pays_return quiets)

lemma pays_process_orderbook_request:
  assumes "0 < limit"
  shows "pays (5 * limit) q (\<lambda>(_, l). 5 * l) (process_orderbook_request r limit ob q)"
proof -
  have c: "pays (5 * limit) q (\<lambda>_. 5 * (limit - 1)) (cancel_order sd oid ow slot cid ob q)"
    for sd oid ow slot cid
    by (rule pays_more [OF pays_cancel_order]) (use assms in simp)
  show ?thesis
    unfolding process_orderbook_request_def
    by (rule pays_quiet [OF quiet_request_as_view])
      (auto split: request_view.split intro!: pays_return pays_and_then [OF pays_new_order] pays_and_then [OF c])
qed

lemma quiet_front [quiets]: "quiet (peek_front ops rq)" "quiet (pop_front ops rq)"
  by (simp_all add: peek_front_def pop_front_def Let_def)

lemma pays_process_requests_loop: "pays (5 * limit) q (\<lambda>_. 0) (process_requests_loop n limit rq ob q)"
proof (induction n arbitrary: limit rq ob q)
  case (Suc n)
  then show ?case
    by (auto split: option.split intro!: pays_quiet [OF quiet_front(1)] pays_quiet [OF quiet_front(2)]
        pays_quiet [OF quiet_simps(5)] pays_return pays_and_then [OF pays_process_orderbook_request])
qed (simp add: pays_def err_code_def)

lemma process_requests_room:
  assumes "event_queue_ok q" "length (events q) + 5 * unat limit \<le> length (q_buf q)"
  shows "outcome (- {err_code EventQueueFull})
    (\<lambda>(rq', ob', q'). length (q_buf q') = length (q_buf q) \<and>
       length (events q') \<le> length (events q) + 5 * unat limit)
    (process_requests limit rq ob q)"
  unfolding process_requests_def
  by (rule outcome_mono [OF pays_process_requests_loop [of "unat limit" q, unfolded pays_def, rule_format]])
    (use assms in auto)

end
