(* ===== verification/Backlog.thy ===== *)
theory Backlog
  imports RequestsSafe EventRoom
begin

text \<open>
  The termination of matching over many calls.  The backlog of a market is the number of
  resting orders, plus what every waiting request still asks for and one.  Every pass of the
  engine uses up at least one unit of it: a pass that hands an order back has traded or
  cancelled some of its quantity, or has taken a resting order out; one that does not has
  finished the request and leaves at most one order more.  So working off requests, with the
  event queue emptied in between, comes to an end, after as many units of the limit as the
  backlog at most.
\<close>

definition book_size :: "order_book \<Rightarrow> nat" where
  "book_size ob = unat (leaf_count (header (ob_bids ob))) + unat (leaf_count (header (ob_asks ob)))"

definition request_work :: "request \<Rightarrow> nat" where
  "request_work r =
     (case request_as_view r of Inr (NewOrderView v) \<Rightarrow> Suc (unat (nr_max_coin_qty v)) | _ \<Rightarrow> 1)"

definition backlog :: "req_queue \<Rightarrow> order_book \<Rightarrow> nat" where
  "backlog rq ob = book_size ob + sum_list (map request_work (requests rq))"

subsection \<open>Orders on the sides\<close>

lemma side_size: "slab_inv s \<Longrightarrow> unat (leaf_count (header s)) = card (dom (slab_orders s))"
  by (simp add: slab_count_leaves card_orders)

definition side_size_of :: "slab \<Rightarrow> nat" where
  "side_size_of s = card (dom (slab_orders s))"

lemma book_size_eq:
  "book_ok ob \<Longrightarrow> book_size ob = side_size_of (ob_bids ob) + side_size_of (ob_asks ob)"
  by (simp add: book_size_def book_ok_def side_ok_def side_size side_size_of_def)

lemma remove_unwrap_size:
  assumes "slab_inv s" "remove_unwrap k s = Inr s'"
  shows "Suc (side_size_of s') = side_size_of s"
proof -
  obtain s1 where s1: "remove_by_key k s = Inr (slab_orders s k, s1)"
    "slab_orders s1 = (slab_orders s)(k := None)"
    using remove_by_key_run [OF assms(1)] by blast
  then have "s' = s1" "k \<in> dom (slab_orders s)" using assms(2) by (auto simp: remove_unwrap_def res_simps)
  moreover from this have "dom (slab_orders s') = dom (slab_orders s) - {k}" using s1(2) by simp
  ultimately show ?thesis unfolding side_size_of_def by (simp only: card_Suc_Diff1 [OF finite_dom_u128])
qed

lemma put_size:
  assumes "slab_holds s h l0" "lf_key l = lf_key l0"
  shows "side_size_of (slab_put s h (LeafNode l)) = side_size_of s" "slab_inv (slab_put s h (LeafNode l))"
  using slab_put_run [OF assms] slab_holds_orders [OF assms(1)] assms(2)
  by (auto simp: side_size_of_def insert_absorb domI)

lemma insert_size:
  assumes "slab_inv s" "insert_leaf l s = Inr (r, s')"
  shows "slab_inv s' \<and> side_size_of s' \<le> Suc (side_size_of s) \<and>
    (r = Inl OutOfSpace \<longrightarrow> slab_orders s' = slab_orders s)"
proof -
  have "slab_inv s' \<and> (case r of
       Inr (h, old) \<Rightarrow> slab_orders s' = (slab_orders s)(lf_key l \<mapsto> l)
     | Inl OutOfSpace \<Rightarrow> slab_orders s' = slab_orders s)"
    using insert_leaf_run [OF assms(1), of l] assms(2) by (auto split: sum.splits slab_tree_error.splits)
  then show ?thesis
    by (auto simp: side_size_of_def card_insert_if split: sum.splits slab_tree_error.splits)
qed

lemma insert_unwrap_size:
  assumes "slab_inv s" "insert_unwrap l s = Inr s'"
  shows "slab_inv s' \<and> side_size_of s' \<le> Suc (side_size_of s)"
proof -
  obtain r s1 where i: "insert_leaf l s = Inr (r, s1)"
    using assms(2) by (cases "insert_leaf l s") (auto simp: insert_unwrap_def)
  then have "s1 = s'" using assms(2) by (cases r) (simp_all add: insert_unwrap_def)
  then show ?thesis using insert_size [OF assms(1)] i by blast
qed

lemma post_size:
  assumes "post_order sd (remove_extreme b) ul l ob q = Inr (u, ob', q')" and "slab_inv (ob_orders sd ob)"
  shows "\<exists>s'. ob' = ob_set_orders sd s' ob \<and> slab_inv s' \<and> side_size_of s' \<le> Suc (side_size_of (ob_orders sd ob))"
proof -
  obtain r s1 where i: "insert_leaf l (ob_orders sd ob) = Inr (r, s1)"
    using assms(1) by (auto simp: post_order_def res_simps)
  note s1 = insert_size [OF assms(2) i]
  show ?thesis
  proof (cases r)
    case (Inr x)
    then show ?thesis using assms(1) i s1 by (auto simp: post_order_def)
  next
    case (Inl e)
    obtain w s2 where w: "remove_extreme b s1 = Inr (w, s2)" "slab_inv s2"
      "dom (slab_orders s2) \<subseteq> dom (slab_orders s1)"
      using remove_extreme_run [of s1 b] s1 by (fastforce split: option.splits if_splits)
    have "e = OutOfSpace" by (cases e)
    then have "side_size_of s2 \<le> side_size_of (ob_orders sd ob)"
      using w(3) s1 Inl by (simp add: side_size_of_def card_mono)
    moreover obtain s3 where s3: "insert_unwrap l s2 = Inr s3" "ob' = ob_set_orders sd s3 ob"
      using assms(1) i Inl w(1) by (cases e) (auto simp: post_order_def res_simps)
    ultimately show ?thesis using insert_unwrap_size [OF w(2) s3(1)] by (auto intro!: exI [of _ s3])
  qed
qed

text \<open>What a pass over an order of \<open>qty\<close> lots leaves.\<close>

definition pass_done :: "u64 \<Rightarrow> order_book \<Rightarrow> order_remaining option \<Rightarrow> order_book \<Rightarrow> bool" where
  "pass_done qty ob r ob' \<longleftrightarrow>
     (case r of
        None \<Rightarrow> book_size ob' \<le> Suc (book_size ob)
      | Some x \<Rightarrow> unat (or_coin_qty_remaining x) + book_size ob' < unat qty + book_size ob)"

text \<open>The shared step on a resting order, as in \<open>resting_update\<close>.\<close>

lemma resting_size:
  assumes "book_ok ob" "slab_holds (ob_orders sd ob) h l"
    and "(if x = 0 then remove_unwrap (lf_key l) (ob_orders sd ob)
      else Inr (slab_put (ob_orders sd ob) h (LeafNode (leaf_set_quantity x l)))) = Inr s'"
  shows "side_size_of s' + (if x = 0 then 1 else 0) = side_size_of (ob_orders sd ob)"
  using assms(3) remove_unwrap_size [of "ob_orders sd ob" "lf_key l" s'] book_ok_sides [OF assms(1), of sd]
    put_size(1) [OF assms(2), of "leaf_set_quantity x l"]
  by (auto split: if_splits)

lemma u64_less: "0 < y \<Longrightarrow> y \<le> x \<Longrightarrow> unat (x - y) < unat (x::u64)"
  by (simp add: unat_sub word_le_nat_alt unat_gt_0 word_gt_0) (metis diff_less unat_eq_zero gr_zeroI le_zero_eq)

subsection \<open>Asks\<close>

lemma ask_self_trade_size:
  assumes ob: "book_ok ob" and h: "slab_holds (ob_bids ob) h l" and q: "event_queue_ok q"
    and tq: "tq \<le> lf_quantity l" "tq \<le> na_max_qty p" "tq \<noteq> 0"
    and run: "ask_self_trade p h l tp tq ob q = Inr (r, ob', q')"
  shows "pass_done (na_max_qty p) ob r ob'"
proof -
  have ob': "book_ok ob'" using outcome_InrD [OF ask_self_trade_ok [OF ob q h tq(1,2)] run] by (simp add: kept_def)
  obtain cp ct where c: "(case na_self_trade_behavior p of
      DecrementTake \<Rightarrow> (tq, tq) | CancelProvide \<Rightarrow> (lf_quantity l, 0)) = (cp, ct)"
    "ct = tq \<or> ct = 0 \<and> lf_quantity l - cp = 0"
    by (cases "na_self_trade_behavior p") auto
  obtain bids where b: "(if lf_quantity l - cp = 0 then remove_unwrap (lf_key l) (ob_bids ob)
      else Inr (slab_put (ob_bids ob) h (LeafNode (leaf_set_quantity (lf_quantity l - cp) l)))) = Inr bids"
    and res: "ob' = ob\<lparr>ob_bids := bids\<rparr>" "r = map_option
      (\<lambda>c. \<lparr>or_coin_qty_remaining = c, or_native_pc_qty_remaining = None\<rparr>) (nonzero_new (na_max_qty p - ct))"
    using run unfolding ask_self_trade_def Let_def c(1) prod.case by (auto simp: res_simps)
  have "side_size_of bids + (if lf_quantity l - cp = 0 then 1 else 0) = side_size_of (ob_bids ob)"
    by (rule resting_size [OF ob, where sd = Bid, unfolded ob_orders.simps, OF h b])
  moreover have "unat (na_max_qty p - tq) < unat (na_max_qty p)" using tq u64_less by (simp add: word_gt_0)
  ultimately show ?thesis
    using c(2) res book_size_eq [OF ob] book_size_eq [OF ob']
    by (auto simp: pass_done_def nonzero_new_def)
qed

lemma ask_fill_size:
  assumes ob: "book_ok ob" and h: "slab_holds (ob_bids ob) h l" and q: "event_queue_ok q"
    and tq: "tq \<le> lf_quantity l" "tq \<le> na_max_qty p" "tq \<noteq> 0"
    and run: "ask_fill p h l tp tq ob q = Inr (cs, ob', q')"
  shows "\<not> cs_done cs \<and> cs_coin cs = na_max_qty p - tq \<and> book_size ob' \<le> book_size ob"
proof -
  let ?s1 = "slab_put (ob_bids ob) h (LeafNode (leaf_set_quantity (lf_quantity l - tq) l))"
  have ob': "book_ok ob'" using outcome_InrD [OF ask_fill_ok [OF ob q h tq(1,2)] run] by (simp add: kept_def)
  have res: "(ob' = ob\<lparr>ob_bids := ?s1\<rparr> \<or> (\<exists>s'. remove_unwrap (lf_key l) ?s1 = Inr s' \<and> ob' = ob\<lparr>ob_bids := s'\<rparr>))
    \<and> \<not> cs_done cs \<and> cs_coin cs = na_max_qty p - tq"
    using run unfolding ask_fill_def Let_def by (auto simp: res_simps split: if_splits)
  have "side_size_of (ob_bids ob') \<le> side_size_of (ob_bids ob) \<and> ob_asks ob' = ob_asks ob"
    using res put_size [OF h, of "leaf_set_quantity (lf_quantity l - tq) l"] remove_unwrap_size
    by fastforce
  then show ?thesis using res book_size_eq [OF ob] book_size_eq [OF ob'] by simp
qed

definition crossed_some :: "u64 \<Rightarrow> order_book \<Rightarrow> crossing \<Rightarrow> order_book \<Rightarrow> bool" where
  "crossed_some qty ob cs ob' \<longleftrightarrow>
     book_size ob' \<le> book_size ob \<and> (\<not> cs_done cs \<longrightarrow> unat (cs_coin cs) < unat qty)"

lemma ask_cross_size:
  assumes ob: "book_ok ob" and q: "event_queue_ok q" and run: "ask_cross p ob q = Inr (r, ob', q')"
  shows "case r of Inl ret \<Rightarrow> pass_done (na_max_qty p) ob ret ob' | Inr cs \<Rightarrow> crossed_some (na_max_qty p) ob cs ob'"
proof -
  have side: "slab_inv (ob_bids ob)" using book_ok_sides [OF ob, of Bid] by simp
  obtain best where b: "best_order Bid ob = Inr best"
    "case best of None \<Rightarrow> True | Some (h, l) \<Rightarrow> slab_holds (ob_bids ob) h l"
    using best_bid_ok [OF side] unfolding outcome_total by (auto split: option.splits)
  show ?thesis
  proof (cases best)
    case None
    then show ?thesis using run b(1) by (auto simp: ask_cross_def crossed_some_def)
  next
    case (Some hl)
    obtain h l where hl: "hl = (h, l)" by (cases hl)
    have h: "slab_holds (ob_bids ob) h l" using b(2) Some hl by simp
    let ?tq = "min (lf_quantity l) (na_max_qty p)"
    have tq: "?tq \<le> lf_quantity l" "?tq \<le> na_max_qty p" by simp_all
    have less: "unat (na_max_qty p - ?tq) < unat (na_max_qty p)" if "?tq \<noteq> 0"
      using that tq(2) u64_less by (simp add: word_gt_0)
    show ?thesis
      using run ask_self_trade_size [OF ob h q tq] ask_fill_size [OF ob h q tq] less
      unfolding ask_cross_def Let_def b(1) Some hl and_then_simps option.case prod.case
      by (auto simp: res_simps crossed_some_def split: if_splits)
  qed
qed

lemma book_size_market [simp]: "book_size (ob\<lparr>ob_market := m\<rparr>) = book_size ob"
  by (simp add: book_size_def)

lemma post_book_size:
  assumes "post_order sd (remove_extreme b) ul l (ob\<lparr>ob_market := m\<rparr>) q = Inr (u, ob', q')" and "book_ok ob"
  shows "book_size ob' \<le> Suc (book_size ob)"
proof -
  have inv: "slab_inv (ob_bids ob)" "slab_inv (ob_asks ob)" using assms(2) by (simp_all add: book_ok_def side_ok_def)
  then have "slab_inv (ob_orders sd (ob\<lparr>ob_market := m\<rparr>))" by (cases sd) simp_all
  from post_size [OF assms(1) this] show ?thesis using inv
    by (cases sd) (auto simp: book_size_def side_size_of_def side_size)
qed

definition settled_size :: "crossing \<Rightarrow> order_book \<Rightarrow> order_remaining option \<Rightarrow> order_book \<Rightarrow> bool" where
  "settled_size cs ob r ob' \<longleftrightarrow>
     (case r of
        None \<Rightarrow> book_size ob' \<le> Suc (book_size ob)
      | Some x \<Rightarrow> \<not> cs_done cs \<and> or_coin_qty_remaining x = cs_coin cs \<and> book_size ob' = book_size ob)"

lemma remove_ends: "remove_max = remove_extreme True" "remove_min = remove_extreme False"
  by (simp_all add: fun_eq_iff remove_max_def remove_min_def)

lemma ask_settle_size:
  assumes ob: "book_ok ob" and run: "ask_settle p cs ob q = Inr (r, ob', q')"
  shows "settled_size cs ob r ob'"
  using run post_book_size [OF _ ob]
  unfolding ask_settle_def Let_def remove_ends
  by (auto simp: res_simps settled_size_def split: if_splits)

lemma settled_pass:
  assumes "crossed_some qty ob cs ob1" "settled_size cs ob1 r ob'"
  shows "pass_done qty ob r ob'"
  using assms by (auto simp: crossed_some_def settled_size_def pass_done_def split: option.splits)

lemma new_ask_size:
  assumes ob: "book_ok ob" and q: "event_queue_ok q" and run: "new_ask p ob q = Inr (r, ob', q')"
  shows "pass_done (na_max_qty p) ob r ob'"
proof -
  obtain c ob1 q1 where c: "ask_cross p ob q = Inr (c, ob1, q1)"
    using run by (auto simp: new_ask_def res_simps)
  have "book_ok ob1" using outcome_InrD [OF ask_cross_ok [OF ob q] c] by (simp add: kept_def)
  then show ?thesis
    using run c ask_cross_size [OF ob q c] settled_pass ask_settle_size [of ob1]
    by (auto simp: new_ask_def split: sum.splits)
qed

subsection \<open>Bids\<close>

lemma bid_self_trade_size:
  assumes ob: "book_ok ob" and h: "slab_holds (ob_asks ob) h l" and q: "event_queue_ok q"
    and tq: "tq \<le> lf_quantity l" "tq \<le> nb_max_coin_qty p" "tq \<noteq> 0"
    and run: "bid_self_trade p h l tp tq ob q = Inr (r, ob', q')"
  shows "pass_done (nb_max_coin_qty p) ob r ob'"
proof -
  have ob': "book_ok ob'" using outcome_InrD [OF bid_self_trade_ok [OF ob q h tq(1)] run] by (simp add: kept_def)
  obtain ct cp where c: "(case nb_self_trade_behavior p of
      DecrementTake \<Rightarrow> (tq, tq) | CancelProvide \<Rightarrow> (0, lf_quantity l)) = (ct, cp)"
    "ct = tq \<or> ct = 0 \<and> lf_quantity l - cp = 0"
    by (cases "nb_self_trade_behavior p") auto
  obtain asks n where b: "(if lf_quantity l - cp = 0 then remove_unwrap (lf_key l) (ob_asks ob)
      else Inr (slab_put (ob_asks ob) h (LeafNode (leaf_set_quantity (lf_quantity l - cp) l)))) = Inr asks"
    and res: "ob' = ob\<lparr>ob_asks := asks\<rparr>" "r = bid_remaining (nb_max_coin_qty p - ct) n"
    using run unfolding bid_self_trade_def Let_def c(1) prod.case by (auto simp: res_simps)
  have "side_size_of asks + (if lf_quantity l - cp = 0 then 1 else 0) = side_size_of (ob_asks ob)"
    by (rule resting_size [OF ob, where sd = Ask, unfolded ob_orders.simps, OF h b])
  moreover have "unat (nb_max_coin_qty p - tq) < unat (nb_max_coin_qty p)" using tq u64_less by (simp add: word_gt_0)
  ultimately show ?thesis
    using c(2) res book_size_eq [OF ob] book_size_eq [OF ob']
    by (auto simp: pass_done_def bid_remaining_def)
qed

lemma bid_fill_size:
  assumes ob: "book_ok ob" and h: "slab_holds (ob_asks ob) h l" and q: "event_queue_ok q"
    and tq: "tq \<le> lf_quantity l"
    and run: "bid_fill p m h l tp tq ob q = Inr (cs, ob', q')"
  shows "\<not> cs_done cs \<and> cs_coin cs = nb_max_coin_qty p - tq \<and> book_size ob' \<le> book_size ob"
proof -
  let ?s1 = "slab_put (ob_asks ob) h (LeafNode (leaf_set_quantity (lf_quantity l - tq) l))"
  have ob': "book_ok ob'" using outcome_InrD [OF bid_fill_ok [OF ob q h tq] run] by (simp add: kept_def)
  have res: "(ob' = ob\<lparr>ob_asks := ?s1\<rparr> \<or> (\<exists>s'. remove_unwrap (lf_key l) ?s1 = Inr s' \<and> ob' = ob\<lparr>ob_asks := s'\<rparr>))
    \<and> \<not> cs_done cs \<and> cs_coin cs = nb_max_coin_qty p - tq"
    using run unfolding bid_fill_def Let_def by (auto simp: res_simps split: if_splits)
  have "side_size_of (ob_asks ob') \<le> side_size_of (ob_asks ob) \<and> ob_bids ob' = ob_bids ob"
    using res put_size [OF h, of "leaf_set_quantity (lf_quantity l - tq) l"] remove_unwrap_size
    by fastforce
  then show ?thesis using res book_size_eq [OF ob] book_size_eq [OF ob'] by simp
qed

lemma bid_cross_size:
  assumes ob: "book_ok ob" and q: "event_queue_ok q" and run: "bid_cross p m ob q = Inr (r, ob', q')"
  shows "case r of Inl ret \<Rightarrow> pass_done (nb_max_coin_qty p) ob ret ob'
    | Inr cs \<Rightarrow> crossed_some (nb_max_coin_qty p) ob cs ob'"
proof -
  have side: "slab_inv (ob_asks ob)" using book_ok_sides [OF ob, of Ask] by simp
  obtain best where b: "best_order Ask ob = Inr best"
    "case best of None \<Rightarrow> True | Some (h, l) \<Rightarrow> slab_holds (ob_asks ob) h l"
    using best_ask_ok [OF side] unfolding outcome_total by (auto split: option.splits)
  show ?thesis
  proof (cases best)
    case None
    then show ?thesis using run b(1) by (auto simp: bid_cross_def crossed_some_def)
  next
    case (Some hl)
    obtain h l where hl: "hl = (h, l)" by (cases hl)
    have h: "slab_holds (ob_asks ob) h l" using b(2) Some hl by simp
    obtain tp where tp: "leaf_price l = Inr tp"
      using run unfolding bid_cross_def Let_def b(1) Some hl by (auto simp: res_simps)
    let ?tq = "min (min (lf_quantity l) (nb_max_coin_qty p)) (m div tp)"
    have tq: "?tq \<le> lf_quantity l" "?tq \<le> nb_max_coin_qty p" by (meson min.bounded_iff order_refl)+
    have less: "unat (nb_max_coin_qty p - ?tq) < unat (nb_max_coin_qty p)" if "?tq \<noteq> 0"
      using u64_less [OF _ tq(2)] that by (simp only: word_gt_0)
    have "?tq \<noteq> 0 \<Longrightarrow> bid_self_trade p h l tp ?tq ob q = Inr (ret, ob', q') \<Longrightarrow>
        pass_done (nb_max_coin_qty p) ob ret ob'" for ret
      by (rule bid_self_trade_size [OF ob h q tq])
    moreover have "?tq \<noteq> 0 \<Longrightarrow> bid_fill p m h l tp ?tq ob q = Inr (cs, ob', q') \<Longrightarrow>
        crossed_some (nb_max_coin_qty p) ob cs ob'" for cs
      using bid_fill_size [OF ob h q tq(1), of p m tp cs] less by (simp only: crossed_some_def) blast
    ultimately show ?thesis
      using run
      unfolding bid_cross_def Let_def b(1) Some hl and_then_simps option.case prod.case tp
      by (auto simp: res_simps crossed_some_def simp del: min_less_iff_conj min.bounded_iff split: if_splits)
  qed
qed

lemma bid_settle_size:
  assumes ob: "book_ok ob" and run: "bid_settle p m cs ob q = Inr (r, ob', q')"
  shows "settled_size cs ob r ob'"
  using run post_book_size [OF _ ob]
  unfolding bid_settle_def Let_def remove_ends
  by (auto simp: res_simps settled_size_def split: if_splits)

lemma new_bid_size:
  assumes ob: "book_ok ob" and q: "event_queue_ok q" and p: "bid_params_ok p"
    and run: "new_bid p ob q = Inr (r, ob', q')"
  shows "pass_done (nb_max_coin_qty p) ob r ob'"
proof -
  obtain m c ob1 q1 where c: "bid_cross p m ob q = Inr (c, ob1, q1)"
    "(case c of Inl returned \<Rightarrow> Inr (returned, ob1, q1) | Inr cs \<Rightarrow> bid_settle p m cs ob1 q1) = Inr (r, ob', q')"
    using run by (auto simp: new_bid_def res_simps)
  have "book_ok ob1" using outcome_InrD [OF bid_cross_ok [OF ob q p] c(1)] by (simp add: kept_def)
  then show ?thesis
    using c bid_cross_size [OF ob q c(1)] settled_pass bid_settle_size [of ob1]
    by (auto split: sum.splits)
qed

subsection \<open>Orders and requests\<close>

lemma new_order_step_size:
  assumes ob: "book_ok ob" and q: "event_queue_ok q" and p: "order_params_ok (ob_market ob) p"
    and run: "new_order_step p ob q = Inr (r, ob', q')"
  shows "pass_done (no_max_coin_qty p) ob r ob'"
proof (cases "no_side p")
  case Bid
  obtain n where n: "no_native_pc_qty_locked p = Some n" "n \<noteq> 0"
    using p Bid by (auto simp: order_params_ok_def)
  have pb: "no_max_coin_qty p \<noteq> 0" "no_order_type p \<noteq> ImmediateOrCancel \<longrightarrow> price_of (no_order_id p) \<noteq> 0"
    using p Bid by (simp_all add: order_params_ok_def)
  show ?thesis using run n(1)
    by (cases "no_order_type p")
      (use new_bid_size [OF ob q] pb n(2) in \<open>force simp: new_order_step_def Bid Let_def bid_params_ok_def\<close>)+
next
  case Ask
  show ?thesis using run
    by (cases "no_order_type p")
      (use new_ask_size [OF ob q] in \<open>force simp: new_order_step_def Ask Let_def res_simps\<close>)+
qed

text \<open>A request of \<open>qty\<close> lots under a limit: what is left of the limit was not needed.\<close>

lemma new_order_size:
  "book_ok ob \<Longrightarrow> event_queue_ok q \<Longrightarrow> order_params_ok (ob_market ob) p \<Longrightarrow> 0 < limit \<Longrightarrow>
   new_order limit p ob q = Inr ((r, l), ob', q') \<Longrightarrow>
   limit + (case r of None \<Rightarrow> 0 | Some x \<Rightarrow> Suc (unat (or_coin_qty_remaining x))) + book_size ob'
     \<le> Suc (unat (no_max_coin_qty p)) + book_size ob + l"
proof (induction limit arbitrary: p ob q)
  case (Suc limit)
  obtain r1 ob1 q1 where s: "new_order_step p ob q = Inr (r1, ob1, q1)"
    using Suc.prems(5) by (auto simp: res_simps)
  have k: "kept ob ob1 q1" "remaining_ok (\<lambda>x. order_params_ok (ob_market ob1) (with_remaining p x)) r1"
    using outcome_InrD [OF new_order_step_ok [OF Suc.prems(1-3)] s] by simp_all
  have d: "pass_done (no_max_coin_qty p) ob r1 ob1" by (rule new_order_step_size [OF Suc.prems(1-3) s])
  have pos: "0 < unat (no_max_coin_qty p)" using Suc.prems(3) by (simp add: order_params_ok_def unat_gt_0)
  show ?case
  proof (cases "limit = 0 \<or> r1 = None")
    case True
    then show ?thesis using Suc.prems(5) s d pos
      by (auto simp: pass_done_def split: option.splits if_splits)
  next
    case False
    then obtain y where y: "r1 = Some y" "0 < limit" by auto
    have "new_order limit (with_remaining p y) ob1 q1 = Inr ((r, l), ob', q')"
      using Suc.prems(5) s y by simp
    then have "limit + (case r of None \<Rightarrow> 0 | Some x \<Rightarrow> Suc (unat (or_coin_qty_remaining x))) + book_size ob'
        \<le> Suc (unat (no_max_coin_qty (with_remaining p y))) + book_size ob1 + l"
      using k y by (intro Suc.IH) (auto simp: kept_def)
    then show ?thesis using d y by (simp add: pass_done_def)
  qed
qed simp

lemma cancel_order_size:
  assumes ob: "book_ok ob" and run: "cancel_order sd oid ow slot cid ob q = Inr (u, ob', q')"
  shows "book_size ob' \<le> book_size ob"
proof -
  let ?s = "ob_orders sd ob"
  have inv: "slab_inv ?s" using book_ok_sides [OF ob] by blast
  obtain s1 where s1: "remove_by_key oid ?s = Inr (slab_orders ?s oid, s1)" "slab_inv s1"
    "slab_orders s1 = (slab_orders ?s)(oid := None)"
    using remove_by_key_run [OF inv] by blast
  have size1: "side_size_of s1 \<le> side_size_of ?s" "oid \<in> dom (slab_orders ?s) \<Longrightarrow> Suc (side_size_of s1) = side_size_of ?s"
    using s1(3) card_Suc_Diff1 [OF finite_dom_u128, of oid "dom (slab_orders ?s)"]
    by (simp_all add: side_size_of_def card_mono)
  have "\<exists>s'. ob' = ob_set_orders sd s' ob \<and> slab_inv s' \<and> side_size_of s' \<le> side_size_of ?s"
  proof (cases "slab_orders ?s oid")
    case None
    then show ?thesis using run s1 size1(1) by (auto simp: cancel_order_def)
  next
    case (Some l)
    then have c: "ob' = ob_set_orders sd s1 ob \<or>
        (\<exists>s2. insert_unwrap l s1 = Inr s2 \<and> ob' = ob_set_orders sd s2 ob)"
      using run s1(1) by (auto simp: cancel_order_def res_simps split: if_splits)
    have "oid \<in> dom (slab_orders ?s)" using Some by blast
    then show ?thesis using c s1(2) size1 insert_unwrap_size [OF s1(2)] by metis
  qed
  then show ?thesis using ob
    by (cases sd) (auto simp: book_size_def side_size_of_def side_size book_ok_def side_ok_def)
qed

lemma process_orderbook_request_size:
  assumes ob: "book_ok ob" and q: "event_queue_ok q" and r: "request_fit (ob_market ob) r" and l: "0 < limit"
    and run: "process_orderbook_request r limit ob q = Inr ((rem, l'), ob', q')"
  shows "limit + (case rem of None \<Rightarrow> 0 | Some r' \<Rightarrow> request_work r') + book_size ob'
    \<le> request_work r + book_size ob + l'"
proof -
  obtain view where v: "request_as_view r = Inr view" using r by (auto simp: request_fit_def split: sum.splits)
  show ?thesis
  proof (cases view)
    case (CancelOrderView c)
    then have c: "rem = None" "l' = limit - 1" "cancel_order (cr_side c) (cr_order_id c) (cr_expected_owner c)
        (cr_expected_owner_slot c) (cr_client_order_id c) ob q = Inr ((), ob', q')"
      using run v by (auto simp: process_orderbook_request_def res_simps)
    then show ?thesis using cancel_order_size [OF ob c(3)] l v CancelOrderView by (simp add: request_work_def)
  next
    case (NewOrderView n)
    let ?p = "\<lparr>no_side = nr_side n, no_order_type = nr_order_type n, no_order_id = nr_order_id n,
            no_owner = nr_owner n, no_owner_slot = nr_owner_slot n, no_fee_tier = nr_fee_tier n,
            no_max_coin_qty = nr_max_coin_qty n,
            no_native_pc_qty_locked = nr_native_pc_qty_locked n,
            no_client_order_id = bits_of_option (nr_client_order_id n),
            no_self_trade_behavior = nr_self_trade_behavior n\<rparr>"
    let ?n = "\<lambda>x. n\<lparr>nr_max_coin_qty := or_coin_qty_remaining x,
        nr_native_pc_qty_locked := or_native_pc_qty_remaining x\<rparr>"
    have p: "order_params_ok (ob_market ob) ?p" "nr_client_order_id n \<noteq> Some 0"
      using r v NewOrderView by (simp_all add: request_fit_def)
    obtain rr where rr: "new_order limit ?p ob q = Inr ((rr, l'), ob', q')"
      "rem = map_option (\<lambda>x. request_new (NewOrderView (?n x))) rr"
      using run v NewOrderView by (auto simp: process_orderbook_request_def res_simps)
    have ok: "order_params_ok (ob_market ob') (with_remaining ?p x)" if "rr = Some x" for x
      using outcome_InrD [OF new_order_ok [OF ob q p(1)] rr(1)] that by simp
    have "request_work (request_new (NewOrderView (?n x))) = Suc (unat (or_coin_qty_remaining x))"
      if "rr = Some x" for x
    proof -
      have "request_view_ok (NewOrderView (?n x))"
        using order_params_pc [OF ok [OF that]] ok [OF that] p(2)
        by (simp add: request_view_ok_def order_params_ok_def)
      then show ?thesis by (simp add: request_work_def request_as_view_new)
    qed
    moreover have "request_work r = Suc (unat (nr_max_coin_qty n))"
      using v NewOrderView by (simp add: request_work_def)
    ultimately show ?thesis
      using new_order_size [OF ob q p(1) l rr(1)] rr(2) by (auto split: option.splits)
  qed
qed

lemma process_requests_loop_backlog:
  "book_ok ob \<Longrightarrow> event_queue_ok q \<Longrightarrow> requests_ok (ob_market ob) rq \<Longrightarrow>
   process_requests_loop n limit rq ob q = Inr (rq', ob', q') \<Longrightarrow>
   requests rq' = [] \<or> limit + backlog rq' ob' \<le> backlog rq ob"
proof (induction n arbitrary: limit rq ob q)
  case (Suc n)
  show ?case
  proof (cases "limit = 0 \<or> requests rq = []")
    case True
    then show ?thesis using Suc.prems(4) request_peek [OF Suc.prems(3)] by (auto split: if_splits)
  next
    case False
    then obtain r rs where rs: "requests rq = r # rs" "0 < limit" by (cases "requests rq") auto
    have fit: "request_fit (ob_market ob) r" using Suc.prems(3) rs(1) by (simp add: requests_ok_def)
    obtain rem l' ob1 q1 where s: "process_orderbook_request r limit ob q = Inr ((rem, l'), ob1, q1)"
      using Suc.prems(4) rs request_peek [OF Suc.prems(3)] by (auto simp: res_simps)
    have k: "kept ob ob1 q1" "\<forall>r'. rem = Some r' \<longrightarrow> request_fit (ob_market ob1) r'"
      using outcome_InrD [OF process_orderbook_request_ok [OF Suc.prems(1,2) fit rs(2)] s] by simp_all
    have m: "requests_ok (ob_market ob1) rq" using Suc.prems(3) k(1) same_lots_request
      by (auto simp: requests_ok_def kept_def)
    obtain rq1 where rq1: "process_requests_loop n l' rq1 ob1 q1 = Inr (rq', ob', q')"
      "requests_ok (ob_market ob1) rq1" "requests rq1 = (case rem of None \<Rightarrow> rs | Some r' \<Rightarrow> r' # rs)"
    proof (cases rem)
      case None
      obtain rq1 where "pop_front request_header_ops rq = Inr (Some r, rq1)"
        "requests_ok (ob_market ob1) rq1" "requests rq1 = rs"
        by (rule request_pop [OF m rs(1)])
      then show ?thesis using that [of rq1] None Suc.prems(4) rs s request_peek [OF Suc.prems(3)] by simp
    next
      case (Some r')
      have "requests_ok (ob_market ob1) (set_front r' rq)" "requests (set_front r' rq) = r' # rs"
        using set_front_list [of rq r rs r'] m rs(1) k(2) Some by (auto simp: requests_ok_def requests_def)
      then show ?thesis using that [of "set_front r' rq"] Some Suc.prems(4) rs s request_peek [OF Suc.prems(3)]
        by simp
    qed
    have "requests rq' = [] \<or> l' + backlog rq' ob' \<le> backlog rq1 ob1"
      by (rule Suc.IH [OF _ _ rq1(2,1)]) (use k(1) in \<open>simp_all add: kept_def\<close>)
    moreover have "limit + backlog rq1 ob1 \<le> backlog rq ob + l'"
      using process_orderbook_request_size [OF Suc.prems(1,2) fit rs(2) s] rq1(3) rs(1)
      by (auto simp: backlog_def split: option.splits)
    ultimately show ?thesis by linarith
  qed
qed simp

text \<open>One call: it succeeds where the queue has room for its events, and works off its limit.\<close>

lemma process_requests_round:
  assumes "book_ok ob" "event_queue_ok q" "requests_ok (ob_market ob) rq"
    "length (events q) + 5 * unat limit \<le> length (q_buf q)"
  obtains rq' ob' q' where "process_requests limit rq ob q = Inr (rq', ob', q')"
    "book_ok ob'" "event_queue_ok q'" "requests_ok (ob_market ob') rq'" "length (q_buf q') = length (q_buf q)"
    "requests rq' = [] \<or> unat limit + backlog rq' ob' \<le> backlog rq ob"
proof -
  have safe: "outcome full (\<lambda>(rq', ob', q'). kept ob ob' q' \<and> requests_ok (ob_market ob') rq')
      (process_requests limit rq ob q)"
    unfolding process_requests_def by (rule process_requests_loop_ok [OF assms(1-3)]) simp
  note room = process_requests_room [OF assms(2,4), where rq = rq and ob = ob]
  obtain rq' ob' q' where r: "process_requests limit rq ob q = Inr (rq', ob', q')"
    using safe room by (cases "process_requests limit rq ob q") auto
  show thesis
    by (rule that [OF r])
      (use outcome_InrD [OF safe r] outcome_InrD [OF room r]
        process_requests_loop_backlog [OF assms(1-3) r [unfolded process_requests_def]]
        in \<open>auto simp: kept_def\<close>)
qed

subsection \<open>Rounds of matching and consuming\<close>

text \<open>All events are taken out, and then requests are worked off under the limit.\<close>

primrec pop_events :: "nat \<Rightarrow> event_queue \<Rightarrow> dex_fault + event_queue" where
  "pop_events 0 q = Inr q"
| "pop_events (Suc n) q = and_then (pop_front event_header_ops q) (\<lambda>(_, q'). pop_events n q')"

primrec drain :: "nat \<Rightarrow> u16 \<Rightarrow> req_queue \<Rightarrow> order_book \<Rightarrow> event_queue \<Rightarrow> req_queue matching" where
  "drain 0 limit rq ob q = Inr (rq, ob, q)"
| "drain (Suc n) limit rq ob q =
     and_then (pop_events (unat (queue_len event_header_ops q)) q) (\<lambda>q0.
     and_then (process_requests limit rq ob q0) (\<lambda>(rq', ob', q'). drain n limit rq' ob' q'))"

lemma pop_events_run:
  "event_queue_ok q \<Longrightarrow> n = length (events q) \<Longrightarrow>
   \<exists>q'. pop_events n q = Inr q' \<and> event_queue_ok q' \<and> events q' = [] \<and> length (q_buf q') = length (q_buf q)"
proof (induction n arbitrary: q)
  case (Suc n)
  obtain x q1 where q1: "pop_front event_header_ops q = Inr (x, q1)" "event_queue_ok q1"
    "events q1 = tl (events q)" "length (q_buf q1) = length (q_buf q)"
    using event_q.pop_front_list [of q] Suc.prems(1) by (auto simp: event_queue_ok_def events_def)
  have "n = length (events q1)" using q1(3) Suc.prems(2) by simp
  from Suc.IH [OF q1(2) this] show ?case using q1 by simp
qed simp

lemma drain_run:
  "book_ok ob \<Longrightarrow> event_queue_ok q \<Longrightarrow> requests_ok (ob_market ob) rq \<Longrightarrow>
   5 * unat limit \<le> length (q_buf q) \<Longrightarrow> requests rq = [] \<or> backlog rq ob < n * unat limit + 1 \<Longrightarrow>
   \<exists>rq' ob' q'. drain n limit rq ob q = Inr (rq', ob', q') \<and> requests rq' = [] \<and> book_ok ob' \<and> event_queue_ok q'"
proof (induction n arbitrary: rq ob q)
  case 0
  have pos: "(request_work r = 0) = False" for r
    by (auto simp: request_work_def split: sum.split request_view.split)
  then have "requests rq = []" using 0 by (cases "requests rq") (auto simp: backlog_def pos)
  then show ?case using 0 by simp
next
  case (Suc n)
  have "unat (queue_len event_header_ops q) = length (events q)"
    by (simp add: queue_len_def events_def length_queue_list)
  then obtain q0 where q0: "pop_events (unat (queue_len event_header_ops q)) q = Inr q0" "event_queue_ok q0"
    "events q0 = []" "length (q_buf q0) = length (q_buf q)"
    using pop_events_run [OF Suc.prems(2)] by metis
  obtain rq' ob' q' where r: "process_requests limit rq ob q0 = Inr (rq', ob', q')"
    "book_ok ob'" "event_queue_ok q'" "requests_ok (ob_market ob') rq'" "length (q_buf q') = length (q_buf q0)"
    "requests rq' = [] \<or> unat limit + backlog rq' ob' \<le> backlog rq ob"
    by (rule process_requests_round [OF Suc.prems(1) q0(2) Suc.prems(3), of limit]) (use Suc.prems(4) q0 in auto)
  have "requests rq' = []" if "requests rq = []"
    using that r(1) request_peek [OF Suc.prems(3)] by (auto simp: process_requests_def split: if_splits)
  then have "requests rq' = [] \<or> backlog rq' ob' < n * unat limit + 1" using Suc.prems(5) r(6) by auto
  from Suc.IH [OF r(2-4) _ this] show ?case using q0 r Suc.prems(4) by simp
qed

text \<open>
  Claim C8: on a well-formed book, a call with a limit for whose events the event queue has room,
  five to a unit, succeeds; it empties the request queue, or it uses up as much of the backlog
  (resting orders, and what the waiting requests still ask for and one each) as the limit.
\<close>

theorem process_requests_progress:
  assumes "book_ok ob" and "event_queue_ok q" and "requests_ok (ob_market ob) rq"
    and "length (events q) + 5 * unat limit \<le> length (q_buf q)"
  shows "\<exists>rq' ob' q'. process_requests limit rq ob q = Inr (rq', ob', q') \<and>
    length (events q') \<le> length (events q) + 5 * unat limit \<and>
    (requests rq' = [] \<or> backlog rq' ob' + unat limit \<le> backlog rq ob)"
proof -
  obtain rq' ob' q' where r: "process_requests limit rq ob q = Inr (rq', ob', q')"
    "requests rq' = [] \<or> unat limit + backlog rq' ob' \<le> backlog rq ob"
    by (rule process_requests_round [OF assms])
  then show ?thesis
    using outcome_InrD [OF process_requests_room [OF assms(2,4)] r(1)] by (auto simp: add.commute)
qed

text \<open>
  Claim C7: matching comes to an end.  On a well-formed book, with an event queue that has room
  for the events of one call, rounds of emptying the event queue and working off requests
  under a limit neither fail nor go on for ever: as many rounds as the limit goes into the
  backlog leave no request waiting, and a well-formed book.
\<close>

theorem matching_drains:
  assumes "book_ok ob" and "event_queue_ok q" and "requests_ok (ob_market ob) rq"
    and "5 * unat limit \<le> length (q_buf q)" and "backlog rq ob \<le> n * unat limit"
  shows "\<exists>rq' ob' q'. drain n limit rq ob q = Inr (rq', ob', q') \<and> requests rq' = [] \<and> book_ok ob' \<and> event_queue_ok q'"
  by (rule drain_run [OF assms(1-4)]) (use assms(5) in simp)

lemma sample_backlog: "backlog sample_requests sample_book = 9"
proof -
  have "requests sample_requests = [sample_bid, sample_ask]"
    by (simp add: requests_def queue_list_def sample_requests_def request_header_ops_def upt_rec)
  then show ?thesis
    by (simp add: backlog_def book_size_def sample_book_def blank_slab_def slab_clear_def request_work_def
        sample_bid_def sample_ask_def request_as_view_new request_view_ok_def)
qed

lemma sample_events_room: "length (q_buf sample_events) = 8"
  by (simp add: sample_events_def)

theorem process_requests_progress_witness:
  "\<exists>rq' ob' q'. process_requests 1 sample_requests sample_book sample_events = Inr (rq', ob', q') \<and>
     length (events q') \<le> 5 \<and> (requests rq' = [] \<or> backlog rq' ob' \<le> 8)"
proof -
  have "length (events sample_events) + 5 * unat (1::u16) \<le> length (q_buf sample_events)"
    by (simp add: sample_events_ok(2) sample_events_room)
  from process_requests_progress [OF sample_book_ok sample_events_ok(1) sample_requests_ok this]
  show ?thesis by (simp add: sample_events_ok(2) sample_backlog)
qed

theorem matching_drains_witness:
  "\<exists>rq' ob' q'. drain 9 1 sample_requests sample_book sample_events = Inr (rq', ob', q') \<and> requests rq' = []"
proof -
  have "5 * unat (1::u16) \<le> length (q_buf sample_events)" "backlog sample_requests sample_book \<le> 9 * unat (1::u16)"
    by (simp_all add: sample_events_room sample_backlog)
  from matching_drains [OF sample_book_ok sample_events_ok(1) sample_requests_ok this]
  show ?thesis by blast
qed

end
