(* ===== verification/Layout.thy ===== *)
theory Layout
  imports Slab Market
begin

text \<open>
  The \<open>repr(C)\<close> layouts of the structs that live in accounts (\<open>dex/src/state.rs\<close>,
  \<open>dex/src/critbit.rs\<close>), as little-endian 64-bit words: what the casts of \<open>bytemuck\<close> read, and
  the words a struct written back leaves.  Padding is written as zeros and ignored when read.
  A node of the slab whose tag is none of the enumeration's reads as \<open>Uninitialized\<close>, as
  every match on tags treats the two alike.
\<close>

subsection \<open>Fields\<close>

definition aligned_at :: "u64 list \<Rightarrow> nat \<Rightarrow> aligned" where
  "aligned_at ws i = (ws ! i, ws ! (i + 1), ws ! (i + 2), ws ! (i + 3))"

definition aligned_words :: "aligned \<Rightarrow> u64 list" where
  "aligned_words a = (case a of (w0, w1, w2, w3) \<Rightarrow> [w0, w1, w2, w3])"

definition u128_at :: "u64 list \<Rightarrow> nat \<Rightarrow> u128" where
  "u128_at ws i = ucast (ws ! i) OR push_bit 64 (ucast (ws ! (i + 1)))"

definition u128_words :: "u128 \<Rightarrow> u64 list" where
  "u128_words x = [ucast x, ucast (drop_bit 64 x)]"

definition byte_at :: "u64 \<Rightarrow> nat \<Rightarrow> u8" where
  "byte_at w i = ucast (drop_bit (8 * i) w)"

definition low_half :: "u64 \<Rightarrow> u32" where
  "low_half w = ucast w"

definition high_half :: "u64 \<Rightarrow> u32" where
  "high_half w = ucast (drop_bit 32 w)"

definition halves :: "u32 \<Rightarrow> u32 \<Rightarrow> u64" where
  "halves lo hi = ucast lo OR push_bit 32 (ucast hi)"

lemma u128_at_words [simp]: "u128_at (u128_words x @ ws) 0 = x"
  by (rule bit_word_eqI) (auto simp: u128_at_def u128_words_def bit_simps dest: bit_imp_le_length)

lemma halves_parts [simp]: "low_half (halves lo hi) = lo" "high_half (halves lo hi) = hi"
  by (rule bit_word_eqI; auto simp: low_half_def high_half_def halves_def bit_simps
      dest: bit_imp_le_length)+

lemma byte_at_le:
  assumes "i < length bs" "length bs \<le> 8"
  shows "byte_at (u64_of_le bs) i = bs ! i"
proof (rule bit_word_eqI)
  fix j assume "j < LENGTH(8)"
  then have j: "j < 8" by simp
  then have d: "(8 * i + j) div 8 = i" "(8 * i + j) mod 8 = j" by simp_all
  show "bit (byte_at (u64_of_le bs) i) j = bit (bs ! i) j"
    using j assms by (simp add: byte_at_def u64_of_le_def bit_simps bit_le_word d)
qed

lemma low_half_le: "4 \<le> length bs \<Longrightarrow> low_half (u64_of_le bs) = le_word (take 4 bs)"
proof (rule bit_word_eqI)
  fix j assume "4 \<le> length bs" and "j < LENGTH(32)"
  moreover then have "j div 8 < 4" by simp
  ultimately show "bit (low_half (u64_of_le bs)) j = bit (le_word (take 4 bs) :: u32) j"
    by (simp add: low_half_def u64_of_le_def bit_simps bit_le_word)
qed

subsection \<open>The structs\<close>

definition market_of_words :: "u64 list \<Rightarrow> market_state option" where
  "market_of_words ws =
     (if length ws = 47 then Some
        \<lparr>ms_account_flags = ws ! 0, ms_own_address = aligned_at ws 1,
         ms_vault_signer_nonce = ws ! 5, ms_coin_mint = aligned_at ws 6,
         ms_pc_mint = aligned_at ws 10, ms_coin_vault = aligned_at ws 14,
         ms_coin_deposits_total = ws ! 18, ms_coin_fees_accrued = ws ! 19,
         ms_pc_vault = aligned_at ws 20, ms_pc_deposits_total = ws ! 24,
         ms_pc_fees_accrued = ws ! 25, ms_pc_dust_threshold = ws ! 26,
         ms_req_q = aligned_at ws 27, ms_event_q = aligned_at ws 31,
         ms_bids = aligned_at ws 35, ms_asks = aligned_at ws 39,
         ms_coin_lot_size = ws ! 43, ms_pc_lot_size = ws ! 44, ms_fee_rate_bps = ws ! 45,
         ms_referrer_rebates_accrued = ws ! 46\<rparr>
      else None)"

definition market_words :: "market_state \<Rightarrow> u64 list" where
  "market_words m =
     [ms_account_flags m] @ aligned_words (ms_own_address m) @ [ms_vault_signer_nonce m]
     @ aligned_words (ms_coin_mint m) @ aligned_words (ms_pc_mint m) @ aligned_words (ms_coin_vault m)
     @ [ms_coin_deposits_total m, ms_coin_fees_accrued m] @ aligned_words (ms_pc_vault m)
     @ [ms_pc_deposits_total m, ms_pc_fees_accrued m, ms_pc_dust_threshold m]
     @ aligned_words (ms_req_q m) @ aligned_words (ms_event_q m) @ aligned_words (ms_bids m)
     @ aligned_words (ms_asks m) @ [ms_coin_lot_size m, ms_pc_lot_size m, ms_fee_rate_bps m,
     ms_referrer_rebates_accrued m]"

definition open_orders_of_words :: "u64 list \<Rightarrow> open_orders option" where
  "open_orders_of_words ws =
     (if length ws = 402 then Some
        \<lparr>oo_account_flags = ws ! 0, oo_market = aligned_at ws 1, oo_owner = aligned_at ws 5,
         oo_native_coin_free = ws ! 9, oo_native_coin_total = ws ! 10,
         oo_native_pc_free = ws ! 11, oo_native_pc_total = ws ! 12,
         oo_free_slot_bits = u128_at ws 13, oo_is_bid_bits = u128_at ws 15,
         oo_orders = map (\<lambda>c. u128_at c 0) (chunks 2 (cut 17 256 ws)),
         oo_client_order_ids = cut 273 128 ws, oo_referrer_rebates_accrued = ws ! 401\<rparr>
      else None)"

definition open_orders_words :: "open_orders \<Rightarrow> u64 list" where
  "open_orders_words oo =
     [oo_account_flags oo] @ aligned_words (oo_market oo) @ aligned_words (oo_owner oo)
     @ [oo_native_coin_free oo, oo_native_coin_total oo, oo_native_pc_free oo, oo_native_pc_total oo]
     @ u128_words (oo_free_slot_bits oo) @ u128_words (oo_is_bid_bits oo)
     @ concat (map u128_words (oo_orders oo)) @ oo_client_order_ids oo
     @ [oo_referrer_rebates_accrued oo]"

definition request_of_words :: "u64 list \<Rightarrow> request" where
  "request_of_words ws =
     \<lparr>rq_flags = byte_at (ws ! 0) 0, rq_owner_slot = byte_at (ws ! 0) 1,
      rq_fee_tier = byte_at (ws ! 0) 2, rq_self_trade_behavior = byte_at (ws ! 0) 3,
      rq_max_coin_qty_or_cancel_id = ws ! 1, rq_native_pc_qty_locked = ws ! 2,
      rq_order_id = u128_at ws 3, rq_owner = aligned_at ws 5, rq_client_order_id = ws ! 9\<rparr>"

definition request_words :: "request \<Rightarrow> u64 list" where
  "request_words r =
     [u64_of_le [rq_flags r, rq_owner_slot r, rq_fee_tier r, rq_self_trade_behavior r],
      rq_max_coin_qty_or_cancel_id r, rq_native_pc_qty_locked r]
     @ u128_words (rq_order_id r) @ aligned_words (rq_owner r) @ [rq_client_order_id r]"

definition event_of_words :: "u64 list \<Rightarrow> event" where
  "event_of_words ws =
     \<lparr>ev_flags = byte_at (ws ! 0) 0, ev_owner_slot = byte_at (ws ! 0) 1,
      ev_fee_tier = byte_at (ws ! 0) 2, ev_native_qty_released = ws ! 1, ev_native_qty_paid = ws ! 2,
      ev_native_fee_or_rebate = ws ! 3, ev_order_id = u128_at ws 4, ev_owner = aligned_at ws 6,
      ev_client_order_id = ws ! 10\<rparr>"

definition event_words :: "event \<Rightarrow> u64 list" where
  "event_words e =
     [u64_of_le [ev_flags e, ev_owner_slot e, ev_fee_tier e], ev_native_qty_released e,
      ev_native_qty_paid e, ev_native_fee_or_rebate e]
     @ u128_words (ev_order_id e) @ aligned_words (ev_owner e) @ [ev_client_order_id e]"

definition node_of_words :: "u64 list \<Rightarrow> any_node" where
  "node_of_words ws =
     (let tag = low_half (ws ! 0) in
      if tag = 1 then InnerNode
        \<lparr>in_prefix_len = high_half (ws ! 0), in_key = u128_at ws 1,
         in_children = (low_half (ws ! 3), high_half (ws ! 3))\<rparr>
      else if tag = 2 then LeafNode
        \<lparr>lf_owner_slot = byte_at (ws ! 0) 4, lf_fee_tier = byte_at (ws ! 0) 5, lf_key = u128_at ws 1,
         lf_owner = aligned_at ws 3, lf_quantity = ws ! 7, lf_client_order_id = ws ! 8\<rparr>
      else if tag = 3 then FreeNode (high_half (ws ! 0))
      else if tag = 4 then LastFreeNode (high_half (ws ! 0))
      else Uninitialized)"

primrec node_words :: "any_node \<Rightarrow> u64 list" where
  "node_words Uninitialized = replicate 9 0"
| "node_words (InnerNode n) =
     [halves 1 (in_prefix_len n)] @ u128_words (in_key n)
     @ [halves (fst (in_children n)) (snd (in_children n)), 0, 0, 0, 0, 0]"
| "node_words (LeafNode l) =
     [u64_of_le [2, 0, 0, 0, lf_owner_slot l, lf_fee_tier l]] @ u128_words (lf_key l)
     @ aligned_words (lf_owner l) @ [lf_quantity l, lf_client_order_id l]"
| "node_words (FreeNode n) = halves 3 n # replicate 8 0"
| "node_words (LastFreeNode n) = halves 4 n # replicate 8 0"

subsection \<open>Elements of fixed width\<close>

text \<open>
  What the array casts rely on: every element is written as the same number of words, which
  read back as the element.
\<close>

locale fixed_width =
  fixes width :: nat and words :: "'a \<Rightarrow> u64 list" and of_words :: "u64 list \<Rightarrow> 'a"
  assumes width_pos: "0 < width"
    and words_length: "length (words x) = width"
    and of_words_words: "of_words (words x) = x"
begin

lemma read_array: "length slop < width \<Longrightarrow>
  map of_words (chunks width (concat (map words xs) @ slop)) = xs"
proof (induction xs)
  case Nil
  then show ?case by (subst chunks.simps) simp
next
  case (Cons x xs)
  then show ?case
    using width_pos by (subst chunks.simps) (simp add: words_length of_words_words)
qed

lemma read_array_exact: "map of_words (chunks width (concat (map words xs))) = xs"
  using read_array [of "[]" xs] width_pos by simp

lemma array_length: "length (concat (map words xs)) = width * length xs"
  by (induction xs) (simp_all add: words_length)

end

lemmas layout_defs = aligned_at_def aligned_words_def u128_words_def byte_at_le

lemma u128_at_pair [simp]: "u128_at (ucast x # ucast (drop_bit 64 x) # ws) 0 = x"
  using u128_at_words [of x ws] by (simp add: u128_words_def)

lemma u128_at_Suc [simp]: "u128_at (w # ws) (Suc i) = u128_at ws i"
  by (simp add: u128_at_def)

lemma u128_at_numeral [simp]: "u128_at (w # ws) (numeral n) = u128_at ws (pred_numeral n)"
  by (simp add: u128_at_def numeral_eq_Suc)

lemma u128_at_one [simp]: "u128_at (w # ws) 1 = u128_at ws 0"
  by (simp add: u128_at_def)

lemma tag_parts: "low_half (u64_of_le [2, 0, 0, 0, a, b]) = 2"
  by (simp add: low_half_le)

interpretation u128_array: fixed_width 2 u128_words "\<lambda>ws. u128_at ws 0"
  by unfold_locales (simp_all add: u128_words_def)

interpretation request_array: fixed_width 10 request_words request_of_words
  by unfold_locales
    (simp_all add: request_words_def request_of_words_def layout_defs split: prod.splits)

interpretation event_array: fixed_width 11 event_words event_of_words
  by unfold_locales
    (simp_all add: event_words_def event_of_words_def layout_defs split: prod.splits)

lemma low_half_zero: "low_half 0 = 0"
  by (simp add: low_half_def)

lemma node_of_words_words: "node_of_words (node_words n) = n"
proof (cases n)
  case (LeafNode l)
  then show ?thesis
    by (simp add: node_of_words_def layout_defs tag_parts split: prod.splits)
qed (simp_all add: node_of_words_def layout_defs low_half_zero Let_def)

lemma length_node_words: "length (node_words n) = 9"
  by (cases n) (simp_all add: layout_defs split: prod.splits)

interpretation node_array: fixed_width 9 node_words node_of_words
  by unfold_locales (simp_all add: node_of_words_words length_node_words)

text \<open>
  \<open>strip_header\<close> cuts the words of an account into a header and the elements; the queues and
  the slab then read as follows.  \<open>Slab::new\<close> panics when the header does not fit.
\<close>

definition queue_of_words ::
  "nat \<Rightarrow> (u64 list \<Rightarrow> 'h) \<Rightarrow> nat \<Rightarrow> (u64 list \<Rightarrow> 'a) \<Rightarrow> u64 list \<Rightarrow> ('h, 'a) queue option" where
  "queue_of_words hwords header_of ewords element_of ws =
     (if hwords \<le> length ws
      then Some \<lparr>q_header = header_of (take hwords ws),
                 q_buf = map element_of (chunks ewords (drop hwords ws))\<rparr>
      else None)"

definition request_header_of_words :: "u64 list \<Rightarrow> request_queue_header" where
  "request_header_of_words ws =
     \<lparr>rqh_account_flags = ws ! 0, rqh_head = ws ! 1, rqh_count = ws ! 2, rqh_next_seq_num = ws ! 3\<rparr>"

definition request_header_words :: "request_queue_header \<Rightarrow> u64 list" where
  "request_header_words h = [rqh_account_flags h, rqh_head h, rqh_count h, rqh_next_seq_num h]"

definition event_header_of_words :: "u64 list \<Rightarrow> event_queue_header" where
  "event_header_of_words ws =
     \<lparr>eqh_account_flags = ws ! 0, eqh_head = ws ! 1, eqh_count = ws ! 2, eqh_seq_num = ws ! 3\<rparr>"

definition event_header_words :: "event_queue_header \<Rightarrow> u64 list" where
  "event_header_words h = [eqh_account_flags h, eqh_head h, eqh_count h, eqh_seq_num h]"

type_synonym request_queue_account = "(request_queue_header, request) queue"
type_synonym event_queue_account = "(event_queue_header, event) queue"

definition request_queue_of_words :: "u64 list \<Rightarrow> request_queue_account option" where
  "request_queue_of_words ws = queue_of_words 4 request_header_of_words 10 request_of_words ws"

definition request_queue_words :: "request_queue_account \<Rightarrow> u64 list" where
  "request_queue_words q = request_header_words (q_header q) @ concat (map request_words (q_buf q))"

definition event_queue_of_words :: "u64 list \<Rightarrow> event_queue_account option" where
  "event_queue_of_words ws = queue_of_words 4 event_header_of_words 11 event_of_words ws"

definition event_queue_words :: "event_queue_account \<Rightarrow> u64 list" where
  "event_queue_words q = event_header_words (q_header q) @ concat (map event_words (q_buf q))"

definition slab_of_words :: "u64 list \<Rightarrow> slab option" where
  "slab_of_words ws =
     (if 4 \<le> length ws
      then Some \<lparr>header = \<lparr>bump_index = ws ! 0, free_list_len = ws ! 1, free_list_head = low_half (ws ! 2),
                           root_node = high_half (ws ! 2), leaf_count = ws ! 3\<rparr>,
                 nodes = map node_of_words (chunks 9 (drop 4 ws))\<rparr>
      else None)"

definition slab_words :: "slab \<Rightarrow> u64 list" where
  "slab_words s =
     [bump_index (header s), free_list_len (header s),
      halves (free_list_head (header s)) (root_node (header s)), leaf_count (header s)]
     @ concat (map node_words (nodes s))"

subsection \<open>What is written back is read again\<close>

lemma market_layout: "market_of_words (market_words m) = Some m"
  by (simp add: market_of_words_def market_words_def layout_defs split: prod.splits)

lemma open_orders_layout:
  assumes "oo_arrays oo"
  shows "open_orders_of_words (open_orders_words oo) = Some oo"
proof -
  have l: "length (oo_orders oo) = 128" "length (oo_client_order_ids oo) = 128"
    using assms by (simp_all add: oo_arrays_def)
  let ?o = "concat (map u128_words (oo_orders oo))" and ?c = "oo_client_order_ids oo"
  obtain pre where ws: "open_orders_words oo = pre @ ?o @ ?c @ [oo_referrer_rebates_accrued oo]"
    and pre: "length pre = 17" "pre ! 0 = oo_account_flags oo" "aligned_at pre 1 = oo_market oo"
      "aligned_at pre 5 = oo_owner oo" "pre ! 9 = oo_native_coin_free oo" "pre ! 10 = oo_native_coin_total oo"
      "pre ! 11 = oo_native_pc_free oo" "pre ! 12 = oo_native_pc_total oo"
      "u128_at pre 13 = oo_free_slot_bits oo" "u128_at pre 15 = oo_is_bid_bits oo"
  proof (rule that)
    let ?p = "[oo_account_flags oo] @ aligned_words (oo_market oo) @ aligned_words (oo_owner oo)
       @ [oo_native_coin_free oo, oo_native_coin_total oo, oo_native_pc_free oo, oo_native_pc_total oo]
       @ u128_words (oo_free_slot_bits oo) @ u128_words (oo_is_bid_bits oo)"
    show "open_orders_words oo = ?p @ ?o @ ?c @ [oo_referrer_rebates_accrued oo]"
      by (simp add: open_orders_words_def)
  qed (simp_all add: layout_defs split: prod.splits)
  have o: "length ?o = 256" using u128_array.array_length l(1) by simp
  have head: "i < 17 \<Longrightarrow> open_orders_words oo ! i = pre ! i" for i using ws pre(1) by (simp add: nth_append)
  have "cut 17 256 (open_orders_words oo) = ?o" "cut 273 128 (open_orders_words oo) = ?c"
    "open_orders_words oo ! 401 = oo_referrer_rebates_accrued oo" "length (open_orders_words oo) = 402"
    using ws pre(1) o l(2) by (simp_all add: cut_def nth_append)
  then show ?thesis
    using pre u128_array.read_array_exact [of "oo_orders oo"] head
    by (simp add: open_orders_of_words_def aligned_at_def u128_at_def)
qed

lemma request_queue_layout: "request_queue_of_words (request_queue_words q @ slop) = Some q"
  if "length slop < 10"
  using request_array.read_array [OF that, of "q_buf q"]
  by (simp add: request_queue_of_words_def queue_of_words_def request_queue_words_def
      request_header_words_def request_header_of_words_def)

lemma event_queue_layout: "event_queue_of_words (event_queue_words q @ slop) = Some q"
  if "length slop < 11"
  using event_array.read_array [OF that, of "q_buf q"]
  by (simp add: event_queue_of_words_def queue_of_words_def event_queue_words_def
      event_header_words_def event_header_of_words_def)

lemma slab_layout: "slab_of_words (slab_words s @ slop) = Some s" if "length slop < 9"
  using node_array.read_array [OF that, of "nodes s"]
  by (simp add: slab_of_words_def slab_words_def)

text \<open>
  Every struct that lives in an account is read back unchanged from the words it is
  written as: the market, an open-orders account with its 128 slots, the two queues and a
  side of the book, the last three whatever words too few for one more element follow.
\<close>

theorem layout_round_trip:
  assumes "oo_arrays oo" and "length slop < 9"
  shows "market_of_words (market_words m) = Some m
    \<and> open_orders_of_words (open_orders_words oo) = Some oo
    \<and> request_queue_of_words (request_queue_words rq @ slop) = Some rq
    \<and> event_queue_of_words (event_queue_words eq @ slop) = Some eq
    \<and> slab_of_words (slab_words s @ slop) = Some s"
  using assms market_layout open_orders_layout request_queue_layout [of slop]
    event_queue_layout [of slop] slab_layout [of slop] by simp

theorem layout_round_trip_witness:
  "market_of_words (market_words sample_market) = Some sample_market
   \<and> open_orders_of_words (open_orders_words sample_open_orders) = Some sample_open_orders"
  using layout_round_trip [OF sample_open_orders_arrays, of "[]"] by simp

end
