(* ===== verification/Accounts.thy ===== *)
theory Accounts
  imports Layout
begin

text \<open>
  The accounts an instruction is given and how the program gets at them
  (\<open>dex/src/state.rs\<close>: \<open>MarketState::load\<close> and the loaders next to it, and the validated
  wrappers of \<open>account_parser\<close>).  A public key is its four aligned words.  The run-time checks
  of \<open>RefCell\<close> (an account passed in two places and borrowed twice is an error) are not
  modelled; \<open>chain\<close> holds what the SDK, the token program and base-58 constants provide.
\<close>

record account_info =
  ai_key :: aligned
  ai_owner :: aligned
  ai_is_signer :: bool
  ai_lamports :: u64
  ai_data :: "u8 list"

type_synonym rent = "u64 \<Rightarrow> nat \<Rightarrow> bool"  \<comment> \<open>\<open>Rent::is_exempt\<close>\<close>

record chain =
  ch_spl_token_id :: aligned
  ch_is_rent_id :: "aligned \<Rightarrow> bool"
  ch_srm_token :: aligned
  ch_msrm_token :: aligned
  ch_disable_authority :: aligned
  ch_fee_sweeper :: aligned
  ch_mint_len :: nat
  ch_token_account_len :: nat
  ch_rent_from_account :: "account_info \<Rightarrow> rent option"
  ch_create_program_address :: "u8 list list \<Rightarrow> aligned \<Rightarrow> program_error + aligned"

text \<open>\<open>r.or(check_unreachable!())\<close>: any error becomes the assertion of its line.\<close>

definition or_assertion :: "u16 \<Rightarrow> dex_fault + 'a \<Rightarrow> dex_fault + 'a" where
  "or_assertion l r =
     (case r of Inl (DexErr _) \<Rightarrow> Inl (assertion_fault StateFile l) | _ \<Rightarrow> r)"

text \<open>\<open>check_assert!(..).map_err(|_| code)\<close>.\<close>

definition check_or_code :: "bool \<Rightarrow> dex_error_code \<Rightarrow> dex_fault + unit" where
  "check_or_code b c = guard b (err_code c)"

subsection \<open>Loading\<close>

definition load_market :: "aligned \<Rightarrow> account_info \<Rightarrow> dex_fault + market_state" where
  "load_market program_id acc =
     and_then (check_assert StateFile 202 (ai_owner acc = program_id)) (\<lambda>_.
     and_then (check_account_padding (ai_data acc)) (\<lambda>(_, ws).
     and_then (unwrap (market_of_words ws)) (\<lambda>m.
     and_then (ms_check_flags m) (\<lambda>_. Inr m))))"

definition load_orders_mut ::
  "market_state \<Rightarrow> account_info \<Rightarrow> account_info option \<Rightarrow> aligned \<Rightarrow> rent option \<Rightarrow>
   dex_fault + open_orders" where
  "load_orders_mut m orders_account owner_account program_id rent =
     and_then (check_assert StateFile 236 (ai_owner orders_account = program_id)) (\<lambda>_.
     and_then (strip_account_padding True (ai_data orders_account)) (\<lambda>(_, ws).
     and_then (unwrap (open_orders_of_words ws)) (\<lambda>oo.
     and_then
       (if oo_account_flags oo = 0 then
          and_then (ok_or rent (err_code RentNotProvided)) (\<lambda>is_exempt.
          and_then (ok_or owner_account (err_code OwnerAccountNotProvided)) (\<lambda>owner.
          if \<not> is_exempt (ai_lamports orders_account) (length (ai_data orders_account))
          then Inl (err_code OrdersNotRentExempt)
          else oo_init (ms_own_address m) (ai_key owner) oo))
        else Inr oo) (\<lambda>oo1.
     and_then (oo_check_flags oo1) (\<lambda>_.
     and_then (check_or_code (oo_market oo1 = ms_own_address m) WrongOrdersAccount) (\<lambda>_.
     and_then
       (case owner_account of
          None \<Rightarrow> Inr ()
        | Some owner \<Rightarrow> check_or_code (oo_owner oo1 = ai_key owner) WrongOrdersAccount) (\<lambda>_.
     Inr oo1)))))))"

text \<open>The flag word of a header must be one of the enumeration's and exactly the given two.\<close>

definition check_header_flags :: "u16 \<Rightarrow> u64 \<Rightarrow> u64 \<Rightarrow> dex_fault + unit" where
  "check_header_flags l account_flags required =
     and_then (unwrap (account_flags_from_bits account_flags)) (\<lambda>flags.
     check_assert StateFile l (flags = required))"

definition load_side :: "u16 \<Rightarrow> u64 \<Rightarrow> account_info \<Rightarrow> dex_fault + slab" where
  "load_side l flag acc =
     and_then (strip_account_padding False (ai_data acc)) (\<lambda>(_, ws).
     case ws of
       [] \<Rightarrow> Inl Panic
     | flags # buf \<Rightarrow>
         and_then (check_header_flags l flags (AF_Initialized OR flag)) (\<lambda>_.
         unwrap (slab_of_words buf)))"

definition load_bids_mut :: "market_state \<Rightarrow> account_info \<Rightarrow> dex_fault + slab" where
  "load_bids_mut m acc =
     and_then (check_or_code (ai_key acc = ms_bids m) WrongBidsAccount) (\<lambda>_. load_side 268 AF_Bids acc)"

definition load_asks_mut :: "market_state \<Rightarrow> account_info \<Rightarrow> dex_fault + slab" where
  "load_asks_mut m acc =
     and_then (check_or_code (ai_key acc = ms_asks m) WrongAsksAccount) (\<lambda>_. load_side 277 AF_Asks acc)"

definition load_request_queue_mut :: "market_state \<Rightarrow> account_info \<Rightarrow> dex_fault + request_queue_account" where
  "load_request_queue_mut m acc =
     and_then (check_or_code (ai_key acc = ms_req_q m) WrongRequestQueueAccount) (\<lambda>_.
     and_then (strip_account_padding False (ai_data acc)) (\<lambda>(_, ws).
     and_then (unwrap (request_queue_of_words ws)) (\<lambda>q.
     and_then (check_header_flags 287 (rqh_account_flags (q_header q)) (AF_Initialized OR AF_RequestQueue))
       (\<lambda>_. Inr q))))"

definition load_event_queue_mut :: "market_state \<Rightarrow> account_info \<Rightarrow> dex_fault + event_queue_account" where
  "load_event_queue_mut m acc =
     and_then (check_or_code (ai_key acc = ms_event_q m) WrongEventQueueAccount) (\<lambda>_.
     and_then (strip_account_padding False (ai_data acc)) (\<lambda>(_, ws).
     and_then (unwrap (event_queue_of_words ws)) (\<lambda>q.
     and_then (check_header_flags 300 (eqh_account_flags (q_header q)) (AF_Initialized OR AF_EventQueue))
       (\<lambda>_. Inr q))))"

subsection \<open>Storing\<close>

text \<open>
  What a mutable reference leaves in the account: the padding, the struct's words, and the
  words behind them as they were.
\<close>

definition inner_words :: "u8 list \<Rightarrow> u64 list" where
  "inner_words d = (case words_of_bytes (fst (snd (split_padding d))) of Some ws \<Rightarrow> ws | None \<Rightarrow> [])"

definition store_words :: "u64 list \<Rightarrow> account_info \<Rightarrow> account_info" where
  "store_words ws acc =
     acc\<lparr>ai_data := ACCOUNT_HEAD_PADDING @ bytes_of_words (ws @ drop (length ws) (inner_words (ai_data acc)))
                    @ ACCOUNT_TAIL_PADDING\<rparr>"

text \<open>Two account infos with one key share their data.\<close>

definition update_account :: "aligned \<Rightarrow> (account_info \<Rightarrow> account_info) \<Rightarrow> account_info list \<Rightarrow> account_info list" where
  "update_account key f accounts = map (\<lambda>a. if ai_key a = key then f a else a) accounts"

subsection \<open>The validated wrappers\<close>

text \<open>A wrapper's \<open>new\<close> fails or returns its account.\<close>

definition token_view :: "account_info \<Rightarrow> token_account" where
  "token_view acc = \<lparr>ta_key = ai_key acc, ta_data = ai_data acc\<rparr>"

definition byte_of :: "u8 list \<Rightarrow> nat \<Rightarrow> dex_fault + u8" where  \<comment> \<open>\<open>data[i]\<close>\<close>
  "byte_of d i = (if i < length d then Inr (d ! i) else Inl Panic)"

definition spl_token_program_new :: "chain \<Rightarrow> account_info \<Rightarrow> dex_fault + unit" where
  "spl_token_program_new ch acc = check_assert StateFile 1205 (ai_key acc = ch_spl_token_id ch)"

definition token_mint_new :: "chain \<Rightarrow> account_info \<Rightarrow> dex_fault + unit" where
  "token_mint_new ch mint =
     and_then (check_assert StateFile 1210 (ai_owner mint = ch_spl_token_id ch)) (\<lambda>_.
     and_then (check_assert StateFile 1212 (length (ai_data mint) = ch_mint_len ch)) (\<lambda>_.
     and_then (byte_of (ai_data mint) 0x2d) (\<lambda>is_initialized.
     check_assert StateFile 1215 (is_initialized = 1))))"

definition token_account_new :: "chain \<Rightarrow> account_info \<Rightarrow> dex_fault + token_account" where
  "token_account_new ch acc =
     and_then (check_assert StateFile 1220 (ai_owner acc = ch_spl_token_id ch)) (\<lambda>_.
     and_then (check_assert StateFile 1222 (length (ai_data acc) = ch_token_account_len ch)) (\<lambda>_.
     and_then (byte_of (ai_data acc) 0x6c) (\<lambda>is_initialized.
     and_then (check_assert StateFile 1225 (is_initialized = 1)) (\<lambda>_. Inr (token_view acc)))))"

definition rent_sysvar_new :: "chain \<Rightarrow> account_info \<Rightarrow> dex_fault + unit" where
  "rent_sysvar_new ch acc = check_assert StateFile 1259 (ch_is_rent_id ch (ai_key acc))"

definition signer_new :: "account_info \<Rightarrow> dex_fault + unit" where
  "signer_new acc = check_assert StateFile 1264 (ai_is_signer acc)"

definition signing_fee_sweeper_new :: "chain \<Rightarrow> account_info \<Rightarrow> dex_fault + unit" where
  "signing_fee_sweeper_new ch acc =
     and_then (check_assert StateFile 1269 (ai_is_signer acc)) (\<lambda>_.
     check_assert StateFile 1270 (ai_key acc = ch_fee_sweeper ch))"

definition signing_disable_authority_new :: "chain \<Rightarrow> account_info \<Rightarrow> dex_fault + unit" where
  "signing_disable_authority_new ch acc =
     and_then (check_assert StateFile 1275 (ai_is_signer acc)) (\<lambda>_.
     check_assert StateFile 1276 (ai_key acc = ch_disable_authority ch))"

text \<open>\<open>from_account\<close> of the four wrappers around token accounts: the check is the market's.\<close>

definition token_from_account ::
  "chain \<Rightarrow> (token_account \<Rightarrow> market_state \<Rightarrow> dex_fault + unit) \<Rightarrow> account_info \<Rightarrow> market_state \<Rightarrow>
   dex_fault + aligned" where
  "token_from_account ch check acc m =
     and_then (token_account_new ch acc) (\<lambda>t.
     and_then (check t m) (\<lambda>_. Inr (ta_key t)))"

definition gen_vault_signer_seeds :: "u64 \<Rightarrow> aligned \<Rightarrow> u8 list list" where
  "gen_vault_signer_seeds nonce market = [aligned_bytes market, u64_to_le nonce]"

definition gen_vault_signer_key :: "chain \<Rightarrow> u64 \<Rightarrow> aligned \<Rightarrow> aligned \<Rightarrow> dex_fault + aligned" where
  "gen_vault_signer_key ch nonce market program_id =
     map_err (\<lambda>e. DexErr (ProgramError e))
       (ch_create_program_address ch (gen_vault_signer_seeds nonce market) program_id)"

definition vault_signer_new :: "chain \<Rightarrow> account_info \<Rightarrow> market_state \<Rightarrow> aligned \<Rightarrow> dex_fault + unit" where
  "vault_signer_new ch acc m program_id =
     and_then (gen_vault_signer_key ch (ms_vault_signer_nonce m) (ms_own_address m) program_id) (\<lambda>k.
     check_assert StateFile 1317 (k = ai_key acc))"

definition token_balance :: "account_info \<Rightarrow> dex_fault + u64" where
  "token_balance acc =
     (if 72 \<le> length (ai_data acc) then Inr (u64_of_le (cut 64 8 (ai_data acc))) else Inl Panic)"

definition token_account_and_mint_new :: "account_info \<Rightarrow> account_info \<Rightarrow> dex_fault + unit" where
  "token_account_and_mint_new account mint =
     and_then (bytes_prefix 32 (ai_data account)) (\<lambda>p.
     check_assert StateFile 1339 (aligned_bytes (ai_key mint) = p))"

end
