(* ===== verification/Instruction.thy ===== *)
theory Instruction
  imports Orders Bytes
begin

text \<open>
  The instructions of the exchange program and their checked decoder
  (\<open>dex/src/instruction.rs\<close>).  The encoder is a call of the \<open>bincode\<close> package, which is an
  argument here; \<open>wire\<close> is the format that package documents for these types (a version
  byte, the variant's index as four bytes, then the fields in order, all little-endian), and
  the decoder is proved to accept exactly that format.
\<close>

subsection \<open>The instructions\<close>

record initialize_market_instruction =
  im_coin_lot_size :: u64
  im_pc_lot_size :: u64
  im_fee_rate_bps :: u16
  im_vault_signer_nonce :: u64
  im_pc_dust_threshold :: u64

record new_order_instruction_v1 =
  n1_side :: side
  n1_limit_price :: u64
  n1_max_qty :: u64
  n1_order_type :: order_type
  n1_client_id :: u64

record new_order_instruction_v2 =
  n2_side :: side
  n2_limit_price :: u64
  n2_max_qty :: u64
  n2_order_type :: order_type
  n2_client_id :: u64
  n2_self_trade_behavior :: self_trade_behavior

definition add_self_trade_behavior ::
  "self_trade_behavior \<Rightarrow> new_order_instruction_v1 \<Rightarrow> new_order_instruction_v2" where
  "add_self_trade_behavior b i =
     \<lparr>n2_side = n1_side i, n2_limit_price = n1_limit_price i, n2_max_qty = n1_max_qty i,
      n2_order_type = n1_order_type i, n2_client_id = n1_client_id i, n2_self_trade_behavior = b\<rparr>"

record cancel_order_instruction =
  co_side :: side
  co_order_id :: u128
  co_owner :: aligned
  co_owner_slot :: u8

datatype market_instruction =
    InitializeMarket initialize_market_instruction
  | NewOrder new_order_instruction_v1
  | MatchOrders u16
  | ConsumeEvents u16
  | CancelOrder cancel_order_instruction
  | SettleFunds
  | CancelOrderByClientId u64
  | DisableMarket
  | SweepFees
  | NewOrderV2 new_order_instruction_v2

subsection \<open>The decoder\<close>

definition unpack_new_order_v1 :: "u8 list \<Rightarrow> new_order_instruction_v1 option" where
  "unpack_new_order_v1 data =
     (let client_id = u64_of_le (cut 24 8 data) in
      Option.bind (side_try_from (le_word (cut 0 4 data))) (\<lambda>sd.
      Option.bind (nonzero_new (u64_of_le (cut 4 8 data))) (\<lambda>limit_price.
      Option.bind (nonzero_new (u64_of_le (cut 12 8 data))) (\<lambda>max_qty.
      Option.bind (order_type_try_from (le_word (cut 20 4 data))) (\<lambda>order_type.
      Some \<lparr>n1_side = sd, n1_limit_price = limit_price, n1_max_qty = max_qty,
            n1_order_type = order_type, n1_client_id = client_id\<rparr>)))))"

text \<open>\<open>u32::try_into::<u8>\<close> refuses a value above 255.\<close>

definition u8_try_from_u32 :: "u32 \<Rightarrow> u8 option" where
  "u8_try_from_u32 x = (if x < 256 then Some (ucast x) else None)"

definition unpack :: "u8 list \<Rightarrow> market_instruction option" where
  "unpack versioned_bytes =
     (if length versioned_bytes < 5 \<or> length versioned_bytes > 58 then None
      else
        let version = versioned_bytes ! 0;
            discrim = le_word (cut 1 4 versioned_bytes) :: u32;
            data = drop 5 versioned_bytes;
            len = length data
        in
        if version \<noteq> 0 then None
        else if discrim = 0 \<and> len = 34 then
          Some (InitializeMarket
            \<lparr>im_coin_lot_size = u64_of_le (cut 0 8 data), im_pc_lot_size = u64_of_le (cut 8 8 data),
             im_fee_rate_bps = le_word (cut 16 2 data),
             im_vault_signer_nonce = u64_of_le (cut 18 8 data),
             im_pc_dust_threshold = u64_of_le (cut 26 8 data)\<rparr>)
        else if discrim = 1 \<and> len = 32 then map_option NewOrder (unpack_new_order_v1 data)
        else if discrim = 2 \<and> len = 2 then Some (MatchOrders (le_word data))
        else if discrim = 3 \<and> len = 2 then Some (ConsumeEvents (le_word data))
        else if discrim = 4 \<and> len = 53 then
          Option.bind (side_try_from (le_word (cut 0 4 data))) (\<lambda>sd.
          Some (CancelOrder
            \<lparr>co_side = sd, co_order_id = le_word (cut 4 16 data),
             co_owner = aligned_of_bytes (cut 20 32 data), co_owner_slot = data ! 52\<rparr>))
        else if discrim = 5 \<and> len = 0 then Some SettleFunds
        else if discrim = 6 \<and> len = 8 then Some (CancelOrderByClientId (u64_of_le data))
        else if discrim = 7 \<and> len = 0 then Some DisableMarket
        else if discrim = 8 \<and> len = 0 then Some SweepFees
        else if discrim = 9 \<and> len = 36 then
          Option.bind (unpack_new_order_v1 (cut 0 32 data)) (\<lambda>v1.
          Option.bind (u8_try_from_u32 (le_word (cut 32 4 data))) (\<lambda>b.
          Option.bind (self_trade_behavior_try_from b) (\<lambda>stb.
          Some (NewOrderV2 (add_self_trade_behavior stb v1)))))
        else None)"

text \<open>\<open>pack\<close>, with \<open>bincode::serialize\<close> on the pair of the version and the instruction.\<close>

definition pack :: "(u8 \<times> market_instruction \<Rightarrow> u8 list option) \<Rightarrow> market_instruction \<Rightarrow> dex_fault + u8 list" where
  "pack serialize i = unwrap (serialize (0, i))"

subsection \<open>The format\<close>

definition wire_side :: "side \<Rightarrow> u8 list" where
  "wire_side sd = le_bytes 4 (ucast (side_u8 sd) :: u32)"

definition wire_order_type :: "order_type \<Rightarrow> u8 list" where
  "wire_order_type t =
     le_bytes 4 ((case t of Limit \<Rightarrow> 0 | ImmediateOrCancel \<Rightarrow> 1 | PostOnly \<Rightarrow> 2) :: u32)"

definition wire_v1 :: "new_order_instruction_v1 \<Rightarrow> u8 list" where
  "wire_v1 i = wire_side (n1_side i) @ u64_to_le (n1_limit_price i) @ u64_to_le (n1_max_qty i)
     @ wire_order_type (n1_order_type i) @ u64_to_le (n1_client_id i)"

definition v1_of_v2 :: "new_order_instruction_v2 \<Rightarrow> new_order_instruction_v1" where
  "v1_of_v2 i = \<lparr>n1_side = n2_side i, n1_limit_price = n2_limit_price i, n1_max_qty = n2_max_qty i,
     n1_order_type = n2_order_type i, n1_client_id = n2_client_id i\<rparr>"

primrec wire_fields :: "market_instruction \<Rightarrow> u32 \<times> u8 list" where
  "wire_fields (InitializeMarket i) = (0, u64_to_le (im_coin_lot_size i) @ u64_to_le (im_pc_lot_size i)
     @ le_bytes 2 (im_fee_rate_bps i) @ u64_to_le (im_vault_signer_nonce i)
     @ u64_to_le (im_pc_dust_threshold i))"
| "wire_fields (NewOrder i) = (1, wire_v1 i)"
| "wire_fields (MatchOrders l) = (2, le_bytes 2 l)"
| "wire_fields (ConsumeEvents l) = (3, le_bytes 2 l)"
| "wire_fields (CancelOrder i) = (4, wire_side (co_side i) @ le_bytes 16 (co_order_id i)
     @ aligned_bytes (co_owner i) @ [co_owner_slot i])"
| "wire_fields SettleFunds = (5, [])"
| "wire_fields (CancelOrderByClientId c) = (6, u64_to_le c)"
| "wire_fields DisableMarket = (7, [])"
| "wire_fields SweepFees = (8, [])"
| "wire_fields (NewOrderV2 i) = (9, wire_v1 (v1_of_v2 i)
     @ le_bytes 4 (ucast (self_trade_behavior_u8 (n2_self_trade_behavior i)) :: u32))"

definition wire :: "u8 \<Rightarrow> market_instruction \<Rightarrow> u8 list" where
  "wire version i = (case wire_fields i of (discrim, body) \<Rightarrow> version # le_bytes 4 discrim @ body)"

text \<open>What the Rust types of the fields guarantee: prices and quantities are \<open>NonZeroU64\<close>.\<close>

definition v1_ok :: "new_order_instruction_v1 \<Rightarrow> bool" where
  "v1_ok i \<longleftrightarrow> n1_limit_price i \<noteq> 0 \<and> n1_max_qty i \<noteq> 0"

definition instruction_ok :: "market_instruction \<Rightarrow> bool" where
  "instruction_ok i = (case i of NewOrder n \<Rightarrow> v1_ok n | NewOrderV2 n \<Rightarrow> v1_ok (v1_of_v2 n) | _ \<Rightarrow> True)"

subsection \<open>The decoder accepts exactly the format\<close>

lemma cut_field [simp]:
  "cut 0 8 (u64_to_le w @ ys) = u64_to_le w"
  "cut 0 n (le_bytes n v @ ys) = le_bytes n v"
  "cut 0 32 (aligned_bytes a @ ys) = aligned_bytes a"
  "cut 0 4 (wire_side sd @ ys) = wire_side sd"
  "cut 0 4 (wire_order_type t @ ys) = wire_order_type t"
  "cut 0 32 (wire_v1 i @ ys) = wire_v1 i"
  by (simp_all add: cut_def wire_side_def wire_order_type_def wire_v1_def)

lemma cut_skip [simp]:
  "8 \<le> i \<Longrightarrow> cut i n (u64_to_le w @ ys) = cut (i - 8) n ys"
  "k \<le> i \<Longrightarrow> cut i n (le_bytes k v @ ys) = cut (i - k) n ys"
  "32 \<le> i \<Longrightarrow> cut i n (aligned_bytes a @ ys) = cut (i - 32) n ys"
  "4 \<le> i \<Longrightarrow> cut i n (wire_side sd @ ys) = cut (i - 4) n ys"
  "4 \<le> i \<Longrightarrow> cut i n (wire_order_type t @ ys) = cut (i - 4) n ys"
  "32 \<le> i \<Longrightarrow> cut i n (wire_v1 v1 @ ys) = cut (i - 32) n ys"
  by (simp_all add: cut_append_right wire_side_def wire_order_type_def wire_v1_def)

lemma cut_field_end [simp]:
  "cut 0 8 (u64_to_le w) = u64_to_le w"
  "cut 0 n (le_bytes n v) = le_bytes n v"
  by (simp_all add: cut_def)

lemma side_wire [simp]: "side_try_from (le_word (wire_side sd)) = Some sd"
  by (cases sd) (simp_all add: wire_side_def side_try_from_def le_word_bytes)

lemma order_type_wire [simp]: "order_type_try_from (le_word (wire_order_type t)) = Some t"
  by (cases t) (simp_all add: wire_order_type_def order_type_try_from_def le_word_bytes)

lemma side_wire_iff:
  assumes "length d = 4"
  shows "side_try_from (le_word d) = Some sd \<longleftrightarrow> d = wire_side sd"
proof
  assume "side_try_from (le_word d) = Some sd"
  then have "(le_word d :: u32) = ucast (side_u8 sd)"
    by (cases sd) (auto simp: side_try_from_def split: if_splits)
  then show "d = wire_side sd"
    using le_word_eq_iff [of 4 d, where 'a = 32] assms by (simp add: wire_side_def)
qed simp

lemma order_type_wire_iff:
  assumes "length d = 4"
  shows "order_type_try_from (le_word d) = Some t \<longleftrightarrow> d = wire_order_type t"
proof
  assume "order_type_try_from (le_word d) = Some t"
  then have "(le_word d :: u32) = (case t of Limit \<Rightarrow> 0 | ImmediateOrCancel \<Rightarrow> 1 | PostOnly \<Rightarrow> 2)"
    by (cases t) (auto simp: order_type_try_from_def split: if_splits)
  then show "d = wire_order_type t"
    using le_word_eq_iff [of 4 d, where 'a = 32] assms by (simp add: wire_order_type_def)
qed simp

lemma u64_of_le_iff: "length d = 8 \<Longrightarrow> u64_of_le d = w \<longleftrightarrow> d = u64_to_le w"
  using u64_to_of_le [of d] by auto

lemma fields_cut:
  assumes "i + n \<le> length d"
  shows "drop i d = cut i n d @ drop (i + n) d" "i + n = length d \<Longrightarrow> drop i d = cut i n d"
  using split_cut [OF assms] by simp_all

lemma unpack_v1_iff:
  assumes "length d = 32"
  shows "unpack_new_order_v1 d = Some i \<longleftrightarrow> v1_ok i \<and> d = wire_v1 i"
proof
  assume u: "unpack_new_order_v1 d = Some i"
  have l: "length (cut 0 4 d) = 4" "length (cut 4 8 d) = 8" "length (cut 12 8 d) = 8"
    "length (cut 20 4 d) = 4" "length (cut 24 8 d) = 8" using assms by simp_all
  have "cut 0 4 d = wire_side (n1_side i)" "cut 4 8 d = u64_to_le (n1_limit_price i)"
    "cut 12 8 d = u64_to_le (n1_max_qty i)" "cut 20 4 d = wire_order_type (n1_order_type i)"
    "cut 24 8 d = u64_to_le (n1_client_id i)" and ok: "v1_ok i"
    using u by (auto simp: unpack_new_order_v1_def Let_def bind_eq_Some_conv side_wire_iff [OF l(1)]
      order_type_wire_iff [OF l(4)] u64_to_of_le l v1_ok_def)
  moreover have "d = cut 0 4 d @ cut 4 8 d @ cut 12 8 d @ cut 20 4 d @ cut 24 8 d"
    using fields_cut [of 0 4 d] fields_cut [of 4 8 d] fields_cut [of 12 8 d] fields_cut [of 20 4 d]
      fields_cut [of 24 8 d] assms by simp
  ultimately show "v1_ok i \<and> d = wire_v1 i" by (simp add: wire_v1_def)
next
  assume "v1_ok i \<and> d = wire_v1 i"
  then show "unpack_new_order_v1 d = Some i"
    by (simp add: unpack_new_order_v1_def wire_v1_def v1_ok_def nonzero_new_nonzero)
qed

lemma length_wire [simp]: "length (wire_side sd) = 4" "length (wire_v1 i) = 32"
  by (simp_all add: wire_v1_def wire_side_def wire_order_type_def)

lemma unpack_wire: "instruction_ok i \<Longrightarrow> unpack (wire 0 i) = Some i"
proof (cases i)
  case (NewOrderV2 n)
  assume "instruction_ok i"
  then have "unpack_new_order_v1 (wire_v1 (v1_of_v2 n)) = Some (v1_of_v2 n)"
    using NewOrderV2 by (simp add: unpack_v1_iff instruction_ok_def)
  then show ?thesis using NewOrderV2
    by (cases "n2_self_trade_behavior n")
      (simp_all add: unpack_def wire_def le_word_bytes u8_try_from_u32_def self_trade_behavior_try_from_def
        add_self_trade_behavior_def v1_of_v2_def Let_def)
qed (simp_all add: unpack_def wire_def le_word_bytes unpack_v1_iff instruction_ok_def nth_append Let_def)

lemma wire_of_parts:
  assumes "5 \<le> length bs" "bs ! 0 = 0" "(le_word (cut 1 4 bs) :: u32) = discrim"
    "wire_fields i = (discrim, drop 5 bs)"
  shows "bs = wire 0 i"
proof -
  obtain b d where b: "bs = b # d" using assms(1) by (cases bs) auto
  have "cut 0 4 d = le_bytes 4 discrim"
    using assms(1,3) b le_word_eq_iff [of 4 "cut 0 4 d", where 'a = 32] by simp
  moreover have "d = cut 0 4 d @ drop 4 d" using fields_cut(1) [of 0 4 d] assms(1) b by simp
  ultimately show ?thesis using assms(2,4) b by (simp add: wire_def)
qed

text \<open>The fields of an instruction, cut off the data by their sizes.\<close>

lemma initialize_market_wire:
  assumes "length d = 34"
  shows "wire_fields (InitializeMarket
    \<lparr>im_coin_lot_size = u64_of_le (cut 0 8 d), im_pc_lot_size = u64_of_le (cut 8 8 d),
     im_fee_rate_bps = le_word (cut 16 2 d), im_vault_signer_nonce = u64_of_le (cut 18 8 d),
     im_pc_dust_threshold = u64_of_le (cut 26 8 d)\<rparr>) = (0, d)"
  using fields_cut [of 0 8 d] fields_cut [of 8 8 d] fields_cut [of 16 2 d] fields_cut [of 18 8 d]
    fields_cut [of 26 8 d] le_bytes_word [of "cut 16 2 d", where 'a = 16] assms
  by (simp add: u64_to_of_le)

lemma cancel_order_wire:
  assumes "length d = 53" "side_try_from (le_word (cut 0 4 d)) = Some sd"
  shows "wire_fields (CancelOrder
    \<lparr>co_side = sd, co_order_id = le_word (cut 4 16 d), co_owner = aligned_of_bytes (cut 20 32 d),
     co_owner_slot = d ! 52\<rparr>) = (4, d)"
proof -
  let ?o = "cut 20 32 d"
  have "aligned_bytes (aligned_of_bytes ?o) = ?o" using assms(1) by (simp add: aligned_bytes_of_bytes)
  moreover have "cut 52 1 d = [d ! 52]" using assms(1) by (simp add: cut_def Cons_nth_drop_Suc [symmetric])
  ultimately show ?thesis
    using fields_cut [of 0 4 d] fields_cut [of 4 16 d] fields_cut [of 20 32 d] fields_cut [of 52 1 d]
      le_bytes_word [of "cut 4 16 d", where 'a = 128] assms side_wire_iff [of "cut 0 4 d" sd]
    by simp
qed

lemma v1_of_v2_add [simp]: "v1_of_v2 (add_self_trade_behavior b i) = i"
  by (simp add: v1_of_v2_def add_self_trade_behavior_def)

lemma v2_behavior_add [simp]: "n2_self_trade_behavior (add_self_trade_behavior b i) = b"
  by (simp add: add_self_trade_behavior_def)

lemma new_order_v2_wire:
  assumes "length d = 36" "unpack_new_order_v1 (cut 0 32 d) = Some v1"
    "u8_try_from_u32 (le_word (cut 32 4 d)) = Some b" "self_trade_behavior_try_from b = Some stb"
  shows "wire_fields (NewOrderV2 (add_self_trade_behavior stb v1)) = (9, d)" "v1_ok v1"
proof -
  have v: "v1_ok v1" "cut 0 32 d = wire_v1 v1"
    using assms(2) unpack_v1_iff [of "cut 0 32 d" v1] assms(1) by simp_all
  have "(le_word (cut 32 4 d) :: u32) = ucast b"
  proof -
    have "(le_word (cut 32 4 d) :: u32) < 256" "b = ucast (le_word (cut 32 4 d) :: u32)"
      using assms(3) by (simp_all add: u8_try_from_u32_def split: if_splits)
    then show ?thesis by (simp add: word_unat_eq_iff word_less_nat_alt unat_ucast_up unsigned_ucast_eq
        take_bit_nat_eq_self)
  qed
  then have "cut 32 4 d = le_bytes 4 (ucast b :: u32)"
    using le_word_eq_iff [of 4 "cut 32 4 d", where 'a = 32] assms(1) by simp
  moreover have "b = self_trade_behavior_u8 stb"
    using assms(4) by (auto simp: self_trade_behavior_try_from_def split: if_splits)
  ultimately show "wire_fields (NewOrderV2 (add_self_trade_behavior stb v1)) = (9, d)"
    using v fields_cut [of 0 32 d] fields_cut [of 32 4 d] assms(1)
    by simp
  show "v1_ok v1" by (rule v(1))
qed

lemma unpack_cases:
  assumes "unpack bs = Some i"
  obtains (init) d where "d = drop 5 bs" "length d = 34" "(le_word (cut 1 4 bs) :: u32) = 0"
      "i = InitializeMarket
        \<lparr>im_coin_lot_size = u64_of_le (cut 0 8 d), im_pc_lot_size = u64_of_le (cut 8 8 d),
         im_fee_rate_bps = le_word (cut 16 2 d), im_vault_signer_nonce = u64_of_le (cut 18 8 d),
         im_pc_dust_threshold = u64_of_le (cut 26 8 d)\<rparr>"
  | (v1) d n where "d = drop 5 bs" "length d = 32" "(le_word (cut 1 4 bs) :: u32) = 1"
      "i = NewOrder n" "unpack_new_order_v1 d = Some n"
  | (limit) d where "d = drop 5 bs" "length d = 2"
      "(le_word (cut 1 4 bs) :: u32) = 2 \<and> i = MatchOrders (le_word d)
        \<or> (le_word (cut 1 4 bs) :: u32) = 3 \<and> i = ConsumeEvents (le_word d)"
  | (cancel) d sd where "d = drop 5 bs" "length d = 53" "(le_word (cut 1 4 bs) :: u32) = 4"
      "side_try_from (le_word (cut 0 4 d)) = Some sd"
      "i = CancelOrder \<lparr>co_side = sd, co_order_id = le_word (cut 4 16 d),
         co_owner = aligned_of_bytes (cut 20 32 d), co_owner_slot = d ! 52\<rparr>"
  | (client) d where "d = drop 5 bs" "length d = 8" "(le_word (cut 1 4 bs) :: u32) = 6"
      "i = CancelOrderByClientId (u64_of_le d)"
  | (plain) d where "d = drop 5 bs" "d = []"
      "(le_word (cut 1 4 bs), i) \<in> {(5 :: u32, SettleFunds), (7, DisableMarket), (8, SweepFees)}"
  | (v2) d v b stb where "d = drop 5 bs" "length d = 36" "(le_word (cut 1 4 bs) :: u32) = 9"
      "unpack_new_order_v1 (cut 0 32 d) = Some v" "u8_try_from_u32 (le_word (cut 32 4 d)) = Some b"
      "self_trade_behavior_try_from b = Some stb" "i = NewOrderV2 (add_self_trade_behavior stb v)"
proof -
  define d where d: "d = drop 5 bs"
  have len: "length bs - 5 = length d" by (simp add: d)
  show thesis
    using assms that [of d] d unfolding unpack_def Let_def d [symmetric]
    by (auto simp: bind_eq_Some_conv split: if_splits)
qed

lemma unpack_fields:
  assumes "unpack bs = Some i"
  shows "instruction_ok i \<and> wire_fields i = (le_word (cut 1 4 bs), drop 5 bs)"
  using assms
proof (cases rule: unpack_cases)
  case (init d)
  then show ?thesis using initialize_market_wire [of d] by (simp add: instruction_ok_def)
next
  case (v1 d n)
  then show ?thesis using unpack_v1_iff [of d n] by (simp add: instruction_ok_def)
next
  case (limit d)
  then show ?thesis using le_bytes_word [of d, where 'a = 16] by (auto simp: instruction_ok_def)
next
  case (cancel d sd)
  then show ?thesis using cancel_order_wire [of d sd] by (simp add: instruction_ok_def)
next
  case (client d)
  then show ?thesis using u64_to_of_le [of d] by (simp add: instruction_ok_def)
next
  case (plain d)
  then show ?thesis by (auto simp: instruction_ok_def)
next
  case (v2 d v b stb)
  then show ?thesis using new_order_v2_wire [of d v b stb] by (simp add: instruction_ok_def)
qed

lemma unpack_bounds: "unpack bs = Some i \<Longrightarrow> 5 \<le> length bs \<and> bs ! 0 = 0"
  by (auto simp: unpack_def Let_def split: if_splits)

text \<open>
  Claim C38: the decoder accepts exactly the byte strings that are the format of an instruction
  with non-zero prices and quantities under version 0, and returns that instruction: nothing
  is lost in decoding, no two byte strings decode to the same instruction, and trailing or
  missing bytes are refused.
\<close>

theorem unpack_exact: "unpack bs = Some i \<longleftrightarrow> instruction_ok i \<and> bs = wire 0 i"
proof
  assume u: "unpack bs = Some i"
  then show "instruction_ok i \<and> bs = wire 0 i"
    using unpack_fields [OF u] unpack_bounds [OF u] wire_of_parts [of bs _ i] by simp
qed (simp add: unpack_wire)

text \<open>
  What \<open>pack\<close> writes is read back by \<open>unpack\<close> as the same instruction, when the
  serialiser writes the format its package documents.
\<close>

theorem pack_unpack_round_trip:
  assumes "\<And>version i. serialize (version, i) = Some (wire version i)" and "instruction_ok i"
  shows "\<exists>bs. pack serialize i = Inr bs \<and> unpack bs = Some i"
  using assms by (simp add: pack_def unpack_wire)

theorem pack_unpack_round_trip_witness:
  "\<exists>bs. pack (\<lambda>(v, i). Some (wire v i)) (NewOrder
      \<lparr>n1_side = Ask, n1_limit_price = 3, n1_max_qty = 5, n1_order_type = PostOnly, n1_client_id = 0\<rparr>)
      = Inr bs \<and>
    unpack bs = Some (NewOrder
      \<lparr>n1_side = Ask, n1_limit_price = 3, n1_max_qty = 5, n1_order_type = PostOnly, n1_client_id = 0\<rparr>)"
  by (rule pack_unpack_round_trip) (simp_all add: instruction_ok_def v1_ok_def)

end
