(* ===== verification/Parsers.thy ===== *)
theory Parsers
  imports Accounts Instruction Matching
begin

text \<open>
  The parsing of an instruction's accounts (\<open>dex/src/state.rs\<close>, module \<open>account_parser\<close>): one
  record of arguments per instruction and the checks that build it, in the order of the
  source, each failing with the assertion of its line.  The structs behind mutable
  references are in the record; a wrapped token account is its address.
\<close>

subsection \<open>Initialising a market\<close>

record initialize_market_args =
  ima_instruction :: initialize_market_instruction
  ima_accounts :: "account_info list"  \<comment> \<open>market, request queue, event queue, bids, asks\<close>
  ima_coin_vault :: aligned
  ima_coin_mint :: aligned
  ima_pc_vault :: aligned
  ima_pc_mint :: aligned

definition check_fresh_account :: "aligned \<Rightarrow> account_info \<Rightarrow> dex_fault + unit" where
  "check_fresh_account program_id acc =
     (let data = ai_data acc in
      and_then (check_assert StateFile 1372 (ai_owner acc = program_id)) (\<lambda>_.
      and_then (check_assert StateFile 1374 (length data mod 8 = 4)) (\<lambda>_.
      and_then (check_assert StateFile 1375 (20 \<le> length data)) (\<lambda>_.
      and_then (check_assert StateFile 1377 (cut 0 5 data = replicate 5 0)) (\<lambda>_.
      and_then (check_assert StateFile 1378 (cut 5 8 data = replicate 8 0)) (\<lambda>_.
      check_assert StateFile 1379 (drop (length data - 7) data = replicate 7 0)))))))"

primrec check_fresh_accounts :: "aligned \<Rightarrow> account_info list \<Rightarrow> dex_fault + unit" where
  "check_fresh_accounts program_id [] = Inr ()"
| "check_fresh_accounts program_id (a # as) =
     and_then (check_fresh_account program_id a) (\<lambda>_. check_fresh_accounts program_id as)"

definition check_vault :: "chain \<Rightarrow> aligned \<Rightarrow> account_info \<Rightarrow> account_info \<Rightarrow> dex_fault + unit" where
  "check_vault ch vault_owner_key vault mint =
     and_then (token_account_new ch vault) (\<lambda>_.
     and_then (token_mint_new ch mint) (\<lambda>_.
     and_then (check_assert StateFile 1395
       (cut 0x20 0x20 (ai_data vault) = aligned_bytes vault_owner_key)) (\<lambda>_.
     and_then (check_assert StateFile 1399 (cut 0x48 4 (ai_data vault) = replicate 4 0)) (\<lambda>_.
     token_account_and_mint_new vault mint))))"

definition initialize_market_args_new ::
  "chain \<Rightarrow> aligned \<Rightarrow> initialize_market_instruction \<Rightarrow> account_info list \<Rightarrow>
   dex_fault + initialize_market_args" where
  "initialize_market_args_new ch program_id inst accounts =
     and_then (check_assert StateFile 1366 (length accounts = 9)) (\<lambda>_.
     and_then (check_fresh_accounts program_id (take 5 accounts)) (\<lambda>_.
     and_then (gen_vault_signer_key ch (im_vault_signer_nonce inst) (ai_key (accounts ! 0)) program_id)
       (\<lambda>vault_owner_key.
     and_then (check_vault ch vault_owner_key (accounts ! 5) (accounts ! 7)) (\<lambda>_.
     and_then (check_vault ch vault_owner_key (accounts ! 6) (accounts ! 8)) (\<lambda>_.
     Inr \<lparr>ima_instruction = inst, ima_accounts = take 5 accounts,
          ima_coin_vault = ai_key (accounts ! 5), ima_coin_mint = ai_key (accounts ! 7),
          ima_pc_vault = ai_key (accounts ! 6), ima_pc_mint = ai_key (accounts ! 8)\<rparr>)))))"

subsection \<open>Placing an order\<close>

record new_order_args =
  noa_instruction :: new_order_instruction_v2
  noa_market :: market_state
  noa_open_orders :: open_orders
  noa_open_orders_address :: aligned
  noa_owner :: aligned
  noa_req_q :: request_queue_account
  noa_payer :: aligned
  noa_coin_vault :: aligned
  noa_pc_vault :: aligned
  noa_spl_token_program :: aligned
  noa_fee_tier :: fee_tier

definition new_order_args_parse ::
  "chain \<Rightarrow> aligned \<Rightarrow> new_order_instruction_v2 \<Rightarrow> account_info list \<Rightarrow> dex_fault + new_order_args" where
  "new_order_args_parse ch program_id inst accounts =
     and_then (check_assert StateFile 1462 (length accounts = 9 \<or> length accounts = 10)) (\<lambda>_.
     let market_acc = accounts ! 0; open_orders_acc = accounts ! 1; req_q_acc = accounts ! 2;
         payer_acc = accounts ! 3; owner_acc = accounts ! 4; coin_vault_acc = accounts ! 5;
         pc_vault_acc = accounts ! 6; spl_token_program_acc = accounts ! 7;
         rent_sysvar_acc = accounts ! 8 in
     and_then
       (case drop 9 accounts of
          [] \<Rightarrow> Inr None
        | [acc] \<Rightarrow> and_then (token_account_new ch acc) (\<lambda>t. Inr (Some t))
        | _ \<Rightarrow> Inl (assertion_fault StateFile 1481)) (\<lambda>srm_or_msrm_account.
     and_then (load_market program_id market_acc) (\<lambda>market.
     and_then (rent_sysvar_new ch rent_sysvar_acc) (\<lambda>_.
     and_then (ok_or (ch_rent_from_account ch rent_sysvar_acc) (assertion_fault StateFile 1487)) (\<lambda>rent.
     and_then (signer_new owner_acc) (\<lambda>_.
     and_then (load_fee_tier (ch_srm_token ch) (ch_msrm_token ch) (ai_key owner_acc) srm_or_msrm_account)
       (\<lambda>fee_tier.
     and_then (load_orders_mut market open_orders_acc (Some owner_acc) program_id (Some rent)) (\<lambda>open_orders.
     and_then (load_request_queue_mut market req_q_acc) (\<lambda>req_q.
     and_then (token_account_new ch payer_acc) (\<lambda>payer.
     and_then
       (case n2_side inst of
          Bid \<Rightarrow> or_assertion 1503 (check_pc_payer payer market)
        | Ask \<Rightarrow> or_assertion 1504 (check_coin_payer payer market)) (\<lambda>_.
     and_then (token_from_account ch check_coin_vault coin_vault_acc market) (\<lambda>coin_vault.
     and_then (token_from_account ch check_pc_vault pc_vault_acc market) (\<lambda>pc_vault.
     and_then (ms_check_enabled market) (\<lambda>_.
     and_then (spl_token_program_new ch spl_token_program_acc) (\<lambda>_.
     Inr \<lparr>noa_instruction = inst, noa_market = market, noa_open_orders = open_orders,
          noa_open_orders_address = ai_key open_orders_acc, noa_owner = ai_key owner_acc,
          noa_req_q = req_q, noa_payer = ta_key payer, noa_coin_vault = coin_vault,
          noa_pc_vault = pc_vault, noa_spl_token_program = ai_key spl_token_program_acc,
          noa_fee_tier = fee_tier\<rparr>)))))))))))))))"

subsection \<open>Matching and consuming\<close>

record match_orders_args =
  moa_limit :: u16
  moa_order_book :: order_book
  moa_req_q :: request_queue_account
  moa_event_q :: event_queue_account

definition match_orders_args_parse ::
  "aligned \<Rightarrow> account_info list \<Rightarrow> u16 \<Rightarrow> dex_fault + match_orders_args" where
  "match_orders_args_parse program_id accounts limit =
     and_then (check_assert StateFile 1540 (5 \<le> length accounts)) (\<lambda>_.
     and_then (or_assertion 1549 (load_market program_id (accounts ! 0))) (\<lambda>market.
     and_then (or_assertion 1552 (load_request_queue_mut market (accounts ! 1))) (\<lambda>req_q.
     and_then (or_assertion 1555 (load_event_queue_mut market (accounts ! 2))) (\<lambda>event_q.
     and_then (or_assertion 1556 (load_bids_mut market (accounts ! 3))) (\<lambda>bids.
     and_then (or_assertion 1557 (load_asks_mut market (accounts ! 4))) (\<lambda>asks.
     Inr \<lparr>moa_limit = limit,
          moa_order_book = \<lparr>ob_bids = bids, ob_asks = asks, ob_market = market\<rparr>,
          moa_req_q = req_q, moa_event_q = event_q\<rparr>))))))"

record consume_events_args =
  cea_limit :: u16
  cea_program_id :: aligned
  cea_open_orders_accounts :: "account_info list"
  cea_market :: market_state
  cea_event_q :: event_queue_account

definition consume_events_args_parse ::
  "aligned \<Rightarrow> account_info list \<Rightarrow> u16 \<Rightarrow> dex_fault + consume_events_args" where
  "consume_events_args_parse program_id accounts limit =
     and_then (check_assert StateFile 1589 (5 \<le> length accounts)) (\<lambda>_.
     let n = length accounts - 4 in
     and_then (load_market program_id (accounts ! n)) (\<lambda>market.
     and_then (load_event_queue_mut market (accounts ! (n + 1))) (\<lambda>event_q.
     Inr \<lparr>cea_limit = limit, cea_program_id = program_id,
          cea_open_orders_accounts = take n accounts, cea_market = market, cea_event_q = event_q\<rparr>)))"

subsection \<open>Cancelling\<close>

record 'i cancel_args =
  ca_instruction :: 'i
  ca_open_orders :: open_orders
  ca_open_orders_address :: aligned
  ca_req_q :: request_queue_account
  ca_orders_owner :: aligned

definition cancel_args_parse ::
  "u16 \<Rightarrow> aligned \<Rightarrow> account_info list \<Rightarrow> 'i \<Rightarrow> dex_fault + 'i cancel_args" where
  "cancel_args_parse l program_id accounts inst =
     and_then (check_assert StateFile l (length accounts = 4)) (\<lambda>_.
     let market_acc = accounts ! 0; open_orders_acc = accounts ! 1; req_q_acc = accounts ! 2;
         owner_acc = accounts ! 3 in
     and_then (load_market program_id market_acc) (\<lambda>market.
     and_then (signer_new owner_acc) (\<lambda>_.
     and_then (load_orders_mut market open_orders_acc (Some owner_acc) program_id None) (\<lambda>open_orders.
     and_then (load_request_queue_mut market req_q_acc) (\<lambda>req_q.
     Inr \<lparr>ca_instruction = inst, ca_open_orders = open_orders,
          ca_open_orders_address = ai_key open_orders_acc, ca_req_q = req_q,
          ca_orders_owner = ai_key owner_acc\<rparr>)))))"

definition cancel_order_args_parse ::
  "aligned \<Rightarrow> account_info list \<Rightarrow> cancel_order_instruction \<Rightarrow>
   dex_fault + cancel_order_instruction cancel_args" where
  "cancel_order_args_parse program_id accounts inst = cancel_args_parse 1625 program_id accounts inst"

definition cancel_order_by_client_id_args_parse ::
  "aligned \<Rightarrow> account_info list \<Rightarrow> u64 \<Rightarrow> dex_fault + u64 cancel_args" where
  "cancel_order_by_client_id_args_parse program_id accounts client_id =
     and_then (ok_or (nonzero_new client_id) (assertion_fault StateFile 1664)) (\<lambda>client_order_id.
     cancel_args_parse 1665 program_id accounts client_order_id)"

subsection \<open>Settling, disabling, sweeping\<close>

record settle_funds_args =
  sfa_market :: market_state
  sfa_open_orders :: open_orders
  sfa_coin_vault :: aligned
  sfa_pc_vault :: aligned
  sfa_coin_wallet :: aligned
  sfa_pc_wallet :: aligned
  sfa_vault_signer :: aligned
  sfa_spl_token_program :: aligned
  sfa_referrer :: "aligned option"

definition settle_funds_args_parse ::
  "chain \<Rightarrow> aligned \<Rightarrow> account_info list \<Rightarrow> dex_fault + settle_funds_args" where
  "settle_funds_args_parse ch program_id accounts =
     and_then (check_assert StateFile 1707 (length accounts = 9 \<or> length accounts = 10)) (\<lambda>_.
     let market_acc = accounts ! 0; open_orders_acc = accounts ! 1; owner_acc = accounts ! 2;
         coin_vault_acc = accounts ! 3; pc_vault_acc = accounts ! 4; coin_wallet_acc = accounts ! 5;
         pc_wallet_acc = accounts ! 6; vault_signer_acc = accounts ! 7;
         spl_token_program_acc = accounts ! 8 in
     and_then (spl_token_program_new ch spl_token_program_acc) (\<lambda>_.
     and_then (load_market program_id market_acc) (\<lambda>market.
     and_then (or_assertion 1722 (signer_new owner_acc)) (\<lambda>_.
     and_then (or_assertion 1725 (token_from_account ch check_coin_vault coin_vault_acc market)) (\<lambda>coin_vault.
     and_then (or_assertion 1726 (token_from_account ch check_pc_vault pc_vault_acc market)) (\<lambda>pc_vault.
     and_then (or_assertion 1728 (token_from_account ch check_coin_payer coin_wallet_acc market)) (\<lambda>coin_wallet.
     and_then (or_assertion 1730 (token_from_account ch check_pc_payer pc_wallet_acc market)) (\<lambda>pc_wallet.
     and_then
       (case drop 9 accounts of
          [] \<Rightarrow> Inr None
        | [acc] \<Rightarrow> and_then (or_assertion 1735 (token_from_account ch check_pc_payer acc market))
                    (\<lambda>k. Inr (Some k))
        | _ \<Rightarrow> Inl (assertion_fault StateFile 1737)) (\<lambda>referrer.
     and_then (vault_signer_new ch vault_signer_acc market program_id) (\<lambda>_.
     and_then (load_orders_mut market open_orders_acc (Some owner_acc) program_id None) (\<lambda>open_orders.
     Inr \<lparr>sfa_market = market, sfa_open_orders = open_orders, sfa_coin_vault = coin_vault,
          sfa_pc_vault = pc_vault, sfa_coin_wallet = coin_wallet, sfa_pc_wallet = pc_wallet,
          sfa_vault_signer = ai_key vault_signer_acc,
          sfa_spl_token_program = ai_key spl_token_program_acc, sfa_referrer = referrer\<rparr>)))))))))))"

definition disable_market_args_parse ::
  "chain \<Rightarrow> aligned \<Rightarrow> account_info list \<Rightarrow> dex_fault + market_state" where
  "disable_market_args_parse ch program_id accounts =
     and_then (check_assert StateFile 1770 (length accounts = 2)) (\<lambda>_.
     and_then (load_market program_id (accounts ! 0)) (\<lambda>market.
     and_then (signing_disable_authority_new ch (accounts ! 1)) (\<lambda>_. Inr market)))"

record sweep_fees_args =
  swa_market :: market_state
  swa_pc_vault :: aligned
  swa_fee_receiver :: aligned
  swa_vault_signer :: aligned
  swa_spl_token_program :: aligned

definition sweep_fees_args_parse ::
  "chain \<Rightarrow> aligned \<Rightarrow> account_info list \<Rightarrow> dex_fault + sweep_fees_args" where
  "sweep_fees_args_parse ch program_id accounts =
     and_then (check_assert StateFile 1797 (length accounts = 6)) (\<lambda>_.
     and_then (load_market program_id (accounts ! 0)) (\<lambda>market.
     and_then (token_from_account ch check_pc_vault (accounts ! 1) market) (\<lambda>pc_vault.
     and_then (token_from_account ch check_pc_payer (accounts ! 3) market) (\<lambda>fee_receiver.
     and_then (vault_signer_new ch (accounts ! 4) market program_id) (\<lambda>_.
     and_then (spl_token_program_new ch (accounts ! 5)) (\<lambda>_.
     and_then (signing_fee_sweeper_new ch (accounts ! 2)) (\<lambda>_.
     Inr \<lparr>swa_market = market, swa_pc_vault = pc_vault, swa_fee_receiver = fee_receiver,
          swa_vault_signer = ai_key (accounts ! 4),
          swa_spl_token_program = ai_key (accounts ! 5)\<rparr>)))))))"

end
