(* ===== verification/Processor.thy ===== *)
theory Processor
  imports Parsers "HOL-Library.Product_Lexorder"
begin

text \<open>
  The handlers of the exchange program (\<open>dex/src/state.rs\<close>, \<open>State::process_*\<close>), on the
  argument records of the parsers: each returns the structs it has written.  Transfers are
  calls of the token program, which is an argument: \<open>tp_transfer\<close> builds the instruction,
  \<open>tp_invoke\<close> runs it (with the seeds of a program address, or none) on a ledger.
\<close>

subsection \<open>Transfers\<close>

record transfer =
  tr_source :: aligned
  tr_destination :: aligned
  tr_authority :: aligned
  tr_amount :: u64

record ('ix, 'l) token_program =
  tp_transfer :: "transfer \<Rightarrow> program_error + 'ix"
  tp_invoke :: "'ix \<Rightarrow> u8 list list option \<Rightarrow> 'l \<Rightarrow> program_error + 'l"
  tp_is_insufficient_funds :: "u32 \<Rightarrow> bool"  \<comment> \<open>\<open>TokenError::from_u32\<close> is \<open>InsufficientFunds\<close>\<close>

definition send_from_vault ::
  "('ix, 'l) token_program \<Rightarrow> u64 \<Rightarrow> aligned \<Rightarrow> aligned \<Rightarrow> aligned \<Rightarrow> u8 list list \<Rightarrow> 'l \<Rightarrow> dex_fault + 'l" where
  "send_from_vault tp native_amount recipient vault vault_signer vault_signer_seeds l =
     and_then (map_err (\<lambda>e. DexErr (ProgramError e)) (tp_transfer tp
       \<lparr>tr_source = vault, tr_destination = recipient, tr_authority = vault_signer,
        tr_amount = native_amount\<rparr>)) (\<lambda>deposit_instruction.
     map_err (\<lambda>_. err_code TransferFailed)
       (tp_invoke tp deposit_instruction (Some vault_signer_seeds) l))"

subsection \<open>Placing an order\<close>

text \<open>The funds an order locks: the locked quantity of a bid, and what has to be deposited.\<close>

definition bid_lock_qty :: "fee_tier \<Rightarrow> u64 \<Rightarrow> new_order_instruction_v2 \<Rightarrow> dex_fault + u64" where
  "bid_lock_qty tier pc_lot_size inst =
     and_then (ok_or (checked_mul (n2_max_qty inst) (n2_limit_price inst)) (err_code InsufficientFunds))
       (\<lambda>lock_qty_lots.
     and_then (ok_or (checked_mul lock_qty_lots pc_lot_size) (err_code InsufficientFunds))
       (\<lambda>native_lock_qty_before_fee.
     ok_or (checked_add native_lock_qty_before_fee (taker_fee tier native_lock_qty_before_fee))
       (err_code InsufficientFunds)))"

record order_funds =
  of_market :: market_state
  of_open_orders :: open_orders
  of_native_pc_qty_locked :: "u64 option"
  of_deposit_amount :: u64
  of_deposit_vault :: aligned

definition lock_bid_funds :: "new_order_args \<Rightarrow> dex_fault + order_funds" where
  "lock_bid_funds a =
     (let market = noa_market a; oo = noa_open_orders a in
      and_then (bid_lock_qty (noa_fee_tier a) (ms_pc_lot_size market) (noa_instruction a)) (\<lambda>lock_qty_native.
      and_then (unwrap (nonzero_new lock_qty_native)) (\<lambda>locked.
      let free_qty_to_lock = min lock_qty_native (oo_native_pc_free oo);
          deposit_amount = lock_qty_native - free_qty_to_lock in
      and_then (lock_free_pc free_qty_to_lock oo) (\<lambda>oo1.
      and_then (credit_locked_pc deposit_amount oo1) (\<lambda>oo2.
      and_then (unwrap (checked_add (ms_pc_deposits_total market) deposit_amount)) (\<lambda>total.
      Inr \<lparr>of_market = market\<lparr>ms_pc_deposits_total := total\<rparr>, of_open_orders = oo2,
           of_native_pc_qty_locked = Some locked, of_deposit_amount = deposit_amount,
           of_deposit_vault = noa_pc_vault a\<rparr>))))))"

definition lock_ask_funds :: "new_order_args \<Rightarrow> dex_fault + order_funds" where
  "lock_ask_funds a =
     (let market = noa_market a; oo = noa_open_orders a in
      and_then (ok_or (checked_mul (n2_max_qty (noa_instruction a)) (ms_coin_lot_size market))
        (err_code InsufficientFunds)) (\<lambda>lock_qty_native.
      let free_qty_to_lock = min lock_qty_native (oo_native_coin_free oo);
          deposit_amount = lock_qty_native - free_qty_to_lock in
      and_then (lock_free_coin free_qty_to_lock oo) (\<lambda>oo1.
      and_then (credit_locked_coin deposit_amount oo1) (\<lambda>oo2.
      and_then (unwrap (checked_add (ms_coin_deposits_total market) deposit_amount)) (\<lambda>total.
      Inr \<lparr>of_market = market\<lparr>ms_coin_deposits_total := total\<rparr>, of_open_orders = oo2,
           of_native_pc_qty_locked = None, of_deposit_amount = deposit_amount,
           of_deposit_vault = noa_coin_vault a\<rparr>)))))"

definition order_funds :: "new_order_args \<Rightarrow> dex_fault + order_funds" where
  "order_funds a = (case n2_side (noa_instruction a) of Bid \<Rightarrow> lock_bid_funds a | Ask \<Rightarrow> lock_ask_funds a)"

text \<open>The errors of the deposit.\<close>

definition deposit_fault :: "('ix, 'l) token_program \<Rightarrow> program_error \<Rightarrow> dex_fault" where
  "deposit_fault tp e =
     (case e of
        Custom i \<Rightarrow> if tp_is_insufficient_funds tp i then err_code InsufficientFunds
                    else err_code TransferFailed
      | _ \<Rightarrow> err_code TransferFailed)"

definition push_request :: "request_view \<Rightarrow> request_queue_account \<Rightarrow> dex_fault + request_queue_account" where
  "push_request v q =
     and_then (push_back request_header_ops (request_new v) q) (\<lambda>(r, q').
     case r of Inl _ \<Rightarrow> Inl (err_code RequestQueueFull) | Inr _ \<Rightarrow> Inr q')"

definition process_new_order ::
  "chain \<Rightarrow> ('ix, 'l) token_program \<Rightarrow> new_order_args \<Rightarrow> 'l \<Rightarrow>
   dex_fault + ((market_state \<times> open_orders \<times> request_queue_account) \<times> 'l)" where
  "process_new_order ch tp a l =
     (let inst = noa_instruction a in
      and_then (order_funds a) (\<lambda>funds.
      and_then (case tp_transfer tp
        \<lparr>tr_source = noa_payer a, tr_destination = of_deposit_vault funds, tr_authority = noa_owner a,
         tr_amount = of_deposit_amount funds\<rparr> of Inl _ \<Rightarrow> Inl Panic | Inr ix \<Rightarrow> Inr ix) (\<lambda>deposit_instruction.
      and_then (assert_panic (noa_spl_token_program a = ch_spl_token_id ch)) (\<lambda>_.
      and_then (map_err (deposit_fault tp) (tp_invoke tp deposit_instruction None l)) (\<lambda>l1.
      case gen_order_id (n2_limit_price inst) (n2_side inst) (noa_req_q a) of (order_id, q1) \<Rightarrow>
      and_then (add_order order_id (n2_side inst) (of_open_orders funds)) (\<lambda>(owner_slot, oo1).
      let oo2 = oo1\<lparr>oo_client_order_ids := (oo_client_order_ids oo1)[unat owner_slot := n2_client_id inst]\<rparr> in
      and_then (push_request (NewOrderView
        \<lparr>nr_side = n2_side inst, nr_order_type = n2_order_type inst, nr_owner_slot = owner_slot,
         nr_fee_tier = noa_fee_tier a, nr_order_id = order_id, nr_max_coin_qty = n2_max_qty inst,
         nr_native_pc_qty_locked = of_native_pc_qty_locked funds,
         nr_owner = noa_open_orders_address a, nr_client_order_id = nonzero_new (n2_client_id inst),
         nr_self_trade_behavior = n2_self_trade_behavior inst\<rparr>) q1) (\<lambda>q2.
      Inr ((of_market funds, oo2, q2), l1))))))))"

subsection \<open>Cancelling\<close>

definition process_cancel_order ::
  "cancel_order_instruction cancel_args \<Rightarrow> dex_fault + request_queue_account" where
  "process_cancel_order a =
     (let inst = ca_instruction a in
      case gen_seq_num (ca_req_q a) of (cancel_id, q1) \<Rightarrow>
      push_request (CancelOrderView
        \<lparr>cr_side = co_side inst, cr_order_id = co_order_id inst, cr_cancel_id = cancel_id,
         cr_expected_owner_slot = co_owner_slot inst, cr_expected_owner = ca_open_orders_address a,
         cr_client_order_id = None\<rparr>) q1)"

text \<open>The first slot that is taken and carries the client's id.\<close>

primrec client_slot :: "nat \<Rightarrow> u64 list \<Rightarrow> u64 \<Rightarrow> open_orders \<Rightarrow> nat option" where
  "client_slot i [] client_order_id oo = None"
| "client_slot i (x # xs) client_order_id oo =
     (if x = client_order_id \<and> \<not> slot_is_free (of_nat i) oo then Some i
      else client_slot (i + 1) xs client_order_id oo)"

definition process_cancel_order_by_client_id :: "u64 cancel_args \<Rightarrow> dex_fault + request_queue_account" where
  "process_cancel_order_by_client_id a =
     (let oo = ca_open_orders a; client_order_id = ca_instruction a in
      and_then (ok_or (client_slot 0 (oo_client_order_ids oo) client_order_id oo)
        (err_code ClientIdNotFound)) (\<lambda>i.
      let slot = of_nat i :: u8 in
      and_then (ok_or (slot_side slot oo) (err_code ClientIdNotFound)) (\<lambda>sd.
      let order_id = oo_orders oo ! unat slot in
      case gen_seq_num (ca_req_q a) of (cancel_id, q1) \<Rightarrow>
      push_request (CancelOrderView
        \<lparr>cr_side = sd, cr_order_id = order_id, cr_cancel_id = cancel_id, cr_expected_owner_slot = slot,
         cr_expected_owner = ca_open_orders_address a,
         cr_client_order_id = Some client_order_id\<rparr>) q1)))"

subsection \<open>Consuming events\<close>

text \<open>
  \<open>slice::binary_search_by_key\<close> of the standard library: halve the size, keep the upper half
  unless its first key is greater, and compare once at the end.
\<close>

fun search_base :: "nat \<Rightarrow> nat \<Rightarrow> 'k::linorder list \<Rightarrow> 'k \<Rightarrow> nat" where
  "search_base base sz ks k =
     (if sz \<le> 1 then base
      else let half = sz div 2; mid = base + half
           in search_base (if k < ks ! mid then base else mid) (sz - half) ks k)"

declare search_base.simps [simp del]

definition binary_search :: "'k::linorder list \<Rightarrow> 'k \<Rightarrow> nat option" where
  "binary_search ks k =
     (if ks = [] then None
      else let base = search_base 0 (length ks) ks k in if ks ! base = k then Some base else None)"

definition consume_fill :: "fill_event \<Rightarrow> open_orders \<Rightarrow> open_orders" where
  "consume_fill f oo =
     (let oo1 =
        (case fe_side f of
           Bid \<Rightarrow>
             let oo' = oo\<lparr>oo_native_pc_total := oo_native_pc_total oo - fe_native_qty_paid f,
                          oo_native_coin_total := oo_native_coin_total oo + fe_native_qty_received f,
                          oo_native_coin_free := oo_native_coin_free oo + fe_native_qty_received f\<rparr>
             in if fe_maker f
                then oo'\<lparr>oo_native_pc_free := oo_native_pc_free oo' + fe_native_fee_or_rebate f\<rparr>
                else oo'
         | Ask \<Rightarrow>
             oo\<lparr>oo_native_coin_total := oo_native_coin_total oo - fe_native_qty_paid f,
                oo_native_pc_total := oo_native_pc_total oo + fe_native_qty_received f,
                oo_native_pc_free := oo_native_pc_free oo + fe_native_qty_received f\<rparr>)
      in if \<not> fe_maker f
         then oo1\<lparr>oo_referrer_rebates_accrued :=
                oo_referrer_rebates_accrued oo1 + referrer_rebate (fe_native_fee_or_rebate f)\<rparr>
         else oo1)"

definition consume_out :: "out_event \<Rightarrow> open_orders \<Rightarrow> dex_fault + open_orders" where
  "consume_out u oo =
     (let fully_out = (oe_native_qty_still_locked u = 0) in
      and_then
        (case oe_side u of
           Bid \<Rightarrow>
             let oo' = oo\<lparr>oo_native_pc_free := oo_native_pc_free oo + oe_native_qty_unlocked u\<rparr>
             in and_then (check_assert StateFile 2151 (oo_native_pc_free oo' \<le> oo_native_pc_total oo'))
                  (\<lambda>_. Inr oo')
         | Ask \<Rightarrow>
             let oo' = oo\<lparr>oo_native_coin_free := oo_native_coin_free oo + oe_native_qty_unlocked u\<rparr>
             in and_then (check_assert StateFile 2157 (oo_native_coin_free oo' \<le> oo_native_coin_total oo'))
                  (\<lambda>_. Inr oo')) (\<lambda>oo1.
      if fully_out then remove_order (oe_owner_slot u) oo1 else Inr oo1))"

definition consume_view :: "event_view \<Rightarrow> open_orders \<Rightarrow> dex_fault + open_orders" where
  "consume_view v oo = (case v of Fill f \<Rightarrow> Inr (consume_fill f oo) | Out u \<Rightarrow> consume_out u oo)"

text \<open>One event on its owner's account: the checks of the slot, then the event's effect.\<close>

definition consume_event :: "event \<Rightarrow> event_view \<Rightarrow> open_orders \<Rightarrow> dex_fault + open_orders" where
  "consume_event e v oo =
     and_then (check_assert StateFile 2090 (ev_owner_slot e < 128)) (\<lambda>_.
     and_then (check_assert StateFile 2091 (slot_side (ev_owner_slot e) oo = Some (event_view_side v))) (\<lambda>_.
     and_then (check_assert StateFile 2092 (oo_orders oo ! unat (ev_owner_slot e) = ev_order_id e)) (\<lambda>_.
     consume_view v oo)))"

text \<open>The loop over the limit; it ends early when the queue is empty or the owner is missing.\<close>

primrec consume_events_loop ::
  "nat \<Rightarrow> market_state \<Rightarrow> aligned \<Rightarrow> account_info list \<Rightarrow> event_queue_account \<Rightarrow>
   dex_fault + (account_info list \<times> event_queue_account)" where
  "consume_events_loop 0 m program_id accs q = Inr (accs, q)"
| "consume_events_loop (Suc n) m program_id accs q =
     and_then (peek_front event_header_ops q) (\<lambda>front.
     case front of
       None \<Rightarrow> Inr (accs, q)
     | Some e \<Rightarrow>
         and_then (event_as_view e) (\<lambda>v.
         case binary_search (map ai_key accs) (ev_owner e) of
           None \<Rightarrow> Inr (accs, q)
         | Some i \<Rightarrow>
             and_then (load_orders_mut m (accs ! i) None program_id None) (\<lambda>oo.
             and_then (consume_event e v oo) (\<lambda>oo'.
             let accs' = update_account (ev_owner e) (store_words (open_orders_words oo')) accs in
             and_then (pop_front event_header_ops q) (\<lambda>(popped, q').
             case popped of
               None \<Rightarrow> Inl (err_code ConsumeEventsQueueFailure)
             | Some _ \<Rightarrow> consume_events_loop n m program_id accs' q')))))"

definition process_consume_events ::
  "consume_events_args \<Rightarrow> dex_fault + (account_info list \<times> event_queue_account)" where
  "process_consume_events a =
     consume_events_loop (unat (cea_limit a)) (cea_market a) (cea_program_id a)
       (cea_open_orders_accounts a) (cea_event_q a)"

definition process_match_orders ::
  "match_orders_args \<Rightarrow> dex_fault + (request_queue_account \<times> order_book \<times> event_queue_account)" where
  "process_match_orders a = process_requests (moa_limit a) (moa_req_q a) (moa_order_book a) (moa_event_q a)"

subsection \<open>Settling, disabling, sweeping\<close>

definition settle_referrer ::
  "('ix, 'l) token_program \<Rightarrow> settle_funds_args \<Rightarrow> u64 \<Rightarrow> market_state \<Rightarrow> 'l \<Rightarrow> dex_fault + (market_state \<times> 'l)" where
  "settle_referrer tp a rebates market l =
     (let seeds = gen_vault_signer_seeds (ms_vault_signer_nonce market) (ms_own_address market) in
      case sfa_referrer a of
        Some referrer \<Rightarrow>
          if rebates > 0 then
            and_then (send_from_vault tp rebates referrer (sfa_pc_vault a) (sfa_vault_signer a) seeds l)
              (\<lambda>l1. Inr (market, l1))
          else Inr (market\<lparr>ms_pc_fees_accrued := ms_pc_fees_accrued market + rebates\<rparr>, l)
      | None \<Rightarrow> Inr (market\<lparr>ms_pc_fees_accrued := ms_pc_fees_accrued market + rebates\<rparr>, l))"

definition process_settle_funds ::
  "('ix, 'l) token_program \<Rightarrow> settle_funds_args \<Rightarrow> 'l \<Rightarrow> dex_fault + ((market_state \<times> open_orders) \<times> 'l)" where
  "process_settle_funds tp a l =
     (let market = sfa_market a; oo = sfa_open_orders a;
          native_coin_amount = oo_native_coin_free oo; native_pc_amount = oo_native_pc_free oo;
          market1 = market\<lparr>ms_coin_deposits_total := ms_coin_deposits_total market - native_coin_amount,
                           ms_pc_deposits_total := ms_pc_deposits_total market - native_pc_amount\<rparr> in
      and_then (unwrap (checked_sub (oo_native_coin_total oo) native_coin_amount)) (\<lambda>coin_total.
      and_then (unwrap (checked_sub (oo_native_pc_total oo) native_pc_amount)) (\<lambda>pc_total.
      let oo1 = oo\<lparr>oo_native_coin_free := 0, oo_native_pc_free := 0,
                   oo_native_coin_total := coin_total, oo_native_pc_total := pc_total\<rparr>;
          seeds = gen_vault_signer_seeds (ms_vault_signer_nonce market) (ms_own_address market) in
      and_then (send_from_vault tp native_coin_amount (sfa_coin_wallet a) (sfa_coin_vault a)
        (sfa_vault_signer a) seeds l) (\<lambda>l1.
      and_then (send_from_vault tp native_pc_amount (sfa_pc_wallet a) (sfa_pc_vault a)
        (sfa_vault_signer a) seeds l1) (\<lambda>l2.
      let rebates = oo_referrer_rebates_accrued oo1 in
      and_then (settle_referrer tp a rebates market1 l2) (\<lambda>(market2, l3).
      Inr ((market2\<lparr>ms_referrer_rebates_accrued := ms_referrer_rebates_accrued market2 - rebates\<rparr>,
            oo1\<lparr>oo_referrer_rebates_accrued := 0\<rparr>), l3)))))))"

definition process_disable_market :: "market_state \<Rightarrow> market_state" where
  "process_disable_market market =
     market\<lparr>ms_account_flags := ms_account_flags market OR AF_Disabled\<rparr>"

definition process_sweep_fees ::
  "('ix, 'l) token_program \<Rightarrow> sweep_fees_args \<Rightarrow> 'l \<Rightarrow> dex_fault + (market_state \<times> 'l)" where
  "process_sweep_fees tp a l =
     (let market = swa_market a; token_amount = ms_pc_fees_accrued market;
          market1 = market\<lparr>ms_pc_fees_accrued := 0\<rparr>;
          seeds = gen_vault_signer_seeds (ms_vault_signer_nonce market1) (ms_own_address market1) in
      and_then (send_from_vault tp token_amount (swa_fee_receiver a) (swa_pc_vault a)
        (swa_vault_signer a) seeds l) (\<lambda>l1. Inr (market1, l1)))"

end
