(* ===== verification/Program.thy ===== *)
theory Program
  imports Processor
begin

text \<open>
  The program's entry (\<open>dex/src/state.rs\<close>, \<open>State::process\<close> and
  \<open>process_initialize_market\<close>): the instruction is decoded, its accounts are parsed, the handler
  runs, and what it wrote through its references is in the accounts it returns.
\<close>

subsection \<open>Initialising a market\<close>

definition init_request_queue :: "account_info \<Rightarrow> dex_fault + account_info" where
  "init_request_queue acc =
     and_then (init_account_padding (ai_data acc)) (\<lambda>(_, rq_view).
     if length rq_view < 4 then Inl Panic
     else if chunks 10 (drop 4 rq_view) = [] then Inl (err_code RequestQueueEmpty)
     else Inr (store_words (request_header_words
       \<lparr>rqh_account_flags = AF_Initialized OR AF_RequestQueue, rqh_head = 0, rqh_count = 0,
        rqh_next_seq_num = 0\<rparr>) acc))"

definition init_event_queue :: "account_info \<Rightarrow> dex_fault + account_info" where
  "init_event_queue acc =
     and_then (init_account_padding (ai_data acc)) (\<lambda>(_, eq_view).
     and_then (check_assert StateFile 2384 (4 < length eq_view)) (\<lambda>_.
     if length (chunks 11 (drop 4 eq_view)) < 128 then Inl (err_code EventQueueTooSmall)
     else Inr (store_words (event_header_words
       \<lparr>eqh_account_flags = AF_Initialized OR AF_EventQueue, eqh_head = 0, eqh_count = 0,
        eqh_seq_num = 0\<rparr>) acc)))"

definition init_side :: "u64 \<Rightarrow> account_info \<Rightarrow> dex_fault + account_info" where
  "init_side flag acc =
     and_then (init_account_padding (ai_data acc)) (\<lambda>(_, ob_view).
     and_then (check_assert StateFile 2402 (1 < length ob_view)) (\<lambda>_.
     and_then (unwrap (slab_of_words (drop 1 ob_view))) (\<lambda>slab.
     and_then (slab_assert_minimum_capacity 100 slab) (\<lambda>_.
     Inr (store_words [AF_Initialized OR flag] acc)))))"

definition initial_market :: "initialize_market_args \<Rightarrow> market_state" where
  "initial_market a =
     (let inst = ima_instruction a; accs = ima_accounts a in
      \<lparr>ms_account_flags = AF_Initialized OR AF_Market, ms_own_address = ai_key (accs ! 0),
       ms_vault_signer_nonce = im_vault_signer_nonce inst,
       ms_coin_mint = ima_coin_mint a, ms_pc_mint = ima_pc_mint a, ms_coin_vault = ima_coin_vault a,
       ms_coin_deposits_total = 0, ms_coin_fees_accrued = 0,
       ms_pc_vault = ima_pc_vault a, ms_pc_deposits_total = 0, ms_pc_fees_accrued = 0,
       ms_pc_dust_threshold = im_pc_dust_threshold inst,
       ms_req_q = ai_key (accs ! 1), ms_event_q = ai_key (accs ! 2),
       ms_bids = ai_key (accs ! 3), ms_asks = ai_key (accs ! 4),
       ms_coin_lot_size = im_coin_lot_size inst, ms_pc_lot_size = im_pc_lot_size inst,
       ms_fee_rate_bps = ucast (im_fee_rate_bps inst), ms_referrer_rebates_accrued = 0\<rparr>)"

definition init_market_account :: "market_state \<Rightarrow> account_info \<Rightarrow> dex_fault + account_info" where
  "init_market_account m acc =
     and_then (init_account_padding (ai_data acc)) (\<lambda>(_, market_view).
     and_then (check_assert StateFile 2417 (length market_view = 47)) (\<lambda>_.
     Inr (store_words (market_words m) acc)))"

definition process_initialize_market :: "initialize_market_args \<Rightarrow> dex_fault + account_info list" where
  "process_initialize_market a =
     (let accs = ima_accounts a in
      and_then (init_request_queue (accs ! 1)) (\<lambda>req_q.
      and_then (init_event_queue (accs ! 2)) (\<lambda>event_q.
      and_then (init_side AF_Bids (accs ! 3)) (\<lambda>bids.
      and_then (init_side AF_Asks (accs ! 4)) (\<lambda>asks.
      and_then (init_market_account (initial_market a) (accs ! 0)) (\<lambda>market.
      Inr [market, req_q, event_q, bids, asks]))))))"

subsection \<open>The dispatcher\<close>

text \<open>The struct behind a reference goes to the account it was loaded from.\<close>

abbreviation put :: "account_info \<Rightarrow> u64 list \<Rightarrow> account_info list \<Rightarrow> account_info list" where
  "put acc ws accs \<equiv> update_account (ai_key acc) (store_words ws) accs"

text \<open>Accounts written in place of those with the same address.\<close>

primrec put_all :: "account_info list \<Rightarrow> account_info list \<Rightarrow> account_info list" where
  "put_all [] accs = accs"
| "put_all (a # as) accs = put_all as (update_account (ai_key a) (\<lambda>_. a) accs)"

definition run_new_order ::
  "chain \<Rightarrow> ('ix, 'l) token_program \<Rightarrow> aligned \<Rightarrow> account_info list \<Rightarrow> new_order_instruction_v2 \<Rightarrow> 'l \<Rightarrow>
   dex_fault + (account_info list \<times> 'l)" where
  "run_new_order ch tp program_id accounts inst l =
     and_then (new_order_args_parse ch program_id inst accounts) (\<lambda>a.
     and_then (process_new_order ch tp a l) (\<lambda>((m, oo, q), l1).
     Inr (put (accounts ! 2) (request_queue_words q)
            (put (accounts ! 1) (open_orders_words oo)
              (put (accounts ! 0) (market_words m) accounts)), l1)))"

definition process ::
  "chain \<Rightarrow> ('ix, 'l) token_program \<Rightarrow> aligned \<Rightarrow> account_info list \<Rightarrow> u8 list \<Rightarrow> 'l \<Rightarrow>
   dex_fault + (account_info list \<times> 'l)" where
  "process ch tp program_id accounts input l =
     and_then (ok_or (unpack input) (DexErr (ProgramError InvalidArgument))) (\<lambda>instruction.
     case instruction of
       InitializeMarket inner \<Rightarrow>
         and_then (initialize_market_args_new ch program_id inner accounts) (\<lambda>a.
         and_then (process_initialize_market a) (\<lambda>accs. Inr (put_all accs accounts, l)))
     | NewOrder inner \<Rightarrow>
         run_new_order ch tp program_id accounts (add_self_trade_behavior DecrementTake inner) l
     | NewOrderV2 inner \<Rightarrow> run_new_order ch tp program_id accounts inner l
     | MatchOrders limit \<Rightarrow>
         and_then (match_orders_args_parse program_id accounts limit) (\<lambda>a.
         and_then (process_match_orders a) (\<lambda>(rq, ob, eq).
         Inr (put (accounts ! 4) ((AF_Initialized OR AF_Asks) # slab_words (ob_asks ob))
               (put (accounts ! 3) ((AF_Initialized OR AF_Bids) # slab_words (ob_bids ob))
                 (put (accounts ! 2) (event_queue_words eq)
                   (put (accounts ! 1) (request_queue_words rq)
                     (put (accounts ! 0) (market_words (ob_market ob)) accounts)))), l)))
     | ConsumeEvents limit \<Rightarrow>
         and_then (consume_events_args_parse program_id accounts limit) (\<lambda>a.
         and_then (process_consume_events a) (\<lambda>(accs, eq).
         Inr (put (accounts ! (length accounts - 3)) (event_queue_words eq) (put_all accs accounts), l)))
     | CancelOrder inner \<Rightarrow>
         and_then (cancel_order_args_parse program_id accounts inner) (\<lambda>a.
         and_then (process_cancel_order a) (\<lambda>q.
         Inr (put (accounts ! 2) (request_queue_words q)
               (put (accounts ! 1) (open_orders_words (ca_open_orders a)) accounts), l)))
     | SettleFunds \<Rightarrow>
         and_then (settle_funds_args_parse ch program_id accounts) (\<lambda>a.
         and_then (process_settle_funds tp a l) (\<lambda>((m, oo), l1).
         Inr (put (accounts ! 1) (open_orders_words oo)
               (put (accounts ! 0) (market_words m) accounts), l1)))
     | CancelOrderByClientId client_id \<Rightarrow>
         and_then (cancel_order_by_client_id_args_parse program_id accounts client_id) (\<lambda>a.
         and_then (process_cancel_order_by_client_id a) (\<lambda>q.
         Inr (put (accounts ! 2) (request_queue_words q)
               (put (accounts ! 1) (open_orders_words (ca_open_orders a)) accounts), l)))
     | DisableMarket \<Rightarrow>
         and_then (disable_market_args_parse ch program_id accounts) (\<lambda>m.
         Inr (put (accounts ! 0) (market_words (process_disable_market m)) accounts, l))
     | SweepFees \<Rightarrow>
         and_then (sweep_fees_args_parse ch program_id accounts) (\<lambda>a.
         and_then (process_sweep_fees tp a l) (\<lambda>(m, l1).
         Inr (put (accounts ! 0) (market_words m) accounts, l1))))"

subsection \<open>The entrypoint\<close>

text \<open>\<open>process_instruction\<close> of \<open>dex/src/lib.rs\<close>: an error becomes the program error of its number.\<close>

definition entry_fault :: "dex_fault \<Rightarrow> dex_fault" where
  "entry_fault f = (case f of DexErr e \<Rightarrow> DexErr (ProgramError (program_error_of_dex e)) | _ \<Rightarrow> f)"

definition process_instruction ::
  "chain \<Rightarrow> ('ix, 'l) token_program \<Rightarrow> aligned \<Rightarrow> account_info list \<Rightarrow> u8 list \<Rightarrow> 'l \<Rightarrow>
   dex_fault + (account_info list \<times> 'l)" where
  "process_instruction ch tp program_id accounts instruction_data l =
     map_err entry_fault (process ch tp program_id accounts instruction_data l)"

end
