(* ===== verification/Funds.thy ===== *)
theory Funds
  imports Program RequestsSafe
begin

text \<open>
  What placing an order, cancelling and settling do to the funds and the queues: the amounts
  as natural numbers, so that nothing has wrapped around.
\<close>

subsection \<open>The token program\<close>

text \<open>Moving tokens between accounts, on balances as natural numbers.\<close>

definition pay :: "aligned \<Rightarrow> aligned \<Rightarrow> u64 \<Rightarrow> (aligned \<Rightarrow> nat) \<Rightarrow> aligned \<Rightarrow> nat" where
  "pay src dst n b = (let b1 = b(src := b src - unat n) in b1(dst := b1 dst + unat n))"

text \<open>
  What the program relies on: a transfer that succeeds moves its amount, which the source
  had; \<open>bal\<close> reads the balances off a ledger.
\<close>

definition honest_tokens :: "('ix, 'l) token_program \<Rightarrow> ('l \<Rightarrow> aligned \<Rightarrow> nat) \<Rightarrow> bool" where
  "honest_tokens tp bal \<longleftrightarrow>
     (\<forall>t ix seeds l l'. tp_transfer tp t = Inr ix \<and> tp_invoke tp ix seeds l = Inr l' \<longrightarrow>
        unat (tr_amount t) \<le> bal l (tr_source t) \<and>
        bal l' = pay (tr_source t) (tr_destination t) (tr_amount t) (bal l))"

lemma honest_transfer:
  assumes "honest_tokens tp bal" "tp_transfer tp t = Inr ix" "tp_invoke tp ix seeds l = Inr l'"
  shows "unat (tr_amount t) \<le> bal l (tr_source t)"
    "bal l' = pay (tr_source t) (tr_destination t) (tr_amount t) (bal l)"
  using assms unfolding honest_tokens_def by blast+

definition sample_chain :: chain where
  "sample_chain =
     \<lparr>ch_spl_token_id = (6, 0, 0, 0), ch_is_rent_id = (\<lambda>k. k = (7, 0, 0, 0)),
      ch_srm_token = (8, 0, 0, 0), ch_msrm_token = (9, 0, 0, 0),
      ch_disable_authority = (10, 0, 0, 0), ch_fee_sweeper = (10, 1, 0, 0),
      ch_mint_len = 82, ch_token_account_len = 165,
      ch_rent_from_account = (\<lambda>_. Some (\<lambda>lamports n. n \<le> unat lamports)),
      ch_create_program_address = (\<lambda>seeds p. Inr (19, 0, 0, 0))\<rparr>"

text \<open>A token program that moves balances between addresses.\<close>

definition sample_token_program :: "(transfer, aligned \<Rightarrow> u64) token_program" where
  "sample_token_program =
     \<lparr>tp_transfer = Inr,
      tp_invoke = (\<lambda>t seeds bal.
        if tr_amount t \<le> bal (tr_source t)
        then let bal1 = bal(tr_source t := bal (tr_source t) - tr_amount t)
             in case checked_add (bal1 (tr_destination t)) (tr_amount t) of
                  None \<Rightarrow> Inl (Custom 14)
                | Some x \<Rightarrow> Inr (bal1(tr_destination t := x))
        else Inl (Custom 1)),
      tp_is_insufficient_funds = (\<lambda>i. i = 1)\<rparr>"


lemma sample_token_program_honest: "honest_tokens sample_token_program (\<lambda>l k. unat (l k))"
  unfolding honest_tokens_def
proof (intro allI impI)
  fix t ix :: transfer and seeds and l l' :: "aligned \<Rightarrow> u64"
  assume "tp_transfer sample_token_program t = Inr ix \<and> tp_invoke sample_token_program ix seeds l = Inr l'"
  then obtain x where x: "tr_amount t \<le> l (tr_source t)"
    "checked_add ((l(tr_source t := l (tr_source t) - tr_amount t)) (tr_destination t)) (tr_amount t) = Some x"
    "l' = l(tr_source t := l (tr_source t) - tr_amount t, tr_destination t := x)"
    by (auto simp: sample_token_program_def Let_def split: if_splits option.splits)
  then show "unat (tr_amount t) \<le> unat (l (tr_source t)) \<and>
    (\<lambda>k. unat (l' k)) = pay (tr_source t) (tr_destination t) (tr_amount t) (\<lambda>k. unat (l k))"
    using checked_add_SomeD [OF x(2)]
    by (simp add: pay_def fun_eq_iff word_le_nat_alt unat_sub split: if_splits)
qed

subsection \<open>Balances\<close>

definition balanced :: "open_orders \<Rightarrow> bool" where
  "balanced oo \<longleftrightarrow> oo_native_pc_free oo \<le> oo_native_pc_total oo \<and> oo_native_coin_free oo \<le> oo_native_coin_total oo"

text \<open>What an account has locked in orders.\<close>

definition pc_locked :: "open_orders \<Rightarrow> nat" where
  "pc_locked oo = unat (oo_native_pc_total oo) - unat (oo_native_pc_free oo)"

definition coin_locked :: "open_orders \<Rightarrow> nat" where
  "coin_locked oo = unat (oo_native_coin_total oo) - unat (oo_native_coin_free oo)"

text \<open>What an order must lock, without overflow.\<close>

definition order_lock :: "fee_tier \<Rightarrow> market_state \<Rightarrow> new_order_instruction_v2 \<Rightarrow> nat" where
  "order_lock tier m inst =
     (case n2_side inst of
        Bid \<Rightarrow>
          let q = unat (n2_max_qty inst) * unat (n2_limit_price inst) * unat (ms_pc_lot_size m)
          in q + unat (taker_fee tier (of_nat q))
      | Ask \<Rightarrow> unat (n2_max_qty inst) * unat (ms_coin_lot_size m))"

lemma bid_lock_qty_value:
  assumes "bid_lock_qty tier lot inst = Inr x" "n2_side inst = Bid" "lot = ms_pc_lot_size m"
  shows "unat x = order_lock tier m inst"
proof -
  obtain y z where "checked_mul (n2_max_qty inst) (n2_limit_price inst) = Some y"
    "checked_mul y lot = Some z" "checked_add z (taker_fee tier z) = Some x"
    using assms(1) by (auto simp: bid_lock_qty_def res_simps)
  then have "unat z = unat (n2_max_qty inst) * unat (n2_limit_price inst) * unat lot"
    "unat x = unat z + unat (taker_fee tier z)"
    by (auto dest!: checked_mul_SomeD checked_add_SomeD)
  moreover then have "z = of_nat (unat (n2_max_qty inst) * unat (n2_limit_price inst) * unat lot)"
    by (metis of_nat_unat ucast_id)
  ultimately show ?thesis using assms(2,3) by (simp add: order_lock_def Let_def)
qed

text \<open>The two ways to lock funds, with the amounts that move.\<close>

lemma lock_bid_funds_run:
  assumes "lock_bid_funds a = Inr f" "n2_side (noa_instruction a) = Bid"
  obtains lock dep where
    "unat lock = order_lock (noa_fee_tier a) (noa_market a) (noa_instruction a)"
    "of_native_pc_qty_locked f = Some lock" "lock \<noteq> 0"
    "dep = lock - min lock (oo_native_pc_free (noa_open_orders a))" "of_deposit_amount f = dep"
    "of_deposit_vault f = noa_pc_vault a"
    "unat (oo_native_pc_total (noa_open_orders a)) + unat dep < 2 ^ 64"
    "of_open_orders f = (noa_open_orders a)
       \<lparr>oo_native_pc_free := oo_native_pc_free (noa_open_orders a) - min lock (oo_native_pc_free (noa_open_orders a)),
        oo_native_pc_total := oo_native_pc_total (noa_open_orders a) + dep\<rparr>"
    "unat (ms_pc_deposits_total (noa_market a)) + unat dep < 2 ^ 64"
    "of_market f = (noa_market a)\<lparr>ms_pc_deposits_total := ms_pc_deposits_total (noa_market a) + dep\<rparr>"
proof -
  obtain lock where l: "bid_lock_qty (noa_fee_tier a) (ms_pc_lot_size (noa_market a)) (noa_instruction a) = Inr lock"
    using assms(1) by (auto simp: lock_bid_funds_def res_simps Let_def)
  show thesis
    using assms(1) l bid_lock_qty_value [OF l assms(2) refl]
    by (intro that [of lock]) (auto simp: lock_bid_funds_def lock_free_pc_def credit_locked_pc_def
      res_simps Let_def checked_add_def checked_sub_def split: if_splits)
qed

lemma lock_ask_funds_run:
  assumes "lock_ask_funds a = Inr f" "n2_side (noa_instruction a) = Ask"
  obtains lock dep where
    "unat lock = order_lock (noa_fee_tier a) (noa_market a) (noa_instruction a)"
    "of_native_pc_qty_locked f = None"
    "dep = lock - min lock (oo_native_coin_free (noa_open_orders a))" "of_deposit_amount f = dep"
    "of_deposit_vault f = noa_coin_vault a"
    "unat (oo_native_coin_total (noa_open_orders a)) + unat dep < 2 ^ 64"
    "of_open_orders f = (noa_open_orders a)
       \<lparr>oo_native_coin_free := oo_native_coin_free (noa_open_orders a) - min lock (oo_native_coin_free (noa_open_orders a)),
        oo_native_coin_total := oo_native_coin_total (noa_open_orders a) + dep\<rparr>"
    "unat (ms_coin_deposits_total (noa_market a)) + unat dep < 2 ^ 64"
    "of_market f = (noa_market a)\<lparr>ms_coin_deposits_total := ms_coin_deposits_total (noa_market a) + dep\<rparr>"
proof -
  obtain lock where l: "checked_mul (n2_max_qty (noa_instruction a)) (ms_coin_lot_size (noa_market a)) = Some lock"
    using assms(1) by (auto simp: lock_ask_funds_def res_simps Let_def)
  have "unat lock = order_lock (noa_fee_tier a) (noa_market a) (noa_instruction a)"
    using conjunct2 [OF checked_mul_SomeD [OF l]] assms(2) by (simp add: order_lock_def del: unat_mult_lem)
  then show thesis
    using assms(1) l
    by (intro that [of lock]) (auto simp: lock_ask_funds_def lock_free_coin_def credit_locked_coin_def
      res_simps Let_def checked_add_def checked_sub_def split: if_splits)
qed

text \<open>Moving \<open>min lock free\<close> out of the free funds and depositing the rest locks \<open>lock\<close> more.\<close>

lemma lock_amounts:
  fixes lock free total :: u64
  assumes "free \<le> total" "unat total + unat (lock - min lock free) < 2 ^ 64"
  shows "unat (total + (lock - min lock free)) - unat (free - min lock free) = unat total - unat free + unat lock"
    "free - min lock free \<le> total + (lock - min lock free)"
proof -
  have "unat (lock - min lock free) = unat lock - min (unat lock) (unat free)"
    "unat (free - min lock free) = unat free - min (unat lock) (unat free)"
    by (simp_all add: unat_sub min_def word_le_nat_alt)
  moreover have "unat (total + (lock - min lock free)) = unat total + unat (lock - min lock free)"
    using assms(2) by (simp add: unat_add_small)
  ultimately show "unat (total + (lock - min lock free)) - unat (free - min lock free) = unat total - unat free + unat lock"
    "free - min lock free \<le> total + (lock - min lock free)"
    using assms(1) by (auto simp: word_le_nat_alt min_def split: if_splits)
qed

subsection \<open>Placing an order\<close>

lemma push_request_run:
  assumes "push_request v q = Inr q'" "queue_inv request_header_ops q"
  shows "queue_inv request_header_ops q' \<and> requests q' = requests q @ [request_new v]
    \<and> rqh_next_seq_num (q_header q') = rqh_next_seq_num (q_header q)"
proof -
  have "length (requests q) \<le> length (q_buf q)"
    using assms(2) by (simp add: requests_def queue_inv_def length_queue_list)
  moreover have "length (requests q) \<noteq> length (q_buf q)"
    using assms request_q.push_back_full [OF assms(2)] by (auto simp: push_request_def requests_def)
  ultimately have "length (queue_list request_header_ops q) < length (q_buf q)" by (simp add: requests_def)
  from request_q.push_back_room [OF assms(2) this, of "request_new v"]
  show ?thesis using assms(1) by (auto simp: push_request_def requests_def)
qed

lemma gen_order_id_queue:
  assumes "gen_order_id p sd q = (k, q')" "queue_inv request_header_ops q"
  shows "k = order_key p sd (rqh_next_seq_num (q_header q)) \<and> queue_inv request_header_ops q'
    \<and> requests q' = requests q \<and> rqh_next_seq_num (q_header q') = rqh_next_seq_num (q_header q) + 1"
  using assms
  by (auto simp: gen_order_id_key requests_def queue_inv_def queue_list_def request_header_ops_def)

lemma add_order_balances:
  assumes "add_order oid sd oo = Inr (slot, oo')"
  shows "oo_native_pc_free oo' = oo_native_pc_free oo" "oo_native_pc_total oo' = oo_native_pc_total oo"
    "oo_native_coin_free oo' = oo_native_coin_free oo" "oo_native_coin_total oo' = oo_native_coin_total oo"
    "oo_referrer_rebates_accrued oo' = oo_referrer_rebates_accrued oo"
  using assms by (auto simp only: add_order_def Let_def res_simps Pair_inject split: if_splits) simp_all

lemma add_order_run:
  assumes "add_order oid sd oo = Inr (slot, oo')" "oo_arrays oo"
  shows "slot < 128 \<and> oo_slots oo (unat slot) = None \<and> (\<forall>j<unat slot. oo_slots oo j \<noteq> None)
    \<and> oo_slots oo' = (oo_slots oo)(unat slot \<mapsto> (sd, oid)) \<and> oo_arrays oo'
    \<and> oo_client_order_ids oo' = oo_client_order_ids oo"
proof -
  have "oo_free_slot_bits oo \<noteq> 0" using assms(1) by (auto simp: add_order_def)
  then obtain s o' where "add_order oid sd oo = Inr (s, o')" "s < 128" "oo_slots oo (unat s) = None" "\<forall>j<unat s. oo_slots oo j \<noteq> None"
    "oo_slots o' = (oo_slots oo)(unat s \<mapsto> (sd, oid))" "oo_arrays o'"
    "oo_client_order_ids o' = oo_client_order_ids oo"
    using assms(2) by (rule add_order_slots)
  then show ?thesis using assms(1) by simp
qed

lemma oo_slots_update [simp]:
  "oo_slots (oo\<lparr>oo_client_order_ids := c\<rparr>) = oo_slots oo"
  "oo_slots (oo\<lparr>oo_native_pc_free := x\<rparr>) = oo_slots oo"
  "oo_slots (oo\<lparr>oo_native_pc_total := x\<rparr>) = oo_slots oo"
  "oo_slots (oo\<lparr>oo_native_coin_free := x\<rparr>) = oo_slots oo"
  "oo_slots (oo\<lparr>oo_native_coin_total := x\<rparr>) = oo_slots oo"
  by (simp_all add: oo_slots_def fun_eq_iff)

lemma order_funds_arrays:
  assumes "order_funds a = Inr f"
  shows "oo_slots (of_open_orders f) = oo_slots (noa_open_orders a)
    \<and> oo_arrays (of_open_orders f) = oo_arrays (noa_open_orders a)
    \<and> oo_client_order_ids (of_open_orders f) = oo_client_order_ids (noa_open_orders a)
    \<and> oo_referrer_rebates_accrued (of_open_orders f) = oo_referrer_rebates_accrued (noa_open_orders a)"
proof (cases "n2_side (noa_instruction a)")
  case Bid
  then have "lock_bid_funds a = Inr f" using assms by (simp add: order_funds_def)
  then obtain x y where "of_open_orders f = (noa_open_orders a)\<lparr>oo_native_pc_free := x, oo_native_pc_total := y\<rparr>"
    using Bid by (rule lock_bid_funds_run)
  then show ?thesis by (simp add: oo_arrays_def)
next
  case Ask
  then have "lock_ask_funds a = Inr f" using assms by (simp add: order_funds_def)
  then obtain x y where "of_open_orders f = (noa_open_orders a)\<lparr>oo_native_coin_free := x, oo_native_coin_total := y\<rparr>"
    using Ask by (rule lock_ask_funds_run)
  then show ?thesis by (simp add: oo_arrays_def)
qed

text \<open>The parts a successful order goes through.\<close>

lemma process_new_order_run:
  assumes "process_new_order ch tp a l = Inr ((m', oo', q'), l')" "queue_inv request_header_ops (noa_req_q a)"
    "oo_arrays (noa_open_orders a)"
  obtains f ix slot where "order_funds a = Inr f" "m' = of_market f"
    "tp_transfer tp \<lparr>tr_source = noa_payer a, tr_destination = of_deposit_vault f,
       tr_authority = noa_owner a, tr_amount = of_deposit_amount f\<rparr> = Inr ix"
    "tp_invoke tp ix None l = Inr l'"
    "slot < 128" "oo_slots (of_open_orders f) (unat slot) = None"
    "\<forall>j<unat slot. oo_slots (of_open_orders f) j \<noteq> None"
    "oo_slots oo' = (oo_slots (of_open_orders f))(unat slot \<mapsto>
       (n2_side (noa_instruction a), order_key (n2_limit_price (noa_instruction a))
          (n2_side (noa_instruction a)) (rqh_next_seq_num (q_header (noa_req_q a)))))"
    "oo_client_order_ids oo' ! unat slot = n2_client_id (noa_instruction a)" "oo_arrays oo'"
    "oo_native_pc_free oo' = oo_native_pc_free (of_open_orders f)"
    "oo_native_pc_total oo' = oo_native_pc_total (of_open_orders f)"
    "oo_native_coin_free oo' = oo_native_coin_free (of_open_orders f)"
    "oo_native_coin_total oo' = oo_native_coin_total (of_open_orders f)"
    "oo_referrer_rebates_accrued oo' = oo_referrer_rebates_accrued (of_open_orders f)"
    "queue_inv request_header_ops q'"
    "rqh_next_seq_num (q_header q') = rqh_next_seq_num (q_header (noa_req_q a)) + 1"
    "requests q' = requests (noa_req_q a) @ [request_new (NewOrderView
        \<lparr>nr_side = n2_side (noa_instruction a), nr_order_type = n2_order_type (noa_instruction a),
         nr_owner_slot = slot, nr_fee_tier = noa_fee_tier a,
         nr_order_id = order_key (n2_limit_price (noa_instruction a)) (n2_side (noa_instruction a))
            (rqh_next_seq_num (q_header (noa_req_q a))),
         nr_max_coin_qty = n2_max_qty (noa_instruction a),
         nr_native_pc_qty_locked = of_native_pc_qty_locked f, nr_owner = noa_open_orders_address a,
         nr_client_order_id = nonzero_new (n2_client_id (noa_instruction a)),
         nr_self_trade_behavior = n2_self_trade_behavior (noa_instruction a)\<rparr>)]"
proof -
  let ?inst = "noa_instruction a"
  obtain f where f: "order_funds a = Inr f"
    using assms(1) by (cases "order_funds a") (auto simp: process_new_order_def Let_def)
  obtain k q1 where g: "gen_order_id (n2_limit_price ?inst) (n2_side ?inst) (noa_req_q a) = (k, q1)"
    by (cases "gen_order_id (n2_limit_price ?inst) (n2_side ?inst) (noa_req_q a)")
  obtain ix slot oo1 where r: "m' = of_market f"
    "tp_transfer tp \<lparr>tr_source = noa_payer a, tr_destination = of_deposit_vault f,
       tr_authority = noa_owner a, tr_amount = of_deposit_amount f\<rparr> = Inr ix"
    "tp_invoke tp ix None l = Inr l'" "add_order k (n2_side ?inst) (of_open_orders f) = Inr (slot, oo1)"
    "oo' = oo1\<lparr>oo_client_order_ids := (oo_client_order_ids oo1)[unat slot := n2_client_id ?inst]\<rparr>"
    and push: "push_request (NewOrderView
        \<lparr>nr_side = n2_side ?inst, nr_order_type = n2_order_type ?inst, nr_owner_slot = slot,
         nr_fee_tier = noa_fee_tier a, nr_order_id = k, nr_max_coin_qty = n2_max_qty ?inst,
         nr_native_pc_qty_locked = of_native_pc_qty_locked f, nr_owner = noa_open_orders_address a,
         nr_client_order_id = nonzero_new (n2_client_id ?inst),
         nr_self_trade_behavior = n2_self_trade_behavior ?inst\<rparr>) q1 = Inr q'"
    using assms(1) f g by (auto simp: process_new_order_def Let_def res_simps split: sum.splits)
  have oo: "oo_arrays (of_open_orders f)" using order_funds_arrays [OF f] assms(3) by simp
  note add = add_order_run [OF r(4) oo] add_order_balances [OF r(4)]
  have slot: "unat slot < 128" using add by (simp add: word_less_nat_alt)
  note q1 = gen_order_id_queue [OF g assms(2)]
  note q2 = push_request_run [OF push conjunct1 [OF conjunct2 [OF q1]]]
  show thesis
    by (rule that [OF f r(1-3)]) (use add q1 q2 slot r(5) oo in \<open>simp_all add: oo_arrays_def\<close>)
qed

text \<open>
  Claim C13: an order that is accepted locks exactly what it needs, as a natural number (a bid its
  value at the limit plus the taker fee on it, an ask its lots in native units): the free
  funds are used first; the rest, which the payer had, is transferred from the payer's token
  account to the market's vault of that currency and added to the account's and the market's
  totals without overflow; the other currency is untouched, and the account stays balanced.
\<close>

theorem new_order_locks_funds:
  assumes "process_new_order ch tp a l = Inr ((m', oo', q'), l')"
    and "balanced (noa_open_orders a)" and "oo_arrays (noa_open_orders a)"
    and "queue_inv request_header_ops (noa_req_q a)" and "honest_tokens tp bal"
  shows "balanced oo' \<and>
    (let oo = noa_open_orders a; m = noa_market a;
         lock = order_lock (noa_fee_tier a) m (noa_instruction a) in
     case n2_side (noa_instruction a) of
       Bid \<Rightarrow> pc_locked oo' = pc_locked oo + lock \<and> coin_locked oo' = coin_locked oo \<and>
         unat (oo_native_pc_total oo') = unat (oo_native_pc_total oo) + (lock - unat (oo_native_pc_free oo)) \<and>
         unat (ms_pc_deposits_total m') = unat (ms_pc_deposits_total m) + (lock - unat (oo_native_pc_free oo)) \<and>
         ms_coin_deposits_total m' = ms_coin_deposits_total m \<and>
         (\<exists>paid. unat paid = lock - unat (oo_native_pc_free oo) \<and> unat paid \<le> bal l (noa_payer a) \<and>
            bal l' = pay (noa_payer a) (noa_pc_vault a) paid (bal l))
     | Ask \<Rightarrow> coin_locked oo' = coin_locked oo + lock \<and> pc_locked oo' = pc_locked oo \<and>
         unat (oo_native_coin_total oo') = unat (oo_native_coin_total oo) + (lock - unat (oo_native_coin_free oo)) \<and>
         unat (ms_coin_deposits_total m') = unat (ms_coin_deposits_total m) + (lock - unat (oo_native_coin_free oo)) \<and>
         ms_pc_deposits_total m' = ms_pc_deposits_total m \<and>
         (\<exists>paid. unat paid = lock - unat (oo_native_coin_free oo) \<and> unat paid \<le> bal l (noa_payer a) \<and>
            bal l' = pay (noa_payer a) (noa_coin_vault a) paid (bal l)))"
proof -
  obtain f ix where f: "order_funds a = Inr f" "m' = of_market f"
    "oo_native_pc_free oo' = oo_native_pc_free (of_open_orders f)"
    "oo_native_pc_total oo' = oo_native_pc_total (of_open_orders f)"
    "oo_native_coin_free oo' = oo_native_coin_free (of_open_orders f)"
    "oo_native_coin_total oo' = oo_native_coin_total (of_open_orders f)"
    and t: "tp_transfer tp \<lparr>tr_source = noa_payer a, tr_destination = of_deposit_vault f,
       tr_authority = noa_owner a, tr_amount = of_deposit_amount f\<rparr> = Inr ix" "tp_invoke tp ix None l = Inr l'"
    using assms(1,4,3) by (rule process_new_order_run) blast
  note paid = honest_transfer [OF assms(5) t]
  have dep: "unat (x - min x y) = unat x - unat y" for x y :: u64
    by (simp add: unat_sub min_def word_le_nat_alt)
  show ?thesis
  proof (cases "n2_side (noa_instruction a)")
    case Bid
    then have "lock_bid_funds a = Inr f" using f(1) by (simp add: order_funds_def)
    then show ?thesis
    proof (rule lock_bid_funds_run [OF _ Bid], goal_cases)
      case (1 lock d)
      note la = lock_amounts [of "oo_native_pc_free (noa_open_orders a)" "oo_native_pc_total (noa_open_orders a)" lock]
      have "\<exists>paid :: u64. unat paid = unat lock - unat (oo_native_pc_free (noa_open_orders a)) \<and>
        unat paid \<le> bal l (noa_payer a) \<and> bal l' = pay (noa_payer a) (noa_pc_vault a) paid (bal l)"
        using paid 1(4,5,6) dep by (intro exI [of _ d]) simp
      then show ?case using 1 f(2-6) la assms(2) Bid dep
        by (simp add: balanced_def pc_locked_def coin_locked_def Let_def unat_add_small)
    qed
  next
    case Ask
    then have "lock_ask_funds a = Inr f" using f(1) by (simp add: order_funds_def)
    then show ?thesis
    proof (rule lock_ask_funds_run [OF _ Ask], goal_cases)
      case (1 lock d)
      note la = lock_amounts [of "oo_native_coin_free (noa_open_orders a)" "oo_native_coin_total (noa_open_orders a)" lock]
      have "\<exists>paid :: u64. unat paid = unat lock - unat (oo_native_coin_free (noa_open_orders a)) \<and>
        unat paid \<le> bal l (noa_payer a) \<and> bal l' = pay (noa_payer a) (noa_coin_vault a) paid (bal l)"
        using paid 1(3,4,5) dep by (intro exI [of _ d]) simp
      then show ?case using 1 f(2-6) la assms(2) Ask dep
        by (simp add: balanced_def pc_locked_def coin_locked_def Let_def unat_add_small)
    qed
  qed
qed

definition sample_new_order :: new_order_args where
  "sample_new_order =
     \<lparr>noa_instruction = \<lparr>n2_side = Bid, n2_limit_price = 5, n2_max_qty = 6, n2_order_type = Limit,
        n2_client_id = 77, n2_self_trade_behavior = DecrementTake\<rparr>,
      noa_market = sample_market, noa_open_orders = sample_open_orders,
      noa_open_orders_address = (20, 0, 0, 0), noa_owner = (5, 6, 7, 8),
      noa_req_q = sample_requests\<lparr>q_buf := [sample_bid, sample_ask, sample_bid, sample_bid]\<rparr>,
      noa_payer = (21, 0, 0, 0), noa_coin_vault = (13, 0, 0, 0), noa_pc_vault = (14, 0, 0, 0),
      noa_spl_token_program = (6, 0, 0, 0), noa_fee_tier = Base\<rparr>"




lemma sample_new_order_run:
  "case process_new_order sample_chain sample_token_program sample_new_order (\<lambda>_. 5000) of
     Inl _ \<Rightarrow> False
   | Inr ((m, oo, q), bal) \<Rightarrow>
       bal (21, 0, 0, 0) = 2293 \<and> oo_native_pc_total oo = 3607 \<and> ms_pc_deposits_total m = 102707"
  by code_simp

lemma sample_new_order_ok:
  "balanced (noa_open_orders sample_new_order)" "oo_arrays (noa_open_orders sample_new_order)"
  "queue_inv request_header_ops (noa_req_q sample_new_order)"
  using sample_open_orders_arrays
  by (simp_all add: sample_new_order_def balanced_def sample_open_orders_def queue_inv_def
      sample_requests_def request_header_ops_def)

theorem new_order_locks_funds_witness:
  "\<exists>m oo q bal. process_new_order sample_chain sample_token_program sample_new_order (\<lambda>_. 5000)
       = Inr ((m, oo, q), bal) \<and> balanced oo \<and> pc_locked oo = 3607 \<and> (\<exists>paid :: u64. unat paid = 2707 \<and>
       (\<lambda>k. unat (bal k)) = pay (21, 0, 0, 0) (14, 0, 0, 0) paid (\<lambda>_. 5000))"
proof -
  obtain m oo q bal where r: "process_new_order sample_chain sample_token_program sample_new_order (\<lambda>_. 5000)
       = Inr ((m, oo, q), bal)" "oo_native_pc_total oo = 3607"
    using sample_new_order_run by (auto split: sum.splits)
  note c = new_order_locks_funds [OF r(1) sample_new_order_ok sample_token_program_honest]
  have "order_lock Base sample_market (noa_instruction sample_new_order) = 3007"
    by (simp add: order_lock_def sample_new_order_def sample_market_def taker_fee_def Let_def
        u64f64_mul_u64_def taker_rate_def fee_bps_def u64f64_floor_def u64f64_frac_part_def)
  moreover have "pc_locked sample_open_orders = 600"
    by (simp add: pc_locked_def sample_open_orders_def)
  ultimately have "balanced oo \<and> pc_locked oo = 3607 \<and> (\<exists>paid :: u64. unat paid = 2707 \<and>
       (\<lambda>k. unat (bal k)) = pay (21, 0, 0, 0) (14, 0, 0, 0) paid (\<lambda>_. 5000))"
    using c by (auto simp: sample_new_order_def sample_open_orders_def Let_def)
  then show ?thesis using r(1) by blast
qed

end
