(* ===== verification/Storage.thy ===== *)
theory Storage
  imports Program Funds
begin

text \<open>
  Loading and storing: what is written to an account through one of the program's references
  is what the next load of the account reads.
\<close>

subsection \<open>The padding\<close>

lemma init_padding_stored:
  "init_account_padding (ACCOUNT_HEAD_PADDING @ bytes_of_words ws @ ACCOUNT_TAIL_PADDING)
     = Inr (ACCOUNT_HEAD_PADDING @ bytes_of_words ws @ ACCOUNT_TAIL_PADDING, ws)"
  by (simp add: init_account_padding_def split_padding_app)
    (simp add: ACCOUNT_HEAD_PADDING_def ACCOUNT_TAIL_PADDING_def check_assert_def)

lemma check_padding_stored:
  "check_account_padding (ACCOUNT_HEAD_PADDING @ bytes_of_words ws @ ACCOUNT_TAIL_PADDING)
     = Inr (ACCOUNT_HEAD_PADDING @ bytes_of_words ws @ ACCOUNT_TAIL_PADDING, ws)"
  by (simp add: check_account_padding_def split_padding_app)
    (simp add: ACCOUNT_HEAD_PADDING_def ACCOUNT_TAIL_PADDING_def check_assert_def)

lemma init_padding_inner: "init_account_padding d = Inr (d', ws) \<Longrightarrow> inner_words d = ws"
  by (auto simp: init_account_padding_def inner_words_def res_simps split: prod.splits)

lemma check_padding_inner: "check_account_padding d = Inr (d', ws) \<Longrightarrow> inner_words d = ws"
  by (auto simp: check_account_padding_def inner_words_def res_simps split: prod.splits)

lemma strip_padding_inner: "strip_account_padding b d = Inr (d', ws) \<Longrightarrow> inner_words d = ws"
  by (auto simp: strip_account_padding_def init_padding_inner check_padding_inner split: if_splits)

lemma inner_words_stored:
  "inner_words (ACCOUNT_HEAD_PADDING @ bytes_of_words ws @ ACCOUNT_TAIL_PADDING) = ws"
  by (rule init_padding_inner [OF init_padding_stored])

lemma strip_padding_stored:
  "strip_account_padding b (ACCOUNT_HEAD_PADDING @ bytes_of_words ws @ ACCOUNT_TAIL_PADDING)
     = Inr (ACCOUNT_HEAD_PADDING @ bytes_of_words ws @ ACCOUNT_TAIL_PADDING, ws)"
  by (simp add: strip_account_padding_def init_padding_stored check_padding_stored)

lemma store_words_simps [simp]:
  "ai_key (store_words ws acc) = ai_key acc" "ai_owner (store_words ws acc) = ai_owner acc"
  "ai_is_signer (store_words ws acc) = ai_is_signer acc" "ai_lamports (store_words ws acc) = ai_lamports acc"
  by (simp_all add: store_words_def)

lemma store_words_all:
  assumes "inner_words (ai_data acc) = ws0" "length ws = length ws0"
  shows "ai_data (store_words ws acc) = ACCOUNT_HEAD_PADDING @ bytes_of_words ws @ ACCOUNT_TAIL_PADDING"
  using assms by (simp add: store_words_def)

subsection \<open>Open-orders accounts\<close>

lemma length_open_orders_words: "oo_arrays oo \<Longrightarrow> length (open_orders_words oo) = 402"
  using u128_array.array_length [of "oo_orders oo"]
  by (simp add: open_orders_words_def oo_arrays_def layout_defs split: prod.splits)

lemma open_orders_of_words_arrays: "open_orders_of_words ws = Some oo \<Longrightarrow> oo_arrays oo \<and> length ws = 402"
proof -
  have len: "length (chunks 2 d) = length d div 2" for d :: "u64 list"
  proof (induction "2 :: nat" d rule: chunks.induct)
    case (1 d)
    then show ?case
      by (subst chunks.simps) (auto simp: Suc_diff_le div_if not_less)
  qed
  assume "open_orders_of_words ws = Some oo"
  then show ?thesis
    by (auto simp: open_orders_of_words_def oo_arrays_def len split: if_splits)
qed

text \<open>What a load says about the account and the record it gives.\<close>

lemma load_orders_run:
  assumes "load_orders_mut m acc own p rent = Inr oo"
  shows "ai_owner acc = p" "oo_arrays oo" "length (inner_words (ai_data acc)) = 402"
    "oo_check_flags oo = Inr ()" "oo_market oo = ms_own_address m"
    "\<forall>w. own = Some w \<longrightarrow> oo_owner oo = ai_key w"
    "oo_account_flags oo \<noteq> 0"
    "(\<exists>oo0. open_orders_of_words (inner_words (ai_data acc)) = Some oo0 \<and>
       (oo_account_flags oo0 \<noteq> 0 \<and> oo = oo0 \<or>
        oo_account_flags oo0 = 0 \<and> rent \<noteq> None \<and>
          (\<exists>w. own = Some w \<and> oo_init (ms_own_address m) (ai_key w) oo0 = Inr oo)))"
proof -
  obtain d ws oo0 where s: "ai_owner acc = p" "strip_account_padding True (ai_data acc) = Inr (d, ws)"
    "open_orders_of_words ws = Some oo0"
    and c: "oo_check_flags oo = Inr ()" "oo_market oo = ms_own_address m"
      "\<forall>w. own = Some w \<longrightarrow> oo_owner oo = ai_key w"
    and i: "oo_account_flags oo0 \<noteq> 0 \<and> oo = oo0 \<or>
        oo_account_flags oo0 = 0 \<and> rent \<noteq> None \<and>
          (\<exists>w. own = Some w \<and> oo_init (ms_own_address m) (ai_key w) oo0 = Inr oo)"
    using assms
    by (fastforce simp: load_orders_mut_def res_simps check_assert_def check_or_code_def split: if_splits option.splits)
  note w = strip_padding_inner [OF s(2)] and a = open_orders_of_words_arrays [OF s(3)]
  show "ai_owner acc = p" "oo_check_flags oo = Inr ()" "oo_market oo = ms_own_address m"
    "\<forall>w. own = Some w \<longrightarrow> oo_owner oo = ai_key w" "length (inner_words (ai_data acc)) = 402"
    using s c w a by simp_all
  show "oo_arrays oo" using i a by (auto simp: oo_init_def oo_arrays_def res_simps)
  show "oo_account_flags oo \<noteq> 0"
    using i by (auto simp: oo_init_def res_simps account_flag_defs)
  show "\<exists>oo0. open_orders_of_words (inner_words (ai_data acc)) = Some oo0 \<and>
       (oo_account_flags oo0 \<noteq> 0 \<and> oo = oo0 \<or>
        oo_account_flags oo0 = 0 \<and> rent \<noteq> None \<and>
          (\<exists>w. own = Some w \<and> oo_init (ms_own_address m) (ai_key w) oo0 = Inr oo))"
    using s i w by auto
qed

text \<open>The fields a handler never changes decide whether the next load succeeds.\<close>

definition same_account :: "open_orders \<Rightarrow> open_orders \<Rightarrow> bool" where
  "same_account oo oo' \<longleftrightarrow>
     oo_account_flags oo' = oo_account_flags oo \<and> oo_market oo' = oo_market oo \<and> oo_owner oo' = oo_owner oo \<and>
     oo_arrays oo'"

lemma load_orders_padded:
  assumes "ai_data acc = ACCOUNT_HEAD_PADDING @ bytes_of_words (open_orders_words oo) @ ACCOUNT_TAIL_PADDING"
    and "ai_owner acc = p" "oo_arrays oo" "oo_account_flags oo \<noteq> 0" "oo_check_flags oo = Inr ()"
    and "oo_market oo = ms_own_address m" "\<forall>w. own = Some w \<longrightarrow> oo_owner oo = ai_key w"
  shows "load_orders_mut m acc own p rent = Inr oo"
  using assms
  by (simp add: load_orders_mut_def check_assert_def check_or_code_def strip_padding_stored
      open_orders_layout split: option.splits)

lemma load_orders_stored:
  assumes "load_orders_mut m acc own p rent = Inr oo" "same_account oo oo'"
    and "\<forall>w. own' = Some w \<longrightarrow> oo_owner oo = ai_key w"
  shows "load_orders_mut m (store_words (open_orders_words oo') acc) own' p rent' = Inr oo'"
proof (rule load_orders_padded)
  note r = load_orders_run [OF assms(1)]
  show a: "oo_arrays oo'" using assms(2) by (simp add: same_account_def)
  then show "ai_data (store_words (open_orders_words oo') acc)
      = ACCOUNT_HEAD_PADDING @ bytes_of_words (open_orders_words oo') @ ACCOUNT_TAIL_PADDING"
    using store_words_all [OF refl, of "open_orders_words oo'" acc] r(3) by (simp add: length_open_orders_words)
qed (use load_orders_run [OF assms(1)] assms(2,3) in \<open>simp_all add: oo_check_flags_def same_account_def\<close>)

end
