(* ===== verification/Consume.thy ===== *)
theory Consume
  imports Storage
begin

text \<open>
  Consuming events (\<open>dex/src/state.rs\<close>, \<open>process_consume_events\<close>): the binary search for an
  event's owner, what one event does to its owner's account, and the loop on account bytes as
  a run of events on the open-orders records the accounts stand for.
\<close>

subsection \<open>The binary search\<close>

lemma search_base_range: "0 < sz \<Longrightarrow> base \<le> search_base base sz ks k \<and> search_base base sz ks k < base + sz"
proof (induction base sz ks k rule: search_base.induct)
  case (1 base sz ks k)
  show ?case
  proof (cases "sz \<le> 1")
    case True
    then show ?thesis using 1(2) by (subst (1 2) search_base.simps) simp
  next
    case False
    have "search_base base sz ks k =
        search_base (if k < ks ! (base + sz div 2) then base else base + sz div 2) (sz - sz div 2) ks k"
      using False by (subst search_base.simps) (simp add: Let_def)
    moreover have "0 < sz - sz div 2" using False by simp
    ultimately show ?thesis
      using 1(1) [OF False refl refl] by (cases "k < ks ! (base + sz div 2)") (auto intro: less_le_trans)
  qed
qed

lemma search_base_finds:
  "sorted ks \<Longrightarrow> base + sz \<le> length ks \<Longrightarrow> base \<le> i \<Longrightarrow> i < base + sz \<Longrightarrow> ks ! i = k \<Longrightarrow>
   ks ! search_base base sz ks k = k"
proof (induction base sz ks k arbitrary: i rule: search_base.induct)
  case (1 base sz ks k)
  show ?case
  proof (cases "sz \<le> 1")
    case True
    then have "i = base" using 1(4,5) by simp
    then show ?thesis using True 1(6) by (subst search_base.simps) simp
  next
    case False
    let ?mid = "base + sz div 2"
    note IH = 1(1) [OF False refl refl 1(2)]
    have step: "search_base base sz ks k = search_base (if k < ks ! ?mid then base else ?mid) (sz - sz div 2) ks k"
      using False by (subst search_base.simps) (simp add: Let_def)
    have le: "j \<le> m \<Longrightarrow> m < length ks \<Longrightarrow> ks ! j \<le> ks ! m" for j m
      using 1(2) by (simp add: sorted_iff_nth_mono)
    have mid: "?mid < length ks" using 1(3) False by linarith
    show ?thesis
    proof (cases "k < ks ! ?mid")
      case True
      then have "i < ?mid" using le [of ?mid i] 1(3,5,6) by (cases "i < ?mid") auto
      then show ?thesis using IH [of i] True step 1(3,4,6) by simp
    next
      case upper: False
      obtain j where "?mid \<le> j" "j < base + sz" "ks ! j = k"
      proof (cases "?mid \<le> i")
        case True
        then show ?thesis using that 1(5,6) by blast
      next
        case False
        then have "ks ! ?mid = k" using le [of i ?mid] mid 1(6) upper by simp
        then show ?thesis using that [of ?mid] \<open>\<not> sz \<le> 1\<close> by simp
      qed
      then show ?thesis using IH [of j] upper step 1(3) by simp
    qed
  qed
qed

lemma binary_search_Some: "binary_search ks k = Some i \<Longrightarrow> i < length ks \<and> ks ! i = k"
  using search_base_range [of "length ks" 0 ks k]
  by (cases "ks = []") (auto simp: binary_search_def Let_def split: if_splits)

lemma binary_search_None: "sorted ks \<Longrightarrow> binary_search ks k = None \<longleftrightarrow> k \<notin> set ks"
proof
  assume s: "sorted ks" and n: "binary_search ks k = None"
  show "k \<notin> set ks"
  proof
    assume "k \<in> set ks"
    then obtain i where "i < length ks" "ks ! i = k" by (auto simp: in_set_conv_nth)
    then show False using search_base_finds [OF s, of 0 "length ks" i k] n
      by (cases "ks = []") (auto simp: binary_search_def Let_def)
  qed
next
  assume "k \<notin> set ks"
  then show "binary_search ks k = None" using binary_search_Some [of ks k] by (cases "binary_search ks k") auto
qed

text \<open>
  The binary search for an event's owner returns only the index of an element equal to
  the key, and on a sorted list, with duplicates or without, it finds one whenever there is one.
\<close>

theorem binary_search_correct:
  "(binary_search ks k = Some i \<longrightarrow> i < length ks \<and> ks ! i = k) \<and>
   (sorted ks \<longrightarrow> (binary_search ks k = None \<longleftrightarrow> k \<notin> set ks))"
  using binary_search_Some binary_search_None by blast

theorem binary_search_correct_witness:
  "(2 :: nat) < length [1, 3, 5 :: nat] \<and> [1, 3, 5] ! 2 = (5 :: nat) \<and> binary_search [1, 3, 5] (4 :: nat) = None"
proof -
  have "binary_search [1, 3, 5] (5 :: nat) = Some 2"
    by (simp add: binary_search_def search_base.simps)
  then show ?thesis
    using binary_search_correct [of "[1, 3, 5]" "5 :: nat" 2] binary_search_correct [of "[1, 3, 5]" "4 :: nat" 2]
    by simp
qed

subsection \<open>One event\<close>

definition coin_delta :: "event_view \<Rightarrow> u64" where
  "coin_delta v =
     (case v of
        Fill f \<Rightarrow> (case fe_side f of Bid \<Rightarrow> fe_native_qty_received f | Ask \<Rightarrow> - fe_native_qty_paid f)
      | Out _ \<Rightarrow> 0)"

text \<open>What an event makes free: what a fill brought in, a maker's rebate on a bid, and what is unlocked.\<close>

definition pc_free_delta :: "event_view \<Rightarrow> u64" where
  "pc_free_delta v =
     (case v of
        Fill f \<Rightarrow> (case fe_side f of
            Bid \<Rightarrow> if fe_maker f then fe_native_fee_or_rebate f else 0
          | Ask \<Rightarrow> fe_native_qty_received f)
      | Out u \<Rightarrow> (case oe_side u of Bid \<Rightarrow> oe_native_qty_unlocked u | Ask \<Rightarrow> 0))"

definition coin_free_delta :: "event_view \<Rightarrow> u64" where
  "coin_free_delta v =
     (case v of
        Fill f \<Rightarrow> (case fe_side f of Bid \<Rightarrow> fe_native_qty_received f | Ask \<Rightarrow> 0)
      | Out u \<Rightarrow> (case oe_side u of Bid \<Rightarrow> 0 | Ask \<Rightarrow> oe_native_qty_unlocked u))"

lemma remove_order_frame:
  assumes "remove_order slot oo = Inr oo'" "oo_arrays oo"
  shows "same_account oo oo' \<and> oo_slots oo' = (oo_slots oo)(unat slot := None)
    \<and> oo_native_pc_total oo' = oo_native_pc_total oo \<and> oo_native_coin_total oo' = oo_native_coin_total oo
    \<and> oo_native_pc_free oo' = oo_native_pc_free oo \<and> oo_native_coin_free oo' = oo_native_coin_free oo
    \<and> oo_referrer_rebates_accrued oo' = oo_referrer_rebates_accrued oo
    \<and> oo_client_order_ids oo' = (oo_client_order_ids oo)[unat slot := 0]"
proof -
  have s: "slot < 128" "\<not> slot_is_free slot oo"
    and oo': "oo' = oo\<lparr>oo_orders := (oo_orders oo)[unat slot := 0],
                oo_client_order_ids := (oo_client_order_ids oo)[unat slot := 0],
                oo_free_slot_bits := oo_free_slot_bits oo OR slot_mask (unat slot),
                oo_is_bid_bits := oo_is_bid_bits oo AND NOT (slot_mask (unat slot))\<rparr>"
    using assms(1) by (auto simp: remove_order_def check_assert_def Let_def res_simps split: if_splits)
  have "oo_slots oo (unat slot) \<noteq> None"
    using s slot_is_free_bit [OF s(1), of oo] by (simp add: oo_slots_def word_less_nat_alt)
  then obtain oo1 where "remove_order slot oo = Inr oo1" "oo_slots oo1 = (oo_slots oo)(unat slot := None)"
    using remove_order_slots [OF s(1) _ assms(2)] by metis
  then have "oo_slots oo' = (oo_slots oo)(unat slot := None)" using assms(1) by simp
  then show ?thesis using oo' assms(2) by (simp add: same_account_def oo_arrays_def)
qed

lemma oo_slots_update' [simp]:
  "oo_slots (oo\<lparr>oo_referrer_rebates_accrued := x\<rparr>) = oo_slots oo"
  by (simp add: oo_slots_def fun_eq_iff)

lemma consume_fill_frame:
  assumes "oo_arrays oo"
  shows "same_account oo (consume_fill f oo) \<and> oo_slots (consume_fill f oo) = oo_slots oo
    \<and> oo_native_pc_total (consume_fill f oo) = oo_native_pc_total oo + pc_delta (Fill f)
    \<and> oo_native_coin_total (consume_fill f oo) = oo_native_coin_total oo + coin_delta (Fill f)
    \<and> oo_referrer_rebates_accrued (consume_fill f oo) = oo_referrer_rebates_accrued oo + rebate_delta (Fill f)
    \<and> oo_native_pc_free (consume_fill f oo) = oo_native_pc_free oo + pc_free_delta (Fill f)
    \<and> oo_native_coin_free (consume_fill f oo) = oo_native_coin_free oo + coin_free_delta (Fill f)
    \<and> oo_client_order_ids (consume_fill f oo) = oo_client_order_ids oo"
  using assms
  by (cases "fe_side f"; cases "fe_maker f")
    (simp_all add: consume_fill_def same_account_def oo_arrays_def pc_delta_def coin_delta_def rebate_delta_def
      pc_free_delta_def coin_free_delta_def Let_def)

text \<open>The slots that are left: an \<open>Out\<close> event that unlocks everything ends its order.\<close>

definition slots_after :: "event_view \<Rightarrow> (nat \<rightharpoonup> side \<times> u128) \<Rightarrow> (nat \<rightharpoonup> side \<times> u128)" where
  "slots_after v s =
     (case v of
        Fill _ \<Rightarrow> s
      | Out u \<Rightarrow> if oe_native_qty_still_locked u = 0 then s(unat (oe_owner_slot u) := None) else s)"

definition client_ids_after :: "event_view \<Rightarrow> u64 list \<Rightarrow> u64 list" where
  "client_ids_after v c =
     (case v of
        Fill _ \<Rightarrow> c
      | Out u \<Rightarrow> if oe_native_qty_still_locked u = 0 then c[unat (oe_owner_slot u) := 0] else c)"

text \<open>What is unlocked may not exceed what the account owns.\<close>

definition unlock_covered :: "event_view \<Rightarrow> open_orders \<Rightarrow> bool" where
  "unlock_covered v oo =
     (case v of
        Fill _ \<Rightarrow> True
      | Out u \<Rightarrow> (case oe_side u of
            Bid \<Rightarrow> oo_native_pc_free oo \<le> oo_native_pc_total oo
          | Ask \<Rightarrow> oo_native_coin_free oo \<le> oo_native_coin_total oo))"

lemma consume_view_frame:
  assumes "consume_view v oo = Inr oo'" "oo_arrays oo"
  shows "same_account oo oo' \<and> oo_slots oo' = slots_after v (oo_slots oo)
    \<and> oo_native_pc_total oo' = oo_native_pc_total oo + pc_delta v
    \<and> oo_native_coin_total oo' = oo_native_coin_total oo + coin_delta v
    \<and> oo_referrer_rebates_accrued oo' = oo_referrer_rebates_accrued oo + rebate_delta v
    \<and> oo_native_pc_free oo' = oo_native_pc_free oo + pc_free_delta v
    \<and> oo_native_coin_free oo' = oo_native_coin_free oo + coin_free_delta v
    \<and> oo_client_order_ids oo' = client_ids_after v (oo_client_order_ids oo) \<and> unlock_covered v oo'"
proof (cases v)
  case (Fill f)
  then show ?thesis using assms consume_fill_frame [OF assms(2), of f]
    by (auto simp: consume_view_def slots_after_def client_ids_after_def unlock_covered_def)
next
  case (Out u)
  define oo1 where m: "oo1 = (case oe_side u of
       Bid \<Rightarrow> oo\<lparr>oo_native_pc_free := oo_native_pc_free oo + oe_native_qty_unlocked u\<rparr>
     | Ask \<Rightarrow> oo\<lparr>oo_native_coin_free := oo_native_coin_free oo + oe_native_qty_unlocked u\<rparr>)"
  have r: "(if oe_native_qty_still_locked u = 0 then remove_order (oe_owner_slot u) oo1 else Inr oo1) = Inr oo'"
    and u: "unlock_covered v oo1"
    using assms(1) by (cases "oe_side u"; simp add: m Out consume_view_def consume_out_def Let_def res_simps
        unlock_covered_def check_assert_def split: if_splits)+
  have o1: "oo_arrays oo1" "same_account oo oo1" "oo_slots oo1 = oo_slots oo"
    "oo_native_pc_total oo1 = oo_native_pc_total oo" "oo_native_coin_total oo1 = oo_native_coin_total oo"
    "oo_referrer_rebates_accrued oo1 = oo_referrer_rebates_accrued oo"
    "oo_client_order_ids oo1 = oo_client_order_ids oo"
    "oo_native_pc_free oo1 = oo_native_pc_free oo + pc_free_delta v"
    "oo_native_coin_free oo1 = oo_native_coin_free oo + coin_free_delta v"
    using assms(2) Out by (cases "oe_side u"; simp add: m oo_arrays_def same_account_def
        pc_free_delta_def coin_free_delta_def)+
  note d = slots_after_def client_ids_after_def unlock_covered_def pc_delta_def coin_delta_def rebate_delta_def
  show ?thesis
  proof (cases "oe_native_qty_still_locked u = 0")
    case True
    then show ?thesis using remove_order_frame [OF _ o1(1), of "oe_owner_slot u" oo'] r o1 u Out
      by (cases "oe_side u"; simp add: same_account_def d)
  next
    case False
    then show ?thesis using r o1 u Out by (simp add: d)
  qed
qed

lemma consume_event_run:
  assumes "consume_event e v oo = Inr oo'" "oo_arrays oo"
  shows "oo_slots oo (unat (ev_owner_slot e)) = Some (event_view_side v, ev_order_id e)"
    "consume_view v oo = Inr oo'"
proof -
  have c: "ev_owner_slot e < 128" "slot_side (ev_owner_slot e) oo = Some (event_view_side v)"
    "oo_orders oo ! unat (ev_owner_slot e) = ev_order_id e" "consume_view v oo = Inr oo'"
    using assms(1) by (auto simp: consume_event_def res_simps check_assert_def split: if_splits)
  then have "map_option fst (oo_slots oo (unat (ev_owner_slot e))) = Some (event_view_side v)"
    by (simp add: slot_side_slots)
  then show "oo_slots oo (unat (ev_owner_slot e)) = Some (event_view_side v, ev_order_id e)"
    using c(3) by (auto simp: oo_slots_def split: if_splits)
  show "consume_view v oo = Inr oo'" by (rule c(4))
qed

text \<open>
  Claim C36: an event is applied only to an account whose slot of that number holds the event's
  order, on its side and with its id; it changes the account's totals, its free funds and its
  accrued rebates by exactly the event's amounts (a fill's proceeds, a maker's rebate on a bid and
  what an \<open>Out\<close> event unlocks become free, and what was unlocked is covered by the total), leaves
  the account its owner's and its market's, and empties the slot and its client id if it is an
  \<open>Out\<close> event that leaves nothing locked, and no slot otherwise.
\<close>

theorem consume_event_effect:
  assumes "consume_event e v oo = Inr oo'" and "oo_arrays oo"
  shows "oo_slots oo (unat (ev_owner_slot e)) = Some (event_view_side v, ev_order_id e)
    \<and> same_account oo oo' \<and> oo_slots oo' = slots_after v (oo_slots oo)
    \<and> oo_native_pc_total oo' = oo_native_pc_total oo + pc_delta v
    \<and> oo_native_coin_total oo' = oo_native_coin_total oo + coin_delta v
    \<and> oo_native_pc_free oo' = oo_native_pc_free oo + pc_free_delta v
    \<and> oo_native_coin_free oo' = oo_native_coin_free oo + coin_free_delta v
    \<and> oo_referrer_rebates_accrued oo' = oo_referrer_rebates_accrued oo + rebate_delta v
    \<and> oo_client_order_ids oo' = client_ids_after v (oo_client_order_ids oo) \<and> unlock_covered v oo'"
  using consume_event_run [OF assms] consume_view_frame [OF _ assms(2)] by blast

definition sample_fill :: event_view where
  "sample_fill = Fill
     \<lparr>fe_side = Bid, fe_maker = True, fe_native_qty_paid = 100, fe_native_qty_received = 20,
      fe_native_fee_or_rebate = 1, fe_order_id = 18, fe_owner = (20, 0, 0, 0), fe_owner_slot = 1,
      fe_fee_tier = Base, fe_client_order_id = None\<rparr>"

lemma sample_consume_event:
  "\<exists>oo. consume_event (event_new sample_fill) sample_fill sample_open_orders = Inr oo"
  by (simp add: consume_event_def sample_fill_def event_new_def sample_open_orders_def slot_side_def
      slot_mask_def check_assert_def consume_view_def event_view_side_def Let_def)

theorem consume_event_effect_witness:
  "\<exists>oo. consume_event (event_new sample_fill) sample_fill sample_open_orders = Inr oo
     \<and> oo_native_pc_total oo = 800 \<and> oo_native_coin_total oo = 60
     \<and> oo_native_pc_free oo = oo_native_pc_free sample_open_orders + 1
     \<and> oo_native_coin_free oo = oo_native_coin_free sample_open_orders + 20"
proof -
  obtain oo where r: "consume_event (event_new sample_fill) sample_fill sample_open_orders = Inr oo"
    using sample_consume_event by blast
  show ?thesis using consume_event_effect [OF r sample_open_orders_arrays] r
    by (simp add: sample_fill_def sample_open_orders_def pc_delta_def coin_delta_def
        pc_free_delta_def coin_free_delta_def)
qed

subsection \<open>The loop\<close>

text \<open>
  The records behind the accounts, by address, as the loop loads them; and a run of events on
  records.
\<close>

definition loaded :: "market_state \<Rightarrow> aligned \<Rightarrow> account_info list \<Rightarrow> aligned \<rightharpoonup> open_orders" where
  "loaded m program_id accs k =
     (case List.find (\<lambda>a. ai_key a = k) accs of
        None \<Rightarrow> None
      | Some a \<Rightarrow> (case load_orders_mut m a None program_id None of Inl _ \<Rightarrow> None | Inr oo \<Rightarrow> Some oo))"

inductive consumes :: "event list \<Rightarrow> (aligned \<rightharpoonup> open_orders) \<Rightarrow> (aligned \<rightharpoonup> open_orders) \<Rightarrow> bool" where
  nothing: "consumes [] A A"
| event: "event_as_view e = Inr v \<Longrightarrow> A (ev_owner e) = Some oo \<Longrightarrow> consume_event e v oo = Inr oo' \<Longrightarrow>
    consumes es (A(ev_owner e \<mapsto> oo')) B \<Longrightarrow> consumes (e # es) A B"

inductive_cases consumes_ConsE: "consumes (e # es) A B"
inductive_cases consumes_NilE: "consumes [] A B"

text \<open>Two account infos with one address are the same account.\<close>

definition coherent :: "account_info list \<Rightarrow> bool" where
  "coherent accs \<longleftrightarrow> (\<forall>a\<in>set accs. \<forall>b\<in>set accs. ai_key a = ai_key b \<longrightarrow> a = b)"

lemma coherent_find:
  assumes "coherent accs" "a \<in> set accs"
  shows "List.find (\<lambda>b. ai_key b = ai_key a) accs = Some a"
proof -
  obtain b where "List.find (\<lambda>b. ai_key b = ai_key a) accs = Some b"
    using assms(2) by (cases "List.find (\<lambda>b. ai_key b = ai_key a) accs") (auto simp: find_None_iff)
  then show ?thesis using assms by (auto simp: find_Some_iff coherent_def)
qed

lemma update_account_keys: "(\<And>a. ai_key (f a) = ai_key a) \<Longrightarrow> map ai_key (update_account k f accs) = map ai_key accs"
  by (simp add: update_account_def)

lemma update_account_coherent:
  "coherent accs \<Longrightarrow> (\<And>a. ai_key (f a) = ai_key a) \<Longrightarrow> coherent (update_account k f accs)"
  by (auto simp: coherent_def update_account_def)

lemma update_account_find:
  assumes "\<And>a. ai_key (f a) = ai_key a"
  shows "List.find (\<lambda>a. ai_key a = k') (update_account k f accs) =
    map_option (\<lambda>a. if k' = k then f a else a) (List.find (\<lambda>a. ai_key a = k') accs)"
  by (induction accs) (auto simp: update_account_def assms)

lemma loaded_update:
  assumes "coherent accs" "a \<in> set accs" "ai_key a = k" "load_orders_mut m a None p None = Inr oo"
    "same_account oo oo'"
  shows "loaded m p (update_account k (store_words (open_orders_words oo')) accs) = (loaded m p accs)(k \<mapsto> oo')"
proof
  fix k'
  have s: "load_orders_mut m (store_words (open_orders_words oo') a) None p None = Inr oo'"
    by (rule load_orders_stored [OF assms(4,5)]) simp
  show "loaded m p (update_account k (store_words (open_orders_words oo')) accs) k' = ((loaded m p accs)(k \<mapsto> oo')) k'"
    using coherent_find [OF assms(1,2)] s assms(3)
    by (cases "k' = k") (simp_all add: loaded_def update_account_find option.map_ident)
qed

text \<open>Each round of the loop, and how it ends.\<close>

lemma consume_events_loop_run:
  "consume_events_loop n m p accs q = Inr (accs', q') \<Longrightarrow> event_queue_ok q \<Longrightarrow> coherent accs \<Longrightarrow>
   \<exists>es. events q = es @ events q' \<and> length es \<le> n \<and> event_queue_ok q' \<and>
     consumes es (loaded m p accs) (loaded m p accs') \<and> map ai_key accs' = map ai_key accs \<and>
     (length es = n \<or> events q' = [] \<or> binary_search (map ai_key accs) (ev_owner (hd (events q'))) = None)"
proof (induction n arbitrary: accs q)
  case 0
  then show ?case by (auto intro: consumes.nothing)
next
  case (Suc n)
  have inv: "queue_inv event_header_ops q" using Suc.prems(2) by (simp add: event_queue_ok_def)
  note peek = event_q.peek_front_list [OF inv]
  show ?case
  proof (cases "events q")
    case Nil
    then show ?thesis using Suc.prems peek
      by (auto simp: events_def res_simps intro: consumes.nothing)
  next
    case (Cons e rest)
    then have p: "peek_front event_header_ops q = Inr (Some e)" using peek by (simp add: events_def)
    obtain v where v: "event_as_view e = Inr v" using Suc.prems(1) p by (auto simp: res_simps)
    show ?thesis
    proof (cases "binary_search (map ai_key accs) (ev_owner e)")
      case None
      then have "accs' = accs" "q' = q" using Suc.prems(1) p v by simp_all
      then show ?thesis using Cons None Suc.prems(2) by (auto intro: consumes.nothing)
    next
      case (Some i)
      then have i: "i < length accs" "ai_key (accs ! i) = ev_owner e"
        using binary_search_Some [OF Some] by auto
      obtain oo oo' popped q1 where r: "load_orders_mut m (accs ! i) None p None = Inr oo"
        "consume_event e v oo = Inr oo'" "pop_front event_header_ops q = Inr (Some popped, q1)"
        "consume_events_loop n m p (update_account (ev_owner e) (store_words (open_orders_words oo')) accs) q1
           = Inr (accs', q')"
        using Suc.prems(1) p v Some by (auto simp: res_simps Let_def split: option.splits)
      let ?accs = "update_account (ev_owner e) (store_words (open_orders_words oo')) accs"
      have same: "same_account oo oo'"
        using consume_event_run(2) [OF r(2) load_orders_run(2) [OF r(1)]]
          consume_view_frame load_orders_run(2) [OF r(1)] by blast
      have q1: "event_queue_ok q1" "events q1 = rest"
        using event_q.pop_front_list [OF inv] r(3) Cons by (auto simp: events_def event_queue_ok_def)
      have keys: "map ai_key ?accs = map ai_key accs" "coherent ?accs"
        using Suc.prems(3) by (simp_all add: update_account_keys update_account_coherent)
      have mem: "accs ! i \<in> set accs" using i(1) by simp
      have at: "loaded m p accs (ev_owner e) = Some oo"
        using coherent_find [OF Suc.prems(3) mem] i(2) r(1) by (simp add: loaded_def)
      have ld: "loaded m p ?accs = (loaded m p accs)(ev_owner e \<mapsto> oo')"
        by (rule loaded_update [OF Suc.prems(3) mem i(2) r(1) same])
      obtain es where "events q1 = es @ events q'" "length es \<le> n" "event_queue_ok q'"
        "consumes es (loaded m p ?accs) (loaded m p accs')" "map ai_key accs' = map ai_key ?accs"
        "length es = n \<or> events q' = [] \<or> binary_search (map ai_key ?accs) (ev_owner (hd (events q'))) = None"
        using Suc.IH [OF r(4) q1(1) keys(2)] by blast
      then show ?thesis
        using consumes.event [of e v "loaded m p accs", OF v at r(2)] Cons q1(2) keys(1) ld
        by (intro exI [of _ "e # es"]) auto
    qed
  qed
qed

text \<open>
  Claim C10: consuming events takes the oldest events off the queue, in order and at most as many
  as the limit, and changes the open-orders accounts it is given, read as records, exactly as
  that run of events does, one record at a time; it stops before the limit only when the queue
  is empty or, the accounts being sorted by address, the next event's owner is not among them.
\<close>

theorem consume_events_refines:
  assumes "process_consume_events a = Inr (accs', q')" and "event_queue_ok (cea_event_q a)"
    and "coherent (cea_open_orders_accounts a)"
  shows "\<exists>es. events (cea_event_q a) = es @ events q' \<and> length es \<le> unat (cea_limit a) \<and>
    consumes es (loaded (cea_market a) (cea_program_id a) (cea_open_orders_accounts a))
      (loaded (cea_market a) (cea_program_id a) accs') \<and>
    map ai_key accs' = map ai_key (cea_open_orders_accounts a) \<and>
    (sorted (map ai_key (cea_open_orders_accounts a)) \<longrightarrow>
       length es = unat (cea_limit a) \<or> events q' = [] \<or>
       ev_owner (hd (events q')) \<notin> set (map ai_key (cea_open_orders_accounts a)))"
  using consume_events_loop_run [OF assms(1) [unfolded process_consume_events_def] assms(2,3)]
    binary_search_None by blast

definition sample_orders_account :: account_info where
  "sample_orders_account =
     \<lparr>ai_key = (20, 0, 0, 0), ai_owner = (30, 0, 0, 0), ai_is_signer = False, ai_lamports = 100000,
      ai_data = ACCOUNT_HEAD_PADDING @ bytes_of_words (open_orders_words sample_open_orders) @ ACCOUNT_TAIL_PADDING\<rparr>"

definition sample_consume :: consume_events_args where
  "sample_consume =
     \<lparr>cea_limit = 5, cea_program_id = (30, 0, 0, 0), cea_open_orders_accounts = [sample_orders_account],
      cea_market = sample_market,
      cea_event_q = \<lparr>q_header = \<lparr>eqh_account_flags = 17, eqh_head = 0, eqh_count = 1, eqh_seq_num = 1\<rparr>,
                     q_buf = replicate 4 (event_new sample_fill)\<rparr>\<rparr>"

lemma sample_orders_load:
  "load_orders_mut sample_market sample_orders_account None (30, 0, 0, 0) None = Inr sample_open_orders"
  by (rule load_orders_padded) (simp_all add: sample_orders_account_def oo_arrays_def
      oo_check_flags_def sample_open_orders_def sample_market_def account_flags_from_bits_def
      flags_contain_def account_flag_defs)

lemma sample_consume_run: "\<exists>accs q. process_consume_events sample_consume = Inr (accs, q)"
proof -
  let ?q = "cea_event_q sample_consume"
  have inv: "queue_inv event_header_ops ?q" "queue_list event_header_ops ?q = [event_new sample_fill]"
    by (simp_all add: sample_consume_def queue_inv_def queue_list_def event_header_ops_def)
  obtain q1 where p: "peek_front event_header_ops ?q = Inr (Some (event_new sample_fill))"
    "pop_front event_header_ops ?q = Inr (Some (event_new sample_fill), q1)"
    "queue_inv event_header_ops q1" "queue_list event_header_ops q1 = []"
    using event_q.pop_front_list [OF inv(1)] event_q.peek_front_list [OF inv(1)] inv(2) by auto
  have e: "peek_front event_header_ops q1 = Inr None"
    using event_q.peek_front_list [OF p(3)] p(4) by simp
  have v: "event_as_view (event_new sample_fill) = Inr sample_fill"
    by (simp add: event_as_view_new event_view_ok_def sample_fill_def)
  have o: "ev_owner (event_new sample_fill) = (20, 0, 0, 0)" by (simp add: event_new_def sample_fill_def)
  have b: "binary_search (map ai_key [sample_orders_account]) (20, 0, 0, 0) = Some 0"
    by (simp add: binary_search_def search_base.simps sample_orders_account_def)
  have "unat (cea_limit sample_consume) = Suc 4" by (simp add: sample_consume_def)
  then show ?thesis
    using p e v o b sample_orders_load sample_consume_event
    by (auto simp: process_consume_events_def) (auto simp: sample_consume_def numeral_eq_Suc Let_def)
qed

theorem consume_events_refines_witness:
  "\<exists>accs q es. process_consume_events sample_consume = Inr (accs, q) \<and>
     [event_new sample_fill] = es @ events q \<and> map ai_key accs = [(20, 0, 0, 0)]"
proof -
  obtain accs q where r: "process_consume_events sample_consume = Inr (accs, q)"
    using sample_consume_run by blast
  have "event_queue_ok (cea_event_q sample_consume)" "events (cea_event_q sample_consume) = [event_new sample_fill]"
    by (simp_all add: sample_consume_def event_queue_ok_def events_def queue_inv_def queue_list_def event_header_ops_def)
  moreover have "coherent (cea_open_orders_accounts sample_consume)"
    by (simp add: coherent_def sample_consume_def)
  moreover have "map ai_key (cea_open_orders_accounts sample_consume) = [(20, 0, 0, 0)]"
    by (simp add: sample_consume_def sample_orders_account_def)
  ultimately show ?thesis using consume_events_refines [OF r] r by auto
qed

end
