(* ===== verification/CoinConserve.thy ===== *)
theory CoinConserve
  imports Consume
begin

text \<open>
  Matching neither creates nor destroys base currency: on a well-formed book, what the events
  of a run add to traders' base totals is what they take from others'.  A taker's event is
  left out when the quote amount of its fill is zero, so that the products do not wrap around
  has to be known, which the well-formedness of resting orders provides.
\<close>

definition coin_deltas :: "event_view list \<Rightarrow> u64" where
  "coin_deltas vs = sum_list (map coin_delta vs)"

definition coin_moved :: "u64 \<Rightarrow> event_queue \<Rightarrow> event_queue \<Rightarrow> bool" where
  "coin_moved n q q' \<longleftrightarrow>
     event_queue_ok q' \<and> (\<exists>vs. events q' = events q @ map event_new vs \<and> coin_deltas vs = n)"

lemma coin_refl: "event_queue_ok q \<Longrightarrow> coin_moved 0 q q"
  by (auto simp: coin_moved_def coin_deltas_def)

lemma coin_trans:
  assumes "coin_moved m q q1" "coin_moved n q1 q2"
  shows "coin_moved (m + n) q q2"
proof -
  obtain vs ws where "events q1 = events q @ map event_new vs" "coin_deltas vs = m"
    "events q2 = events q1 @ map event_new ws" "coin_deltas ws = n" "event_queue_ok q2"
    using assms by (auto simp: coin_moved_def)
  then show ?thesis unfolding coin_moved_def
    by (intro conjI exI [of _ "vs @ ws"]) (simp_all add: coin_deltas_def)
qed

lemma coin_still: "coin_moved m q q1 \<Longrightarrow> coin_moved 0 q1 q2 \<Longrightarrow> coin_moved m q q2"
  using coin_trans [of m q q1 0 q2] by simp

lemma coin_ok: "coin_moved n q q' \<Longrightarrow> event_queue_ok q'"
  by (simp add: coin_moved_def)

lemma coin_push: "push_event v q = Inr q' \<Longrightarrow> event_queue_ok q \<Longrightarrow> coin_moved (coin_delta v) q q'"
  using push_event_Inr [of v q q'] unfolding coin_moved_def
  by (auto simp: coin_deltas_def intro!: exI [of _ "[v]"])

lemma coin_out:
  "push_event (leaf_out sd l x y) q = Inr q' \<Longrightarrow> event_queue_ok q \<Longrightarrow> coin_moved 0 q q'"
  "push_event (ask_out p x y) q = Inr q' \<Longrightarrow> event_queue_ok q \<Longrightarrow> coin_moved 0 q q'"
  "push_event (bid_out p' x y) q = Inr q' \<Longrightarrow> event_queue_ok q \<Longrightarrow> coin_moved 0 q q'"
  "push_event (bid_take_out p' rem x y) q = Inr q' \<Longrightarrow> event_queue_ok q \<Longrightarrow> coin_moved 0 q q'"
  using coin_push [of _ q q']
  by (fastforce simp: coin_delta_def leaf_out_def ask_out_def bid_out_def bid_take_out_def split: option.splits)+

subsection \<open>Posting and self trades\<close>

lemma post_order_coin:
  assumes "post_order sd rw ul l ob q = Inr (u, ob', q')" "event_queue_ok q"
  shows "coin_moved 0 q q'"
proof -
  obtain r s1 where i: "insert_leaf l (ob_orders sd ob) = Inr (r, s1)"
    using assms(1) by (cases "insert_leaf l (ob_orders sd ob)") (auto simp: post_order_def)
  show ?thesis
  proof (cases r)
    case (Inr x)
    then have "q' = q" using assms(1) i by (auto simp: post_order_def)
    then show ?thesis using coin_refl assms(2) by simp
  next
    case (Inl e)
    then obtain order x where "push_event (leaf_out sd order x 0) q = Inr q'"
      using assms(1) i by (cases e) (auto simp: post_order_def res_simps split: prod.splits)
    then show ?thesis using coin_out(1) assms(2) by blast
  qed
qed

lemma ask_self_trade_coin:
  assumes "ask_self_trade p h l tp tq ob q = Inr (r, ob', q')" "event_queue_ok q"
  shows "coin_moved 0 q q'"
proof -
  obtain q1 x y z w where "push_event (leaf_out Bid l x y) q = Inr q1" "push_event (ask_out p z w) q1 = Inr q'"
    using assms(1) by (auto simp: ask_self_trade_def Let_def res_simps split: prod.splits)
  then show ?thesis using coin_out(1,2) assms(2) coin_still coin_ok by metis
qed

lemma bid_self_trade_coin:
  assumes "bid_self_trade p h l tp tq ob q = Inr (r, ob', q')" "event_queue_ok q"
  shows "coin_moved 0 q q'"
proof -
  obtain q1 x y z w where "push_event (leaf_out Ask l x y) q = Inr q1" "push_event (bid_take_out p r z w) q1 = Inr q'"
    using assms(1) by (auto simp: bid_self_trade_def Let_def res_simps split: prod.splits)
  then show ?thesis using coin_out(1,4) assms(2) coin_still coin_ok by metis
qed

subsection \<open>Fills\<close>

lemma ask_fill_coin:
  assumes "ask_fill p h l tp tq ob q = Inr (cs, ob', q')" "event_queue_ok q"
  shows "coin_moved (tq * ms_coin_lot_size (ob_market ob)) q q' \<and> cs_coin cs = na_max_qty p - tq \<and> cs_pc cs = tq * tp"
proof -
  obtain f q1 where f: "push_event (Fill f) q = Inr q1"
    "coin_delta (Fill f) = tq * ms_coin_lot_size (ob_market ob)" "cs_coin cs = na_max_qty p - tq" "cs_pc cs = tq * tp"
    "q' = q1 \<or> push_event (leaf_out Bid l 0 0) q1 = Inr q'"
    using assms(1) by (auto simp: ask_fill_def Let_def res_simps coin_delta_def split: if_splits)
  then show ?thesis using coin_push [OF f(1) assms(2)] coin_out(1) coin_still coin_ok by metis
qed

lemma bid_fill_coin:
  assumes "bid_fill p m h l tp tq ob q = Inr (cs, ob', q')" "event_queue_ok q"
  shows "coin_moved (- (tq * ms_coin_lot_size (ob_market ob))) q q' \<and> cs_coin cs = nb_max_coin_qty p - tq
    \<and> cs_pc cs = m - tq * tp"
proof -
  obtain f q1 where f: "push_event (Fill f) q = Inr q1"
    "coin_delta (Fill f) = - (tq * ms_coin_lot_size (ob_market ob))" "cs_coin cs = nb_max_coin_qty p - tq"
    "cs_pc cs = m - tq * tp" "q' = q1 \<or> push_event (leaf_out Ask l 0 0) q1 = Inr q'"
    using assms(1) by (auto simp: bid_fill_def Let_def res_simps coin_delta_def split: if_splits)
  then show ?thesis using coin_push [OF f(1) assms(2)] coin_out(1) coin_still coin_ok by metis
qed

text \<open>Products of amounts that fit a word are zero only when a factor is.\<close>

lemma fitting_product_nonzero:
  fixes x y z :: u64
  assumes "x \<noteq> 0" "y \<noteq> 0" "z \<noteq> 0" "unat x * unat y * unat z < 2 ^ 64"
  shows "x * y * z \<noteq> 0"
proof -
  have p: "0 < unat x" "0 < unat y" "0 < unat z" using assms(1-3) by (simp_all add: unat_gt_0)
  have "unat x * unat y * 1 \<le> unat x * unat y * unat z" using p by (intro mult_le_mono) simp_all
  then have "unat x * unat y < 2 ^ 64" using assms(4) by linarith
  then have xy: "unat (x * y) = unat x * unat y" by (simp add: unat_mult_lem [THEN iffD1])
  then have "unat (x * y) * unat z < 2 ^ LENGTH(64)" using assms(4) by simp
  then have "unat (x * y * z) = unat x * unat y * unat z" using xy by (simp add: unat_mult_lem [THEN iffD1])
  then have "0 < unat (x * y * z)" using p by simp
  then show ?thesis by (simp add: unat_gt_0)
qed

lemma ask_cross_coin:
  assumes "ask_cross p ob q = Inr (r, ob', q')" "event_queue_ok q" "book_ok ob"
  shows "case r of Inl _ \<Rightarrow> coin_moved 0 q q'
    | Inr cs \<Rightarrow> coin_moved ((na_max_qty p - cs_coin cs) * ms_coin_lot_size (ob_market ob)) q q'
        \<and> (cs_pc cs * ms_pc_lot_size (ob_market ob) = 0 \<longrightarrow> cs_coin cs = na_max_qty p)"
proof -
  have side: "side_ok (ob_market ob) Bid (ob_bids ob)" "slab_inv (ob_bids ob)"
    using book_ok_sides [OF assms(3), of Bid] by simp_all
  have lot: "ms_pc_lot_size (ob_market ob) \<noteq> 0" using assms(3) by (simp add: book_ok_def)
  obtain best where b: "best_order Bid ob = Inr best"
    "\<forall>h l. best = Some (h, l) \<longrightarrow> slab_orders (ob_bids ob) (lf_key l) = Some l"
    using best_bid_ok [OF side(2)] unfolding outcome_total by fastforce
  show ?thesis
  proof (cases best)
    case None
    then show ?thesis using assms(1,2) b(1) by (auto simp: ask_cross_def coin_refl)
  next
    case (Some hl)
    obtain h l where hl: "hl = (h, l)" by (cases hl)
    have lok: "leaf_ok (ob_market ob) Bid l" by (rule side_ok_leaf [OF side(1)]) (use b(2) Some hl in blast)
    let ?tp = "price_of (lf_key l)" and ?tq = "min (lf_quantity l) (na_max_qty p)"
    consider (rest) crossed where "r = Inr \<lparr>cs_done = True, cs_crossed = crossed, cs_coin = na_max_qty p,
          cs_pc = 0, cs_maker_rebates = 0\<rparr>" "q' = q"
      | (self) r' where "r = Inl r'" "ask_self_trade p h l ?tp ?tq ob q = Inr (r', ob', q')"
      | (fill) cs where "r = Inr cs" "ask_fill p h l ?tp ?tq ob q = Inr (cs, ob', q')" "?tq \<noteq> 0"
      using assms(1) b(1) Some hl leaf_price_ok [OF lok]
      by (auto simp: ask_cross_def Let_def res_simps split: if_splits)
    then show ?thesis
    proof cases
      case rest
      then show ?thesis using coin_refl [OF assms(2)] by simp
    next
      case self
      then show ?thesis using ask_self_trade_coin [OF self(2) assms(2)] by simp
    next
      case fill
      note c = ask_fill_coin [OF fill(2) assms(2)]
      have le: "unat ?tq * unat ?tp * unat (ms_pc_lot_size (ob_market ob))
          \<le> unat (lf_quantity l) * unat ?tp * unat (ms_pc_lot_size (ob_market ob))"
        by (intro mult_right_mono) (simp_all add: word_le_nat_alt [symmetric])
      have "unat (lf_quantity l) * unat ?tp * unat (ms_pc_lot_size (ob_market ob)) < 2 ^ 64"
        using lok by (simp add: leaf_ok_def)
      from le_less_trans [OF le this]
      have "cs_pc cs * ms_pc_lot_size (ob_market ob) \<noteq> 0"
        using fitting_product_nonzero fill(3) lok lot c by (simp add: leaf_ok_def)
      then show ?thesis using c fill(1) by simp
    qed
  qed
qed

lemma bid_cross_coin:
  assumes "bid_cross p m ob q = Inr (r, ob', q')" "event_queue_ok q" "book_ok ob"
    and m: "unat m * unat (ms_pc_lot_size (ob_market ob)) < 2 ^ 64"
  shows "case r of Inl _ \<Rightarrow> coin_moved 0 q q'
    | Inr cs \<Rightarrow> coin_moved (- ((nb_max_coin_qty p - cs_coin cs) * ms_coin_lot_size (ob_market ob))) q q'
        \<and> ((m - cs_pc cs) * ms_pc_lot_size (ob_market ob) = 0 \<longrightarrow> cs_coin cs = nb_max_coin_qty p)"
proof -
  have side: "side_ok (ob_market ob) Ask (ob_asks ob)" "slab_inv (ob_asks ob)"
    using book_ok_sides [OF assms(3), of Ask] by simp_all
  have lot: "ms_pc_lot_size (ob_market ob) \<noteq> 0" using assms(3) by (simp add: book_ok_def)
  obtain best where b: "best_order Ask ob = Inr best"
    "\<forall>h l. best = Some (h, l) \<longrightarrow> slab_orders (ob_asks ob) (lf_key l) = Some l"
    using best_ask_ok [OF side(2)] unfolding outcome_total by fastforce
  show ?thesis
  proof (cases best)
    case None
    then show ?thesis using assms(1,2) b(1) by (auto simp: bid_cross_def coin_refl)
  next
    case (Some hl)
    obtain h l where hl: "hl = (h, l)" by (cases hl)
    have lok: "leaf_ok (ob_market ob) Ask l" by (rule side_ok_leaf [OF side(1)]) (use b(2) Some hl in blast)
    let ?tp = "price_of (lf_key l)"
    let ?tq = "min (min (lf_quantity l) (nb_max_coin_qty p)) (m div ?tp)"
    consider (rest) crossed where "r = Inr \<lparr>cs_done = True, cs_crossed = crossed, cs_coin = nb_max_coin_qty p,
          cs_pc = m, cs_maker_rebates = 0\<rparr>" "q' = q"
      | (self) r' where "r = Inl r'" "bid_self_trade p h l ?tp ?tq ob q = Inr (r', ob', q')"
      | (fill) cs where "r = Inr cs" "bid_fill p m h l ?tp ?tq ob q = Inr (cs, ob', q')" "?tq \<noteq> 0"
      using assms(1) b(1) Some hl leaf_price_ok [OF lok]
      by (auto simp: bid_cross_def Let_def res_simps split: if_splits)
    then show ?thesis
    proof cases
      case rest
      then show ?thesis using coin_refl [OF assms(2)] by simp
    next
      case self
      then show ?thesis using bid_self_trade_coin [OF self(2) assms(2)] by simp
    next
      case fill
      note c = bid_fill_coin [OF fill(2) assms(2)]
      have "unat ?tq \<le> unat (m div ?tp)" by (simp add: word_le_nat_alt [symmetric])
      then have "unat ?tq * unat ?tp \<le> unat m div unat ?tp * unat ?tp"
        by (simp add: unat_div_distrib)
      also have "\<dots> \<le> unat m" by (simp add: div_times_less_eq_dividend)
      finally have le: "unat ?tq * unat ?tp * unat (ms_pc_lot_size (ob_market ob))
          \<le> unat m * unat (ms_pc_lot_size (ob_market ob))" by (rule mult_right_mono) simp
      from le_less_trans [OF le m]
      have "?tq * ?tp * ms_pc_lot_size (ob_market ob) \<noteq> 0"
        using fitting_product_nonzero fill(3) lok lot by (simp add: leaf_ok_def)
      moreover have "m - cs_pc cs = ?tq * ?tp" using c by simp
      ultimately show ?thesis using c fill(1) by simp
    qed
  qed
qed

subsection \<open>Settling and whole orders\<close>

lemma ask_settle_coin:
  assumes "ask_settle p cs ob q1 = Inr (r, ob', q')"
    "coin_moved ((na_max_qty p - cs_coin cs) * ms_coin_lot_size (ob_market ob)) q q1"
    "cs_pc cs * ms_pc_lot_size (ob_market ob) = 0 \<longrightarrow> cs_coin cs = na_max_qty p"
  shows "coin_moved 0 q q'"
proof -
  let ?pc = "cs_pc cs * ms_pc_lot_size (ob_market ob)"
  let ?n = "(na_max_qty p - cs_coin cs) * ms_coin_lot_size (ob_market ob)"
  let ?f = "Fill \<lparr>fe_side = Ask, fe_maker = False, fe_native_qty_paid = ?n,
              fe_native_qty_received = ?pc - taker_fee (na_fee_tier p) ?pc,
              fe_native_fee_or_rebate = taker_fee (na_fee_tier p) ?pc,
              fe_order_id = na_order_id p, fe_owner = na_owner p,
              fe_owner_slot = na_owner_slot p, fe_fee_tier = na_fee_tier p,
              fe_client_order_id = nonzero_new (na_client_order_id p)\<rparr>"
  obtain q2 where q2: "if 0 < ?pc then push_event ?f q1 = Inr q2 else q2 = q1"
    and rest: "q' = q2 \<or> (\<exists>rw ul l ob2 u. post_order Ask rw ul l ob2 q2 = Inr (u, ob', q'))
      \<or> (\<exists>x. push_event (ask_out p x 0) q2 = Inr q')"
    using assms(1) unfolding ask_settle_def Let_def and_then_eq_Inr [of "if _ then _ else _"]
    by (fastforce simp: res_simps split: if_splits)
  note ok = coin_ok [OF assms(2)]
  have "coin_moved 0 q q2"
  proof (cases "?pc = 0")
    case True
    then show ?thesis using q2 assms(2,3) by simp
  next
    case False
    then have "push_event ?f q1 = Inr q2" using q2 by (simp add: word_gt_0)
    from coin_trans [OF assms(2) coin_push [OF this ok]] show ?thesis by (simp add: coin_delta_def)
  qed
  then show ?thesis
    using rest post_order_coin [OF _ coin_ok] coin_out(2) [OF _ coin_ok] coin_still by metis
qed

lemma bid_settle_coin:
  assumes "bid_settle p m cs ob q1 = Inr (r, ob', q')"
    "coin_moved (- ((nb_max_coin_qty p - cs_coin cs) * ms_coin_lot_size (ob_market ob))) q q1"
    "(m - cs_pc cs) * ms_pc_lot_size (ob_market ob) = 0 \<longrightarrow> cs_coin cs = nb_max_coin_qty p"
  shows "coin_moved 0 q q'"
proof -
  let ?pc = "(m - cs_pc cs) * ms_pc_lot_size (ob_market ob)"
  let ?n = "(nb_max_coin_qty p - cs_coin cs) * ms_coin_lot_size (ob_market ob)"
  let ?f = "Fill \<lparr>fe_side = Bid, fe_maker = False,
              fe_native_qty_paid = ?pc + taker_fee (nb_fee_tier p) ?pc,
              fe_native_qty_received = ?n,
              fe_native_fee_or_rebate = taker_fee (nb_fee_tier p) ?pc,
              fe_order_id = nb_order_id p, fe_owner = nb_owner p,
              fe_owner_slot = nb_owner_slot p, fe_fee_tier = nb_fee_tier p,
              fe_client_order_id = nonzero_new (nb_client_order_id p)\<rparr>"
  obtain q2 where q2: "if 0 < ?pc then push_event ?f q1 = Inr q2 else q2 = q1"
    and rest: "q' = q2 \<or> (\<exists>x y q3. push_event (bid_out p x y) q2 = Inr q3 \<and>
        (q' = q3 \<or> (\<exists>rw ul l ob2 u. post_order Bid rw ul l ob2 q3 = Inr (u, ob', q'))))"
    using assms(1) unfolding bid_settle_def Let_def and_then_eq_Inr [of "if _ then _ else _"]
    by (fastforce simp: res_simps split: if_splits)
  note ok = coin_ok [OF assms(2)]
  have q2m: "coin_moved 0 q q2"
  proof (cases "?pc = 0")
    case True
    then show ?thesis using q2 assms(2,3) by simp
  next
    case False
    then have "push_event ?f q1 = Inr q2" using q2 by (simp add: word_gt_0)
    from coin_trans [OF assms(2) coin_push [OF this ok]] show ?thesis by (simp add: coin_delta_def)
  qed
  show ?thesis
  proof (cases "q' = q2")
    case True
    then show ?thesis using q2m by simp
  next
    case False
    then obtain x y q3 where o: "push_event (bid_out p x y) q2 = Inr q3"
      and post: "q' = q3 \<or> (\<exists>rw ul l ob2 u. post_order Bid rw ul l ob2 q3 = Inr (u, ob', q'))"
      using rest by blast
    have "coin_moved 0 q q3" by (rule coin_still [OF q2m coin_out(3) [OF o coin_ok [OF q2m]]])
    then show ?thesis using post post_order_coin [OF _ coin_ok] coin_still by metis
  qed
qed

lemma new_ask_coin:
  assumes "new_ask p ob q = Inr (r, ob', q')" "event_queue_ok q" "book_ok ob"
  shows "coin_moved 0 q q'"
proof -
  obtain x ob1 q1 where c1: "ask_cross p ob q = Inr (x, ob1, q1)"
    using assms(1) by (cases "ask_cross p ob q") (auto simp: new_ask_def)
  have c: "case x of Inl ret \<Rightarrow> (ret, ob1, q1) = (r, ob', q') | Inr cs \<Rightarrow> ask_settle p cs ob1 q1 = Inr (r, ob', q')"
    using assms(1) c1 by (cases x) (simp_all add: new_ask_def)
  show ?thesis
  proof (cases x)
    case (Inl a)
    then show ?thesis using ask_cross_coin [OF c1 assms(2,3)] c by simp
  next
    case (Inr cs)
    then have "ob_market ob1 = ob_market ob"
      using ask_cross_settled [OF c1 assms(2)] half_settled_market by auto
    then show ?thesis
      using ask_settle_coin [of p cs ob1 q1 r ob' q' q] ask_cross_coin [OF c1 assms(2,3)] c Inr by simp
  qed
qed

lemma new_bid_coin:
  assumes "new_bid p ob q = Inr (r, ob', q')" "event_queue_ok q" "book_ok ob"
  shows "coin_moved 0 q q'"
proof -
  obtain net m where m: "u64_div net (ms_pc_lot_size (ob_market ob)) = Inr m"
    "and_then (bid_cross p m ob q) (\<lambda>(r, ob1, q1).
     case r of Inl returned \<Rightarrow> Inr (returned, ob1, q1) | Inr cs \<Rightarrow> bid_settle p m cs ob1 q1) = Inr (r, ob', q')"
    using assms(1) unfolding new_bid_def and_then_eq_Inr [of "check_assert _ _ _"]
      and_then_eq_Inr [of "remove_taker_fee _ _"] and_then_eq_Inr [of "u64_div _ _"] by blast
  then have "m = net div ms_pc_lot_size (ob_market ob)" by (simp add: u64_div_def split: if_splits)
  then have "unat m * unat (ms_pc_lot_size (ob_market ob)) \<le> unat net"
    by (simp add: unat_div_distrib div_times_less_eq_dividend)
  moreover have "unat net < 2 ^ LENGTH(64)" by (rule unsigned_less)
  then have "unat net < 2 ^ 64" by simp
  ultimately have fit: "unat m * unat (ms_pc_lot_size (ob_market ob)) < 2 ^ 64" by (rule le_less_trans)
  obtain x ob1 q1 where c1: "bid_cross p m ob q = Inr (x, ob1, q1)"
    using m(2) by (cases "bid_cross p m ob q") auto
  have c: "case x of Inl ret \<Rightarrow> (ret, ob1, q1) = (r, ob', q') | Inr cs \<Rightarrow> bid_settle p m cs ob1 q1 = Inr (r, ob', q')"
    using m(2) c1 by (cases x) simp_all
  show ?thesis
  proof (cases x)
    case (Inl a)
    then show ?thesis using bid_cross_coin [OF c1 assms(2,3) fit] c by simp
  next
    case (Inr cs)
    then have "ob_market ob1 = ob_market ob"
      using bid_cross_settled [OF c1 assms(2)] half_settled_market by auto
    then show ?thesis
      using bid_settle_coin [of p m cs ob1 q1 r ob' q' q] bid_cross_coin [OF c1 assms(2,3) fit] c Inr by simp
  qed
qed

lemma new_order_step_coin:
  assumes "new_order_step p ob q = Inr (r, ob', q')" "event_queue_ok q" "book_ok ob"
  shows "coin_moved 0 q q'"
  using assms(1) new_bid_coin [OF _ assms(2,3)] new_ask_coin [OF _ assms(2,3)]
  by (cases "no_order_type p"; cases "no_side p") (auto simp: new_order_step_def Let_def res_simps)

lemma new_order_coin:
  "new_order limit p ob q = Inr (r, ob', q') \<Longrightarrow> event_queue_ok q \<Longrightarrow> book_ok ob \<Longrightarrow>
   order_params_ok (ob_market ob) p \<Longrightarrow> coin_moved 0 q q'"
proof (induction limit arbitrary: p ob q)
  case 0
  then show ?case by (simp add: coin_refl)
next
  case (Suc limit)
  obtain rem ob1 q1 where s: "new_order_step p ob q = Inr (rem, ob1, q1)"
    using Suc.prems(1) by (cases "new_order_step p ob q") auto
  have s1: "coin_moved 0 q q1" by (rule new_order_step_coin [OF s Suc.prems(2,3)])
  have k: "kept ob ob1 q1" "remaining_ok (\<lambda>x. order_params_ok (ob_market ob1) (with_remaining p x)) rem"
    using outcome_InrD [OF new_order_step_ok [OF Suc.prems(3,2,4)] s] by simp_all
  show ?case
  proof (cases "limit = 0 \<or> rem = None")
    case True
    then show ?thesis using Suc.prems(1) s s1 by (auto split: if_splits)
  next
    case False
    then obtain y where y: "rem = Some y" "new_order limit (with_remaining p y) ob1 q1 = Inr (r, ob', q')"
      using Suc.prems(1) s by auto
    have "coin_moved 0 q1 q'"
      by (rule Suc.IH [OF y(2)]) (use k y(1) in \<open>simp_all add: kept_def\<close>)
    then show ?thesis by (rule coin_still [OF s1])
  qed
qed

lemma process_orderbook_request_coin:
  assumes "process_orderbook_request r limit ob q = Inr (x, ob', q')" "event_queue_ok q" "book_ok ob"
    "request_fit (ob_market ob) r"
  shows "coin_moved 0 q q'"
proof -
  obtain view where v: "request_as_view r = Inr view"
    using assms(1) by (cases "request_as_view r") (auto simp: process_orderbook_request_def)
  show ?thesis
  proof (cases view)
    case (NewOrderView n)
    then show ?thesis using assms(1,4) v new_order_coin [OF _ assms(2,3)]
      by (auto simp: process_orderbook_request_def request_fit_def res_simps)
  next
    case (CancelOrderView c)
    then have "cancel_order (cr_side c) (cr_order_id c) (cr_expected_owner c)
        (cr_expected_owner_slot c) (cr_client_order_id c) ob q = Inr ((), ob', q')"
      using assms(1) v by (auto simp: process_orderbook_request_def res_simps)
    then have "(\<exists>u. push_event (Out u) q = Inr q') \<or> q' = q"
      by (auto simp: cancel_order_def res_simps split: option.splits if_splits)
    then show ?thesis using coin_push [OF _ assms(2)] coin_refl [OF assms(2)]
      by (auto simp: coin_delta_def) fastforce
  qed
qed

lemma process_requests_loop_coin:
  "process_requests_loop n limit rq ob q = Inr (rq', ob', q') \<Longrightarrow> event_queue_ok q \<Longrightarrow> book_ok ob \<Longrightarrow>
   requests_ok (ob_market ob) rq \<Longrightarrow> coin_moved 0 q q'"
proof (induction n arbitrary: limit rq ob q)
  case (Suc n)
  show ?case
  proof (cases "limit = 0 \<or> requests rq = []")
    case True
    then show ?thesis using Suc.prems request_peek [OF Suc.prems(4)] by (auto simp: coin_refl split: if_splits)
  next
    case False
    then obtain r rs where rs: "requests rq = r # rs" "0 < limit" by (cases "requests rq") auto
    have fit: "request_fit (ob_market ob) r" using Suc.prems(4) rs(1) by (simp add: requests_ok_def)
    have p: "peek_front request_header_ops rq = Inr (Some r)"
      using request_peek [OF Suc.prems(4)] rs(1) by simp
    obtain rem l1 ob1 q1 where s: "process_orderbook_request r limit ob q = Inr ((rem, l1), ob1, q1)"
      using Suc.prems(1) rs(2) p by (cases "process_orderbook_request r limit ob q") auto
    have k: "kept ob ob1 q1" "\<forall>r'. rem = Some r' \<longrightarrow> request_fit (ob_market ob1) r'"
      using outcome_InrD [OF process_orderbook_request_ok [OF Suc.prems(3,2) fit rs(2)] s] by simp_all
    have s1: "coin_moved 0 q q1" by (rule process_orderbook_request_coin [OF s Suc.prems(2,3) fit])
    have m: "requests_ok (ob_market ob1) rq" using Suc.prems(4) k(1) same_lots_request
      by (auto simp: requests_ok_def kept_def)
    obtain rq1 where rest: "process_requests_loop n l1 rq1 ob1 q1 = Inr (rq', ob', q')"
      "requests_ok (ob_market ob1) rq1"
    proof (cases rem)
      case None
      obtain rq1 where "pop_front request_header_ops rq = Inr (Some r, rq1)" "requests_ok (ob_market ob1) rq1"
        by (rule request_pop [OF m rs(1)])
      then show ?thesis using that [of rq1] Suc.prems(1) rs(2) p s None by simp
    next
      case (Some r')
      have "requests_ok (ob_market ob1) (set_front r' rq)"
        using set_front_list [of rq r rs r'] m rs(1) k(2) Some by (auto simp: requests_ok_def requests_def)
      then show ?thesis using that [of "set_front r' rq"] Suc.prems(1) rs(2) p s Some by simp
    qed
    show ?thesis
      by (rule coin_still [OF s1 Suc.IH [OF rest(1) _ _ rest(2)]]) (use k(1) in \<open>simp_all add: kept_def\<close>)
  qed
qed simp

text \<open>
  Claim C9: on a well-formed book with readable requests, the fill events that working off requests
  emits move base currency between traders only: their base amounts, what makers and takers
  receive and what they pay, add up to zero.
\<close>

theorem process_requests_conserves_coin:
  assumes "book_ok ob" and "event_queue_ok q" and "requests_ok (ob_market ob) rq"
    and "process_requests limit rq ob q = Inr (rq', ob', q')"
  shows "\<exists>vs. events q' = events q @ map event_new vs \<and> coin_deltas vs = 0"
  using process_requests_loop_coin [OF assms(4) [unfolded process_requests_def] assms(2,1,3)]
  by (auto simp: coin_moved_def)

theorem process_requests_conserves_coin_witness:
  "\<exists>rq ob q vs. process_requests 5 sample_requests sample_book sample_events = Inr (rq, ob, q)
     \<and> events q = map event_new vs \<and> length vs = 4 \<and> coin_deltas vs = 0"
proof -
  obtain rq ob q where r: "process_requests 5 sample_requests sample_book sample_events = Inr (rq, ob, q)"
    "length (events q) = 4"
    using sample_run by (auto split: sum.splits)
  show ?thesis
    using process_requests_conserves_coin [OF sample_book_ok sample_events_ok(1) sample_requests_ok r(1)]
      r sample_events_ok(2) by auto
qed

end
