(* ===== verification/Settling.thy ===== *)
theory Settling
  imports Funds
begin

text \<open>
  What a handler leaves behind where it records an order, asks for a cancellation or pays out:
  the slots, the request queue, the account's and the market's totals, and the balances of
  the token accounts.
\<close>

subsection \<open>An accepted order is recorded\<close>

definition new_order_record :: "new_order_args \<Rightarrow> u8 \<Rightarrow> u64 option \<Rightarrow> new_order_request" where
  "new_order_record a slot locked =
     (let inst = noa_instruction a in
      \<lparr>nr_side = n2_side inst, nr_order_type = n2_order_type inst, nr_owner_slot = slot,
       nr_fee_tier = noa_fee_tier a,
       nr_order_id = order_key (n2_limit_price inst) (n2_side inst) (rqh_next_seq_num (q_header (noa_req_q a))),
       nr_max_coin_qty = n2_max_qty inst, nr_native_pc_qty_locked = locked,
       nr_owner = noa_open_orders_address a, nr_client_order_id = nonzero_new (n2_client_id inst),
       nr_self_trade_behavior = n2_self_trade_behavior inst\<rparr>)"

text \<open>
  Claim C14: an accepted order takes the lowest free slot of the account, with its side, an id made of its
  price and the queue's next sequence number, and the client's id, and leaves the other slots
  alone; one request is appended to the queue, which is read back as the order with its slot,
  its owner and, for a bid, the funds locked; and the payer has paid exactly what the free
  funds did not cover into the vault of the currency the order locks.
\<close>

theorem new_order_recorded:
  assumes "process_new_order ch tp a l = Inr ((m', oo', q'), l')"
    and "oo_arrays (noa_open_orders a)" and "queue_inv request_header_ops (noa_req_q a)"
    and "n2_max_qty (noa_instruction a) \<noteq> 0" and "honest_tokens tp bal"
  shows "\<exists>slot locked paid.
    slot < 128 \<and> oo_slots (noa_open_orders a) (unat slot) = None \<and>
    (\<forall>j<unat slot. oo_slots (noa_open_orders a) j \<noteq> None) \<and>
    oo_slots oo' = (oo_slots (noa_open_orders a))(unat slot \<mapsto>
      (n2_side (noa_instruction a), nr_order_id (new_order_record a slot locked))) \<and>
    oo_client_order_ids oo' ! unat slot = n2_client_id (noa_instruction a) \<and>
    requests q' = requests (noa_req_q a) @ [request_new (NewOrderView (new_order_record a slot locked))] \<and>
    request_as_view (last (requests q')) = Inr (NewOrderView (new_order_record a slot locked)) \<and>
    rqh_next_seq_num (q_header q') = rqh_next_seq_num (q_header (noa_req_q a)) + 1 \<and>
    (case n2_side (noa_instruction a) of
       Bid \<Rightarrow> map_option unat locked = Some (order_lock (noa_fee_tier a) (noa_market a) (noa_instruction a)) \<and>
         unat paid = order_lock (noa_fee_tier a) (noa_market a) (noa_instruction a)
           - unat (oo_native_pc_free (noa_open_orders a)) \<and>
         bal l' = pay (noa_payer a) (noa_pc_vault a) paid (bal l)
     | Ask \<Rightarrow> locked = None \<and>
         unat paid = order_lock (noa_fee_tier a) (noa_market a) (noa_instruction a)
           - unat (oo_native_coin_free (noa_open_orders a)) \<and>
         bal l' = pay (noa_payer a) (noa_coin_vault a) paid (bal l))"
proof -
  obtain f ix slot where f: "order_funds a = Inr f"
    "tp_transfer tp \<lparr>tr_source = noa_payer a, tr_destination = of_deposit_vault f,
       tr_authority = noa_owner a, tr_amount = of_deposit_amount f\<rparr> = Inr ix"
    "tp_invoke tp ix None l = Inr l'"
    and s: "slot < 128" "oo_slots (of_open_orders f) (unat slot) = None"
    "\<forall>j<unat slot. oo_slots (of_open_orders f) j \<noteq> None"
    "oo_slots oo' = (oo_slots (of_open_orders f))(unat slot \<mapsto>
       (n2_side (noa_instruction a), order_key (n2_limit_price (noa_instruction a))
          (n2_side (noa_instruction a)) (rqh_next_seq_num (q_header (noa_req_q a)))))"
    "oo_client_order_ids oo' ! unat slot = n2_client_id (noa_instruction a)"
    "rqh_next_seq_num (q_header q') = rqh_next_seq_num (q_header (noa_req_q a)) + 1"
    and r: "requests q' = requests (noa_req_q a) @
      [request_new (NewOrderView (new_order_record a slot (of_native_pc_qty_locked f)))]"
    using assms(1,3,2) unfolding new_order_record_def Let_def by (rule process_new_order_run) blast
  have p: "bal l' = pay (noa_payer a) (of_deposit_vault f) (of_deposit_amount f) (bal l)"
    using assms(5) f(2,3) by (fastforce simp: honest_tokens_def)
  have slots: "oo_slots (of_open_orders f) = oo_slots (noa_open_orders a)"
    using order_funds_arrays [OF f(1)] by simp
  have dep: "unat (x - min x y) = unat x - unat y" for x y :: u64
    by (simp add: unat_sub min_def word_le_nat_alt)
  have funds: "of_native_pc_qty_locked f \<noteq> Some 0 \<and>
    (case n2_side (noa_instruction a) of
       Bid \<Rightarrow> map_option unat (of_native_pc_qty_locked f)
           = Some (order_lock (noa_fee_tier a) (noa_market a) (noa_instruction a)) \<and>
         unat (of_deposit_amount f) = order_lock (noa_fee_tier a) (noa_market a) (noa_instruction a)
           - unat (oo_native_pc_free (noa_open_orders a)) \<and> of_deposit_vault f = noa_pc_vault a
     | Ask \<Rightarrow> of_native_pc_qty_locked f = None \<and>
         unat (of_deposit_amount f) = order_lock (noa_fee_tier a) (noa_market a) (noa_instruction a)
           - unat (oo_native_coin_free (noa_open_orders a)) \<and> of_deposit_vault f = noa_coin_vault a)"
  proof (cases "n2_side (noa_instruction a)")
    case Bid
    then have "lock_bid_funds a = Inr f" using f(1) by (simp add: order_funds_def)
    then show ?thesis by (rule lock_bid_funds_run [OF _ Bid]) (simp add: Bid dep)
  next
    case Ask
    then have "lock_ask_funds a = Inr f" using f(1) by (simp add: order_funds_def)
    then show ?thesis by (rule lock_ask_funds_run [OF _ Ask]) (simp add: Ask dep)
  qed
  have "request_view_ok (NewOrderView (new_order_record a slot (of_native_pc_qty_locked f)))"
    using assms(4) funds by (simp add: request_view_ok_def new_order_record_def Let_def)
  then have "request_as_view (last (requests q')) = Inr (NewOrderView (new_order_record a slot (of_native_pc_qty_locked f)))"
    by (simp add: r request_as_view_new)
  then show ?thesis
    using s slots r p funds
    by (intro exI [of _ slot] exI [of _ "of_native_pc_qty_locked f"] exI [of _ "of_deposit_amount f"])
      (simp add: new_order_record_def Let_def split: side.splits)
qed

theorem new_order_recorded_witness:
  "\<exists>m oo q bal. process_new_order sample_chain sample_token_program sample_new_order (\<lambda>_. 5000)
       = Inr ((m, oo, q), bal) \<and> length (requests q) = 3"
proof -
  obtain m oo q bal where r: "process_new_order sample_chain sample_token_program sample_new_order (\<lambda>_. 5000)
       = Inr ((m, oo, q), bal)"
    using sample_new_order_run by (auto split: sum.splits)
  have n: "n2_max_qty (noa_instruction sample_new_order) \<noteq> 0" by (simp add: sample_new_order_def)
  obtain v where "requests q = requests (noa_req_q sample_new_order) @ [v]"
    using new_order_recorded [OF r sample_new_order_ok(2,3) n sample_token_program_honest] by blast
  moreover have "length (requests (noa_req_q sample_new_order)) = 2"
    by (simp add: requests_def queue_list_def sample_new_order_def sample_requests_def request_header_ops_def)
  ultimately show ?thesis using r by simp
qed

subsection \<open>Settling pays out what is free\<close>

lemma send_from_vault_pays:
  assumes "honest_tokens tp bal" "send_from_vault tp n dst vault signer seeds l = Inr l'"
  shows "unat n \<le> bal l vault \<and> bal l' = pay vault dst n (bal l)"
  using assms unfolding honest_tokens_def send_from_vault_def
  by (fastforce simp: and_then_eq_Inr map_err_eq_Inr)

text \<open>What a settlement makes of an account and of the market.\<close>

definition settled_account :: "open_orders \<Rightarrow> open_orders" where
  "settled_account oo =
     oo\<lparr>oo_native_coin_free := 0, oo_native_pc_free := 0,
        oo_native_coin_total := oo_native_coin_total oo - oo_native_coin_free oo,
        oo_native_pc_total := oo_native_pc_total oo - oo_native_pc_free oo,
        oo_referrer_rebates_accrued := 0\<rparr>"

definition settled_market :: "bool \<Rightarrow> open_orders \<Rightarrow> market_state \<Rightarrow> market_state" where
  "settled_market referred oo m =
     m\<lparr>ms_coin_deposits_total := ms_coin_deposits_total m - oo_native_coin_free oo,
       ms_pc_deposits_total := ms_pc_deposits_total m - oo_native_pc_free oo,
       ms_pc_fees_accrued := ms_pc_fees_accrued m + (if referred then 0 else oo_referrer_rebates_accrued oo),
       ms_referrer_rebates_accrued := ms_referrer_rebates_accrued m - oo_referrer_rebates_accrued oo\<rparr>"

text \<open>The parts a settlement that succeeds goes through.\<close>

lemma settle_effect:
  assumes "process_settle_funds tp a l = Inr ((m', oo'), l')"
  obtains l1 l2 seeds where
    "send_from_vault tp (oo_native_coin_free (sfa_open_orders a)) (sfa_coin_wallet a) (sfa_coin_vault a)
        (sfa_vault_signer a) seeds l = Inr l1"
    "send_from_vault tp (oo_native_pc_free (sfa_open_orders a)) (sfa_pc_wallet a) (sfa_pc_vault a)
        (sfa_vault_signer a) seeds l1 = Inr l2"
    "case sfa_referrer a of
       None \<Rightarrow> l' = l2
     | Some r \<Rightarrow> if oo_referrer_rebates_accrued (sfa_open_orders a) = 0 then l' = l2
         else send_from_vault tp (oo_referrer_rebates_accrued (sfa_open_orders a)) r (sfa_pc_vault a)
           (sfa_vault_signer a) seeds l2 = Inr l'"
    "balanced (sfa_open_orders a)" "oo' = settled_account (sfa_open_orders a)"
    "m' = settled_market (sfa_referrer a \<noteq> None) (sfa_open_orders a) (sfa_market a)"
proof -
  let ?oo = "sfa_open_orders a" and ?m = "sfa_market a"
  let ?seeds = "gen_vault_signer_seeds (ms_vault_signer_nonce ?m) (ms_own_address ?m)"
  let ?paid = "?m\<lparr>ms_coin_deposits_total := ms_coin_deposits_total ?m - oo_native_coin_free ?oo,
            ms_pc_deposits_total := ms_pc_deposits_total ?m - oo_native_pc_free ?oo\<rparr>"
  obtain ct pt l1 l2 m2 l3 where r: "checked_sub (oo_native_coin_total ?oo) (oo_native_coin_free ?oo) = Some ct"
    "checked_sub (oo_native_pc_total ?oo) (oo_native_pc_free ?oo) = Some pt"
    and s1: "send_from_vault tp (oo_native_coin_free ?oo) (sfa_coin_wallet a) (sfa_coin_vault a)
        (sfa_vault_signer a) ?seeds l = Inr l1"
    and s2: "send_from_vault tp (oo_native_pc_free ?oo) (sfa_pc_wallet a) (sfa_pc_vault a)
        (sfa_vault_signer a) ?seeds l1 = Inr l2"
    and s3: "settle_referrer tp a (oo_referrer_rebates_accrued ?oo) ?paid l2 = Inr (m2, l')"
    and m': "m' = m2\<lparr>ms_referrer_rebates_accrued := ms_referrer_rebates_accrued m2 - oo_referrer_rebates_accrued ?oo\<rparr>"
    and oo': "oo' = ?oo\<lparr>oo_native_coin_free := 0, oo_native_pc_free := 0, oo_native_coin_total := ct,
        oo_native_pc_total := pt, oo_referrer_rebates_accrued := 0\<rparr>"
    using assms(1) by (auto simp: process_settle_funds_def Let_def res_simps)
  note c = checked_sub_SomeD [OF r(1)] checked_sub_SomeD [OF r(2)]
  have oo: "oo' = settled_account ?oo" "balanced ?oo" using oo' c by (simp_all add: settled_account_def balanced_def)
  have "?paid = ?paid\<lparr>ms_pc_fees_accrued := ms_pc_fees_accrued ?m\<rparr>" by simp
  then have "(case sfa_referrer a of
       None \<Rightarrow> l' = l2
     | Some r \<Rightarrow> if oo_referrer_rebates_accrued ?oo = 0 then l' = l2
         else send_from_vault tp (oo_referrer_rebates_accrued ?oo) r (sfa_pc_vault a) (sfa_vault_signer a) ?seeds l2 = Inr l') \<and>
     m2 = ?paid\<lparr>ms_pc_fees_accrued := ms_pc_fees_accrued ?m +
       (if sfa_referrer a \<noteq> None then 0 else oo_referrer_rebates_accrued ?oo)\<rparr>"
  proof (cases "sfa_referrer a")
    case None
    then show ?thesis using s3 by (auto simp: settle_referrer_def Let_def)
  next
    case (Some r)
    then show ?thesis using s3
      by (cases "oo_referrer_rebates_accrued ?oo = 0") (auto simp: settle_referrer_def Let_def res_simps word_gt_0)
  qed
  then show thesis using m' by (intro that [OF s1 s2 _ oo(2,1)]) (simp_all add: settled_market_def)
qed

lemma settled_account_frame:
  assumes "balanced oo"
  shows "balanced (settled_account oo)" "pc_locked (settled_account oo) = pc_locked oo"
    "coin_locked (settled_account oo) = coin_locked oo" "oo_slots (settled_account oo) = oo_slots oo"
  using assms by (simp_all add: balanced_def pc_locked_def coin_locked_def settled_account_def
      oo_slots_def fun_eq_iff unat_sub)

lemma settle_payments:
  assumes "process_settle_funds tp a l = Inr ((m', oo'), l')" and "honest_tokens tp bal"
  obtains b1 b2 where "unat (oo_native_coin_free (sfa_open_orders a)) \<le> bal l (sfa_coin_vault a)"
    "b1 = pay (sfa_coin_vault a) (sfa_coin_wallet a) (oo_native_coin_free (sfa_open_orders a)) (bal l)"
    "unat (oo_native_pc_free (sfa_open_orders a)) \<le> b1 (sfa_pc_vault a)"
    "b2 = pay (sfa_pc_vault a) (sfa_pc_wallet a) (oo_native_pc_free (sfa_open_orders a)) b1"
    "case sfa_referrer a of
       None \<Rightarrow> bal l' = b2
     | Some r \<Rightarrow> unat (oo_referrer_rebates_accrued (sfa_open_orders a)) \<le> b2 (sfa_pc_vault a) \<and>
         bal l' = pay (sfa_pc_vault a) r (oo_referrer_rebates_accrued (sfa_open_orders a)) b2"
proof (rule settle_effect [OF assms(1)])
  fix l1 l2 seeds
  let ?oo = "sfa_open_orders a"
  assume s1: "send_from_vault tp (oo_native_coin_free ?oo) (sfa_coin_wallet a) (sfa_coin_vault a)
        (sfa_vault_signer a) seeds l = Inr l1"
    and s2: "send_from_vault tp (oo_native_pc_free ?oo) (sfa_pc_wallet a) (sfa_pc_vault a)
        (sfa_vault_signer a) seeds l1 = Inr l2"
    and s3: "case sfa_referrer a of
       None \<Rightarrow> l' = l2
     | Some r \<Rightarrow> if oo_referrer_rebates_accrued ?oo = 0 then l' = l2
         else send_from_vault tp (oo_referrer_rebates_accrued ?oo) r (sfa_pc_vault a)
           (sfa_vault_signer a) seeds l2 = Inr l'"
  note p1 = send_from_vault_pays [OF assms(2) s1] and p2 = send_from_vault_pays [OF assms(2) s2]
  have p3: "case sfa_referrer a of
       None \<Rightarrow> bal l' = bal l2
     | Some r \<Rightarrow> unat (oo_referrer_rebates_accrued ?oo) \<le> bal l2 (sfa_pc_vault a) \<and>
         bal l' = pay (sfa_pc_vault a) r (oo_referrer_rebates_accrued ?oo) (bal l2)"
  proof (cases "sfa_referrer a")
    case (Some r)
    then show ?thesis using s3 send_from_vault_pays [OF assms(2)]
      by (cases "oo_referrer_rebates_accrued ?oo = 0") (auto simp: pay_def)
  qed (use s3 in simp)
  show thesis
    by (rule that [of "bal l1" "bal l2"]) (use p1 p2 p3 in simp_all)
qed

text \<open>
  Claim C12: a settlement that succeeds pays the owner's wallets exactly the free base and quote
  funds and the referrer, where one is given, exactly the accrued rebates, all out of the
  market's vaults, which had them; it empties the free funds and the rebates, leaves what is
  locked in orders and every slot as it was, and takes off the market's totals what was paid,
  unclaimed rebates becoming fees.
\<close>

theorem settle_pays_out:
  assumes "process_settle_funds tp a l = Inr ((m', oo'), l')" and "honest_tokens tp bal"
  shows "balanced (sfa_open_orders a) \<and> oo' = settled_account (sfa_open_orders a) \<and> balanced oo' \<and>
    pc_locked oo' = pc_locked (sfa_open_orders a) \<and> coin_locked oo' = coin_locked (sfa_open_orders a) \<and>
    oo_slots oo' = oo_slots (sfa_open_orders a) \<and>
    m' = settled_market (sfa_referrer a \<noteq> None) (sfa_open_orders a) (sfa_market a) \<and>
    unat (oo_native_coin_free (sfa_open_orders a)) \<le> bal l (sfa_coin_vault a) \<and>
    (let paid = pay (sfa_pc_vault a) (sfa_pc_wallet a) (oo_native_pc_free (sfa_open_orders a))
                  (pay (sfa_coin_vault a) (sfa_coin_wallet a) (oo_native_coin_free (sfa_open_orders a)) (bal l))
     in case sfa_referrer a of
          None \<Rightarrow> bal l' = paid
        | Some r \<Rightarrow> bal l' = pay (sfa_pc_vault a) r (oo_referrer_rebates_accrued (sfa_open_orders a)) paid)"
proof (rule settle_effect [OF assms(1)], rule settle_payments [OF assms])
qed (use settled_account_frame in \<open>auto simp: Let_def split: option.splits\<close>)

definition sample_settle :: settle_funds_args where
  "sample_settle =
     \<lparr>sfa_market = sample_market, sfa_open_orders = sample_open_orders,
      sfa_coin_vault = (13, 0, 0, 0), sfa_pc_vault = (14, 0, 0, 0), sfa_coin_wallet = (22, 0, 0, 0),
      sfa_pc_wallet = (21, 0, 0, 0), sfa_vault_signer = (19, 0, 0, 0),
      sfa_spl_token_program = (6, 0, 0, 0), sfa_referrer = Some (23, 0, 0, 0)\<rparr>"

lemma sample_settle_run:
  "case process_settle_funds sample_token_program sample_settle (\<lambda>_. 5000) of
     Inl _ \<Rightarrow> False | Inr ((m, oo), bal) \<Rightarrow> bal (14, 0, 0, 0) = 4700"
  by code_simp

theorem settle_pays_out_witness:
  "\<exists>m oo bal. process_settle_funds sample_token_program sample_settle (\<lambda>_. 5000) = Inr ((m, oo), bal)
     \<and> oo_native_pc_total oo = 600 \<and> ms_pc_deposits_total m = 99700"
proof -
  obtain m oo bal where r: "process_settle_funds sample_token_program sample_settle (\<lambda>_. 5000) = Inr ((m, oo), bal)"
    using sample_settle_run by (auto split: sum.splits)
  have "oo = settled_account sample_open_orders" "m = settled_market True sample_open_orders sample_market"
    using settle_pays_out [OF r sample_token_program_honest] by (simp_all add: sample_settle_def)
  then show ?thesis
    using r by (simp add: settled_account_def settled_market_def sample_open_orders_def sample_market_def)
qed

subsection \<open>Cancelling by the client's id\<close>

lemma client_slot_Some:
  "client_slot i xs c oo = Some n \<Longrightarrow> i \<le> n \<and> n < i + length xs \<and> xs ! (n - i) = c
    \<and> \<not> slot_is_free (of_nat n) oo"
proof (induction xs arbitrary: i)
  case (Cons x xs)
  show ?case
  proof (cases "x = c \<and> \<not> slot_is_free (of_nat i) oo")
    case False
    then have "client_slot (i + 1) xs c oo = Some n" using Cons.prems by auto
    then show ?thesis using Cons.IH [of "i + 1"] by (auto simp: nth_Cons')
  qed (use Cons.prems in auto)
qed simp

lemma client_slot_least:
  "client_slot i xs c oo = Some n \<Longrightarrow> i \<le> j \<Longrightarrow> j < n \<Longrightarrow> xs ! (j - i) = c \<Longrightarrow> slot_is_free (of_nat j) oo"
proof (induction xs arbitrary: i)
  case (Cons x xs)
  show ?case
  proof (cases "j = i")
    case True
    then show ?thesis using Cons.prems by (auto split: if_splits)
  next
    case False
    then have "client_slot (i + 1) xs c oo = Some n" "xs ! (j - (i + 1)) = c"
      using Cons.prems by (auto simp: nth_Cons' split: if_splits)
    then show ?thesis using Cons.IH [of "i + 1"] Cons.prems(2,3) False by simp
  qed
qed simp

lemma client_slot_None:
  "client_slot i xs c oo = None \<Longrightarrow> j < length xs \<Longrightarrow> xs ! j = c \<Longrightarrow> slot_is_free (of_nat (i + j)) oo"
proof (induction xs arbitrary: i j)
  case (Cons x xs)
  show ?case
  proof (cases j)
    case 0
    then show ?thesis using Cons.prems by (auto split: if_splits)
  next
    case (Suc k)
    then have "slot_is_free (of_nat (i + 1 + k)) oo"
      using Cons.prems by (intro Cons.IH) (auto split: if_splits)
    then show ?thesis using Suc by (simp add: ac_simps)
  qed
qed simp

text \<open>The taken slots an account gives a client's id.\<close>

definition client_slots :: "open_orders \<Rightarrow> u64 \<Rightarrow> nat set" where
  "client_slots oo c = {i. oo_slots oo i \<noteq> None \<and> oo_client_order_ids oo ! i = c}"

lemma client_slot_client_slots:
  assumes "oo_arrays oo"
  shows "client_slot 0 (oo_client_order_ids oo) c oo =
    (if client_slots oo c = {} then None else Some (LEAST i. i \<in> client_slots oo c))"
proof -
  have free: "slot_is_free (of_nat i) oo \<longleftrightarrow> oo_slots oo i = None" if i: "i < 128" for i
  proof -
    have u: "unat (of_nat i :: u8) = i" using i by (simp add: unat_of_nat)
    then have "(of_nat i :: u8) < 128" using i by (simp add: word_less_nat_alt)
    then show ?thesis using slot_is_free_bit [of "of_nat i" oo] i by (simp add: u oo_slots_def)
  qed
  have len: "length (oo_client_order_ids oo) = 128" using assms by (simp add: oo_arrays_def)
  have mem: "i \<in> client_slots oo c \<longleftrightarrow> i < 128 \<and> oo_client_order_ids oo ! i = c \<and> \<not> slot_is_free (of_nat i) oo" for i
  proof (cases "i < 128")
    case True
    then show ?thesis using free [OF True] by (auto simp: client_slots_def)
  qed (simp add: client_slots_def oo_slots_def)
  show ?thesis
  proof (cases "client_slot 0 (oo_client_order_ids oo) c oo")
    case None
    have "i \<notin> client_slots oo c" for i
      using client_slot_None [OF None, of i] len by (auto simp: mem)
    then show ?thesis using None by auto
  next
    case (Some n)
    have n: "n \<in> client_slots oo c" using client_slot_Some [OF Some] len by (simp add: mem)
    moreover have "n \<le> j" if "j \<in> client_slots oo c" for j
      using client_slot_least [OF Some, of j] that by (cases "n \<le> j") (simp_all add: mem)
    ultimately have "(LEAST i. i \<in> client_slots oo c) = n" by (intro Least_equality)
    then show ?thesis using Some n by auto
  qed
qed

lemma push_request_total:
  assumes "queue_inv request_header_ops q"
  shows "push_request v q =
    (if length (requests q) = length (q_buf q) then Inl (err_code RequestQueueFull)
     else push_request v q) \<and>
    (length (requests q) \<noteq> length (q_buf q) \<longrightarrow> (\<exists>q'. push_request v q = Inr q'))"
proof (cases "length (requests q) = length (q_buf q)")
  case True
  then show ?thesis using request_q.push_back_full [OF assms] by (simp add: push_request_def requests_def)
next
  case False
  then have "length (queue_list request_header_ops q) < length (q_buf q)"
    using assms by (simp add: requests_def queue_inv_def length_queue_list le_neq_implies_less)
  from request_q.push_back_room [OF assms this, of "request_new v"] show ?thesis
    using False by (auto simp: push_request_def)
qed

text \<open>
  Cancelling by a client's id finds the least taken slot that carries the id and appends
  one request to cancel the very order in that slot, on its side; it fails exactly when no
  taken slot carries the id, or, there being one, when the request queue is full.
\<close>

theorem cancel_by_client_id_correct:
  assumes "oo_arrays (ca_open_orders a)" and "queue_inv request_header_ops (ca_req_q a)"
  shows "case process_cancel_order_by_client_id a of
      Inl e \<Rightarrow> (if client_slots (ca_open_orders a) (ca_instruction a) = {}
               then e = err_code ClientIdNotFound
               else e = err_code RequestQueueFull
                 \<and> length (requests (ca_req_q a)) = length (q_buf (ca_req_q a)))
    | Inr q' \<Rightarrow> length (requests (ca_req_q a)) < length (q_buf (ca_req_q a)) \<and>
        (\<exists>slot sd oid. client_slots (ca_open_orders a) (ca_instruction a) \<noteq> {} \<and>
          unat slot = (LEAST i. i \<in> client_slots (ca_open_orders a) (ca_instruction a)) \<and>
          oo_slots (ca_open_orders a) (unat slot) = Some (sd, oid) \<and>
          requests q' = requests (ca_req_q a) @ [request_new (CancelOrderView
            \<lparr>cr_side = sd, cr_order_id = oid,
             cr_cancel_id = rqh_next_seq_num (q_header (ca_req_q a)),
             cr_expected_owner_slot = slot, cr_expected_owner = ca_open_orders_address a,
             cr_client_order_id = Some (ca_instruction a)\<rparr>)] \<and>
          rqh_next_seq_num (q_header q') = rqh_next_seq_num (q_header (ca_req_q a)) + 1)"
proof (cases "client_slots (ca_open_orders a) (ca_instruction a) = {}")
  case True
  then show ?thesis
    by (simp add: process_cancel_order_by_client_id_def client_slot_client_slots [OF assms(1)])
next
  case False
  let ?oo = "ca_open_orders a" and ?c = "ca_instruction a" and ?q = "ca_req_q a"
  let ?n = "LEAST i. i \<in> client_slots ?oo ?c"
  have "?n \<in> client_slots ?oo ?c" using False by (auto intro: LeastI)
  then obtain sd oid where so: "oo_slots ?oo ?n = Some (sd, oid)"
    by (auto simp: client_slots_def)
  then have n: "?n < 128" "oid = oo_orders ?oo ! ?n" by (auto simp: oo_slots_def split: if_splits)
  then have u: "unat (of_nat ?n :: u8) = ?n" by (simp add: unat_of_nat)
  then have sl: "(of_nat ?n :: u8) < 128" using n(1) by (simp add: word_less_nat_alt)
  let ?q1 = "?q\<lparr>q_header := (q_header ?q)\<lparr>rqh_next_seq_num := rqh_next_seq_num (q_header ?q) + 1\<rparr>\<rparr>"
  have q1: "queue_inv request_header_ops ?q1" "requests ?q1 = requests ?q"
    using assms(2) by (auto simp: queue_inv_def requests_def queue_list_def request_header_ops_def)
  let ?v = "CancelOrderView \<lparr>cr_side = sd, cr_order_id = oid,
             cr_cancel_id = rqh_next_seq_num (q_header ?q),
             cr_expected_owner_slot = of_nat ?n, cr_expected_owner = ca_open_orders_address a,
             cr_client_order_id = Some ?c\<rparr>"
  have run: "process_cancel_order_by_client_id a = push_request ?v ?q1"
    using False so n u slot_side_slots [OF sl, of ?oo]
    by (simp add: process_cancel_order_by_client_id_def client_slot_client_slots [OF assms(1)]
        gen_seq_num_def Let_def)
  show ?thesis
  proof (cases "length (requests ?q) = length (q_buf ?q)")
    case True
    then show ?thesis using push_request_total [OF q1(1), of ?v] q1(2) False by (simp add: run)
  next
    case room: False
    then obtain q' where q': "push_request ?v ?q1 = Inr q'"
      using push_request_total [OF q1(1), of ?v] q1(2) by auto
    have "length (requests ?q) \<le> length (q_buf ?q)"
      using assms(2) by (simp add: requests_def queue_inv_def length_queue_list)
    then show ?thesis
      using push_request_run [OF q' q1(1)] q1(2) room False so u
      by (simp add: run q') (intro exI [of _ "of_nat ?n"] exI [of _ sd] exI [of _ oid], simp)
  qed
qed

definition sample_cancel :: "u64 cancel_args" where
  "sample_cancel =
     \<lparr>ca_instruction = 9, ca_open_orders = sample_open_orders, ca_open_orders_address = (20, 0, 0, 0),
      ca_req_q = noa_req_q sample_new_order, ca_orders_owner = (5, 6, 7, 8)\<rparr>"

theorem cancel_by_client_id_correct_witness:
  "\<exists>q'. process_cancel_order_by_client_id sample_cancel = Inr q' \<and> length (requests q') = 3"
proof -
  have c: "oo_arrays (ca_open_orders sample_cancel)" "queue_inv request_header_ops (ca_req_q sample_cancel)"
    using sample_open_orders_arrays sample_new_order_ok(3) by (simp_all add: sample_cancel_def)
  have "0 \<in> client_slots sample_open_orders 9"
    by (simp add: client_slots_def sample_open_orders_slots) (simp add: sample_open_orders_def)
  then have n: "client_slots (ca_open_orders sample_cancel) (ca_instruction sample_cancel) \<noteq> {}"
    by (auto simp: sample_cancel_def)
  have l: "length (requests (ca_req_q sample_cancel)) = 2" "length (q_buf (ca_req_q sample_cancel)) = 4"
    by (simp_all add: sample_cancel_def requests_def queue_list_def sample_new_order_def
        sample_requests_def request_header_ops_def)
  show ?thesis
    using cancel_by_client_id_correct [OF c] n l
    by (cases "process_cancel_order_by_client_id sample_cancel") auto
qed

end
