(* ===== verification/Exchange.thy ===== *)
theory Exchange
  imports CoinConserve Settling
begin

text \<open>
  The exchange as a state machine: one market with its book, its queues, the open-orders
  accounts and the token ledger, and a step for every handler, in any order, by anybody.  The
  invariant of the reachable states: the book and the requests are well formed, so matching
  never panics, and the market's totals account for every trader's balance and for what the
  pending events will move.  If the token program moves what it says, the vaults started empty and
  no instruction names a vault as a user's account, the totals also account for what lies in the
  vaults; that condition is a parameter of the steps, the set of the user accounts they name.
\<close>

subsection \<open>Totals over accounts and pending events\<close>

definition sum_of :: "(open_orders \<Rightarrow> u64) \<Rightarrow> (aligned \<rightharpoonup> open_orders) \<Rightarrow> u64" where
  "sum_of f A = (\<Sum>k\<in>dom A. f (the (A k)))"

definition pending :: "(event_view \<Rightarrow> u64) \<Rightarrow> event list \<Rightarrow> u64" where
  "pending f es = (\<Sum>e\<leftarrow>es. case event_as_view e of Inl _ \<Rightarrow> 0 | Inr v \<Rightarrow> f v)"

lemma sum_of_update:
  assumes "finite (dom A)" "A k = Some oo"
  shows "sum_of f (A(k \<mapsto> oo')) = sum_of f A - f oo + f oo'"
proof -
  have k: "k \<in> dom A" using assms(2) by blast
  have "(\<Sum>x\<in>dom A. f (the ((A(k \<mapsto> oo')) x))) = f oo' + (\<Sum>x\<in>dom A - {k}. f (the (A x)))"
    using assms(1) k by (simp add: sum.remove [OF assms(1) k])
  moreover have "sum_of f A = f oo + (\<Sum>x\<in>dom A - {k}. f (the (A x)))"
    using assms k by (simp add: sum_of_def sum.remove [OF assms(1) k])
  moreover have "dom (A(k \<mapsto> oo')) = dom A" using k by auto
  ultimately show ?thesis by (simp add: sum_of_def)
qed

lemma sum_of_new: "finite (dom A) \<Longrightarrow> A k = None \<Longrightarrow> sum_of f (A(k \<mapsto> oo)) = sum_of f A + f oo"
proof -
  assume a: "finite (dom A)" "A k = None"
  then have "k \<notin> dom A" by auto
  then have "(\<Sum>x\<in>dom A. f (the ((A(k \<mapsto> oo)) x))) = (\<Sum>x\<in>dom A. f (the (A x)))"
    by (intro sum.cong) auto
  with a \<open>k \<notin> dom A\<close> show ?thesis by (simp add: sum_of_def)
qed

lemma pending_append [simp]: "pending f (es @ es') = pending f es + pending f es'"
  by (simp add: pending_def)

lemma pending_Nil [simp]: "pending f [] = 0"
  by (simp add: pending_def)

lemma pending_Cons: "event_as_view e = Inr v \<Longrightarrow> pending f (e # es) = f v + pending f es"
  by (simp add: pending_def)

text \<open>An event that was written is read back with the same amounts.\<close>

definition plain_view :: "event_view \<Rightarrow> event_view" where
  "plain_view v =
     (case v of
        Fill f \<Rightarrow> Fill (f\<lparr>fe_client_order_id := nonzero_new (bits_of_option (fe_client_order_id f))\<rparr>)
      | Out u \<Rightarrow> Out (u\<lparr>oe_client_order_id := nonzero_new (bits_of_option (oe_client_order_id u))\<rparr>))"

lemma bits_of_plain: "bits_of_option (nonzero_new (bits_of_option x)) = bits_of_option x"
  by (auto simp: bits_of_option_def nonzero_new_def split: option.splits)

lemma event_new_plain: "event_new (plain_view v) = event_new v"
proof (cases v)
  case (Fill f)
  then show ?thesis by (cases f) (simp add: event_new_def plain_view_def bits_of_plain)
next
  case (Out u)
  then show ?thesis by (cases u) (simp add: event_new_def plain_view_def bits_of_plain)
qed

lemma plain_view_ok: "event_view_ok (plain_view v)"
  by (cases v) (simp_all add: event_view_ok_def plain_view_def)

lemma event_as_view_plain: "event_as_view (event_new v) = Inr (plain_view v)"
  using event_as_view_new [OF plain_view_ok] by (simp only: event_new_plain)

lemma plain_view_pc: "pc_delta (plain_view v) = pc_delta v"
  by (cases v) (simp_all add: plain_view_def pc_delta_def split: side.split)

lemma plain_view_coin: "coin_delta (plain_view v) = coin_delta v"
  by (cases v) (simp_all add: plain_view_def coin_delta_def split: side.split)

lemma plain_view_rebate: "rebate_delta (plain_view v) = rebate_delta v"
  by (cases v) (simp_all add: plain_view_def rebate_delta_def)

lemmas plain_view_deltas [simp] = plain_view_pc plain_view_coin plain_view_rebate

lemma pending_new:
  "pending pc_delta (map event_new vs) = pc_deltas vs"
  "pending coin_delta (map event_new vs) = coin_deltas vs"
  "pending rebate_delta (map event_new vs) = rebate_deltas vs"
  by (simp_all add: pending_def pc_deltas_def coin_deltas_def rebate_deltas_def event_as_view_plain comp_def)

text \<open>A run of events moves their amounts into the accounts.\<close>

definition accounts_ok :: "(aligned \<rightharpoonup> open_orders) \<Rightarrow> bool" where
  "accounts_ok A \<longleftrightarrow> finite (dom A) \<and> (\<forall>k oo. A k = Some oo \<longrightarrow> oo_arrays oo)"

lemma accounts_okD: "accounts_ok A \<Longrightarrow> finite (dom A)" "accounts_ok A \<Longrightarrow> A k = Some oo \<Longrightarrow> oo_arrays oo"
  unfolding accounts_ok_def by blast+

lemma accounts_ok_update: "accounts_ok A \<Longrightarrow> oo_arrays oo \<Longrightarrow> accounts_ok (A(k \<mapsto> oo))"
  by (auto simp: accounts_ok_def)

lemma consumes_totals:
  "consumes es A B \<Longrightarrow> accounts_ok A \<Longrightarrow>
   accounts_ok B \<and> sum_of oo_native_pc_total B = sum_of oo_native_pc_total A + pending pc_delta es
     \<and> sum_of oo_native_coin_total B = sum_of oo_native_coin_total A + pending coin_delta es
     \<and> sum_of oo_referrer_rebates_accrued B = sum_of oo_referrer_rebates_accrued A + pending rebate_delta es"
proof (induction rule: consumes.induct)
  case (event e v A oo oo' es B)
  note a = accounts_okD(2) [OF event.prems event.hyps(2)] accounts_okD(1) [OF event.prems]
  note c = consume_view_frame [OF consume_event_run(2) [OF event.hyps(3) a(1)] a(1)]
  have ok: "accounts_ok (A(ev_owner e \<mapsto> oo'))"
    using accounts_ok_update event.prems c by (simp add: same_account_def)
  show ?case
    using event.IH [OF ok] c sum_of_update [OF a(2) event.hyps(2), of _ oo'] pending_Cons [OF event.hyps(1)]
    by (simp del: fun_upd_apply)
qed simp

subsection \<open>Balances of token accounts\<close>

lemma of_nat_pay:
  assumes "unat n \<le> b src"
  shows "(of_nat (pay src dst n b k) :: u64) =
    of_nat (b k) - (if k = src then n else 0) + (if k = dst then n else 0)"
  using assms by (auto simp: pay_def Let_def of_nat_diff)

subsection \<open>The state machine\<close>

record 'l exchange =
  ex_book :: order_book
  ex_req_q :: request_queue_account
  ex_event_q :: event_queue_account
  ex_accounts :: "aligned \<rightharpoonup> open_orders"
  ex_ledger :: 'l

abbreviation ex_market :: "'l exchange \<Rightarrow> market_state" where
  "ex_market s \<equiv> ob_market (ex_book s)"

abbreviation with_market :: "market_state \<Rightarrow> 'l exchange \<Rightarrow> 'l exchange" where
  "with_market m s \<equiv> s\<lparr>ex_book := (ex_book s)\<lparr>ob_market := m\<rparr>\<rparr>"

abbreviation vaults :: "'l exchange \<Rightarrow> aligned set" where
  "vaults s \<equiv> {ms_coin_vault (ex_market s), ms_pc_vault (ex_market s)}"

text \<open>
  The steps.  The market, the queues and the accounts of a handler's arguments are those of the
  state, as its parser loads them; quantities and prices are not zero, as the instruction's
  types say; an account that is opened was one of zeros.  \<open>users\<close> are the token accounts that the
  instructions may name as a payer, a wallet, a referrer's or a fee receiver's: with \<open>UNIV\<close> these
  are all the instructions the program accepts.
\<close>

inductive exchange_step ::
  "chain \<Rightarrow> ('ix, 'l) token_program \<Rightarrow> aligned set \<Rightarrow> 'l exchange \<Rightarrow> 'l exchange \<Rightarrow> bool"
  for ch :: chain and tp :: "('ix, 'l) token_program" and users :: "aligned set" where
  open_account: "ex_accounts s k = None \<Longrightarrow> oo_arrays oo \<Longrightarrow> oo_referrer_rebates_accrued oo = 0 \<Longrightarrow>
    oo_init (ms_own_address (ex_market s)) owner oo = Inr oo' \<Longrightarrow>
    exchange_step ch tp users s (s\<lparr>ex_accounts := (ex_accounts s)(k \<mapsto> oo')\<rparr>)"
| place: "process_new_order ch tp a (ex_ledger s) = Inr ((m', oo', q'), l') \<Longrightarrow>
    noa_market a = ex_market s \<Longrightarrow> noa_req_q a = ex_req_q s \<Longrightarrow>
    ex_accounts s (noa_open_orders_address a) = Some (noa_open_orders a) \<Longrightarrow>
    noa_coin_vault a = ms_coin_vault (ex_market s) \<Longrightarrow> noa_pc_vault a = ms_pc_vault (ex_market s) \<Longrightarrow>
    noa_payer a \<in> users \<Longrightarrow>
    n2_limit_price (noa_instruction a) \<noteq> 0 \<Longrightarrow> n2_max_qty (noa_instruction a) \<noteq> 0 \<Longrightarrow>
    exchange_step ch tp users s (with_market m' (s\<lparr>ex_req_q := q', ex_ledger := l',
      ex_accounts := (ex_accounts s)(noa_open_orders_address a \<mapsto> oo')\<rparr>))"
| cancel: "process_cancel_order a = Inr q' \<Longrightarrow> ca_req_q a = ex_req_q s \<Longrightarrow>
    exchange_step ch tp users s (s\<lparr>ex_req_q := q'\<rparr>)"
| cancel_by_client_id: "process_cancel_order_by_client_id a' = Inr q' \<Longrightarrow> ca_req_q a' = ex_req_q s \<Longrightarrow>
    ca_instruction a' \<noteq> 0 \<Longrightarrow>
    exchange_step ch tp users s (s\<lparr>ex_req_q := q'\<rparr>)"
| match: "process_requests limit (ex_req_q s) (ex_book s) (ex_event_q s) = Inr (rq, ob, eq) \<Longrightarrow>
    exchange_step ch tp users s (s\<lparr>ex_req_q := rq, ex_book := ob, ex_event_q := eq\<rparr>)"
| consume: "events (ex_event_q s) = es @ events q' \<Longrightarrow> event_queue_ok q' \<Longrightarrow>
    consumes es (ex_accounts s) accounts \<Longrightarrow>
    exchange_step ch tp users s (s\<lparr>ex_event_q := q', ex_accounts := accounts\<rparr>)"
| settle: "process_settle_funds tp b (ex_ledger s) = Inr ((m', oo'), l') \<Longrightarrow>
    sfa_market b = ex_market s \<Longrightarrow> ex_accounts s k = Some (sfa_open_orders b) \<Longrightarrow>
    sfa_coin_vault b = ms_coin_vault (ex_market s) \<Longrightarrow> sfa_pc_vault b = ms_pc_vault (ex_market s) \<Longrightarrow>
    sfa_coin_wallet b \<in> users \<Longrightarrow> sfa_pc_wallet b \<in> users \<Longrightarrow>
    \<forall>r. sfa_referrer b = Some r \<longrightarrow> r \<in> users \<Longrightarrow>
    exchange_step ch tp users s (with_market m' (s\<lparr>ex_ledger := l', ex_accounts := (ex_accounts s)(k \<mapsto> oo')\<rparr>))"
| sweep: "process_sweep_fees tp c (ex_ledger s) = Inr (m', l') \<Longrightarrow> swa_market c = ex_market s \<Longrightarrow>
    swa_pc_vault c = ms_pc_vault (ex_market s) \<Longrightarrow> swa_fee_receiver c \<in> users \<Longrightarrow>
    exchange_step ch tp users s (with_market m' (s\<lparr>ex_ledger := l'\<rparr>))"
| disable: "exchange_step ch tp users s (with_market (process_disable_market (ex_market s)) s)"

subsection \<open>The invariant\<close>

definition sound :: "'l exchange \<Rightarrow> bool" where
  "sound s \<longleftrightarrow> book_ok (ex_book s) \<and> requests_ok (ex_market s) (ex_req_q s) \<and> event_queue_ok (ex_event_q s)
     \<and> accounts_ok (ex_accounts s)"

text \<open>What the market owes traders and itself, that the vaults hold it, and when they do.\<close>

definition accounted :: "'l exchange \<Rightarrow> bool" where
  "accounted s \<longleftrightarrow>
     ms_pc_deposits_total (ex_market s)
       = sum_of oo_native_pc_total (ex_accounts s) + pending pc_delta (events (ex_event_q s)) \<and>
     ms_coin_deposits_total (ex_market s)
       = sum_of oo_native_coin_total (ex_accounts s) + pending coin_delta (events (ex_event_q s)) \<and>
     ms_referrer_rebates_accrued (ex_market s)
       = sum_of oo_referrer_rebates_accrued (ex_accounts s) + pending rebate_delta (events (ex_event_q s))"

definition backed :: "('l \<Rightarrow> aligned \<Rightarrow> nat) \<Rightarrow> 'l exchange \<Rightarrow> bool" where
  "backed bal s \<longleftrightarrow>
     of_nat (bal (ex_ledger s) (ms_pc_vault (ex_market s)))
       = ms_pc_deposits_total (ex_market s) + ms_pc_fees_accrued (ex_market s)
         + ms_referrer_rebates_accrued (ex_market s) \<and>
     of_nat (bal (ex_ledger s) (ms_coin_vault (ex_market s))) = ms_coin_deposits_total (ex_market s)"

definition solid ::
  "('ix, 'l) token_program \<Rightarrow> ('l \<Rightarrow> aligned \<Rightarrow> nat) \<Rightarrow> aligned set \<Rightarrow> 'l exchange \<Rightarrow> bool" where
  "solid tp bal users s \<longleftrightarrow> honest_tokens tp bal \<and> vaults s \<inter> users = {} \<and>
     ms_coin_vault (ex_market s) \<noteq> ms_pc_vault (ex_market s)"

lemma solidD:
  assumes "solid tp bal users s"
  shows "honest_tokens tp bal" "k \<in> users \<Longrightarrow> k \<noteq> ms_coin_vault (ex_market s) \<and> k \<noteq> ms_pc_vault (ex_market s)"
    "ms_coin_vault (ex_market s) \<noteq> ms_pc_vault (ex_market s)"
  using assms by (auto simp: solid_def)

lemma soundD:
  "sound s \<Longrightarrow> book_ok (ex_book s)" "sound s \<Longrightarrow> requests_ok (ex_market s) (ex_req_q s)"
  "sound s \<Longrightarrow> event_queue_ok (ex_event_q s)" "sound s \<Longrightarrow> accounts_ok (ex_accounts s)"
  by (simp_all add: sound_def)

lemma requests_ok_append:
  assumes "requests_ok m q" "requests q' = requests q @ [r]" "queue_inv request_header_ops q'" "request_fit m r"
  shows "requests_ok m q'"
  using assms by (simp add: requests_ok_def)

lemma requests_ok_lots: "same_lots m m' \<Longrightarrow> requests_ok m q \<Longrightarrow> requests_ok m' q"
  by (simp add: requests_ok_def same_lots_request)

lemma book_ok_lots: "same_lots (ob_market ob) m \<Longrightarrow> book_ok ob \<Longrightarrow> book_ok (ob\<lparr>ob_market := m\<rparr>)"
  using book_ok_market by blast

text \<open>A cancellation request is always readable.\<close>

lemma cancel_request_fit: "cr_client_order_id c \<noteq> Some 0 \<Longrightarrow> request_fit m (request_new (CancelOrderView c))"
  by (simp add: request_fit_def request_as_view_new request_view_ok_def)

lemma new_order_request_fit:
  assumes "order_funds a = Inr f" "n2_limit_price (noa_instruction a) \<noteq> 0" "n2_max_qty (noa_instruction a) \<noteq> 0"
  shows "request_fit (noa_market a) (request_new (NewOrderView (new_order_record a slot (of_native_pc_qty_locked f))))"
proof (cases "n2_side (noa_instruction a)")
  case Bid
  have "lock_bid_funds a = Inr f" using assms(1) Bid by (simp add: order_funds_def)
  then obtain lock where "of_native_pc_qty_locked f = Some lock" "lock \<noteq> 0"
    using Bid by (rule lock_bid_funds_run)
  then show ?thesis using assms(2,3) Bid
    by (simp add: request_fit_def request_as_view_new request_view_ok_def new_order_record_def Let_def
        order_params_ok_def extract_price_order_key)
next
  case Ask
  have "lock_ask_funds a = Inr f" using assms(1) Ask by (simp add: order_funds_def)
  then obtain lock :: u64 where l: "of_native_pc_qty_locked f = None"
    "unat lock = order_lock (noa_fee_tier a) (noa_market a) (noa_instruction a)"
    using Ask by (rule lock_ask_funds_run)
  have "unat lock < 2 ^ LENGTH(64)" by (rule unsigned_less)
  then have "unat (n2_max_qty (noa_instruction a)) * unat (ms_coin_lot_size (noa_market a)) < 2 ^ 64"
    using l(2) Ask by (simp add: order_lock_def)
  then show ?thesis using assms(2,3) Ask l(1)
    by (simp add: request_fit_def request_as_view_new request_view_ok_def new_order_record_def Let_def
        order_params_ok_def extract_price_order_key)
qed

subsection \<open>Every step keeps it\<close>

definition good :: "'l exchange \<Rightarrow> bool" where
  "good s \<longleftrightarrow> sound s \<and> accounted s"

text \<open>What a step carries over: the invariant, the vaults, and what is in them if nobody else names them.\<close>

definition carries ::
  "('ix, 'l) token_program \<Rightarrow> ('l \<Rightarrow> aligned \<Rightarrow> nat) \<Rightarrow> aligned set \<Rightarrow> 'l exchange \<Rightarrow> 'l exchange \<Rightarrow> bool" where
  "carries tp bal users s s' \<longleftrightarrow> good s' \<and>
     ms_coin_vault (ex_market s') = ms_coin_vault (ex_market s) \<and> ms_pc_vault (ex_market s') = ms_pc_vault (ex_market s) \<and>
     (solid tp bal users s \<longrightarrow> backed bal s \<longrightarrow> backed bal s')"

definition order_vault :: "new_order_args \<Rightarrow> aligned" where
  "order_vault a = (case n2_side (noa_instruction a) of Bid \<Rightarrow> noa_pc_vault a | Ask \<Rightarrow> noa_coin_vault a)"

lemma new_order_moves:
  assumes "process_new_order ch tp a l = Inr ((m', oo', q'), l')"
    and "oo_arrays (noa_open_orders a)" "requests_ok (noa_market a) (noa_req_q a)"
    and "n2_limit_price (noa_instruction a) \<noteq> 0" "n2_max_qty (noa_instruction a) \<noteq> 0"
  obtains d where "oo_arrays oo'" "requests_ok (noa_market a) q'"
    "oo_referrer_rebates_accrued oo' = oo_referrer_rebates_accrued (noa_open_orders a)"
    "\<forall>bal. honest_tokens tp bal \<longrightarrow> unat d \<le> bal l (noa_payer a) \<and>
       bal l' = pay (noa_payer a) (order_vault a) d (bal l)"
    "case n2_side (noa_instruction a) of
       Bid \<Rightarrow> m' = (noa_market a)\<lparr>ms_pc_deposits_total := ms_pc_deposits_total (noa_market a) + d\<rparr> \<and>
         oo_native_pc_total oo' = oo_native_pc_total (noa_open_orders a) + d \<and>
         oo_native_coin_total oo' = oo_native_coin_total (noa_open_orders a)
     | Ask \<Rightarrow> m' = (noa_market a)\<lparr>ms_coin_deposits_total := ms_coin_deposits_total (noa_market a) + d\<rparr> \<and>
         oo_native_coin_total oo' = oo_native_coin_total (noa_open_orders a) + d \<and>
         oo_native_pc_total oo' = oo_native_pc_total (noa_open_orders a)"
proof -
  have inv: "queue_inv request_header_ops (noa_req_q a)" using assms(3) by (simp add: requests_ok_def)
  obtain f ix slot where f: "order_funds a = Inr f" "m' = of_market f"
    "tp_transfer tp \<lparr>tr_source = noa_payer a, tr_destination = of_deposit_vault f,
       tr_authority = noa_owner a, tr_amount = of_deposit_amount f\<rparr> = Inr ix"
    "tp_invoke tp ix None l = Inr l'"
    and o: "oo_arrays oo'" "oo_native_pc_total oo' = oo_native_pc_total (of_open_orders f)"
    "oo_native_coin_total oo' = oo_native_coin_total (of_open_orders f)"
    "oo_referrer_rebates_accrued oo' = oo_referrer_rebates_accrued (of_open_orders f)"
    and q: "queue_inv request_header_ops q'"
    "requests q' = requests (noa_req_q a) @
      [request_new (NewOrderView (new_order_record a slot (of_native_pc_qty_locked f)))]"
    using assms(1) inv assms(2) unfolding new_order_record_def Let_def by (rule process_new_order_run) blast
  have r: "requests_ok (noa_market a) q'"
    by (rule requests_ok_append [OF assms(3) q(2,1) new_order_request_fit [OF f(1) assms(4,5)]])
  have reb: "oo_referrer_rebates_accrued oo' = oo_referrer_rebates_accrued (noa_open_orders a)"
    using order_funds_arrays [OF f(1)] o(4) by simp
  have moves: "of_deposit_vault f = order_vault a \<and> (case n2_side (noa_instruction a) of
       Bid \<Rightarrow> m' = (noa_market a)\<lparr>ms_pc_deposits_total := ms_pc_deposits_total (noa_market a) + of_deposit_amount f\<rparr> \<and>
         oo_native_pc_total oo' = oo_native_pc_total (noa_open_orders a) + of_deposit_amount f \<and>
         oo_native_coin_total oo' = oo_native_coin_total (noa_open_orders a)
     | Ask \<Rightarrow> m' = (noa_market a)\<lparr>ms_coin_deposits_total := ms_coin_deposits_total (noa_market a) + of_deposit_amount f\<rparr> \<and>
         oo_native_coin_total oo' = oo_native_coin_total (noa_open_orders a) + of_deposit_amount f \<and>
         oo_native_pc_total oo' = oo_native_pc_total (noa_open_orders a))"
  proof (cases "n2_side (noa_instruction a)")
    case Bid
    then have "lock_bid_funds a = Inr f" using f(1) by (simp add: order_funds_def)
    then show ?thesis by (rule lock_bid_funds_run [OF _ Bid]) (simp add: Bid f(2) o(2,3) order_vault_def)
  next
    case Ask
    then have "lock_ask_funds a = Inr f" using f(1) by (simp add: order_funds_def)
    then show ?thesis by (rule lock_ask_funds_run [OF _ Ask]) (simp add: Ask f(2) o(2,3) order_vault_def)
  qed
  show thesis
    by (rule that [OF o(1) r reb _ conjunct2 [OF moves]])
      (use honest_transfer [OF _ f(3,4)] conjunct1 [OF moves] in simp)
qed

lemma place_keeps:
  assumes "process_new_order ch tp a (ex_ledger s) = Inr ((m', oo', q'), l')"
    and "noa_market a = ex_market s" "noa_req_q a = ex_req_q s"
    and "ex_accounts s k = Some (noa_open_orders a)"
    and "noa_coin_vault a = ms_coin_vault (ex_market s)" "noa_pc_vault a = ms_pc_vault (ex_market s)"
    and "noa_payer a \<in> users"
    and "n2_limit_price (noa_instruction a) \<noteq> 0" "n2_max_qty (noa_instruction a) \<noteq> 0" and g: "good s"
  shows "carries tp bal users s
    (with_market m' (s\<lparr>ex_req_q := q', ex_ledger := l', ex_accounts := (ex_accounts s)(k \<mapsto> oo')\<rparr>))"
    (is "carries tp bal users s ?s")
proof -
  have so: "sound s" "accounted s" using g by (simp_all add: good_def)
  note ac = accounts_okD(2) [OF soundD(4) [OF so(1)] assms(4)] accounts_okD(1) [OF soundD(4) [OF so(1)]]
  have req: "requests_ok (noa_market a) (noa_req_q a)" using soundD(2) [OF so(1)] assms(2,3) by simp
  obtain d where d: "oo_arrays oo'" "requests_ok (noa_market a) q'"
    "oo_referrer_rebates_accrued oo' = oo_referrer_rebates_accrued (noa_open_orders a)"
    and all_paid: "\<forall>bal. honest_tokens tp bal \<longrightarrow> unat d \<le> bal (ex_ledger s) (noa_payer a) \<and>
       bal l' = pay (noa_payer a) (order_vault a) d (bal (ex_ledger s))"
    and c: "case n2_side (noa_instruction a) of
       Bid \<Rightarrow> m' = (noa_market a)\<lparr>ms_pc_deposits_total := ms_pc_deposits_total (noa_market a) + d\<rparr> \<and>
         oo_native_pc_total oo' = oo_native_pc_total (noa_open_orders a) + d \<and>
         oo_native_coin_total oo' = oo_native_coin_total (noa_open_orders a)
     | Ask \<Rightarrow> m' = (noa_market a)\<lparr>ms_coin_deposits_total := ms_coin_deposits_total (noa_market a) + d\<rparr> \<and>
         oo_native_coin_total oo' = oo_native_coin_total (noa_open_orders a) + d \<and>
         oo_native_pc_total oo' = oo_native_pc_total (noa_open_orders a)"
    by (rule new_order_moves [OF assms(1) ac(1) req assms(8,9)])
  note paid = all_paid [rule_format]
  have lots: "same_lots (ex_market s) m'" and v: "ms_coin_vault m' = ms_coin_vault (ex_market s)"
    "ms_pc_vault m' = ms_pc_vault (ex_market s)"
    using c assms(2) by (auto simp: same_lots_def split: side.splits)
  have ok: "accounts_ok ((ex_accounts s)(k \<mapsto> oo'))" by (rule accounts_ok_update [OF soundD(4) [OF so(1)] d(1)])
  have "sound ?s"
    using book_ok_lots [OF lots soundD(1) [OF so(1)]] requests_ok_lots [OF lots] d(2) assms(2) ok
      soundD(3) [OF so(1)] by (simp add: sound_def del: fun_upd_apply)
  moreover have "accounted ?s"
    using so(2) c d(3) assms(2) sum_of_update [OF ac(2) assms(4), of _ oo']
    by (cases "n2_side (noa_instruction a)") (simp_all add: accounted_def del: fun_upd_apply)
  moreover have "backed bal ?s" if so3: "solid tp bal users s" "backed bal s"
    using so3(2) c assms(2,5,6) of_nat_pay [of d "bal (ex_ledger s)" "noa_payer a", OF conjunct1 [OF paid [OF solidD(1) [OF so3(1)]]]]
      paid [OF solidD(1) [OF so3(1)]] solidD(2) [OF so3(1) assms(7)] solidD(3) [OF so3(1)]
    by (cases "n2_side (noa_instruction a)") (auto simp: backed_def order_vault_def)
  ultimately show ?thesis using v by (simp add: good_def carries_def)
qed

text \<open>The vaults after the payments of a settlement, as words.\<close>

lemma settle_vaults:
  assumes "process_settle_funds tp b (ex_ledger s) = Inr ((m', oo'), l')" "solid tp bal users s"
    and "sfa_coin_vault b = ms_coin_vault (ex_market s)" "sfa_pc_vault b = ms_pc_vault (ex_market s)"
    and "sfa_coin_wallet b \<in> users" "sfa_pc_wallet b \<in> users" "\<forall>r. sfa_referrer b = Some r \<longrightarrow> r \<in> users"
  shows "(of_nat (bal l' (ms_coin_vault (ex_market s))) :: u64)
      = of_nat (bal (ex_ledger s) (ms_coin_vault (ex_market s))) - oo_native_coin_free (sfa_open_orders b)"
    "(of_nat (bal l' (ms_pc_vault (ex_market s))) :: u64)
      = of_nat (bal (ex_ledger s) (ms_pc_vault (ex_market s))) - oo_native_pc_free (sfa_open_orders b)
        - (if sfa_referrer b = None then 0 else oo_referrer_rebates_accrued (sfa_open_orders b))"
proof -
  let ?oo = "sfa_open_orders b" and ?b = "bal (ex_ledger s)"
  let ?cv = "ms_coin_vault (ex_market s)" and ?pv = "ms_pc_vault (ex_market s)"
  note ne = solidD(3) [OF assms(2)] and w = solidD(2) [OF assms(2)]
  obtain b1 b2 where p: "unat (oo_native_coin_free ?oo) \<le> ?b ?cv"
    "b1 = pay ?cv (sfa_coin_wallet b) (oo_native_coin_free ?oo) ?b"
    "unat (oo_native_pc_free ?oo) \<le> b1 ?pv"
    "b2 = pay ?pv (sfa_pc_wallet b) (oo_native_pc_free ?oo) b1"
    "case sfa_referrer b of
          None \<Rightarrow> bal l' = b2
        | Some r \<Rightarrow> unat (oo_referrer_rebates_accrued ?oo) \<le> b2 ?pv \<and>
            bal l' = pay ?pv r (oo_referrer_rebates_accrued ?oo) b2"
    using settle_payments [OF assms(1) solidD(1) [OF assms(2)], unfolded assms(3,4)] by blast
  have w1: "(of_nat (b1 ?cv) :: u64) = of_nat (?b ?cv) - oo_native_coin_free ?oo" "(of_nat (b1 ?pv) :: u64) = of_nat (?b ?pv)"
    using of_nat_pay [of "oo_native_coin_free ?oo" ?b ?cv "sfa_coin_wallet b", OF p(1)] p(2) w [OF assms(5)] ne by auto
  have w2: "(of_nat (b2 ?cv) :: u64) = of_nat (b1 ?cv)" "(of_nat (b2 ?pv) :: u64) = of_nat (b1 ?pv) - oo_native_pc_free ?oo"
    using of_nat_pay [of "oo_native_pc_free ?oo" b1 ?pv "sfa_pc_wallet b", OF p(3)] p(4) w [OF assms(6)] ne by auto
  have w3: "(of_nat (bal l' ?cv) :: u64) = of_nat (b2 ?cv)"
    "(of_nat (bal l' ?pv) :: u64) = of_nat (b2 ?pv) - (if sfa_referrer b = None then 0 else oo_referrer_rebates_accrued ?oo)"
    using of_nat_pay [of "oo_referrer_rebates_accrued ?oo" b2 ?pv] p(5) w assms(7) ne
    by (cases "sfa_referrer b"; auto)+
  show "(of_nat (bal l' ?cv) :: u64) = of_nat (?b ?cv) - oo_native_coin_free ?oo"
    "(of_nat (bal l' ?pv) :: u64) = of_nat (?b ?pv) - oo_native_pc_free ?oo
        - (if sfa_referrer b = None then 0 else oo_referrer_rebates_accrued ?oo)"
    by (simp_all only: w1 w2 w3)
qed

lemma settle_keeps:
  assumes "process_settle_funds tp b (ex_ledger s) = Inr ((m', oo'), l')"
    and "sfa_market b = ex_market s" "ex_accounts s k = Some (sfa_open_orders b)"
    and v: "sfa_coin_vault b = ms_coin_vault (ex_market s)" "sfa_pc_vault b = ms_pc_vault (ex_market s)"
    and u: "sfa_coin_wallet b \<in> users" "sfa_pc_wallet b \<in> users" "\<forall>r. sfa_referrer b = Some r \<longrightarrow> r \<in> users"
    and g: "good s"
  shows "carries tp bal users s (with_market m' (s\<lparr>ex_ledger := l', ex_accounts := (ex_accounts s)(k \<mapsto> oo')\<rparr>))"
    (is "carries tp bal users s ?s")
proof -
  have so: "sound s" "accounted s" using g by (simp_all add: good_def)
  note ac = accounts_okD(2) [OF soundD(4) [OF so(1)] assms(3)] accounts_okD(1) [OF soundD(4) [OF so(1)]]
  let ?oo = "sfa_open_orders b"
  have m': "m' = settled_market (sfa_referrer b \<noteq> None) ?oo (ex_market s)" and oo': "oo' = settled_account ?oo"
    by (rule settle_effect [OF assms(1)], simp add: assms(2))+
  have lots: "same_lots (ex_market s) m'" and same: "ms_coin_vault m' = ms_coin_vault (ex_market s)"
    "ms_pc_vault m' = ms_pc_vault (ex_market s)"
    by (simp_all add: m' same_lots_def settled_market_def)
  have ok: "accounts_ok ((ex_accounts s)(k \<mapsto> oo'))"
    by (rule accounts_ok_update [OF soundD(4) [OF so(1)]]) (use ac(1) oo' in \<open>simp add: settled_account_def oo_arrays_def\<close>)
  have "sound ?s"
    using book_ok_lots [OF lots soundD(1) [OF so(1)]] requests_ok_lots [OF lots soundD(2) [OF so(1)]] ok
      soundD(3) [OF so(1)] by (simp add: sound_def del: fun_upd_apply)
  moreover have "accounted ?s"
    using so(2) sum_of_update [OF ac(2) assms(3), of _ oo']
    by (simp add: accounted_def m' settled_market_def oo' settled_account_def del: fun_upd_apply)
  moreover have "backed bal ?s" if "solid tp bal users s" "backed bal s"
    using that(2) settle_vaults [OF assms(1) that(1) v u] by (simp add: backed_def same) (simp add: m' settled_market_def)
  ultimately show ?thesis using same by (simp add: good_def carries_def)
qed

lemma sweep_keeps:
  assumes "process_sweep_fees tp c (ex_ledger s) = Inr (m', l')"
    and "swa_market c = ex_market s" "swa_pc_vault c = ms_pc_vault (ex_market s)"
    and "swa_fee_receiver c \<in> users" and g: "good s"
  shows "carries tp bal users s (with_market m' (s\<lparr>ex_ledger := l'\<rparr>))" (is "carries tp bal users s ?s")
proof -
  have so: "sound s" "accounted s" using g by (simp_all add: good_def)
  let ?m = "ex_market s" and ?b = "bal (ex_ledger s)"
  have m': "m' = ?m\<lparr>ms_pc_fees_accrued := 0\<rparr>"
    and s: "send_from_vault tp (ms_pc_fees_accrued ?m) (swa_fee_receiver c) (ms_pc_vault ?m) (swa_vault_signer c)
      (gen_vault_signer_seeds (ms_vault_signer_nonce ?m) (ms_own_address ?m)) (ex_ledger s) = Inr l'"
    using assms(1-3) by (auto simp: process_sweep_fees_def Let_def res_simps)
  have lots: "same_lots ?m m'" by (simp add: m' same_lots_def)
  have "sound ?s"
    using book_ok_lots [OF lots soundD(1) [OF so(1)]] requests_ok_lots [OF lots soundD(2) [OF so(1)]]
      soundD(3,4) [OF so(1)] by (simp add: sound_def)
  moreover have "accounted ?s" using so(2) by (simp add: accounted_def m')
  moreover have "backed bal ?s" if "solid tp bal users s" "backed bal s"
  proof -
    note p = send_from_vault_pays [OF solidD(1) [OF that(1)] s]
    have "(of_nat (bal l' (ms_pc_vault ?m)) :: u64) = of_nat (?b (ms_pc_vault ?m)) - ms_pc_fees_accrued ?m"
      "(of_nat (bal l' (ms_coin_vault ?m)) :: u64) = of_nat (?b (ms_coin_vault ?m))"
      using of_nat_pay [of "ms_pc_fees_accrued ?m" ?b "ms_pc_vault ?m" "swa_fee_receiver c", OF conjunct1 [OF p]]
        p solidD(2) [OF that(1) assms(4)] solidD(3) [OF that(1)] by auto
    then show ?thesis using that(2) by (simp add: backed_def m')
  qed
  ultimately show ?thesis by (simp add: good_def carries_def m')
qed

lemma same_frameD:
  assumes "same_frame m m'"
  shows "ms_coin_deposits_total m' = ms_coin_deposits_total m" "ms_coin_vault m' = ms_coin_vault m"
    "ms_pc_vault m' = ms_pc_vault m"
  using assms by (cases m; cases m'; simp add: same_frame_def)+

lemma match_keeps:
  assumes "process_requests limit (ex_req_q s) (ex_book s) (ex_event_q s) = Inr (rq, ob, eq)" "good s"
  shows "carries tp bal users s (s\<lparr>ex_req_q := rq, ex_book := ob, ex_event_q := eq\<rparr>)"
proof -
  have so: "sound s" "accounted s" using assms(2) by (simp_all add: good_def)
  note run = assms(1) [unfolded process_requests_def]
  have k: "kept (ex_book s) ob eq" "requests_ok (ob_market ob) rq"
    using outcome_InrD [OF process_requests_loop_ok [OF soundD(1,3,2) [OF so(1)]] run] by auto
  have st: "settled (ex_book s) (ex_event_q s) ob eq"
    by (rule process_requests_loop_settled [OF run soundD(3) [OF so(1)]])
  have cm: "coin_moved 0 (ex_event_q s) eq"
    by (rule process_requests_loop_coin [OF run soundD(3,1,2) [OF so(1)]])
  obtain vs where vs: "events eq = events (ex_event_q s) @ map event_new vs"
    "ms_pc_deposits_total (ob_market ob) = ms_pc_deposits_total (ex_market s) + pc_deltas vs"
    "ms_referrer_rebates_accrued (ob_market ob) = ms_referrer_rebates_accrued (ex_market s) + rebate_deltas vs"
    using st by (auto simp: settled_def)
  obtain ws where ws: "events eq = events (ex_event_q s) @ map event_new ws" "coin_deltas ws = 0"
    using cm by (auto simp: coin_moved_def)
  have pend: "pending coin_delta (events eq) = pending coin_delta (events (ex_event_q s))"
    unfolding ws(1) pending_append pending_new ws(2) by simp
  have frame: "ms_coin_deposits_total (ob_market ob) = ms_coin_deposits_total (ex_market s)"
    "ms_coin_vault (ob_market ob) = ms_coin_vault (ex_market s)" "ms_pc_vault (ob_market ob) = ms_pc_vault (ex_market s)"
    using same_frameD [of "ex_market s" "ob_market ob"] st by (simp_all add: settled_def)
  have "sound (s\<lparr>ex_req_q := rq, ex_book := ob, ex_event_q := eq\<rparr>)"
    using k soundD(4) [OF so(1)] by (simp add: sound_def kept_def)
  moreover have "accounted (s\<lparr>ex_req_q := rq, ex_book := ob, ex_event_q := eq\<rparr>)"
    using so(2) vs pend frame by (simp add: accounted_def pending_new)
  moreover have "backed bal (s\<lparr>ex_req_q := rq, ex_book := ob, ex_event_q := eq\<rparr>)" if "backed bal s"
    using that st frame by (simp add: backed_def settled_def)
  ultimately show ?thesis using frame by (simp add: good_def carries_def)
qed

lemma consume_keeps:
  assumes "events (ex_event_q s) = es @ events q'" "event_queue_ok q'" "consumes es (ex_accounts s) A" "good s"
  shows "carries tp bal users s (s\<lparr>ex_event_q := q', ex_accounts := A\<rparr>)"
proof -
  have so: "sound s" "accounted s" using assms(4) by (simp_all add: good_def)
  note c = consumes_totals [OF assms(3) soundD(4) [OF so(1)]]
  show ?thesis
    using so c assms(1,2) by (simp add: good_def carries_def sound_def accounted_def backed_def)
qed

lemma cancel_keeps:
  assumes "requests q' = requests (ex_req_q s) @ [request_new (CancelOrderView c)]"
    "queue_inv request_header_ops q'" "cr_client_order_id c \<noteq> Some 0" "good s"
  shows "carries tp bal users s (s\<lparr>ex_req_q := q'\<rparr>)"
proof -
  have so: "sound s" "accounted s" using assms(4) by (simp_all add: good_def)
  have "requests_ok (ex_market s) q'"
    by (rule requests_ok_append [OF soundD(2) [OF so(1)] assms(1,2) cancel_request_fit [OF assms(3)]])
  then show ?thesis using so by (simp add: good_def carries_def sound_def accounted_def backed_def)
qed

lemma open_keeps:
  assumes "ex_accounts s k = None" "oo_arrays oo" "oo_referrer_rebates_accrued oo = 0"
    "oo_init m ow oo = Inr oo'" "good s"
  shows "carries tp bal users s (s\<lparr>ex_accounts := (ex_accounts s)(k \<mapsto> oo')\<rparr>)"
proof -
  have so: "sound s" "accounted s" using assms(5) by (simp_all add: good_def)
  have oo': "oo_arrays oo'" "oo_native_pc_total oo' = 0" "oo_native_coin_total oo' = 0"
    "oo_referrer_rebates_accrued oo' = 0"
    using assms(2-4) by (auto simp: oo_init_def oo_arrays_def res_simps)
  show ?thesis
    using so accounts_ok_update [OF soundD(4) [OF so(1)] oo'(1), of k]
      sum_of_new [OF accounts_okD(1) [OF soundD(4) [OF so(1)]] assms(1), of _ oo'] oo'(2-4)
    by (simp add: good_def carries_def sound_def accounted_def backed_def del: fun_upd_apply)
qed

lemma disable_keeps: "good s \<Longrightarrow> carries tp bal users s (with_market (process_disable_market (ex_market s)) s)"
proof -
  assume g: "good s"
  then have so: "sound s" by (simp add: good_def)
  have lots: "same_lots (ex_market s) (process_disable_market (ex_market s))"
    by (simp add: same_lots_def process_disable_market_def)
  have "sound (with_market (process_disable_market (ex_market s)) s)"
    using book_ok_lots [OF lots soundD(1) [OF so]] requests_ok_lots [OF lots soundD(2) [OF so]]
      soundD(3,4) [OF so] by (simp add: sound_def)
  then show ?thesis using g by (simp add: good_def carries_def accounted_def backed_def process_disable_market_def)
qed

lemma gen_seq_num_queue:
  "queue_inv request_header_ops q \<Longrightarrow> queue_inv request_header_ops (snd (gen_seq_num q)) \<and>
   requests (snd (gen_seq_num q)) = requests q"
  by (auto simp: gen_seq_num_def queue_inv_def requests_def queue_list_def request_header_ops_def)

lemma cancel_push_run:
  assumes "push_request (CancelOrderView c) (snd (gen_seq_num q)) = Inr q'" "queue_inv request_header_ops q"
  shows "requests q' = requests q @ [request_new (CancelOrderView c)]" "queue_inv request_header_ops q'"
  using push_request_run [OF assms(1)] gen_seq_num_queue [OF assms(2)] by simp_all

lemma process_cancel_order_push:
  assumes "process_cancel_order a = Inr q'"
  obtains c where "push_request (CancelOrderView c) (snd (gen_seq_num (ca_req_q a))) = Inr q'"
    "cr_client_order_id c = None"
proof (rule that)
  show "push_request (CancelOrderView
        \<lparr>cr_side = co_side (ca_instruction a), cr_order_id = co_order_id (ca_instruction a),
         cr_cancel_id = fst (gen_seq_num (ca_req_q a)),
         cr_expected_owner_slot = co_owner_slot (ca_instruction a),
         cr_expected_owner = ca_open_orders_address a, cr_client_order_id = None\<rparr>)
        (snd (gen_seq_num (ca_req_q a))) = Inr q'"
    using assms by (simp add: process_cancel_order_def Let_def split: prod.splits)
qed simp

lemma process_cancel_order_by_client_id_push:
  assumes "process_cancel_order_by_client_id a = Inr q'"
  obtains c where "push_request (CancelOrderView c) (snd (gen_seq_num (ca_req_q a))) = Inr q'"
    "cr_client_order_id c = Some (ca_instruction a)"
proof -
  obtain i sd where "push_request (CancelOrderView
        \<lparr>cr_side = sd, cr_order_id = oo_orders (ca_open_orders a) ! unat (of_nat i :: u8),
         cr_cancel_id = fst (gen_seq_num (ca_req_q a)), cr_expected_owner_slot = of_nat i,
         cr_expected_owner = ca_open_orders_address a,
         cr_client_order_id = Some (ca_instruction a)\<rparr>) (snd (gen_seq_num (ca_req_q a))) = Inr q'"
    using assms by (auto simp: process_cancel_order_by_client_id_def Let_def res_simps case_prod_beta)
  then show thesis by (rule that) simp
qed

lemma exchange_step_keeps:
  assumes "exchange_step ch tp users s s'" "good s"
  shows "carries tp bal users s s'"
  using assms(1)
proof cases
  case (open_account k oo ow oo')
  then show ?thesis using open_keeps assms(2) by blast
next
  case (place a m' oo' q' l')
  show ?thesis unfolding place(1)
    by (rule place_keeps [OF place(2-10) assms(2)])
next
  case (cancel a q')
  have q: "queue_inv request_header_ops (ca_req_q a)"
    using soundD(2) [of s] assms(2) cancel(3) by (simp add: good_def requests_ok_def)
  obtain c where c: "push_request (CancelOrderView c) (snd (gen_seq_num (ca_req_q a))) = Inr q'"
    "cr_client_order_id c = None"
    by (rule process_cancel_order_push [OF cancel(2)])
  have "cr_client_order_id c \<noteq> Some 0" unfolding c(2) by simp
  from cancel_keeps [OF _ cancel_push_run(2) [OF c(1) q] this assms(2)] cancel_push_run(1) [OF c(1) q]
  show ?thesis unfolding cancel(1,3) by blast
next
  case (cancel_by_client_id a q')
  have q: "queue_inv request_header_ops (ca_req_q a)"
    using soundD(2) [of s] assms(2) cancel_by_client_id(3) by (simp add: good_def requests_ok_def)
  obtain c where c: "push_request (CancelOrderView c) (snd (gen_seq_num (ca_req_q a))) = Inr q'"
    "cr_client_order_id c = Some (ca_instruction a)"
    by (rule process_cancel_order_by_client_id_push [OF cancel_by_client_id(2)])
  have "cr_client_order_id c \<noteq> Some 0" unfolding c(2) using cancel_by_client_id(4) by simp
  from cancel_keeps [OF _ cancel_push_run(2) [OF c(1) q] this assms(2)] cancel_push_run(1) [OF c(1) q]
  show ?thesis unfolding cancel_by_client_id(1,3) by blast
next
  case (match limit rq ob eq)
  show ?thesis unfolding match(1) by (rule match_keeps [OF match(2) assms(2)])
next
  case (consume es q' A)
  show ?thesis unfolding consume(1) by (rule consume_keeps [OF consume(2-4) assms(2)])
next
  case (settle b m' oo' l' k)
  show ?thesis unfolding settle(1)
    by (rule settle_keeps [OF settle(2-9) assms(2)])
next
  case (sweep c m' l')
  show ?thesis unfolding sweep(1)
    by (rule sweep_keeps [OF sweep(2-5) assms(2)])
next
  case disable
  show ?thesis unfolding disable by (rule disable_keeps [OF assms(2)])
qed

text \<open>A market that has just been initialised: empty sides and queues, nothing owed.\<close>

definition initial :: "'l exchange \<Rightarrow> bool" where
  "initial s \<longleftrightarrow>
     slab_inv (ob_bids (ex_book s)) \<and> slab_orders (ob_bids (ex_book s)) = Map.empty \<and>
     slab_inv (ob_asks (ex_book s)) \<and> slab_orders (ob_asks (ex_book s)) = Map.empty \<and>
     0 < slab_capacity (ob_bids (ex_book s)) \<and> 0 < slab_capacity (ob_asks (ex_book s)) \<and>
     queue_inv request_header_ops (ex_req_q s) \<and> requests (ex_req_q s) = [] \<and>
     queue_inv event_header_ops (ex_event_q s) \<and> events (ex_event_q s) = [] \<and>
     ex_accounts s = Map.empty \<and>
     ms_pc_lot_size (ex_market s) \<noteq> 0 \<and> ms_coin_lot_size (ex_market s) \<noteq> 0 \<and>
     ms_pc_deposits_total (ex_market s) = 0 \<and> ms_coin_deposits_total (ex_market s) = 0 \<and>
     ms_pc_fees_accrued (ex_market s) = 0 \<and> ms_referrer_rebates_accrued (ex_market s) = 0"

lemma initial_good: "initial s \<Longrightarrow> good s"
  by (simp add: initial_def good_def sound_def accounted_def book_ok_def side_ok_def uncrossed_def
      requests_ok_def event_queue_ok_def accounts_ok_def sum_of_def)

lemma initial_backed:
  "initial s \<Longrightarrow> bal (ex_ledger s) (ms_coin_vault (ex_market s)) = 0 \<Longrightarrow>
   bal (ex_ledger s) (ms_pc_vault (ex_market s)) = 0 \<Longrightarrow> backed bal s"
  by (simp add: initial_def backed_def)

lemma reachable_carried:
  assumes "(exchange_step ch tp users)\<^sup>*\<^sup>* s0 s" "good s0"
  shows "carries tp bal users s0 s"
  using assms(1)
proof (induction rule: rtranclp_induct)
  case base
  then show ?case using assms(2) by (simp add: carries_def)
next
  case (step s s')
  have "carries tp bal users s s'" using exchange_step_keeps [OF step(2)] step(3) by (simp add: carries_def)
  then show ?case using step(3) by (simp add: carries_def solid_def)
qed

subsection \<open>The properties\<close>

text \<open>
  Claim C1: from a market just initialised, whatever sequence of accepted instructions is run, by
  whomever and in whatever order (accounts are opened on zeroed data, as the runtime hands them out),
  the market's recorded deposits in both currencies and its
  referrer rebates are the sums of the traders' totals and of what the pending events will
  add to them.  If moreover token transfers move what they say, the two vaults are different
  accounts that were empty at first, and none of the instructions names one of them as the payer, a
  wallet, the referrer's account or the fee receiver, then the two vaults hold exactly the deposits,
  fees and rebates (all as 64-bit words).  The program itself does not check that last condition: with
  \<open>users = UNIV\<close>, which is every accepted instruction, only the first part is claimed.
\<close>

theorem reachable_accounted:
  assumes "(exchange_step ch tp users)\<^sup>*\<^sup>* s0 s" and "initial s0"
  shows "ms_pc_deposits_total (ex_market s)
      = sum_of oo_native_pc_total (ex_accounts s) + pending pc_delta (events (ex_event_q s))
    \<and> ms_coin_deposits_total (ex_market s)
      = sum_of oo_native_coin_total (ex_accounts s) + pending coin_delta (events (ex_event_q s))
    \<and> ms_referrer_rebates_accrued (ex_market s)
      = sum_of oo_referrer_rebates_accrued (ex_accounts s) + pending rebate_delta (events (ex_event_q s))
    \<and> (honest_tokens tp bal \<and> vaults s0 \<inter> users = {} \<and> ms_coin_vault (ex_market s0) \<noteq> ms_pc_vault (ex_market s0)
         \<and> bal (ex_ledger s0) (ms_coin_vault (ex_market s0)) = 0 \<and> bal (ex_ledger s0) (ms_pc_vault (ex_market s0)) = 0
       \<longrightarrow> of_nat (bal (ex_ledger s) (ms_pc_vault (ex_market s)))
             = ms_pc_deposits_total (ex_market s) + ms_pc_fees_accrued (ex_market s)
               + ms_referrer_rebates_accrued (ex_market s)
           \<and> of_nat (bal (ex_ledger s) (ms_coin_vault (ex_market s))) = ms_coin_deposits_total (ex_market s))"
proof -
  have c: "carries tp bal users s0 s" by (rule reachable_carried [OF assms(1) initial_good [OF assms(2)]])
  then have "accounted s" by (simp add: carries_def good_def)
  moreover have "backed bal s" if "solid tp bal users s0" "bal (ex_ledger s0) (ms_coin_vault (ex_market s0)) = 0"
    "bal (ex_ledger s0) (ms_pc_vault (ex_market s0)) = 0"
    using c that initial_backed [OF assms(2)] by (simp add: carries_def)
  ultimately show ?thesis by (simp add: accounted_def backed_def solid_def)
qed

text \<open>
  Claim C2: in every state reached from a market just initialised the book is well formed and not
  crossed, every request in the queue can be read, and working off requests, under any limit,
  neither panics nor fails to end: it returns, or reports that the event queue is full.
\<close>

theorem reachable_matching_safe:
  assumes "(exchange_step ch tp users)\<^sup>*\<^sup>* s0 s" and "initial s0"
  shows "book_ok (ex_book s) \<and> uncrossed (ex_book s) \<and> requests_ok (ex_market s) (ex_req_q s) \<and>
    process_requests limit (ex_req_q s) (ex_book s) (ex_event_q s)
      \<in> {Inl (err_code EventQueueFull)} \<union> range Inr"
proof -
  have s: "sound s" using reachable_carried [OF assms(1) initial_good [OF assms(2)]] by (simp add: carries_def good_def)
  have "outcome full (\<lambda>_. True) (process_requests limit (ex_req_q s) (ex_book s) (ex_event_q s))"
    unfolding process_requests_def
    by (rule outcome_imp [OF process_requests_loop_ok [OF soundD(1,3,2) [OF s]]]) auto
  then show ?thesis using soundD(1,2) [OF s]
    by (cases "process_requests limit (ex_req_q s) (ex_book s) (ex_event_q s)") (auto simp: book_ok_def)
qed

text \<open>A market in which one account is opened and one bid is placed and matched.\<close>

definition sample_start :: "(aligned \<Rightarrow> u64) exchange" where
  "sample_start =
     \<lparr>ex_book = sample_book\<lparr>ob_market := sample_market\<lparr>ms_pc_deposits_total := 0, ms_coin_deposits_total := 0\<rparr>\<rparr>,
      ex_req_q = \<lparr>q_header = \<lparr>rqh_account_flags = 9, rqh_head = 0, rqh_count = 0, rqh_next_seq_num = 0\<rparr>,
                  q_buf = replicate 4 sample_bid\<rparr>,
      ex_event_q = sample_events, ex_accounts = Map.empty,
      ex_ledger = (\<lambda>k. if k = (21, 0, 0, 0) then 5000 else 0)\<rparr>"

definition sample_blank_orders :: open_orders where
  "sample_blank_orders =
     \<lparr>oo_account_flags = 0, oo_market = (0, 0, 0, 0), oo_owner = (0, 0, 0, 0),
      oo_native_coin_free = 0, oo_native_coin_total = 0, oo_native_pc_free = 0, oo_native_pc_total = 0,
      oo_free_slot_bits = 0, oo_is_bid_bits = 0, oo_orders = replicate 128 0,
      oo_client_order_ids = replicate 128 0, oo_referrer_rebates_accrued = 0\<rparr>"

definition sample_opened_orders :: open_orders where
  "sample_opened_orders = sample_blank_orders
     \<lparr>oo_account_flags := 5, oo_market := (1, 2, 3, 4), oo_owner := (5, 6, 7, 8), oo_free_slot_bits := - 1\<rparr>"

definition sample_place :: new_order_args where
  "sample_place = sample_new_order
     \<lparr>noa_market := ex_market sample_start, noa_open_orders := sample_opened_orders,
      noa_req_q := ex_req_q sample_start\<rparr>"

lemma sample_place_run:
  "case process_new_order sample_chain sample_token_program sample_place (ex_ledger sample_start) of
     Inl _ \<Rightarrow> False | Inr ((m, oo, q), bal) \<Rightarrow> ms_pc_deposits_total m = 3007"
  by code_simp

lemma sample_start_initial: "initial sample_start"
  by (simp add: initial_def sample_start_def sample_book_def blank_slab_inv blank_slab_orders
      queue_inv_def queue_list_def requests_def request_header_ops_def event_header_ops_def
      sample_market_def sample_events_def events_def)

lemma sample_reached:
  "\<exists>s. (exchange_step sample_chain sample_token_program {(21, 0, 0, 0)})\<^sup>*\<^sup>* sample_start s
     \<and> ms_pc_deposits_total (ex_market s) = 3007"
proof -
  let ?k = "(20, 0, 0, 0) :: aligned"
  let ?s1 = "sample_start\<lparr>ex_accounts := (ex_accounts sample_start)(?k \<mapsto> sample_opened_orders)\<rparr>"
  obtain m oo q bal where r: "process_new_order sample_chain sample_token_program sample_place (ex_ledger sample_start)
      = Inr ((m, oo, q), bal)" "ms_pc_deposits_total m = 3007"
    using sample_place_run by (auto split: sum.splits)
  let ?s2 = "with_market m (?s1\<lparr>ex_req_q := q, ex_ledger := bal,
        ex_accounts := (ex_accounts ?s1)(noa_open_orders_address sample_place \<mapsto> oo)\<rparr>)"
  have "exchange_step sample_chain sample_token_program {(21, 0, 0, 0)} sample_start ?s1"
    by (rule exchange_step.open_account [of _ _ sample_blank_orders "(5, 6, 7, 8)"])
      (simp_all add: sample_start_def sample_blank_orders_def oo_arrays_def oo_init_def check_assert_def
        sample_opened_orders_def account_flag_defs sample_market_def)
  moreover have "exchange_step sample_chain sample_token_program {(21, 0, 0, 0)} ?s1 ?s2"
    by (rule exchange_step.place) (use r in \<open>simp_all add: sample_place_def sample_new_order_def sample_start_def
        sample_market_def\<close>)
  ultimately have reach: "(exchange_step sample_chain sample_token_program {(21, 0, 0, 0)})\<^sup>*\<^sup>* sample_start ?s2"
    by (rule converse_rtranclp_into_rtranclp [OF _ r_into_rtranclp])
  have "ex_market ?s2 = m" by simp
  then have "ms_pc_deposits_total (ex_market ?s2) = 3007" by (simp only: r(2))
  with reach show ?thesis by blast
qed

theorem reachable_accounted_witness:
  "\<exists>s. (exchange_step sample_chain sample_token_program {(21, 0, 0, 0)})\<^sup>*\<^sup>* sample_start s
     \<and> 3007 = sum_of oo_native_pc_total (ex_accounts s) + pending pc_delta (events (ex_event_q s))
     \<and> of_nat (unat (ex_ledger s (ms_pc_vault (ex_market s))))
       = 3007 + ms_pc_fees_accrued (ex_market s) + ms_referrer_rebates_accrued (ex_market s)"
proof -
  obtain s where s: "(exchange_step sample_chain sample_token_program {(21, 0, 0, 0)})\<^sup>*\<^sup>* sample_start s"
    "ms_pc_deposits_total (ex_market s) = 3007"
    using sample_reached by blast
  have "vaults sample_start \<inter> {(21, 0, 0, 0)} = {}"
    "ms_coin_vault (ex_market sample_start) \<noteq> ms_pc_vault (ex_market sample_start)"
    "unat (ex_ledger sample_start (ms_coin_vault (ex_market sample_start))) = 0"
    "unat (ex_ledger sample_start (ms_pc_vault (ex_market sample_start))) = 0"
    by (simp_all add: sample_start_def sample_market_def)
  with reachable_accounted [OF s(1) sample_start_initial, of "\<lambda>l k. unat (l k)"] sample_token_program_honest
  show ?thesis using s by metis
qed

theorem reachable_matching_safe_witness:
  "\<exists>s :: (aligned \<Rightarrow> u64) exchange. ms_pc_deposits_total (ex_market s) = 3007 \<and>
     process_requests 5 (ex_req_q s) (ex_book s) (ex_event_q s) \<in> {Inl (err_code EventQueueFull)} \<union> range Inr"
proof -
  obtain s where s: "(exchange_step sample_chain sample_token_program {(21, 0, 0, 0)})\<^sup>*\<^sup>* sample_start s"
    "ms_pc_deposits_total (ex_market s) = 3007"
    using sample_reached by blast
  from reachable_matching_safe [OF s(1) sample_start_initial, of 5] show ?thesis
    using s(2) by metis
qed

end
