(* ===== verification/Gateway.thy ===== *)
theory Gateway
  imports Consume
begin

text \<open>
  The program as a whole (\<open>State::process\<close>): whose signature an instruction needs, which
  accounts it may write, and that nothing runs on a disabled market.
\<close>

subsection \<open>Whose signature\<close>

lemma check_assert_ok [simp]: "check_assert f l b = Inr u \<longleftrightarrow> b"
  by (cases b) (simp_all add: check_assert_def)

lemma signer_new_ok: "signer_new acc = Inr u \<longleftrightarrow> ai_is_signer acc"
  by (simp add: signer_new_def)

lemma or_assertion_Inr: "or_assertion l r = Inr x \<longleftrightarrow> r = Inr x"
  by (auto simp: or_assertion_def split: sum.splits dex_fault.splits)

text \<open>What a parser that succeeds has checked.\<close>

lemma new_order_parse:
  assumes "new_order_args_parse ch p inst accs = Inr a"
  shows "ai_is_signer (accs ! 4)" "noa_instruction a = inst" "noa_owner a = ai_key (accs ! 4)"
    "load_market p (accs ! 0) = Inr (noa_market a)"
    "\<exists>rent. load_orders_mut (noa_market a) (accs ! 1) (Some (accs ! 4)) p rent = Inr (noa_open_orders a)"
    "load_request_queue_mut (noa_market a) (accs ! 2) = Inr (noa_req_q a)"
    "noa_open_orders_address a = ai_key (accs ! 1)"
    "noa_coin_vault a = ms_coin_vault (noa_market a)" "noa_pc_vault a = ms_pc_vault (noa_market a)"
    "length accs \<ge> 9" "noa_payer a = ai_key (accs ! 3)"
  using assms unfolding new_order_args_parse_def Let_def
  by (auto simp only: and_then_eq_Inr signer_new_ok or_assertion_Inr check_assert_ok new_order_args.simps
      token_from_account_def token_account_new_def token_view_def token_account.simps check_coin_vault_def
      check_pc_vault_def sum.inject split: if_splits) 

lemma cancel_parse:
  assumes "cancel_args_parse l p accs inst = Inr a"
  shows "ai_is_signer (accs ! 3)" "ca_instruction a = inst" "length accs = 4"
    "\<exists>m. load_market p (accs ! 0) = Inr m \<and>
      load_orders_mut m (accs ! 1) (Some (accs ! 3)) p None = Inr (ca_open_orders a) \<and>
      load_request_queue_mut m (accs ! 2) = Inr (ca_req_q a)"
    "ca_open_orders_address a = ai_key (accs ! 1)"
  using assms unfolding cancel_args_parse_def Let_def
  by (auto simp only: and_then_eq_Inr signer_new_ok check_assert_ok cancel_args.simps sum.inject)

lemma settle_parse:
  assumes "settle_funds_args_parse ch p accs = Inr a"
  shows "ai_is_signer (accs ! 2)" "load_market p (accs ! 0) = Inr (sfa_market a)" "length accs \<ge> 9"
    "load_orders_mut (sfa_market a) (accs ! 1) (Some (accs ! 2)) p None = Inr (sfa_open_orders a)"
    "sfa_coin_vault a = ms_coin_vault (sfa_market a)" "sfa_pc_vault a = ms_pc_vault (sfa_market a)"
  using assms unfolding settle_funds_args_parse_def Let_def
  by (auto simp only: and_then_eq_Inr signer_new_ok or_assertion_Inr check_assert_ok settle_funds_args.simps
      token_from_account_def token_account_new_def token_view_def token_account.simps check_coin_vault_def
      check_pc_vault_def sum.inject split: if_splits)

lemma disable_parse:
  assumes "disable_market_args_parse ch p accs = Inr m"
  shows "ai_is_signer (accs ! 1)" "ai_key (accs ! 1) = ch_disable_authority ch" "length accs = 2"
    "load_market p (accs ! 0) = Inr m"
  using assms unfolding disable_market_args_parse_def signing_disable_authority_new_def
  by (auto simp only: and_then_eq_Inr check_assert_ok sum.inject)

lemma sweep_parse:
  assumes "sweep_fees_args_parse ch p accs = Inr a"
  shows "ai_is_signer (accs ! 2)" "ai_key (accs ! 2) = ch_fee_sweeper ch" "length accs = 6"
    "load_market p (accs ! 0) = Inr (swa_market a)" "swa_pc_vault a = ms_pc_vault (swa_market a)"
  using assms unfolding sweep_fees_args_parse_def signing_fee_sweeper_new_def
  by (auto simp only: and_then_eq_Inr check_assert_ok sweep_fees_args.simps token_from_account_def
      token_account_new_def token_view_def token_account.simps check_pc_vault_def sum.inject split: if_splits)

lemma match_parse:
  assumes "match_orders_args_parse p accs limit = Inr a"
  shows "load_market p (accs ! 0) = Inr (ob_market (moa_order_book a))" "5 \<le> length accs" "moa_limit a = limit"
    "load_request_queue_mut (ob_market (moa_order_book a)) (accs ! 1) = Inr (moa_req_q a)"
    "load_event_queue_mut (ob_market (moa_order_book a)) (accs ! 2) = Inr (moa_event_q a)"
    "load_bids_mut (ob_market (moa_order_book a)) (accs ! 3) = Inr (ob_bids (moa_order_book a))"
    "load_asks_mut (ob_market (moa_order_book a)) (accs ! 4) = Inr (ob_asks (moa_order_book a))"
  using assms unfolding match_orders_args_parse_def
  by (auto simp only: and_then_eq_Inr or_assertion_Inr check_assert_ok match_orders_args.simps
      order_book.simps sum.inject)

lemma consume_parse:
  assumes "consume_events_args_parse p accs limit = Inr a"
  shows "5 \<le> length accs" "cea_limit a = limit" "cea_program_id a = p"
    "cea_open_orders_accounts a = take (length accs - 4) accs"
    "load_market p (accs ! (length accs - 4)) = Inr (cea_market a)"
    "load_event_queue_mut (cea_market a) (accs ! (length accs - 4 + 1)) = Inr (cea_event_q a)"
  using assms unfolding consume_events_args_parse_def Let_def
  by (auto simp only: and_then_eq_Inr check_assert_ok consume_events_args.simps sum.inject)

text \<open>The account whose signature an instruction needs, and what its key has to be.\<close>

definition signer_position :: "market_instruction \<Rightarrow> nat option" where
  "signer_position i =
     (case i of
        NewOrder _ \<Rightarrow> Some 4 | NewOrderV2 _ \<Rightarrow> Some 4 | CancelOrder _ \<Rightarrow> Some 3
      | CancelOrderByClientId _ \<Rightarrow> Some 3 | SettleFunds \<Rightarrow> Some 2 | DisableMarket \<Rightarrow> Some 1
      | SweepFees \<Rightarrow> Some 2 | _ \<Rightarrow> None)"

definition signer_authority :: "chain \<Rightarrow> aligned \<Rightarrow> account_info list \<Rightarrow> market_instruction \<Rightarrow> account_info \<Rightarrow> bool" where
  "signer_authority ch p accounts i signer =
     (case i of
        DisableMarket \<Rightarrow> ai_key signer = ch_disable_authority ch
      | SweepFees \<Rightarrow> ai_key signer = ch_fee_sweeper ch
      | _ \<Rightarrow> (\<exists>m oo rent. load_market p (accounts ! 0) = Inr m \<and>
               load_orders_mut m (accounts ! 1) (Some signer) p rent = Inr oo \<and>
               oo_market oo = ms_own_address m \<and> oo_owner oo = ai_key signer))"

lemma orders_authority:
  assumes "load_market p (accounts ! 0) = Inr m" "load_orders_mut m (accounts ! 1) (Some signer) p rent = Inr oo"
  shows "\<exists>m oo rent. load_market p (accounts ! 0) = Inr m \<and>
               load_orders_mut m (accounts ! 1) (Some signer) p rent = Inr oo \<and>
               oo_market oo = ms_own_address m \<and> oo_owner oo = ai_key signer"
  using assms load_orders_run(5,6) [OF assms(2)] by blast

text \<open>
  Claim C15: an instruction that moves an account's orders or funds succeeds only with the
  signature of the account's owner, on an open-orders account of that very market; disabling
  a market and sweeping its fees succeed only with the signature of the two authorities.
\<close>

theorem process_needs_signature:
  assumes "process ch tp p accounts input l = Inr r" and "unpack input = Some i"
    and "signer_position i = Some n"
  shows "n < length accounts \<and> ai_is_signer (accounts ! n) \<and> signer_authority ch p accounts i (accounts ! n)"
proof (cases i)
  case (NewOrder x)
  obtain a where "new_order_args_parse ch p (add_self_trade_behavior DecrementTake x) accounts = Inr a"
    using assms NewOrder by (auto simp: process_def run_new_order_def res_simps)
  note a = new_order_parse [OF this]
  show ?thesis using a(1,10) orders_authority [OF a(4)] a(5) NewOrder assms(3)
    by (auto simp: signer_position_def signer_authority_def)
next
  case (NewOrderV2 x)
  obtain a where "new_order_args_parse ch p x accounts = Inr a"
    using assms NewOrderV2 by (auto simp: process_def run_new_order_def res_simps)
  note a = new_order_parse [OF this]
  show ?thesis using a(1,10) orders_authority [OF a(4)] a(5) NewOrderV2 assms(3)
    by (auto simp: signer_position_def signer_authority_def)
next
  case (CancelOrder x)
  obtain a where "cancel_args_parse 1625 p accounts x = Inr a"
    using assms CancelOrder by (auto simp: process_def cancel_order_args_parse_def res_simps)
  note a = cancel_parse [OF this]
  show ?thesis using a(1,3,4) orders_authority CancelOrder assms(3)
    by (fastforce simp: signer_position_def signer_authority_def)
next
  case (CancelOrderByClientId x)
  obtain a c where "cancel_args_parse 1665 p accounts (c :: u64) = Inr a"
    using assms CancelOrderByClientId
    by (auto simp: process_def cancel_order_by_client_id_args_parse_def res_simps)
  note a = cancel_parse [OF this]
  show ?thesis using a(1,3,4) orders_authority CancelOrderByClientId assms(3)
    by (fastforce simp: signer_position_def signer_authority_def)
next
  case SettleFunds
  obtain a where "settle_funds_args_parse ch p accounts = Inr a"
    using assms SettleFunds by (auto simp: process_def res_simps)
  note a = settle_parse [OF this]
  show ?thesis using a(1,3) orders_authority [OF a(2,4)] SettleFunds assms(3)
    by (auto simp: signer_position_def signer_authority_def)
next
  case DisableMarket
  obtain m where "disable_market_args_parse ch p accounts = Inr m"
    using assms DisableMarket by (auto simp: process_def res_simps)
  note a = disable_parse [OF this]
  show ?thesis using a DisableMarket assms(3) by (auto simp: signer_position_def signer_authority_def)
next
  case SweepFees
  obtain a where "sweep_fees_args_parse ch p accounts = Inr a"
    using assms SweepFees by (auto simp: process_def res_simps)
  note a = sweep_parse [OF this]
  show ?thesis using a SweepFees assms(3) by (auto simp: signer_position_def signer_authority_def)
qed (use assms(3) in \<open>simp_all add: signer_position_def\<close>)

subsection \<open>A disabled market\<close>

definition market_position :: "market_instruction \<Rightarrow> account_info list \<Rightarrow> nat" where
  "market_position i accounts = (case i of ConsumeEvents _ \<Rightarrow> length accounts - 4 | _ \<Rightarrow> 0)"

lemma process_loads_market:
  assumes "process ch tp p accounts input l = Inr r" "unpack input = Some i"
  shows "case i of
      InitializeMarket _ \<Rightarrow> check_fresh_account p (accounts ! 0) = Inr ()
    | _ \<Rightarrow> \<exists>m. load_market p (accounts ! market_position i accounts) = Inr m"
proof (cases i)
  case (InitializeMarket x)
  obtain a where "initialize_market_args_new ch p x accounts = Inr a"
    using assms InitializeMarket by (auto simp: process_def res_simps)
  then have "check_fresh_accounts p (take 5 accounts) = Inr ()" "length accounts = 9"
    by (auto simp: initialize_market_args_new_def res_simps)
  then show ?thesis using InitializeMarket
    by (cases accounts) (auto simp: res_simps)
next
  case (NewOrder x)
  obtain a where "new_order_args_parse ch p (add_self_trade_behavior DecrementTake x) accounts = Inr a"
    using assms NewOrder by (auto simp: process_def run_new_order_def res_simps)
  from new_order_parse(4) [OF this] show ?thesis using NewOrder by (simp add: market_position_def)
next
  case (NewOrderV2 x)
  obtain a where "new_order_args_parse ch p x accounts = Inr a"
    using assms NewOrderV2 by (auto simp: process_def run_new_order_def res_simps)
  from new_order_parse(4) [OF this] show ?thesis using NewOrderV2 by (simp add: market_position_def)
next
  case (MatchOrders x)
  obtain a where "match_orders_args_parse p accounts x = Inr a"
    using assms MatchOrders by (auto simp: process_def res_simps)
  from match_parse(1) [OF this] show ?thesis using MatchOrders by (simp add: market_position_def)
next
  case (ConsumeEvents x)
  obtain a where "consume_events_args_parse p accounts x = Inr a"
    using assms ConsumeEvents by (auto simp: process_def res_simps)
  from consume_parse(5) [OF this] show ?thesis using ConsumeEvents by (simp add: market_position_def)
next
  case (CancelOrder x)
  obtain a where "cancel_args_parse 1625 p accounts x = Inr a"
    using assms CancelOrder by (auto simp: process_def cancel_order_args_parse_def res_simps)
  from cancel_parse(4) [OF this] show ?thesis using CancelOrder by (auto simp: market_position_def)
next
  case (CancelOrderByClientId x)
  obtain a c where "cancel_args_parse 1665 p accounts (c :: u64) = Inr a"
    using assms CancelOrderByClientId
    by (auto simp: process_def cancel_order_by_client_id_args_parse_def res_simps)
  from cancel_parse(4) [OF this] show ?thesis using CancelOrderByClientId by (auto simp: market_position_def)
next
  case SettleFunds
  obtain a where "settle_funds_args_parse ch p accounts = Inr a"
    using assms SettleFunds by (auto simp: process_def res_simps)
  from settle_parse(2) [OF this] show ?thesis using SettleFunds by (simp add: market_position_def)
next
  case DisableMarket
  obtain m where "disable_market_args_parse ch p accounts = Inr m"
    using assms DisableMarket by (auto simp: process_def res_simps)
  from disable_parse(4) [OF this] show ?thesis using DisableMarket by (simp add: market_position_def)
next
  case SweepFees
  obtain a where "sweep_fees_args_parse ch p accounts = Inr a"
    using assms SweepFees by (auto simp: process_def res_simps)
  from sweep_parse(4) [OF this] show ?thesis using SweepFees by (simp add: market_position_def)
qed

lemma length_market_words: "length (market_words m) = 47"
  by (simp add: market_words_def layout_defs split: prod.splits)

lemma load_market_run:
  assumes "load_market p acc = Inr m"
  shows "ai_owner acc = p" "market_of_words (inner_words (ai_data acc)) = Some m" "ms_check_flags m = Inr ()"
    "length (inner_words (ai_data acc)) = 47"
proof -
  obtain d ws where s: "ai_owner acc = p" "check_account_padding (ai_data acc) = Inr (d, ws)"
    "market_of_words ws = Some m" "ms_check_flags m = Inr ()"
    using assms by (auto simp: load_market_def res_simps)
  note w = check_padding_inner [OF s(2)]
  show "ai_owner acc = p" "market_of_words (inner_words (ai_data acc)) = Some m" "ms_check_flags m = Inr ()"
    "length (inner_words (ai_data acc)) = 47"
    using s w by (simp_all add: market_of_words_def split: if_splits)
qed

lemma store_market_data:
  assumes "load_market p acc = Inr m"
  shows "ai_data (store_words (market_words m') acc)
    = ACCOUNT_HEAD_PADDING @ bytes_of_words (market_words m') @ ACCOUNT_TAIL_PADDING"
  by (rule store_words_all [OF refl]) (simp add: length_market_words load_market_run(4) [OF assms])

lemma load_market_padded:
  assumes "ai_data acc = ACCOUNT_HEAD_PADDING @ bytes_of_words (market_words m) @ ACCOUNT_TAIL_PADDING"
    and "ai_owner acc = p"
  shows "load_market p acc = and_then (ms_check_flags m) (\<lambda>_. Inr m)"
  using assms by (simp add: load_market_def check_padding_stored market_layout)

lemma load_market_stored:
  assumes "load_market p acc = Inr m"
  shows "load_market p (store_words (market_words m') acc) = and_then (ms_check_flags m') (\<lambda>_. Inr m')"
  by (rule load_market_padded [OF store_market_data [OF assms]]) (simp add: load_market_run(1) [OF assms])

text \<open>The market account a successful \<open>DisableMarket\<close> leaves behind.\<close>

lemma disabled_run:
  assumes "process ch tp p accounts input l = Inr (accs', l')" "unpack input = Some DisableMarket"
  obtains m where "load_market p (accounts ! 0) = Inr m"
    "accs' ! 0 = store_words (market_words (process_disable_market m)) (accounts ! 0)"
proof -
  obtain m where m: "disable_market_args_parse ch p accounts = Inr m"
    "accs' = update_account (ai_key (accounts ! 0)) (store_words (market_words (process_disable_market m))) accounts"
    using assms by (auto simp: process_def res_simps)
  have "length accounts = 2" by (rule disable_parse(3) [OF m(1)])
  then have "accs' ! 0 = store_words (market_words (process_disable_market m)) (accounts ! 0)"
    using m(2) by (simp add: update_account_def)
  then show thesis by (rule that [OF disable_parse(4) [OF m(1)]])
qed

lemma disabled_flags:
  "ms_check_flags (process_disable_market m) = Inl (err_code InvalidMarketFlags)"
  "ms_account_flags (process_disable_market m) \<noteq> 0"
proof -
  let ?f = "ms_account_flags m OR AF_Disabled"
  have b: "bit ?f 7" by (simp add: AF_Disabled_def bit_or_iff)
  have "?f \<noteq> AF_Initialized OR AF_Market"
  proof
    assume "?f = AF_Initialized OR AF_Market"
    then have "bit (AF_Initialized OR AF_Market) 7" using b by simp
    then show False by (simp add: account_flag_defs)
  qed
  then show "ms_check_flags (process_disable_market m) = Inl (err_code InvalidMarketFlags)"
    by (auto simp: ms_check_flags_def process_disable_market_def account_flags_from_bits_def res_simps)
  have "?f \<noteq> 0" using b by (metis bit_0_eq bot_apply bot_bool_def)
  then show "ms_account_flags (process_disable_market m) \<noteq> 0" by (simp add: process_disable_market_def)
qed

text \<open>
  Claim C37: once a market is disabled nothing succeeds on it any more: no instruction whose market
  is the account that \<open>DisableMarket\<close> left behind, settling, cancelling, sweeping and
  initialising the account anew included.
\<close>

theorem disabled_market_refuses:
  assumes "process ch tp p accounts input l = Inr (accs', l')" and "unpack input = Some DisableMarket"
    and "unpack input2 = Some i" and "accounts2 ! market_position i accounts2 = accs' ! 0"
  shows "\<exists>e. process ch tp p accounts2 input2 l2 = Inl e"
proof (rule ccontr)
  assume "\<not> ?thesis"
  then obtain r where r: "process ch tp p accounts2 input2 l2 = Inr r"
    by (cases "process ch tp p accounts2 input2 l2") auto
  obtain m where m: "load_market p (accounts ! 0) = Inr m"
    "accs' ! 0 = store_words (market_words (process_disable_market m)) (accounts ! 0)"
    by (rule disabled_run [OF assms(1,2)])
  have no: "load_market p (accs' ! 0) = Inl (err_code InvalidMarketFlags)"
    using load_market_stored [OF m(1)] by (simp add: m(2) disabled_flags)
  have stale: "check_fresh_account p (accs' ! 0) \<noteq> Inr ()"
  proof
    assume f: "check_fresh_account p (accs' ! 0) = Inr ()"
    let ?f = "ms_account_flags (process_disable_market m)"
    have "market_words (process_disable_market m) = ?f # tl (market_words (process_disable_market m))"
      by (simp add: market_words_def)
    then have "bytes_of_words (market_words (process_disable_market m))
        = u64_to_le ?f @ bytes_of_words (tl (market_words (process_disable_market m)))"
      by (metis bytes_of_words_def list.simps(9) concat.simps(2))
    then have "cut 5 8 (ai_data (accs' ! 0)) = u64_to_le ?f"
      using store_market_data [OF m(1)] by (simp add: m(2) cut_def ACCOUNT_HEAD_PADDING_def)
    then have "u64_to_le ?f = replicate 8 0"
      using f by (simp add: check_fresh_account_def Let_def res_simps)
    then have "u64_to_le ?f = u64_to_le 0" by (simp add: u64_to_le_def numeral_eq_Suc)
    then have "u64_of_le (u64_to_le ?f) = u64_of_le (u64_to_le 0)" by (rule arg_cong)
    then show False using disabled_flags(2) by simp
  qed
  show False
    using process_loads_market [OF r assms(3)] no stale assms(4)
    by (cases i) (auto simp: market_position_def)
qed

definition sample_market_account :: account_info where
  "sample_market_account =
     \<lparr>ai_key = (1, 2, 3, 4), ai_owner = (30, 0, 0, 0), ai_is_signer = False, ai_lamports = 100000,
      ai_data = ACCOUNT_HEAD_PADDING @ bytes_of_words (market_words sample_market) @ ACCOUNT_TAIL_PADDING\<rparr>"

definition sample_authority :: account_info where
  "sample_authority =
     \<lparr>ai_key = (10, 0, 0, 0), ai_owner = (0, 0, 0, 0), ai_is_signer = True, ai_lamports = 1, ai_data = []\<rparr>"

lemma sample_market_load: "load_market (30, 0, 0, 0) sample_market_account = Inr sample_market"
  by (simp add: load_market_padded [of _ sample_market] sample_market_account_def ms_check_flags_def
      sample_market_def account_flags_from_bits_def flags_contain_def account_flag_defs)

lemma sample_disable_input: "unpack [0, 7, 0, 0, 0] = Some DisableMarket"
  by code_simp

lemma sample_disable_run:
  "process sample_chain sample_token_program (30, 0, 0, 0) [sample_market_account, sample_authority] [0, 7, 0, 0, 0] l
   = Inr ([store_words (market_words (process_disable_market sample_market)) sample_market_account, sample_authority], l)"
  using sample_market_load
  by (simp add: process_def sample_disable_input disable_market_args_parse_def signing_disable_authority_new_def
      sample_authority_def sample_chain_def check_assert_def update_account_def)
    (simp add: sample_market_account_def)

theorem process_needs_signature_witness:
  "ai_is_signer ([sample_market_account, sample_authority] ! 1)"
  using process_needs_signature [OF sample_disable_run sample_disable_input, of 1]
  by (simp add: signer_position_def)

theorem disabled_market_refuses_witness:
  "\<exists>e. process sample_chain sample_token_program (30, 0, 0, 0)
     [store_words (market_words (process_disable_market sample_market)) sample_market_account, sample_authority]
     [0, 7, 0, 0, 0] (\<lambda>_. 0) = Inl e"
  by (rule disabled_market_refuses [OF sample_disable_run sample_disable_input sample_disable_input])
    (simp add: market_position_def)

subsection \<open>What may be written\<close>

text \<open>Only the data of accounts with a key in the set differ.\<close>

definition same_meta :: "account_info \<Rightarrow> account_info \<Rightarrow> bool" where
  "same_meta a b \<longleftrightarrow> ai_key b = ai_key a \<and> ai_owner b = ai_owner a \<and> ai_is_signer b = ai_is_signer a
     \<and> ai_lamports b = ai_lamports a"

definition writes_only :: "aligned set \<Rightarrow> account_info list \<Rightarrow> account_info list \<Rightarrow> bool" where
  "writes_only S accs accs' \<longleftrightarrow>
     list_all2 (\<lambda>a b. same_meta a b \<and> (ai_key a \<in> S \<or> b = a)) accs accs'"

lemma writes_only_refl: "writes_only {} accs accs"
  by (simp add: writes_only_def list_all2_same same_meta_def)

lemma writes_only_nth:
  "writes_only S accs accs' \<longleftrightarrow> length accs' = length accs \<and>
    (\<forall>i<length accs. same_meta (accs ! i) (accs' ! i) \<and> (ai_key (accs ! i) \<in> S \<or> accs' ! i = accs ! i))"
  unfolding writes_only_def list_all2_conv_all_nth by metis

lemma writes_only_mono: "writes_only S accs accs' \<Longrightarrow> S \<subseteq> T \<Longrightarrow> writes_only T accs accs'"
  unfolding writes_only_nth by blast

lemma writes_only_put:
  assumes "writes_only S accs accs'" "\<And>x. x \<in> set accs' \<Longrightarrow> ai_key x = k \<Longrightarrow> same_meta x (f x)"
  shows "writes_only (insert k S) accs (update_account k f accs')"
  unfolding writes_only_nth
proof (intro conjI allI impI)
  show "length (update_account k f accs') = length accs"
    using assms(1) by (simp add: writes_only_nth update_account_def)
next
  fix i assume i: "i < length accs"
  have h: "length accs' = length accs" "same_meta (accs ! i) (accs' ! i)" "ai_key (accs ! i) \<in> S \<or> accs' ! i = accs ! i"
    using assms(1) i by (simp_all add: writes_only_nth)
  have n: "update_account k f accs' ! i = (if ai_key (accs' ! i) = k then f (accs' ! i) else accs' ! i)"
    using i h(1) by (simp add: update_account_def)
  show "same_meta (accs ! i) (update_account k f accs' ! i)"
    unfolding n using h(1,2) assms(2) [of "accs' ! i"] i by (simp add: same_meta_def)
  show "ai_key (accs ! i) \<in> insert k S \<or> update_account k f accs' ! i = accs ! i"
    unfolding n using h(2,3) by (auto simp: same_meta_def)
qed

lemma writes_only_put_words:
  "writes_only S accs accs' \<Longrightarrow> ai_key a \<in> T \<Longrightarrow> S \<subseteq> T \<Longrightarrow> writes_only T accs (put a ws accs')"
  by (rule writes_only_mono [OF writes_only_put]) (auto simp: same_meta_def)

lemma writes_only_put_all:
  "writes_only S accs accs' \<Longrightarrow>
   \<forall>b\<in>set bs. (ai_key b \<in> S \<and> (\<forall>x\<in>set accs. ai_key x = ai_key b \<longrightarrow> same_meta x b))
     \<or> (\<forall>x\<in>set accs. ai_key x = ai_key b \<longrightarrow> x = b) \<Longrightarrow>
   writes_only S accs (put_all bs accs')"
proof (induction bs arbitrary: accs')
  case (Cons b bs)
  have "writes_only S accs (update_account (ai_key b) (\<lambda>_. b) accs')"
    unfolding writes_only_nth
  proof (intro conjI allI impI)
    show "length (update_account (ai_key b) (\<lambda>_. b) accs') = length accs"
      using Cons.prems(1) by (simp add: writes_only_nth update_account_def)
  next
    fix i assume i: "i < length accs"
    have h: "length accs' = length accs" "same_meta (accs ! i) (accs' ! i)" "ai_key (accs ! i) \<in> S \<or> accs' ! i = accs ! i"
      using Cons.prems(1) i by (simp_all add: writes_only_nth)
    have n: "update_account (ai_key b) (\<lambda>_. b) accs' ! i = (if ai_key (accs' ! i) = ai_key b then b else accs' ! i)"
      using i h(1) by (simp add: update_account_def)
    have k: "ai_key (accs' ! i) = ai_key (accs ! i)" "accs ! i \<in> set accs" using h(2) i by (simp_all add: same_meta_def)
    have c: "(ai_key b \<in> S \<and> (\<forall>x\<in>set accs. ai_key x = ai_key b \<longrightarrow> same_meta x b))
     \<or> (\<forall>x\<in>set accs. ai_key x = ai_key b \<longrightarrow> x = b)"
      using Cons.prems(2) by simp
    show "same_meta (accs ! i) (update_account (ai_key b) (\<lambda>_. b) accs' ! i)"
      unfolding n using h(2) k c by (cases "ai_key (accs' ! i) = ai_key b") (auto simp: same_meta_def)
    show "ai_key (accs ! i) \<in> S \<or> update_account (ai_key b) (\<lambda>_. b) accs' ! i = accs ! i"
      unfolding n using h(3) k c by (cases "ai_key (accs' ! i) = ai_key b") auto
  qed
  then show ?case using Cons.IH Cons.prems(2) by simp
qed simp

lemma writes_only_in:
  assumes "writes_only S accs accs'" "b \<in> set accs'"
  obtains a where "a \<in> set accs" "same_meta a b" "ai_key b \<in> S \<or> b = a"
  using assms by (auto simp: writes_only_nth in_set_conv_nth same_meta_def)

text \<open>The open-orders accounts that consuming events loads.\<close>

definition owned_keys :: "aligned \<Rightarrow> account_info list \<Rightarrow> aligned set" where
  "owned_keys p accs = {k. \<exists>a\<in>set accs. ai_key a = k \<and> ai_owner a = p}"

lemma writes_only_owned: "writes_only S accs accs' \<Longrightarrow> owned_keys p accs' = owned_keys p accs"
  unfolding owned_keys_def writes_only_nth by (fastforce simp: in_set_conv_nth same_meta_def)

lemma writes_only_trans:
  "writes_only S a b \<Longrightarrow> writes_only S b c \<Longrightarrow> writes_only S a c"
  unfolding writes_only_nth by (simp add: same_meta_def) metis

lemma consume_loop_writes:
  "consume_events_loop n m p accs q = Inr (accs', q') \<Longrightarrow> writes_only (owned_keys p accs) accs accs'"
proof (induction n arbitrary: accs q)
  case 0
  then show ?case using writes_only_mono [OF writes_only_refl] by auto
next
  case (Suc n)
  show ?case
  proof (cases "accs' = accs")
    case True
    then show ?thesis using writes_only_mono [OF writes_only_refl] by auto
  next
    case False
    obtain e where "peek_front event_header_ops q = Inr (Some e)"
      using Suc.prems False by (auto simp: res_simps split: option.splits)
    then obtain v i oo oo' q1 where r: "binary_search (map ai_key accs) (ev_owner e) = Some i"
      "load_orders_mut m (accs ! i) None p None = Inr oo"
      "consume_events_loop n m p (update_account (ev_owner e) (store_words (open_orders_words oo')) accs) q1
         = Inr (accs', q')"
      using Suc.prems False by (auto simp: res_simps Let_def split: option.splits)
    have i: "i < length accs" "ai_key (accs ! i) = ev_owner e"
      using r(1) search_base_range [of "length accs" 0 "map ai_key accs" "ev_owner e"]
      by (auto simp: binary_search_def Let_def split: if_splits)
    have own: "ev_owner e \<in> owned_keys p accs"
      using load_orders_run(1) [OF r(2)] i by (auto simp: owned_keys_def)
    let ?accs = "update_account (ev_owner e) (store_words (open_orders_words oo')) accs"
    have w: "writes_only (owned_keys p accs) accs ?accs"
      by (rule writes_only_mono [OF writes_only_put [OF writes_only_refl]]) (use own in \<open>simp_all add: same_meta_def\<close>)
    show ?thesis
      using writes_only_trans [OF w] Suc.IH [OF r(3)] writes_only_owned [OF w] by simp
  qed
qed

lemma check_fresh_owner: "check_fresh_accounts p as = Inr () \<Longrightarrow> a \<in> set as \<Longrightarrow> ai_owner a = p"
  by (induction as) (auto simp: check_fresh_account_def Let_def res_simps)

lemma init_accounts_meta:
  "init_request_queue acc = Inr acc' \<Longrightarrow> same_meta acc acc'"
  "init_event_queue acc = Inr acc' \<Longrightarrow> same_meta acc acc'"
  "init_side f acc = Inr acc' \<Longrightarrow> same_meta acc acc'"
  "init_market_account m acc = Inr acc' \<Longrightarrow> same_meta acc acc'"
  by (auto simp: init_request_queue_def init_event_queue_def init_side_def init_market_account_def
      res_simps same_meta_def split: if_splits)

lemma initialize_writes:
  assumes "initialize_market_args_new ch p x accounts = Inr a" "process_initialize_market a = Inr bs"
    and "b \<in> set bs"
  obtains c where "c \<in> set accounts" "same_meta c b" "ai_owner c = p"
proof -
  have a: "ima_accounts a = take 5 accounts" "length accounts = 9" "check_fresh_accounts p (take 5 accounts) = Inr ()"
    using assms(1) by (auto simp: initialize_market_args_new_def res_simps)
  obtain m rq eq bi as mm where r: "init_request_queue (take 5 accounts ! 1) = Inr rq"
    "init_event_queue (take 5 accounts ! 2) = Inr eq" "init_side AF_Bids (take 5 accounts ! 3) = Inr bi"
    "init_side AF_Asks (take 5 accounts ! 4) = Inr as" "init_market_account mm (take 5 accounts ! 0) = Inr m"
    "bs = [m, rq, eq, bi, as]"
    using assms(2) unfolding process_initialize_market_def Let_def a(1) by (auto simp only: and_then_eq_Inr sum.inject)
  note metas = init_accounts_meta(1) [OF r(1)] init_accounts_meta(2) [OF r(2)] init_accounts_meta(3) [OF r(3)]
    init_accounts_meta(3) [OF r(4)] init_accounts_meta(4) [OF r(5)]
  have "\<exists>j\<in>{0, 1, 2, 3, 4 :: nat}. same_meta (take 5 accounts ! j) b"
    using assms(3) metas unfolding r(6) by (simp only: list.set insert_iff empty_iff bex_simps) blast
  then obtain j where j0: "j \<in> {0, 1, 2, 3, 4}" "same_meta (take 5 accounts ! j) b" by (rule bexE)
  then have j: "j < 5" "same_meta (take 5 accounts ! j) b" by auto
  then have "take 5 accounts ! j \<in> set (take 5 accounts)" using a(2) by (intro nth_mem) simp
  then show thesis
    using that check_fresh_owner [OF a(3)] j(2) in_set_takeD by metis
qed

text \<open>What a market account in the list entitles the program to write.\<close>

definition writable_keys :: "aligned \<Rightarrow> account_info list \<Rightarrow> aligned set" where
  "writable_keys p accounts = owned_keys p accounts \<union>
     {k. \<exists>a\<in>set accounts. \<exists>m. load_market p a = Inr m \<and> k \<in> {ms_req_q m, ms_event_q m, ms_bids m, ms_asks m}}"

lemma load_market_writable:
  assumes "load_market p (accounts ! j) = Inr m" "j < length accounts"
  shows "ai_key (accounts ! j) \<in> writable_keys p accounts" "ms_req_q m \<in> writable_keys p accounts"
    "ms_event_q m \<in> writable_keys p accounts" "ms_bids m \<in> writable_keys p accounts" "ms_asks m \<in> writable_keys p accounts"
  using assms load_market_run(1) [OF assms(1)] nth_mem [OF assms(2)]
  unfolding writable_keys_def owned_keys_def by blast+

lemma load_orders_writable:
  assumes "load_orders_mut m (accounts ! j) ow p rent = Inr oo" "j < length accounts"
  shows "ai_key (accounts ! j) \<in> writable_keys p accounts"
  using load_orders_run(1) [OF assms(1)] nth_mem [OF assms(2)] unfolding writable_keys_def owned_keys_def by blast

lemma load_keys:
  "load_request_queue_mut m acc = Inr rq \<Longrightarrow> ai_key acc = ms_req_q m"
  "load_event_queue_mut m acc = Inr eq \<Longrightarrow> ai_key acc = ms_event_q m"
  "load_bids_mut m acc = Inr s \<Longrightarrow> ai_key acc = ms_bids m"
  "load_asks_mut m acc = Inr s \<Longrightarrow> ai_key acc = ms_asks m"
  by (auto simp: load_request_queue_mut_def load_event_queue_mut_def load_bids_mut_def load_asks_mut_def
      check_or_code_def res_simps)

lemma writes_put:
  assumes "writes_only (writable_keys p accounts) accounts accs'" "ai_key a \<in> writable_keys p accounts"
  shows "writes_only (writable_keys p accounts) accounts (put a ws accs')"
  by (rule writes_only_put_words [OF assms order_refl])

lemma new_order_keys:
  assumes "new_order_args_parse ch p inst accounts = Inr a"
  shows "\<forall>j\<in>{0, 1, 2}. ai_key (accounts ! j) \<in> writable_keys p accounts"
proof -
  note n = new_order_parse [OF assms]
  have l: "0 < length accounts" "1 < length accounts" using n(10) by linarith+
  obtain rent where o: "load_orders_mut (noa_market a) (accounts ! 1) (Some (accounts ! 4)) p rent = Inr (noa_open_orders a)"
    using n(5) by blast
  show ?thesis
    using load_market_writable(1,2) [OF n(4) l(1)] load_orders_writable [OF o l(2)] load_keys(1) [OF n(6)] by simp
qed

lemma cancel_keys:
  assumes "cancel_args_parse line p accounts inst = Inr a"
  shows "\<forall>j\<in>{1, 2}. ai_key (accounts ! j) \<in> writable_keys p accounts"
proof -
  note n = cancel_parse [OF assms]
  have l: "0 < length accounts" "1 < length accounts" using n(3) by linarith+
  obtain m where m: "load_market p (accounts ! 0) = Inr m"
    "load_orders_mut m (accounts ! 1) (Some (accounts ! 3)) p None = Inr (ca_open_orders a)"
    "load_request_queue_mut m (accounts ! 2) = Inr (ca_req_q a)"
    using n(4) by blast
  show ?thesis
    using load_market_writable(2) [OF m(1) l(1)] load_orders_writable [OF m(2) l(2)] load_keys(1) [OF m(3)] by simp
qed

lemma settle_keys:
  assumes "settle_funds_args_parse ch p accounts = Inr a"
  shows "\<forall>j\<in>{0, 1}. ai_key (accounts ! j) \<in> writable_keys p accounts"
proof -
  note n = settle_parse [OF assms]
  have l: "0 < length accounts" "1 < length accounts" using n(3) by linarith+
  show ?thesis
    using load_market_writable(1) [OF n(2) l(1)] load_orders_writable [OF n(4) l(2)] by simp
qed

lemma match_keys:
  assumes "match_orders_args_parse p accounts limit = Inr a"
  shows "\<forall>j\<in>{0, 1, 2, 3, 4}. ai_key (accounts ! j) \<in> writable_keys p accounts"
proof -
  note n = match_parse [OF assms]
  have l: "0 < length accounts" using n(2) by linarith
  show ?thesis
    using load_market_writable [OF n(1) l] load_keys(1) [OF n(4)] load_keys(2) [OF n(5)] load_keys(3) [OF n(6)]
      load_keys(4) [OF n(7)] by simp
qed

text \<open>The five kinds of instruction, by what they write.\<close>

lemma writable_refl: "writes_only (writable_keys p accounts) accounts accounts"
  by (rule writes_only_mono [OF writes_only_refl]) simp

lemma coherent_meta:
  assumes "coherent accounts" "c \<in> set accounts" "same_meta c b" "x \<in> set accounts" "ai_key x = ai_key b"
  shows "same_meta x b"
  using assms unfolding coherent_def same_meta_def by metis

lemma run_initialize_writes:
  assumes "initialize_market_args_new ch p inst accounts = Inr a" "process_initialize_market a = Inr bs"
    and "coherent accounts"
  shows "writes_only (writable_keys p accounts) accounts (put_all bs accounts)"
proof (rule writes_only_put_all [OF writable_refl], intro ballI)
  let ?W = "writable_keys p accounts"
  fix b assume "b \<in> set bs"
  then obtain c where c: "c \<in> set accounts" "same_meta c b" "ai_owner c = p"
    by (rule initialize_writes [OF assms(1,2)])
  then have "ai_key b \<in> ?W" by (auto simp: writable_keys_def owned_keys_def same_meta_def)
  then show "(ai_key b \<in> ?W \<and> (\<forall>x\<in>set accounts. ai_key x = ai_key b \<longrightarrow> same_meta x b))
    \<or> (\<forall>x\<in>set accounts. ai_key x = ai_key b \<longrightarrow> x = b)"
    using coherent_meta [OF assms(3) c(1,2)] by blast
qed

lemma run_new_order_writes:
  assumes "run_new_order ch tp p accounts inst l = Inr (accs', l')"
  shows "writes_only (writable_keys p accounts) accounts accs'"
proof -
  obtain a m oo q where r: "new_order_args_parse ch p inst accounts = Inr a"
    "accs' = put (accounts ! 2) q (put (accounts ! 1) oo (put (accounts ! 0) m accounts))"
    using assms by (auto simp: run_new_order_def res_simps)
  show ?thesis unfolding r(2)
    using new_order_keys [OF r(1)] by (intro writes_put writable_refl) simp_all
qed

lemma run_cancel_writes:
  assumes "cancel_args_parse n p accounts inst = Inr a"
  shows "writes_only (writable_keys p accounts) accounts (put (accounts ! 2) w2 (put (accounts ! 1) w1 accounts))"
  using cancel_keys [OF assms] by (intro writes_put writable_refl) simp_all

lemma run_consume_writes:
  assumes "consume_events_args_parse p accounts limit = Inr a" "process_consume_events a = Inr (bs, q')"
    and "coherent accounts"
  shows "writes_only (writable_keys p accounts) accounts
    (put (accounts ! (length accounts - 3)) w (put_all bs accounts))"
proof (rule writes_put)
  let ?W = "writable_keys p accounts" and ?as = "take (length accounts - 4) accounts"
  note n = consume_parse [OF assms(1)]
  have len: "length accounts - 4 < length accounts" "length accounts - 4 + 1 = length accounts - 3"
    using n(1) by linarith+
  show "ai_key (accounts ! (length accounts - 3)) \<in> ?W"
    using load_keys(2) [OF n(6)] load_market_writable(3) [OF n(5) len(1)] len(2) by simp
  have w: "writes_only (owned_keys p ?as) ?as bs"
    using consume_loop_writes assms(2) n(3,4) unfolding process_consume_events_def by metis
  show "writes_only ?W accounts (put_all bs accounts)"
  proof (rule writes_only_put_all [OF writable_refl], intro ballI)
    fix b assume "b \<in> set bs"
    then obtain c where c: "c \<in> set ?as" "same_meta c b" "ai_key b \<in> owned_keys p ?as \<or> b = c"
      by (rule writes_only_in [OF w])
    have "x = c" if "x \<in> set accounts" "ai_key x = ai_key b" for x
      using assms(3) in_set_takeD [OF c(1)] c(2) that unfolding coherent_def same_meta_def by metis
    moreover have "owned_keys p ?as \<subseteq> ?W"
      unfolding owned_keys_def writable_keys_def by (auto dest: in_set_takeD)
    ultimately show "(ai_key b \<in> ?W \<and> (\<forall>x\<in>set accounts. ai_key x = ai_key b \<longrightarrow> same_meta x b))
      \<or> (\<forall>x\<in>set accounts. ai_key x = ai_key b \<longrightarrow> x = b)"
      using coherent_meta [OF assms(3) in_set_takeD [OF c(1)] c(2)] c(3) by blast
  qed
qed

lemma run_match_writes:
  assumes "match_orders_args_parse p accounts limit = Inr a"
  shows "writes_only (writable_keys p accounts) accounts
    (put (accounts ! 4) w4 (put (accounts ! 3) w3 (put (accounts ! 2) w2 (put (accounts ! 1) w1
      (put (accounts ! 0) w0 accounts)))))"
  using match_keys [OF assms] by (intro writes_put writable_refl) simp_all

lemma run_market_writes:
  assumes "load_market p (accounts ! 0) = Inr m" "0 < length accounts"
  shows "writes_only (writable_keys p accounts) accounts (put (accounts ! 0) w0 accounts)"
  by (intro writes_put writable_refl load_market_writable(1) [OF assms])

lemma run_settle_writes:
  assumes "settle_funds_args_parse ch p accounts = Inr a"
  shows "writes_only (writable_keys p accounts) accounts (put (accounts ! 1) w1 (put (accounts ! 0) w0 accounts))"
  using settle_keys [OF assms] by (intro writes_put writable_refl) simp_all

text \<open>
  Claim C16: whatever the instruction, a successful run keeps every account's key, owner, signature
  and lamports and changes the data only of accounts that the program owns, or that a market
  account of the program in the list names as its queues or book sides.
\<close>

theorem process_writes_own_accounts:
  assumes "process ch tp p accounts input l = Inr (accs', l')" and "coherent accounts"
  shows "writes_only (writable_keys p accounts) accounts accs'"
proof -
  obtain i where i: "unpack input = Some i" using assms(1) by (auto simp: process_def res_simps)
  note run = assms(1) i
  show ?thesis
  proof (cases i)
    case (InitializeMarket x)
    with run show ?thesis using run_initialize_writes [of ch p x accounts] assms(2) by (auto simp: process_def res_simps)
  next
    case (NewOrder x)
    with run show ?thesis by (auto simp: process_def intro: run_new_order_writes)
  next
    case (NewOrderV2 x)
    with run show ?thesis by (auto simp: process_def intro: run_new_order_writes)
  next
    case (MatchOrders x)
    with run show ?thesis using run_match_writes [of p accounts x] by (auto simp: process_def res_simps)
  next
    case (ConsumeEvents x)
    with run show ?thesis using run_consume_writes [of p accounts x] assms(2) by (auto simp: process_def res_simps)
  next
    case (CancelOrder x)
    with run show ?thesis using run_cancel_writes [of _ p accounts] by (auto simp: process_def cancel_order_args_parse_def res_simps)
  next
    case SettleFunds
    with run show ?thesis using run_settle_writes [of ch p accounts] by (auto simp: process_def res_simps)
  next
    case (CancelOrderByClientId x)
    with run show ?thesis using run_cancel_writes [of _ p accounts]
      by (auto simp: process_def cancel_order_by_client_id_args_parse_def res_simps)
  next
    case DisableMarket
    with run obtain m w where "disable_market_args_parse ch p accounts = Inr m" "accs' = put (accounts ! 0) w accounts"
      by (auto simp: process_def res_simps)
    with disable_parse [OF this(1)] show ?thesis by (auto intro: run_market_writes)
  next
    case SweepFees
    with run obtain a w where "sweep_fees_args_parse ch p accounts = Inr a" "accs' = put (accounts ! 0) w accounts"
      by (auto simp: process_def res_simps)
    with sweep_parse [OF this(1)] show ?thesis by (auto intro: run_market_writes)
  qed
qed

theorem process_writes_own_accounts_witness:
  "writes_only (writable_keys (30, 0, 0, 0) [sample_market_account, sample_authority])
     [sample_market_account, sample_authority]
     [store_words (market_words (process_disable_market sample_market)) sample_market_account, sample_authority]"
  by (rule process_writes_own_accounts [OF sample_disable_run])
    (simp add: coherent_def sample_market_account_def sample_authority_def)

end
