(* ===== verification/Launch.thy ===== *)
theory Launch
  imports Storage
begin

text \<open>
  What \<open>process_initialize_market\<close> leaves behind: five accounts that every later instruction
  loads as a market with empty queues and an empty book.
\<close>

subsection \<open>Blank words\<close>

lemma chunks_in: "c \<in> set (chunks n d) \<Longrightarrow> length c = n \<and> set c \<subseteq> set d"
proof (induction n d rule: chunks.induct)
  case (1 n d)
  have "c \<in> set (take n d # chunks n (drop n d))" and n: "\<not> (n = 0 \<or> length d < n)"
    using 1(2) by (subst (asm) chunks.simps, simp split: if_splits)+
  then consider "c = take n d" | "c \<in> set (chunks n (drop n d))" by auto
  then show ?case
  proof cases
    case 1
    then show ?thesis using n by (auto dest: in_set_takeD)
  next
    case 2
    then show ?thesis using "1.IH" [OF n 2] by (auto dest: in_set_dropD)
  qed
qed

lemma length_chunks: "length (chunks n d) \<le> length d"
proof (induction n d rule: chunks.induct)
  case (1 n d)
  show ?case
  proof (cases "n = 0 \<or> length d < n")
    case True
    then show ?thesis by (subst chunks.simps) simp
  next
    case False
    have "length (chunks n d) = Suc (length (chunks n (drop n d)))"
      using False by (subst chunks.simps) simp
    then show ?thesis using 1 [OF False] False by simp linarith
  qed
qed

lemma words_of_zeros: "words_of_bytes d = Some ws \<Longrightarrow> set d \<subseteq> {0} \<Longrightarrow> set ws \<subseteq> {0}"
  by (induction d arbitrary: ws rule: words_of_bytes.induct) (auto simp: u64_of_le_def)

lemma init_padding_words:
  assumes "init_account_padding d = Inr (d', ws)"
  shows "words_of_bytes (fst (snd (split_padding d))) = Some ws" "length ws \<le> length d"
proof -
  show w: "words_of_bytes (fst (snd (split_padding d))) = Some ws"
    using assms by (auto simp: init_account_padding_def res_simps split: prod.splits)
  show "length ws \<le> length d" using words_of_bytes_length [OF w] by (simp add: split_padding_def)
qed

lemma init_padding_zeros:
  assumes "init_account_padding d = Inr (d', ws)" "set d \<subseteq> {0}"
  shows "set ws \<subseteq> {0}"
proof (rule words_of_zeros [OF init_padding_words(1) [OF assms(1)]])
  show "set (fst (snd (split_padding d))) \<subseteq> {0}"
    using assms(2) by (auto simp: split_padding_def dest!: in_set_takeD in_set_dropD)
qed

lemma node_of_zeros: "length c = 9 \<Longrightarrow> set c \<subseteq> {0} \<Longrightarrow> node_of_words c = Uninitialized"
proof -
  assume "length c = 9" "set c \<subseteq> {0}"
  then have "c = node_words Uninitialized" by (auto intro!: replicate_eqI)
  then show ?thesis by (simp only: node_of_words_words)
qed

lemma blank_slab_words:
  assumes "set ws \<subseteq> {0}" "4 \<le> length ws"
  shows "\<exists>n. slab_of_words ws = Some (blank_slab n) \<and> n \<le> length ws"
proof -
  have ne: "ws \<noteq> []" using assms(2) by auto
  have z: "ws ! i = 0" if "i < length ws" for i using assms(1) nth_mem [OF that] by auto
  have "map node_of_words (chunks 9 (drop 4 ws)) = replicate (length (chunks 9 (drop 4 ws))) Uninitialized"
    by (rule replicate_eqI) (use chunks_in node_of_zeros assms(1) in \<open>fastforce dest: in_set_dropD\<close>)+
  then have "slab_of_words ws = Some (blank_slab (length (chunks 9 (drop 4 ws))))"
    using assms(2) ne z [of 0] z [of 1] z [of 2] z [of 3]
    by (simp add: slab_of_words_def blank_slab_def slab_clear_def low_half_def high_half_def)
  then show ?thesis using length_chunks [of 9 "drop 4 ws"] by (intro exI conjI) auto
qed

subsection \<open>The five accounts\<close>

lemma stored_words:
  assumes "inner_words (ai_data acc) = ws0"
  shows "strip_account_padding b (ai_data (store_words ws acc)) =
    Inr (ai_data (store_words ws acc), ws @ drop (length ws) ws0)"
  using assms by (simp add: store_words_def strip_padding_stored)

lemma flags_check: "account_flags_from_bits f = Some f \<Longrightarrow> check_header_flags line f f = Inr ()"
  by (simp add: check_header_flags_def check_assert_def)

lemma init_flags:
  "account_flags_from_bits (AF_Initialized OR AF_RequestQueue) = Some (AF_Initialized OR AF_RequestQueue)"
  "account_flags_from_bits (AF_Initialized OR AF_EventQueue) = Some (AF_Initialized OR AF_EventQueue)"
  "account_flags_from_bits (AF_Initialized OR AF_Bids) = Some (AF_Initialized OR AF_Bids)"
  "account_flags_from_bits (AF_Initialized OR AF_Asks) = Some (AF_Initialized OR AF_Asks)"
  "account_flags_from_bits (AF_Initialized OR AF_Market) = Some (AF_Initialized OR AF_Market)"
  by (simp_all add: account_flags_from_bits_def flags_contain_def account_flag_defs)

lemma init_request_queue_loads:
  assumes "init_request_queue acc = Inr acc'" "ai_key acc = ms_req_q m" "length (ai_data acc) < 2 ^ 32"
  obtains q where "load_request_queue_mut m acc' = Inr q" "queue_inv request_header_ops q"
    "queue_list request_header_ops q = []" "q_buf q \<noteq> []"
proof -
  let ?h = "\<lparr>rqh_account_flags = AF_Initialized OR AF_RequestQueue, rqh_head = 0, rqh_count = 0,
        rqh_next_seq_num = 0\<rparr>"
  obtain d ws where w: "init_account_padding (ai_data acc) = Inr (d, ws)" "4 \<le> length ws"
    "chunks 10 (drop 4 ws) \<noteq> []" "acc' = store_words (request_header_words ?h) acc"
    using assms(1) by (auto simp: init_request_queue_def res_simps split: if_splits)
  let ?q = "\<lparr>q_header = ?h, q_buf = map request_of_words (chunks 10 (drop 4 ws))\<rparr>"
  have "strip_account_padding False (ai_data acc') = Inr (ai_data acc', request_header_words ?h @ drop 4 ws)"
    using stored_words [OF init_padding_inner [OF w(1)], of False "request_header_words ?h"]
    by (simp add: w(4) request_header_words_def numeral_eq_Suc)
  moreover have "request_queue_of_words (request_header_words ?h @ drop 4 ws) = Some ?q"
    by (simp add: request_queue_of_words_def queue_of_words_def request_header_words_def request_header_of_words_def)
  ultimately have "load_request_queue_mut m acc' = Inr ?q"
    using assms(2) w(4) by (simp add: load_request_queue_mut_def check_or_code_def flags_check init_flags)
  moreover have "length (chunks 10 (drop 4 ws)) < 2 ^ 32"
    using length_chunks [of 10 "drop 4 ws"] init_padding_words(2) [OF w(1)] assms(3) by simp
  ultimately show thesis
    by (intro that [of ?q]) (use w(3) in \<open>simp_all add: queue_inv_def queue_list_def request_header_ops_def\<close>)
qed

lemma init_event_queue_loads:
  assumes "init_event_queue acc = Inr acc'" "ai_key acc = ms_event_q m" "length (ai_data acc) < 2 ^ 32"
  obtains q where "load_event_queue_mut m acc' = Inr q" "queue_inv event_header_ops q"
    "queue_list event_header_ops q = []" "128 \<le> length (q_buf q)"
proof -
  let ?h = "\<lparr>eqh_account_flags = AF_Initialized OR AF_EventQueue, eqh_head = 0, eqh_count = 0, eqh_seq_num = 0\<rparr>"
  obtain d ws where w: "init_account_padding (ai_data acc) = Inr (d, ws)" "4 < length ws"
    "128 \<le> length (chunks 11 (drop 4 ws))" "acc' = store_words (event_header_words ?h) acc"
    using assms(1) by (auto simp: init_event_queue_def res_simps check_assert_def split: if_splits)
  let ?q = "\<lparr>q_header = ?h, q_buf = map event_of_words (chunks 11 (drop 4 ws))\<rparr>"
  have "strip_account_padding False (ai_data acc') = Inr (ai_data acc', event_header_words ?h @ drop 4 ws)"
    using stored_words [OF init_padding_inner [OF w(1)], of False "event_header_words ?h"]
    by (simp add: w(4) event_header_words_def numeral_eq_Suc)
  moreover have "event_queue_of_words (event_header_words ?h @ drop 4 ws) = Some ?q"
    by (simp add: event_queue_of_words_def queue_of_words_def event_header_words_def event_header_of_words_def)
  ultimately have "load_event_queue_mut m acc' = Inr ?q"
    using assms(2) w(4) by (simp add: load_event_queue_mut_def check_or_code_def flags_check init_flags)
  moreover have "length (chunks 11 (drop 4 ws)) < 2 ^ 32"
    using length_chunks [of 11 "drop 4 ws"] init_padding_words(2) [OF w(1)] assms(3) by simp
  moreover have "chunks 11 (drop 4 ws) \<noteq> []" using w(3) by auto
  ultimately show thesis
    by (intro that [of ?q]) (use w(3) in \<open>simp_all add: queue_inv_def queue_list_def event_header_ops_def\<close>)
qed

lemma init_side_loads:
  assumes "init_side flag acc = Inr acc'" "set (ai_data acc) \<subseteq> {0}" "length (ai_data acc) < 2 ^ 32"
    and "account_flags_from_bits (AF_Initialized OR flag) = Some (AF_Initialized OR flag)"
  obtains s where "load_side line flag acc' = Inr s" "slab_inv s" "slab_orders s = Map.empty" "200 < slab_capacity s"
proof -
  obtain d ws s where w: "init_account_padding (ai_data acc) = Inr (d, ws)" "1 < length ws"
    "slab_of_words (drop 1 ws) = Some s" "slab_assert_minimum_capacity 100 s = Inr ()"
    "acc' = store_words [AF_Initialized OR flag] acc"
    using assms(1) by (auto simp: init_side_def res_simps)
  have z: "set (drop 1 ws) \<subseteq> {0}" using init_padding_zeros [OF w(1) assms(2)] by (auto dest: in_set_dropD)
  have "4 \<le> length (drop 1 ws)" using w(3) by (simp add: slab_of_words_def split: if_splits)
  then obtain n where n: "s = blank_slab n" "n \<le> length (drop 1 ws)"
    using blank_slab_words [OF z] w(3) by auto
  then have lt: "n < 2 ^ 32" using init_padding_words(2) [OF w(1)] assms(3) by simp
  have "strip_account_padding False (ai_data acc') = Inr (ai_data acc', (AF_Initialized OR flag) # drop 1 ws)"
    using stored_words [OF init_padding_inner [OF w(1)], of False "[AF_Initialized OR flag]"] by (simp add: w(5))
  then have "load_side line flag acc' = Inr s"
    using w(3) by (simp add: load_side_def flags_check [OF assms(4)])
  moreover have "200 < slab_capacity s"
    using w(4) by (simp add: slab_assert_minimum_capacity_def slab_capacity_def split: if_splits)
  ultimately show thesis using blank_slab_inv [OF lt] blank_slab_orders [OF lt] n(1) by (intro that [of s]) simp_all
qed

lemma init_market_loads:
  assumes "init_market_account m acc = Inr acc'" "ai_owner acc = p"
    and "ms_account_flags m = AF_Initialized OR AF_Market"
  shows "load_market p acc' = Inr m"
proof -
  obtain d ws where w: "init_account_padding (ai_data acc) = Inr (d, ws)" "length ws = 47"
    "acc' = store_words (market_words m) acc"
    using assms(1) by (auto simp: init_market_account_def res_simps check_assert_def split: if_splits)
  have "length (market_words m) = 47" by (simp add: market_words_def layout_defs split: prod.splits)
  then have "ai_data acc' = ACCOUNT_HEAD_PADDING @ bytes_of_words (market_words m) @ ACCOUNT_TAIL_PADDING"
    unfolding w(3) by (intro store_words_all [OF init_padding_inner [OF w(1)]]) (simp add: w(2))
  then show ?thesis
    using assms(2,3) w(3)
    by (simp add: load_market_def check_padding_stored market_layout ms_check_flags_def init_flags)
qed

subsection \<open>The property\<close>

lemma check_fresh_owner5:
  assumes "initialize_market_args_new ch p inst accounts = Inr a"
  shows "ima_accounts a = take 5 accounts" "length accounts = 9" "ai_owner (accounts ! 0) = p"
    "ima_instruction a = inst"
proof -
  have a: "ima_accounts a = take 5 accounts" "length accounts = 9" "check_fresh_accounts p (take 5 accounts) = Inr ()"
    "ima_instruction a = inst"
    using assms by (auto simp: initialize_market_args_new_def res_simps)
  then show "ima_accounts a = take 5 accounts" "length accounts = 9" "ima_instruction a = inst" by simp_all
  show "ai_owner (accounts ! 0) = p"
    using a(2,3) by (cases accounts) (auto simp: check_fresh_account_def Let_def res_simps)
qed

text \<open>
  Five accounts that every later instruction loads as the market \<open>m\<close>, with empty queues and an
  empty book.
\<close>

definition launched :: "aligned \<Rightarrow> market_state \<Rightarrow> account_info list \<Rightarrow> bool" where
  "launched p m accs \<longleftrightarrow>
    (\<exists>market req_q event_q bids asks rq eq b s. accs = [market, req_q, event_q, bids, asks] \<and>
       load_market p market = Inr m \<and>
       load_request_queue_mut m req_q = Inr rq \<and> load_event_queue_mut m event_q = Inr eq \<and>
       load_bids_mut m bids = Inr b \<and> load_asks_mut m asks = Inr s \<and>
       queue_inv request_header_ops rq \<and> queue_list request_header_ops rq = [] \<and> q_buf rq \<noteq> [] \<and>
       queue_inv event_header_ops eq \<and> queue_list event_header_ops eq = [] \<and> 128 \<le> length (q_buf eq) \<and>
       slab_inv b \<and> slab_orders b = Map.empty \<and> 200 < slab_capacity b \<and>
       slab_inv s \<and> slab_orders s = Map.empty \<and> 200 < slab_capacity s)"

lemma initialized_launched:
  assumes "initialize_market_args_new ch p inst accounts = Inr a" "process_initialize_market a = Inr accs"
    and z: "\<And>j. j < 5 \<Longrightarrow> set (ai_data (accounts ! j)) \<subseteq> {0}" "\<And>j. j < 5 \<Longrightarrow> length (ai_data (accounts ! j)) < 2 ^ 32"
  shows "launched p (initial_market a) accs"
proof -
  note n = check_fresh_owner5 [OF assms(1)]
  let ?m = "initial_market a"
  obtain market req_q event_q bids asks where accs: "accs = [market, req_q, event_q, bids, asks]"
    and r: "init_request_queue (accounts ! 1) = Inr req_q" "init_event_queue (accounts ! 2) = Inr event_q"
    "init_side AF_Bids (accounts ! 3) = Inr bids" "init_side AF_Asks (accounts ! 4) = Inr asks"
    "init_market_account ?m (accounts ! 0) = Inr market"
    using assms(2) n(1) by (auto simp: process_initialize_market_def Let_def res_simps)
  have m: "ms_req_q ?m = ai_key (accounts ! 1)" "ms_event_q ?m = ai_key (accounts ! 2)"
    "ms_bids ?m = ai_key (accounts ! 3)" "ms_asks ?m = ai_key (accounts ! 4)"
    "ms_account_flags ?m = AF_Initialized OR AF_Market"
    using n(1,4) by (simp_all add: initial_market_def Let_def)
  have lm: "load_market p market = Inr ?m" by (rule init_market_loads [OF r(5) n(3) m(5)])
  obtain rq where rq: "load_request_queue_mut ?m req_q = Inr rq" "queue_inv request_header_ops rq"
    "queue_list request_header_ops rq = []" "q_buf rq \<noteq> []"
    by (rule init_request_queue_loads [OF r(1) m(1) [symmetric] z(2)]) simp_all
  obtain eq where eq: "load_event_queue_mut ?m event_q = Inr eq" "queue_inv event_header_ops eq"
    "queue_list event_header_ops eq = []" "128 \<le> length (q_buf eq)"
    by (rule init_event_queue_loads [OF r(2) m(2) [symmetric] z(2)]) simp_all
  obtain b where b: "load_side 268 AF_Bids bids = Inr b" "slab_inv b" "slab_orders b = Map.empty" "200 < slab_capacity b"
    by (rule init_side_loads [OF r(3) z(1,2) init_flags(3)]) simp_all
  obtain s where s: "load_side 277 AF_Asks asks = Inr s" "slab_inv s" "slab_orders s = Map.empty" "200 < slab_capacity s"
    by (rule init_side_loads [OF r(4) z(1,2) init_flags(4)]) simp_all
  have "ai_key bids = ai_key (accounts ! 3)" "ai_key asks = ai_key (accounts ! 4)"
    using r(3,4) by (auto simp: init_side_def res_simps)
  then have "load_bids_mut ?m bids = Inr b" "load_asks_mut ?m asks = Inr s"
    using b(1) s(1) m(3,4) by (simp_all add: load_bids_mut_def load_asks_mut_def check_or_code_def)
  then show ?thesis using accs lm rq eq b(2-4) s(2-4) unfolding launched_def by blast
qed

text \<open>
  Claim C34: initialising a market on accounts of zeros leaves five accounts that every later
  instruction loads: a market with nothing deposited, accrued or owed and the lot sizes asked
  for, an empty request queue with room for a request, an empty event queue with room for 128
  events, and two well-formed empty sides with room for more than 200 nodes.
\<close>

theorem initialize_market_loads:
  assumes "initialize_market_args_new ch p inst accounts = Inr a"
    and "process_initialize_market a = Inr [market, req_q, event_q, bids, asks]"
    and "\<forall>j<5. set (ai_data (accounts ! j)) \<subseteq> {0} \<and> length (ai_data (accounts ! j)) < 2 ^ 32"
  shows "load_market p market = Inr (initial_market a) \<and>
    (\<exists>rq eq b s. load_request_queue_mut (initial_market a) req_q = Inr rq \<and>
       load_event_queue_mut (initial_market a) event_q = Inr eq \<and>
       load_bids_mut (initial_market a) bids = Inr b \<and> load_asks_mut (initial_market a) asks = Inr s \<and>
       queue_inv request_header_ops rq \<and> queue_list request_header_ops rq = [] \<and> q_buf rq \<noteq> [] \<and>
       queue_inv event_header_ops eq \<and> queue_list event_header_ops eq = [] \<and> 128 \<le> length (q_buf eq) \<and>
       slab_inv b \<and> slab_orders b = Map.empty \<and> 200 < slab_capacity b \<and>
       slab_inv s \<and> slab_orders s = Map.empty \<and> 200 < slab_capacity s) \<and>
    ms_pc_lot_size (initial_market a) = im_pc_lot_size inst \<and>
    ms_coin_lot_size (initial_market a) = im_coin_lot_size inst \<and>
    ms_pc_deposits_total (initial_market a) = 0 \<and> ms_coin_deposits_total (initial_market a) = 0 \<and>
    ms_pc_fees_accrued (initial_market a) = 0 \<and> ms_referrer_rebates_accrued (initial_market a) = 0"
proof -
  note n = check_fresh_owner5 [OF assms(1)]
  have fields: "ms_pc_lot_size (initial_market a) = im_pc_lot_size inst"
    "ms_coin_lot_size (initial_market a) = im_coin_lot_size inst"
    "ms_pc_deposits_total (initial_market a) = 0" "ms_coin_deposits_total (initial_market a) = 0"
    "ms_pc_fees_accrued (initial_market a) = 0" "ms_referrer_rebates_accrued (initial_market a) = 0"
    using n(1,4) by (simp_all add: initial_market_def Let_def)
  have "launched p (initial_market a) [market, req_q, event_q, bids, asks]"
    by (rule initialized_launched [OF assms(1,2)]) (use assms(3) in blast)+
  then show ?thesis using fields by (auto simp: launched_def)
qed

text \<open>Nine accounts on which the initialisation runs.\<close>

lemma words_of_replicate: "words_of_bytes (replicate (8 * k) 0) = Some (replicate k 0)"
proof -
  have "bytes_of_words (replicate k 0) = replicate (8 * k) 0"
  proof (induction k)
    case (Suc k)
    have "u64_to_le 0 = replicate 8 0" by (simp add: u64_to_le_def numeral_eq_Suc)
    then show ?case using Suc by (simp add: bytes_of_words_def replicate_add [symmetric])
  qed (simp add: bytes_of_words_def)
  then show ?thesis by (metis words_of_bytes_of_words)
qed

lemma init_padding_replicate:
  "init_account_padding (replicate (12 + 8 * k) 0) =
    Inr (ACCOUNT_HEAD_PADDING @ replicate (8 * k) 0 @ ACCOUNT_TAIL_PADDING, replicate k 0)"
  by (simp add: init_account_padding_def split_padding_def check_assert_def words_of_replicate)

lemma chunks_replicate: "0 < n \<Longrightarrow> length (chunks n (replicate (n * k) x)) = k"
  by (induction k; subst chunks.simps) (simp_all add: replicate_add)

definition blank_account :: "u64 \<Rightarrow> nat \<Rightarrow> account_info" where
  "blank_account k n =
     \<lparr>ai_key = (k, 0, 0, 0), ai_owner = (30, 0, 0, 0), ai_is_signer = False, ai_lamports = 100000,
      ai_data = replicate (12 + 8 * n) 0\<rparr>"

definition sample_vault_account :: "u64 \<Rightarrow> u64 \<Rightarrow> account_info" where
  "sample_vault_account k mint =
     \<lparr>ai_key = (k, 0, 0, 0), ai_owner = (6, 0, 0, 0), ai_is_signer = False, ai_lamports = 100000,
      ai_data = aligned_bytes (mint, 0, 0, 0) @ aligned_bytes (19, 0, 0, 0) @ replicate 44 0 @ [1] @ replicate 56 0\<rparr>"

definition sample_mint_account :: "u64 \<Rightarrow> account_info" where
  "sample_mint_account k =
     \<lparr>ai_key = (k, 0, 0, 0), ai_owner = (6, 0, 0, 0), ai_is_signer = False, ai_lamports = 100000,
      ai_data = replicate 45 0 @ [1] @ replicate 36 0\<rparr>"

definition sample_launch_accounts :: "account_info list" where
  "sample_launch_accounts =
     [blank_account 1 47, blank_account 15 (4 + 10 * 1), blank_account 16 (4 + 11 * 128),
      blank_account 17 (1 + (4 + 9 * 201)), blank_account 18 (1 + (4 + 9 * 201)),
      sample_vault_account 13 11, sample_vault_account 14 12, sample_mint_account 11, sample_mint_account 12]"

definition sample_launch_instruction :: initialize_market_instruction where
  "sample_launch_instruction =
     \<lparr>im_coin_lot_size = 10, im_pc_lot_size = 100, im_fee_rate_bps = 0, im_vault_signer_nonce = 0,
      im_pc_dust_threshold = 10\<rparr>"

lemma blank_account_fresh:
  assumes "0 < n"
  shows "check_fresh_account (30, 0, 0, 0) (blank_account k n) = Inr ()"
proof -
  have "(12 + 8 * n) mod 8 = 4" by presburger
  then show ?thesis
    using assms by (simp add: check_fresh_account_def blank_account_def check_assert_def cut_def Let_def)
qed

lemma sample_vault_fields:
  "length (ai_data (sample_vault_account k mint)) = 165" "ai_data (sample_vault_account k mint) ! 108 = 1"
  "take 32 (ai_data (sample_vault_account k mint)) = aligned_bytes (mint, 0, 0, 0)"
  "cut 32 32 (ai_data (sample_vault_account k mint)) = aligned_bytes (19, 0, 0, 0)"
  "cut 72 4 (ai_data (sample_vault_account k mint)) = replicate 4 0"
  "ai_owner (sample_vault_account k mint) = (6, 0, 0, 0)"
  by (simp_all add: sample_vault_account_def cut_def nth_append)

lemma sample_mint_fields:
  "length (ai_data (sample_mint_account k)) = 82" "ai_data (sample_mint_account k) ! 45 = 1"
  "ai_owner (sample_mint_account k) = (6, 0, 0, 0)" "ai_key (sample_mint_account k) = (k, 0, 0, 0)"
  by (simp_all add: sample_mint_account_def nth_append)

lemma sample_vault_check:
  "check_vault sample_chain (19, 0, 0, 0) (sample_vault_account k mint) (sample_mint_account mint) = Inr ()"
  by (simp add: check_vault_def token_account_new_def token_mint_new_def token_account_and_mint_new_def
      sample_vault_fields sample_mint_fields check_assert_def byte_of_def bytes_prefix_def)
    (simp add: sample_chain_def)

lemma sample_launch_parse:
  "\<exists>a. initialize_market_args_new sample_chain (30, 0, 0, 0) sample_launch_instruction sample_launch_accounts = Inr a
    \<and> ima_accounts a = take 5 sample_launch_accounts"
proof -
  have "gen_vault_signer_key sample_chain n k p = Inr (19, 0, 0, 0)" for n k p
    by (simp add: gen_vault_signer_key_def sample_chain_def)
  then show ?thesis
    by (simp add: initialize_market_args_new_def sample_launch_accounts_def check_assert_def blank_account_fresh
        sample_vault_check)
qed

lemma blank_padding:
  "init_account_padding (ai_data (blank_account k n)) =
    Inr (ACCOUNT_HEAD_PADDING @ replicate (8 * n) 0 @ ACCOUNT_TAIL_PADDING, replicate n 0)"
  unfolding blank_account_def account_info.select_convs by (rule init_padding_replicate)

lemma blank_init:
  "0 < n \<Longrightarrow> \<exists>acc. init_request_queue (blank_account k (4 + 10 * n)) = Inr acc"
  "128 \<le> n \<Longrightarrow> \<exists>acc. init_event_queue (blank_account k (4 + 11 * n)) = Inr acc"
  "200 < n \<Longrightarrow> \<exists>acc. init_side f (blank_account k (1 + (4 + 9 * n))) = Inr acc"
  "\<exists>acc. init_market_account m (blank_account k 47) = Inr acc"
proof -
  assume n: "0 < n"
  have "chunks 10 (replicate (10 * n) (0 :: u64)) \<noteq> []" using chunks_replicate [of 10 n "0 :: u64"] n by auto
  then show "\<exists>acc. init_request_queue (blank_account k (4 + 10 * n)) = Inr acc"
    by (simp add: init_request_queue_def blank_padding)
next
  assume n: "128 \<le> n"
  then show "\<exists>acc. init_event_queue (blank_account k (4 + 11 * n)) = Inr acc"
    by (simp add: init_event_queue_def blank_padding chunks_replicate check_assert_def)
next
  assume n: "200 < n"
  then show "\<exists>acc. init_side f (blank_account k (1 + (4 + 9 * n))) = Inr acc"
    by (simp add: init_side_def blank_padding chunks_replicate check_assert_def slab_of_words_def
        slab_assert_minimum_capacity_def)
next
  show "\<exists>acc. init_market_account m (blank_account k 47) = Inr acc"
    by (simp add: init_market_account_def blank_padding check_assert_def)
qed

theorem initialize_market_loads_witness:
  "\<exists>a market rest. initialize_market_args_new sample_chain (30, 0, 0, 0) sample_launch_instruction
       sample_launch_accounts = Inr a \<and>
     process_initialize_market a = Inr (market # rest) \<and>
     load_market (30, 0, 0, 0) market = Inr (initial_market a) \<and> ms_pc_lot_size (initial_market a) = 100"
proof -
  obtain a where a: "initialize_market_args_new sample_chain (30, 0, 0, 0) sample_launch_instruction
       sample_launch_accounts = Inr a" "ima_accounts a = take 5 sample_launch_accounts"
    using sample_launch_parse by blast
  have acc: "ima_accounts a ! 0 = blank_account 1 47" "ima_accounts a ! 1 = blank_account 15 (4 + 10 * 1)"
    "ima_accounts a ! 2 = blank_account 16 (4 + 11 * 128)"
    "ima_accounts a ! 3 = blank_account 17 (1 + (4 + 9 * 201))"
    "ima_accounts a ! 4 = blank_account 18 (1 + (4 + 9 * 201))"
    unfolding a(2) sample_launch_accounts_def by simp_all
  obtain rq eq b s m where r: "process_initialize_market a = Inr [m, rq, eq, b, s]"
    unfolding process_initialize_market_def Let_def acc
    using blank_init(1) [of 1 15] blank_init(2) [of 128 16] blank_init(3) [of 201 AF_Bids 17]
      blank_init(3) [of 201 AF_Asks 18] blank_init(4) [of "initial_market a" 1]
    by fastforce
  have "\<forall>j<5. set (ai_data (sample_launch_accounts ! j)) \<subseteq> {0} \<and> length (ai_data (sample_launch_accounts ! j)) < 2 ^ 32"
  proof (intro allI impI)
    fix j :: nat assume "j < 5"
    then consider "j = 0" | "j = 1" | "j = 2" | "j = 3" | "j = 4" by linarith
    then show "set (ai_data (sample_launch_accounts ! j)) \<subseteq> {0} \<and> length (ai_data (sample_launch_accounts ! j)) < 2 ^ 32"
      by cases (simp_all add: sample_launch_accounts_def blank_account_def)
  qed
  from initialize_market_loads [OF a(1) r this] show ?thesis
    using a(1) r by (simp add: sample_launch_instruction_def)
qed

end
