(* ===== verification/Packing.thy ===== *)
theory Packing
  imports Bytes
begin

text \<open>
  Accounts as bytes (\<open>common/src/pack.rs\<close>): the trait \<open>Pack\<close> and the macro \<open>packable\<close> over a
  serialiser.  The serialiser, \<open>bincode\<close>, is a package: a \<open>codec\<close> stands for its three
  functions on one type, and the locale \<open>packing\<close> states what they promise one another.  The
  second half gives the codecs of the format the package documents for fixed-width integers,
  booleans, keys, products and byte vectors, which are shown to keep the promise.
\<close>

datatype program_fault = Failed program_error | Panicked

definition InvalidAccountData :: program_error where
  "InvalidAccountData = OtherProgramError 3"

record 'a codec =
  cd_encode :: "'a \<Rightarrow> u8 list option"  \<comment> \<open>what \<open>serialize\<close> and \<open>serialize_into\<close> write\<close>
  cd_decode :: "u8 list \<Rightarrow> ('a \<times> u8 list) option"  \<comment> \<open>\<open>deserialize_from\<close>: what is not read remains\<close>
  cd_size :: "'a \<Rightarrow> u64 option"  \<comment> \<open>\<open>serialized_size\<close>\<close>

subsection \<open>The functions around the serialiser\<close>

definition invalid_data :: "'a option \<Rightarrow> program_fault + 'a" where
  "invalid_data x = ok_or x (Failed InvalidAccountData)"

definition to_bytes :: "'a codec \<Rightarrow> 'a \<Rightarrow> program_fault + u8 list" where
  "to_bytes cd i = invalid_data (cd_encode cd i)"

text \<open>A cursor over a slice: the bytes are written from its start, and have to fit.\<close>

definition into_bytes :: "'a codec \<Rightarrow> 'a \<Rightarrow> u8 list \<Rightarrow> program_fault + u8 list" where
  "into_bytes cd i dst =
     and_then (invalid_data (cd_encode cd i)) (\<lambda>bs.
     if length bs \<le> length dst then Inr (bs @ drop (length bs) dst)
     else Inl (Failed InvalidAccountData))"

text \<open>\<open>bincode::deserialize\<close> reads a prefix, whatever follows it.\<close>

definition from_bytes :: "'a codec \<Rightarrow> u8 list \<Rightarrow> program_fault + 'a" where
  "from_bytes cd data = and_then (invalid_data (cd_decode cd data)) (\<lambda>(x, _). Inr x)"

definition from_reader :: "'a codec \<Rightarrow> u8 list \<Rightarrow> program_fault + ('a \<times> u8 list)" where
  "from_reader cd rdr = invalid_data (cd_decode cd rdr)"

definition bytes_size :: "'a codec \<Rightarrow> 'a \<Rightarrow> program_fault + u64" where
  "bytes_size cd value = invalid_data (cd_size cd value)"

subsection \<open>The trait\<close>

definition pack_size :: "'a codec \<Rightarrow> 'a \<Rightarrow> program_fault + u64" where
  "pack_size cd x = bytes_size cd x"

definition pack_account :: "'a codec \<Rightarrow> 'a \<Rightarrow> u8 list \<Rightarrow> program_fault + u8 list" where
  "pack_account cd src dst =
     and_then (pack_size cd src) (\<lambda>n.
     if n \<noteq> of_nat (length dst) then Inl (Failed InvalidAccountData) else into_bytes cd src dst)"

definition unpack_unchecked :: "'a codec \<Rightarrow> u8 list \<Rightarrow> program_fault + ('a \<times> u8 list)" where
  "unpack_unchecked cd src = from_reader cd src"

definition unpack_account :: "'a codec \<Rightarrow> u8 list \<Rightarrow> program_fault + 'a" where
  "unpack_account cd src =
     and_then (unpack_unchecked cd src) (\<lambda>(r, src_mut).
     if src_mut \<noteq> [] then Inl (Failed InvalidAccountData) else Inr r)"

text \<open>A closure that mutates the struct returns it with its result; \<open>input\<close> is written over.\<close>

definition unpack_mut ::
  "'a codec \<Rightarrow> u8 list \<Rightarrow> ('a \<Rightarrow> program_fault + ('a \<times> 'u)) \<Rightarrow> program_fault + (u8 list \<times> 'u)" where
  "unpack_mut cd input f =
     and_then (unpack_account cd input) (\<lambda>t.
     and_then (f t) (\<lambda>(t', u).
     and_then (pack_account cd t' input) (\<lambda>input'. Inr (input', u))))"

definition unpack_unchecked_mut ::
  "'a codec \<Rightarrow> u8 list \<Rightarrow> ('a \<Rightarrow> program_fault + ('a \<times> 'u)) \<Rightarrow> program_fault + (u8 list \<times> 'u)" where
  "unpack_unchecked_mut cd input f =
     and_then (unpack_unchecked cd input) (\<lambda>(t, _).
     and_then (f t) (\<lambda>(t', u).
     and_then (pack_account cd t' input) (\<lambda>input'. Inr (input', u))))"

subsection \<open>What a serialiser promises\<close>

locale packing =
  fixes cd :: "'a codec"
  assumes decode_encode: "cd_encode cd x = Some bs \<Longrightarrow> cd_decode cd (bs @ rest) = Some (x, rest)"
    and encode_decode: "cd_decode cd bs = Some (x, rest) \<Longrightarrow> \<exists>e. cd_encode cd x = Some e \<and> bs = e @ rest"
    and size_encode: "cd_size cd x = map_option (\<lambda>bs. of_nat (length bs)) (cd_encode cd x)"
begin

lemma unpack_exact_bytes: "unpack_account cd bs = Inr x \<longleftrightarrow> cd_encode cd x = Some bs"
proof
  assume "unpack_account cd bs = Inr x"
  then have "cd_decode cd bs = Some (x, [])"
    by (auto simp: unpack_account_def unpack_unchecked_def from_reader_def invalid_data_def res_simps
        split: if_splits)
  then show "cd_encode cd x = Some bs" using encode_decode by fastforce
next
  assume "cd_encode cd x = Some bs"
  from decode_encode [OF this, of "[]"] show "unpack_account cd bs = Inr x"
    by (simp add: unpack_account_def unpack_unchecked_def from_reader_def invalid_data_def)
qed

lemma pack_account_run:
  assumes "length dst < 2 ^ 64"
  shows "pack_account cd x dst = Inr d \<longleftrightarrow> cd_encode cd x = Some d \<and> length d = length dst"
proof (cases "cd_encode cd x")
  case None
  then show ?thesis by (simp add: pack_account_def pack_size_def bytes_size_def invalid_data_def size_encode)
next
  case (Some e)
  show ?thesis
  proof (cases "length e = length dst")
    case True
    then show ?thesis using Some
      by (auto simp: pack_account_def pack_size_def bytes_size_def invalid_data_def size_encode into_bytes_def)
  next
    case False
    have "pack_account cd x dst = Inr d \<Longrightarrow> length e \<le> length dst \<and> (of_nat (length e) :: u64) = of_nat (length dst)"
      using Some by (auto simp: pack_account_def pack_size_def bytes_size_def invalid_data_def size_encode
          into_bytes_def split: if_splits)
    moreover have "(of_nat (length e) :: u64) = of_nat (length dst) \<Longrightarrow> length e \<le> length dst \<Longrightarrow> length e = length dst"
      using assms by (simp add: word_of_nat_eq_iff take_bit_nat_eq_self)
    ultimately show ?thesis using False Some by auto
  qed
qed

end

subsection \<open>The documented format\<close>

definition fixed_codec :: "nat \<Rightarrow> ('a \<Rightarrow> u8 list) \<Rightarrow> (u8 list \<Rightarrow> 'a option) \<Rightarrow> 'a codec" where
  "fixed_codec n enc dec =
     \<lparr>cd_encode = (\<lambda>x. Some (enc x)),
      cd_decode = (\<lambda>bs. if n \<le> length bs then map_option (\<lambda>x. (x, drop n bs)) (dec (take n bs)) else None),
      cd_size = (\<lambda>x. Some (of_nat n))\<rparr>"

definition u8_codec :: "u8 codec" where
  "u8_codec = fixed_codec 1 (\<lambda>b. [b]) (\<lambda>bs. Some (hd bs))"

definition bool_codec :: "bool codec" where
  "bool_codec = fixed_codec 1 (\<lambda>b. [if b then 1 else 0])
     (\<lambda>bs. if hd bs = 0 then Some False else if hd bs = 1 then Some True else None)"

definition u32_codec :: "u32 codec" where
  "u32_codec = fixed_codec 4 (le_bytes 4) (\<lambda>bs. Some (le_word bs))"

definition u64_codec :: "u64 codec" where
  "u64_codec = fixed_codec 8 u64_to_le (\<lambda>bs. Some (u64_of_le bs))"

definition key_codec :: "aligned codec" where
  "key_codec = fixed_codec 32 aligned_bytes (\<lambda>bs. Some (aligned_of_bytes bs))"

definition pair_codec :: "'a codec \<Rightarrow> 'b codec \<Rightarrow> ('a \<times> 'b) codec" where
  "pair_codec c d =
     \<lparr>cd_encode = (\<lambda>(x, y). Option.bind (cd_encode c x) (\<lambda>xs. map_option (\<lambda>ys. xs @ ys) (cd_encode d y))),
      cd_decode = (\<lambda>bs. Option.bind (cd_decode c bs) (\<lambda>(x, bs1).
        map_option (\<lambda>(y, bs2). ((x, y), bs2)) (cd_decode d bs1))),
      cd_size = (\<lambda>(x, y). Option.bind (cd_size c x) (\<lambda>m. map_option (\<lambda>n. m + n) (cd_size d y)))\<rparr>"

definition map_codec :: "('a \<Rightarrow> 'b) \<Rightarrow> ('b \<Rightarrow> 'a) \<Rightarrow> 'b codec \<Rightarrow> 'a codec" where
  "map_codec to from c =
     \<lparr>cd_encode = (\<lambda>x. cd_encode c (to x)),
      cd_decode = (\<lambda>bs. map_option (\<lambda>(y, bs1). (from y, bs1)) (cd_decode c bs)),
      cd_size = (\<lambda>x. cd_size c (to x))\<rparr>"

text \<open>A \<open>Vec<u8>\<close> is its length and its bytes.\<close>

definition vec_codec :: "u8 list codec" where
  "vec_codec =
     \<lparr>cd_encode = (\<lambda>xs. if length xs < 2 ^ 64 then Some (u64_to_le (of_nat (length xs)) @ xs) else None),
      cd_decode = (\<lambda>bs. Option.bind (cd_decode u64_codec bs) (\<lambda>(n, bs1).
        if unat n \<le> length bs1 then Some (take (unat n) bs1, drop (unat n) bs1) else None)),
      cd_size = (\<lambda>xs. if length xs < 2 ^ 64 then Some (8 + of_nat (length xs)) else None)\<rparr>"

lemma fixed_codec_simps [simp]:
  "cd_encode (fixed_codec n enc dec) x = Some (enc x)"
  "cd_decode (fixed_codec n enc dec) bs =
     (if n \<le> length bs then map_option (\<lambda>x. (x, drop n bs)) (dec (take n bs)) else None)"
  "cd_size (fixed_codec n enc dec) x = Some (of_nat n)"
  by (simp_all add: fixed_codec_def)

lemma fixed_packing:
  assumes len: "\<And>x. length (enc x) = n" and inv: "\<And>bs x. length bs = n \<Longrightarrow> dec bs = Some x \<longleftrightarrow> bs = enc x"
  shows "packing (fixed_codec n enc dec)"
proof
  fix bs x rest assume "cd_decode (fixed_codec n enc dec) bs = Some (x, rest)"
  then have n: "n \<le> length bs" "dec (take n bs) = Some x" "rest = drop n bs"
    by (auto split: if_splits)
  then have "take n bs = enc x" using inv [of "take n bs"] by simp
  then have "bs = enc x @ rest" using n(3) by (metis append_take_drop_id)
  then show "\<exists>e. cd_encode (fixed_codec n enc dec) x = Some e \<and> bs = e @ rest" by simp
next
  fix x bs rest assume "cd_encode (fixed_codec n enc dec) x = Some bs"
  then have "bs = enc x" by simp
  then show "cd_decode (fixed_codec n enc dec) (bs @ rest) = Some (x, rest)"
    using len [of x] inv [of bs x] by simp
qed (simp add: len)

lemma length_one: "length bs = Suc 0 \<longleftrightarrow> (\<exists>b. bs = [b])"
  by (cases bs) auto

lemma u8_packing: "packing u8_codec"
  unfolding u8_codec_def by (rule fixed_packing) (auto simp: length_one)

lemma bool_packing: "packing bool_codec"
  unfolding bool_codec_def by (rule fixed_packing) (auto simp: length_one split: if_splits)

lemma u32_packing: "packing u32_codec"
  unfolding u32_codec_def by (rule fixed_packing) (auto simp: le_word_eq_iff [of 4])

lemma u64_packing: "packing u64_codec"
  unfolding u64_codec_def by (rule fixed_packing) (auto simp: u64_to_of_le)

lemma key_packing: "packing key_codec"
  unfolding key_codec_def
proof (rule fixed_packing)
  fix bs :: "u8 list" and a assume "length bs = 32"
  from aligned_bytes_of_bytes [OF this]
  show "Some (aligned_of_bytes bs) = Some a \<longleftrightarrow> bs = aligned_bytes a" by auto
qed simp

lemma pair_packing:
  assumes c: "packing c" and d: "packing d"
  shows "packing (pair_codec c d)"
proof
  fix p bs rest assume "cd_encode (pair_codec c d) p = Some bs"
  then obtain x y xs ys where "p = (x, y)" "cd_encode c x = Some xs" "cd_encode d y = Some ys" "bs = xs @ ys"
    by (cases p) (auto simp: pair_codec_def bind_eq_Some_conv)
  then show "cd_decode (pair_codec c d) (bs @ rest) = Some (p, rest)"
    using packing.decode_encode [OF c, of x xs "ys @ rest"] packing.decode_encode [OF d, of y ys rest]
    by (simp add: pair_codec_def)
next
  fix p bs rest assume "cd_decode (pair_codec c d) bs = Some (p, rest)"
  then obtain x y r where r: "p = (x, y)" "cd_decode c bs = Some (x, r)" "cd_decode d r = Some (y, rest)"
    by (auto simp: pair_codec_def bind_eq_Some_conv)
  obtain xs where "cd_encode c x = Some xs" "bs = xs @ r" using packing.encode_decode [OF c r(2)] by blast
  moreover obtain ys where "cd_encode d y = Some ys" "r = ys @ rest"
    using packing.encode_decode [OF d r(3)] by blast
  ultimately show "\<exists>e. cd_encode (pair_codec c d) p = Some e \<and> bs = e @ rest"
    using r(1) by (simp add: pair_codec_def)
next
  fix p show "cd_size (pair_codec c d) p = map_option (\<lambda>bs. of_nat (length bs)) (cd_encode (pair_codec c d) p)"
  proof (cases p)
    case (Pair x y)
    then show ?thesis
      using packing.size_encode [OF c, of x] packing.size_encode [OF d, of y]
      by (cases "cd_encode c x"; cases "cd_encode d y") (simp_all add: pair_codec_def)
  qed
qed

lemma map_packing:
  assumes c: "packing c" and inv: "\<And>x. from (to x) = x" "\<And>y. to (from y) = y"
  shows "packing (map_codec to from c)"
proof
  fix x bs rest assume "cd_encode (map_codec to from c) x = Some bs"
  then show "cd_decode (map_codec to from c) (bs @ rest) = Some (x, rest)"
    using packing.decode_encode [OF c, of "to x" bs rest] inv by (simp add: map_codec_def)
next
  fix x bs rest assume "cd_decode (map_codec to from c) bs = Some (x, rest)"
  then obtain y where "cd_decode c bs = Some (y, rest)" "x = from y" by (auto simp: map_codec_def)
  then show "\<exists>e. cd_encode (map_codec to from c) x = Some e \<and> bs = e @ rest"
    using packing.encode_decode [OF c] inv by (simp add: map_codec_def)
qed (simp add: map_codec_def packing.size_encode [OF c])

lemma vec_packing: "packing vec_codec"
proof
  fix xs bs rest assume "cd_encode vec_codec xs = Some bs"
  then have "length xs < 2 ^ 64" "bs = u64_to_le (of_nat (length xs)) @ xs"
    by (auto simp: vec_codec_def split: if_splits)
  moreover then have "unat (of_nat (length xs) :: u64) = length xs"
    by (simp add: unsigned_of_nat take_bit_nat_eq_self)
  ultimately show "cd_decode vec_codec (bs @ rest) = Some (xs, rest)"
    by (simp add: vec_codec_def u64_codec_def)
next
  fix bs xs rest assume "cd_decode vec_codec bs = Some (xs, rest)"
  then obtain n r where r: "cd_decode u64_codec bs = Some (n, r)" "unat n \<le> length r"
    "xs = take (unat n) r" "rest = drop (unat n) r"
    by (auto simp: vec_codec_def bind_eq_Some_conv split: if_splits)
  from packing.encode_decode [OF u64_packing r(1)] have "bs = u64_to_le n @ r"
    by (simp add: u64_codec_def)
  moreover have "length xs = unat n" "unat n < 2 ^ 64" using r(2,3) unat_u64_lt by simp_all
  ultimately show "\<exists>e. cd_encode vec_codec xs = Some e \<and> bs = e @ rest"
    using r(3,4) by (simp add: vec_codec_def)
qed (simp add: vec_codec_def)

lemmas packing_intros =
  u8_packing bool_packing u32_packing u64_packing key_packing vec_packing pair_packing

text \<open>The length of what a codec writes, where it is the same for every value.\<close>

definition codec_width :: "'a codec \<Rightarrow> nat \<Rightarrow> bool" where
  "codec_width c n \<longleftrightarrow> (\<forall>x. \<exists>bs. cd_encode c x = Some bs \<and> length bs = n)"

lemma codec_width_prim [simp, intro]:
  "codec_width u8_codec 1" "codec_width bool_codec 1" "codec_width u32_codec 4" "codec_width u64_codec 8"
  "codec_width key_codec 32"
  by (simp_all add: codec_width_def u8_codec_def bool_codec_def u32_codec_def u64_codec_def key_codec_def)

lemma codec_width_pair:
  assumes "codec_width c m" "codec_width d n"
  shows "codec_width (pair_codec c d) (m + n)"
  unfolding codec_width_def
proof
  fix p :: "'a \<times> 'b"
  obtain x y xs ys where "p = (x, y)" "cd_encode c x = Some xs" "length xs = m"
    "cd_encode d y = Some ys" "length ys = n"
    using assms unfolding codec_width_def by (metis prod.exhaust)
  then show "\<exists>bs. cd_encode (pair_codec c d) p = Some bs \<and> length bs = m + n"
    by (simp add: pair_codec_def)
qed

lemma codec_width_map: "codec_width c n \<Longrightarrow> codec_width (map_codec to from c) n"
  by (simp add: codec_width_def map_codec_def)

text \<open>What a codec reads: strings of its width whose bytes it allows.\<close>

definition reads :: "'a codec \<Rightarrow> nat \<Rightarrow> (u8 list \<Rightarrow> bool) \<Rightarrow> bool" where
  "reads c n P \<longleftrightarrow> (\<forall>bs. if n \<le> length bs \<and> P bs then \<exists>x. cd_decode c bs = Some (x, drop n bs)
     else cd_decode c bs = None)"

lemma reads_prim:
  "reads u8_codec 1 (\<lambda>_. True)" "reads u64_codec 8 (\<lambda>_. True)" "reads key_codec 32 (\<lambda>_. True)"
  "reads bool_codec 1 (\<lambda>bs. bs ! 0 \<in> {0, 1})"
proof -
  have "Suc 0 \<le> length bs \<Longrightarrow> hd bs = bs ! 0" for bs :: "u8 list" by (cases bs) simp_all
  then show "reads bool_codec 1 (\<lambda>bs. bs ! 0 \<in> {0, 1})" by (auto simp: reads_def bool_codec_def)
qed (simp_all add: reads_def u8_codec_def u64_codec_def key_codec_def del: split_paired_Ex)

lemma reads_pair:
  assumes "reads c m P" "reads d n Q"
  shows "reads (pair_codec c d) (m + n) (\<lambda>bs. P bs \<and> Q (drop m bs))"
  unfolding reads_def
proof
  fix bs
  show "if m + n \<le> length bs \<and> P bs \<and> Q (drop m bs)
    then \<exists>x. cd_decode (pair_codec c d) bs = Some (x, drop (m + n) bs) else cd_decode (pair_codec c d) bs = None"
  proof (cases "m \<le> length bs \<and> P bs")
    case True
    then obtain x where "cd_decode c bs = Some (x, drop m bs)" using assms(1) by (metis reads_def)
    then show ?thesis using assms(2) [unfolded reads_def, rule_format, of "drop m bs"] True
      by (auto simp: pair_codec_def add.commute split: if_splits)
  next
    case False
    then have "cd_decode c bs = None" using assms(1) by (metis reads_def)
    then show ?thesis using False by (auto simp: pair_codec_def)
  qed
qed

lemma reads_map: "reads c n P \<Longrightarrow> reads (map_codec to from c) n P"
  by (fastforce simp: reads_def map_codec_def split: if_splits)

lemma reads_unpack:
  assumes "reads c n P" "0 < n"
  shows "(\<exists>x. unpack_account c d = Inr x) \<longleftrightarrow> length d = n \<and> P d"
proof (cases "n \<le> length d \<and> P d")
  case True
  then obtain x where "cd_decode c d = Some (x, drop n d)" using assms(1) by (metis reads_def)
  then show ?thesis using True
    by (auto simp: unpack_account_def unpack_unchecked_def from_reader_def invalid_data_def)
next
  case False
  then have "cd_decode c d = None" using assms(1) by (metis reads_def)
  then show ?thesis using False
    by (auto simp: unpack_account_def unpack_unchecked_def from_reader_def invalid_data_def)
qed

end
