(* ===== verification/LockupErrors.thy ===== *)
theory LockupErrors
  imports Packing
begin

text \<open>
  The errors of the lockup program (\<open>lockup/src/error.rs\<close>).  A panic aborts the transaction.
\<close>

datatype (plugins only: code) lockup_error_code =
    WrongSerialization | NotRentExempt | AlreadyInitialized | NotInitialized | NotOwnedByProgram |
  VestingAccountDataInvalid | WrongCoinMint | SafeDataInvalid | NotSignedByAuthority |
  WrongNumberOfAccounts | InsufficientMintBalance | Unauthorized | MintAlreadyInitialized |
  ReceiptAlreadyInitialized | InvalidAccount | InvalidVault | InvalidVaultNonce | InvalidReceipt
  | AlreadyBurned | InvalidAccountOwner | UnauthorizedReceipt | TokenAccountAlreadyInitialized |
  TokenAccountOwnerMismatch | InvalidTokenProgram | InvalidSerialization | SizeNotAvailable |
  UnitializedTokenMint | InvalidSlot | InvalidClock | InvalidRentSysvar | InvalidMint | WrongSafe
  | WrongVestingAccount | InvalidDepositAmount | InvalidPeriod | InsufficientWithdrawalBalance |
  WhitelistAlreadyInitialized | AlreadyClaimed | InvalidTokenAccountOwner |
  InvalidTokenAccountMint | WhitelistFull | WhitelistNotFound |
  WhitelistDepositInvariantViolation | InvalidRedemptionMint | InvalidWhitelist |
  InvalidMintAuthority | InvalidMintSupply | NotYetClaimed | InvalidClockSysvar |
  InsufficientWhitelistBalance | WhitelistProgramWrongOwner | WhitelistInvalidData |
  InvalidWhitelistEntry | WhitelistInvalidProgramId | WhitelistEntryAlreadyExists | Unknown

primrec lockup_error_code_u32 :: "lockup_error_code \<Rightarrow> u32" where
  "lockup_error_code_u32 WrongSerialization = 0"
| "lockup_error_code_u32 NotRentExempt = 1"
| "lockup_error_code_u32 AlreadyInitialized = 2"
| "lockup_error_code_u32 NotInitialized = 3"
| "lockup_error_code_u32 NotOwnedByProgram = 4"
| "lockup_error_code_u32 VestingAccountDataInvalid = 5"
| "lockup_error_code_u32 WrongCoinMint = 6"
| "lockup_error_code_u32 SafeDataInvalid = 8"
| "lockup_error_code_u32 NotSignedByAuthority = 11"
| "lockup_error_code_u32 WrongNumberOfAccounts = 12"
| "lockup_error_code_u32 InsufficientMintBalance = 13"
| "lockup_error_code_u32 Unauthorized = 14"
| "lockup_error_code_u32 MintAlreadyInitialized = 15"
| "lockup_error_code_u32 ReceiptAlreadyInitialized = 16"
| "lockup_error_code_u32 InvalidAccount = 17"
| "lockup_error_code_u32 InvalidVault = 18"
| "lockup_error_code_u32 InvalidVaultNonce = 19"
| "lockup_error_code_u32 InvalidReceipt = 20"
| "lockup_error_code_u32 AlreadyBurned = 21"
| "lockup_error_code_u32 InvalidAccountOwner = 22"
| "lockup_error_code_u32 UnauthorizedReceipt = 23"
| "lockup_error_code_u32 TokenAccountAlreadyInitialized = 24"
| "lockup_error_code_u32 TokenAccountOwnerMismatch = 25"
| "lockup_error_code_u32 InvalidTokenProgram = 26"
| "lockup_error_code_u32 InvalidSerialization = 27"
| "lockup_error_code_u32 SizeNotAvailable = 28"
| "lockup_error_code_u32 UnitializedTokenMint = 29"
| "lockup_error_code_u32 InvalidSlot = 30"
| "lockup_error_code_u32 InvalidClock = 31"
| "lockup_error_code_u32 InvalidRentSysvar = 32"
| "lockup_error_code_u32 InvalidMint = 33"
| "lockup_error_code_u32 WrongSafe = 34"
| "lockup_error_code_u32 WrongVestingAccount = 35"
| "lockup_error_code_u32 InvalidDepositAmount = 36"
| "lockup_error_code_u32 InvalidPeriod = 37"
| "lockup_error_code_u32 InsufficientWithdrawalBalance = 38"
| "lockup_error_code_u32 WhitelistAlreadyInitialized = 39"
| "lockup_error_code_u32 AlreadyClaimed = 40"
| "lockup_error_code_u32 InvalidTokenAccountOwner = 41"
| "lockup_error_code_u32 InvalidTokenAccountMint = 42"
| "lockup_error_code_u32 WhitelistFull = 43"
| "lockup_error_code_u32 WhitelistNotFound = 44"
| "lockup_error_code_u32 WhitelistDepositInvariantViolation = 45"
| "lockup_error_code_u32 InvalidRedemptionMint = 46"
| "lockup_error_code_u32 InvalidWhitelist = 47"
| "lockup_error_code_u32 InvalidMintAuthority = 48"
| "lockup_error_code_u32 InvalidMintSupply = 49"
| "lockup_error_code_u32 NotYetClaimed = 50"
| "lockup_error_code_u32 InvalidClockSysvar = 51"
| "lockup_error_code_u32 InsufficientWhitelistBalance = 52"
| "lockup_error_code_u32 WhitelistProgramWrongOwner = 53"
| "lockup_error_code_u32 WhitelistInvalidData = 54"
| "lockup_error_code_u32 InvalidWhitelistEntry = 55"
| "lockup_error_code_u32 WhitelistInvalidProgramId = 56"
| "lockup_error_code_u32 WhitelistEntryAlreadyExists = 57"
| "lockup_error_code_u32 Unknown = 1000"

datatype lockup_error = LockupProgramError program_error | LockupErrorCode lockup_error_code

primrec program_error_of_lockup :: "lockup_error \<Rightarrow> program_error" where
  "program_error_of_lockup (LockupProgramError e) = e"
| "program_error_of_lockup (LockupErrorCode c) = Custom (lockup_error_code_u32 c)"

datatype lockup_fault = LockupErr lockup_error | LockupPanic

definition lockup_code :: "lockup_error_code \<Rightarrow> lockup_fault" where
  "lockup_code c = LockupErr (LockupErrorCode c)"

text \<open>\<open>?\<close> on a program error in a lockup function, and \<open>Into\<close> the other way round.\<close>

primrec lockup_of_program :: "program_fault \<Rightarrow> lockup_fault" where
  "lockup_of_program (Failed e) = LockupErr (LockupProgramError e)"
| "lockup_of_program Panicked = LockupPanic"

primrec program_of_lockup :: "lockup_fault \<Rightarrow> program_fault" where
  "program_of_lockup (LockupErr e) = Failed (program_error_of_lockup e)"
| "program_of_lockup LockupPanic = Panicked"

definition lockup_try :: "program_fault + 'a \<Rightarrow> lockup_fault + 'a" where
  "lockup_try r = map_err lockup_of_program r"

text \<open>\<open>if b { return Err(code)?; }\<close>\<close>

definition deny :: "bool \<Rightarrow> lockup_error_code \<Rightarrow> lockup_fault + unit" where
  "deny b c = guard (\<not> b) (lockup_code c)"

definition lockup_assert :: "bool \<Rightarrow> lockup_fault + unit" where
  "lockup_assert b = guard b LockupPanic"

lemma lockup_simps [simp, res_simps]:
  "lockup_try (Inr x) = Inr x" "lockup_try (Inl f) = Inl (lockup_of_program f)"
  "deny False c = Inr ()" "deny True c = Inl (lockup_code c)"
  "lockup_assert True = Inr ()" "lockup_assert False = Inl LockupPanic"
  by (simp_all add: lockup_try_def deny_def lockup_assert_def)

lemma lockup_eq_Inr [res_simps]:
  "lockup_try r = Inr x \<longleftrightarrow> r = Inr x" "deny b c = Inr u \<longleftrightarrow> \<not> b" "lockup_assert b = Inr u \<longleftrightarrow> b"
  by (cases r; simp add: lockup_try_def) (simp_all add: deny_def lockup_assert_def res_simps)

end
