(* ===== verification/VestingSchedule.thy ===== *)
theory VestingSchedule
  imports Packing
begin

text \<open>
  The vesting account of the lockup program and its schedule (\<open>lockup/src/accounts/vesting.rs\<close>).
  Arithmetic wraps as in the release build; a division by zero and a failed \<open>assert\<close> panic.
\<close>

record vesting =
  v_initialized :: bool
  v_claimed :: bool
  v_safe :: aligned
  v_beneficiary :: aligned
  v_balance :: u64
  v_start_balance :: u64
  v_start_slot :: u64
  v_end_slot :: u64
  v_period_count :: u64
  v_locked_nft_mint :: aligned
  v_locked_nft_token :: aligned
  v_whitelist_owned :: u64

subsection \<open>The schedule\<close>

definition rust_div :: "u64 \<Rightarrow> u64 \<Rightarrow> program_fault + u64" where
  "rust_div x y = (if y = 0 then Inl Panicked else Inr (x div y))"

definition rust_rem :: "u64 \<Rightarrow> u64 \<Rightarrow> program_fault + u64" where
  "rust_rem x y = (if y = 0 then Inl Panicked else Inr (x mod y))"

definition deduct :: "u64 \<Rightarrow> vesting \<Rightarrow> vesting" where
  "deduct amount v = v\<lparr>v_balance := v_balance v - amount\<rparr>"

definition linear_unlock :: "vesting \<Rightarrow> u64 \<Rightarrow> program_fault + u64" where
  "linear_unlock v current_slot =
     and_then (rust_rem (v_end_slot v - v_start_slot v) (v_period_count v)) (\<lambda>overflow.
     let end_slot = v_end_slot v;
         start_slot = (if overflow \<noteq> 0 then v_start_slot v - overflow else v_start_slot v) in
     and_then (rust_div (end_slot - start_slot) (v_period_count v)) (\<lambda>period.
     and_then (rust_div (current_slot - start_slot) period) (\<lambda>current_period_count.
     let vested_period_count = min current_period_count (v_period_count v) in
     and_then (rust_div (v_start_balance v) (v_period_count v)) (\<lambda>reward_per_period.
     Inr (vested_period_count * reward_per_period)))))"

definition total_vested :: "vesting \<Rightarrow> u64 \<Rightarrow> program_fault + u64" where
  "total_vested v current_slot =
     (if \<not> v_start_slot v \<le> current_slot then Inl Panicked
      else if v_end_slot v \<le> current_slot then Inr (v_start_balance v)
      else linear_unlock v current_slot)"

definition withdrawn_amount :: "vesting \<Rightarrow> u64" where
  "withdrawn_amount v = v_start_balance v - v_balance v"

definition balance_vested :: "vesting \<Rightarrow> u64 \<Rightarrow> program_fault + u64" where
  "balance_vested v current_slot =
     and_then (total_vested v current_slot) (\<lambda>total. Inr (total - withdrawn_amount v))"

definition available_for_whitelist :: "vesting \<Rightarrow> u64" where
  "available_for_whitelist v = v_balance v - v_whitelist_owned v"

definition available_for_withdrawal :: "vesting \<Rightarrow> u64 \<Rightarrow> program_fault + u64" where
  "available_for_withdrawal v current_slot =
     and_then (balance_vested v current_slot) (\<lambda>b. Inr (min b (available_for_whitelist v)))"

subsection \<open>The reference schedule\<close>

text \<open>
  On natural numbers: the window is rounded up by its remainder, and every period that has
  passed since its moved-back start unlocks the same amount, all of it at the end.
\<close>

definition vesting_window :: "vesting \<Rightarrow> nat" where
  "vesting_window v = unat (v_end_slot v) - unat (v_start_slot v)"

definition cliff :: "vesting \<Rightarrow> nat" where
  "cliff v = vesting_window v mod unat (v_period_count v)"

definition schedule :: "vesting \<Rightarrow> nat \<Rightarrow> nat" where
  "schedule v t =
     (let p = unat (v_period_count v); b = unat (v_start_balance v) in
      if unat (v_end_slot v) \<le> t then b
      else min ((t - unat (v_start_slot v) + cliff v) div ((vesting_window v + cliff v) div p)) p * (b div p))"

text \<open>What \<open>create_vesting\<close> asks of a schedule, and a window that a 64-bit word can hold.\<close>

definition proper_schedule :: "vesting \<Rightarrow> bool" where
  "proper_schedule v \<longleftrightarrow> v_start_slot v < v_end_slot v \<and> v_period_count v \<noteq> 0 \<and>
     vesting_window v + cliff v < 2 ^ 64"

lemma schedule_le: "schedule v t \<le> unat (v_start_balance v)"
proof -
  have "x \<le> p \<Longrightarrow> x * (b div p) \<le> b" for x p b :: nat
    by (metis div_times_less_eq_dividend le_trans mult.commute mult_le_mono1)
  then show ?thesis by (simp add: schedule_def Let_def)
qed

lemma schedule_mono: "s \<le> t \<Longrightarrow> schedule v s \<le> schedule v t"
proof (cases "unat (v_end_slot v) \<le> t")
  case True
  then show ?thesis using schedule_le [of v s] by (simp add: schedule_def Let_def)
next
  case False
  assume "s \<le> t"
  then have "(s - unat (v_start_slot v) + cliff v) div ((vesting_window v + cliff v) div unat (v_period_count v))
      \<le> (t - unat (v_start_slot v) + cliff v) div ((vesting_window v + cliff v) div unat (v_period_count v))"
    by (intro div_le_mono) simp
  then show ?thesis using False \<open>s \<le> t\<close> by (simp add: schedule_def Let_def mult_le_mono1 min.coboundedI1)
qed

text \<open>A window too short for its periods has periods of no length.\<close>

lemma period_zero:
  assumes "p \<noteq> 0"
  shows "(w + w mod p) div p = 0 \<longleftrightarrow> 2 * w < (p :: nat)"
proof (cases "w < p")
  case True
  then show ?thesis using assms by (auto simp: div_eq_0_iff)
next
  case False
  then show ?thesis using assms by (auto simp: div_eq_0_iff)
qed

lemma unlock_words:
  assumes "proper_schedule v" and "v_start_slot v \<le> t" and "t < v_end_slot v"
  defines "ov \<equiv> (v_end_slot v - v_start_slot v) mod v_period_count v"
  shows "unat (v_end_slot v - (v_start_slot v - ov)) = vesting_window v + cliff v"
    "unat (t - (v_start_slot v - ov)) = unat t - unat (v_start_slot v) + cliff v"
proof -
  have "v_start_slot v \<le> v_end_slot v" using assms(1) by (auto simp: proper_schedule_def intro: less_imp_le)
  then have w: "unat (v_end_slot v - v_start_slot v) = vesting_window v"
    by (simp add: vesting_window_def unat_sub)
  then have ov: "unat ov = cliff v" by (simp add: ov_def cliff_def unat_mod_distrib)
  have e: "v_end_slot v - (v_start_slot v - ov) = (v_end_slot v - v_start_slot v) + ov"
    "t - (v_start_slot v - ov) = (t - v_start_slot v) + ov" by simp_all
  show "unat (v_end_slot v - (v_start_slot v - ov)) = vesting_window v + cliff v"
    unfolding e by (subst unat_add_small) (use assms(1) in \<open>simp_all add: ov w proper_schedule_def\<close>)
  have d: "unat (t - v_start_slot v) = unat t - unat (v_start_slot v)" using assms(2) by (simp add: unat_sub)
  have "unat t < unat (v_end_slot v)" using assms(3) by (simp add: word_less_nat_alt)
  then have "unat (t - v_start_slot v) \<le> vesting_window v" by (simp add: d vesting_window_def)
  then show "unat (t - (v_start_slot v - ov)) = unat t - unat (v_start_slot v) + cliff v"
    unfolding e by (subst unat_add_small) (use assms(1) in \<open>simp_all add: ov d proper_schedule_def\<close>)
qed

text \<open>The two cases of the code's rounding are one: it moves the start back by the remainder.\<close>

lemma linear_unlock_schedule:
  assumes "proper_schedule v" and "v_start_slot v \<le> t" and "t < v_end_slot v"
  shows "linear_unlock v t =
    (if 2 * vesting_window v < unat (v_period_count v) then Inl Panicked
     else Inr (of_nat (schedule v (unat t))))"
proof -
  let ?p = "v_period_count v" and ?b = "v_start_balance v"
  let ?ov = "(v_end_slot v - v_start_slot v) mod ?p"
  let ?s = "v_start_slot v - ?ov"
  note u = unlock_words [OF assms]
  have p: "?p \<noteq> 0" using assms(1) by (simp add: proper_schedule_def)
  have s: "(if ?ov \<noteq> 0 then ?s else v_start_slot v) = ?s" by simp
  define period where "period = (v_end_slot v - ?s) div ?p"
  have period: "unat period = (vesting_window v + cliff v) div unat ?p"
    by (simp add: period_def unat_div_distrib u(1))
  have "linear_unlock v t =
      (if period = 0 then Inl Panicked else Inr (min ((t - ?s) div period) ?p * (?b div ?p)))"
    using p by (simp add: linear_unlock_def rust_rem_def rust_div_def Let_def s period_def)
  moreover have "period = 0 \<longleftrightarrow> 2 * vesting_window v < unat ?p"
    using period period_zero [of "unat ?p" "vesting_window v"] p
    by (metis cliff_def unat_eq_zero)
  moreover have "min ((t - ?s) div period) ?p * (?b div ?p) = of_nat (schedule v (unat t))"
    if "period \<noteq> 0"
  proof -
    have "unat (min ((t - ?s) div period) ?p) =
        min ((unat t - unat (v_start_slot v) + cliff v) div ((vesting_window v + cliff v) div unat ?p)) (unat ?p)"
      by (simp add: min_def word_le_nat_alt unat_div_distrib u(2) period)
    moreover have "\<not> unat (v_end_slot v) \<le> unat t" using assms(3) by (simp add: word_less_nat_alt)
    ultimately have "schedule v (unat t) = unat (min ((t - ?s) div period) ?p) * unat (?b div ?p)"
      by (simp add: schedule_def Let_def unat_div_distrib)
    then show ?thesis by simp
  qed
  ultimately show ?thesis by auto
qed


text \<open>The source's own example: ten tokens over ten slots in five periods.\<close>

definition sample_vesting :: vesting where
  "sample_vesting =
     \<lparr>v_initialized = True, v_claimed = True, v_safe = (1, 0, 0, 0), v_beneficiary = (2, 0, 0, 0),
      v_balance = 10, v_start_balance = 10, v_start_slot = 10, v_end_slot = 20, v_period_count = 5,
      v_locked_nft_mint = (3, 0, 0, 0), v_locked_nft_token = (4, 0, 0, 0), v_whitelist_owned = 0\<rparr>"

lemma sample_vesting_proper: "proper_schedule sample_vesting"
  by (simp add: proper_schedule_def sample_vesting_def vesting_window_def cliff_def)


end
