(* ===== verification/Runtime.thy ===== *)
theory Runtime
  imports Packing
begin

text \<open>
  The accounts a transaction hands to a program and what the SDK and the token program provide:
  system variables, the token program's structs, the addresses derived from seeds, and calls of
  other programs.  None of it is code of the repository: it is the record \<open>runtime\<close>, an
  argument of every handler of the lockup and registry programs.
\<close>

record acct =
  ac_key :: aligned
  ac_owner :: aligned
  ac_is_signer :: bool
  ac_is_writable :: bool
  ac_lamports :: u64
  ac_data :: "u8 list"

text \<open>The token program's \<open>Mint\<close> and \<open>Account\<close>, as far as they are read.\<close>

record token_mint =
  tm_is_initialized :: bool
  tm_mint_authority :: "aligned option"
  tm_supply :: u64

record token_holding =
  th_mint :: aligned
  th_owner :: aligned
  th_amount :: u64
  th_is_initialized :: bool
  th_delegated_amount :: u64

text \<open>The instructions of the token program that are built, and any instruction.\<close>

datatype token_call =
    TokenTransfer (tc_source: aligned) aligned (tc_authority: aligned) (tc_amount: u64)
      \<comment> \<open>source, destination, authority, amount\<close>
  | TokenMintTo aligned aligned aligned u64  \<comment> \<open>mint, account, mint authority, amount\<close>
  | TokenBurn aligned aligned aligned u64  \<comment> \<open>account, mint, authority, amount\<close>
  | TokenApprove aligned aligned aligned u64  \<comment> \<open>account, delegate, owner, amount\<close>
  | TokenRevoke aligned aligned  \<comment> \<open>account, owner\<close>

record account_meta =
  am_pubkey :: aligned
  am_is_signer :: bool
  am_is_writable :: bool

record instruction =
  ix_program_id :: aligned
  ix_accounts :: "account_meta list"
  ix_data :: "u8 list"

record runtime =
  rt_token_id :: aligned
  rt_rent_id :: aligned
  rt_clock_id :: aligned
  rt_rent :: "acct \<Rightarrow> program_error + (u64 \<Rightarrow> nat \<Rightarrow> bool)"  \<comment> \<open>\<open>Rent::from_account_info\<close>, \<open>is_exempt\<close>\<close>
  rt_clock_slot :: "acct \<Rightarrow> program_error + u64"  \<comment> \<open>\<open>Clock::from_account_info\<close>\<close>
  rt_mint :: "u8 list \<Rightarrow> program_error + token_mint"
  rt_holding :: "u8 list \<Rightarrow> program_error + token_holding"
  rt_program_address :: "u8 list list \<Rightarrow> aligned \<Rightarrow> program_error + aligned"
  rt_token_ix :: "aligned \<Rightarrow> token_call \<Rightarrow> program_error + instruction"
  rt_invoke :: "instruction \<Rightarrow> u8 list list option \<Rightarrow> aligned list \<Rightarrow> acct list \<Rightarrow> program_error + acct list"
    \<comment> \<open>the seeds that sign, the accounts passed, and what it leaves of the transaction's accounts\<close>

definition NotEnoughAccountKeys :: program_error where
  "NotEnoughAccountKeys = OtherProgramError 10"

text \<open>\<open>next_account_info\<close>, \<open>n\<close> times: the accounts are then \<open>accounts ! 0\<close> and so on.\<close>

definition next_accounts :: "nat \<Rightarrow> acct list \<Rightarrow> program_fault + unit" where
  "next_accounts n accounts = guard (n \<le> length accounts) (Failed NotEnoughAccountKeys)"

text \<open>An account's data, changed in every place the account was passed in.\<close>

definition put_data :: "aligned \<Rightarrow> u8 list \<Rightarrow> acct list \<Rightarrow> acct list" where
  "put_data k d accounts = map (\<lambda>a. if ac_key a = k then a\<lparr>ac_data := d\<rparr> else a) accounts"

definition fault_of :: "program_error + 'a \<Rightarrow> program_fault + 'a" where
  "fault_of r = map_err Failed r"

text \<open>Building a token instruction and invoking it.\<close>

definition invoke_token ::
  "'m runtime_scheme \<Rightarrow> aligned \<Rightarrow> token_call \<Rightarrow> u8 list list option \<Rightarrow> aligned list \<Rightarrow> acct list \<Rightarrow>
   program_fault + acct list" where
  "invoke_token rt token_program call seeds keys accounts =
     and_then (fault_of (rt_token_ix rt token_program call)) (\<lambda>ix.
     fault_of (rt_invoke rt ix seeds keys accounts))"

lemma fault_of_simps [simp, res_simps]:
  "fault_of (Inr x) = Inr x" "fault_of (Inl e) = Inl (Failed e)"
  by (simp_all add: fault_of_def)

lemma fault_of_eq_Inr [res_simps]: "fault_of r = Inr x \<longleftrightarrow> r = Inr x"
  by (cases r) simp_all

lemma next_accounts_eq_Inr [res_simps]: "next_accounts n accs = Inr u \<longleftrightarrow> n \<le> length accs"
  by (simp add: next_accounts_def res_simps)

lemma length_put_data [simp]: "length (put_data k d accs) = length accs"
  by (simp add: put_data_def)

lemma put_data_keys [simp]: "map ac_key (put_data k d accs) = map ac_key accs"
  by (simp add: put_data_def)

lemma put_data_nth: "i < length accs \<Longrightarrow>
  put_data k d accs ! i = (if ac_key (accs ! i) = k then (accs ! i)\<lparr>ac_data := d\<rparr> else accs ! i)"
  by (simp add: put_data_def)

end
