(* ===== verification/LockupAccounts.thy ===== *)
theory LockupAccounts
  imports LockupErrors VestingSchedule Runtime
begin

text \<open>
  The accounts of the lockup program: the safe (\<open>lockup/src/accounts/safe.rs\<close>), the seeds of its
  vault (\<open>token_vault.rs\<close>), the whitelist in its account's bytes (\<open>whitelist.rs\<close>), and the
  documented formats of the serialised ones.
\<close>

record safe =
  sf_initialized :: bool
  sf_mint :: aligned
  sf_authority :: aligned
  sf_nonce :: u8
  sf_whitelist :: aligned
  sf_vault :: aligned

text \<open>\<open>bincode\<close> on the structs that are stored.\<close>

record lockup_env = runtime +
  le_safe :: "safe codec"
  le_vesting :: "vesting codec"

definition signer_seeds :: "aligned \<Rightarrow> u8 \<Rightarrow> u8 list list" where
  "signer_seeds safe_account nonce = [aligned_bytes safe_account, [nonce]]"

subsection \<open>The whitelist\<close>

record whitelist_entry =
  we_program_id :: aligned
  we_instance :: aligned
  we_nonce :: u8

definition zero_entry :: whitelist_entry where
  "zero_entry = \<lparr>we_program_id = (0, 0, 0, 0), we_instance = (0, 0, 0, 0), we_nonce = 0\<rparr>"

definition ITEM_SIZE :: nat where "ITEM_SIZE = 65"
definition WHITELIST_LEN :: nat where "WHITELIST_LEN = 50"
definition WHITELIST_SIZE :: nat where "WHITELIST_SIZE = 65 * WHITELIST_LEN"

definition derived_address :: "'m runtime_scheme \<Rightarrow> whitelist_entry \<Rightarrow> lockup_fault + aligned" where
  "derived_address rt e =
     map_err (\<lambda>_. lockup_code InvalidWhitelistEntry)
       (rt_program_address rt [aligned_bytes (we_instance e), [we_nonce e]] (we_program_id e))"

definition whitelist_new :: "u8 list \<Rightarrow> lockup_fault + unit" where
  "whitelist_new data = deny (length data \<noteq> WHITELIST_SIZE) WhitelistInvalidData"

definition entry_of_bytes :: "u8 list \<Rightarrow> whitelist_entry" where
  "entry_of_bytes s =
     \<lparr>we_program_id = aligned_of_bytes (cut 0 32 s), we_instance = aligned_of_bytes (cut 32 32 s),
      we_nonce = s ! 64\<rparr>"

definition entry_bytes :: "whitelist_entry \<Rightarrow> u8 list" where
  "entry_bytes e = aligned_bytes (we_program_id e) @ aligned_bytes (we_instance e) @ [we_nonce e]"

text \<open>\<open>array_ref!\<close> panics when the item is not within the data.\<close>

definition get_at :: "u8 list \<Rightarrow> nat \<Rightarrow> lockup_fault + whitelist_entry" where
  "get_at data index =
     (if index * ITEM_SIZE + ITEM_SIZE \<le> length data
      then Inr (entry_of_bytes (cut (index * ITEM_SIZE) ITEM_SIZE data)) else Inl LockupPanic)"

definition add_at :: "u8 list \<Rightarrow> nat \<Rightarrow> whitelist_entry \<Rightarrow> lockup_fault + u8 list" where
  "add_at data index item =
     (if index * ITEM_SIZE + ITEM_SIZE \<le> length data
      then Inr (take (index * ITEM_SIZE) data @ entry_bytes item @ drop (index * ITEM_SIZE + ITEM_SIZE) data)
      else Inl LockupPanic)"

text \<open>\<open>(0..Whitelist::SIZE).step_by(Whitelist::ITEM_SIZE)\<close>\<close>

definition item_offsets :: "nat list" where
  "item_offsets = map (\<lambda>i. i * ITEM_SIZE) [0..<WHITELIST_LEN]"

primrec index_of_from :: "nat list \<Rightarrow> u8 list \<Rightarrow> whitelist_entry \<Rightarrow> lockup_fault + nat option" where
  "index_of_from [] data e = Inr None"
| "index_of_from (k # ks) data e =
     and_then (get_at data (k div ITEM_SIZE)) (\<lambda>entry.
     if entry = e then Inr (Some k) else index_of_from ks data e)"

definition index_of :: "u8 list \<Rightarrow> whitelist_entry \<Rightarrow> lockup_fault + nat option" where
  "index_of data e = index_of_from item_offsets data e"

definition whitelist_push :: "u8 list \<Rightarrow> whitelist_entry \<Rightarrow> lockup_fault + (nat option \<times> u8 list)" where
  "whitelist_push data entry =
     and_then (index_of data entry) (\<lambda>existing_idx.
     and_then (deny (existing_idx \<noteq> None) WhitelistEntryAlreadyExists) (\<lambda>_.
     and_then (index_of data zero_entry) (\<lambda>idx.
     case idx of
       Some i \<Rightarrow> and_then (add_at data i entry) (\<lambda>data'. Inr (Some i, data'))
     | None \<Rightarrow> Inr (None, data))))"

definition whitelist_delete :: "u8 list \<Rightarrow> whitelist_entry \<Rightarrow> lockup_fault + (nat option \<times> u8 list)" where
  "whitelist_delete data entry =
     and_then (index_of data entry) (\<lambda>idx.
     case idx of
       Some i \<Rightarrow> and_then (add_at data i zero_entry) (\<lambda>data'. Inr (Some i, data'))
     | None \<Rightarrow> Inr (None, data))"

primrec get_derived_from ::
  "'m runtime_scheme \<Rightarrow> nat list \<Rightarrow> u8 list \<Rightarrow> aligned \<Rightarrow> lockup_fault + whitelist_entry option" where
  "get_derived_from rt [] data derived = Inr None"
| "get_derived_from rt (k # ks) data derived =
     and_then (get_at data (k div ITEM_SIZE)) (\<lambda>entry.
     and_then (derived_address rt entry) (\<lambda>a.
     if a = derived then Inr (Some entry) else get_derived_from rt ks data derived))"

definition get_derived ::
  "'m runtime_scheme \<Rightarrow> u8 list \<Rightarrow> aligned \<Rightarrow> lockup_fault + whitelist_entry option" where
  "get_derived rt data derived = get_derived_from rt item_offsets data derived"

definition contains_derived :: "'m runtime_scheme \<Rightarrow> u8 list \<Rightarrow> aligned \<Rightarrow> lockup_fault + bool" where
  "contains_derived rt data derived = and_then (get_derived rt data derived) (\<lambda>found. Inr (found \<noteq> None))"

subsection \<open>The formats\<close>

definition safe_format :: "safe codec" where
  "safe_format = map_codec
     (\<lambda>s. (sf_initialized s, sf_mint s, sf_authority s, sf_nonce s, sf_whitelist s, sf_vault s))
     (\<lambda>(i, m, a, n, w, v). \<lparr>sf_initialized = i, sf_mint = m, sf_authority = a, sf_nonce = n,
        sf_whitelist = w, sf_vault = v\<rparr>)
     (pair_codec bool_codec (pair_codec key_codec (pair_codec key_codec (pair_codec u8_codec
       (pair_codec key_codec key_codec)))))"

definition vesting_format :: "vesting codec" where
  "vesting_format = map_codec
     (\<lambda>v. (v_initialized v, v_claimed v, v_safe v, v_beneficiary v, v_balance v, v_start_balance v,
        v_start_slot v, v_end_slot v, v_period_count v, v_locked_nft_mint v, v_locked_nft_token v,
        v_whitelist_owned v))
     (\<lambda>(i, c, s, b, bal, sb, ss, es, p, m, t, w).
        \<lparr>v_initialized = i, v_claimed = c, v_safe = s, v_beneficiary = b, v_balance = bal,
         v_start_balance = sb, v_start_slot = ss, v_end_slot = es, v_period_count = p,
         v_locked_nft_mint = m, v_locked_nft_token = t, v_whitelist_owned = w\<rparr>)
     (pair_codec bool_codec (pair_codec bool_codec (pair_codec key_codec (pair_codec key_codec
       (pair_codec u64_codec (pair_codec u64_codec (pair_codec u64_codec (pair_codec u64_codec
       (pair_codec u64_codec (pair_codec key_codec (pair_codec key_codec u64_codec)))))))))))"

interpretation safe_pack: packing safe_format
  unfolding safe_format_def by (rule map_packing, intro packing_intros) auto

interpretation vesting_pack: packing vesting_format
  unfolding vesting_format_def by (rule map_packing, intro packing_intros) auto

lemma safe_width: "codec_width safe_format 130"
  unfolding safe_format_def
  using codec_width_map [OF codec_width_pair [OF codec_width_prim(2) codec_width_pair [OF codec_width_prim(5)
    codec_width_pair [OF codec_width_prim(5) codec_width_pair [OF codec_width_prim(1)
    codec_width_pair [OF codec_width_prim(5) codec_width_prim(5)]]]]]] by simp

lemma vesting_width: "codec_width vesting_format 178"
  unfolding vesting_format_def
  using codec_width_map [OF codec_width_pair [OF codec_width_prim(2) codec_width_pair [OF codec_width_prim(2)
    codec_width_pair [OF codec_width_prim(5) codec_width_pair [OF codec_width_prim(5)
    codec_width_pair [OF codec_width_prim(4) codec_width_pair [OF codec_width_prim(4)
    codec_width_pair [OF codec_width_prim(4) codec_width_pair [OF codec_width_prim(4)
    codec_width_pair [OF codec_width_prim(4) codec_width_pair [OF codec_width_prim(5)
    codec_width_pair [OF codec_width_prim(5) codec_width_prim(4)]]]]]]]]]]]] by simp

end
