(* ===== verification/LockupAccess.thy ===== *)
theory LockupAccess
  imports LockupAccounts
begin

text \<open>
  The checks of the lockup program's accounts (\<open>lockup/program/src/access_control.rs\<close>), in the
  order of the source.
\<close>

definition access_safe :: "lockup_env \<Rightarrow> acct \<Rightarrow> aligned \<Rightarrow> lockup_fault + safe" where
  "access_safe env acc_info program_id =
     and_then (deny (ac_owner acc_info \<noteq> program_id) InvalidAccountOwner) (\<lambda>_.
     and_then (lockup_try (unpack_account (le_safe env) (ac_data acc_info))) (\<lambda>sf.
     and_then (deny (\<not> sf_initialized sf) NotInitialized) (\<lambda>_. Inr sf)))"

definition governance :: "lockup_env \<Rightarrow> aligned \<Rightarrow> acct \<Rightarrow> acct \<Rightarrow> lockup_fault + safe" where
  "governance env program_id safe_acc_info safe_authority_acc_info =
     and_then (deny (\<not> ac_is_signer safe_authority_acc_info) Unauthorized) (\<lambda>_.
     and_then (access_safe env safe_acc_info program_id) (\<lambda>sf.
     and_then (deny (sf_authority sf \<noteq> ac_key safe_authority_acc_info) Unauthorized) (\<lambda>_. Inr sf)))"

definition access_whitelist :: "acct \<Rightarrow> safe \<Rightarrow> aligned \<Rightarrow> lockup_fault + unit" where
  "access_whitelist wl_acc_info sf program_id =
     and_then (deny (program_id \<noteq> ac_owner wl_acc_info) InvalidAccountOwner) (\<lambda>_.
     and_then (deny (sf_whitelist sf \<noteq> ac_key wl_acc_info) InvalidWhitelist) (\<lambda>_.
     whitelist_new (ac_data wl_acc_info)))"

definition access_vesting :: "lockup_env \<Rightarrow> aligned \<Rightarrow> aligned \<Rightarrow> acct \<Rightarrow> acct \<Rightarrow> lockup_fault + vesting" where
  "access_vesting env program_id safe_key vesting_acc_info vesting_acc_beneficiary_info =
     and_then (lockup_try (unpack_account (le_vesting env) (ac_data vesting_acc_info))) (\<lambda>v.
     and_then (deny (ac_owner vesting_acc_info \<noteq> program_id) InvalidAccount) (\<lambda>_.
     and_then (deny (\<not> v_initialized v) NotInitialized) (\<lambda>_.
     and_then (deny (v_beneficiary v \<noteq> ac_key vesting_acc_beneficiary_info) Unauthorized) (\<lambda>_.
     and_then (deny (v_safe v \<noteq> safe_key) WrongSafe) (\<lambda>_. Inr v)))))"

definition access_rent :: "lockup_env \<Rightarrow> acct \<Rightarrow> lockup_fault + (u64 \<Rightarrow> nat \<Rightarrow> bool)" where
  "access_rent env acc_info =
     and_then (deny (ac_key acc_info \<noteq> rt_rent_id env) InvalidRentSysvar) (\<lambda>_.
     lockup_try (fault_of (rt_rent env acc_info)))"

definition access_clock :: "lockup_env \<Rightarrow> acct \<Rightarrow> lockup_fault + u64" where
  "access_clock env acc_info =
     and_then (deny (ac_key acc_info \<noteq> rt_clock_id env) InvalidClockSysvar) (\<lambda>_.
     lockup_try (fault_of (rt_clock_slot env acc_info)))"

definition access_mint :: "lockup_env \<Rightarrow> acct \<Rightarrow> lockup_fault + token_mint" where
  "access_mint env acc_info =
     and_then (deny (ac_owner acc_info \<noteq> rt_token_id env) InvalidMint) (\<lambda>_.
     and_then (lockup_try (fault_of (rt_mint env (ac_data acc_info)))) (\<lambda>m.
     and_then (deny (\<not> tm_is_initialized m) UnitializedTokenMint) (\<lambda>_. Inr m)))"

definition access_token :: "lockup_env \<Rightarrow> acct \<Rightarrow> lockup_fault + token_holding" where
  "access_token env acc_info =
     and_then (deny (ac_owner acc_info \<noteq> rt_token_id env) InvalidAccountOwner) (\<lambda>_.
     and_then (lockup_try (fault_of (rt_holding env (ac_data acc_info)))) (\<lambda>t.
     and_then (deny (\<not> th_is_initialized t) NotInitialized) (\<lambda>_. Inr t)))"

definition vault_address :: "lockup_env \<Rightarrow> aligned \<Rightarrow> u8 \<Rightarrow> aligned \<Rightarrow> lockup_fault + aligned" where
  "vault_address env safe_addr nonce program_id =
     map_err (\<lambda>_. lockup_code InvalidVaultNonce)
       (rt_program_address env (signer_seeds safe_addr nonce) program_id)"

definition access_vault_authority ::
  "lockup_env \<Rightarrow> acct \<Rightarrow> aligned \<Rightarrow> safe \<Rightarrow> aligned \<Rightarrow> lockup_fault + aligned" where
  "access_vault_authority env vault_authority_acc_info safe_addr sf program_id =
     and_then (vault_address env safe_addr (sf_nonce sf) program_id) (\<lambda>va.
     and_then (deny (va \<noteq> ac_key vault_authority_acc_info) InvalidVault) (\<lambda>_. Inr va))"

definition access_vault ::
  "lockup_env \<Rightarrow> acct \<Rightarrow> acct \<Rightarrow> acct \<Rightarrow> aligned \<Rightarrow> lockup_fault + token_holding" where
  "access_vault env acc_info vault_authority_acc_info safe_acc_info program_id =
     and_then (access_safe env safe_acc_info program_id) (\<lambda>sf.
     and_then (access_token env acc_info) (\<lambda>vault.
     and_then (deny (ac_key acc_info \<noteq> sf_vault sf) InvalidVault) (\<lambda>_.
     and_then (access_vault_authority env vault_authority_acc_info (ac_key safe_acc_info) sf program_id) (\<lambda>va.
     and_then (deny (va \<noteq> th_owner vault) InvalidVault) (\<lambda>_.
     and_then (deny (va \<noteq> ac_key vault_authority_acc_info) InvalidVault) (\<lambda>_. Inr vault))))))"

definition access_locked_token ::
  "lockup_env \<Rightarrow> acct \<Rightarrow> acct \<Rightarrow> aligned \<Rightarrow> vesting \<Rightarrow> lockup_fault + token_holding" where
  "access_locked_token env acc_info mint_acc_info vault_authority v =
     and_then (access_mint env mint_acc_info) (\<lambda>m.
     and_then (deny (tm_mint_authority m \<noteq> Some vault_authority) InvalidMintAuthority) (\<lambda>_.
     and_then (access_token env acc_info) (\<lambda>t.
     and_then (deny (th_owner t \<noteq> v_beneficiary v) InvalidTokenAccountOwner) (\<lambda>_.
     and_then (deny (th_mint t \<noteq> v_locked_nft_mint v) InvalidTokenAccountMint) (\<lambda>_.
     and_then (deny (th_mint t \<noteq> ac_key mint_acc_info) InvalidMint) (\<lambda>_. Inr t))))))"

end
