(* ===== verification/LockupHandlers.thy ===== *)
theory LockupHandlers
  imports LockupAccess
begin

text \<open>
  The handlers of the lockup program (\<open>lockup/program/src/*.rs\<close>): each takes the accounts in
  the order of \<open>next_account_info\<close>, runs its access control, then its state transition inside
  \<open>unpack_mut\<close> of the account it changes, whose bytes are written when the closure returns.
  Instructions to other programs go through the runtime.
\<close>

text \<open>A closure passed to \<open>unpack_mut\<close>: its errors become program errors and come back as such.\<close>

definition update_account_with ::
  "'a codec \<Rightarrow> acct \<Rightarrow> ('a \<Rightarrow> lockup_fault + ('a \<times> acct list)) \<Rightarrow> lockup_fault + acct list" where
  "update_account_with cd acc_info f =
     and_then (lockup_try (unpack_mut cd (ac_data acc_info) (\<lambda>t. map_err program_of_lockup (f t))))
       (\<lambda>(data, accounts). Inr (put_data (ac_key acc_info) data accounts))"

subsection \<open>Initialising a safe, changing its authority\<close>

definition initialize_access :: "lockup_env \<Rightarrow> aligned \<Rightarrow> acct list \<Rightarrow> u8 \<Rightarrow> lockup_fault + unit" where
  "initialize_access env program_id accounts nonce =
     (let safe_acc_info = accounts ! 0; whitelist_acc_info = accounts ! 1; vault_acc_info = accounts ! 2;
          mint_acc_info = accounts ! 3; rent_acc_info = accounts ! 4 in
      and_then (access_rent env rent_acc_info) (\<lambda>is_exempt.
      and_then (lockup_try (unpack_account (le_safe env) (ac_data safe_acc_info))) (\<lambda>sf.
      and_then (deny (ac_owner safe_acc_info \<noteq> program_id) NotOwnedByProgram) (\<lambda>_.
      and_then (deny (\<not> is_exempt (ac_lamports safe_acc_info) (length (ac_data safe_acc_info)))
        NotRentExempt) (\<lambda>_.
      and_then (deny (sf_initialized sf) AlreadyInitialized) (\<lambda>_.
      and_then (deny (ac_owner whitelist_acc_info \<noteq> program_id) InvalidAccountOwner) (\<lambda>_.
      and_then (deny (\<not> is_exempt (ac_lamports whitelist_acc_info) (length (ac_data whitelist_acc_info)))
        NotRentExempt) (\<lambda>_.
      and_then (access_token env vault_acc_info) (\<lambda>vault.
      and_then (vault_address env (ac_key safe_acc_info) nonce program_id) (\<lambda>vault_authority.
      and_then (deny (th_owner vault \<noteq> vault_authority) InvalidVault) (\<lambda>_.
      and_then (deny (\<not> is_exempt (ac_lamports vault_acc_info) (length (ac_data vault_acc_info)))
        NotRentExempt) (\<lambda>_.
      and_then (access_mint env mint_acc_info) (\<lambda>_. Inr ())))))))))))))"

definition initialize_transition ::
  "aligned \<Rightarrow> aligned \<Rightarrow> aligned \<Rightarrow> aligned \<Rightarrow> u8 \<Rightarrow> safe \<Rightarrow> safe" where
  "initialize_transition mint authority whitelist vault nonce sf =
     sf\<lparr>sf_initialized := True, sf_mint := mint, sf_authority := authority, sf_nonce := nonce,
        sf_whitelist := whitelist, sf_vault := vault\<rparr>"

definition handle_initialize ::
  "lockup_env \<Rightarrow> aligned \<Rightarrow> acct list \<Rightarrow> aligned \<Rightarrow> u8 \<Rightarrow> lockup_fault + acct list" where
  "handle_initialize env program_id accounts authority nonce =
     and_then (lockup_try (next_accounts 5 accounts)) (\<lambda>_.
     and_then (initialize_access env program_id accounts nonce) (\<lambda>_.
     update_account_with (le_safe env) (accounts ! 0) (\<lambda>sf.
       Inr (initialize_transition (ac_key (accounts ! 3)) authority (ac_key (accounts ! 1))
              (ac_key (accounts ! 2)) nonce sf, accounts))))"

definition handle_set_authority ::
  "lockup_env \<Rightarrow> aligned \<Rightarrow> acct list \<Rightarrow> aligned \<Rightarrow> lockup_fault + acct list" where
  "handle_set_authority env program_id accounts new_authority =
     and_then (lockup_try (next_accounts 2 accounts)) (\<lambda>_.
     and_then (governance env program_id (accounts ! 1) (accounts ! 0)) (\<lambda>_.
     update_account_with (le_safe env) (accounts ! 1) (\<lambda>sf.
       Inr (sf\<lparr>sf_authority := new_authority\<rparr>, accounts))))"

subsection \<open>Depositing\<close>

definition create_vesting_access ::
  "lockup_env \<Rightarrow> aligned \<Rightarrow> acct list \<Rightarrow> u64 \<Rightarrow> u64 \<Rightarrow> u64 \<Rightarrow> u64 \<Rightarrow> lockup_fault + unit" where
  "create_vesting_access env program_id accounts end_slot period_count deposit_amount clock_slot =
     (let vesting_acc_info = accounts ! 0; depositor_authority_acc_info = accounts ! 2;
          vault_acc_info = accounts ! 3; safe_acc_info = accounts ! 4; nft_mint_acc_info = accounts ! 5;
          vault_authority_acc_info = accounts ! 6; rent_acc_info = accounts ! 8 in
      and_then (deny (\<not> ac_is_signer depositor_authority_acc_info) Unauthorized) (\<lambda>_.
      and_then (access_rent env rent_acc_info) (\<lambda>is_exempt.
      and_then (access_safe env safe_acc_info program_id) (\<lambda>sf.
      and_then (access_vault env vault_acc_info vault_authority_acc_info safe_acc_info program_id) (\<lambda>_.
      and_then (lockup_try (unpack_account (le_vesting env) (ac_data vesting_acc_info))) (\<lambda>v.
      and_then (deny (ac_owner vesting_acc_info \<noteq> program_id) NotOwnedByProgram) (\<lambda>_.
      and_then (deny (\<not> is_exempt (ac_lamports vesting_acc_info) (length (ac_data vesting_acc_info)))
        NotRentExempt) (\<lambda>_.
      and_then (deny (v_initialized v) AlreadyInitialized) (\<lambda>_.
      and_then (deny (end_slot \<le> clock_slot) InvalidSlot) (\<lambda>_.
      and_then (deny (period_count = 0) InvalidPeriod) (\<lambda>_.
      and_then (deny (deposit_amount = 0) InvalidDepositAmount) (\<lambda>_.
      and_then (access_mint env nft_mint_acc_info) (\<lambda>m.
      and_then (vault_address env (ac_key safe_acc_info) (sf_nonce sf) program_id) (\<lambda>vault_authority.
      and_then (deny (tm_mint_authority m \<noteq> Some vault_authority) InvalidMintAuthority) (\<lambda>_.
      deny (tm_supply m \<noteq> 0) InvalidMintSupply)))))))))))))))"

definition new_vesting ::
  "aligned \<Rightarrow> aligned \<Rightarrow> u64 \<Rightarrow> u64 \<Rightarrow> u64 \<Rightarrow> u64 \<Rightarrow> aligned \<Rightarrow> vesting \<Rightarrow> vesting" where
  "new_vesting safe_key beneficiary period_count deposit_amount end_slot clock_slot nft_mint v =
     v\<lparr>v_safe := safe_key, v_beneficiary := beneficiary, v_initialized := True, v_claimed := False,
       v_period_count := period_count, v_start_balance := deposit_amount, v_end_slot := end_slot,
       v_start_slot := clock_slot, v_balance := deposit_amount, v_locked_nft_mint := nft_mint,
       v_whitelist_owned := 0\<rparr>"

definition create_vesting_transition ::
  "lockup_env \<Rightarrow> acct list \<Rightarrow> aligned \<Rightarrow> u64 \<Rightarrow> u64 \<Rightarrow> u64 \<Rightarrow> u64 \<Rightarrow> vesting \<Rightarrow>
   lockup_fault + (vesting \<times> acct list)" where
  "create_vesting_transition env accounts beneficiary end_slot period_count deposit_amount clock_slot v =
     (let depositor = ac_key (accounts ! 1); depositor_authority = ac_key (accounts ! 2);
          vault = ac_key (accounts ! 3); token_program = ac_key (accounts ! 7);
          v' = new_vesting (ac_key (accounts ! 4)) beneficiary period_count deposit_amount end_slot
                 clock_slot (ac_key (accounts ! 5)) v in
      and_then (lockup_try (invoke_token env (rt_token_id env)
        (TokenTransfer depositor vault depositor_authority deposit_amount) None
        [depositor, depositor_authority, vault, token_program] accounts)) (\<lambda>accounts'.
      Inr (v', accounts')))"

definition handle_create_vesting ::
  "lockup_env \<Rightarrow> aligned \<Rightarrow> acct list \<Rightarrow> aligned \<Rightarrow> u64 \<Rightarrow> u64 \<Rightarrow> u64 \<Rightarrow> lockup_fault + acct list" where
  "handle_create_vesting env program_id accounts beneficiary end_slot period_count deposit_amount =
     and_then (lockup_try (next_accounts 10 accounts)) (\<lambda>_.
     and_then (access_clock env (accounts ! 9)) (\<lambda>clock_slot.
     and_then (create_vesting_access env program_id accounts end_slot period_count deposit_amount clock_slot)
       (\<lambda>_.
     update_account_with (le_vesting env) (accounts ! 0)
       (create_vesting_transition env accounts beneficiary end_slot period_count deposit_amount clock_slot))))"

subsection \<open>Claiming\<close>

definition claim_access :: "lockup_env \<Rightarrow> aligned \<Rightarrow> acct list \<Rightarrow> lockup_fault + unit" where
  "claim_access env program_id accounts =
     (let vesting_acc_beneficiary_info = accounts ! 0; vesting_acc_info = accounts ! 1;
          safe_acc_info = accounts ! 2; safe_vault_authority_acc_info = accounts ! 3;
          mint_acc_info = accounts ! 5; token_acc_info = accounts ! 6 in
      and_then (deny (\<not> ac_is_signer vesting_acc_beneficiary_info) Unauthorized) (\<lambda>_.
      and_then (access_safe env safe_acc_info program_id) (\<lambda>sf.
      and_then (access_vault_authority env safe_vault_authority_acc_info (ac_key safe_acc_info) sf program_id) (\<lambda>_.
      and_then (access_vesting env program_id (ac_key safe_acc_info) vesting_acc_info
        vesting_acc_beneficiary_info) (\<lambda>v.
      and_then (access_locked_token env token_acc_info mint_acc_info (ac_key safe_vault_authority_acc_info) v) (\<lambda>_.
      deny (v_claimed v) AlreadyClaimed))))))"

definition claim_transition ::
  "lockup_env \<Rightarrow> acct list \<Rightarrow> u8 \<Rightarrow> vesting \<Rightarrow> lockup_fault + (vesting \<times> acct list)" where
  "claim_transition env accounts nonce v =
     (let safe_key = ac_key (accounts ! 2); token = ac_key (accounts ! 6) in
      and_then (lockup_try (invoke_token env (rt_token_id env)
        (TokenMintTo (ac_key (accounts ! 5)) token (ac_key (accounts ! 3)) (v_start_balance v))
        (Some (signer_seeds safe_key nonce)) (map ac_key accounts) accounts)) (\<lambda>accounts'.
      Inr (v\<lparr>v_claimed := True, v_locked_nft_token := token\<rparr>, accounts')))"

definition handle_claim :: "lockup_env \<Rightarrow> aligned \<Rightarrow> acct list \<Rightarrow> lockup_fault + acct list" where
  "handle_claim env program_id accounts =
     and_then (lockup_try (next_accounts 7 accounts)) (\<lambda>_.
     and_then (claim_access env program_id accounts) (\<lambda>_.
     update_account_with (le_vesting env) (accounts ! 1) (\<lambda>v.
       and_then (lockup_try (unpack_account (le_safe env) (ac_data (accounts ! 2)))) (\<lambda>sf.
       claim_transition env accounts (sf_nonce sf) v))))"

subsection \<open>Redeeming\<close>

definition redeem_access :: "lockup_env \<Rightarrow> aligned \<Rightarrow> acct list \<Rightarrow> u64 \<Rightarrow> lockup_fault + unit" where
  "redeem_access env program_id accounts amount =
     (let vesting_acc_beneficiary_info = accounts ! 0; vesting_acc_info = accounts ! 1;
          safe_vault_acc_info = accounts ! 3; safe_vault_authority_acc_info = accounts ! 4;
          safe_acc_info = accounts ! 5; nft_token_acc_info = accounts ! 6;
          nft_mint_acc_info = accounts ! 7; clock_acc_info = accounts ! 9 in
      and_then (deny (\<not> ac_is_signer vesting_acc_beneficiary_info) Unauthorized) (\<lambda>_.
      and_then (access_safe env safe_acc_info program_id) (\<lambda>_.
      and_then (access_vault env safe_vault_acc_info safe_vault_authority_acc_info safe_acc_info program_id) (\<lambda>_.
      and_then (access_vesting env program_id (ac_key safe_acc_info) vesting_acc_info
        vesting_acc_beneficiary_info) (\<lambda>v.
      and_then (access_locked_token env nft_token_acc_info nft_mint_acc_info
        (ac_key safe_vault_authority_acc_info) v) (\<lambda>_.
      and_then (access_clock env clock_acc_info) (\<lambda>slot.
      and_then (deny (\<not> v_claimed v) NotYetClaimed) (\<lambda>_.
      and_then (lockup_try (available_for_withdrawal v slot)) (\<lambda>available.
      deny (available < amount) InsufficientWithdrawalBalance)))))))))"

definition redeem_transition ::
  "lockup_env \<Rightarrow> acct list \<Rightarrow> u64 \<Rightarrow> vesting \<Rightarrow> lockup_fault + (vesting \<times> acct list)" where
  "redeem_transition env accounts amount v =
     (let to = ac_key (accounts ! 2); safe_vault = ac_key (accounts ! 3);
          vault_authority = ac_key (accounts ! 4); safe_key = ac_key (accounts ! 5);
          nft_token = ac_key (accounts ! 6); nft_mint = ac_key (accounts ! 7);
          token_program = ac_key (accounts ! 8);
          v' = deduct amount v in
      and_then (lockup_try (invoke_token env (rt_token_id env)
        (TokenBurn nft_token nft_mint (v_beneficiary v') amount) None (map ac_key accounts) accounts))
        (\<lambda>accounts1.
      and_then (lockup_try (fault_of (rt_token_ix env (rt_token_id env)
        (TokenTransfer safe_vault to vault_authority amount)))) (\<lambda>withdraw_instruction.
      and_then (lockup_try (unpack_account (le_safe env) (ac_data (accounts1 ! 5)))) (\<lambda>sf.
      and_then (lockup_try (fault_of (rt_invoke env withdraw_instruction
        (Some (signer_seeds safe_key (sf_nonce sf))) [safe_vault, to, vault_authority, token_program]
        accounts1))) (\<lambda>accounts2.
      Inr (v', accounts2))))))"

definition handle_redeem :: "lockup_env \<Rightarrow> aligned \<Rightarrow> acct list \<Rightarrow> u64 \<Rightarrow> lockup_fault + acct list" where
  "handle_redeem env program_id accounts amount =
     and_then (lockup_try (next_accounts 10 accounts)) (\<lambda>_.
     and_then (redeem_access env program_id accounts amount) (\<lambda>_.
     update_account_with (le_vesting env) (accounts ! 1) (redeem_transition env accounts amount)))"

subsection \<open>Lending to and taking back from whitelisted programs\<close>

text \<open>
  The two handlers take the same accounts: beneficiary, vesting, safe, vault authority, program,
  whitelist, then those that are relayed: vault, the program's vault and its authority, token
  program, and the rest.
\<close>

definition whitelist_entry_access ::
  "lockup_env \<Rightarrow> acct list \<Rightarrow> lockup_fault + unit" where
  "whitelist_entry_access env accounts =
     and_then (get_derived env (ac_data (accounts ! 5)) (ac_key (accounts ! 8))) (\<lambda>found.
     and_then (ok_or found (lockup_code WhitelistNotFound)) (\<lambda>entry.
     deny (we_program_id entry \<noteq> ac_key (accounts ! 4)) WhitelistInvalidProgramId))"

definition relay_accounts_access ::
  "lockup_env \<Rightarrow> aligned \<Rightarrow> acct list \<Rightarrow> lockup_fault + vesting" where
  "relay_accounts_access env program_id accounts =
     (let beneficiary_acc_info = accounts ! 0; vesting_acc_info = accounts ! 1;
          safe_acc_info = accounts ! 2; safe_vault_auth_acc_info = accounts ! 3;
          wl_acc_info = accounts ! 5; safe_vault_acc_info = accounts ! 6 in
      and_then (deny (\<not> ac_is_signer beneficiary_acc_info) Unauthorized) (\<lambda>_.
      and_then (access_safe env safe_acc_info program_id) (\<lambda>sf.
      and_then (access_whitelist wl_acc_info sf program_id) (\<lambda>_.
      and_then (access_vault env safe_vault_acc_info safe_vault_auth_acc_info safe_acc_info program_id) (\<lambda>_.
      access_vesting env program_id (ac_key safe_acc_info) vesting_acc_info beneficiary_acc_info)))))"

definition whitelist_withdraw_access ::
  "lockup_env \<Rightarrow> aligned \<Rightarrow> acct list \<Rightarrow> u64 \<Rightarrow> lockup_fault + unit" where
  "whitelist_withdraw_access env program_id accounts amount =
     and_then (relay_accounts_access env program_id accounts) (\<lambda>v.
     and_then (deny (\<not> v_claimed v) NotYetClaimed) (\<lambda>_.
     and_then (deny (available_for_whitelist v < amount) InsufficientWhitelistBalance) (\<lambda>_.
     whitelist_entry_access env accounts)))"

definition whitelist_deposit_access ::
  "lockup_env \<Rightarrow> aligned \<Rightarrow> acct list \<Rightarrow> lockup_fault + unit" where
  "whitelist_deposit_access env program_id accounts =
     and_then (relay_accounts_access env program_id accounts) (\<lambda>v.
     and_then (deny (\<not> v_claimed v) NotYetClaimed) (\<lambda>_.
     whitelist_entry_access env accounts))"

definition relay_instruction :: "acct list \<Rightarrow> u8 list \<Rightarrow> instruction" where
  "relay_instruction accounts instruction_data =
     \<lparr>ix_program_id = ac_key (accounts ! 4),
      ix_accounts =
        [\<lparr>am_pubkey = ac_key (accounts ! 6), am_is_signer = False, am_is_writable = True\<rparr>,
         \<lparr>am_pubkey = ac_key (accounts ! 7), am_is_signer = False, am_is_writable = True\<rparr>,
         \<lparr>am_pubkey = ac_key (accounts ! 8), am_is_signer = False, am_is_writable = False\<rparr>,
         \<lparr>am_pubkey = ac_key (accounts ! 9), am_is_signer = False, am_is_writable = False\<rparr>]
        @ map (\<lambda>a. \<lparr>am_pubkey = ac_key a, am_is_signer = ac_is_signer a, am_is_writable = ac_is_writable a\<rparr>)
            (drop 10 accounts),
      ix_data = instruction_data\<rparr>"

definition whitelist_withdraw_transition ::
  "lockup_env \<Rightarrow> acct list \<Rightarrow> u64 \<Rightarrow> u8 list \<Rightarrow> u8 \<Rightarrow> vesting \<Rightarrow> lockup_fault + (vesting \<times> acct list)" where
  "whitelist_withdraw_transition env accounts amount instruction_data nonce v =
     (let safe_key = ac_key (accounts ! 2); vault_auth = ac_key (accounts ! 3);
          safe_vault = ac_key (accounts ! 6); wl_vault_authority = ac_key (accounts ! 8);
          token_program = ac_key (accounts ! 9); seeds = signer_seeds safe_key nonce;
          keys = map ac_key accounts in
      and_then (lockup_try (invoke_token env token_program
        (TokenApprove safe_vault wl_vault_authority vault_auth amount) (Some seeds) keys accounts)) (\<lambda>accounts1.
      and_then (lockup_try (fault_of (rt_invoke env (relay_instruction accounts instruction_data) None
        keys accounts1))) (\<lambda>accounts2.
      and_then (lockup_try (invoke_token env token_program (TokenRevoke safe_vault vault_auth)
        (Some seeds) keys accounts2)) (\<lambda>accounts3.
      and_then (lockup_try (fault_of (rt_holding env (ac_data (accounts3 ! 6))))) (\<lambda>vault.
      let amount_transferred = amount - th_delegated_amount vault in
      Inr (v\<lparr>v_whitelist_owned := v_whitelist_owned v + amount_transferred\<rparr>, accounts3))))))"

definition handle_whitelist_withdraw ::
  "lockup_env \<Rightarrow> aligned \<Rightarrow> acct list \<Rightarrow> u64 \<Rightarrow> u8 list \<Rightarrow> lockup_fault + acct list" where
  "handle_whitelist_withdraw env program_id accounts amount instruction_data =
     and_then (lockup_try (next_accounts 10 accounts)) (\<lambda>_.
     and_then (whitelist_withdraw_access env program_id accounts amount) (\<lambda>_.
     update_account_with (le_vesting env) (accounts ! 1) (\<lambda>v.
       and_then (lockup_try (unpack_account (le_safe env) (ac_data (accounts ! 2)))) (\<lambda>sf.
       whitelist_withdraw_transition env accounts amount instruction_data (sf_nonce sf) v))))"

definition whitelist_deposit_transition ::
  "lockup_env \<Rightarrow> acct list \<Rightarrow> u8 list \<Rightarrow> u8 \<Rightarrow> vesting \<Rightarrow> lockup_fault + (vesting \<times> acct list)" where
  "whitelist_deposit_transition env accounts instruction_data nonce v =
     and_then (lockup_try (fault_of (rt_holding env (ac_data (accounts ! 6))))) (\<lambda>before.
     and_then (lockup_try (fault_of (rt_invoke env (relay_instruction accounts instruction_data)
       (Some (signer_seeds (ac_key (accounts ! 2)) nonce)) (map ac_key accounts) accounts))) (\<lambda>accounts1.
     and_then (lockup_try (fault_of (rt_holding env (ac_data (accounts1 ! 6))))) (\<lambda>vault.
     and_then (lockup_assert (th_amount before < th_amount vault)) (\<lambda>_.
     let deposit_amount = th_amount vault - th_amount before in
     and_then (lockup_assert (deposit_amount \<le> v_whitelist_owned v)) (\<lambda>_.
     Inr (v\<lparr>v_whitelist_owned := v_whitelist_owned v - deposit_amount\<rparr>, accounts1))))))"

definition handle_whitelist_deposit ::
  "lockup_env \<Rightarrow> aligned \<Rightarrow> acct list \<Rightarrow> u8 list \<Rightarrow> lockup_fault + acct list" where
  "handle_whitelist_deposit env program_id accounts instruction_data =
     and_then (lockup_try (next_accounts 10 accounts)) (\<lambda>_.
     and_then (whitelist_deposit_access env program_id accounts) (\<lambda>_.
     update_account_with (le_vesting env) (accounts ! 1) (\<lambda>v.
       and_then (lockup_try (unpack_account (le_safe env) (ac_data (accounts ! 2)))) (\<lambda>sf.
       whitelist_deposit_transition env accounts instruction_data (sf_nonce sf) v))))"

subsection \<open>The whitelist\<close>

definition whitelist_admin_access :: "lockup_env \<Rightarrow> aligned \<Rightarrow> acct list \<Rightarrow> lockup_fault + unit" where
  "whitelist_admin_access env program_id accounts =
     and_then (governance env program_id (accounts ! 1) (accounts ! 0)) (\<lambda>sf.
     access_whitelist (accounts ! 2) sf program_id)"

definition handle_whitelist_add ::
  "lockup_env \<Rightarrow> aligned \<Rightarrow> acct list \<Rightarrow> whitelist_entry \<Rightarrow> lockup_fault + acct list" where
  "handle_whitelist_add env program_id accounts wl_entry =
     and_then (lockup_try (next_accounts 3 accounts)) (\<lambda>_.
     and_then (whitelist_admin_access env program_id accounts) (\<lambda>_.
     and_then (whitelist_new (ac_data (accounts ! 2))) (\<lambda>_.
     and_then (whitelist_push (ac_data (accounts ! 2)) wl_entry) (\<lambda>(idx, data).
     and_then (ok_or idx (lockup_code WhitelistFull)) (\<lambda>_.
     Inr (put_data (ac_key (accounts ! 2)) data accounts))))))"

definition handle_whitelist_delete ::
  "lockup_env \<Rightarrow> aligned \<Rightarrow> acct list \<Rightarrow> whitelist_entry \<Rightarrow> lockup_fault + acct list" where
  "handle_whitelist_delete env program_id accounts wl_entry =
     and_then (lockup_try (next_accounts 3 accounts)) (\<lambda>_.
     and_then (whitelist_admin_access env program_id accounts) (\<lambda>_.
     and_then (whitelist_new (ac_data (accounts ! 2))) (\<lambda>_.
     and_then (whitelist_delete (ac_data (accounts ! 2)) wl_entry) (\<lambda>(idx, data).
     and_then (ok_or idx (lockup_code WhitelistNotFound)) (\<lambda>_.
     Inr (put_data (ac_key (accounts ! 2)) data accounts))))))"

subsection \<open>Migrating\<close>

definition migrate_transition ::
  "lockup_env \<Rightarrow> acct list \<Rightarrow> u64 \<Rightarrow> safe \<Rightarrow> lockup_fault + (safe \<times> acct list)" where
  "migrate_transition env accounts safe_vault_amount sf =
     (let safe_key = ac_key (accounts ! 1); safe_vault = ac_key (accounts ! 2);
          vault_authority = ac_key (accounts ! 3); receiver = ac_key (accounts ! 4);
          token_program = ac_key (accounts ! 5) in
      and_then (lockup_try (invoke_token env (rt_token_id env)
        (TokenTransfer safe_vault receiver vault_authority safe_vault_amount)
        (Some (signer_seeds safe_key (sf_nonce sf))) [safe_vault, receiver, vault_authority, token_program]
        accounts)) (\<lambda>accounts'.
      Inr (sf, accounts')))"

definition handle_migrate :: "lockup_env \<Rightarrow> aligned \<Rightarrow> acct list \<Rightarrow> lockup_fault + acct list" where
  "handle_migrate env program_id accounts =
     and_then (lockup_try (next_accounts 6 accounts)) (\<lambda>_.
     and_then (governance env program_id (accounts ! 1) (accounts ! 0)) (\<lambda>_.
     update_account_with (le_safe env) (accounts ! 1) (\<lambda>sf.
       and_then (lockup_try (fault_of (rt_holding env (ac_data (accounts ! 2))))) (\<lambda>vault.
       migrate_transition env accounts (th_amount vault) sf))))"

end
