(* ===== verification/LockupProgram.thy ===== *)
theory LockupProgram
  imports LockupHandlers
begin

text \<open>
  The instructions of the lockup program (\<open>lockup/src/lib.rs\<close>) and its entrypoint
  (\<open>lockup/program/src/lib.rs\<close>).
\<close>

datatype lockup_instruction =
    Initialize aligned u8  \<comment> \<open>authority, nonce\<close>
  | CreateVesting aligned u64 u64 u64  \<comment> \<open>beneficiary, end slot, period count, deposit\<close>
  | Claim
  | Redeem u64
  | WhitelistWithdraw u64 "u8 list"
  | WhitelistDeposit "u8 list"
  | WhitelistAdd whitelist_entry
  | WhitelistDelete whitelist_entry
  | SetAuthority aligned
  | Migrate

definition run_lockup ::
  "lockup_env \<Rightarrow> aligned \<Rightarrow> acct list \<Rightarrow> lockup_instruction \<Rightarrow> lockup_fault + acct list" where
  "run_lockup env program_id accounts i =
     (case i of
        Initialize authority nonce \<Rightarrow> handle_initialize env program_id accounts authority nonce
      | CreateVesting beneficiary end_slot period_count deposit_amount \<Rightarrow>
          handle_create_vesting env program_id accounts beneficiary end_slot period_count deposit_amount
      | Claim \<Rightarrow> handle_claim env program_id accounts
      | Redeem amount \<Rightarrow> handle_redeem env program_id accounts amount
      | WhitelistWithdraw amount instruction_data \<Rightarrow>
          handle_whitelist_withdraw env program_id accounts amount instruction_data
      | WhitelistDeposit instruction_data \<Rightarrow>
          handle_whitelist_deposit env program_id accounts instruction_data
      | WhitelistAdd entry \<Rightarrow> handle_whitelist_add env program_id accounts entry
      | WhitelistDelete entry \<Rightarrow> handle_whitelist_delete env program_id accounts entry
      | SetAuthority new_authority \<Rightarrow> handle_set_authority env program_id accounts new_authority
      | Migrate \<Rightarrow> handle_migrate env program_id accounts)"

definition lockup_entry ::
  "lockup_env \<Rightarrow> lockup_instruction codec \<Rightarrow> aligned \<Rightarrow> acct list \<Rightarrow> u8 list \<Rightarrow> program_fault + acct list" where
  "lockup_entry env instruction_codec program_id accounts instruction_data =
     map_err program_of_lockup
       (and_then (map_err (\<lambda>f. case f of Failed _ \<Rightarrow> lockup_code WrongSerialization | Panicked \<Rightarrow> LockupPanic)
         (unpack_account instruction_codec instruction_data)) (\<lambda>i.
        run_lockup env program_id accounts i))"

end
