(* ===== verification/LockupWhitelist.thy ===== *)
theory LockupWhitelist
  imports LockupHandlers
begin

text \<open>
  What the whitelist of the lockup program holds, as a list of entries, and what adding and
  deleting do to it.  The searches return byte offsets where the updates take item numbers:
  only the first item can ever be written.
\<close>

definition wl_entries :: "u8 list \<Rightarrow> whitelist_entry list" where
  "wl_entries data = map (\<lambda>i. entry_of_bytes (cut (i * ITEM_SIZE) ITEM_SIZE data)) [0..<WHITELIST_LEN]"

lemma whitelist_sizes: "ITEM_SIZE = 65" "WHITELIST_LEN = 50" "WHITELIST_SIZE = 3250"
  by (simp_all add: ITEM_SIZE_def WHITELIST_LEN_def WHITELIST_SIZE_def)

lemma length_wl_entries [simp]: "length (wl_entries data) = 50"
  by (simp add: wl_entries_def whitelist_sizes)

lemma get_at_entry:
  assumes "length data = WHITELIST_SIZE" "i < 50"
  shows "get_at data i = Inr (wl_entries data ! i)"
  using assms by (simp add: get_at_def wl_entries_def whitelist_sizes)

lemma length_entry_bytes [simp]: "length (entry_bytes e) = 65"
  by (simp add: entry_bytes_def)

lemma entry_of_entry_bytes [simp]: "entry_of_bytes (entry_bytes e) = e"
  by (simp add: entry_of_bytes_def entry_bytes_def cut_def nth_append)

text \<open>The search: the byte offset of the first item that is the entry.\<close>

lemma index_of_from_run:
  assumes "length data = WHITELIST_SIZE" "\<forall>j\<in>set js. j < 50"
  shows "index_of_from (map (\<lambda>j. j * ITEM_SIZE) js) data e =
    Inr (map_option (\<lambda>j. j * ITEM_SIZE) (find (\<lambda>j. wl_entries data ! j = e) js))"
  using assms(2)
proof (induction js)
  case (Cons j js)
  then show ?case using get_at_entry [OF assms(1), of j] by (simp add: whitelist_sizes)
qed simp

lemma index_of_run:
  assumes "length data = WHITELIST_SIZE"
  shows "index_of data e = Inr (map_option (\<lambda>j. j * ITEM_SIZE) (find (\<lambda>j. wl_entries data ! j = e) [0..<50]))"
  using index_of_from_run [OF assms, of "[0..<50]" e]
  by (simp add: index_of_def item_offsets_def whitelist_sizes)

lemma index_of_cases:
  assumes "length data = WHITELIST_SIZE"
  obtains (absent) "e \<notin> set (wl_entries data)" "index_of data e = Inr None"
  | (first) "wl_entries data ! 0 = e" "e \<in> set (wl_entries data)" "index_of data e = Inr (Some 0)"
  | (later) j where "wl_entries data ! 0 \<noteq> e" "e \<in> set (wl_entries data)" "0 < j" "j < 50"
      "index_of data e = Inr (Some (j * ITEM_SIZE))"
proof (cases "find (\<lambda>j. wl_entries data ! j = e) [0..<50]")
  case None
  then have "\<forall>j<50. wl_entries data ! j \<noteq> e" by (auto simp: find_None_iff)
  then have "e \<notin> set (wl_entries data)" by (auto simp: in_set_conv_nth)
  then show ?thesis using absent None index_of_run [OF assms, of e] by simp
next
  case (Some j)
  then obtain i where i: "i < 50" "wl_entries data ! i = e" "j = i" "\<forall>k<i. wl_entries data ! k \<noteq> e"
    by (auto simp: find_Some_iff)
  then have mem: "e \<in> set (wl_entries data)" by (metis length_wl_entries nth_mem)
  show ?thesis
  proof (cases "i = 0")
    case True
    then show ?thesis using first i mem Some index_of_run [OF assms, of e] by simp
  next
    case False
    then show ?thesis using later [of i] i mem Some index_of_run [OF assms, of e] by simp
  qed
qed

text \<open>The update takes the offset for an item number: only offset zero is one.\<close>

lemma add_at_offset:
  assumes "length data = WHITELIST_SIZE"
  shows "add_at data 0 e = Inr (entry_bytes e @ drop ITEM_SIZE data)"
    and "0 < j \<Longrightarrow> add_at data (j * ITEM_SIZE) e = Inl LockupPanic"
  using assms by (simp_all add: add_at_def whitelist_sizes)

lemma wl_entries_first:
  assumes "length data = WHITELIST_SIZE"
  shows "wl_entries (entry_bytes e @ drop ITEM_SIZE data) = (wl_entries data)[0 := e]"
proof (rule nth_equalityI)
  fix i assume "i < length (wl_entries (entry_bytes e @ drop ITEM_SIZE data))"
  then have i: "i < 50" by simp
  show "wl_entries (entry_bytes e @ drop ITEM_SIZE data) ! i = (wl_entries data)[0 := e] ! i"
  proof (cases i)
    case 0
    then show ?thesis by (simp add: wl_entries_def whitelist_sizes cut_def del: upt_Suc)
  next
    case (Suc k)
    then have "cut (i * 65) 65 (entry_bytes e @ drop 65 data) = cut (i * 65) 65 data"
      by (simp add: cut_def add.commute)
    then show ?thesis using Suc i by (simp add: wl_entries_def whitelist_sizes del: upt_Suc)
  qed
qed simp

text \<open>
  Claim C24: adding to and deleting from a whitelist works on its first item only.  An entry that is
  there is refused, an entry that is not there cannot be deleted, and a list without a free item
  is reported as full; but whenever the item to be written is not the first the program panics,
  so that a whitelist never holds more than the one entry added to a fresh list.
\<close>

theorem whitelist_first_slot_only:
  assumes "length data = WHITELIST_SIZE"
  defines "es \<equiv> wl_entries data"
  shows "whitelist_push data e =
      (if e \<in> set es then Inl (lockup_code WhitelistEntryAlreadyExists)
       else if zero_entry \<notin> set es then Inr (None, data)
       else if es ! 0 = zero_entry then Inr (Some 0, entry_bytes e @ drop ITEM_SIZE data)
       else Inl LockupPanic) \<and>
    whitelist_delete data e =
      (if e \<notin> set es then Inr (None, data)
       else if es ! 0 = e then Inr (Some 0, entry_bytes zero_entry @ drop ITEM_SIZE data)
       else Inl LockupPanic) \<and>
    wl_entries (entry_bytes x @ drop ITEM_SIZE data) = es[0 := x]"
proof (intro conjI)
  note add = add_at_offset [OF assms(1)]
  show "whitelist_push data e =
      (if e \<in> set es then Inl (lockup_code WhitelistEntryAlreadyExists)
       else if zero_entry \<notin> set es then Inr (None, data)
       else if es ! 0 = zero_entry then Inr (Some 0, entry_bytes e @ drop ITEM_SIZE data)
       else Inl LockupPanic)"
    by (rule index_of_cases [OF assms(1), of e]; rule index_of_cases [OF assms(1), of zero_entry])
      (simp_all add: whitelist_push_def es_def add)
  show "whitelist_delete data e =
      (if e \<notin> set es then Inr (None, data)
       else if es ! 0 = e then Inr (Some 0, entry_bytes zero_entry @ drop ITEM_SIZE data)
       else Inl LockupPanic)"
    by (rule index_of_cases [OF assms(1), of e]) (simp_all add: whitelist_delete_def es_def add)
  show "wl_entries (entry_bytes x @ drop ITEM_SIZE data) = es[0 := x]"
    unfolding es_def by (rule wl_entries_first [OF assms(1)])
qed

text \<open>A fresh list: one entry goes in, the next one panics.\<close>

definition sample_entry :: "u64 \<Rightarrow> whitelist_entry" where
  "sample_entry n = \<lparr>we_program_id = (n, 0, 0, 0), we_instance = (n, 1, 0, 0), we_nonce = 1\<rparr>"

lemma zero_entry_bytes: "entry_bytes zero_entry = replicate 65 0"
  by (simp add: entry_bytes_def zero_entry_def aligned_bytes_def bytes_of_words_def u64_to_le_def numeral_eq_Suc)

lemma fresh_entries: "wl_entries (replicate WHITELIST_SIZE 0) = replicate 50 zero_entry"
proof (rule nth_equalityI)
  fix i assume "i < length (wl_entries (replicate WHITELIST_SIZE 0))"
  then have i: "i < 50" by simp
  then have "cut (i * 65) 65 (replicate 3250 0) = replicate 65 (0 :: u8)" by (simp add: cut_def)
  moreover have "entry_of_bytes (replicate 65 0) = zero_entry"
    using entry_of_entry_bytes [of zero_entry] unfolding zero_entry_bytes .
  ultimately show "wl_entries (replicate WHITELIST_SIZE 0) ! i = replicate 50 zero_entry ! i"
    using i by (simp add: wl_entries_def whitelist_sizes del: upt_Suc replicate.simps replicate_Suc)
qed simp

lemma sample_entry_neq: "sample_entry 1 \<noteq> zero_entry" "sample_entry 2 \<noteq> zero_entry"
  "sample_entry 1 \<noteq> sample_entry 2"
  by (simp_all add: sample_entry_def zero_entry_def)

theorem whitelist_first_slot_only_witness:
  defines "fresh \<equiv> replicate WHITELIST_SIZE 0"
  shows "\<exists>data. whitelist_push fresh (sample_entry 1) = Inr (Some 0, data) \<and>
    whitelist_push data (sample_entry 1) = Inl (lockup_code WhitelistEntryAlreadyExists) \<and>
    whitelist_push data (sample_entry 2) = Inl LockupPanic"
proof -
  let ?d = "entry_bytes (sample_entry 1) @ drop ITEM_SIZE fresh"
  have len: "length fresh = WHITELIST_SIZE" "length ?d = WHITELIST_SIZE"
    by (simp_all add: fresh_def whitelist_sizes)
  have es: "wl_entries fresh = replicate 50 zero_entry" unfolding fresh_def by (rule fresh_entries)
  then have "wl_entries ?d = (replicate 50 zero_entry)[0 := sample_entry 1]"
    using whitelist_first_slot_only [OF len(1), of undefined "sample_entry 1"] by simp
  then have ed: "wl_entries ?d = sample_entry 1 # replicate 49 zero_entry"
    by (simp add: numeral_eq_Suc)
  have "whitelist_push fresh (sample_entry 1) = Inr (Some 0, ?d)"
    using whitelist_first_slot_only [OF len(1), of "sample_entry 1"] es sample_entry_neq by simp
  moreover have "whitelist_push ?d (sample_entry 1) = Inl (lockup_code WhitelistEntryAlreadyExists)"
    using whitelist_first_slot_only [OF len(2), of "sample_entry 1"] ed by simp
  moreover have "whitelist_push ?d (sample_entry 2) = Inl LockupPanic"
    using whitelist_first_slot_only [OF len(2), of "sample_entry 2"] ed sample_entry_neq by simp
  ultimately show ?thesis by blast
qed

end
