(* ===== verification/LockupGuards.thy ===== *)
theory LockupGuards
  imports LockupProgram LockupWhitelist
begin

text \<open>
  Who may run which instruction of the lockup program, and which bytes are which account: an
  account that unpacks as a safe is no vesting account and no whitelist.
\<close>

subsection \<open>Accounts as bytes\<close>

definition safe_bytes :: "safe \<Rightarrow> u8 list" where
  "safe_bytes sf = the (cd_encode safe_format sf)"

definition vesting_bytes :: "vesting \<Rightarrow> u8 list" where
  "vesting_bytes v = the (cd_encode vesting_format v)"

lemma safe_encoded: "cd_encode safe_format sf = Some (safe_bytes sf)" "length (safe_bytes sf) = 130"
  using safe_width by (auto simp: codec_width_def safe_bytes_def dest!: spec [of _ sf])

lemma vesting_encoded:
  "cd_encode vesting_format v = Some (vesting_bytes v)" "length (vesting_bytes v) = 178"
  using vesting_width by (auto simp: codec_width_def vesting_bytes_def dest!: spec [of _ v])

lemma unpack_safe [res_simps]: "unpack_account safe_format d = Inr sf \<longleftrightarrow> d = safe_bytes sf"
  by (auto simp: safe_pack.unpack_exact_bytes safe_encoded)

lemma unpack_vesting [res_simps]: "unpack_account vesting_format d = Inr v \<longleftrightarrow> d = vesting_bytes v"
  by (auto simp: vesting_pack.unpack_exact_bytes vesting_encoded)

lemma pack_safe: "length d = 130 \<Longrightarrow> pack_account safe_format sf d = Inr (safe_bytes sf)"
  using safe_pack.pack_account_run [of d sf "safe_bytes sf"] safe_encoded by simp

lemma pack_vesting: "length d = 178 \<Longrightarrow> pack_account vesting_format v d = Inr (vesting_bytes v)"
  using vesting_pack.pack_account_run [of d v "vesting_bytes v"] vesting_encoded by simp

lemma safe_bytes_unpacks [simp]: "unpack_account safe_format (safe_bytes sf) = Inr sf"
  by (simp add: unpack_safe)

lemma vesting_bytes_unpacks [simp]: "unpack_account vesting_format (vesting_bytes v) = Inr v"
  by (simp add: unpack_vesting)

lemma safe_reads: "reads safe_format 130 (\<lambda>bs. bs ! 0 \<in> {0, 1})"
  using reads_map [OF reads_pair [OF reads_prim(4) reads_pair [OF reads_prim(3) reads_pair [OF reads_prim(3)
    reads_pair [OF reads_prim(1) reads_pair [OF reads_prim(3) reads_prim(3)]]]]]]
  unfolding safe_format_def by simp

lemma vesting_reads: "reads vesting_format 178 (\<lambda>bs. bs ! 0 \<in> {0, 1} \<and> drop 1 bs ! 0 \<in> {0, 1})"
  using reads_map [OF reads_pair [OF reads_prim(4) reads_pair [OF reads_prim(4) reads_pair [OF reads_prim(3)
    reads_pair [OF reads_prim(3) reads_pair [OF reads_prim(2) reads_pair [OF reads_prim(2)
    reads_pair [OF reads_prim(2) reads_pair [OF reads_prim(2) reads_pair [OF reads_prim(2)
    reads_pair [OF reads_prim(3) reads_pair [OF reads_prim(3) reads_prim(2)]]]]]]]]]]]]
  unfolding vesting_format_def by simp

text \<open>
  Claim C25: the three kinds of account of the lockup program cannot be taken for one another.
  Exactly the byte strings of length 130 that start with a boolean are safes, those of length
  178 that start with two booleans are vesting accounts, and those of length 3250 whitelists,
  whatever else they contain; and every safe and every vesting record has exactly one string.
\<close>

theorem lockup_account_types:
  "((\<exists>sf. unpack_account safe_format d = Inr sf) \<longleftrightarrow> length d = 130 \<and> d ! 0 \<in> {0, 1}) \<and>
   ((\<exists>v. unpack_account vesting_format d = Inr v) \<longleftrightarrow> length d = 178 \<and> d ! 0 \<in> {0, 1} \<and> d ! 1 \<in> {0, 1}) \<and>
   (whitelist_new d = Inr () \<longleftrightarrow> length d = 3250) \<and>
   (\<exists>!bs. unpack_account safe_format bs = Inr sf) \<and> (\<exists>!bs. unpack_account vesting_format bs = Inr v)"
proof (intro conjI)
  show "(\<exists>sf. unpack_account safe_format d = Inr sf) \<longleftrightarrow> length d = 130 \<and> d ! 0 \<in> {0, 1}"
    by (rule reads_unpack [OF safe_reads]) simp
  show "(\<exists>v. unpack_account vesting_format d = Inr v) \<longleftrightarrow> length d = 178 \<and> d ! 0 \<in> {0, 1} \<and> d ! 1 \<in> {0, 1}"
    by (rule trans [OF reads_unpack [OF vesting_reads]]) (auto simp del: insert_iff)
  show "\<exists>!bs. unpack_account safe_format bs = Inr sf" "\<exists>!bs. unpack_account vesting_format bs = Inr v"
    by (simp_all add: unpack_safe unpack_vesting)
  show "whitelist_new d = Inr () \<longleftrightarrow> length d = 3250"
    by (auto simp: whitelist_new_def whitelist_sizes res_simps)
qed

subsection \<open>What an accepted instruction has checked\<close>

lemmas access_defs = initialize_access_def create_vesting_access_def claim_access_def redeem_access_def
  whitelist_withdraw_access_def whitelist_deposit_access_def relay_accounts_access_def
  whitelist_admin_access_def governance_def access_vesting_def access_safe_def

lemma access_safe_run [res_simps]:
  "access_safe env a p = Inr sf \<longleftrightarrow>
    ac_owner a = p \<and> unpack_account (le_safe env) (ac_data a) = Inr sf \<and> sf_initialized sf"
  by (auto simp: access_safe_def res_simps)

lemma access_vesting_run [res_simps]:
  "access_vesting env p s a b = Inr v \<longleftrightarrow>
    unpack_account (le_vesting env) (ac_data a) = Inr v \<and> ac_owner a = p \<and> v_initialized v
    \<and> v_beneficiary v = ac_key b \<and> v_safe v = s"
  by (auto simp: access_vesting_def res_simps)

lemma governance_run [res_simps]:
  "governance env p s a = Inr sf \<longleftrightarrow>
    ac_is_signer a \<and> access_safe env s p = Inr sf \<and> sf_authority sf = ac_key a"
  by (auto simp: governance_def res_simps simp del: access_safe_run)

text \<open>The account that has to have signed, and why it may.\<close>

definition beneficiary_signs :: "lockup_env \<Rightarrow> aligned \<Rightarrow> acct \<Rightarrow> acct \<Rightarrow> bool" where
  "beneficiary_signs env program_id a vesting_acc \<longleftrightarrow>
     ac_is_signer a \<and> ac_owner vesting_acc = program_id \<and>
     (case unpack_account (le_vesting env) (ac_data vesting_acc) of
        Inr v \<Rightarrow> v_initialized v \<and> v_beneficiary v = ac_key a | Inl _ \<Rightarrow> False)"

definition authority_signs :: "lockup_env \<Rightarrow> aligned \<Rightarrow> acct \<Rightarrow> acct \<Rightarrow> bool" where
  "authority_signs env program_id a safe_acc \<longleftrightarrow>
     ac_is_signer a \<and> ac_owner safe_acc = program_id \<and>
     (case unpack_account (le_safe env) (ac_data safe_acc) of
        Inr sf \<Rightarrow> sf_initialized sf \<and> sf_authority sf = ac_key a | Inl _ \<Rightarrow> False)"

definition authorised :: "lockup_env \<Rightarrow> aligned \<Rightarrow> acct list \<Rightarrow> lockup_instruction \<Rightarrow> bool" where
  "authorised env program_id accounts i =
     (case i of
        Initialize authority nonce \<Rightarrow>
          (case unpack_account (le_safe env) (ac_data (accounts ! 0)) of
             Inr sf \<Rightarrow> \<not> sf_initialized sf | Inl _ \<Rightarrow> False)
      | CreateVesting b e n d \<Rightarrow> ac_is_signer (accounts ! 2)
      | Claim \<Rightarrow> beneficiary_signs env program_id (accounts ! 0) (accounts ! 1)
      | Redeem amount \<Rightarrow> beneficiary_signs env program_id (accounts ! 0) (accounts ! 1)
      | WhitelistWithdraw amount d \<Rightarrow> beneficiary_signs env program_id (accounts ! 0) (accounts ! 1)
      | WhitelistDeposit d \<Rightarrow> beneficiary_signs env program_id (accounts ! 0) (accounts ! 1)
      | WhitelistAdd e \<Rightarrow> authority_signs env program_id (accounts ! 0) (accounts ! 1)
      | WhitelistDelete e \<Rightarrow> authority_signs env program_id (accounts ! 0) (accounts ! 1)
      | SetAuthority a \<Rightarrow> authority_signs env program_id (accounts ! 0) (accounts ! 1)
      | Migrate \<Rightarrow> authority_signs env program_id (accounts ! 0) (accounts ! 1))"

lemma create_needs_signer:
  "create_vesting_access env p accs e n d t = Inr u \<Longrightarrow> ac_is_signer (accs ! 2)"
  by (simp add: create_vesting_access_def Let_def res_simps)

lemma beneficiary_needed:
  "claim_access env p accs = Inr u \<Longrightarrow> beneficiary_signs env p (accs ! 0) (accs ! 1)"
  "redeem_access env p accs amount = Inr u \<Longrightarrow> beneficiary_signs env p (accs ! 0) (accs ! 1)"
  "relay_accounts_access env p accs = Inr v \<Longrightarrow> beneficiary_signs env p (accs ! 0) (accs ! 1)"
  by (auto simp: claim_access_def redeem_access_def relay_accounts_access_def Let_def res_simps
      beneficiary_signs_def)

lemma authority_needed:
  "governance env p s a = Inr sf \<Longrightarrow> authority_signs env p a s"
  by (auto simp: authority_signs_def res_simps)

end
