(* ===== verification/LockupLaws.thy ===== *)
theory LockupLaws
  imports LockupGuards
begin

text \<open>
  What the lockup program relies on: the documented behaviour of the runtime and of the token
  program, as predicates on the parameters of the model (\<open>honest_runtime\<close>, \<open>unique_vaults\<close>), and
  the accounts of the chain (\<open>chain_state\<close>) from which a transaction takes its list and to which it
  commits it.
\<close>

text \<open>Addresses are tuples of words: no splitting of their quantifiers.\<close>

declare split_paired_All [simp del] split_paired_Ex [simp del]

subsection \<open>The accounts of a transaction\<close>

text \<open>An address may be listed more than once: it is one account.\<close>

definition shared :: "acct list \<Rightarrow> bool" where
  "shared accs \<longleftrightarrow> (\<forall>a\<in>set accs. \<forall>b\<in>set accs.
     ac_key a = ac_key b \<longrightarrow> ac_owner a = ac_owner b \<and> ac_data a = ac_data b)"

definition holding_of :: "lockup_env \<Rightarrow> acct \<Rightarrow> token_holding option" where
  "holding_of env a =
     (if ac_owner a = rt_token_id env
      then case rt_holding env (ac_data a) of Inr h \<Rightarrow> Some h | Inl _ \<Rightarrow> None else None)"

definition hold :: "lockup_env \<Rightarrow> acct list \<Rightarrow> aligned \<Rightarrow> token_holding option" where
  "hold env accs k = Option.bind (find (\<lambda>a. ac_key a = k) accs) (holding_of env)"

text \<open>
  What a call leaves of an account: a program's data is changed by the program alone, and an
  account that becomes its own is all zeros.
\<close>

definition keeps_account :: "aligned \<Rightarrow> acct \<Rightarrow> acct \<Rightarrow> bool" where
  "keeps_account p a b \<longleftrightarrow> ac_key b = ac_key a \<and> ac_is_signer b = ac_is_signer a \<and>
     (if ac_owner a = p then ac_owner b = p \<and> ac_data b = ac_data a
      else ac_owner b = p \<longrightarrow> list_all (\<lambda>x. x = 0) (ac_data b))"

definition keeps_data :: "aligned \<Rightarrow> acct list \<Rightarrow> acct list \<Rightarrow> bool" where
  "keeps_data p accs accs' \<longleftrightarrow> list_all2 (keeps_account p) accs accs' \<and> shared accs'"

text \<open>Who authorises a call of program \<open>p\<close>: who signed the transaction, or the address of its seeds.\<close>

definition signs :: "lockup_env \<Rightarrow> aligned \<Rightarrow> u8 list list option \<Rightarrow> acct list \<Rightarrow> aligned \<Rightarrow> bool" where
  "signs env p seeds accs k \<longleftrightarrow> (\<exists>a\<in>set accs. ac_key a = k \<and> ac_is_signer a) \<or>
     (\<exists>s. seeds = Some s \<and> rt_program_address env s p = Inr k)"

subsection \<open>The laws\<close>

text \<open>What an instruction of the token program does to the holding at \<open>k\<close>.\<close>

definition token_effect ::
  "(aligned \<Rightarrow> bool) \<Rightarrow> token_call \<Rightarrow> aligned \<Rightarrow> token_holding \<Rightarrow> token_holding \<Rightarrow> bool" where
  "token_effect signer call k h h' \<longleftrightarrow> th_owner h' = th_owner h \<and>
     (case call of
        TokenTransfer src dst auth amount \<Rightarrow>
          th_delegated_amount h' \<le> th_delegated_amount h \<and>
          (k = src \<longrightarrow> signer auth \<and> auth = th_owner h \<or> amount \<le> th_delegated_amount h) \<and>
          (if k = src \<and> k \<noteq> dst then amount \<le> th_amount h \<and> th_amount h' = th_amount h - amount
           else if k = dst \<and> k \<noteq> src then unat (th_amount h') = unat (th_amount h) + unat amount
           else th_amount h' = th_amount h)
      | TokenMintTo mint account auth amount \<Rightarrow>
          th_delegated_amount h' = th_delegated_amount h \<and> th_amount h \<le> th_amount h'
      | TokenBurn account mint auth amount \<Rightarrow>
          th_delegated_amount h' \<le> th_delegated_amount h \<and>
          (if k = account
           then (signer auth \<and> auth = th_owner h \<or> amount \<le> th_delegated_amount h) \<and>
             amount \<le> th_amount h \<and> th_amount h' = th_amount h - amount
           else th_amount h' = th_amount h)
      | TokenApprove account delegate owner amount \<Rightarrow>
          th_amount h' = th_amount h \<and>
          th_delegated_amount h' = (if k = account then amount else th_delegated_amount h)
      | TokenRevoke account owner \<Rightarrow>
          th_amount h' = th_amount h \<and>
          th_delegated_amount h' = (if k = account then 0 else th_delegated_amount h))"

text \<open>Calls of other programs leave the program's data alone.\<close>

definition data_law :: "lockup_env \<Rightarrow> aligned \<Rightarrow> bool" where
  "data_law env p \<longleftrightarrow> rt_token_id env \<noteq> p \<and>
     (\<forall>prog call ix. rt_token_ix env prog call = Inr ix \<longrightarrow> ix_program_id ix = prog) \<and>
     (\<forall>ix seeds keys accs accs'. ix_program_id ix \<noteq> p \<longrightarrow> shared accs \<longrightarrow>
        rt_invoke env ix seeds keys accs = Inr accs' \<longrightarrow> keeps_data p accs accs')"

text \<open>A token instruction does what it is documented to do.\<close>

definition token_law :: "lockup_env \<Rightarrow> aligned \<Rightarrow> bool" where
  "token_law env p \<longleftrightarrow>
     (\<forall>call ix seeds keys accs accs' k h.
        rt_token_ix env (rt_token_id env) call = Inr ix \<longrightarrow> shared accs \<longrightarrow>
        rt_invoke env ix seeds keys accs = Inr accs' \<longrightarrow> hold env accs k = Some h \<longrightarrow>
        (\<exists>h'. hold env accs' k = Some h' \<and> token_effect (signs env p seeds accs) call k h h'))"

text \<open>A call in which the owner of tokens is no signer takes at most what was delegated.\<close>

definition relay_law :: "lockup_env \<Rightarrow> aligned \<Rightarrow> bool" where
  "relay_law env p \<longleftrightarrow>
     (\<forall>ix seeds keys accs accs' k h.
        ix_program_id ix \<noteq> p \<longrightarrow> shared accs \<longrightarrow> rt_invoke env ix seeds keys accs = Inr accs' \<longrightarrow>
        hold env accs k = Some h \<longrightarrow> (\<exists>s. rt_program_address env s p = Inr (th_owner h)) \<longrightarrow>
        (\<forall>m\<in>set (ix_accounts ix). am_pubkey m = th_owner h \<longrightarrow> \<not> am_is_signer m) \<longrightarrow>
        (\<exists>h'. hold env accs' k = Some h' \<and> th_owner h' = th_owner h \<and>
           th_delegated_amount h' \<le> th_delegated_amount h \<and>
           unat (th_amount h) \<le> unat (th_amount h') + unat (th_delegated_amount h)))"

text \<open>The accounts are stored in the format that \<open>bincode\<close> documents.\<close>

definition documented_formats :: "lockup_env \<Rightarrow> bool" where
  "documented_formats env \<longleftrightarrow> le_safe env = safe_format \<and> le_vesting env = vesting_format"

text \<open>Different safes have different vault authorities.\<close>

definition unique_vaults :: "lockup_env \<Rightarrow> aligned \<Rightarrow> bool" where
  "unique_vaults env p \<longleftrightarrow>
     (\<forall>s n s' n' k. rt_program_address env (signer_seeds s n) p = Inr k \<longrightarrow>
        rt_program_address env (signer_seeds s' n') p = Inr k \<longrightarrow> s = s')"

definition honest_runtime :: "lockup_env \<Rightarrow> aligned \<Rightarrow> bool" where
  "honest_runtime env p \<longleftrightarrow> data_law env p \<and> token_law env p \<and> relay_law env p \<and>
     documented_formats env \<and> unique_vaults env p"

subsection \<open>The chain\<close>

type_synonym chain_state = "aligned \<rightharpoonup> acct"

text \<open>
  The accounts a transaction lists are those of the chain, no address derived from the program's
  seeds has signed it, and the clock's account shows the slot.
\<close>

definition presents :: "lockup_env \<Rightarrow> aligned \<Rightarrow> u64 \<Rightarrow> chain_state \<Rightarrow> acct list \<Rightarrow> bool" where
  "presents env p now w accs \<longleftrightarrow> (\<forall>a\<in>set accs.
     (\<exists>b. w (ac_key a) = Some b \<and> ac_owner a = ac_owner b \<and> ac_data a = ac_data b) \<and>
     (ac_is_signer a \<longrightarrow> (\<forall>s. rt_program_address env s p \<noteq> Inr (ac_key a))) \<and>
     (ac_key a = rt_clock_id env \<longrightarrow> rt_clock_slot env a = Inr now))"

definition commits :: "chain_state \<Rightarrow> acct list \<Rightarrow> chain_state \<Rightarrow> bool" where
  "commits w accs w' \<longleftrightarrow>
     (\<forall>a\<in>set accs. \<exists>b. w' (ac_key a) = Some b \<and> ac_owner b = ac_owner a \<and> ac_data b = ac_data a) \<and>
     (\<forall>k. k \<notin> ac_key ` set accs \<longrightarrow> w' k = w k)"

text \<open>The vesting accounts of the safe \<open>s\<close>, and the tokens of its vault.\<close>

definition vest_of :: "aligned \<Rightarrow> aligned \<Rightarrow> acct \<Rightarrow> vesting option" where
  "vest_of p s a =
     (if ac_owner a = p
      then case unpack_account vesting_format (ac_data a) of
        Inr v \<Rightarrow> if v_initialized v \<and> v_safe v = s then Some v else None | Inl _ \<Rightarrow> None
      else None)"

definition vestings_of :: "aligned \<Rightarrow> aligned \<Rightarrow> chain_state \<Rightarrow> (aligned \<rightharpoonup> vesting)" where
  "vestings_of p s w = (\<lambda>k. Option.bind (w k) (vest_of p s))"

definition vault_of :: "lockup_env \<Rightarrow> aligned \<Rightarrow> chain_state \<Rightarrow> token_holding option" where
  "vault_of env vault w = Option.bind (w vault) (holding_of env)"

subsection \<open>Facts on lists of accounts\<close>

lemma holding_of_Some:
  "holding_of env a = Some h \<longleftrightarrow> ac_owner a = rt_token_id env \<and> rt_holding env (ac_data a) = Inr h"
  by (auto simp: holding_of_def split: sum.splits)

lemma holding_of_cong:
  "ac_owner a = ac_owner b \<Longrightarrow> ac_data a = ac_data b \<Longrightarrow> holding_of env a = holding_of env b"
  by (simp add: holding_of_def)

lemma sharedD:
  "shared accs \<Longrightarrow> a \<in> set accs \<Longrightarrow> b \<in> set accs \<Longrightarrow> ac_key a = ac_key b \<Longrightarrow>
   ac_owner a = ac_owner b \<and> ac_data a = ac_data b"
  unfolding shared_def by blast

lemma keeps_data_nth:
  assumes "keeps_data p accs accs'" "i < length accs"
  shows "keeps_account p (accs ! i) (accs' ! i)"
  using assms by (simp add: keeps_data_def list_all2_nthD)

lemma keeps_data_length [simp]: "keeps_data p accs accs' \<Longrightarrow> length accs' = length accs"
  using list_all2_lengthD [of "keeps_account p" accs accs'] by (simp add: keeps_data_def)

lemma keeps_account_trans: "keeps_account p a b \<Longrightarrow> keeps_account p b c \<Longrightarrow> keeps_account p a c"
  by (auto simp: keeps_account_def split: if_splits)

lemma keeps_data_trans: "keeps_data p a b \<Longrightarrow> keeps_data p b c \<Longrightarrow> keeps_data p a c"
  by (auto simp: keeps_data_def intro: list_all2_trans [of "keeps_account p"] keeps_account_trans)

lemma keeps_data_refl: "shared accs \<Longrightarrow> keeps_data p accs accs"
  by (auto simp: keeps_data_def keeps_account_def intro: list_all2_refl)

lemma keeps_data_shared: "keeps_data p accs accs' \<Longrightarrow> shared accs'"
  by (simp add: keeps_data_def)

lemma hold_nth:
  assumes "shared accs" "i < length accs"
  shows "hold env accs (ac_key (accs ! i)) = holding_of env (accs ! i)"
proof (cases "find (\<lambda>a. ac_key a = ac_key (accs ! i)) accs")
  case None
  then show ?thesis using nth_mem [OF assms(2)] by (auto simp: find_None_iff)
next
  case (Some a)
  then have "a \<in> set accs" "ac_key a = ac_key (accs ! i)" by (auto simp: find_Some_iff)
  then have "holding_of env a = holding_of env (accs ! i)"
    using sharedD [OF assms(1) _ nth_mem [OF assms(2)], of a] by (intro holding_of_cong) blast+
  then show ?thesis using Some by (simp add: hold_def)
qed

lemma hold_not_listed: "k \<notin> ac_key ` set accs \<Longrightarrow> hold env accs k = None"
proof -
  assume "k \<notin> ac_key ` set accs"
  then have "find (\<lambda>a. ac_key a = k) accs = None" by (auto simp: find_None_iff)
  then show ?thesis by (simp add: hold_def)
qed

lemma presents_shared: "presents env p now w accs \<Longrightarrow> shared accs"
  unfolding presents_def shared_def by (metis option.inject)

lemma presents_nth:
  assumes "presents env p now w accs" "i < length accs"
  shows "\<exists>b. w (ac_key (accs ! i)) = Some b \<and> ac_owner (accs ! i) = ac_owner b \<and> ac_data (accs ! i) = ac_data b"
  using assms by (simp add: presents_def)

text \<open>The data written at the end is that of an account the program owns.\<close>

lemma hold_put_data:
  assumes "\<And>a. a \<in> set accs \<Longrightarrow> ac_key a = k \<Longrightarrow> ac_owner a \<noteq> rt_token_id env"
  shows "hold env (put_data k d accs) v = hold env accs v"
  using assms
proof (induction accs)
  case (Cons a accs)
  then show ?case by (auto simp: hold_def put_data_def holding_of_def)
qed (simp add: hold_def put_data_def)

subsection \<open>What a commit does\<close>

lemma vesting_bytes_hd: "hd (vesting_bytes v) = (if v_initialized v then 1 else 0)"
  by (simp add: vesting_bytes_def vesting_format_def map_codec_def pair_codec_def bool_codec_def
      key_codec_def u64_codec_def)

lemma vesting_bytes_inj: "vesting_bytes v = vesting_bytes v' \<longleftrightarrow> v = v'"
  by (metis sum.inject(2) vesting_bytes_unpacks)

lemma vest_of_Some:
  "vest_of p s a = Some v \<longleftrightarrow> ac_owner a = p \<and> ac_data a = vesting_bytes v \<and> v_initialized v \<and> v_safe v = s"
proof (cases "unpack_account vesting_format (ac_data a)")
  case (Inl e)
  then show ?thesis by (auto simp: vest_of_def)
next
  case (Inr v')
  then show ?thesis using vesting_bytes_inj [of v' v] by (auto simp: vest_of_def unpack_vesting)
qed

lemma vest_of_zero: "list_all (\<lambda>x. x = 0) (ac_data a) \<Longrightarrow> vest_of p s a = None"
proof (rule ccontr)
  assume zero: "list_all (\<lambda>x. x = 0) (ac_data a)" and "vest_of p s a \<noteq> None"
  then obtain v where v: "ac_data a = vesting_bytes v" "v_initialized v" by (auto simp: vest_of_Some)
  have "vesting_bytes v \<noteq> []" using vesting_encoded(2) [of v] by auto
  then show False using zero v vesting_bytes_hd [of v] by (cases "vesting_bytes v") auto
qed

lemma vest_of_kept: "keeps_account p a b \<Longrightarrow> vest_of p s b = vest_of p s a"
proof (cases "ac_owner a = p")
  case False
  assume "keeps_account p a b"
  then have "ac_owner b = p \<longrightarrow> vest_of p s b = None" using False vest_of_zero [of b p s] by (simp add: keeps_account_def)
  then show ?thesis using False by (auto simp: vest_of_def)
qed (simp add: keeps_account_def vest_of_def)

text \<open>What a handler leaves: the calls' accounts with one account of the program's rewritten.\<close>

lemma commit_nth:
  assumes "presents env p now w accs" "keeps_data p accs accs1" "i < length accs"
    and "commits w (put_data k d accs1) w'"
  shows "\<exists>b. w' (ac_key (accs ! i)) = Some b \<and> ac_owner b = ac_owner (accs1 ! i) \<and>
    ac_data b = (if ac_key (accs ! i) = k then d else ac_data (accs1 ! i))"
proof -
  have l: "i < length accs1" using assms(2,3) by simp
  have k: "ac_key (accs1 ! i) = ac_key (accs ! i)" using keeps_data_nth [OF assms(2,3)] by (simp add: keeps_account_def)
  have "put_data k d accs1 ! i \<in> set (put_data k d accs1)" using l by (intro nth_mem) simp
  with assms(4) obtain b where "w' (ac_key (put_data k d accs1 ! i)) = Some b"
    "ac_owner b = ac_owner (put_data k d accs1 ! i)" "ac_data b = ac_data (put_data k d accs1 ! i)"
    unfolding commits_def by blast
  then show ?thesis using k l by (auto simp: put_data_nth split: if_splits)
qed

lemma commit_unlisted:
  assumes "keeps_data p accs accs1" "commits w (put_data k d accs1) w'" "x \<notin> ac_key ` set accs"
  shows "w' x = w x"
proof -
  have "map ac_key accs1 = map ac_key accs"
    by (rule nth_equalityI) (use assms(1) keeps_data_nth [OF assms(1)] in \<open>auto simp: keeps_account_def\<close>)
  then have "ac_key ` set (put_data k d accs1) = ac_key ` set accs"
    by (metis list.set_map put_data_keys)
  then show ?thesis using assms(2,3) by (simp add: commits_def)
qed

text \<open>The vesting accounts after it: the rewritten one, and the others as they were.\<close>

lemma commit_vestings:
  assumes w: "presents env p now w accs" "keeps_data p accs accs1" "commits w (put_data k d accs1) w'"
    and j: "j < length accs" "ac_key (accs ! j) = k" "ac_owner (accs ! j) = p"
  shows "vestings_of p s w' = (vestings_of p s w)(k := vest_of p s ((accs ! j)\<lparr>ac_data := d\<rparr>))"
proof
  fix x
  show "vestings_of p s w' x = ((vestings_of p s w)(k := vest_of p s ((accs ! j)\<lparr>ac_data := d\<rparr>))) x"
  proof (cases "x \<in> ac_key ` set accs")
    case False
    then show ?thesis using commit_unlisted [OF w(2,3) False] j by (auto simp: vestings_of_def)
  next
    case True
    show ?thesis
    proof (cases "x = k")
      case True
      obtain b where "w' k = Some b" "ac_owner b = ac_owner (accs1 ! j)" "ac_data b = d"
        using commit_nth [OF w(1,2) j(1) w(3)] j(2) by auto
      then show ?thesis using True keeps_data_nth [OF w(2) j(1)] j(3)
        by (simp add: vestings_of_def keeps_account_def vest_of_def)
    next
      case False
      obtain i where i: "i < length accs" "x = ac_key (accs ! i)" using \<open>x \<in> ac_key ` set accs\<close>
        by (auto simp: in_set_conv_nth)
      obtain b where b: "w' x = Some b" "ac_owner b = ac_owner (accs1 ! i)" "ac_data b = ac_data (accs1 ! i)"
        using commit_nth [OF w(1,2) i(1) w(3)] i(2) False by auto
      obtain c where c: "w x = Some c" "ac_owner (accs ! i) = ac_owner c" "ac_data (accs ! i) = ac_data c"
        using presents_nth [OF w(1) i(1)] i(2) by auto
      have "vest_of p s b = vest_of p s (accs1 ! i)" "vest_of p s c = vest_of p s (accs ! i)"
        using b c by (simp_all add: vest_of_def)
      then show ?thesis using False b(1) c(1) vest_of_kept [OF keeps_data_nth [OF w(2) i(1)], of s]
        by (simp add: vestings_of_def)
    qed
  qed
qed

text \<open>An account the program owns stays, with its data unless it is the rewritten one.\<close>

lemma commit_owned:
  assumes w: "presents env p now w accs" "keeps_data p accs accs1" "commits w (put_data k d accs1) w'"
    and j: "k \<in> ac_key ` set accs" and x: "w x = Some a" "ac_owner a = p"
  shows "\<exists>b. w' x = Some b \<and> ac_owner b = p \<and> ac_data b = (if x = k then d else ac_data a)"
proof (cases "x \<in> ac_key ` set accs")
  case False
  then show ?thesis using commit_unlisted [OF w(2,3) False] x j by auto
next
  case True
  then obtain i where i: "i < length accs" "x = ac_key (accs ! i)" by (auto simp: in_set_conv_nth)
  have a: "ac_owner (accs ! i) = p" "ac_data (accs ! i) = ac_data a"
    using presents_nth [OF w(1) i(1)] i(2) x by auto
  then show ?thesis using commit_nth [OF w(1,2) i(1) w(3)] keeps_data_nth [OF w(2) i(1)] i(2)
    by (auto simp: keeps_account_def)
qed

text \<open>The vault after it: what the calls left of its holding.\<close>

lemma commit_vault:
  assumes w: "presents env p now w accs" "keeps_data p accs accs1" "commits w (put_data k d accs1) w'"
    and p: "rt_token_id env \<noteq> p" and j: "j < length accs" "ac_key (accs ! j) = k" "ac_owner (accs ! j) = p"
    and h: "vault_of env x w = Some h"
    and eff: "hold env accs x = Some h \<Longrightarrow> \<exists>h'. hold env accs1 x = Some h' \<and> P h'"
    and same: "x \<notin> ac_key ` set accs \<Longrightarrow> P h"
  shows "\<exists>h'. vault_of env x w' = Some h' \<and> P h'"
proof (cases "x \<in> ac_key ` set accs")
  case False
  then show ?thesis using commit_unlisted [OF w(2,3) False] h same [OF False] by (auto simp: vault_of_def)
next
  case True
  then obtain i where i: "i < length accs" "x = ac_key (accs ! i)" by (auto simp: in_set_conv_nth)
  obtain c where c: "w x = Some c" "ac_owner (accs ! i) = ac_owner c" "ac_data (accs ! i) = ac_data c"
    using presents_nth [OF w(1) i(1)] i(2) by auto
  have "holding_of env (accs ! i) = Some h" using h c holding_of_cong [of "accs ! i" c] by (simp add: vault_of_def)
  then have "hold env accs x = Some h" using hold_nth [OF presents_shared [OF w(1)] i(1)] i(2) by simp
  then obtain h' where h': "hold env accs1 x = Some h'" "P h'" using eff by blast
  have neq: "x \<noteq> k"
  proof
    assume "x = k"
    obtain b where "w k = Some b" "ac_owner b = p" using presents_nth [OF w(1) j(1)] j by auto
    then show False using h p \<open>x = k\<close> by (simp add: vault_of_def holding_of_Some)
  qed
  have len: "i < length accs1" using i(1) w(2) by simp
  have key: "ac_key (accs1 ! i) = x" using keeps_data_nth [OF w(2) i(1)] i(2) by (simp add: keeps_account_def)
  have at: "holding_of env (accs1 ! i) = Some h'"
    using hold_nth [OF keeps_data_shared [OF w(2)] len, of env] h'(1) key by simp
  obtain b where "w' x = Some b" "ac_owner b = ac_owner (accs1 ! i)" "ac_data b = ac_data (accs1 ! i)"
    using commit_nth [OF w(1,2) i(1) w(3)] neq i(2) by auto
  then show ?thesis using at h'(2) holding_of_cong [of b "accs1 ! i"] by (simp add: vault_of_def)
qed

end
