(* ===== verification/LockupCustody.thy ===== *)
theory LockupCustody
  imports VestingSchedule
begin

text \<open>
  The lockup program seen from its depositors: the vesting accounts of one safe and the tokens
  in its vault, as a transition system with one rule per instruction.  Its invariant is that
  the vault covers what the accounts are owed, and that nobody has taken out more than has
  vested.
\<close>

declare split_paired_All [simp del] split_paired_Ex [simp del]

record custody =
  cu_vestings :: "aligned \<rightharpoonup> vesting"
  cu_vault :: nat
  cu_slot :: u64

definition put_vesting :: "custody \<Rightarrow> aligned \<Rightarrow> vesting \<Rightarrow> nat \<Rightarrow> custody" where
  "put_vesting c k v n = c\<lparr>cu_vestings := (cu_vestings c)(k \<mapsto> v), cu_vault := n\<rparr>"

inductive custody_step :: "custody \<Rightarrow> custody \<Rightarrow> bool" where
  create: "cu_vestings c k = None \<Longrightarrow> v_start_slot v = cu_slot c \<Longrightarrow> cu_slot c < v_end_slot v \<Longrightarrow>
    v_period_count v \<noteq> 0 \<Longrightarrow> v_start_balance v = v_balance v \<Longrightarrow> v_whitelist_owned v = 0 \<Longrightarrow>
    \<not> v_claimed v \<Longrightarrow> custody_step c (put_vesting c k v (cu_vault c + unat (v_balance v)))"
| claim: "cu_vestings c k = Some v \<Longrightarrow> \<not> v_claimed v \<Longrightarrow> cu_vault c \<le> n \<Longrightarrow>
    custody_step c (put_vesting c k (v\<lparr>v_claimed := True, v_locked_nft_token := token\<rparr>) n)"
| redeem: "cu_vestings c k = Some v \<Longrightarrow> v_claimed v \<Longrightarrow>
    available_for_withdrawal v (cu_slot c) = Inr available \<Longrightarrow> amount \<le> available \<Longrightarrow>
    cu_vault c \<le> n + unat amount \<Longrightarrow> custody_step c (put_vesting c k (deduct amount v) n)"
| withdraw: "cu_vestings c k = Some v \<Longrightarrow> v_claimed v \<Longrightarrow> amount \<le> available_for_whitelist v \<Longrightarrow>
    cu_vault c \<le> n + unat amount \<Longrightarrow>
    custody_step c (put_vesting c k (v\<lparr>v_whitelist_owned := v_whitelist_owned v + amount\<rparr>) n)"
| deposit: "cu_vestings c k = Some v \<Longrightarrow> v_claimed v \<Longrightarrow> amount \<le> v_whitelist_owned v \<Longrightarrow>
    custody_step c (put_vesting c k (v\<lparr>v_whitelist_owned := v_whitelist_owned v - amount\<rparr>)
      (cu_vault c + unat amount))"
| other: "cu_vault c \<le> n \<Longrightarrow> custody_step c (c\<lparr>cu_vault := n\<rparr>)"
| tick: "cu_slot c \<le> t \<Longrightarrow> custody_step c (c\<lparr>cu_slot := t\<rparr>)"

subsection \<open>The invariant\<close>

definition owed :: "vesting \<Rightarrow> nat" where
  "owed v = unat (available_for_whitelist v)"

definition owed_total :: "(aligned \<rightharpoonup> vesting) \<Rightarrow> nat" where
  "owed_total f = (\<Sum>k\<in>dom f. owed (the (f k)))"

definition vesting_ok :: "u64 \<Rightarrow> vesting \<Rightarrow> bool" where
  "vesting_ok t v \<longleftrightarrow> v_whitelist_owned v \<le> v_balance v \<and> v_balance v \<le> v_start_balance v \<and>
     v_start_slot v \<le> t \<and>
     (proper_schedule v \<longrightarrow> unat (v_start_balance v) - unat (v_balance v) \<le> schedule v (unat t))"

definition custody_ok :: "custody \<Rightarrow> bool" where
  "custody_ok c \<longleftrightarrow> finite (dom (cu_vestings c)) \<and>
     (\<forall>k v. cu_vestings c k = Some v \<longrightarrow> vesting_ok (cu_slot c) v) \<and>
     owed_total (cu_vestings c) \<le> cu_vault c"

lemma owed_total_upd:
  assumes "finite (dom f)"
  shows "owed_total (f(k \<mapsto> v)) + (case f k of Some u \<Rightarrow> owed u | None \<Rightarrow> 0) = owed_total f + owed v"
proof -
  have "(\<Sum>x\<in>dom f - {k}. owed (the ((f(k \<mapsto> v)) x))) = (\<Sum>x\<in>dom f - {k}. owed (the (f x)))"
    by (rule sum.cong) auto
  then have new: "owed_total (f(k \<mapsto> v)) = owed v + (\<Sum>x\<in>dom f - {k}. owed (the (f x)))"
    using assms by (simp add: owed_total_def sum.insert_remove)
  show ?thesis
  proof (cases "f k")
    case None
    then have "dom f - {k} = dom f" by auto
    then show ?thesis using new None by (simp add: owed_total_def)
  next
    case (Some u)
    then have "owed_total f = owed u + (\<Sum>x\<in>dom f - {k}. owed (the (f x)))"
      using sum.remove [OF assms, of k "\<lambda>x. owed (the (f x))"] by (auto simp: owed_total_def domI)
    then show ?thesis using new Some by simp
  qed
qed

lemma owed_eq: "v_whitelist_owned v \<le> v_balance v \<Longrightarrow> owed v = unat (v_balance v) - unat (v_whitelist_owned v)"
  by (simp add: owed_def available_for_whitelist_def unat_sub)

text \<open>A rewritten account keeps the invariant when the vault pays for what it is owed more.\<close>

lemma custody_ok_put:
  assumes "custody_ok c" and "vesting_ok (cu_slot c) v"
    and "cu_vault c + owed v \<le> n + (case cu_vestings c k of Some u \<Rightarrow> owed u | None \<Rightarrow> 0)"
  shows "custody_ok (put_vesting c k v n)"
proof -
  let ?old = "case cu_vestings c k of Some u \<Rightarrow> owed u | None \<Rightarrow> 0"
  have "owed_total ((cu_vestings c)(k \<mapsto> v)) + ?old = owed_total (cu_vestings c) + owed v"
    using assms(1) by (intro owed_total_upd) (simp add: custody_ok_def)
  then have "owed_total ((cu_vestings c)(k \<mapsto> v)) \<le> n"
    using assms(1,3) unfolding custody_ok_def by linarith
  then show ?thesis using assms(1,2) by (simp add: custody_ok_def put_vesting_def)
qed

subsection \<open>The schedule bounds what is taken\<close>

lemma total_vested_value:
  assumes "proper_schedule v" "total_vested v t = Inr x"
  shows "unat x = schedule v (unat t)"
proof (cases "v_end_slot v \<le> t")
  case True
  then show ?thesis using assms
    by (auto simp: total_vested_def schedule_def word_le_nat_alt split: if_splits)
next
  case False
  then have "v_start_slot v \<le> t" "t < v_end_slot v" using assms(2)
    by (auto simp: total_vested_def split: if_splits)
  moreover have "schedule v (unat t) < 2 ^ 64" using schedule_le [of v "unat t"] unat_u64_lt [of "v_start_balance v"] by linarith
  ultimately show ?thesis using assms linear_unlock_schedule [OF assms(1), of t]
    by (auto simp: total_vested_def unsigned_of_nat take_bit_nat_eq_self split: if_splits)
qed

lemma schedule_cong [simp]:
  "schedule (v\<lparr>v_claimed := b\<rparr>) t = schedule v t" "schedule (v\<lparr>v_locked_nft_token := k\<rparr>) t = schedule v t"
  "schedule (v\<lparr>v_whitelist_owned := x\<rparr>) t = schedule v t" "schedule (v\<lparr>v_balance := x\<rparr>) t = schedule v t"
  "proper_schedule (v\<lparr>v_claimed := b\<rparr>) = proper_schedule v"
  "proper_schedule (v\<lparr>v_locked_nft_token := k\<rparr>) = proper_schedule v"
  "proper_schedule (v\<lparr>v_whitelist_owned := x\<rparr>) = proper_schedule v"
  "proper_schedule (v\<lparr>v_balance := x\<rparr>) = proper_schedule v"
  by (simp_all add: schedule_def proper_schedule_def cliff_def vesting_window_def Let_def)

lemma deduct_ok:
  assumes ok: "vesting_ok t v" and av: "available_for_withdrawal v t = Inr available" "amount \<le> available"
  shows "vesting_ok t (deduct amount v)" "owed v = owed (deduct amount v) + unat amount"
proof -
  obtain total where total: "total_vested v t = Inr total"
    "available = min (total - withdrawn_amount v) (available_for_whitelist v)"
    using av(1) by (auto simp: available_for_withdrawal_def balance_vested_def res_simps)
  have le: "v_whitelist_owned v \<le> v_balance v" "v_balance v \<le> v_start_balance v" using ok by (auto simp: vesting_ok_def)
  have "amount \<le> v_balance v - v_whitelist_owned v" using av(2) total(2) by (simp add: available_for_whitelist_def)
  then have a: "unat amount + unat (v_whitelist_owned v) \<le> unat (v_balance v)"
    using le(1) by (simp add: word_le_nat_alt unat_sub)
  then have b: "unat (v_balance v - amount) = unat (v_balance v) - unat amount"
    by (simp add: unat_sub word_le_nat_alt)
  have w: "unat (withdrawn_amount v) = unat (v_start_balance v) - unat (v_balance v)"
    using le(2) by (simp add: withdrawn_amount_def unat_sub)
  have "unat (v_start_balance v) - unat (v_balance v - amount) \<le> schedule v (unat t)" if "proper_schedule v"
  proof -
    have s: "unat (withdrawn_amount v) \<le> unat total"
      using ok that total_vested_value [OF that total(1)] w by (simp add: vesting_ok_def)
    moreover have "amount \<le> total - withdrawn_amount v" using av(2) total(2) by simp
    ultimately have "unat amount \<le> unat total - unat (withdrawn_amount v)"
      by (simp add: word_le_nat_alt unat_sub)
    then show ?thesis using s w b total_vested_value [OF that total(1)] by linarith
  qed
  then show "vesting_ok t (deduct amount v)"
    using ok a b le by (auto simp: vesting_ok_def deduct_def word_le_nat_alt)
  show "owed v = owed (deduct amount v) + unat amount"
    using a b le owed_eq [of v] owed_eq [of "deduct amount v"] by (simp add: deduct_def word_le_nat_alt)
qed

lemma relay_ok:
  assumes "vesting_ok t v"
  shows "amount \<le> available_for_whitelist v \<Longrightarrow>
      vesting_ok t (v\<lparr>v_whitelist_owned := v_whitelist_owned v + amount\<rparr>) \<and>
      owed v = owed (v\<lparr>v_whitelist_owned := v_whitelist_owned v + amount\<rparr>) + unat amount"
    and "amount \<le> v_whitelist_owned v \<Longrightarrow>
      vesting_ok t (v\<lparr>v_whitelist_owned := v_whitelist_owned v - amount\<rparr>) \<and>
      owed (v\<lparr>v_whitelist_owned := v_whitelist_owned v - amount\<rparr>) = owed v + unat amount"
proof -
  have le: "v_whitelist_owned v \<le> v_balance v" using assms by (simp add: vesting_ok_def)
  have lt: "unat (v_balance v) < 2 ^ 64" by (rule unat_u64_lt)
  { assume "amount \<le> available_for_whitelist v"
    then have a: "unat amount + unat (v_whitelist_owned v) \<le> unat (v_balance v)"
      using le by (simp add: available_for_whitelist_def word_le_nat_alt unat_sub)
    then have "unat (v_whitelist_owned v + amount) = unat (v_whitelist_owned v) + unat amount"
      using lt by (intro unat_add_small) simp
    then show "vesting_ok t (v\<lparr>v_whitelist_owned := v_whitelist_owned v + amount\<rparr>) \<and>
      owed v = owed (v\<lparr>v_whitelist_owned := v_whitelist_owned v + amount\<rparr>) + unat amount"
      using assms a le owed_eq [of v] owed_eq [of "v\<lparr>v_whitelist_owned := v_whitelist_owned v + amount\<rparr>"]
      by (simp add: vesting_ok_def word_le_nat_alt) }
  { assume a: "amount \<le> v_whitelist_owned v"
    then have "unat (v_whitelist_owned v - amount) = unat (v_whitelist_owned v) - unat amount"
      by (simp add: unat_sub)
    moreover have "v_whitelist_owned v - amount \<le> v_balance v"
      using calculation le by (simp add: word_le_nat_alt)
    ultimately show "vesting_ok t (v\<lparr>v_whitelist_owned := v_whitelist_owned v - amount\<rparr>) \<and>
      owed (v\<lparr>v_whitelist_owned := v_whitelist_owned v - amount\<rparr>) = owed v + unat amount"
      using assms a le owed_eq [of v] owed_eq [of "v\<lparr>v_whitelist_owned := v_whitelist_owned v - amount\<rparr>"]
      by (simp add: vesting_ok_def word_le_nat_alt) }
qed

lemma vesting_ok_later: "vesting_ok s v \<Longrightarrow> s \<le> t \<Longrightarrow> vesting_ok t v"
  using schedule_mono [of "unat s" "unat t" v] by (auto simp: vesting_ok_def word_le_nat_alt)

lemma custody_step_ok:
  assumes "custody_step c c'" "custody_ok c"
  shows "custody_ok c'"
  using assms
proof (induction rule: custody_step.induct)
  case (create c k v)
  then have "vesting_ok (cu_slot c) v" by (simp add: vesting_ok_def)
  moreover have "owed v = unat (v_balance v)" using create by (simp add: owed_eq)
  ultimately show ?case using create by (intro custody_ok_put) simp_all
next
  case (claim c k v n token)
  let ?v = "v\<lparr>v_claimed := True, v_locked_nft_token := token\<rparr>"
  have "vesting_ok (cu_slot c) v" using claim by (simp add: custody_ok_def)
  then have "vesting_ok (cu_slot c) ?v" by (simp add: vesting_ok_def)
  moreover have "owed ?v = owed v" by (simp add: owed_def available_for_whitelist_def)
  ultimately show ?case using claim by (intro custody_ok_put) simp_all
next
  case (redeem c k v available amount n)
  then have "vesting_ok (cu_slot c) v" by (simp add: custody_ok_def)
  from deduct_ok [OF this redeem(3,4)] show ?case using redeem by (intro custody_ok_put) simp_all
next
  case (withdraw c k v amount n)
  then have "vesting_ok (cu_slot c) v" by (simp add: custody_ok_def)
  from relay_ok(1) [OF this withdraw(3)] show ?case using withdraw by (intro custody_ok_put) simp_all
next
  case (deposit c k v amount)
  then have "vesting_ok (cu_slot c) v" by (simp add: custody_ok_def)
  from relay_ok(2) [OF this deposit(3)] show ?case using deposit by (intro custody_ok_put) simp_all
next
  case (other c n)
  then show ?case by (simp add: custody_ok_def)
next
  case (tick c t)
  then show ?case using vesting_ok_later by (simp add: custody_ok_def) blast
qed

text \<open>From the end slot on all that is not with whitelisted programs can be withdrawn.\<close>

lemma available_at_end:
  assumes "vesting_ok t v" "v_end_slot v \<le> t"
  shows "available_for_withdrawal v t = Inr (v_balance v - v_whitelist_owned v)"
proof -
  have "v_start_balance v - withdrawn_amount v = v_balance v" by (simp add: withdrawn_amount_def)
  moreover have "v_balance v - v_whitelist_owned v \<le> v_balance v"
    using assms(1) by (simp add: vesting_ok_def word_le_nat_alt unat_sub)
  ultimately show ?thesis using assms
    by (simp add: available_for_withdrawal_def balance_vested_def total_vested_def vesting_ok_def
        available_for_whitelist_def min_def)
qed

end
