(* ===== verification/LockupRefines.thy ===== *)
theory LockupRefines
  imports LockupLaws LockupCustody
begin

text \<open>
  Every accepted instruction of the lockup program, seen from one safe, is a step of the
  custody of its vesting accounts and vault.
\<close>

subsection \<open>The safe, its vault, and its custody\<close>

text \<open>An initialised safe whose vault belongs to its derived address and is delegated to nobody.\<close>

definition safe_state ::
  "lockup_env \<Rightarrow> aligned \<Rightarrow> aligned \<Rightarrow> aligned \<Rightarrow> chain_state \<Rightarrow> token_holding \<Rightarrow> bool" where
  "safe_state env p s vault w h \<longleftrightarrow> (\<exists>a sf. w s = Some a \<and> ac_owner a = p \<and> ac_data a = safe_bytes sf \<and>
     sf_initialized sf \<and> sf_vault sf = vault \<and>
     rt_program_address env (signer_seeds s (sf_nonce sf)) p = Inr (th_owner h)) \<and>
     vault_of env vault w = Some h \<and> th_delegated_amount h = 0"

definition custody_of :: "lockup_env \<Rightarrow> aligned \<Rightarrow> aligned \<Rightarrow> aligned \<Rightarrow> chain_state \<Rightarrow> u64 \<Rightarrow> custody" where
  "custody_of env p s vault w now =
     \<lparr>cu_vestings = vestings_of p s w,
      cu_vault = (case vault_of env vault w of Some h \<Rightarrow> unat (th_amount h) | None \<Rightarrow> 0),
      cu_slot = now\<rparr>"

subsection \<open>Calls\<close>

lemma honestD:
  assumes "honest_runtime env p"
  shows "rt_token_id env \<noteq> p" "le_safe env = safe_format" "le_vesting env = vesting_format"
    "unique_vaults env p"
  using assms by (simp_all add: honest_runtime_def data_law_def documented_formats_def)

lemma invoke_keeps:
  assumes "honest_runtime env p" "ix_program_id ix \<noteq> p" "shared accs" "rt_invoke env ix seeds keys accs = Inr accs1"
  shows "keeps_data p accs accs1"
  using assms unfolding honest_runtime_def data_law_def by blast

lemma token_call_effect:
  assumes hr: "honest_runtime env p" and "shared accs"
    and ix: "rt_token_ix env (rt_token_id env) call = Inr ix" "rt_invoke env ix seeds keys accs = Inr accs1"
  shows "keeps_data p accs accs1"
    and "hold env accs k = Some h \<Longrightarrow>
      \<exists>h'. hold env accs1 k = Some h' \<and> token_effect (signs env p seeds accs) call k h h'"
proof -
  have "ix_program_id ix = rt_token_id env" using hr ix(1) unfolding honest_runtime_def data_law_def by blast
  then show "keeps_data p accs accs1" using invoke_keeps [OF hr _ assms(2) ix(2)] honestD(1) [OF hr] by simp
  show "hold env accs k = Some h \<Longrightarrow>
      \<exists>h'. hold env accs1 k = Some h' \<and> token_effect (signs env p seeds accs) call k h h'"
    using hr assms(2) ix unfolding honest_runtime_def token_law_def by blast
qed

lemma invoke_token_effect:
  assumes hr: "honest_runtime env p" and "shared accs"
    and ix: "invoke_token env (rt_token_id env) call seeds keys accs = Inr accs1"
  shows "keeps_data p accs accs1"
    and "hold env accs k = Some h \<Longrightarrow>
      \<exists>h'. hold env accs1 k = Some h' \<and> token_effect (signs env p seeds accs) call k h h'"
proof -
  obtain i where i: "rt_token_ix env (rt_token_id env) call = Inr i" "rt_invoke env i seeds keys accs = Inr accs1"
    using ix by (auto simp: invoke_token_def res_simps)
  show "keeps_data p accs accs1" by (rule token_call_effect(1) [OF assms(1,2) i])
  show "hold env accs k = Some h \<Longrightarrow>
      \<exists>h'. hold env accs1 k = Some h' \<and> token_effect (signs env p seeds accs) call k h h'"
    by (rule token_call_effect(2) [OF assms(1,2) i])
qed

lemma relay_effect:
  assumes "honest_runtime env p" "shared accs" "ix_program_id ix \<noteq> p"
    and "rt_invoke env ix seeds keys accs = Inr accs1" "hold env accs k = Some h"
    and "rt_program_address env s p = Inr (th_owner h)"
    and "\<forall>m\<in>set (ix_accounts ix). am_pubkey m = th_owner h \<longrightarrow> \<not> am_is_signer m"
  shows "\<exists>h'. hold env accs1 k = Some h' \<and> th_owner h' = th_owner h \<and>
    th_delegated_amount h' \<le> th_delegated_amount h \<and>
    unat (th_amount h) \<le> unat (th_amount h') + unat (th_delegated_amount h)"
  using assms unfolding honest_runtime_def relay_law_def by blast

text \<open>Who can sign for the vault: its own safe's seeds, and nobody without seeds.\<close>

lemma signs_kept: "keeps_data p accs accs1 \<Longrightarrow> signs env p seeds accs1 = signs env p seeds accs"
proof
  fix k assume kd: "keeps_data p accs accs1"
  have l: "length accs1 = length accs" using kd by simp
  have "(\<exists>a\<in>set accs1. ac_key a = k \<and> ac_is_signer a) \<longleftrightarrow> (\<exists>i<length accs. ac_key (accs1 ! i) = k \<and> ac_is_signer (accs1 ! i))"
    using l by (metis in_set_conv_nth)
  also have "\<dots> \<longleftrightarrow> (\<exists>i<length accs. ac_key (accs ! i) = k \<and> ac_is_signer (accs ! i))"
    using keeps_data_nth [OF kd] by (auto simp: keeps_account_def)
  also have "\<dots> \<longleftrightarrow> (\<exists>a\<in>set accs. ac_key a = k \<and> ac_is_signer a)" by (metis in_set_conv_nth)
  finally show "signs env p seeds accs1 k = signs env p seeds accs k" by (simp add: signs_def)
qed

lemma vault_owner_derived:
  "safe_state env p s vault w h \<Longrightarrow> \<exists>n. rt_program_address env (signer_seeds s n) p = Inr (th_owner h)"
  by (auto simp: safe_state_def)

lemma vault_not_signed:
  assumes "presents env p now w accs" "safe_state env p s vault w h"
  shows "\<not> signs env p None accs (th_owner h)"
proof -
  obtain n where "rt_program_address env (signer_seeds s n) p = Inr (th_owner h)"
    using vault_owner_derived [OF assms(2)] by blast
  then show ?thesis using assms(1) unfolding signs_def presents_def by fastforce
qed

lemma vault_signed_by_safe:
  assumes "presents env p now w accs" "safe_state env p s vault w h" "unique_vaults env p"
    and "signs env p (Some (signer_seeds s' n')) accs (th_owner h)"
  shows "s' = s"
proof -
  obtain n where n: "rt_program_address env (signer_seeds s n) p = Inr (th_owner h)"
    using vault_owner_derived [OF assms(2)] by blast
  have "\<not> (\<exists>a\<in>set accs. ac_key a = th_owner h \<and> ac_is_signer a)"
    using n assms(1) unfolding presents_def by fastforce
  then have "rt_program_address env (signer_seeds s' n') p = Inr (th_owner h)"
    using assms(4) unfolding signs_def by blast
  then show ?thesis using n assms(3) unfolding unique_vaults_def by blast
qed

lemma relay_not_signed:
  assumes "presents env p now w accs" "safe_state env p s vault w h"
  shows "\<forall>m\<in>set (ix_accounts (relay_instruction accs d)). am_pubkey m = th_owner h \<longrightarrow> \<not> am_is_signer m"
proof -
  obtain n where n: "rt_program_address env (signer_seeds s n) p = Inr (th_owner h)"
    using vault_owner_derived [OF assms(2)] by blast
  then have "\<And>a. a \<in> set accs \<Longrightarrow> ac_key a = th_owner h \<Longrightarrow> \<not> ac_is_signer a"
    using assms(1) unfolding presents_def by fastforce
  then show ?thesis by (auto simp: relay_instruction_def dest: in_set_dropD)
qed

subsection \<open>Rewriting one account\<close>

lemma update_vesting_run:
  "update_account_with vesting_format a f = Inr r \<longleftrightarrow>
    (\<exists>v v' accs1. ac_data a = vesting_bytes v \<and> f v = Inr (v', accs1) \<and>
       r = put_data (ac_key a) (vesting_bytes v') accs1)"
proof
  show "update_account_with vesting_format a f = Inr r \<Longrightarrow> \<exists>v v' accs1. ac_data a = vesting_bytes v \<and>
      f v = Inr (v', accs1) \<and> r = put_data (ac_key a) (vesting_bytes v') accs1"
    by (auto simp: update_account_with_def unpack_mut_def res_simps pack_vesting vesting_encoded)
qed (auto simp: update_account_with_def unpack_mut_def pack_vesting vesting_encoded)

lemma update_safe_run:
  "update_account_with safe_format a f = Inr r \<longleftrightarrow>
    (\<exists>sf sf' accs1. ac_data a = safe_bytes sf \<and> f sf = Inr (sf', accs1) \<and>
       r = put_data (ac_key a) (safe_bytes sf') accs1)"
proof
  show "update_account_with safe_format a f = Inr r \<Longrightarrow> \<exists>v v' accs1. ac_data a = safe_bytes v \<and>
      f v = Inr (v', accs1) \<and> r = put_data (ac_key a) (safe_bytes v') accs1"
    by (auto simp: update_account_with_def unpack_mut_def res_simps pack_safe safe_encoded)
qed (auto simp: update_account_with_def unpack_mut_def pack_safe safe_encoded)

lemma safe_not_vesting: "safe_bytes sf \<noteq> vesting_bytes v"
  using safe_encoded(2) [of sf] vesting_encoded(2) [of v] by auto

lemma safe_bytes_inj: "safe_bytes sf = safe_bytes sf' \<longleftrightarrow> sf = sf'"
  by (metis sum.inject(2) safe_bytes_unpacks)

text \<open>The safe as the transaction sees it.\<close>

lemma safe_listed:
  assumes "safe_state env p s vault w h" "presents env p now w accs" "i < length accs" "ac_key (accs ! i) = s"
  shows "\<exists>sf. ac_owner (accs ! i) = p \<and> ac_data (accs ! i) = safe_bytes sf \<and> sf_initialized sf \<and>
    sf_vault sf = vault \<and> rt_program_address env (signer_seeds s (sf_nonce sf)) p = Inr (th_owner h)"
  using assms(1) presents_nth [OF assms(2,3)] assms(4) by (auto simp: safe_state_def)

lemma vestings_listed:
  assumes "presents env p now w accs" "i < length accs"
  shows "vestings_of p s w (ac_key (accs ! i)) = vest_of p s (accs ! i)"
  using presents_nth [OF assms] by (auto simp: vestings_of_def vest_of_def)

lemma vault_listed:
  assumes "safe_state env p s vault w h" "presents env p now w accs" "vault \<in> ac_key ` set accs"
  shows "hold env accs vault = Some h"
proof -
  obtain i where i: "i < length accs" "vault = ac_key (accs ! i)" using assms(3) by (auto simp: in_set_conv_nth)
  obtain b where "w vault = Some b" "ac_owner (accs ! i) = ac_owner b" "ac_data (accs ! i) = ac_data b"
    using presents_nth [OF assms(2) i(1)] i(2) by auto
  then have "holding_of env (accs ! i) = vault_of env vault w"
    using holding_of_cong [of "accs ! i" b] by (simp add: vault_of_def)
  then show ?thesis using hold_nth [OF presents_shared [OF assms(2)] i(1), of env] i(2) assms(1)
    by (simp add: safe_state_def)
qed

text \<open>
  What a handler's calls and the account it rewrites make of the custody, for a condition \<open>Q\<close>
  on the vault's amount afterwards.
\<close>

definition vault_becomes ::
  "lockup_env \<Rightarrow> acct list \<Rightarrow> acct list \<Rightarrow> aligned \<Rightarrow> token_holding \<Rightarrow> (nat \<Rightarrow> bool) \<Rightarrow> bool" where
  "vault_becomes env accs accs1 vault h Q \<longleftrightarrow>
     (hold env accs vault = Some h \<longrightarrow> (\<exists>h1. hold env accs1 vault = Some h1 \<and> th_owner h1 = th_owner h \<and>
        th_delegated_amount h1 = 0 \<and> Q (unat (th_amount h1)))) \<and>
     (vault \<notin> ac_key ` set accs \<longrightarrow> Q (unat (th_amount h)))"

lemma rewrite_custody:
  assumes hr: "honest_runtime env p" and st: "safe_state env p s vault w h"
    and pr: "presents env p now w accs" and kd: "keeps_data p accs accs1"
    and cm: "commits w (put_data k d accs1) w'"
    and j: "j < length accs" "ac_key (accs ! j) = k" "ac_owner (accs ! j) = p"
    and kept: "\<And>sf. k = s \<Longrightarrow> ac_data (accs ! j) = safe_bytes sf \<Longrightarrow> \<exists>sf'. d = safe_bytes sf' \<and>
      sf_initialized sf' \<and> sf_vault sf' = sf_vault sf \<and> sf_nonce sf' = sf_nonce sf"
    and eff: "vault_becomes env accs accs1 vault h Q"
  obtains h' where "safe_state env p s vault w' h'" "Q (unat (th_amount h'))"
    "custody_of env p s vault w' now =
      \<lparr>cu_vestings = (vestings_of p s w)(k := vest_of p s ((accs ! j)\<lparr>ac_data := d\<rparr>)),
       cu_vault = unat (th_amount h'), cu_slot = now\<rparr>"
proof -
  have k: "k \<in> ac_key ` set accs" using j by auto
  have v: "vault_of env vault w = Some h" using st by (simp add: safe_state_def)
  define P :: "token_holding \<Rightarrow> bool" where "P h1 \<longleftrightarrow> th_owner h1 = th_owner h \<and> th_delegated_amount h1 = 0 \<and> Q (unat (th_amount h1))" for h1
  have p_out: "vault \<notin> ac_key ` set accs \<Longrightarrow> P h" using eff st by (simp add: P_def vault_becomes_def safe_state_def)
  have p_in: "hold env accs vault = Some h \<Longrightarrow> \<exists>h1. hold env accs1 vault = Some h1 \<and> P h1"
    using eff by (simp add: P_def vault_becomes_def)
  obtain h' where h': "vault_of env vault w' = Some h'" "P h'"
    using commit_vault [OF pr kd cm honestD(1) [OF hr] j v p_in p_out] by blast
  obtain a sf where sf: "w s = Some a" "ac_owner a = p" "ac_data a = safe_bytes sf" "sf_initialized sf"
    "sf_vault sf = vault" "rt_program_address env (signer_seeds s (sf_nonce sf)) p = Inr (th_owner h)"
    using st by (auto simp: safe_state_def)
  obtain b where b: "w' s = Some b" "ac_owner b = p" "ac_data b = (if s = k then d else ac_data a)"
    using commit_owned [OF pr kd cm k sf(1,2)] by blast
  have "\<exists>sf'. ac_data b = safe_bytes sf' \<and> sf_initialized sf' \<and> sf_vault sf' = vault \<and> sf_nonce sf' = sf_nonce sf"
  proof (cases "s = k")
    case True
    have "ac_data (accs ! j) = safe_bytes sf" using presents_nth [OF pr j(1)] j(2) True sf(1,3) by auto
    then show ?thesis using kept [of sf] True b(3) sf(5) by auto
  qed (use b(3) sf in auto)
  then have "safe_state env p s vault w' h'"
    using b h' sf(6) unfolding safe_state_def P_def by auto
  moreover have "custody_of env p s vault w' now =
      \<lparr>cu_vestings = (vestings_of p s w)(k := vest_of p s ((accs ! j)\<lparr>ac_data := d\<rparr>)),
       cu_vault = unat (th_amount h'), cu_slot = now\<rparr>"
    using commit_vestings [OF pr kd cm j] h' by (simp add: custody_of_def)
  ultimately show thesis using that h'(2) by (simp add: P_def)
qed

text \<open>An account that is no vesting account of the safe, before and after.\<close>

lemma unrelated_step:
  assumes hr: "honest_runtime env p" and st: "safe_state env p s vault w h"
    and pr: "presents env p now w accs" and kd: "keeps_data p accs accs1"
    and cm: "commits w (put_data k d accs1) w'"
    and j: "j < length accs" "ac_key (accs ! j) = k" "ac_owner (accs ! j) = p"
    and kept: "\<And>sf. k = s \<Longrightarrow> ac_data (accs ! j) = safe_bytes sf \<Longrightarrow> \<exists>sf'. d = safe_bytes sf' \<and>
      sf_initialized sf' \<and> sf_vault sf' = sf_vault sf \<and> sf_nonce sf' = sf_nonce sf"
    and none: "vest_of p s (accs ! j) = None" "vest_of p s ((accs ! j)\<lparr>ac_data := d\<rparr>) = None"
    and eff: "vault_becomes env accs accs1 vault h (\<lambda>n. unat (th_amount h) \<le> n)"
  shows "\<exists>h'. safe_state env p s vault w' h' \<and>
    custody_step (custody_of env p s vault w now) (custody_of env p s vault w' now)"
proof -
  obtain h' where h': "safe_state env p s vault w' h'" "unat (th_amount h) \<le> unat (th_amount h')"
    "custody_of env p s vault w' now =
      \<lparr>cu_vestings = (vestings_of p s w)(k := None), cu_vault = unat (th_amount h'), cu_slot = now\<rparr>"
    using rewrite_custody [OF hr st pr kd cm j kept eff] none(2) by metis
  have "vestings_of p s w k = None" using vestings_listed [OF pr j(1), of s] j(2) none(1) by simp
  then have same: "(vestings_of p s w)(k := None) = vestings_of p s w" by (simp add: fun_upd_idem)
  have w: "custody_of env p s vault w now =
      \<lparr>cu_vestings = vestings_of p s w, cu_vault = unat (th_amount h), cu_slot = now\<rparr>"
    using st by (simp add: custody_of_def safe_state_def)
  have "custody_step (custody_of env p s vault w now) (custody_of env p s vault w' now)"
    using custody_step.other [of "custody_of env p s vault w now" "unat (th_amount h')"] h'(2)
    by (simp add: h'(3) same w)
  then show ?thesis using h'(1) by blast
qed

text \<open>A vesting account that is rewritten: of another safe, or of this one.\<close>

lemma other_vesting_step:
  assumes hr: "honest_runtime env p" and st: "safe_state env p s vault w h"
    and pr: "presents env p now w accs" and kd: "keeps_data p accs accs1"
    and cm: "commits w (put_data (ac_key (accs ! j)) (vesting_bytes v') accs1) w'"
    and j: "j < length accs" "ac_owner (accs ! j) = p" "ac_data (accs ! j) = vesting_bytes v"
    and v: "\<not> v_initialized v \<or> v_safe v \<noteq> s" "v_safe v' \<noteq> s"
    and eff: "vault_becomes env accs accs1 vault h (\<lambda>n. unat (th_amount h) \<le> n)"
  shows "\<exists>h'. safe_state env p s vault w' h' \<and>
    custody_step (custody_of env p s vault w now) (custody_of env p s vault w' now)"
proof (rule unrelated_step [OF hr st pr kd cm j(1) refl j(2) _ _ _ eff])
  show "vest_of p s (accs ! j) = None" "vest_of p s ((accs ! j)\<lparr>ac_data := vesting_bytes v'\<rparr>) = None"
    using j v by (simp_all add: vest_of_def)
qed (use j(3) safe_not_vesting in metis)

lemma own_vesting_step:
  assumes hr: "honest_runtime env p" and st: "safe_state env p s vault w h"
    and pr: "presents env p now w accs" and kd: "keeps_data p accs accs1"
    and cm: "commits w (put_data (ac_key (accs ! j)) (vesting_bytes v') accs1) w'"
    and j: "j < length accs" "ac_owner (accs ! j) = p" "ac_data (accs ! j) = vesting_bytes v"
    and v': "v_initialized v'" "v_safe v' = s"
    and eff: "vault_becomes env accs accs1 vault h Q"
    and step: "\<And>n. Q n \<Longrightarrow> cu_vestings (custody_of env p s vault w now) (ac_key (accs ! j)) =
        (if v_initialized v \<and> v_safe v = s then Some v else None) \<Longrightarrow>
        cu_vault (custody_of env p s vault w now) = unat (th_amount h) \<Longrightarrow>
        cu_slot (custody_of env p s vault w now) = now \<Longrightarrow>
        custody_step (custody_of env p s vault w now) (put_vesting (custody_of env p s vault w now) (ac_key (accs ! j)) v' n)"
  shows "\<exists>h'. safe_state env p s vault w' h' \<and>
    custody_step (custody_of env p s vault w now) (custody_of env p s vault w' now)"
proof -
  let ?k = "ac_key (accs ! j)"
  have new: "vest_of p s ((accs ! j)\<lparr>ac_data := vesting_bytes v'\<rparr>) = Some v'"
    using j(2) v' by (simp add: vest_of_Some)
  have no_safe: "\<And>sf. ?k = s \<Longrightarrow> ac_data (accs ! j) = safe_bytes sf \<Longrightarrow> \<exists>sf'. vesting_bytes v' = safe_bytes sf' \<and>
      sf_initialized sf' \<and> sf_vault sf' = sf_vault sf \<and> sf_nonce sf' = sf_nonce sf"
    using j(3) safe_not_vesting by metis
  obtain h' where h': "safe_state env p s vault w' h'" "Q (unat (th_amount h'))"
    "custody_of env p s vault w' now =
      \<lparr>cu_vestings = (vestings_of p s w)(?k \<mapsto> v'), cu_vault = unat (th_amount h'), cu_slot = now\<rparr>"
    using rewrite_custody [OF hr st pr kd cm j(1) refl j(2) no_safe eff] new by metis
  have old: "vestings_of p s w ?k = (if v_initialized v \<and> v_safe v = s then Some v else None)"
    using vestings_listed [OF pr j(1), of s] j(2,3) by (simp add: vest_of_def)
  have w: "custody_of env p s vault w now =
      \<lparr>cu_vestings = vestings_of p s w, cu_vault = unat (th_amount h), cu_slot = now\<rparr>"
    using st by (simp add: custody_of_def safe_state_def)
  have "custody_of env p s vault w' now =
      put_vesting (custody_of env p s vault w now) ?k v' (unat (th_amount h'))"
    by (simp add: w h'(3) put_vesting_def)
  then show ?thesis using step [OF h'(2)] old h'(1) by (auto simp: w)
qed

end
