(* ===== verification/LockupHandling.thy ===== *)
theory LockupHandling
  imports LockupRefines
begin

text \<open>
  Handler by handler: what an accepted instruction of the lockup program has checked and called,
  and that it is a step of the custody of any safe, its own or another.
\<close>

subsection \<open>Checks\<close>

lemma access_vault_checks:
  assumes "access_vault env a va s p = Inr t"
  shows "\<exists>sf. access_safe env s p = Inr sf \<and> holding_of env a = Some t \<and> ac_key a = sf_vault sf \<and>
    rt_program_address env (signer_seeds (ac_key s) (sf_nonce sf)) p = Inr (th_owner t) \<and> ac_key va = th_owner t"
  using assms
  by (auto simp: access_vault_def access_token_def access_vault_authority_def vault_address_def res_simps
      holding_of_Some simp del: access_safe_run)

text \<open>The vault that passes the checks is the safe's, or another one.\<close>

lemma checked_vault:
  assumes hr: "honest_runtime env p" and st: "safe_state env p s vault w h"
    and pr: "presents env p now w accs" and i: "i < length accs" and j: "j < length accs"
    and ok: "access_vault env (accs ! i) va (accs ! j) p = Inr t"
  shows "ac_key (accs ! j) = s \<longleftrightarrow> ac_key (accs ! i) = vault"
    and "ac_key (accs ! i) = vault \<Longrightarrow> t = h"
proof -
  note f = honestD [OF hr]
  obtain sf where sf: "access_safe env (accs ! j) p = Inr sf" "holding_of env (accs ! i) = Some t"
    "ac_key (accs ! i) = sf_vault sf"
    "rt_program_address env (signer_seeds (ac_key (accs ! j)) (sf_nonce sf)) p = Inr (th_owner t)"
    using access_vault_checks [OF ok] by blast
  show t: "t = h" if "ac_key (accs ! i) = vault"
    using vault_listed [OF st pr] hold_nth [OF presents_shared [OF pr] i, of env] sf(2) i that
    by (metis image_eqI nth_mem option.inject)
  show "ac_key (accs ! j) = s \<longleftrightarrow> ac_key (accs ! i) = vault"
  proof
    assume "ac_key (accs ! j) = s"
    then obtain sf' where "ac_data (accs ! j) = safe_bytes sf'" "sf_vault sf' = vault"
      using safe_listed [OF st pr j] by blast
    then show "ac_key (accs ! i) = vault" using sf(1,3) f(2) by (auto simp: res_simps safe_bytes_inj)
  next
    assume "ac_key (accs ! i) = vault"
    then show "ac_key (accs ! j) = s"
      using t sf(4) vault_owner_derived [OF st] f(4) unfolding unique_vaults_def by blast
  qed
qed

subsection \<open>Calls of the token program\<close>

lemma vault_unchanged:
  assumes "safe_state env p s vault w h"
  shows "vault_becomes env accs accs vault h (\<lambda>n. unat (th_amount h) \<le> n)"
  using assms by (simp add: vault_becomes_def safe_state_def)

lemma vault_call:
  assumes "honest_runtime env p" "shared accs"
    and "invoke_token env (rt_token_id env) call seeds keys accs = Inr accs1"
    and q: "\<And>h1. token_effect (signs env p seeds accs) call vault h h1 \<Longrightarrow>
      th_delegated_amount h1 = 0 \<and> Q (unat (th_amount h1))"
    and "vault \<notin> ac_key ` set accs \<Longrightarrow> Q (unat (th_amount h))"
  shows "vault_becomes env accs accs1 vault h Q"
  using invoke_token_effect(2) [OF assms(1-3), of vault h] q assms(5)
  by (auto simp: vault_becomes_def token_effect_def)

subsection \<open>Depositing\<close>

lemma create_run:
  assumes "handle_create_vesting env p accs b e n d = Inr r" "honest_runtime env p"
  shows "\<exists>t vt v accs1. 10 \<le> length accs \<and> access_clock env (accs ! 9) = Inr t \<and>
    access_vault env (accs ! 3) (accs ! 6) (accs ! 4) p = Inr vt \<and> ac_owner (accs ! 0) = p \<and>
    ac_data (accs ! 0) = vesting_bytes v \<and> \<not> v_initialized v \<and> t < e \<and> n \<noteq> 0 \<and> d \<noteq> 0 \<and>
    invoke_token env (rt_token_id env) (TokenTransfer (ac_key (accs ! 1)) (ac_key (accs ! 3)) (ac_key (accs ! 2)) d)
      None [ac_key (accs ! 1), ac_key (accs ! 2), ac_key (accs ! 3), ac_key (accs ! 7)] accs = Inr accs1 \<and>
    r = put_data (ac_key (accs ! 0))
      (vesting_bytes (new_vesting (ac_key (accs ! 4)) b n d e t (ac_key (accs ! 5)) v)) accs1"
proof -
  note f = honestD(3) [OF assms(2)]
  obtain t u where t: "10 \<le> length accs" "access_clock env (accs ! 9) = Inr t"
    "create_vesting_access env p accs e n d t = Inr u"
    "update_account_with vesting_format (accs ! 0) (create_vesting_transition env accs b e n d t) = Inr r"
    using assms(1) by (auto simp: handle_create_vesting_def f and_then_eq_Inr lockup_eq_Inr next_accounts_eq_Inr)
  obtain v v' accs1 where v: "ac_data (accs ! 0) = vesting_bytes v"
    "create_vesting_transition env accs b e n d t v = Inr (v', accs1)"
    "r = put_data (ac_key (accs ! 0)) (vesting_bytes v') accs1"
    using t(4) unfolding update_vesting_run by blast
  have acc: "\<exists>vt. access_vault env (accs ! 3) (accs ! 6) (accs ! 4) p = Inr vt" "ac_owner (accs ! 0) = p"
    "\<not> v_initialized v" "\<not> e \<le> t" "n \<noteq> 0" "d \<noteq> 0"
    using t(3) v(1) by (auto simp: create_vesting_access_def Let_def f res_simps vesting_bytes_inj)
  show ?thesis using t(1,2) acc v
    by (auto simp: create_vesting_transition_def Let_def and_then_eq_Inr lockup_eq_Inr not_le)
qed

lemma create_step:
  assumes hr: "honest_runtime env p" and st: "safe_state env p s vault w h" and pr: "presents env p now w accs"
    and run: "handle_create_vesting env p accs b e n d = Inr r" and cm: "commits w r w'"
  shows "\<exists>h'. safe_state env p s vault w' h' \<and>
    custody_step (custody_of env p s vault w now) (custody_of env p s vault w' now)"
proof -
  obtain t vt v accs1 where c: "10 \<le> length accs" "access_clock env (accs ! 9) = Inr t"
    "access_vault env (accs ! 3) (accs ! 6) (accs ! 4) p = Inr vt" "ac_owner (accs ! 0) = p"
    "ac_data (accs ! 0) = vesting_bytes v" "\<not> v_initialized v" "t < e" "n \<noteq> 0" "d \<noteq> 0"
    and inv: "invoke_token env (rt_token_id env)
      (TokenTransfer (ac_key (accs ! 1)) (ac_key (accs ! 3)) (ac_key (accs ! 2)) d)
      None [ac_key (accs ! 1), ac_key (accs ! 2), ac_key (accs ! 3), ac_key (accs ! 7)] accs = Inr accs1"
    and r: "r = put_data (ac_key (accs ! 0))
      (vesting_bytes (new_vesting (ac_key (accs ! 4)) b n d e t (ac_key (accs ! 5)) v)) accs1"
    using create_run [OF run hr] by blast
  let ?v = "new_vesting (ac_key (accs ! 4)) b n d e t (ac_key (accs ! 5)) v"
  have l: "0 < length accs" "3 < length accs" "4 < length accs" "9 < length accs" using c(1) by linarith+
  have sh: "shared accs" by (rule presents_shared [OF pr])
  note kd = invoke_token_effect(1) [OF hr sh inv]
  note cm' = cm [unfolded r]
  note vault = checked_vault [OF hr st pr l(2,3) c(3)]
  have unsigned: "\<not> signs env p None accs (th_owner h)" by (rule vault_not_signed [OF pr st])
  have none: "th_delegated_amount h = 0" using st by (simp add: safe_state_def)
  have now: "t = now" using c(2) pr l(4) by (auto simp: access_clock_def res_simps presents_def)
  show ?thesis
  proof (cases "ac_key (accs ! 4) = s")
    case True
    have eff: "vault_becomes env accs accs1 vault h (\<lambda>m. m = unat (th_amount h) + unat d)"
    proof (rule vault_call [OF hr sh inv])
      fix h1 assume "token_effect (signs env p None accs)
        (TokenTransfer (ac_key (accs ! 1)) (ac_key (accs ! 3)) (ac_key (accs ! 2)) d) vault h h1"
      then show "th_delegated_amount h1 = 0 \<and> unat (th_amount h1) = unat (th_amount h) + unat d"
        using True vault(1) unsigned none c(9) by (auto simp: token_effect_def split: if_splits)
    next
      show "vault \<notin> ac_key ` set accs \<Longrightarrow> unat (th_amount h) = unat (th_amount h) + unat d"
        using True vault(1) l(2) nth_mem by blast
    qed
    show ?thesis
    proof (rule own_vesting_step [OF hr st pr kd cm' l(1) c(4,5) _ _ eff])
      fix m
      let ?c = "custody_of env p s vault w now"
      assume "m = unat (th_amount h) + unat d"
        and "cu_vestings ?c (ac_key (accs ! 0)) = (if v_initialized v \<and> v_safe v = s then Some v else None)"
        and "cu_vault ?c = unat (th_amount h)" "cu_slot ?c = now"
      then show "custody_step ?c (put_vesting ?c (ac_key (accs ! 0)) ?v m)"
        using custody_step.create [of ?c "ac_key (accs ! 0)" ?v] c(6,7,8) now by (simp add: new_vesting_def)
    qed (simp_all add: new_vesting_def True)
  next
    case False
    have eff: "vault_becomes env accs accs1 vault h (\<lambda>m. unat (th_amount h) \<le> m)"
    proof (rule vault_call [OF hr sh inv])
      fix h1 assume "token_effect (signs env p None accs)
        (TokenTransfer (ac_key (accs ! 1)) (ac_key (accs ! 3)) (ac_key (accs ! 2)) d) vault h h1"
      then show "th_delegated_amount h1 = 0 \<and> unat (th_amount h) \<le> unat (th_amount h1)"
        using unsigned none c(9) by (auto simp: token_effect_def split: if_splits)
    qed simp
    show ?thesis
      by (rule other_vesting_step [OF hr st pr kd cm' l(1) c(4,5) _ _ eff])
        (simp_all add: c(6) False new_vesting_def)
  qed
qed

subsection \<open>Claiming and redeeming\<close>

lemma claim_run:
  assumes "handle_claim env p accs = Inr r" "honest_runtime env p"
  shows "\<exists>n v accs1. 7 \<le> length accs \<and> ac_owner (accs ! 1) = p \<and> ac_data (accs ! 1) = vesting_bytes v \<and>
    v_initialized v \<and> v_safe v = ac_key (accs ! 2) \<and> \<not> v_claimed v \<and>
    invoke_token env (rt_token_id env)
      (TokenMintTo (ac_key (accs ! 5)) (ac_key (accs ! 6)) (ac_key (accs ! 3)) (v_start_balance v))
      (Some (signer_seeds (ac_key (accs ! 2)) n)) (map ac_key accs) accs = Inr accs1 \<and>
    r = put_data (ac_key (accs ! 1))
      (vesting_bytes (v\<lparr>v_claimed := True, v_locked_nft_token := ac_key (accs ! 6)\<rparr>)) accs1"
proof -
  note f = honestD(2,3) [OF assms(2)]
  obtain u f' where t: "7 \<le> length accs" "claim_access env p accs = Inr u"
    "update_account_with vesting_format (accs ! 1) f' = Inr r"
    "f' = (\<lambda>v. and_then (lockup_try (unpack_account (le_safe env) (ac_data (accs ! 2)))) (\<lambda>sf.
       claim_transition env accs (sf_nonce sf) v))"
    using assms(1) by (auto simp: handle_claim_def f and_then_eq_Inr lockup_eq_Inr next_accounts_eq_Inr)
  obtain v v' accs1 where v: "ac_data (accs ! 1) = vesting_bytes v" "f' v = Inr (v', accs1)"
    "r = put_data (ac_key (accs ! 1)) (vesting_bytes v') accs1"
    using t(3) unfolding update_vesting_run by blast
  have acc: "ac_owner (accs ! 1) = p" "v_initialized v" "v_safe v = ac_key (accs ! 2)" "\<not> v_claimed v"
    using t(2) v(1) by (auto simp: claim_access_def Let_def f res_simps vesting_bytes_inj)
  show ?thesis using t(1,4) acc v
    by (auto simp: claim_transition_def Let_def and_then_eq_Inr lockup_eq_Inr)
qed

lemma claim_handler_step:
  assumes hr: "honest_runtime env p" and st: "safe_state env p s vault w h" and pr: "presents env p now w accs"
    and run: "handle_claim env p accs = Inr r" and cm: "commits w r w'"
  shows "\<exists>h'. safe_state env p s vault w' h' \<and>
    custody_step (custody_of env p s vault w now) (custody_of env p s vault w' now)"
proof -
  obtain n v accs1 where c: "7 \<le> length accs" "ac_owner (accs ! 1) = p" "ac_data (accs ! 1) = vesting_bytes v"
    "v_initialized v" "v_safe v = ac_key (accs ! 2)" "\<not> v_claimed v"
    and inv: "invoke_token env (rt_token_id env)
      (TokenMintTo (ac_key (accs ! 5)) (ac_key (accs ! 6)) (ac_key (accs ! 3)) (v_start_balance v))
      (Some (signer_seeds (ac_key (accs ! 2)) n)) (map ac_key accs) accs = Inr accs1"
    and r: "r = put_data (ac_key (accs ! 1))
      (vesting_bytes (v\<lparr>v_claimed := True, v_locked_nft_token := ac_key (accs ! 6)\<rparr>)) accs1"
    using claim_run [OF run hr] by blast
  have l: "1 < length accs" using c(1) by linarith
  have sh: "shared accs" by (rule presents_shared [OF pr])
  note kd = invoke_token_effect(1) [OF hr sh inv]
  note cm' = cm [unfolded r]
  have none: "th_delegated_amount h = 0" using st by (simp add: safe_state_def)
  have eff: "vault_becomes env accs accs1 vault h (\<lambda>m. unat (th_amount h) \<le> m)"
    by (rule vault_call [OF hr sh inv]) (simp_all add: token_effect_def none word_le_nat_alt)
  show ?thesis
  proof (cases "ac_key (accs ! 2) = s")
    case True
    show ?thesis
    proof (rule own_vesting_step [OF hr st pr kd cm' l c(2,3) _ _ eff])
      fix m
      let ?c = "custody_of env p s vault w now"
      assume "unat (th_amount h) \<le> m"
        and "cu_vestings ?c (ac_key (accs ! 1)) = (if v_initialized v \<and> v_safe v = s then Some v else None)"
        and "cu_vault ?c = unat (th_amount h)" "cu_slot ?c = now"
      then show "custody_step ?c (put_vesting ?c (ac_key (accs ! 1))
          (v\<lparr>v_claimed := True, v_locked_nft_token := ac_key (accs ! 6)\<rparr>) m)"
        using c(4-6) True by (intro custody_step.claim) simp_all
    qed (simp_all add: c True)
  next
    case False
    show ?thesis
      by (rule other_vesting_step [OF hr st pr kd cm' l c(2,3) _ _ eff]) (simp_all add: c False)
  qed
qed

lemma redeem_run:
  assumes "handle_redeem env p accs amount = Inr r" "honest_runtime env p"
  shows "\<exists>vt v slot available accs1 ix n accs2. 10 \<le> length accs \<and> ac_owner (accs ! 1) = p \<and>
    ac_data (accs ! 1) = vesting_bytes v \<and> v_initialized v \<and> v_safe v = ac_key (accs ! 5) \<and> v_claimed v \<and>
    access_vault env (accs ! 3) (accs ! 4) (accs ! 5) p = Inr vt \<and>
    access_clock env (accs ! 9) = Inr slot \<and> available_for_withdrawal v slot = Inr available \<and>
    amount \<le> available \<and>
    invoke_token env (rt_token_id env) (TokenBurn (ac_key (accs ! 6)) (ac_key (accs ! 7)) (v_beneficiary v) amount)
      None (map ac_key accs) accs = Inr accs1 \<and>
    rt_token_ix env (rt_token_id env)
      (TokenTransfer (ac_key (accs ! 3)) (ac_key (accs ! 2)) (ac_key (accs ! 4)) amount) = Inr ix \<and>
    rt_invoke env ix (Some (signer_seeds (ac_key (accs ! 5)) n))
      [ac_key (accs ! 3), ac_key (accs ! 2), ac_key (accs ! 4), ac_key (accs ! 8)] accs1 = Inr accs2 \<and>
    r = put_data (ac_key (accs ! 1)) (vesting_bytes (deduct amount v)) accs2"
proof -
  note f = honestD(2,3) [OF assms(2)]
  obtain u where t: "10 \<le> length accs" "redeem_access env p accs amount = Inr u"
    "update_account_with vesting_format (accs ! 1) (redeem_transition env accs amount) = Inr r"
    using assms(1) by (auto simp: handle_redeem_def f and_then_eq_Inr lockup_eq_Inr next_accounts_eq_Inr)
  obtain v v' accs2 where v: "ac_data (accs ! 1) = vesting_bytes v"
    "redeem_transition env accs amount v = Inr (v', accs2)"
    "r = put_data (ac_key (accs ! 1)) (vesting_bytes v') accs2"
    using t(3) unfolding update_vesting_run by blast
  obtain vt slot available where acc: "ac_owner (accs ! 1) = p" "v_initialized v"
    "v_safe v = ac_key (accs ! 5)" "v_claimed v"
    "access_vault env (accs ! 3) (accs ! 4) (accs ! 5) p = Inr vt" "access_clock env (accs ! 9) = Inr slot"
    "available_for_withdrawal v slot = Inr available" "amount \<le> available"
    using t(2) v(1) by (auto simp: redeem_access_def Let_def f res_simps vesting_bytes_inj not_less)
  have b: "v_beneficiary (deduct amount v) = v_beneficiary v" by (simp add: deduct_def)
  obtain accs1 ix n where calls: "invoke_token env (rt_token_id env)
      (TokenBurn (ac_key (accs ! 6)) (ac_key (accs ! 7)) (v_beneficiary v) amount)
      None (map ac_key accs) accs = Inr accs1"
    "rt_token_ix env (rt_token_id env)
      (TokenTransfer (ac_key (accs ! 3)) (ac_key (accs ! 2)) (ac_key (accs ! 4)) amount) = Inr ix"
    "rt_invoke env ix (Some (signer_seeds (ac_key (accs ! 5)) n))
      [ac_key (accs ! 3), ac_key (accs ! 2), ac_key (accs ! 4), ac_key (accs ! 8)] accs1 = Inr accs2"
    "v' = deduct amount v"
    using v(2) by (auto simp: redeem_transition_def Let_def and_then_eq_Inr lockup_eq_Inr fault_of_eq_Inr b)
  show ?thesis using t(1) v(1,3) acc calls by blast
qed

text \<open>Burning the beneficiary's locked tokens leaves the vault alone; then it pays, if it is the safe's.\<close>

lemma burn_and_pay:
  assumes hr: "honest_runtime env p" and sh: "shared accs"
    and unsigned: "\<not> signs env p None accs (th_owner h)" and none: "th_delegated_amount h = 0"
    and burn: "invoke_token env (rt_token_id env) (TokenBurn nft mint auth amount) None keys accs = Inr accs1"
    and pay: "rt_token_ix env (rt_token_id env) (TokenTransfer src dst owner amount) = Inr ix"
      "rt_invoke env ix seeds keys' accs1 = Inr accs2"
    and own: "own \<longleftrightarrow> src = vault"
  shows "vault_becomes env accs accs2 vault h (\<lambda>m. unat (th_amount h) \<le> m + (if own then unat amount else 0))"
  unfolding vault_becomes_def
proof (intro conjI impI)
  assume hold: "hold env accs vault = Some h"
  obtain h1 where h1: "hold env accs1 vault = Some h1"
    "token_effect (signs env p None accs) (TokenBurn nft mint auth amount) vault h h1"
    using invoke_token_effect(2) [OF hr sh burn hold] by blast
  then have e1: "th_owner h1 = th_owner h" "th_amount h1 = th_amount h" "th_delegated_amount h1 = 0"
    using unsigned none by (auto simp: token_effect_def split: if_splits)
  have sh1: "shared accs1" using invoke_token_effect(1) [OF hr sh burn] by (rule keeps_data_shared)
  obtain h2 where h2: "hold env accs2 vault = Some h2"
    "token_effect (signs env p seeds accs1) (TokenTransfer src dst owner amount) vault h1 h2"
    using token_call_effect(2) [OF hr sh1 pay h1(1)] by blast
  then have "th_owner h2 = th_owner h" "th_delegated_amount h2 = 0"
    using e1 by (simp_all add: token_effect_def)
  moreover have "unat (th_amount h) \<le> unat (th_amount h2) + (if own then unat amount else 0)"
    using h2(2) e1(2) own by (auto simp: token_effect_def unat_sub word_le_nat_alt split: if_splits)
  ultimately show "\<exists>h2. hold env accs2 vault = Some h2 \<and> th_owner h2 = th_owner h \<and>
      th_delegated_amount h2 = 0 \<and> unat (th_amount h) \<le> unat (th_amount h2) + (if own then unat amount else 0)"
    using h2(1) by blast
qed simp

lemma redeem_step:
  assumes hr: "honest_runtime env p" and st: "safe_state env p s vault w h" and pr: "presents env p now w accs"
    and run: "handle_redeem env p accs amount = Inr r" and cm: "commits w r w'"
  shows "\<exists>h'. safe_state env p s vault w' h' \<and>
    custody_step (custody_of env p s vault w now) (custody_of env p s vault w' now)"
proof -
  obtain vt v slot available accs1 ix n accs2 where c: "10 \<le> length accs" "ac_owner (accs ! 1) = p"
    "ac_data (accs ! 1) = vesting_bytes v" "v_initialized v" "v_safe v = ac_key (accs ! 5)" "v_claimed v"
    "access_vault env (accs ! 3) (accs ! 4) (accs ! 5) p = Inr vt"
    "access_clock env (accs ! 9) = Inr slot" "available_for_withdrawal v slot = Inr available"
    "amount \<le> available"
    and burn: "invoke_token env (rt_token_id env)
      (TokenBurn (ac_key (accs ! 6)) (ac_key (accs ! 7)) (v_beneficiary v) amount)
      None (map ac_key accs) accs = Inr accs1"
    and pay: "rt_token_ix env (rt_token_id env)
      (TokenTransfer (ac_key (accs ! 3)) (ac_key (accs ! 2)) (ac_key (accs ! 4)) amount) = Inr ix"
    "rt_invoke env ix (Some (signer_seeds (ac_key (accs ! 5)) n))
      [ac_key (accs ! 3), ac_key (accs ! 2), ac_key (accs ! 4), ac_key (accs ! 8)] accs1 = Inr accs2"
    and r: "r = put_data (ac_key (accs ! 1)) (vesting_bytes (deduct amount v)) accs2"
    using redeem_run [OF run hr] by blast
  have l: "1 < length accs" "3 < length accs" "5 < length accs" "9 < length accs" using c(1) by linarith+
  have sh: "shared accs" by (rule presents_shared [OF pr])
  note kd1 = invoke_token_effect(1) [OF hr sh burn]
  note sh1 = keeps_data_shared [OF kd1]
  note kd = keeps_data_trans [OF kd1 token_call_effect(1) [OF hr sh1 pay]]
  note cm' = cm [unfolded r]
  note vault = checked_vault [OF hr st pr l(2,3) c(7)]
  have unsigned: "\<not> signs env p None accs (th_owner h)" by (rule vault_not_signed [OF pr st])
  have none: "th_delegated_amount h = 0" using st by (simp add: safe_state_def)
  have now: "slot = now" using c(8) pr l(4) by (auto simp: access_clock_def res_simps presents_def)
  have eff: "vault_becomes env accs accs2 vault h
      (\<lambda>m. unat (th_amount h) \<le> m + (if ac_key (accs ! 5) = s then unat amount else 0))"
    by (rule burn_and_pay [OF hr sh unsigned none burn pay vault(1)])
  show ?thesis
  proof (cases "ac_key (accs ! 5) = s")
    case True
    show ?thesis
    proof (rule own_vesting_step [OF hr st pr kd cm' l(1) c(2,3) _ _ eff])
      fix m
      let ?c = "custody_of env p s vault w now"
      assume "unat (th_amount h) \<le> m + (if ac_key (accs ! 5) = s then unat amount else 0)"
        and "cu_vestings ?c (ac_key (accs ! 1)) = (if v_initialized v \<and> v_safe v = s then Some v else None)"
        and "cu_vault ?c = unat (th_amount h)" "cu_slot ?c = now"
      then show "custody_step ?c (put_vesting ?c (ac_key (accs ! 1)) (deduct amount v) m)"
        using c now True by (intro custody_step.redeem [where available = available]) simp_all
    qed (use True c(4,5) in \<open>simp_all add: deduct_def\<close>)
  next
    case False
    show ?thesis
      by (rule other_vesting_step [OF hr st pr kd cm' l(1) c(2,3)])
        (use False c(5) eff in \<open>simp_all add: deduct_def\<close>)
  qed
qed

end
