(* ===== verification/LockupRelay.thy ===== *)
theory LockupRelay
  imports LockupHandling
begin

text \<open>
  The two transfers with whitelisted programs, the handlers of the safe and its whitelist, and
  migrating, as steps of the custody; then any instruction.
\<close>

lemma hold_at:
  assumes "shared accs" "i < length accs" "ac_key (accs ! i) = k" "hold env accs k = Some h"
  shows "rt_holding env (ac_data (accs ! i)) = Inr h"
proof -
  have "holding_of env (accs ! i) = Some h" using hold_nth [OF assms(1,2), of env] assms(3,4) by simp
  then show ?thesis by (simp add: holding_of_Some)
qed

subsection \<open>Lending\<close>

text \<open>What approving, relaying and revoking leave of the vault, when the delegate may not sign for it.\<close>

lemma lend_effect:
  assumes hr: "honest_runtime env p" and sh: "shared accs" and none: "th_delegated_amount h = 0"
    and derived: "rt_program_address env seed p = Inr (th_owner h)"
    and approve: "invoke_token env (rt_token_id env) (TokenApprove account delegate owner amount) seeds keys accs = Inr accs1"
    and relay: "ix_program_id ix \<noteq> p" "rt_invoke env ix None keys accs1 = Inr accs2"
      "\<forall>m\<in>set (ix_accounts ix). am_pubkey m = th_owner h \<longrightarrow> \<not> am_is_signer m"
    and revoke: "invoke_token env (rt_token_id env) (TokenRevoke account owner) seeds keys accs2 = Inr accs3"
  shows "keeps_data p accs accs3"
    and "hold env accs vault = Some h \<Longrightarrow> \<exists>h3. hold env accs3 vault = Some h3 \<and> th_owner h3 = th_owner h \<and>
      th_delegated_amount h3 = 0 \<and>
      unat (th_amount h) \<le> unat (th_amount h3) + (if vault = account then unat amount else 0)"
proof -
  note k1 = invoke_token_effect(1) [OF hr sh approve]
  note sh1 = keeps_data_shared [OF k1]
  note k2 = invoke_keeps [OF hr relay(1) sh1 relay(2)]
  note sh2 = keeps_data_shared [OF k2]
  note k3 = invoke_token_effect(1) [OF hr sh2 revoke]
  show "keeps_data p accs accs3" using k1 k2 k3 by (blast intro: keeps_data_trans)
  assume hold: "hold env accs vault = Some h"
  obtain h1 where h1: "hold env accs1 vault = Some h1" "th_owner h1 = th_owner h" "th_amount h1 = th_amount h"
    "th_delegated_amount h1 = (if vault = account then amount else 0)"
    using invoke_token_effect(2) [OF hr sh approve hold] none by (auto simp: token_effect_def)
  obtain h2 where h2: "hold env accs2 vault = Some h2" "th_owner h2 = th_owner h"
    "th_delegated_amount h2 \<le> th_delegated_amount h1"
    "unat (th_amount h) \<le> unat (th_amount h2) + unat (th_delegated_amount h1)"
    using relay_effect [OF hr sh1 relay(1,2) h1(1), of seed] derived relay(3) h1(2,3) by auto
  obtain h3 where h3: "hold env accs3 vault = Some h3" "th_owner h3 = th_owner h" "th_amount h3 = th_amount h2"
    "th_delegated_amount h3 = (if vault = account then 0 else th_delegated_amount h2)"
    using invoke_token_effect(2) [OF hr sh2 revoke h2(1)] h2(2) by (auto simp: token_effect_def)
  show "\<exists>h3. hold env accs3 vault = Some h3 \<and> th_owner h3 = th_owner h \<and> th_delegated_amount h3 = 0 \<and>
      unat (th_amount h) \<le> unat (th_amount h3) + (if vault = account then unat amount else 0)"
    using h1(4) h2(3,4) h3 by (auto split: if_splits)
qed

lemma withdraw_run:
  assumes "handle_whitelist_withdraw env p accs amount d = Inr r" "honest_runtime env p"
  shows "\<exists>vt v n accs1 accs2 accs3 h3. 10 \<le> length accs \<and> ac_owner (accs ! 1) = p \<and>
    ac_data (accs ! 1) = vesting_bytes v \<and> v_initialized v \<and> v_safe v = ac_key (accs ! 2) \<and> v_claimed v \<and>
    access_vault env (accs ! 6) (accs ! 3) (accs ! 2) p = Inr vt \<and> amount \<le> available_for_whitelist v \<and>
    invoke_token env (ac_key (accs ! 9)) (TokenApprove (ac_key (accs ! 6)) (ac_key (accs ! 8)) (ac_key (accs ! 3)) amount)
      (Some (signer_seeds (ac_key (accs ! 2)) n)) (map ac_key accs) accs = Inr accs1 \<and>
    rt_invoke env (relay_instruction accs d) None (map ac_key accs) accs1 = Inr accs2 \<and>
    invoke_token env (ac_key (accs ! 9)) (TokenRevoke (ac_key (accs ! 6)) (ac_key (accs ! 3)))
      (Some (signer_seeds (ac_key (accs ! 2)) n)) (map ac_key accs) accs2 = Inr accs3 \<and>
    rt_holding env (ac_data (accs3 ! 6)) = Inr h3 \<and>
    r = put_data (ac_key (accs ! 1))
      (vesting_bytes (v\<lparr>v_whitelist_owned := v_whitelist_owned v + (amount - th_delegated_amount h3)\<rparr>)) accs3"
proof -
  note f = honestD(2,3) [OF assms(2)]
  obtain u f' where t: "10 \<le> length accs" "whitelist_withdraw_access env p accs amount = Inr u"
    "update_account_with vesting_format (accs ! 1) f' = Inr r"
    "f' = (\<lambda>v. and_then (lockup_try (unpack_account (le_safe env) (ac_data (accs ! 2)))) (\<lambda>sf.
       whitelist_withdraw_transition env accs amount d (sf_nonce sf) v))"
    using assms(1) by (auto simp: handle_whitelist_withdraw_def f and_then_eq_Inr lockup_eq_Inr next_accounts_eq_Inr)
  obtain v v' accs3 where v: "ac_data (accs ! 1) = vesting_bytes v" "f' v = Inr (v', accs3)"
    "r = put_data (ac_key (accs ! 1)) (vesting_bytes v') accs3"
    using t(3) unfolding update_vesting_run by blast
  obtain vt where acc: "ac_owner (accs ! 1) = p" "v_initialized v" "v_safe v = ac_key (accs ! 2)" "v_claimed v"
    "access_vault env (accs ! 6) (accs ! 3) (accs ! 2) p = Inr vt" "amount \<le> available_for_whitelist v"
    using t(2) v(1) by (auto simp: whitelist_withdraw_access_def relay_accounts_access_def Let_def f res_simps
        vesting_bytes_inj not_less)
  obtain n accs1 accs2 h3 where calls:
    "invoke_token env (ac_key (accs ! 9)) (TokenApprove (ac_key (accs ! 6)) (ac_key (accs ! 8)) (ac_key (accs ! 3)) amount)
      (Some (signer_seeds (ac_key (accs ! 2)) n)) (map ac_key accs) accs = Inr accs1"
    "rt_invoke env (relay_instruction accs d) None (map ac_key accs) accs1 = Inr accs2"
    "invoke_token env (ac_key (accs ! 9)) (TokenRevoke (ac_key (accs ! 6)) (ac_key (accs ! 3)))
      (Some (signer_seeds (ac_key (accs ! 2)) n)) (map ac_key accs) accs2 = Inr accs3"
    "rt_holding env (ac_data (accs3 ! 6)) = Inr h3"
    "v' = v\<lparr>v_whitelist_owned := v_whitelist_owned v + (amount - th_delegated_amount h3)\<rparr>"
    using v(2) t(4)
    by (auto simp: whitelist_withdraw_transition_def Let_def and_then_eq_Inr lockup_eq_Inr fault_of_eq_Inr)
  show ?thesis using t(1) v(1,3) acc calls by blast
qed

lemma withdraw_step:
  assumes hr: "honest_runtime env p" and st: "safe_state env p s vault w h" and pr: "presents env p now w accs"
    and run: "handle_whitelist_withdraw env p accs amount d = Inr r" and cm: "commits w r w'"
    and careful: "ac_key (accs ! 9) = rt_token_id env" "ac_key (accs ! 4) \<noteq> p"
  shows "\<exists>h'. safe_state env p s vault w' h' \<and>
    custody_step (custody_of env p s vault w now) (custody_of env p s vault w' now)"
proof -
  obtain vt v n accs1 accs2 accs3 h3 where c: "10 \<le> length accs" "ac_owner (accs ! 1) = p"
    "ac_data (accs ! 1) = vesting_bytes v" "v_initialized v" "v_safe v = ac_key (accs ! 2)" "v_claimed v"
    "access_vault env (accs ! 6) (accs ! 3) (accs ! 2) p = Inr vt" "amount \<le> available_for_whitelist v"
    and approve: "invoke_token env (rt_token_id env)
      (TokenApprove (ac_key (accs ! 6)) (ac_key (accs ! 8)) (ac_key (accs ! 3)) amount)
      (Some (signer_seeds (ac_key (accs ! 2)) n)) (map ac_key accs) accs = Inr accs1"
    and relay: "rt_invoke env (relay_instruction accs d) None (map ac_key accs) accs1 = Inr accs2"
    and revoke: "invoke_token env (rt_token_id env) (TokenRevoke (ac_key (accs ! 6)) (ac_key (accs ! 3)))
      (Some (signer_seeds (ac_key (accs ! 2)) n)) (map ac_key accs) accs2 = Inr accs3"
    and h3: "rt_holding env (ac_data (accs3 ! 6)) = Inr h3"
    and r: "r = put_data (ac_key (accs ! 1))
      (vesting_bytes (v\<lparr>v_whitelist_owned := v_whitelist_owned v + (amount - th_delegated_amount h3)\<rparr>)) accs3"
    using withdraw_run [OF run hr] careful(1) by metis
  have l: "1 < length accs" "6 < length accs" "2 < length accs" using c(1) by linarith+
  have sh: "shared accs" by (rule presents_shared [OF pr])
  have none: "th_delegated_amount h = 0" using st by (simp add: safe_state_def)
  obtain m where derived: "rt_program_address env (signer_seeds s m) p = Inr (th_owner h)"
    using vault_owner_derived [OF st] by blast
  have prog: "ix_program_id (relay_instruction accs d) \<noteq> p" using careful(2) by (simp add: relay_instruction_def)
  note lend = lend_effect [OF hr sh none derived approve prog relay relay_not_signed [OF pr st] revoke]
  note kd = lend(1)
  note cm' = cm [unfolded r]
  note own = checked_vault(1) [OF hr st pr l(2,3) c(7)]
  have eff: "vault_becomes env accs accs3 vault h
      (\<lambda>m. unat (th_amount h) \<le> m + (if vault = ac_key (accs ! 6) then unat amount else 0))"
    unfolding vault_becomes_def using lend(2) by simp
  show ?thesis
  proof (cases "ac_key (accs ! 2) = s")
    case True
    then have at: "ac_key (accs ! 6) = vault" using own by simp
    then have "hold env accs vault = Some h" using vault_listed [OF st pr] l(2) nth_mem by blast
    from lend(2) [OF this] obtain h' where "hold env accs3 vault = Some h'" "th_delegated_amount h' = 0" by blast
    moreover have "ac_key (accs3 ! 6) = vault" using keeps_data_nth [OF kd l(2)] at by (simp add: keeps_account_def)
    moreover have "6 < length accs3" using kd l(2) by simp
    ultimately have all: "th_delegated_amount h3 = 0"
      using hold_at [OF keeps_data_shared [OF kd], of 6 vault env h'] h3 by simp
    show ?thesis
    proof (rule own_vesting_step [OF hr st pr kd cm' l(1) c(2,3) _ _ eff])
      fix m
      let ?c = "custody_of env p s vault w now"
      assume "unat (th_amount h) \<le> m + (if vault = ac_key (accs ! 6) then unat amount else 0)"
        and "cu_vestings ?c (ac_key (accs ! 1)) = (if v_initialized v \<and> v_safe v = s then Some v else None)"
        and "cu_vault ?c = unat (th_amount h)" "cu_slot ?c = now"
      then show "custody_step ?c (put_vesting ?c (ac_key (accs ! 1))
          (v\<lparr>v_whitelist_owned := v_whitelist_owned v + (amount - th_delegated_amount h3)\<rparr>) m)"
        using c True at all custody_step.withdraw [of ?c "ac_key (accs ! 1)" v amount m] by simp
    qed (simp_all add: c True)
  next
    case False
    show ?thesis
      by (rule other_vesting_step [OF hr st pr kd cm' l(1) c(2,3)])
        (use False own c(5) eff in \<open>auto\<close>)
  qed
qed

subsection \<open>Taking back\<close>

lemma deposit_run:
  assumes "handle_whitelist_deposit env p accs d = Inr r" "honest_runtime env p"
  shows "\<exists>vt v n accs1 h0 h1. 10 \<le> length accs \<and> ac_owner (accs ! 1) = p \<and>
    ac_data (accs ! 1) = vesting_bytes v \<and> v_initialized v \<and> v_safe v = ac_key (accs ! 2) \<and> v_claimed v \<and>
    access_vault env (accs ! 6) (accs ! 3) (accs ! 2) p = Inr vt \<and>
    rt_holding env (ac_data (accs ! 6)) = Inr h0 \<and>
    rt_invoke env (relay_instruction accs d) (Some (signer_seeds (ac_key (accs ! 2)) n)) (map ac_key accs) accs
      = Inr accs1 \<and>
    rt_holding env (ac_data (accs1 ! 6)) = Inr h1 \<and> th_amount h0 < th_amount h1 \<and>
    th_amount h1 - th_amount h0 \<le> v_whitelist_owned v \<and>
    r = put_data (ac_key (accs ! 1))
      (vesting_bytes (v\<lparr>v_whitelist_owned := v_whitelist_owned v - (th_amount h1 - th_amount h0)\<rparr>)) accs1"
proof -
  note f = honestD(2,3) [OF assms(2)]
  obtain u f' where t: "10 \<le> length accs" "whitelist_deposit_access env p accs = Inr u"
    "update_account_with vesting_format (accs ! 1) f' = Inr r"
    "f' = (\<lambda>v. and_then (lockup_try (unpack_account (le_safe env) (ac_data (accs ! 2)))) (\<lambda>sf.
       whitelist_deposit_transition env accs d (sf_nonce sf) v))"
    using assms(1) by (auto simp: handle_whitelist_deposit_def f and_then_eq_Inr lockup_eq_Inr next_accounts_eq_Inr)
  obtain v v' accs1 where v: "ac_data (accs ! 1) = vesting_bytes v" "f' v = Inr (v', accs1)"
    "r = put_data (ac_key (accs ! 1)) (vesting_bytes v') accs1"
    using t(3) unfolding update_vesting_run by blast
  obtain vt where acc: "ac_owner (accs ! 1) = p" "v_initialized v" "v_safe v = ac_key (accs ! 2)" "v_claimed v"
    "access_vault env (accs ! 6) (accs ! 3) (accs ! 2) p = Inr vt"
    using t(2) v(1) by (auto simp: whitelist_deposit_access_def relay_accounts_access_def Let_def f res_simps
        vesting_bytes_inj)
  obtain n h0 h1 where calls: "rt_holding env (ac_data (accs ! 6)) = Inr h0"
    "rt_invoke env (relay_instruction accs d) (Some (signer_seeds (ac_key (accs ! 2)) n)) (map ac_key accs) accs = Inr accs1"
    "rt_holding env (ac_data (accs1 ! 6)) = Inr h1" "th_amount h0 < th_amount h1"
    "th_amount h1 - th_amount h0 \<le> v_whitelist_owned v"
    "v' = v\<lparr>v_whitelist_owned := v_whitelist_owned v - (th_amount h1 - th_amount h0)\<rparr>"
    using v(2) t(4)
    by (auto simp: whitelist_deposit_transition_def Let_def and_then_eq_Inr lockup_eq_Inr fault_of_eq_Inr)
  show ?thesis using t(1) v(1,3) acc calls by blast
qed

lemma deposit_step:
  assumes hr: "honest_runtime env p" and st: "safe_state env p s vault w h" and pr: "presents env p now w accs"
    and run: "handle_whitelist_deposit env p accs d = Inr r" and cm: "commits w r w'"
    and careful: "ac_key (accs ! 4) \<noteq> p"
  shows "\<exists>h'. safe_state env p s vault w' h' \<and>
    custody_step (custody_of env p s vault w now) (custody_of env p s vault w' now)"
proof -
  obtain vt v n accs1 h0 h1 where c: "10 \<le> length accs" "ac_owner (accs ! 1) = p"
    "ac_data (accs ! 1) = vesting_bytes v" "v_initialized v" "v_safe v = ac_key (accs ! 2)" "v_claimed v"
    "access_vault env (accs ! 6) (accs ! 3) (accs ! 2) p = Inr vt"
    "rt_holding env (ac_data (accs ! 6)) = Inr h0"
    and relay: "rt_invoke env (relay_instruction accs d) (Some (signer_seeds (ac_key (accs ! 2)) n))
      (map ac_key accs) accs = Inr accs1"
    and h1: "rt_holding env (ac_data (accs1 ! 6)) = Inr h1" "th_amount h0 < th_amount h1"
    "th_amount h1 - th_amount h0 \<le> v_whitelist_owned v"
    and r: "r = put_data (ac_key (accs ! 1))
      (vesting_bytes (v\<lparr>v_whitelist_owned := v_whitelist_owned v - (th_amount h1 - th_amount h0)\<rparr>)) accs1"
    using deposit_run [OF run hr] by blast
  have l: "1 < length accs" "6 < length accs" "2 < length accs" using c(1) by linarith+
  have sh: "shared accs" by (rule presents_shared [OF pr])
  have none: "th_delegated_amount h = 0" using st by (simp add: safe_state_def)
  obtain m where derived: "rt_program_address env (signer_seeds s m) p = Inr (th_owner h)"
    using vault_owner_derived [OF st] by blast
  have prog: "ix_program_id (relay_instruction accs d) \<noteq> p" using careful by (simp add: relay_instruction_def)
  note kd = invoke_keeps [OF hr prog sh relay]
  note cm' = cm [unfolded r]
  note own = checked_vault(1) [OF hr st pr l(2,3) c(7)]
  have relayed: "hold env accs vault = Some h \<Longrightarrow> \<exists>h'. hold env accs1 vault = Some h' \<and> th_owner h' = th_owner h \<and>
      th_delegated_amount h' = 0 \<and> unat (th_amount h) \<le> unat (th_amount h')"
    using relay_effect [OF hr sh prog relay _ derived relay_not_signed [OF pr st]] none by auto
  show ?thesis
  proof (cases "ac_key (accs ! 2) = s")
    case True
    then have at: "ac_key (accs ! 6) = vault" using own by simp
    then have listed: "vault \<in> ac_key ` set accs" using l(2) nth_mem by blast
    then have hold: "hold env accs vault = Some h" by (rule vault_listed [OF st pr])
    then have "h0 = h" using hold_at [OF sh l(2) at] c(8) by simp
    moreover have key: "ac_key (accs1 ! 6) = vault" using keeps_data_nth [OF kd l(2)] at by (simp add: keeps_account_def)
    have len: "6 < length accs1" using kd l(2) by simp
    obtain h' where h': "hold env accs1 vault = Some h'" "th_owner h' = th_owner h" "th_delegated_amount h' = 0"
      using relayed [OF hold] by blast
    moreover have "h' = h1" using hold_at [OF keeps_data_shared [OF kd] len key h'(1)] h1(1) by simp
    moreover have "unat (th_amount h1) = unat (th_amount h0) + unat (th_amount h1 - th_amount h0)"
      using h1(2) by (simp add: unat_sub word_le_nat_alt word_less_nat_alt)
    ultimately have eff: "vault_becomes env accs accs1 vault h
        (\<lambda>m. m = unat (th_amount h) + unat (th_amount h1 - th_amount h0))"
      using listed unfolding vault_becomes_def by auto
    show ?thesis
    proof (rule own_vesting_step [OF hr st pr kd cm' l(1) c(2,3) _ _ eff])
      fix m
      let ?c = "custody_of env p s vault w now"
      assume "m = unat (th_amount h) + unat (th_amount h1 - th_amount h0)"
        and "cu_vestings ?c (ac_key (accs ! 1)) = (if v_initialized v \<and> v_safe v = s then Some v else None)"
        and "cu_vault ?c = unat (th_amount h)" "cu_slot ?c = now"
      then show "custody_step ?c (put_vesting ?c (ac_key (accs ! 1))
          (v\<lparr>v_whitelist_owned := v_whitelist_owned v - (th_amount h1 - th_amount h0)\<rparr>) m)"
        using c True h1(3) custody_step.deposit [of ?c "ac_key (accs ! 1)" v "th_amount h1 - th_amount h0"] by simp
    qed (simp_all add: c True)
  next
    case False
    have eff: "vault_becomes env accs accs1 vault h (\<lambda>m. unat (th_amount h) \<le> m)"
      unfolding vault_becomes_def using relayed by simp
    show ?thesis
      by (rule other_vesting_step [OF hr st pr kd cm' l(1) c(2,3) _ _ eff]) (simp_all add: c(5) False)
  qed
qed

end
