(* ===== verification/LockupChain.thy ===== *)
theory LockupChain
  imports LockupRelay
begin

text \<open>
  The lockup program on the chain: the handlers of the safe and its whitelist as steps of the
  custody, and every instruction as one; a migration empties the vault of its safe.
\<close>

text \<open>
  What no check of the program ensures: that the token program passed to a withdrawal is the
  token program, and that the lockup program is not on its own whitelist.
\<close>

definition careful :: "lockup_env \<Rightarrow> aligned \<Rightarrow> acct list \<Rightarrow> lockup_instruction \<Rightarrow> bool" where
  "careful env p accs i =
     (case i of
        WhitelistWithdraw amount d \<Rightarrow> ac_key (accs ! 9) = rt_token_id env \<and> ac_key (accs ! 4) \<noteq> p
      | WhitelistDeposit d \<Rightarrow> ac_key (accs ! 4) \<noteq> p
      | _ \<Rightarrow> True)"

text \<open>The authority of the safe moves its tokens away; then, and only then, the custody may end.\<close>

definition migrates :: "aligned \<Rightarrow> acct list \<Rightarrow> lockup_instruction \<Rightarrow> bool" where
  "migrates s accs i \<longleftrightarrow> i = Migrate \<and> ac_key (accs ! 1) = s"

definition custody_moves :: "bool \<Rightarrow> custody \<Rightarrow> custody \<Rightarrow> bool" where
  "custody_moves migrated c c' \<longleftrightarrow> custody_step c c' \<or> migrated \<and> c' = c\<lparr>cu_vault := 0\<rparr>"

subsection \<open>The safe and its whitelist\<close>

lemma vest_of_length: "length (ac_data a) \<noteq> 178 \<Longrightarrow> vest_of p s a = None"
  using vesting_encoded(2) by (cases "vest_of p s a") (auto simp: vest_of_Some)

lemma initialize_step:
  assumes hr: "honest_runtime env p" and st: "safe_state env p s vault w h" and pr: "presents env p now w accs"
    and run: "handle_initialize env p accs authority nonce = Inr r" and cm: "commits w r w'"
  shows "\<exists>h'. safe_state env p s vault w' h' \<and>
    custody_step (custody_of env p s vault w now) (custody_of env p s vault w' now)"
proof -
  note f = honestD(2) [OF hr]
  have len: "5 \<le> length accs" and acc: "initialize_access env p accs nonce = Inr ()"
    and upd: "update_account_with safe_format (accs ! 0) (\<lambda>sf. Inr (initialize_transition (ac_key (accs ! 3))
      authority (ac_key (accs ! 1)) (ac_key (accs ! 2)) nonce sf, accs)) = Inr r"
    using run by (auto simp: handle_initialize_def f and_then_eq_Inr lockup_eq_Inr next_accounts_eq_Inr)
  obtain sf sf' where sf: "ac_data (accs ! 0) = safe_bytes sf" "r = put_data (ac_key (accs ! 0)) (safe_bytes sf') accs"
    using upd unfolding update_safe_run by auto
  have new: "ac_owner (accs ! 0) = p" "\<not> sf_initialized sf"
    using acc sf(1) by (auto simp: initialize_access_def Let_def f res_simps safe_bytes_inj)
  have l: "0 < length accs" using len by linarith
  have "ac_key (accs ! 0) \<noteq> s"
    using safe_listed [OF st pr l] sf(1) new(2) by (auto simp: safe_bytes_inj)
  then show ?thesis
    using unrelated_step [OF hr st pr keeps_data_refl [OF presents_shared [OF pr]] cm [unfolded sf(2)] l refl new(1)
        _ _ _ vault_unchanged [OF st]] sf(1) safe_encoded(2) by (simp add: vest_of_length)
qed

lemma set_authority_step:
  assumes hr: "honest_runtime env p" and st: "safe_state env p s vault w h" and pr: "presents env p now w accs"
    and run: "handle_set_authority env p accs a = Inr r" and cm: "commits w r w'"
  shows "\<exists>h'. safe_state env p s vault w' h' \<and>
    custody_step (custody_of env p s vault w now) (custody_of env p s vault w' now)"
proof -
  note f = honestD(2) [OF hr]
  obtain g where len: "2 \<le> length accs" and acc: "governance env p (accs ! 1) (accs ! 0) = Inr g"
    and upd: "update_account_with safe_format (accs ! 1) (\<lambda>sf. Inr (sf\<lparr>sf_authority := a\<rparr>, accs)) = Inr r"
    using run by (auto simp: handle_set_authority_def f and_then_eq_Inr lockup_eq_Inr next_accounts_eq_Inr)
  obtain sf where sf: "ac_data (accs ! 1) = safe_bytes sf"
    "r = put_data (ac_key (accs ! 1)) (safe_bytes (sf\<lparr>sf_authority := a\<rparr>)) accs"
    using upd unfolding update_safe_run by auto
  have own: "ac_owner (accs ! 1) = p" "sf_initialized sf"
    using acc sf(1) by (auto simp: res_simps f safe_bytes_inj)
  have l: "1 < length accs" using len by linarith
  show ?thesis
  proof (rule unrelated_step [OF hr st pr keeps_data_refl [OF presents_shared [OF pr]] cm [unfolded sf(2)] l refl own(1)
      _ _ _ vault_unchanged [OF st]])
    fix sf0 assume "ac_data (accs ! 1) = safe_bytes sf0"
    then have "sf0 = sf" using sf(1) by (simp add: safe_bytes_inj)
    then show "\<exists>sf'. safe_bytes (sf\<lparr>sf_authority := a\<rparr>) = safe_bytes sf' \<and> sf_initialized sf' \<and>
        sf_vault sf' = sf_vault sf0 \<and> sf_nonce sf' = sf_nonce sf0" using own(2) by auto
  qed (use sf(1) safe_encoded(2) in \<open>simp_all add: vest_of_length\<close>)
qed

lemma length_add_at: "add_at data i e = Inr data' \<Longrightarrow> length data' = length data"
  by (auto simp: add_at_def whitelist_sizes split: if_splits)

lemma whitelist_update_length:
  "whitelist_push data e = Inr (idx, data') \<Longrightarrow> length data' = length data"
  "whitelist_delete data e = Inr (idx, data') \<Longrightarrow> length data' = length data"
  by (auto simp: whitelist_push_def whitelist_delete_def res_simps length_add_at split: option.splits)

text \<open>An account of the whitelist's length is rewritten with that length.\<close>

lemma whitelist_step:
  assumes hr: "honest_runtime env p" and st: "safe_state env p s vault w h" and pr: "presents env p now w accs"
    and j: "j < length accs" "ac_owner (accs ! j) = p" "length (ac_data (accs ! j)) = 3250" "length d = 3250"
    and cm: "commits w (put_data (ac_key (accs ! j)) d accs) w'"
  shows "\<exists>h'. safe_state env p s vault w' h' \<and>
    custody_step (custody_of env p s vault w now) (custody_of env p s vault w' now)"
proof (rule unrelated_step [OF hr st pr keeps_data_refl [OF presents_shared [OF pr]] cm j(1) refl j(2) _ _ _
      vault_unchanged [OF st]])
  fix sf assume "ac_data (accs ! j) = safe_bytes sf"
  then show "\<exists>sf'. d = safe_bytes sf' \<and> sf_initialized sf' \<and> sf_vault sf' = sf_vault sf \<and> sf_nonce sf' = sf_nonce sf"
    using safe_encoded(2) [of sf] j(3) by simp
qed (use j(3,4) in \<open>simp_all add: vest_of_length\<close>)

lemma whitelist_admin_run:
  "whitelist_admin_access env p accs = Inr u \<Longrightarrow>
    ac_owner (accs ! 2) = p \<and> length (ac_data (accs ! 2)) = 3250"
  by (auto simp: whitelist_admin_access_def access_whitelist_def whitelist_new_def whitelist_sizes res_simps
      simp del: governance_run)

lemma whitelist_add_step:
  assumes hr: "honest_runtime env p" and st: "safe_state env p s vault w h" and pr: "presents env p now w accs"
    and run: "handle_whitelist_add env p accs e = Inr r \<or> handle_whitelist_delete env p accs e = Inr r"
    and cm: "commits w r w'"
  shows "\<exists>h'. safe_state env p s vault w' h' \<and>
    custody_step (custody_of env p s vault w now) (custody_of env p s vault w' now)"
proof -
  obtain u d where d: "3 \<le> length accs" "whitelist_admin_access env p accs = Inr u"
    "length d = length (ac_data (accs ! 2))" "r = put_data (ac_key (accs ! 2)) d accs"
    using run by (auto simp: handle_whitelist_add_def handle_whitelist_delete_def and_then_eq_Inr lockup_eq_Inr
        next_accounts_eq_Inr dest: whitelist_update_length)
  have l: "2 < length accs" using d(1) by linarith
  note own = whitelist_admin_run [OF d(2)]
  show ?thesis
    by (rule whitelist_step [OF hr st pr l _ _ _ cm [unfolded d(4)]]) (use own d(3) in auto)
qed

text \<open>An account that is no vesting account of the safe, and whatever the vault becomes.\<close>

lemma safe_rewritten:
  assumes hr: "honest_runtime env p" and st: "safe_state env p s vault w h"
    and pr: "presents env p now w accs" and kd: "keeps_data p accs accs1"
    and cm: "commits w (put_data k d accs1) w'"
    and j: "j < length accs" "ac_key (accs ! j) = k" "ac_owner (accs ! j) = p"
    and kept: "\<And>sf. k = s \<Longrightarrow> ac_data (accs ! j) = safe_bytes sf \<Longrightarrow> \<exists>sf'. d = safe_bytes sf' \<and>
      sf_initialized sf' \<and> sf_vault sf' = sf_vault sf \<and> sf_nonce sf' = sf_nonce sf"
    and none: "vest_of p s (accs ! j) = None" "vest_of p s ((accs ! j)\<lparr>ac_data := d\<rparr>) = None"
    and eff: "vault_becomes env accs accs1 vault h Q"
  shows "\<exists>h'. safe_state env p s vault w' h' \<and> Q (unat (th_amount h')) \<and>
    custody_of env p s vault w' now = (custody_of env p s vault w now)\<lparr>cu_vault := unat (th_amount h')\<rparr>"
proof -
  obtain h' where h': "safe_state env p s vault w' h'" "Q (unat (th_amount h'))"
    "custody_of env p s vault w' now =
      \<lparr>cu_vestings = (vestings_of p s w)(k := None), cu_vault = unat (th_amount h'), cu_slot = now\<rparr>"
    using rewrite_custody [OF hr st pr kd cm j kept eff] none(2) by metis
  have "vestings_of p s w k = None" using vestings_listed [OF pr j(1), of s] j(2) none(1) by simp
  then have "(vestings_of p s w)(k := None) = vestings_of p s w" by (simp add: fun_upd_idem)
  then show ?thesis using h' by (auto simp: custody_of_def)
qed

lemma migrate_step:
  assumes hr: "honest_runtime env p" and st: "safe_state env p s vault w h" and pr: "presents env p now w accs"
    and run: "handle_migrate env p accs = Inr r" and cm: "commits w r w'"
  shows "\<exists>h'. safe_state env p s vault w' h' \<and>
    custody_moves (ac_key (accs ! 1) = s) (custody_of env p s vault w now) (custody_of env p s vault w' now)"
proof -
  note f = honestD(2) [OF hr]
  obtain g f' where len: "6 \<le> length accs" and acc: "governance env p (accs ! 1) (accs ! 0) = Inr g"
    and upd: "update_account_with safe_format (accs ! 1) f' = Inr r"
    and f': "f' = (\<lambda>sf. and_then (lockup_try (fault_of (rt_holding env (ac_data (accs ! 2))))) (\<lambda>vault.
       migrate_transition env accs (th_amount vault) sf))"
    using run by (auto simp: handle_migrate_def f and_then_eq_Inr lockup_eq_Inr next_accounts_eq_Inr)
  obtain sf sf' accs1 where sf: "ac_data (accs ! 1) = safe_bytes sf" "f' sf = Inr (sf', accs1)"
    "r = put_data (ac_key (accs ! 1)) (safe_bytes sf') accs1"
    using upd unfolding update_safe_run by auto
  obtain hv seeds keys where hv: "rt_holding env (ac_data (accs ! 2)) = Inr hv"
    and inv: "invoke_token env (rt_token_id env)
      (TokenTransfer (ac_key (accs ! 2)) (ac_key (accs ! 4)) (ac_key (accs ! 3)) (th_amount hv)) (Some seeds) keys accs = Inr accs1"
    and seeds: "seeds = signer_seeds (ac_key (accs ! 1)) (sf_nonce sf)" and same: "sf' = sf"
    using sf(2) f' by (auto simp: migrate_transition_def Let_def and_then_eq_Inr lockup_eq_Inr fault_of_eq_Inr)
  have own: "ac_owner (accs ! 1) = p" and init: "sf_initialized sf" using acc sf(1) f
    by (auto simp: res_simps safe_bytes_inj)
  have l: "1 < length accs" "2 < length accs" using len by linarith+
  have sh: "shared accs" by (rule presents_shared [OF pr])
  have none: "th_delegated_amount h = 0" using st by (simp add: safe_state_def)
  have unsigned: "signs env p (Some seeds) accs (th_owner h) \<Longrightarrow> ac_key (accs ! 1) = s"
    using vault_signed_by_safe [OF pr st honestD(4) [OF hr]] seeds by blast
  have all: "hv = h" if "ac_key (accs ! 2) = vault"
  proof -
    have "vault \<in> ac_key ` set accs" using that l(2) nth_mem by blast
    then have "hold env accs vault = Some h" by (rule vault_listed [OF st pr])
    then show ?thesis using hold_at [OF sh l(2) that] hv by simp
  qed
  have eff: "vault_becomes env accs accs1 vault h (\<lambda>m. unat (th_amount h) \<le> m \<or> ac_key (accs ! 1) = s \<and> m = 0)"
  proof (rule vault_call [OF hr sh inv])
    fix h1 assume "token_effect (signs env p (Some seeds) accs)
      (TokenTransfer (ac_key (accs ! 2)) (ac_key (accs ! 4)) (ac_key (accs ! 3)) (th_amount hv)) vault h h1"
    then show "th_delegated_amount h1 = 0 \<and> (unat (th_amount h) \<le> unat (th_amount h1) \<or>
        ac_key (accs ! 1) = s \<and> unat (th_amount h1) = 0)"
      using unsigned none all by (auto simp: token_effect_def split: if_splits)
  qed simp
  obtain h' where h': "safe_state env p s vault w' h'"
    "unat (th_amount h) \<le> unat (th_amount h') \<or> ac_key (accs ! 1) = s \<and> unat (th_amount h') = 0"
    "custody_of env p s vault w' now = (custody_of env p s vault w now)\<lparr>cu_vault := unat (th_amount h')\<rparr>"
    using safe_rewritten [OF hr st pr invoke_token_effect(1) [OF hr sh inv] cm [unfolded sf(3)] l(1) refl own _ _ _ eff]
      sf(1) safe_encoded(2) same init by (auto simp: vest_of_length safe_bytes_inj)
  have "cu_vault (custody_of env p s vault w now) = unat (th_amount h)"
    using st by (simp add: custody_of_def safe_state_def)
  then show ?thesis using h' custody_step.other [of "custody_of env p s vault w now" "unat (th_amount h')"]
    unfolding custody_moves_def by metis
qed

text \<open>Any instruction.\<close>

lemma lockup_custody_step:
  assumes hr: "honest_runtime env p" and st: "safe_state env p s vault w h" and pr: "presents env p now w accs"
    and run: "run_lockup env p accs i = Inr r" and cm: "commits w r w'" and careful: "careful env p accs i" and "i \<noteq> Migrate"
  shows "\<exists>h'. safe_state env p s vault w' h' \<and>
    custody_step (custody_of env p s vault w now) (custody_of env p s vault w' now)"
proof (cases i)
  case Initialize
  then show ?thesis using initialize_step [OF hr st pr _ cm] run by (simp add: run_lockup_def)
next
  case CreateVesting
  then show ?thesis using create_step [OF hr st pr _ cm] run by (simp add: run_lockup_def)
next
  case Claim
  then show ?thesis using claim_handler_step [OF hr st pr _ cm] run by (simp add: run_lockup_def)
next
  case Redeem
  then show ?thesis using redeem_step [OF hr st pr _ cm] run by (simp add: run_lockup_def)
next
  case WhitelistWithdraw
  then show ?thesis using withdraw_step [OF hr st pr _ cm] run careful by (simp add: run_lockup_def careful_def)
next
  case WhitelistDeposit
  then show ?thesis using deposit_step [OF hr st pr _ cm] run careful by (simp add: run_lockup_def careful_def)
next
  case (WhitelistAdd e)
  then show ?thesis using whitelist_add_step [OF hr st pr disjI1 cm] run by (simp add: run_lockup_def)
next
  case (WhitelistDelete e)
  then show ?thesis using whitelist_add_step [OF hr st pr disjI2 cm] run by (simp add: run_lockup_def)
next
  case SetAuthority
  then show ?thesis using set_authority_step [OF hr st pr _ cm] run by (simp add: run_lockup_def)
qed (use assms(7) in simp)

lemma lockup_instruction_step:
  assumes hr: "honest_runtime env p" and st: "safe_state env p s vault w h" and pr: "presents env p now w accs"
    and run: "run_lockup env p accs i = Inr r" and cm: "commits w r w'" and careful: "careful env p accs i"
  shows "\<exists>h'. safe_state env p s vault w' h' \<and>
    custody_moves (migrates s accs i) (custody_of env p s vault w now) (custody_of env p s vault w' now)"
proof (cases "i = Migrate")
  case True
  then show ?thesis using migrate_step [OF hr st pr _ cm] run by (simp add: run_lockup_def migrates_def)
next
  case False
  then show ?thesis using lockup_custody_step [OF assms] unfolding custody_moves_def by blast
qed

end
