(* ===== verification/LockupSafety.thy ===== *)
theory LockupSafety
  imports LockupChain
begin

text \<open>
  What holds of the lockup program in the states that transactions reach: the custody it keeps,
  the solvency of its vaults, who signs, and that a beneficiary can always redeem at the end.
  The transactions are \<open>careful\<close>, which the program does not enforce: a whitelist withdrawal
  names the real token program, and nothing is relayed to the lockup program itself.  A migration
  of the safe by its authority is a step like any other; it empties the vault.
\<close>

subsection \<open>The states that transactions reach\<close>

text \<open>
  A transaction of other programs: the lockup program's accounts stay, accounts that become its
  own are zeros, and the vault, whose owner cannot sign, only gains.
\<close>

definition outside_step ::
  "lockup_env \<Rightarrow> aligned \<Rightarrow> aligned \<Rightarrow> chain_state \<Rightarrow> chain_state \<Rightarrow> bool" where
  "outside_step env p vault w w' \<longleftrightarrow>
     (\<forall>k a. w k = Some a \<longrightarrow> ac_owner a = p \<longrightarrow>
        (\<exists>b. w' k = Some b \<and> ac_owner b = p \<and> ac_data b = ac_data a)) \<and>
     (\<forall>k b. w' k = Some b \<longrightarrow> ac_owner b = p \<longrightarrow>
        (\<exists>a. w k = Some a \<and> ac_owner a = p) \<or> list_all (\<lambda>x. x = 0) (ac_data b)) \<and>
     (\<forall>h. vault_of env vault w = Some h \<longrightarrow> (\<exists>h'. vault_of env vault w' = Some h' \<and>
        th_owner h' = th_owner h \<and> th_amount h \<le> th_amount h' \<and>
        th_delegated_amount h' \<le> th_delegated_amount h))"

text \<open>The flag says whether the safe has been migrated on the way.\<close>

inductive lockup_reach ::
  "lockup_env \<Rightarrow> aligned \<Rightarrow> aligned \<Rightarrow> aligned \<Rightarrow> chain_state \<Rightarrow> u64 \<Rightarrow> chain_state \<Rightarrow> u64 \<Rightarrow> bool \<Rightarrow> bool"
  for env p s vault w0 t0 where
  start: "lockup_reach env p s vault w0 t0 w0 t0 False"
| instruction: "lockup_reach env p s vault w0 t0 w t m \<Longrightarrow> presents env p t w accs \<Longrightarrow>
    careful env p accs i \<Longrightarrow> run_lockup env p accs i = Inr accs' \<Longrightarrow> commits w accs' w' \<Longrightarrow>
    lockup_reach env p s vault w0 t0 w' t (m \<or> migrates s accs i)"
| outside: "lockup_reach env p s vault w0 t0 w t m \<Longrightarrow> outside_step env p vault w w' \<Longrightarrow>
    lockup_reach env p s vault w0 t0 w' t m"
| clock: "lockup_reach env p s vault w0 t0 w t m \<Longrightarrow> t \<le> t' \<Longrightarrow> lockup_reach env p s vault w0 t0 w t' m"

lemma outside_custody:
  assumes out: "outside_step env p vault w w'" and st: "safe_state env p s vault w h"
  shows "\<exists>h'. safe_state env p s vault w' h' \<and>
    custody_step (custody_of env p s vault w t) (custody_of env p s vault w' t)"
proof -
  obtain h' where h': "vault_of env vault w' = Some h'" "th_owner h' = th_owner h" "th_amount h \<le> th_amount h'"
    "th_delegated_amount h' \<le> th_delegated_amount h"
    using out st unfolding outside_step_def safe_state_def by blast
  have "safe_state env p s vault w' h'"
    using out st h' unfolding outside_step_def safe_state_def by (metis word_le_0_iff)
  moreover have "vestings_of p s w' = vestings_of p s w"
  proof
    fix k
    show "vestings_of p s w' k = vestings_of p s w k"
    proof (cases "\<exists>a. w k = Some a \<and> ac_owner a = p")
      case True
      then obtain a b where "w k = Some a" "ac_owner a = p" "w' k = Some b" "ac_owner b = p" "ac_data b = ac_data a"
        using out unfolding outside_step_def by blast
      then show ?thesis by (simp add: vestings_of_def vest_of_def)
    next
      case False
      then have "vestings_of p s w k = None" by (cases "w k") (auto simp: vestings_of_def vest_of_def)
      moreover have "vest_of p s b = None" if "w' k = Some b" for b
      proof (cases "ac_owner b = p")
        case True
        then have "list_all (\<lambda>x. x = 0) (ac_data b)" using that out False unfolding outside_step_def by blast
        then show ?thesis by (rule vest_of_zero)
      qed (simp add: vest_of_def)
      ultimately show ?thesis by (cases "w' k") (auto simp: vestings_of_def)
    qed
  qed
  moreover have "custody_step (custody_of env p s vault w t)
      ((custody_of env p s vault w t)\<lparr>cu_vault := unat (th_amount h')\<rparr>)"
    using h'(3) st by (intro custody_step.other) (simp add: custody_of_def safe_state_def word_le_nat_alt)
  ultimately show ?thesis using h'(1) by (auto simp: custody_of_def)
qed

lemma custody_moves_more: "(custody_moves m)\<^sup>*\<^sup>* c c' \<Longrightarrow> (custody_moves (m \<or> n))\<^sup>*\<^sup>* c c'"
  by (rule rtranclp_mono [THEN predicate2D]) (auto simp: custody_moves_def)

lemma custody_moves_then: "(custody_moves m)\<^sup>*\<^sup>* c c' \<Longrightarrow> custody_step c' c'' \<Longrightarrow> (custody_moves m)\<^sup>*\<^sup>* c c''"
proof -
  assume "(custody_moves m)\<^sup>*\<^sup>* c c'" and "custody_step c' c''"
  from this(2) have "custody_moves m c' c''" by (simp add: custody_moves_def)
  with \<open>(custody_moves m)\<^sup>*\<^sup>* c c'\<close> show ?thesis by (rule rtranclp.rtrancl_into_rtrancl)
qed

lemma reach_custody:
  assumes "lockup_reach env p s vault w0 t0 w t m" and hr: "honest_runtime env p"
    and st: "safe_state env p s vault w0 h0"
  shows "(\<exists>h. safe_state env p s vault w h) \<and>
    (custody_moves m)\<^sup>*\<^sup>* (custody_of env p s vault w0 t0) (custody_of env p s vault w t)"
  using assms(1)
proof induction
  case start
  then show ?case using st by blast
next
  case (instruction w t m accs i accs' w')
  then obtain h where h: "safe_state env p s vault w h" by blast
  obtain h' where h': "safe_state env p s vault w' h'"
    "custody_moves (migrates s accs i) (custody_of env p s vault w t) (custody_of env p s vault w' t)"
    using lockup_instruction_step [OF hr h instruction(2,4,5,3)] by blast
  then have "custody_moves (m \<or> migrates s accs i) (custody_of env p s vault w t) (custody_of env p s vault w' t)"
    by (auto simp: custody_moves_def)
  then show ?case using h'(1) custody_moves_more [of m] instruction(6) by (blast intro: rtranclp.rtrancl_into_rtrancl)
next
  case (outside w t m w')
  then show ?case using outside_custody [OF outside(2)] custody_moves_then by blast
next
  case (clock w t m t')
  have "custody_step (custody_of env p s vault w t) ((custody_of env p s vault w t)\<lparr>cu_slot := t'\<rparr>)"
    using clock(2) by (intro custody_step.tick) (simp add: custody_of_def)
  moreover have "(custody_of env p s vault w t)\<lparr>cu_slot := t'\<rparr> = custody_of env p s vault w t'"
    by (simp add: custody_of_def)
  ultimately show ?case using clock(3) custody_moves_then by metis
qed

lemma custody_steps_ok: "(custody_moves False)\<^sup>*\<^sup>* c c' \<Longrightarrow> custody_ok c \<Longrightarrow> custody_ok c'"
  by (induction rule: rtranclp_induct) (auto simp: custody_moves_def intro: custody_step_ok)

text \<open>
  Without its vault: more tokens in the vault allow the same steps, so what holds of the accounts of a
  solvent custody holds of those of any.
\<close>

definition accounts_bounded :: "custody \<Rightarrow> bool" where
  "accounts_bounded c \<longleftrightarrow> finite (dom (cu_vestings c)) \<and> (\<forall>k v. cu_vestings c k = Some v \<longrightarrow> vesting_ok (cu_slot c) v)"

lemma custody_step_more:
  assumes "custody_step c c'"
  shows "custody_step (c\<lparr>cu_vault := cu_vault c + n\<rparr>) (c'\<lparr>cu_vault := cu_vault c' + n\<rparr>)"
  using assms
proof cases
  case (create k v)
  then show ?thesis using custody_step.create [of "c\<lparr>cu_vault := cu_vault c + n\<rparr>" k v]
    by (simp add: put_vesting_def ac_simps)
next
  case (claim k v m token)
  then show ?thesis using custody_step.claim [of "c\<lparr>cu_vault := cu_vault c + n\<rparr>" k v "m + n" token]
    by (simp add: put_vesting_def)
next
  case (redeem k v available amount m)
  then show ?thesis using custody_step.redeem [of "c\<lparr>cu_vault := cu_vault c + n\<rparr>" k v available amount "m + n"]
    by (simp add: put_vesting_def)
next
  case (withdraw k v amount m)
  then show ?thesis using custody_step.withdraw [of "c\<lparr>cu_vault := cu_vault c + n\<rparr>" k v amount "m + n"]
    by (simp add: put_vesting_def)
next
  case (deposit k v amount)
  then show ?thesis using custody_step.deposit [of "c\<lparr>cu_vault := cu_vault c + n\<rparr>" k v amount]
    by (simp add: put_vesting_def ac_simps)
next
  case (other m)
  then show ?thesis using custody_step.other [of "c\<lparr>cu_vault := cu_vault c + n\<rparr>" "m + n"] by simp
next
  case (tick t)
  then show ?thesis using custody_step.tick [of "c\<lparr>cu_vault := cu_vault c + n\<rparr>" t]
    by (cases c) simp
qed

lemma custody_moves_bounded: "custody_moves m c c' \<Longrightarrow> accounts_bounded c \<Longrightarrow> accounts_bounded c'"
proof -
  assume m: "custody_moves m c c'" and b: "accounts_bounded c"
  show "accounts_bounded c'"
  proof (cases "custody_step c c'")
    case True
    have "custody_ok (c\<lparr>cu_vault := cu_vault c + owed_total (cu_vestings c)\<rparr>)"
      using b by (simp add: custody_ok_def accounts_bounded_def)
    from custody_step_ok [OF custody_step_more [OF True] this] show ?thesis
      by (simp add: custody_ok_def accounts_bounded_def)
  qed (use m b in \<open>auto simp: custody_moves_def accounts_bounded_def\<close>)
qed

lemma empty_custody_ok: "vestings_of p s w = Map.empty \<Longrightarrow> custody_ok (custody_of env p s vault w t)"
  by (simp add: custody_ok_def custody_of_def owed_total_def)

lemma reach_bounded:
  assumes "honest_runtime env p" "safe_state env p s vault w0 h0" "vestings_of p s w0 = Map.empty"
    and "lockup_reach env p s vault w0 t0 w t m"
  shows "accounts_bounded (custody_of env p s vault w t)" "\<exists>h. safe_state env p s vault w h"
proof -
  have start: "accounts_bounded (custody_of env p s vault w0 t0)"
    using empty_custody_ok [OF assms(3)] by (simp add: custody_ok_def accounts_bounded_def)
  have "(custody_moves m)\<^sup>*\<^sup>* (custody_of env p s vault w0 t0) (custody_of env p s vault w t)"
    using reach_custody [OF assms(4,1,2)] by blast
  then show "accounts_bounded (custody_of env p s vault w t)"
    by (induction rule: rtranclp_induct) (use start custody_moves_bounded in blast)+
  show "\<exists>h. safe_state env p s vault w h" using reach_custody [OF assms(4,1,2)] by blast
qed

lemma reach_ok:
  assumes "honest_runtime env p" "safe_state env p s vault w0 h0" "vestings_of p s w0 = Map.empty"
    and "lockup_reach env p s vault w0 t0 w t False"
  shows "custody_ok (custody_of env p s vault w t)"
  using reach_custody [OF assms(4,1,2)] custody_steps_ok empty_custody_ok [OF assms(3)] by blast

text \<open>
  Claim C18: no instruction of the lockup program succeeds without the signature of the account
  in charge: the depositor for a new vesting account, the beneficiary named in a vesting
  account the program owns for claiming, redeeming and both whitelist transfers, and the
  authority named in a safe the program owns for the whitelist, the authority and migrating.
  Initialising needs none, but a safe that is not yet initialised.
\<close>

theorem lockup_needs_signature:
  assumes "run_lockup env p accs i = Inr accs'"
  shows "authorised env p accs i"
proof (cases i)
  case Initialize
  then show ?thesis using assms
    by (auto simp: run_lockup_def authorised_def handle_initialize_def initialize_access_def Let_def res_simps)
qed (use assms in \<open>auto simp: run_lockup_def authorised_def handle_create_vesting_def handle_claim_def
      handle_redeem_def handle_whitelist_withdraw_def handle_whitelist_deposit_def
      whitelist_withdraw_access_def whitelist_deposit_access_def handle_whitelist_add_def
      handle_whitelist_delete_def whitelist_admin_access_def handle_set_authority_def handle_migrate_def
      and_then_eq_Inr lockup_eq_Inr next_accounts_eq_Inr
      dest: create_needs_signer beneficiary_needed authority_needed\<close>)

subsection \<open>Custody\<close>

text \<open>
  Claim C5: seen from one safe the lockup program is a custodian.  Whatever transactions run, by
  whomever, as long as they are careful (a whitelist withdrawal names the real token program and
  nothing is relayed to the lockup program itself, neither of which the program checks), the vesting
  accounts of the safe and the tokens in its vault change only by the steps of the custody: deposits
  that create an account, claims, redemptions of what is available, loans to whitelisted programs and
  their return, gains of the vault, and, only if the authority of this safe has migrated it, an emptying
  of the vault that touches nothing else.
\<close>

theorem lockup_refines_custody:
  assumes "honest_runtime env p" and "safe_state env p s vault w0 h0"
    and "lockup_reach env p s vault w0 t0 w t migrated"
  shows "(\<lambda>c c'. custody_step c c' \<or> migrated \<and> c' = c\<lparr>cu_vault := 0\<rparr>)\<^sup>*\<^sup>*
    (custody_of env p s vault w0 t0) (custody_of env p s vault w t)"
  using reach_custody [OF assms(3,1,2)] by (simp add: custody_moves_def [abs_def])

text \<open>
  Claim C4: from a safe without vesting accounts on, in every state that careful transactions reach (a
  whitelist withdrawal names the real token program and nothing is relayed to the lockup program
  itself; the program checks neither), no account of the safe is owed more than was deposited for it,
  nor has lent out more than it has left, and what was taken out never exceeds what the schedule has
  released so far.  And unless the authority of this safe has migrated it, the vault holds at least the
  sum of what its vesting accounts have not withdrawn and not lent out.
\<close>

theorem lockup_vault_solvent:
  assumes "honest_runtime env p" and "safe_state env p s vault w0 h0" and "vestings_of p s w0 = Map.empty"
    and "lockup_reach env p s vault w0 t0 w t migrated"
  shows "\<exists>h. vault_of env vault w = Some h \<and> finite (dom (vestings_of p s w)) \<and>
    (\<not> migrated \<longrightarrow>
       (\<Sum>k\<in>dom (vestings_of p s w). unat (available_for_whitelist (the (vestings_of p s w k)))) \<le> unat (th_amount h)) \<and>
    (\<forall>k v. vestings_of p s w k = Some v \<longrightarrow>
       v_whitelist_owned v \<le> v_balance v \<and> v_balance v \<le> v_start_balance v \<and> v_start_slot v \<le> t \<and>
       (proper_schedule v \<longrightarrow> unat (v_start_balance v) - unat (v_balance v) \<le> schedule v (unat t)))"
proof -
  obtain h where h: "safe_state env p s vault w h" using reach_bounded(2) [OF assms] by blast
  then have vault: "vault_of env vault w = Some h" by (simp add: safe_state_def)
  have "(\<Sum>k\<in>dom (vestings_of p s w). unat (available_for_whitelist (the (vestings_of p s w k)))) \<le> unat (th_amount h)"
    if "\<not> migrated"
  proof -
    have "lockup_reach env p s vault w0 t0 w t False" using assms(4) that by simp
    from reach_ok [OF assms(1-3) this] show ?thesis
      using vault by (simp add: custody_ok_def custody_of_def owed_total_def owed_def)
  qed
  then show ?thesis using reach_bounded(1) [OF assms] vault
    by (simp add: accounts_bounded_def custody_of_def vesting_ok_def)
qed

subsection \<open>Redeeming at the end\<close>

text \<open>The accounts with which the beneficiary of \<open>v\<close> redeems, apart from the amount.\<close>

definition redeemer :: "lockup_env \<Rightarrow> aligned \<Rightarrow> acct list \<Rightarrow> vesting \<Rightarrow> bool" where
  "redeemer env p accs v \<longleftrightarrow>
     ac_is_signer (accs ! 0) \<and> ac_key (accs ! 0) = v_beneficiary v \<and>
     ac_owner (accs ! 1) = p \<and> unpack_account (le_vesting env) (ac_data (accs ! 1)) = Inr v \<and> v_claimed v \<and>
     (\<exists>t. access_vault env (accs ! 3) (accs ! 4) (accs ! 5) p = Inr t) \<and>
     (\<exists>t. access_locked_token env (accs ! 6) (accs ! 7) (ac_key (accs ! 4)) v = Inr t) \<and>
     ac_key (accs ! 9) = rt_clock_id env"

text \<open>What a redemption passes to the token program, and what it stores once both calls are taken.\<close>

lemma redeem_runs:
  assumes hr: "honest_runtime env p" and sh: "shared accs" and len: "10 \<le> length accs"
    and acc: "redeem_access env p accs amount = Inr ()" and v: "ac_data (accs ! 1) = vesting_bytes v"
    and sf: "ac_owner (accs ! 5) = p" "ac_data (accs ! 5) = safe_bytes sf"
    and burn: "invoke_token env (rt_token_id env) (TokenBurn (ac_key (accs ! 6)) (ac_key (accs ! 7)) (v_beneficiary v) amount)
      None (map ac_key accs) accs = Inr accs1"
    and pay: "invoke_token env (rt_token_id env) (TokenTransfer (ac_key (accs ! 3)) (ac_key (accs ! 2)) (ac_key (accs ! 4)) amount)
      (Some (signer_seeds (ac_key (accs ! 5)) (sf_nonce sf)))
      [ac_key (accs ! 3), ac_key (accs ! 2), ac_key (accs ! 4), ac_key (accs ! 8)] accs1 = Inr accs2"
  shows "run_lockup env p accs (Redeem amount) = Inr (put_data (ac_key (accs ! 1)) (vesting_bytes (deduct amount v)) accs2)"
proof -
  note f = honestD(2,3) [OF hr]
  have l: "5 < length accs" using len by linarith
  have "ac_data (accs1 ! 5) = safe_bytes sf"
    using keeps_data_nth [OF invoke_token_effect(1) [OF hr sh burn] l] sf by (simp add: keeps_account_def)
  moreover have "v_beneficiary (deduct amount v) = v_beneficiary v" by (simp add: deduct_def)
  ultimately have "redeem_transition env accs amount v = Inr (deduct amount v, accs2)"
    using burn pay unfolding redeem_transition_def Let_def
    by (auto simp: f invoke_token_def and_then_eq_Inr fault_of_eq_Inr)
  then have "update_account_with vesting_format (accs ! 1) (redeem_transition env accs amount) =
      Inr (put_data (ac_key (accs ! 1)) (vesting_bytes (deduct amount v)) accs2)"
    using v by (auto simp: update_vesting_run)
  then show ?thesis using acc len by (simp add: run_lockup_def handle_redeem_def next_accounts_def f)
qed

lemma redeemer_access:
  assumes pr: "presents env p t w accs" and len: "10 \<le> length accs" and rd: "redeemer env p accs v"
    and at: "vestings_of p s w (ac_key (accs ! 1)) = Some v" "ac_key (accs ! 5) = s"
    and ok: "vesting_ok t v" "v_end_slot v \<le> t"
  shows "redeem_access env p accs amount = (if amount \<le> v_balance v - v_whitelist_owned v
    then Inr () else Inl (lockup_code InsufficientWithdrawalBalance))"
proof -
  obtain vt nft where r: "ac_is_signer (accs ! 0)" "ac_key (accs ! 0) = v_beneficiary v" "v_claimed v"
    "access_vault env (accs ! 3) (accs ! 4) (accs ! 5) p = Inr vt"
    "access_locked_token env (accs ! 6) (accs ! 7) (ac_key (accs ! 4)) v = Inr nft"
    "ac_key (accs ! 9) = rt_clock_id env" "ac_owner (accs ! 1) = p"
    "unpack_account (le_vesting env) (ac_data (accs ! 1)) = Inr v"
    using rd by (auto simp: redeemer_def)
  obtain sf where sf: "access_safe env (accs ! 5) p = Inr sf" using access_vault_checks [OF r(4)] by blast
  have l: "1 < length accs" "accs ! 9 \<in> set accs" using len by simp_all
  have "vest_of p s (accs ! 1) = Some v" using vestings_listed [OF pr l(1), of s] at(1) by simp
  then have "access_vesting env p (ac_key (accs ! 5)) (accs ! 1) (accs ! 0) = Inr v"
    using r at(2) by (simp add: access_vesting_run vest_of_Some)
  moreover have "access_clock env (accs ! 9) = Inr t"
    using pr l(2) r(6) by (simp add: access_clock_def presents_def)
  ultimately show ?thesis
    using r sf available_at_end [OF ok] by (simp add: redeem_access_def Let_def) (simp add: deny_def not_less)
qed

text \<open>
  Claim C17: no beneficiary is locked in.  In every state that careful transactions reach (a whitelist
  withdrawal names the real token program and nothing is relayed to the lockup program itself; the
  program checks neither) and in which the authority of the safe has not migrated it, from the end slot
  of a claimed vesting account on, nothing but the amount limits a redemption with the right accounts.
  Every amount above the balance that is not lent out is refused.  Every other amount passes all the
  program's checks, and once the token program takes the two calls it is then sent, the burning of the
  beneficiary's locked tokens and the transfer from the vault, signed for by the vault's owner, the
  program succeeds and stores the account less the amount; and the vault has the tokens.
\<close>

theorem redeem_open_at_end:
  assumes "honest_runtime env p" and "safe_state env p s vault w0 h0" and "vestings_of p s w0 = Map.empty"
    and "lockup_reach env p s vault w0 t0 w t False"
    and "presents env p t w accs" and "10 \<le> length accs" and "redeemer env p accs v"
    and "vestings_of p s w (ac_key (accs ! 1)) = Some v" and "ac_key (accs ! 5) = s" and "v_end_slot v \<le> t"
  shows "(\<not> amount \<le> v_balance v - v_whitelist_owned v \<longrightarrow>
      run_lockup env p accs (Redeem amount) = Inl (lockup_code InsufficientWithdrawalBalance)) \<and>
    (amount \<le> v_balance v - v_whitelist_owned v \<longrightarrow> redeem_access env p accs amount = Inr ()) \<and>
    (\<exists>h n. vault_of env vault w = Some h \<and> unat (v_balance v - v_whitelist_owned v) \<le> unat (th_amount h) \<and>
       ac_key (accs ! 3) = vault \<and> rt_program_address env (signer_seeds s n) p = Inr (th_owner h) \<and>
       (\<forall>accs1 accs2. amount \<le> v_balance v - v_whitelist_owned v \<and>
          invoke_token env (rt_token_id env) (TokenBurn (ac_key (accs ! 6)) (ac_key (accs ! 7)) (v_beneficiary v) amount)
            None (map ac_key accs) accs = Inr accs1 \<and>
          invoke_token env (rt_token_id env) (TokenTransfer vault (ac_key (accs ! 2)) (th_owner h) amount)
            (Some (signer_seeds s n)) [vault, ac_key (accs ! 2), th_owner h, ac_key (accs ! 8)] accs1 = Inr accs2 \<longrightarrow>
          run_lockup env p accs (Redeem amount) =
            Inr (put_data (ac_key (accs ! 1)) (vesting_bytes (deduct amount v)) accs2)))"
proof -
  let ?own = "v_balance v - v_whitelist_owned v"
  have ok: "custody_ok (custody_of env p s vault w t)" by (rule reach_ok [OF assms(1-4)])
  obtain h where h: "safe_state env p s vault w h" using reach_bounded(2) [OF assms(1-4)] by blast
  then have vault: "vault_of env vault w = Some h" by (simp add: safe_state_def)
  have v: "vesting_ok t v" using ok assms(8) by (simp add: custody_ok_def custody_of_def)
  have "owed v \<le> owed_total (vestings_of p s w)"
    using ok assms(8) member_le_sum [of "ac_key (accs ! 1)" "dom (vestings_of p s w)" "\<lambda>k. owed (the (vestings_of p s w k))"]
    by (auto simp: owed_total_def custody_ok_def custody_of_def)
  then have enough: "unat ?own \<le> unat (th_amount h)"
    using ok vault by (simp add: custody_ok_def custody_of_def owed_def available_for_whitelist_def)
  have l: "1 < length accs" "3 < length accs" "5 < length accs" using assms(6) by linarith+
  note access = redeemer_access [OF assms(5-9) v assms(10)]
  obtain sf where sf: "ac_owner (accs ! 5) = p" "ac_data (accs ! 5) = safe_bytes sf" "sf_vault sf = vault"
    "rt_program_address env (signer_seeds s (sf_nonce sf)) p = Inr (th_owner h)"
    using safe_listed [OF h assms(5) l(3) assms(9)] by blast
  obtain vt where vt: "access_vault env (accs ! 3) (accs ! 4) (accs ! 5) p = Inr vt"
    using assms(7) by (auto simp: redeemer_def)
  have k: "ac_key (accs ! 3) = vault" "ac_key (accs ! 4) = th_owner h"
    using checked_vault [OF assms(1) h assms(5) l(2,3) vt] access_vault_checks [OF vt] assms(9) by auto
  have bytes: "ac_data (accs ! 1) = vesting_bytes v"
    using vestings_listed [OF assms(5) l(1), of s] assms(8) by (simp add: vest_of_Some)
  note runs = redeem_runs [OF assms(1) presents_shared [OF assms(5)] assms(6) _ bytes sf(1,2), unfolded k assms(9)]
  have "run_lockup env p accs (Redeem amount) = Inl (lockup_code InsufficientWithdrawalBalance)" if "\<not> amount \<le> ?own"
    using access [of amount] that assms(6) by (simp add: run_lockup_def handle_redeem_def next_accounts_def)
  then show ?thesis using access [of amount] vault enough k(1) sf(4) runs by (auto split: if_splits)
qed

end
