(* ===== verification/LockupSample.thy ===== *)
theory LockupSample
  imports LockupSafety
begin

text \<open>
  A concrete runtime that keeps the laws, and a story in it: a deposit into a safe, the claim of
  its beneficiary, the clock moving to the end slot, and the redemption.  The properties of the
  lockup program applied to it.
\<close>

subsection \<open>A safe and its first depositor\<close>

definition ky :: "u64 \<Rightarrow> aligned" where "ky n = (n, 0, 0, 0)"

lemma ky_inj [simp]: "ky m = ky n \<longleftrightarrow> m = n" by (simp add: ky_def)

abbreviation "lockup_id \<equiv> ky 9"
abbreviation "tokens_id \<equiv> ky 7"

definition sacct :: "u64 \<Rightarrow> aligned \<Rightarrow> bool \<Rightarrow> u8 list \<Rightarrow> acct" where
  "sacct n own signer d = \<lparr>ac_key = ky n, ac_owner = own, ac_is_signer = signer, ac_is_writable = True,
     ac_lamports = 1, ac_data = d\<rparr>"

lemma sacct_simps [simp]:
  "ac_key (sacct n own signer d) = ky n" "ac_owner (sacct n own signer d) = own"
  "ac_is_signer (sacct n own signer d) = signer" "ac_data (sacct n own signer d) = d"
  "(sacct n own signer d)\<lparr>ac_data := d'\<rparr> = sacct n own signer d'"
  by (simp_all add: sacct_def)

text \<open>The safe 1 with vault 2 and vault authority 8; the vesting account 5 for beneficiary 12.\<close>

definition sample_safe :: safe where
  "sample_safe = \<lparr>sf_initialized = True, sf_mint = ky 20, sf_authority = ky 30, sf_nonce = 1,
     sf_whitelist = ky 31, sf_vault = ky 2\<rparr>"

definition blank_vesting :: vesting where
  "blank_vesting =
     \<lparr>v_initialized = False, v_claimed = False, v_safe = ky 0, v_beneficiary = ky 0, v_balance = 0,
      v_start_balance = 0, v_start_slot = 0, v_end_slot = 0, v_period_count = 0,
      v_locked_nft_mint = ky 0, v_locked_nft_token = ky 0, v_whitelist_owned = 0\<rparr>"

definition created_vesting :: vesting where
  "created_vesting = new_vesting (ky 1) (ky 12) 5 10 20 10 (ky 6) blank_vesting"

definition claimed_vesting :: vesting where
  "claimed_vesting = created_vesting\<lparr>v_claimed := True, v_locked_nft_token := ky 13\<rparr>"

definition create_accounts :: "u8 \<Rightarrow> u8 \<Rightarrow> vesting \<Rightarrow> acct list" where
  "create_accounts from vault v =
     [sacct 5 lockup_id False (vesting_bytes v), sacct 3 tokens_id False [from], sacct 4 (ky 0) True [],
      sacct 2 tokens_id False [vault], sacct 1 lockup_id False (safe_bytes sample_safe),
      sacct 6 tokens_id False [], sacct 8 (ky 0) False [], sacct 7 (ky 0) False [],
      sacct 10 (ky 0) False [], sacct 11 (ky 0) False [10]]"

definition claim_accounts :: "u8 \<Rightarrow> vesting \<Rightarrow> acct list" where
  "claim_accounts nft v =
     [sacct 12 (ky 0) True [], sacct 5 lockup_id False (vesting_bytes v),
      sacct 1 lockup_id False (safe_bytes sample_safe), sacct 8 (ky 0) False [], sacct 7 (ky 0) False [],
      sacct 6 tokens_id False [], sacct 13 tokens_id False [nft]]"

text \<open>The beneficiary's locked tokens, the vault's, and those of the account that is paid.\<close>

definition redeem_accounts :: "u8 \<Rightarrow> u8 \<Rightarrow> u8 \<Rightarrow> acct list" where
  "redeem_accounts nft vault to =
     [sacct 12 (ky 0) True [], sacct 5 lockup_id False (vesting_bytes claimed_vesting),
      sacct 3 tokens_id False [to], sacct 2 tokens_id False [vault], sacct 8 (ky 0) False [],
      sacct 1 lockup_id False (safe_bytes sample_safe), sacct 13 tokens_id False [nft],
      sacct 6 tokens_id False [], sacct 7 (ky 0) False [], sacct 11 (ky 0) False [20]]"

definition sample_transfer :: token_call where
  "sample_transfer = TokenTransfer (ky 3) (ky 2) (ky 4) 10"

definition sample_mint_call :: token_call where
  "sample_mint_call = TokenMintTo (ky 6) (ky 13) (ky 8) 10"

definition sample_burn :: token_call where
  "sample_burn = TokenBurn (ky 13) (ky 6) (ky 12) 10"

definition sample_pay :: token_call where
  "sample_pay = TokenTransfer (ky 2) (ky 3) (ky 8) 10"

definition sample_ix :: "u8 \<Rightarrow> instruction" where
  "sample_ix n = \<lparr>ix_program_id = tokens_id, ix_accounts = [], ix_data = [n]\<rparr>"

definition sample_pay_ix :: instruction where
  "sample_pay_ix = \<lparr>ix_program_id = tokens_id,
     ix_accounts = [\<lparr>am_pubkey = ky 8, am_is_signer = True, am_is_writable = False\<rparr>], ix_data = [3]\<rparr>"

lemma sample_ixs [simp]:
  "sample_ix m = sample_ix n \<longleftrightarrow> m = n" "sample_ix n \<noteq> sample_pay_ix" "sample_pay_ix \<noteq> sample_ix n"
  "ix_program_id (sample_ix n) = tokens_id" "ix_program_id sample_pay_ix = tokens_id"
  "ix_accounts sample_pay_ix = [\<lparr>am_pubkey = ky 8, am_is_signer = True, am_is_writable = False\<rparr>]"
  by (simp_all add: sample_ix_def sample_pay_ix_def)

definition sample_holding :: "u8 list \<Rightarrow> program_error + token_holding" where
  "sample_holding d =
     (if d = [1] then Inr \<lparr>th_mint = ky 20, th_owner = ky 8, th_amount = 0, th_is_initialized = True, th_delegated_amount = 0\<rparr>
      else if d = [2] then Inr \<lparr>th_mint = ky 20, th_owner = ky 8, th_amount = 10, th_is_initialized = True, th_delegated_amount = 0\<rparr>
      else if d = [3] then Inr \<lparr>th_mint = ky 20, th_owner = ky 4, th_amount = 10, th_is_initialized = True, th_delegated_amount = 0\<rparr>
      else if d = [4] then Inr \<lparr>th_mint = ky 20, th_owner = ky 4, th_amount = 0, th_is_initialized = True, th_delegated_amount = 0\<rparr>
      else if d = [5] then Inr \<lparr>th_mint = ky 6, th_owner = ky 12, th_amount = 0, th_is_initialized = True, th_delegated_amount = 0\<rparr>
      else if d = [6] then Inr \<lparr>th_mint = ky 6, th_owner = ky 12, th_amount = 10, th_is_initialized = True, th_delegated_amount = 0\<rparr>
      else Inl InvalidAccountData)"

text \<open>A runtime that knows the four calls of this story; the vault's owner must sign to pay.\<close>

definition sample_env :: lockup_env where
  "sample_env =
     \<lparr>rt_token_id = tokens_id, rt_rent_id = ky 10, rt_clock_id = ky 11, rt_rent = (\<lambda>_. Inr (\<lambda>_ _. True)),
      rt_clock_slot = (\<lambda>a. Inr (if ac_data a = [10] then 10 else 20)),
      rt_mint = (\<lambda>_. Inr \<lparr>tm_is_initialized = True, tm_mint_authority = Some (ky 8), tm_supply = 0\<rparr>),
      rt_holding = sample_holding,
      rt_program_address = (\<lambda>seeds prog. if seeds = signer_seeds (ky 1) 1 \<and> prog = lockup_id
        then Inr (ky 8) else Inl InvalidAccountData),
      rt_token_ix = (\<lambda>prog call. if prog \<noteq> tokens_id then Inl InvalidAccountData
        else if call = sample_transfer then Inr (sample_ix 0)
        else if call = sample_mint_call then Inr (sample_ix 1)
        else if call = sample_burn then Inr (sample_ix 2)
        else if call = sample_pay then Inr sample_pay_ix else Inl InvalidAccountData),
      rt_invoke = (\<lambda>ix seeds keys accs.
        if ix = sample_ix 0 \<and> accs = create_accounts 3 1 blank_vesting
        then Inr (create_accounts 4 2 blank_vesting)
        else if ix = sample_ix 1 \<and> accs = claim_accounts 5 created_vesting
        then Inr (claim_accounts 6 created_vesting)
        else if ix = sample_ix 2 \<and> accs = redeem_accounts 6 2 4 then Inr (redeem_accounts 5 2 4)
        else if ix = sample_pay_ix \<and> seeds = Some (signer_seeds (ky 1) 1) \<and> accs = redeem_accounts 5 2 4
        then Inr (redeem_accounts 5 1 3) else Inl InvalidAccountData),
      le_safe = safe_format, le_vesting = vesting_format\<rparr>"

lemma sample_env_simps [simp]:
  "rt_token_id sample_env = tokens_id" "rt_rent_id sample_env = ky 10" "rt_clock_id sample_env = ky 11"
  "rt_rent sample_env a = Inr (\<lambda>_ _. True)"
  "rt_clock_slot sample_env a = Inr (if ac_data a = [10] then 10 else 20)"
  "rt_mint sample_env d = Inr \<lparr>tm_is_initialized = True, tm_mint_authority = Some (ky 8), tm_supply = 0\<rparr>"
  "rt_holding sample_env = sample_holding" "le_safe sample_env = safe_format" "le_vesting sample_env = vesting_format"
  "rt_program_address sample_env seeds prog =
     (if seeds = signer_seeds (ky 1) 1 \<and> prog = lockup_id then Inr (ky 8) else Inl InvalidAccountData)"
  by (simp_all add: sample_env_def)

lemma sample_token_ix:
  "rt_token_ix sample_env prog call = Inr ix \<longleftrightarrow> prog = tokens_id \<and>
     (call = sample_transfer \<and> ix = sample_ix 0 \<or> call = sample_mint_call \<and> ix = sample_ix 1 \<or>
      call = sample_burn \<and> ix = sample_ix 2 \<or> call = sample_pay \<and> ix = sample_pay_ix)"
  by (auto simp: sample_env_def sample_transfer_def sample_mint_call_def sample_burn_def sample_pay_def)

lemma sample_invoke:
  "rt_invoke sample_env ix seeds keys accs = Inr accs' \<longleftrightarrow>
     ix = sample_ix 0 \<and> accs = create_accounts 3 1 blank_vesting \<and> accs' = create_accounts 4 2 blank_vesting \<or>
     ix = sample_ix 1 \<and> accs = claim_accounts 5 created_vesting \<and> accs' = claim_accounts 6 created_vesting \<or>
     ix = sample_ix 2 \<and> accs = redeem_accounts 6 2 4 \<and> accs' = redeem_accounts 5 2 4 \<or>
     ix = sample_pay_ix \<and> seeds = Some (signer_seeds (ky 1) 1) \<and> accs = redeem_accounts 5 2 4 \<and> accs' = redeem_accounts 5 1 3"
  by (auto simp: sample_env_def)

lemma sample_transfer_ix:
  "rt_token_ix sample_env tokens_id (TokenTransfer (ky 3) (ky 2) (ky 4) 10) = Inr (sample_ix 0)"
  "rt_invoke sample_env (sample_ix 0) seeds keys (create_accounts 3 1 blank_vesting) = Inr (create_accounts 4 2 blank_vesting)"
  by (simp add: sample_token_ix sample_transfer_def, simp add: sample_invoke)

lemma sample_mint_ix:
  "rt_token_ix sample_env tokens_id (TokenMintTo (ky 6) (ky 13) (ky 8) 10) = Inr (sample_ix 1)"
  "rt_invoke sample_env (sample_ix 1) seeds keys (claim_accounts 5 created_vesting) = Inr (claim_accounts 6 created_vesting)"
  by (simp add: sample_token_ix sample_mint_call_def, simp add: sample_invoke)

lemma sample_redeem_ix:
  "rt_token_ix sample_env tokens_id (TokenBurn (ky 13) (ky 6) (ky 12) 10) = Inr (sample_ix 2)"
  "rt_invoke sample_env (sample_ix 2) seeds keys (redeem_accounts 6 2 4) = Inr (redeem_accounts 5 2 4)"
  "rt_token_ix sample_env tokens_id (TokenTransfer (ky 2) (ky 3) (ky 8) 10) = Inr sample_pay_ix"
  "rt_invoke sample_env sample_pay_ix (Some (signer_seeds (ky 1) 1)) keys (redeem_accounts 5 2 4) = Inr (redeem_accounts 5 1 3)"
  by (simp add: sample_token_ix sample_burn_def, simp add: sample_invoke,
      simp add: sample_token_ix sample_pay_def, simp add: sample_invoke)

lemma shared_distinct: "distinct (map ac_key accs) \<Longrightarrow> shared accs"
  by (auto simp: shared_def distinct_map dest: inj_onD)

lemma sample_data_law: "data_law sample_env lockup_id"
  by (auto simp: data_law_def sample_token_ix sample_invoke keeps_data_def keeps_account_def
      create_accounts_def claim_accounts_def redeem_accounts_def intro!: shared_distinct)

lemma sample_create_hold:
  "hold sample_env (create_accounts a b v) k =
     (if k = ky 3 then holding_of sample_env (sacct 3 tokens_id False [a])
      else if k = ky 2 then holding_of sample_env (sacct 2 tokens_id False [b])
      else if k = ky 6 then holding_of sample_env (sacct 6 tokens_id False []) else None)"
  by (auto simp: hold_def create_accounts_def holding_of_def)

lemma sample_claim_hold:
  "hold sample_env (claim_accounts a v) k =
     (if k = ky 13 then holding_of sample_env (sacct 13 tokens_id False [a])
      else if k = ky 6 then holding_of sample_env (sacct 6 tokens_id False []) else None)"
  by (auto simp: hold_def claim_accounts_def holding_of_def)

lemma sample_redeem_hold:
  "hold sample_env (redeem_accounts nft vault to) k =
     (if k = ky 3 then holding_of sample_env (sacct 3 tokens_id False [to])
      else if k = ky 2 then holding_of sample_env (sacct 2 tokens_id False [vault])
      else if k = ky 13 then holding_of sample_env (sacct 13 tokens_id False [nft])
      else if k = ky 6 then holding_of sample_env (sacct 6 tokens_id False []) else None)"
  by (auto simp: hold_def redeem_accounts_def holding_of_def)

lemma sample_redeem_signs:
  "signs sample_env lockup_id seeds (redeem_accounts a b c) (ky 12)"
  "signs sample_env lockup_id (Some (signer_seeds (ky 1) 1)) (redeem_accounts a b c) (ky 8)"
  by (auto simp: signs_def redeem_accounts_def)

lemma sample_signs: "signs sample_env lockup_id seeds (create_accounts a b v) (ky 4)"
  by (auto simp: signs_def create_accounts_def)

lemma sample_token_law: "token_law sample_env lockup_id"
  unfolding token_law_def
proof (intro allI impI)
  fix call ix seeds keys accs accs' k h
  assume *: "rt_token_ix sample_env (rt_token_id sample_env) call = Inr ix" "shared accs"
    "rt_invoke sample_env ix seeds keys accs = Inr accs'" "hold sample_env accs k = Some h"
  consider
      "call = sample_transfer" "accs = create_accounts 3 1 blank_vesting" "accs' = create_accounts 4 2 blank_vesting"
    | "call = sample_mint_call" "accs = claim_accounts 5 created_vesting" "accs' = claim_accounts 6 created_vesting"
    | "call = sample_burn" "accs = redeem_accounts 6 2 4" "accs' = redeem_accounts 5 2 4"
    | "call = sample_pay" "seeds = Some (signer_seeds (ky 1) 1)" "accs = redeem_accounts 5 2 4" "accs' = redeem_accounts 5 1 3"
    using *(1,3) by (auto simp: sample_token_ix sample_invoke)
  then show "\<exists>h'. hold sample_env accs' k = Some h' \<and> token_effect (signs sample_env lockup_id seeds accs) call k h h'"
  proof cases
    case 1
    then show ?thesis using *(4) sample_signs
      by (auto simp: sample_create_hold holding_of_def sample_holding_def token_effect_def sample_transfer_def
          split: if_splits)
  next
    case 2
    then show ?thesis using *(4)
      by (auto simp: sample_claim_hold holding_of_def sample_holding_def token_effect_def sample_mint_call_def
          split: if_splits)
  next
    case 3
    then show ?thesis using *(4) sample_redeem_signs
      by (auto simp: sample_redeem_hold holding_of_def sample_holding_def token_effect_def sample_burn_def
          split: if_splits)
  next
    case 4
    then show ?thesis using *(4) sample_redeem_signs
      by (auto simp: sample_redeem_hold holding_of_def sample_holding_def token_effect_def sample_pay_def
          split: if_splits)
  qed
qed

lemma sample_relay_law: "relay_law sample_env lockup_id"
  unfolding relay_law_def
proof (intro allI impI)
  fix ix seeds keys accs accs' k h
  assume *: "rt_invoke sample_env ix seeds keys accs = Inr accs'" "hold sample_env accs k = Some h"
    "\<exists>s. rt_program_address sample_env s lockup_id = Inr (th_owner h)"
    "\<forall>m\<in>set (ix_accounts ix). am_pubkey m = th_owner h \<longrightarrow> \<not> am_is_signer m"
  then have own: "th_owner h = ky 8" by (auto split: if_splits)
  then show "\<exists>h'. hold sample_env accs' k = Some h' \<and> th_owner h' = th_owner h \<and>
      th_delegated_amount h' \<le> th_delegated_amount h \<and>
      unat (th_amount h) \<le> unat (th_amount h') + unat (th_delegated_amount h)"
    using *(1,2,4) own
    by (auto simp: sample_invoke sample_create_hold sample_claim_hold sample_redeem_hold holding_of_def sample_holding_def
        split: if_splits)
qed

lemma sample_honest: "honest_runtime sample_env lockup_id"
  using sample_data_law sample_token_law sample_relay_law
  by (auto simp: honest_runtime_def documented_formats_def unique_vaults_def signer_seeds_def split: if_splits)

text \<open>The story: the chain before, after the deposit, and after the claim.\<close>

definition sample_world :: "u8 \<Rightarrow> u8 \<Rightarrow> u8 \<Rightarrow> u8 \<Rightarrow> vesting \<Rightarrow> chain_state" where
  "sample_world from vault nft clock v =
     [ky 1 \<mapsto> sacct 1 lockup_id False (safe_bytes sample_safe), ky 2 \<mapsto> sacct 2 tokens_id False [vault],
      ky 3 \<mapsto> sacct 3 tokens_id False [from], ky 4 \<mapsto> sacct 4 (ky 0) True [],
      ky 5 \<mapsto> sacct 5 lockup_id False (vesting_bytes v), ky 6 \<mapsto> sacct 6 tokens_id False [],
      ky 7 \<mapsto> sacct 7 (ky 0) False [], ky 8 \<mapsto> sacct 8 (ky 0) False [], ky 10 \<mapsto> sacct 10 (ky 0) False [],
      ky 11 \<mapsto> sacct 11 (ky 0) False [clock], ky 12 \<mapsto> sacct 12 (ky 0) True [],
      ky 13 \<mapsto> sacct 13 tokens_id False [nft]]"

lemmas sample_vestings = blank_vesting_def created_vesting_def claimed_vesting_def new_vesting_def

lemma sample_presents:
  "presents sample_env lockup_id 10 (sample_world a b c 10 v) (create_accounts a b v)"
  "presents sample_env lockup_id 10 (sample_world a b c 10 v) (claim_accounts c v)"
  "presents sample_env lockup_id 20 (sample_world 4 2 6 20 claimed_vesting) (redeem_accounts 6 2 4)"
  by (simp_all add: presents_def create_accounts_def claim_accounts_def redeem_accounts_def sample_world_def)

lemma sample_create_run:
  "run_lockup sample_env lockup_id (create_accounts 3 1 blank_vesting) (CreateVesting (ky 12) 20 5 10) =
   Inr (create_accounts 4 2 created_vesting)"
proof -
  let ?accs = "create_accounts 3 1 blank_vesting"
  have at: "length ?accs = 10" "?accs ! 0 = sacct 5 lockup_id False (vesting_bytes blank_vesting)"
    "?accs ! Suc 0 = sacct 3 tokens_id False [3]" "?accs ! 2 = sacct 4 (ky 0) True []"
    "?accs ! 3 = sacct 2 tokens_id False [1]" "?accs ! 4 = sacct 1 lockup_id False (safe_bytes sample_safe)"
    "?accs ! 5 = sacct 6 tokens_id False []" "?accs ! 6 = sacct 8 (ky 0) False []"
    "?accs ! 7 = sacct 7 (ky 0) False []" "?accs ! 8 = sacct 10 (ky 0) False []"
    "?accs ! 9 = sacct 11 (ky 0) False [10]"
    by (simp_all add: create_accounts_def)
  have clock: "access_clock sample_env (?accs ! 9) = Inr 10" by (simp add: at access_clock_def)
  have safe: "access_safe sample_env (?accs ! 4) lockup_id = Inr sample_safe"
    by (simp add: at access_safe_run sample_safe_def)
  have addr: "vault_address sample_env (ky 1) (sf_nonce sample_safe) lockup_id = Inr (ky 8)"
    by (simp add: vault_address_def sample_safe_def)
  obtain h where vault: "access_vault sample_env (?accs ! 3) (?accs ! 6) (?accs ! 4) lockup_id = Inr h"
    using safe addr by (simp add: at access_vault_def access_token_def access_vault_authority_def sample_holding_def
        sample_safe_def)
  have rent: "access_rent sample_env (?accs ! 8) = Inr (\<lambda>_ _. True)" by (simp add: at access_rent_def)
  have mint: "access_mint sample_env (?accs ! 5) =
      Inr \<lparr>tm_is_initialized = True, tm_mint_authority = Some (ky 8), tm_supply = 0\<rparr>"
    by (simp add: at access_mint_def)
  have access: "create_vesting_access sample_env lockup_id ?accs 20 5 10 10 = Inr ()"
    using safe vault rent mint addr
    by (simp add: create_vesting_access_def at) (simp add: blank_vesting_def)
  have call: "create_vesting_transition sample_env ?accs (ky 12) 20 5 10 10 blank_vesting =
      Inr (created_vesting, create_accounts 4 2 blank_vesting)"
    by (simp add: create_vesting_transition_def at invoke_token_def sample_transfer_ix created_vesting_def)
  have "update_account_with (le_vesting sample_env) (?accs ! 0)
      (create_vesting_transition sample_env ?accs (ky 12) 20 5 10 10) =
      Inr (put_data (ky 5) (vesting_bytes created_vesting) (create_accounts 4 2 blank_vesting))"
    using call by (auto simp: update_vesting_run at)
  moreover have "put_data (ky 5) (vesting_bytes created_vesting) (create_accounts 4 2 blank_vesting) =
      create_accounts 4 2 created_vesting"
    by (simp add: put_data_def create_accounts_def)
  ultimately show ?thesis using clock access
    by (simp add: run_lockup_def handle_create_vesting_def next_accounts_def at(1))
qed

lemma sample_claim_run:
  "run_lockup sample_env lockup_id (claim_accounts 5 created_vesting) Claim =
   Inr (claim_accounts 6 claimed_vesting)"
proof -
  let ?accs = "claim_accounts 5 created_vesting"
  have at: "length ?accs = 7" "?accs ! 0 = sacct 12 (ky 0) True []"
    "?accs ! Suc 0 = sacct 5 lockup_id False (vesting_bytes created_vesting)"
    "?accs ! 2 = sacct 1 lockup_id False (safe_bytes sample_safe)" "?accs ! 3 = sacct 8 (ky 0) False []"
    "?accs ! 5 = sacct 6 tokens_id False []" "?accs ! 6 = sacct 13 tokens_id False [5]"
    by (simp_all add: claim_accounts_def)
  have safe: "access_safe sample_env (?accs ! 2) lockup_id = Inr sample_safe"
    by (simp add: at access_safe_run sample_safe_def)
  have auth: "access_vault_authority sample_env (?accs ! 3) (ky 1) sample_safe lockup_id = Inr (ky 8)"
    by (simp add: at access_vault_authority_def vault_address_def sample_safe_def)
  have vest: "access_vesting sample_env lockup_id (ky 1) (?accs ! 1) (?accs ! 0) = Inr created_vesting"
    by (simp add: at access_vesting_run) (simp add: sample_vestings)
  have nft: "\<exists>h. access_locked_token sample_env (?accs ! 6) (?accs ! 5) (ky 8) created_vesting = Inr h"
    by (simp add: at access_locked_token_def access_mint_def access_token_def sample_holding_def)
      (simp add: sample_vestings)
  have access: "claim_access sample_env lockup_id ?accs = Inr ()"
    using safe auth vest nft by (auto simp: claim_access_def at) (simp add: sample_vestings)
  have call: "claim_transition sample_env ?accs (sf_nonce sample_safe) created_vesting =
      Inr (claimed_vesting, claim_accounts 6 created_vesting)"
    using sample_mint_ix by (simp add: claim_transition_def at invoke_token_def claimed_vesting_def)
      (simp add: created_vesting_def new_vesting_def)
  have "update_account_with (le_vesting sample_env) (?accs ! 1)
      (\<lambda>v. and_then (lockup_try (unpack_account (le_safe sample_env) (ac_data (?accs ! 2)))) (\<lambda>sf.
       claim_transition sample_env ?accs (sf_nonce sf) v)) =
      Inr (put_data (ky 5) (vesting_bytes claimed_vesting) (claim_accounts 6 created_vesting))"
    using call by (auto simp: update_vesting_run at)
  moreover have "put_data (ky 5) (vesting_bytes claimed_vesting) (claim_accounts 6 created_vesting) =
      claim_accounts 6 claimed_vesting"
    by (simp add: put_data_def claim_accounts_def)
  ultimately show ?thesis using access by (simp add: run_lockup_def handle_claim_def next_accounts_def at(1))
qed

lemma sample_commits:
  "commits (sample_world 3 1 5 10 blank_vesting) (create_accounts 4 2 created_vesting) (sample_world 4 2 5 10 created_vesting)"
  "commits (sample_world 4 2 5 10 created_vesting) (claim_accounts 6 claimed_vesting) (sample_world 4 2 6 10 claimed_vesting)"
  by (auto simp: commits_def create_accounts_def claim_accounts_def sample_world_def)

lemma sample_clock_moves:
  "outside_step sample_env lockup_id (ky 2) (sample_world 4 2 6 10 v) (sample_world 4 2 6 20 v)"
  by (auto simp: outside_step_def sample_world_def vault_of_def holding_of_def sample_holding_def split: if_splits)

lemma sample_story:
  defines "w0 \<equiv> sample_world 3 1 5 10 blank_vesting"
  shows "lockup_reach sample_env lockup_id (ky 1) (ky 2) w0 10 (sample_world 4 2 6 20 claimed_vesting) 20 False"
proof -
  have careful: "careful sample_env lockup_id accs (CreateVesting b e n d)"
    "careful sample_env lockup_id accs Claim" for accs b e n d by (simp_all add: careful_def)
  have "lockup_reach sample_env lockup_id (ky 1) (ky 2) w0 10 (sample_world 4 2 5 10 created_vesting) 10
      (False \<or> migrates (ky 1) (create_accounts 3 1 blank_vesting) (CreateVesting (ky 12) 20 5 10))"
    unfolding w0_def by (rule lockup_reach.instruction [OF lockup_reach.start sample_presents(1) careful(1)
      sample_create_run sample_commits(1)])
  then have "lockup_reach sample_env lockup_id (ky 1) (ky 2) w0 10 (sample_world 4 2 5 10 created_vesting) 10 False"
    by (simp add: migrates_def)
  then have "lockup_reach sample_env lockup_id (ky 1) (ky 2) w0 10 (sample_world 4 2 6 10 claimed_vesting) 10
      (False \<or> migrates (ky 1) (claim_accounts 5 created_vesting) Claim)"
    by (rule lockup_reach.instruction [OF _ sample_presents(2) careful(2) sample_claim_run sample_commits(2)])
  then have "lockup_reach sample_env lockup_id (ky 1) (ky 2) w0 10 (sample_world 4 2 6 10 claimed_vesting) 10 False"
    by (simp add: migrates_def)
  then have "lockup_reach sample_env lockup_id (ky 1) (ky 2) w0 10 (sample_world 4 2 6 20 claimed_vesting) 10 False"
    by (rule lockup_reach.outside [OF _ sample_clock_moves])
  then show ?thesis by (rule lockup_reach.clock) simp
qed

lemma sample_start:
  defines "w0 \<equiv> sample_world 3 1 5 10 blank_vesting"
  shows "\<exists>h. safe_state sample_env lockup_id (ky 1) (ky 2) w0 h" "vestings_of lockup_id (ky 1) w0 = Map.empty"
proof -
  show "\<exists>h. safe_state sample_env lockup_id (ky 1) (ky 2) w0 h"
    by (simp add: safe_state_def w0_def sample_world_def vault_of_def holding_of_def sample_holding_def)
      (auto simp: sample_safe_def)
  show "vestings_of lockup_id (ky 1) w0 = Map.empty"
  proof
    fix k
    have "vest_of lockup_id (ky 1) (sacct 5 lockup_id False (vesting_bytes blank_vesting)) = None"
      by (simp add: vest_of_def blank_vesting_def)
    moreover have "vest_of lockup_id (ky 1) (sacct 1 lockup_id False (safe_bytes sample_safe)) = None"
      by (rule vest_of_length) (simp add: safe_encoded)
    ultimately show "vestings_of lockup_id (ky 1) w0 k = Map.empty k"
      by (auto simp: vestings_of_def w0_def sample_world_def vest_of_def)
  qed
qed

lemma sample_redeemer: "redeemer sample_env lockup_id (redeem_accounts 6 2 4) claimed_vesting"
proof -
  let ?accs = "redeem_accounts 6 2 4"
  have at: "?accs ! 0 = sacct 12 (ky 0) True []"
    "?accs ! Suc 0 = sacct 5 lockup_id False (vesting_bytes claimed_vesting)"
    "?accs ! 3 = sacct 2 tokens_id False [2]" "?accs ! 4 = sacct 8 (ky 0) False []"
    "?accs ! 5 = sacct 1 lockup_id False (safe_bytes sample_safe)" "?accs ! 6 = sacct 13 tokens_id False [6]"
    "?accs ! 7 = sacct 6 tokens_id False []" "?accs ! 9 = sacct 11 (ky 0) False [20]"
    by (simp_all add: redeem_accounts_def)
  have safe: "access_safe sample_env (?accs ! 5) lockup_id = Inr sample_safe"
    by (simp add: at access_safe_run sample_safe_def)
  have "\<exists>t. access_vault sample_env (?accs ! 3) (?accs ! 4) (?accs ! 5) lockup_id = Inr t"
    using safe by (simp add: at access_vault_def access_token_def access_vault_authority_def vault_address_def
        sample_holding_def sample_safe_def)
  moreover have "\<exists>t. access_locked_token sample_env (?accs ! 6) (?accs ! 7) (ky 8) claimed_vesting = Inr t"
    by (simp add: at access_locked_token_def access_mint_def access_token_def sample_holding_def)
      (simp add: sample_vestings)
  moreover have "v_beneficiary claimed_vesting = ky 12" "v_claimed claimed_vesting" by (simp_all add: sample_vestings)
  ultimately show ?thesis by (simp add: redeemer_def at)
qed

lemma sample_end:
  "vestings_of lockup_id (ky 1) (sample_world 4 2 6 20 claimed_vesting) (ky 5) = Some claimed_vesting"
  by (simp add: vestings_of_def sample_world_def vest_of_Some) (simp add: sample_vestings)

subsection \<open>The properties in this story\<close>

theorem lockup_needs_signature_witness:
  "authorised sample_env lockup_id (create_accounts 3 1 blank_vesting) (CreateVesting (ky 12) 20 5 10) \<and>
   authorised sample_env lockup_id (claim_accounts 5 created_vesting) Claim"
  using lockup_needs_signature [OF sample_create_run] lockup_needs_signature [OF sample_claim_run] by blast

theorem lockup_refines_custody_witness:
  "custody_step\<^sup>*\<^sup>*
     (custody_of sample_env lockup_id (ky 1) (ky 2) (sample_world 3 1 5 10 blank_vesting) 10)
     (custody_of sample_env lockup_id (ky 1) (ky 2) (sample_world 4 2 6 20 claimed_vesting) 20)"
  using sample_start(1) lockup_refines_custody [OF sample_honest _ sample_story] by auto

theorem lockup_vault_solvent_witness:
  defines "w \<equiv> sample_world 4 2 6 20 claimed_vesting"
  shows "vestings_of lockup_id (ky 1) w (ky 5) = Some claimed_vesting \<and>
    (\<exists>h. vault_of sample_env (ky 2) w = Some h \<and>
       (\<Sum>k\<in>dom (vestings_of lockup_id (ky 1) w).
          unat (available_for_whitelist (the (vestings_of lockup_id (ky 1) w k)))) \<le> unat (th_amount h))"
proof -
  obtain h0 where "safe_state sample_env lockup_id (ky 1) (ky 2) (sample_world 3 1 5 10 blank_vesting) h0"
    using sample_start(1) by blast
  from lockup_vault_solvent [OF sample_honest this sample_start(2) sample_story] sample_end
  show ?thesis unfolding w_def by blast
qed

text \<open>The beneficiary burns all the locked tokens and is paid as many from the vault.\<close>

theorem redeem_open_at_end_witness:
  "run_lockup sample_env lockup_id (redeem_accounts 6 2 4) (Redeem 10) =
     Inr (put_data (ky 5) (vesting_bytes (deduct 10 claimed_vesting)) (redeem_accounts 5 1 3)) \<and>
   run_lockup sample_env lockup_id (redeem_accounts 6 2 4) (Redeem 11) = Inl (lockup_code InsufficientWithdrawalBalance)"
proof -
  let ?accs = "redeem_accounts 6 2 4"
  obtain h0 where start: "safe_state sample_env lockup_id (ky 1) (ky 2) (sample_world 3 1 5 10 blank_vesting) h0"
    using sample_start(1) by blast
  have at: "10 \<le> length ?accs" "ac_key (?accs ! 1) = ky 5" "ac_key (?accs ! 5) = ky 1" "ac_key (?accs ! 2) = ky 3"
    "ac_key (?accs ! 6) = ky 13" "ac_key (?accs ! 7) = ky 6"
    by (simp_all add: redeem_accounts_def)
  have v: "v_end_slot claimed_vesting \<le> 20" "v_balance claimed_vesting - v_whitelist_owned claimed_vesting = 10"
    "v_beneficiary claimed_vesting = ky 12"
    by (simp_all add: sample_vestings)
  have e: "vestings_of lockup_id (ky 1) (sample_world 4 2 6 20 claimed_vesting) (ac_key (?accs ! 1)) = Some claimed_vesting"
    using sample_end at(2) by simp
  note run = redeem_open_at_end [OF sample_honest start sample_start(2) sample_story sample_presents(3) at(1)
        sample_redeemer e at(3) v(1)]
  obtain n and h :: token_holding where hn: "rt_program_address sample_env (signer_seeds (ky 1) n) lockup_id = Inr (th_owner h)"
    and paid: "\<forall>accs1 accs2. 10 \<le> v_balance claimed_vesting - v_whitelist_owned claimed_vesting \<and>
          invoke_token sample_env (rt_token_id sample_env) (TokenBurn (ac_key (?accs ! 6)) (ac_key (?accs ! 7))
            (v_beneficiary claimed_vesting) 10) None (map ac_key ?accs) ?accs = Inr accs1 \<and>
          invoke_token sample_env (rt_token_id sample_env) (TokenTransfer (ky 2) (ac_key (?accs ! 2)) (th_owner h) 10)
            (Some (signer_seeds (ky 1) n)) [ky 2, ac_key (?accs ! 2), th_owner h, ac_key (?accs ! 8)] accs1 = Inr accs2 \<longrightarrow>
          run_lockup sample_env lockup_id ?accs (Redeem 10) =
            Inr (put_data (ac_key (?accs ! 1)) (vesting_bytes (deduct 10 claimed_vesting)) accs2)"
    using run [of 10] by blast
  have "signer_seeds (ky 1) n = signer_seeds (ky 1) 1" "th_owner h = ky 8" using hn by (simp_all split: if_splits)
  then have "run_lockup sample_env lockup_id ?accs (Redeem 10) =
      Inr (put_data (ky 5) (vesting_bytes (deduct 10 claimed_vesting)) (redeem_accounts 5 1 3))"
    using paid [rule_format, of "redeem_accounts 5 2 4" "redeem_accounts 5 1 3"] at v
    by (simp add: invoke_token_def sample_redeem_ix)
  then show ?thesis using run [of 11] v(2) by simp
qed

end
