(* ===== verification/RegistryAccounts.thy ===== *)
theory RegistryAccounts
  imports Runtime
begin

text \<open>
  The accounts of the registry program (\<open>registry/src/accounts/*.rs\<close>) with the documented formats in
  which they are stored, and its errors (\<open>registry/src/error.rs\<close>).
\<close>

subsection \<open>Errors\<close>

datatype registry_error_code =
    RegistryWrongSerialization | NotReadySeeNextMajorVersion | MustBeDelegated | RegistryUnknown

primrec registry_error_code_u32 :: "registry_error_code \<Rightarrow> u32" where
  "registry_error_code_u32 RegistryWrongSerialization = 1"
| "registry_error_code_u32 NotReadySeeNextMajorVersion = 2"
| "registry_error_code_u32 MustBeDelegated = 3"
| "registry_error_code_u32 RegistryUnknown = 1000"

datatype registry_error = RegistryProgramError program_error | RegistryErrorCode registry_error_code

primrec program_error_of_registry :: "registry_error \<Rightarrow> program_error" where
  "program_error_of_registry (RegistryProgramError e) = e"
| "program_error_of_registry (RegistryErrorCode c) = Custom (registry_error_code_u32 c)"

datatype registry_fault = RegistryErr registry_error | RegistryPanic

definition registry_code :: "registry_error_code \<Rightarrow> registry_fault" where
  "registry_code c = RegistryErr (RegistryErrorCode c)"

text \<open>\<open>?\<close> on a program error in a registry function, and \<open>Into\<close> the other way round.\<close>

primrec registry_of_program :: "program_fault \<Rightarrow> registry_fault" where
  "registry_of_program (Failed e) = RegistryErr (RegistryProgramError e)"
| "registry_of_program Panicked = RegistryPanic"

primrec program_of_registry :: "registry_fault \<Rightarrow> program_fault" where
  "program_of_registry (RegistryErr e) = Failed (program_error_of_registry e)"
| "program_of_registry RegistryPanic = Panicked"

definition registry_try :: "program_fault + 'a \<Rightarrow> registry_fault + 'a" where
  "registry_try r = map_err registry_of_program r"

lemma registry_try_simps [simp, res_simps]:
  "registry_try (Inr x) = Inr x" "registry_try (Inl f) = Inl (registry_of_program f)"
  by (simp_all add: registry_try_def)

lemma registry_try_eq_Inr [res_simps]: "registry_try r = Inr x \<longleftrightarrow> r = Inr x"
  by (cases r) simp_all

subsection \<open>Accounts\<close>

record registrar =
  rg_initialized :: bool
  rg_authority :: aligned
  rg_capabilities_fees_bps :: "u32 list"  \<comment> \<open>\<open>[u32; 32]\<close>\<close>
  rg_withdrawal_timelock :: u64

primrec next_free_from :: "nat \<Rightarrow> u32 list \<Rightarrow> u8 option" where
  "next_free_from idx [] = None"
| "next_free_from idx (c # cs) = (if c = 0 then Some (of_nat idx) else next_free_from (Suc idx) cs)"

definition next_free_capability_id :: "registrar \<Rightarrow> u8 option" where
  "next_free_capability_id r = next_free_from 0 (rg_capabilities_fees_bps r)"

datatype stake_kind = Voting | Delegated

record entity =
  en_initialized :: bool
  en_leader :: aligned
  en_amount :: u64
  en_mega_amount :: u64
  en_capabilities :: u32
  en_stake_kind :: stake_kind

record member =
  mb_initialized :: bool
  mb_entity :: aligned
  mb_beneficiary :: aligned
  mb_delegate :: aligned
  mb_amount :: u64
  mb_mega_amount :: u64

text \<open>\<open>bincode\<close> on the structs that are stored.\<close>

record registry_env = runtime +
  re_registrar :: "registrar codec"
  re_entity :: "entity codec"
  re_member :: "member codec"

subsection \<open>The formats\<close>

text \<open>An array is its elements one after the other; an enum without fields its index in four bytes.\<close>

primrec array_codec :: "nat \<Rightarrow> 'a codec \<Rightarrow> 'a list codec" where
  "array_codec 0 c =
     \<lparr>cd_encode = (\<lambda>xs. if xs = [] then Some [] else None), cd_decode = (\<lambda>bs. Some ([], bs)),
      cd_size = (\<lambda>xs. if xs = [] then Some 0 else None)\<rparr>"
| "array_codec (Suc n) c =
     \<lparr>cd_encode = (\<lambda>xs. case xs of [] \<Rightarrow> None | y # ys \<Rightarrow> cd_encode (pair_codec c (array_codec n c)) (y, ys)),
      cd_decode = (\<lambda>bs. map_option (\<lambda>((y, ys), rest). (y # ys, rest)) (cd_decode (pair_codec c (array_codec n c)) bs)),
      cd_size = (\<lambda>xs. case xs of [] \<Rightarrow> None | y # ys \<Rightarrow> cd_size (pair_codec c (array_codec n c)) (y, ys))\<rparr>"

primrec kind_index :: "stake_kind \<Rightarrow> u32" where
  "kind_index Voting = 0"
| "kind_index Delegated = 1"

definition kind_codec :: "stake_kind codec" where
  "kind_codec = fixed_codec 4 (\<lambda>k. le_bytes 4 (kind_index k))
     (\<lambda>bs. if (le_word bs :: u32) = 0 then Some Voting else if (le_word bs :: u32) = 1 then Some Delegated else None)"

definition registrar_format :: "registrar codec" where
  "registrar_format = map_codec
     (\<lambda>r. (rg_initialized r, rg_authority r, rg_capabilities_fees_bps r, rg_withdrawal_timelock r))
     (\<lambda>(i, a, c, t). \<lparr>rg_initialized = i, rg_authority = a, rg_capabilities_fees_bps = c, rg_withdrawal_timelock = t\<rparr>)
     (pair_codec bool_codec (pair_codec key_codec (pair_codec (array_codec 32 u32_codec) u64_codec)))"

definition entity_format :: "entity codec" where
  "entity_format = map_codec
     (\<lambda>e. (en_initialized e, en_leader e, en_amount e, en_mega_amount e, en_capabilities e, en_stake_kind e))
     (\<lambda>(i, l, a, m, c, k). \<lparr>en_initialized = i, en_leader = l, en_amount = a, en_mega_amount = m,
        en_capabilities = c, en_stake_kind = k\<rparr>)
     (pair_codec bool_codec (pair_codec key_codec (pair_codec u64_codec (pair_codec u64_codec
       (pair_codec u32_codec kind_codec)))))"

definition member_format :: "member codec" where
  "member_format = map_codec
     (\<lambda>m. (mb_initialized m, mb_entity m, mb_beneficiary m, mb_delegate m, mb_amount m, mb_mega_amount m))
     (\<lambda>(i, e, b, d, a, m). \<lparr>mb_initialized = i, mb_entity = e, mb_beneficiary = b, mb_delegate = d,
        mb_amount = a, mb_mega_amount = m\<rparr>)
     (pair_codec bool_codec (pair_codec key_codec (pair_codec key_codec (pair_codec key_codec
       (pair_codec u64_codec u64_codec)))))"

lemma array_packing:
  assumes "packing c"
  shows "packing (array_codec n c)"
proof (induction n)
  case 0
  show ?case by unfold_locales (auto split: if_splits)
next
  case (Suc n)
  have p: "packing (pair_codec c (array_codec n c))" by (rule pair_packing [OF assms Suc])
  show ?case
  proof
    fix xs bs rest assume "cd_encode (array_codec (Suc n) c) xs = Some bs"
    then obtain y ys where "xs = y # ys" "cd_encode (pair_codec c (array_codec n c)) (y, ys) = Some bs"
      by (auto split: list.splits)
    then show "cd_decode (array_codec (Suc n) c) (bs @ rest) = Some (xs, rest)"
      using packing.decode_encode [OF p] by simp
  next
    fix xs bs rest assume "cd_decode (array_codec (Suc n) c) bs = Some (xs, rest)"
    then obtain y ys where "xs = y # ys" "cd_decode (pair_codec c (array_codec n c)) bs = Some ((y, ys), rest)"
      by auto
    then show "\<exists>e. cd_encode (array_codec (Suc n) c) xs = Some e \<and> bs = e @ rest"
      using packing.encode_decode [OF p] by simp
  next
    fix xs
    show "cd_size (array_codec (Suc n) c) xs =
        map_option (\<lambda>bs. of_nat (length bs)) (cd_encode (array_codec (Suc n) c) xs)"
      using packing.size_encode [OF p] by (cases xs) simp_all
  qed
qed

lemma kind_packing: "packing kind_codec"
  unfolding kind_codec_def
proof (rule fixed_packing)
  fix bs :: "u8 list" and k assume "length bs = 4"
  then have "bs = le_bytes 4 w \<longleftrightarrow> le_word bs = w" for w :: u32 using le_word_eq_iff [of 4 bs w] by simp
  then show "(if (le_word bs :: u32) = 0 then Some Voting else if (le_word bs :: u32) = 1 then Some Delegated else None)
      = Some k \<longleftrightarrow> bs = le_bytes 4 (kind_index k)"
    by (cases k) auto
qed simp

interpretation registrar_pack: packing registrar_format
  unfolding registrar_format_def by (rule map_packing, intro packing_intros array_packing) auto

interpretation entity_pack: packing entity_format
  unfolding entity_format_def by (rule map_packing, intro packing_intros kind_packing) auto

interpretation member_pack: packing member_format
  unfolding member_format_def by (rule map_packing, intro packing_intros) auto

end
