(* ===== verification/Registry.thy ===== *)
theory Registry
  imports RegistryAccounts
begin

text \<open>
  The handlers of the registry program (\<open>registry/program/src/*.rs\<close>) and its dispatcher
  (\<open>registry/src/lib.rs\<close>, \<open>registry/program/src/lib.rs\<close>).  The access control of every handler is a
  \<open>todo\<close> in the source but for one check of \<open>create_entity\<close>; four handlers exist and are not
  dispatched to.
\<close>

text \<open>\<open>unpack_mut\<close> with a closure whose errors become program errors.\<close>

definition update_registry_account ::
  "'a codec \<Rightarrow> acct list \<Rightarrow> acct \<Rightarrow> ('a \<Rightarrow> registry_fault + 'a) \<Rightarrow> registry_fault + acct list" where
  "update_registry_account cd accounts acc_info f =
     and_then (registry_try (unpack_mut cd (ac_data acc_info)
       (\<lambda>t. and_then (map_err program_of_registry (f t)) (\<lambda>t'. Inr (t', ()))))) (\<lambda>(data, _).
     Inr (put_data (ac_key acc_info) data accounts))"

subsection \<open>Registrar, entities and members\<close>

definition registrar_initialized :: "aligned \<Rightarrow> u64 \<Rightarrow> registrar \<Rightarrow> registrar" where
  "registrar_initialized authority withdrawal_timelock r =
     r\<lparr>rg_initialized := True, rg_capabilities_fees_bps := replicate 32 0, rg_authority := authority,
       rg_withdrawal_timelock := withdrawal_timelock\<rparr>"

definition registry_initialize ::
  "registry_env \<Rightarrow> aligned \<Rightarrow> acct list \<Rightarrow> aligned \<Rightarrow> u64 \<Rightarrow> registry_fault + acct list" where
  "registry_initialize env program_id accounts authority withdrawal_timelock =
     and_then (registry_try (next_accounts 2 accounts)) (\<lambda>_.
     update_registry_account (re_registrar env) accounts (accounts ! 0) (\<lambda>r.
       Inr (registrar_initialized authority withdrawal_timelock r)))"

text \<open>An index beyond the array panics.\<close>

definition capability_registered :: "u8 \<Rightarrow> u32 \<Rightarrow> registrar \<Rightarrow> registry_fault + registrar" where
  "capability_registered capability_id capability_fee_bps r =
     (if unat capability_id < length (rg_capabilities_fees_bps r)
      then Inr (r\<lparr>rg_capabilities_fees_bps := (rg_capabilities_fees_bps r)[unat capability_id := capability_fee_bps]\<rparr>)
      else Inl RegistryPanic)"

definition register_capability ::
  "registry_env \<Rightarrow> aligned \<Rightarrow> acct list \<Rightarrow> u8 \<Rightarrow> u32 \<Rightarrow> registry_fault + acct list" where
  "register_capability env program_id accounts capability_id capability_fee_bps =
     and_then (registry_try (next_accounts 2 accounts)) (\<lambda>_.
     update_registry_account (re_registrar env) accounts (accounts ! 1)
       (capability_registered capability_id capability_fee_bps))"

definition create_entity_access :: "stake_kind \<Rightarrow> registry_fault + unit" where
  "create_entity_access stake_kind = guard (stake_kind = Delegated) (registry_code MustBeDelegated)"

definition entity_created :: "aligned \<Rightarrow> u32 \<Rightarrow> stake_kind \<Rightarrow> entity \<Rightarrow> entity" where
  "entity_created leader capabilities stake_kind e =
     e\<lparr>en_initialized := True, en_leader := leader, en_amount := 0, en_mega_amount := 0,
       en_capabilities := capabilities, en_stake_kind := stake_kind\<rparr>"

definition create_entity ::
  "registry_env \<Rightarrow> aligned \<Rightarrow> acct list \<Rightarrow> u32 \<Rightarrow> stake_kind \<Rightarrow> registry_fault + acct list" where
  "create_entity env program_id accounts capabilities stake_kind =
     and_then (registry_try (next_accounts 3 accounts)) (\<lambda>_.
     and_then (create_entity_access stake_kind) (\<lambda>_.
     update_registry_account (re_entity env) accounts (accounts ! 0) (\<lambda>e.
       Inr (entity_created (ac_key (accounts ! 1)) capabilities stake_kind e))))"

definition update_entity ::
  "registry_env \<Rightarrow> aligned \<Rightarrow> acct list \<Rightarrow> aligned \<Rightarrow> u32 \<Rightarrow> registry_fault + acct list" where
  "update_entity env program_id accounts leader capabilities =
     and_then (registry_try (next_accounts 2 accounts)) (\<lambda>_.
     update_registry_account (re_entity env) accounts (accounts ! 0) (\<lambda>e.
       Inr (e\<lparr>en_leader := leader, en_capabilities := capabilities\<rparr>)))"

definition member_joined :: "aligned \<Rightarrow> aligned \<Rightarrow> aligned \<Rightarrow> member \<Rightarrow> member" where
  "member_joined entity beneficiary delegate m =
     m\<lparr>mb_initialized := True, mb_entity := entity, mb_beneficiary := beneficiary, mb_delegate := delegate,
       mb_amount := 0, mb_mega_amount := 0\<rparr>"

definition join_entity ::
  "registry_env \<Rightarrow> aligned \<Rightarrow> acct list \<Rightarrow> aligned \<Rightarrow> aligned \<Rightarrow> registry_fault + acct list" where
  "join_entity env program_id accounts beneficiary delegate =
     and_then (registry_try (next_accounts 3 accounts)) (\<lambda>_.
     update_registry_account (re_member env) accounts (accounts ! 0) (\<lambda>m.
       Inr (member_joined (ac_key (accounts ! 1)) beneficiary delegate m)))"

subsection \<open>Handlers that are not dispatched to\<close>

definition stake_transition :: "u64 \<Rightarrow> bool \<Rightarrow> entity \<Rightarrow> member \<Rightarrow> entity \<times> member" where
  "stake_transition amount is_mega e m =
     (let m' = (if is_mega then m\<lparr>mb_mega_amount := mb_mega_amount m + amount\<rparr> else m\<lparr>mb_amount := amount\<rparr>);
          e' = (if is_mega then e\<lparr>en_mega_amount := en_mega_amount e + amount\<rparr>
                else e\<lparr>en_amount := en_amount e + amount\<rparr>) in
      (e', m'))"

definition AccountBorrowFailed :: program_error where
  "AccountBorrowFailed = OtherProgramError 11"

text \<open>The member is unpacked and packed within the entity: one account cannot be both.\<close>

definition handle_stake ::
  "registry_env \<Rightarrow> aligned \<Rightarrow> acct list \<Rightarrow> u64 \<Rightarrow> bool \<Rightarrow> registry_fault + acct list" where
  "handle_stake env program_id accounts amount is_mega =
     and_then (registry_try (next_accounts 6 accounts)) (\<lambda>_.
     let member_acc_info = accounts ! 2; entity_acc_info = accounts ! 4 in
     and_then (registry_try (unpack_mut (re_entity env) (ac_data entity_acc_info) (\<lambda>e.
       and_then (guard (ac_key member_acc_info \<noteq> ac_key entity_acc_info) (Failed AccountBorrowFailed)) (\<lambda>_.
       and_then (unpack_mut (re_member env) (ac_data member_acc_info) (\<lambda>m.
         let (e', m') = stake_transition amount is_mega e m in Inr (m', e'))) (\<lambda>(member_data, e').
       Inr (e', member_data)))))) (\<lambda>(entity_data, member_data).
     Inr (put_data (ac_key entity_acc_info) entity_data (put_data (ac_key member_acc_info) member_data accounts))))"

definition handle_donate ::
  "registry_env \<Rightarrow> aligned \<Rightarrow> acct list \<Rightarrow> u64 \<Rightarrow> registry_fault + acct list" where
  "handle_donate env program_id accounts donate_amount =
     and_then (registry_try (next_accounts 5 accounts)) (\<lambda>_.
     let donator_authority = ac_key (accounts ! 0); donator = ac_key (accounts ! 1);
         vault = ac_key (accounts ! 2); token_program = ac_key (accounts ! 4) in
     registry_try (invoke_token env (rt_token_id env) (TokenTransfer donator vault donator_authority donate_amount)
       None [donator, donator_authority, vault, token_program] accounts))"

definition handle_start_stake_withdrawal :: "aligned \<Rightarrow> acct list \<Rightarrow> registry_fault + acct list" where
  "handle_start_stake_withdrawal program_id accounts = Inr accounts"

definition handle_end_stake_withdrawal :: "aligned \<Rightarrow> acct list \<Rightarrow> registry_fault + acct list" where
  "handle_end_stake_withdrawal program_id accounts = Inr accounts"

subsection \<open>The program\<close>

datatype registry_instruction =
    RegistryInitialize aligned u64  \<comment> \<open>authority, withdrawal timelock\<close>
  | RegisterCapability u8 u32
  | CreateEntity u32 stake_kind
  | UpdateEntity aligned u32
  | JoinEntity aligned aligned  \<comment> \<open>beneficiary, delegate\<close>
  | Stake u64 bool
  | StartStakeWithdrawal u64 u64
  | EndStakeWithdrawal
  | Donate u64

definition run_registry ::
  "registry_env \<Rightarrow> aligned \<Rightarrow> acct list \<Rightarrow> registry_instruction \<Rightarrow> registry_fault + acct list" where
  "run_registry env program_id accounts i =
     (case i of
        RegistryInitialize authority withdrawal_timelock \<Rightarrow>
          registry_initialize env program_id accounts authority withdrawal_timelock
      | RegisterCapability capability_id capability_fee_bps \<Rightarrow>
          register_capability env program_id accounts capability_id capability_fee_bps
      | CreateEntity capabilities stake_kind \<Rightarrow> create_entity env program_id accounts capabilities stake_kind
      | UpdateEntity leader capabilities \<Rightarrow> update_entity env program_id accounts leader capabilities
      | JoinEntity beneficiary delegate \<Rightarrow> join_entity env program_id accounts beneficiary delegate
      | Stake amount is_mega \<Rightarrow> Inl (registry_code NotReadySeeNextMajorVersion)
      | StartStakeWithdrawal amount mega_amount \<Rightarrow> Inl (registry_code NotReadySeeNextMajorVersion)
      | EndStakeWithdrawal \<Rightarrow> Inl (registry_code NotReadySeeNextMajorVersion)
      | Donate amount \<Rightarrow> Inl (registry_code NotReadySeeNextMajorVersion))"

definition registry_entry ::
  "registry_env \<Rightarrow> registry_instruction codec \<Rightarrow> aligned \<Rightarrow> acct list \<Rightarrow> u8 list \<Rightarrow> program_fault + acct list" where
  "registry_entry env instruction_codec program_id accounts instruction_data =
     map_err program_of_registry
       (and_then (map_err (\<lambda>f. case f of Failed _ \<Rightarrow> registry_code RegistryWrongSerialization | Panicked \<Rightarrow> RegistryPanic)
         (unpack_account instruction_codec instruction_data)) (\<lambda>i.
        run_registry env program_id accounts i))"

end
