(* ===== verification/RegistryFacts.thy ===== *)
theory RegistryFacts
  imports Registry
begin

text \<open>
  What the registry program does to accounts: which byte strings its accounts are, exactly what
  it accepts and what comes of it, that nothing but keys and data decides what an instruction does, capabilities,
  and what staking would record.
\<close>

declare split_paired_All [simp del] split_paired_Ex [simp del]

definition registry_formats :: "registry_env \<Rightarrow> bool" where
  "registry_formats env \<longleftrightarrow> re_registrar env = registrar_format \<and> re_entity env = entity_format \<and>
     re_member env = member_format"

subsection \<open>Kinds of account\<close>

lemma reads_array: "reads c m (\<lambda>_. True) \<Longrightarrow> reads (array_codec n c) (n * m) (\<lambda>_. True)"
proof (induction n)
  case 0
  show ?case by (simp add: reads_def)
next
  case (Suc n)
  have p: "reads (pair_codec c (array_codec n c)) (m + n * m) (\<lambda>_. True)"
    using reads_pair [OF Suc(2) Suc(1) [OF Suc(2)]] by simp
  show ?case unfolding reads_def
  proof
    fix bs
    show "if Suc n * m \<le> length bs \<and> True then \<exists>x. cd_decode (array_codec (Suc n) c) bs = Some (x, drop (Suc n * m) bs)
      else cd_decode (array_codec (Suc n) c) bs = None"
      using p [unfolded reads_def, rule_format, of bs]
      by (cases "m + n * m \<le> length bs") (auto simp: split_paired_Ex)
  qed
qed

lemma reads_u32: "reads u32_codec 4 (\<lambda>_. True)"
  by (simp add: reads_def u32_codec_def)

definition kind_bytes :: "u8 list \<Rightarrow> bool" where
  "kind_bytes bs \<longleftrightarrow> (le_word (take 4 bs) :: u32) \<in> {0, 1}"

lemma reads_kind: "reads kind_codec 4 kind_bytes"
  by (auto simp: reads_def kind_codec_def kind_bytes_def)

lemma registrar_reads: "reads registrar_format 169 (\<lambda>bs. bs ! 0 \<in> {0, 1})"
  using reads_map [OF reads_pair [OF reads_prim(4) reads_pair [OF reads_prim(3)
    reads_pair [OF reads_array [OF reads_u32, of 32] reads_prim(2)]]]]
  unfolding registrar_format_def by simp

lemma entity_reads: "reads entity_format 57 (\<lambda>bs. bs ! 0 \<in> {0, 1} \<and> kind_bytes (drop 53 bs))"
  using reads_map [OF reads_pair [OF reads_prim(4) reads_pair [OF reads_prim(3) reads_pair [OF reads_prim(2)
    reads_pair [OF reads_prim(2) reads_pair [OF reads_u32 reads_kind]]]]]]
  unfolding entity_format_def by simp

lemma member_reads: "reads member_format 113 (\<lambda>bs. bs ! 0 \<in> {0, 1})"
  using reads_map [OF reads_pair [OF reads_prim(4) reads_pair [OF reads_prim(3) reads_pair [OF reads_prim(3)
    reads_pair [OF reads_prim(3) reads_pair [OF reads_prim(2) reads_prim(2)]]]]]]
  unfolding member_format_def by simp

datatype registry_kind = RegistrarAccount | EntityAccount | MemberAccount

definition registry_kind_of :: "u8 list \<Rightarrow> registry_kind option" where
  "registry_kind_of d =
     (if length d = 169 \<and> d ! 0 \<in> {0, 1} then Some RegistrarAccount
      else if length d = 57 \<and> d ! 0 \<in> {0, 1} \<and> kind_bytes (drop 53 d) then Some EntityAccount
      else if length d = 113 \<and> d ! 0 \<in> {0, 1} then Some MemberAccount else None)"

lemma registry_kind_unpacks:
  "(\<exists>r. unpack_account registrar_format d = Inr r) \<longleftrightarrow> registry_kind_of d = Some RegistrarAccount"
  "(\<exists>e. unpack_account entity_format d = Inr e) \<longleftrightarrow> registry_kind_of d = Some EntityAccount"
  "(\<exists>m. unpack_account member_format d = Inr m) \<longleftrightarrow> registry_kind_of d = Some MemberAccount"
  unfolding reads_unpack [OF registrar_reads, simplified] reads_unpack [OF entity_reads, simplified]
    reads_unpack [OF member_reads, simplified]
  by (auto simp: registry_kind_of_def)

subsection \<open>An update\<close>

text \<open>A rewritten account is of the kind it was.\<close>

lemma update_run:
  assumes "packing cd" and "length (ac_data a) < 2 ^ 64"
  shows "update_registry_account cd accs a f = Inr r \<longleftrightarrow>
    (\<exists>x y d. unpack_account cd (ac_data a) = Inr x \<and> f x = Inr y \<and> unpack_account cd d = Inr y \<and>
       length d = length (ac_data a) \<and> r = put_data (ac_key a) d accs)"
proof -
  have pack: "pack_account cd y (ac_data a) = Inr d \<longleftrightarrow> unpack_account cd d = Inr y \<and> length d = length (ac_data a)" for y d
    using packing.pack_account_run [OF assms] packing.unpack_exact_bytes [OF assms(1)] by metis
  show ?thesis
  proof
    show "update_registry_account cd accs a f = Inr r \<Longrightarrow> \<exists>x y d. unpack_account cd (ac_data a) = Inr x \<and> f x = Inr y \<and>
        unpack_account cd d = Inr y \<and> length d = length (ac_data a) \<and> r = put_data (ac_key a) d accs"
      by (auto simp: update_registry_account_def unpack_mut_def res_simps pack)
  next
    assume "\<exists>x y d. unpack_account cd (ac_data a) = Inr x \<and> f x = Inr y \<and> unpack_account cd d = Inr y \<and>
       length d = length (ac_data a) \<and> r = put_data (ac_key a) d accs"
    then obtain x y d where "unpack_account cd (ac_data a) = Inr x" "f x = Inr y"
      "pack_account cd y (ac_data a) = Inr d" "r = put_data (ac_key a) d accs" using pack by blast
    then show "update_registry_account cd accs a f = Inr r"
      by (simp add: update_registry_account_def unpack_mut_def)
  qed
qed

lemma array_elements: "cd_encode (array_codec n c) xs = Some bs \<Longrightarrow> length xs = n"
  by (induction n arbitrary: xs bs) (auto simp: pair_codec_def bind_eq_Some_conv split: if_splits list.splits)

lemma registrar_fees:
  assumes "unpack_account registrar_format d = Inr r"
  shows "length (rg_capabilities_fees_bps r) = 32"
proof -
  have "cd_encode registrar_format r = Some d" using assms by (simp only: registrar_pack.unpack_exact_bytes)
  then show ?thesis
    by (auto simp: registrar_format_def map_codec_def pair_codec_def bind_eq_Some_conv dest!: array_elements)
qed

subsection \<open>What an instruction may do\<close>

text \<open>
  One account, of a kind, is rewritten: its bytes are read as what that kind stores, what they
  come to is related to what they were, and nothing else changes.
\<close>

definition rewritten ::
  "registry_kind \<Rightarrow> 'a codec \<Rightarrow> ('a \<Rightarrow> 'a \<Rightarrow> bool) \<Rightarrow> acct \<Rightarrow> acct list \<Rightarrow> acct list \<Rightarrow> bool" where
  "rewritten k cd change a accs accs' \<longleftrightarrow>
     (\<exists>x y d. registry_kind_of (ac_data a) = Some k \<and> registry_kind_of d = Some k \<and> length d = length (ac_data a) \<and>
        unpack_account cd (ac_data a) = Inr x \<and> unpack_account cd d = Inr y \<and> change x y \<and>
        accs' = map (\<lambda>b. if ac_key b = ac_key a then b\<lparr>ac_data := d\<rparr> else b) accs)"

text \<open>The accounts after an instruction that is accepted.\<close>

fun registry_outcome :: "registry_instruction \<Rightarrow> acct list \<Rightarrow> acct list \<Rightarrow> bool" where
  "registry_outcome (RegistryInitialize authority timelock) accs accs' \<longleftrightarrow> 2 \<le> length accs \<and>
     rewritten RegistrarAccount registrar_format (\<lambda>_ r. r = \<lparr>rg_initialized = True, rg_authority = authority,
       rg_capabilities_fees_bps = replicate 32 0, rg_withdrawal_timelock = timelock\<rparr>) (accs ! 0) accs accs'"
| "registry_outcome (RegisterCapability c fee) accs accs' \<longleftrightarrow> 2 \<le> length accs \<and> unat c < 32 \<and>
     rewritten RegistrarAccount registrar_format (\<lambda>r r'. r' = r\<lparr>rg_capabilities_fees_bps :=
       (rg_capabilities_fees_bps r)[unat c := fee]\<rparr>) (accs ! 1) accs accs'"
| "registry_outcome (CreateEntity capabilities kind) accs accs' \<longleftrightarrow> 3 \<le> length accs \<and> kind = Delegated \<and>
     rewritten EntityAccount entity_format (\<lambda>_ e. e = \<lparr>en_initialized = True, en_leader = ac_key (accs ! 1), en_amount = 0,
       en_mega_amount = 0, en_capabilities = capabilities, en_stake_kind = Delegated\<rparr>) (accs ! 0) accs accs'"
| "registry_outcome (UpdateEntity leader capabilities) accs accs' \<longleftrightarrow> 2 \<le> length accs \<and>
     rewritten EntityAccount entity_format (\<lambda>e e'. e' = \<lparr>en_initialized = en_initialized e, en_leader = leader,
       en_amount = en_amount e, en_mega_amount = en_mega_amount e, en_capabilities = capabilities,
       en_stake_kind = en_stake_kind e\<rparr>) (accs ! 0) accs accs'"
| "registry_outcome (JoinEntity beneficiary delegate) accs accs' \<longleftrightarrow> 3 \<le> length accs \<and>
     rewritten MemberAccount member_format (\<lambda>_ m. m = \<lparr>mb_initialized = True, mb_entity = ac_key (accs ! 1),
       mb_beneficiary = beneficiary, mb_delegate = delegate, mb_amount = 0, mb_mega_amount = 0\<rparr>) (accs ! 0) accs accs'"
| "registry_outcome (Stake amount is_mega) accs accs' \<longleftrightarrow> False"
| "registry_outcome (StartStakeWithdrawal amount mega_amount) accs accs' \<longleftrightarrow> False"
| "registry_outcome EndStakeWithdrawal accs accs' \<longleftrightarrow> False"
| "registry_outcome (Donate amount) accs accs' \<longleftrightarrow> False"

lemma update_rewrites:
  assumes "packing cd" and kind: "\<And>d. (\<exists>x. unpack_account cd d = Inr x) \<longleftrightarrow> registry_kind_of d = Some k"
    and change: "\<And>d x y. unpack_account cd d = Inr x \<Longrightarrow> f x = Inr y \<longleftrightarrow> change x y"
  shows "update_registry_account cd accs a f = Inr accs' \<longleftrightarrow> rewritten k cd change a accs accs'"
proof (cases "registry_kind_of (ac_data a) = Some k")
  case True
  then have l: "length (ac_data a) < 2 ^ 64" by (auto simp: registry_kind_of_def split: if_splits)
  have kd: "\<And>d x. unpack_account cd d = Inr x \<Longrightarrow> registry_kind_of d = Some k" using kind by blast
  have to: "\<And>d x y. unpack_account cd d = Inr x \<Longrightarrow> f x = Inr y \<Longrightarrow> change x y"
    and from_change: "\<And>d x y. unpack_account cd d = Inr x \<Longrightarrow> change x y \<Longrightarrow> f x = Inr y" using change by blast+
  show ?thesis unfolding update_run [OF assms(1) l] rewritten_def put_data_def using True kd to from_change by blast
next
  case False
  then have "unpack_account cd (ac_data a) \<noteq> Inr x" for x using kind by blast
  then have "update_registry_account cd accs a f \<noteq> Inr accs'"
    by (auto simp: update_registry_account_def unpack_mut_def res_simps)
  then show ?thesis using False by (simp add: rewritten_def)
qed

lemmas registrar_rewrites = update_rewrites [OF registrar_pack.packing_axioms registry_kind_unpacks(1)]
lemmas entity_rewrites = update_rewrites [OF entity_pack.packing_axioms registry_kind_unpacks(2)]
lemmas member_rewrites = update_rewrites [OF member_pack.packing_axioms registry_kind_unpacks(3)]
lemmas registry_handlers = run_registry_def registry_initialize_def register_capability_def create_entity_def
  update_entity_def join_entity_def and_then_eq_Inr registry_try_eq_Inr next_accounts_eq_Inr

text \<open>
  Claim C27: what the registry program accepts, and what comes of it, exactly. Initialising rewrites the
  first account, which must be a registrar's bytes, to a registrar without fees; registering a
  capability sets one of the 32 fees of the registrar in the second account; creating and updating
  an entity rewrite the first account, an entity's bytes, creation with the second account's
  address as the leader and only for the kind \<open>Delegated\<close>; joining rewrites a member's bytes, with
  the second account's address as the entity. An account of another kind is refused, no byte
  string is of two kinds, the bytes stay of the kind and length they were, and every other account stays as
  it was. Nothing else is accepted: staking, withdrawing and donating never are.
\<close>

theorem registry_accepts_exactly:
  assumes "registry_formats env"
  shows "run_registry env p accs i = Inr accs' \<longleftrightarrow> registry_outcome i accs accs'"
proof -
  note f = assms [unfolded registry_formats_def]
  show ?thesis
  proof (cases i)
    case (RegistryInitialize a t)
    have "update_registry_account registrar_format accs (accs ! 0) (\<lambda>r. Inr (registrar_initialized a t r)) = Inr accs' \<longleftrightarrow>
        rewritten RegistrarAccount registrar_format (\<lambda>_ r. r = \<lparr>rg_initialized = True, rg_authority = a,
          rg_capabilities_fees_bps = replicate 32 0, rg_withdrawal_timelock = t\<rparr>) (accs ! 0) accs accs'"
      by (rule registrar_rewrites) (auto simp: registrar_initialized_def)
    then show ?thesis unfolding RegistryInitialize using f by (simp add: registry_handlers)
  next
    case (RegisterCapability c fee)
    have "update_registry_account registrar_format accs (accs ! 1) (capability_registered c fee) = Inr accs' \<longleftrightarrow>
        rewritten RegistrarAccount registrar_format (\<lambda>r r'. unat c < 32 \<and> r' = r\<lparr>rg_capabilities_fees_bps :=
          (rg_capabilities_fees_bps r)[unat c := fee]\<rparr>) (accs ! 1) accs accs'"
      by (rule registrar_rewrites) (auto simp: capability_registered_def registrar_fees)
    then show ?thesis unfolding RegisterCapability using f by (auto simp: registry_handlers rewritten_def)
  next
    case (CreateEntity c k)
    have "update_registry_account entity_format accs (accs ! 0)
          (\<lambda>e. Inr (entity_created (ac_key (accs ! 1)) c Delegated e)) = Inr accs' \<longleftrightarrow>
        rewritten EntityAccount entity_format (\<lambda>_ e. e = \<lparr>en_initialized = True, en_leader = ac_key (accs ! 1), en_amount = 0,
          en_mega_amount = 0, en_capabilities = c, en_stake_kind = Delegated\<rparr>) (accs ! 0) accs accs'"
      by (rule entity_rewrites) (auto simp: entity_created_def)
    then show ?thesis unfolding CreateEntity using f
      by (auto simp: registry_handlers create_entity_access_def guard_def)
  next
    case (UpdateEntity l c)
    have "update_registry_account entity_format accs (accs ! 0) (\<lambda>e. Inr (e\<lparr>en_leader := l, en_capabilities := c\<rparr>)) = Inr accs' \<longleftrightarrow>
        rewritten EntityAccount entity_format (\<lambda>e e'. e' = \<lparr>en_initialized = en_initialized e, en_leader = l,
          en_amount = en_amount e, en_mega_amount = en_mega_amount e, en_capabilities = c,
          en_stake_kind = en_stake_kind e\<rparr>) (accs ! 0) accs accs'"
      by (rule entity_rewrites) auto
    then show ?thesis unfolding UpdateEntity using f by (simp add: registry_handlers)
  next
    case (JoinEntity b d)
    have "update_registry_account member_format accs (accs ! 0)
          (\<lambda>m. Inr (member_joined (ac_key (accs ! 1)) b d m)) = Inr accs' \<longleftrightarrow>
        rewritten MemberAccount member_format (\<lambda>_ m. m = \<lparr>mb_initialized = True, mb_entity = ac_key (accs ! 1),
          mb_beneficiary = b, mb_delegate = d, mb_amount = 0, mb_mega_amount = 0\<rparr>) (accs ! 0) accs accs'"
      by (rule member_rewrites) (auto simp: member_joined_def)
    then show ?thesis unfolding JoinEntity using f by (simp add: registry_handlers)
  qed (simp_all add: run_registry_def)
qed

subsection \<open>Nobody is checked\<close>

text \<open>What an instruction can see of accounts, and the same for a result.\<close>

definition seen :: "acct list \<Rightarrow> (aligned \<times> u8 list) list" where
  "seen accs = map (\<lambda>a. (ac_key a, ac_data a)) accs"

definition seen_result :: "registry_fault + acct list \<Rightarrow> registry_fault + (aligned \<times> u8 list) list" where
  "seen_result r = and_then r (\<lambda>accs. Inr (seen accs))"

lemma seen_length: "seen accs = seen accs2 \<Longrightarrow> length accs = length accs2"
  unfolding seen_def by (drule arg_cong [where f = length]) simp

lemma seen_nth:
  assumes "seen accs = seen accs2" "j < length accs"
  shows "ac_key (accs ! j) = ac_key (accs2 ! j)" "ac_data (accs ! j) = ac_data (accs2 ! j)"
proof -
  have l: "j < length accs2" using assms(2) seen_length [OF assms(1)] by linarith
  have "seen accs ! j = seen accs2 ! j" by (rule arg_cong [OF assms(1)])
  then have eq: "(ac_key (accs ! j), ac_data (accs ! j)) = (ac_key (accs2 ! j), ac_data (accs2 ! j))"
    unfolding seen_def nth_map [OF assms(2)] nth_map [OF l] .
  show "ac_key (accs ! j) = ac_key (accs2 ! j)" using arg_cong [OF eq, of fst] unfolding fst_conv .
  show "ac_data (accs ! j) = ac_data (accs2 ! j)" using arg_cong [OF eq, of snd] unfolding snd_conv .
qed

lemma seen_put_data: "seen (put_data k d accs) = map (\<lambda>(x, y). if x = k then (x, d) else (x, y)) (seen accs)"
  by (simp add: seen_def put_data_def)

lemma seen_update:
  assumes "seen accs = seen accs2" "2 \<le> length accs" "j < 2"
  shows "seen_result (update_registry_account cd accs (accs ! j) f) =
    seen_result (update_registry_account cd accs2 (accs2 ! j) f)"
proof -
  have "\<And>k d. seen (put_data k d accs) = seen (put_data k d accs2)" using assms(1) by (simp add: seen_put_data)
  moreover have "j < length accs" using assms(2,3) by simp
  note at = seen_nth [OF assms(1) this]
  ultimately show ?thesis unfolding update_registry_account_def seen_result_def at
    by (simp add: and_then_assoc split_def)
qed

lemma seen_next_accounts:
  assumes "seen accs = seen accs2"
    and "n \<le> length accs \<Longrightarrow> seen_result r = seen_result r2"
  shows "seen_result (and_then (registry_try (next_accounts n accs)) (\<lambda>_. r)) =
    seen_result (and_then (registry_try (next_accounts n accs2)) (\<lambda>_. r2))"
  using assms(2) seen_length [OF assms(1)] by (simp add: next_accounts_def guard_def seen_result_def)

text \<open>
  Claim C26: the registry program checks nobody. What an instruction does to the data of the
  accounts, and how it fails, depends on their addresses and data only: neither on the identity
  of the program, nor on who owns the accounts, nor on who has signed.
\<close>

theorem registry_checks_nobody:
  assumes "seen accs = seen accs2"
  shows "seen_result (run_registry env p accs i) = seen_result (run_registry env p2 accs2 i)"
proof (cases i)
  case (RegistryInitialize a t)
  show ?thesis unfolding RegistryInitialize run_registry_def registry_initialize_def registry_instruction.case
    by (rule seen_next_accounts [OF assms seen_update [OF assms]]) simp_all
next
  case (RegisterCapability c fee)
  show ?thesis unfolding RegisterCapability run_registry_def register_capability_def registry_instruction.case
    by (rule seen_next_accounts [OF assms seen_update [OF assms]]) simp_all
next
  case (UpdateEntity l c)
  show ?thesis unfolding UpdateEntity run_registry_def update_entity_def registry_instruction.case
    by (rule seen_next_accounts [OF assms seen_update [OF assms]]) simp_all
next
  case (CreateEntity c k)
  have access: "seen_result (and_then (create_entity_access k) (\<lambda>_. r)) = seen_result (and_then (create_entity_access k) (\<lambda>_. r2))"
    if "seen_result r = seen_result r2" for r r2
    using that by (simp add: create_entity_access_def guard_def)
  show ?thesis unfolding CreateEntity run_registry_def create_entity_def registry_instruction.case
  proof (rule seen_next_accounts [OF assms access])
    assume l: "3 \<le> length accs"
    then have "1 < length accs" "2 \<le> length accs" by linarith+
    from seen_update [OF assms this(2), of 0] seen_nth(1) [OF assms this(1)]
    show "seen_result (update_registry_account (re_entity env) accs (accs ! 0)
          (\<lambda>e. Inr (entity_created (ac_key (accs ! 1)) c k e))) =
        seen_result (update_registry_account (re_entity env) accs2 (accs2 ! 0)
          (\<lambda>e. Inr (entity_created (ac_key (accs2 ! 1)) c k e)))" by (metis zero_less_numeral)
  qed
next
  case (JoinEntity b d)
  show ?thesis unfolding JoinEntity run_registry_def join_entity_def registry_instruction.case
  proof (rule seen_next_accounts [OF assms])
    assume l: "3 \<le> length accs"
    then have "1 < length accs" "2 \<le> length accs" by linarith+
    from seen_update [OF assms this(2), of 0] seen_nth(1) [OF assms this(1)]
    show "seen_result (update_registry_account (re_member env) accs (accs ! 0)
          (\<lambda>m. Inr (member_joined (ac_key (accs ! 1)) b d m))) =
        seen_result (update_registry_account (re_member env) accs2 (accs2 ! 0)
          (\<lambda>m. Inr (member_joined (ac_key (accs2 ! 1)) b d m)))" by (metis zero_less_numeral)
  qed
qed (simp_all add: run_registry_def seen_result_def)

subsection \<open>Capabilities and stakes\<close>

lemma next_free_from_run:
  assumes "next_free_from idx cs = Some i"
  shows "\<exists>j<length cs. i = of_nat (idx + j) \<and> cs ! j = 0 \<and> (\<forall>k<j. cs ! k \<noteq> 0)"
  using assms
proof (induction cs arbitrary: idx)
  case (Cons c cs)
  show ?case
  proof (cases "c = 0")
    case True
    then show ?thesis using Cons.prems by (intro exI [of _ 0]) simp
  next
    case False
    then have "next_free_from (Suc idx) cs = Some i" using Cons.prems by simp
    from Cons.IH [OF this] obtain j where "j < length cs" "i = of_nat (Suc idx + j)" "cs ! j = 0" "\<forall>k<j. cs ! k \<noteq> 0"
      by blast
    then show ?thesis using False by (intro exI [of _ "Suc j"]) (auto simp: less_Suc_eq_0_disj)
  qed
qed simp

text \<open>
  The id offered next is that of the lowest slot without a fee, and registering a fee under it
  succeeds and takes that slot alone.
\<close>

lemma next_capability_registers:
  assumes "length (rg_capabilities_fees_bps r) = 32" "next_free_capability_id r = Some i"
  shows "unat i < 32" "rg_capabilities_fees_bps r ! unat i = 0" "\<forall>j<unat i. rg_capabilities_fees_bps r ! j \<noteq> 0"
    "capability_registered i fee r =
      Inr (r\<lparr>rg_capabilities_fees_bps := (rg_capabilities_fees_bps r)[unat i := fee]\<rparr>)"
proof -
  obtain j where j: "j < 32" "i = of_nat j" "rg_capabilities_fees_bps r ! j = 0"
    "\<forall>k<j. rg_capabilities_fees_bps r ! k \<noteq> 0"
    using next_free_from_run [of 0 "rg_capabilities_fees_bps r" i] assms by (auto simp: next_free_capability_id_def)
  then have "unat i = j" by (simp add: unsigned_of_nat take_bit_nat_eq_self)
  then show "unat i < 32" "rg_capabilities_fees_bps r ! unat i = 0" "\<forall>j<unat i. rg_capabilities_fees_bps r ! j \<noteq> 0"
    "capability_registered i fee r =
      Inr (r\<lparr>rg_capabilities_fees_bps := (rg_capabilities_fees_bps r)[unat i := fee]\<rparr>)"
    using j assms(1) by (simp_all add: capability_registered_def)
qed

text \<open>Two stakes of one member: the entity has both, the member's record only the second.\<close>

lemma stake_forgets:
  assumes "stake_transition a False e m = (e1, m1)" "stake_transition b False e1 m1 = (e2, m2)"
  shows "en_amount e2 = en_amount e + a + b" "mb_amount m2 = b"
  using assms by (auto simp: stake_transition_def)

text \<open>Two stakes of mega tokens are added up in both.\<close>

lemma mega_stake_adds:
  assumes "stake_transition a True e m = (e1, m1)"
  shows "en_mega_amount e1 = en_mega_amount e + a" "mb_mega_amount m1 = mb_mega_amount m + a"
  using assms by (auto simp: stake_transition_def)

subsection \<open>A registry\<close>

definition sample_entity :: entity where
  "sample_entity = \<lparr>en_initialized = True, en_leader = (1, 0, 0, 0), en_amount = 5, en_mega_amount = 0,
     en_capabilities = 0, en_stake_kind = Delegated\<rparr>"

definition sample_registry_accounts :: "bool \<Rightarrow> acct list" where
  "sample_registry_accounts has_signed =
     [\<lparr>ac_key = (7, 0, 0, 0), ac_owner = (9, 0, 0, 0), ac_is_signer = False, ac_is_writable = True,
       ac_lamports = 1, ac_data = the (cd_encode entity_format sample_entity)\<rparr>,
      \<lparr>ac_key = (1, 0, 0, 0), ac_owner = (0, 0, 0, 0), ac_is_signer = has_signed, ac_is_writable = True,
       ac_lamports = 1, ac_data = []\<rparr>]"

lemma entity_encodes: "\<exists>bs. cd_encode entity_format e = Some bs"
  by (simp add: entity_format_def map_codec_def pair_codec_def bool_codec_def key_codec_def u64_codec_def
      u32_codec_def kind_codec_def)

lemma sample_update_run:
  assumes "re_entity env = entity_format"
  shows "\<exists>accs'. run_registry env p (sample_registry_accounts has_signed) (UpdateEntity (6, 0, 0, 0) 1) = Inr accs'"
proof -
  let ?accs = "sample_registry_accounts has_signed" and ?d = "the (cd_encode entity_format sample_entity)"
  let ?e = "sample_entity\<lparr>en_leader := (6, 0, 0, 0), en_capabilities := 1\<rparr>"
  obtain bs where "cd_encode entity_format sample_entity = Some bs" using entity_encodes by blast
  then have d: "unpack_account entity_format ?d = Inr sample_entity"
    by (simp add: entity_pack.unpack_exact_bytes)
  obtain bs' where "cd_encode entity_format ?e = Some bs'" using entity_encodes by blast
  then have d': "unpack_account entity_format bs' = Inr ?e" by (simp add: entity_pack.unpack_exact_bytes)
  have len: "length ?d = 57" "length bs' = 57"
    using reads_unpack [OF entity_reads, of ?d] reads_unpack [OF entity_reads, of bs'] d d' by auto
  have "update_registry_account entity_format ?accs (?accs ! 0)
      (\<lambda>e. Inr (e\<lparr>en_leader := (6, 0, 0, 0), en_capabilities := 1\<rparr>)) = Inr (put_data (ac_key (?accs ! 0)) bs' ?accs)"
    using d d' len by (subst update_run [OF entity_pack.packing_axioms]) (auto simp: sample_registry_accounts_def)
  then show ?thesis using assms
    by (simp add: run_registry_def update_entity_def next_accounts_def sample_registry_accounts_def)
qed

theorem registry_accepts_exactly_witness:
  "\<exists>env accs'. run_registry env (9, 0, 0, 0) (sample_registry_accounts True) (UpdateEntity (6, 0, 0, 0) 1) = Inr accs' \<and>
     registry_outcome (UpdateEntity (6, 0, 0, 0) 1) (sample_registry_accounts True) accs' \<and>
     run_registry env (9, 0, 0, 0) (sample_registry_accounts True) (RegistryInitialize (6, 0, 0, 0) 1) \<noteq> Inr accs'"
proof -
  define env :: registry_env where
    "env = (undefined :: registry_env)\<lparr>re_registrar := registrar_format, re_entity := entity_format, re_member := member_format\<rparr>"
  have f: "registry_formats env" "re_entity env = entity_format" by (simp_all add: registry_formats_def env_def)
  note exact = registry_accepts_exactly [OF f(1), of "(9, 0, 0, 0)" "sample_registry_accounts True"]
  obtain accs' where r: "run_registry env (9, 0, 0, 0) (sample_registry_accounts True) (UpdateEntity (6, 0, 0, 0) 1) = Inr accs'"
    using sample_update_run [OF f(2)] by blast
  then have o: "registry_outcome (UpdateEntity (6, 0, 0, 0) 1) (sample_registry_accounts True) accs'" using exact by blast
  then have "\<not> registry_outcome (RegistryInitialize (6, 0, 0, 0) 1) (sample_registry_accounts True) accs'"
    by (auto simp: rewritten_def)
  then show ?thesis using r o exact by blast
qed

theorem registry_checks_nobody_witness:
  "\<exists>env accs'. run_registry env (9, 0, 0, 0) (sample_registry_accounts False) (UpdateEntity (6, 0, 0, 0) 1) = Inr accs'
     \<and> seen_result (run_registry env (9, 0, 0, 0) (sample_registry_accounts True) (UpdateEntity (6, 0, 0, 0) 1)) = Inr (seen accs')"
proof -
  define env :: registry_env where "env = (undefined :: registry_env)\<lparr>re_entity := entity_format\<rparr>"
  have f: "re_entity env = entity_format" by (simp add: env_def)
  obtain accs' where r: "run_registry env (9, 0, 0, 0) (sample_registry_accounts False) (UpdateEntity (6, 0, 0, 0) 1) = Inr accs'"
    using sample_update_run [OF f] by blast
  have "seen (sample_registry_accounts True) = seen (sample_registry_accounts False)"
    by (simp add: seen_def sample_registry_accounts_def)
  from registry_checks_nobody [OF this, of env "(9, 0, 0, 0)" "UpdateEntity (6, 0, 0, 0) 1" "(9, 0, 0, 0)"]
  have "seen_result (run_registry env (9, 0, 0, 0) (sample_registry_accounts True) (UpdateEntity (6, 0, 0, 0) 1)) = Inr (seen accs')"
    unfolding r by (simp add: seen_result_def)
  then show ?thesis using r by blast
qed

end
