(* ===== verification/TokenInstruction.thy ===== *)
theory TokenInstruction
  imports Runtime
begin

text \<open>
  The token program's instructions as the crank sends them (\<open>crank/src/token_instruction.rs\<close>): the
  byte form with its hand-written encoder and decoder, and the builders with the accounts each
  instruction names.
\<close>

subsection \<open>Instructions as bytes\<close>

definition MIN_SIGNERS :: nat where "MIN_SIGNERS = 1"
definition MAX_SIGNERS :: nat where "MAX_SIGNERS = 11"

datatype token_instruction =
    InitializeMint u64 u8  \<comment> \<open>amount, decimals\<close>
  | InitializeAccount
  | InitializeMultisig u8
  | Transfer u64
  | Approve u64
  | Revoke
  | SetOwner
  | MintTo u64
  | Burn u64
  | CloseAccount

text \<open>\<open>size_of::<TokenInstruction>()\<close>: a \<open>repr(C)\<close> enum is its tag in eight aligned bytes and the largest payload.\<close>

definition TOKEN_INSTRUCTION_SIZE :: nat where "TOKEN_INSTRUCTION_SIZE = 24"

definition unpack_amount :: "u8 list \<Rightarrow> u32 \<Rightarrow> (u64 \<Rightarrow> token_instruction) \<Rightarrow> program_error + token_instruction" where
  "unpack_amount input e f =
     (if length input < 1 + 8 then Inl (Custom e) else Inr (f (u64_of_le (cut 1 8 input))))"

definition unpack_token :: "u8 list \<Rightarrow> program_error + token_instruction" where
  "unpack_token input =
     (if length input < 1 then Inl (Custom 0)
      else let tag = input ! 0 in
      if tag = 0 then
        if length input < 1 + 8 + 1 then Inl (Custom 1)
        else Inr (InitializeMint (u64_of_le (cut 1 8 input)) (input ! (1 + 8)))
      else if tag = 1 then Inr InitializeAccount
      else if tag = 2 then
        if length input < 1 + 1 then Inl (Custom 2) else Inr (InitializeMultisig (input ! 1))
      else if tag = 3 then unpack_amount input 3 Transfer
      else if tag = 4 then unpack_amount input 4 Approve
      else if tag = 5 then Inr Revoke
      else if tag = 6 then Inr SetOwner
      else if tag = 7 then unpack_amount input 5 MintTo
      else if tag = 8 then unpack_amount input 6 Burn
      else if tag = 9 then Inr CloseAccount
      else Inl (Custom 7))"

text \<open>Writing through a pointer into the buffer.\<close>

definition write_at :: "nat \<Rightarrow> u8 list \<Rightarrow> u8 list \<Rightarrow> u8 list" where
  "write_at i bs output = take i output @ bs @ drop (i + length bs) output"

definition pack_token :: "token_instruction \<Rightarrow> u8 list" where
  "pack_token i =
     (let output = replicate TOKEN_INSTRUCTION_SIZE 0 in
      case i of
        InitializeMint amount decimals \<Rightarrow> write_at (1 + 8) [decimals] (write_at 1 (u64_to_le amount) (output[0 := 0]))
      | InitializeAccount \<Rightarrow> output[0 := 1]
      | InitializeMultisig m \<Rightarrow> write_at 1 [m] (output[0 := 2])
      | Transfer amount \<Rightarrow> write_at 1 (u64_to_le amount) (output[0 := 3])
      | Approve amount \<Rightarrow> write_at 1 (u64_to_le amount) (output[0 := 4])
      | Revoke \<Rightarrow> output[0 := 5]
      | SetOwner \<Rightarrow> output[0 := 6]
      | MintTo amount \<Rightarrow> write_at 1 (u64_to_le amount) (output[0 := 7])
      | Burn amount \<Rightarrow> write_at 1 (u64_to_le amount) (output[0 := 8])
      | CloseAccount \<Rightarrow> output[0 := 9])"

subsection \<open>Builders\<close>

definition meta :: "aligned \<Rightarrow> bool \<Rightarrow> account_meta" where
  "meta k signer = \<lparr>am_pubkey = k, am_is_signer = signer, am_is_writable = True\<rparr>"

definition meta_readonly :: "aligned \<Rightarrow> bool \<Rightarrow> account_meta" where
  "meta_readonly k signer = \<lparr>am_pubkey = k, am_is_signer = signer, am_is_writable = False\<rparr>"

definition token_ix :: "aligned \<Rightarrow> account_meta list \<Rightarrow> token_instruction \<Rightarrow> instruction" where
  "token_ix token_program_id accounts i =
     \<lparr>ix_program_id = token_program_id, ix_accounts = accounts, ix_data = pack_token i\<rparr>"

text \<open>The authority, who signs alone or not at all, and the signers of a multisignature account.\<close>

definition authority_metas :: "aligned \<Rightarrow> aligned list \<Rightarrow> account_meta list" where
  "authority_metas authority_pubkey signer_pubkeys =
     meta_readonly authority_pubkey (signer_pubkeys = []) # map (\<lambda>k. meta k True) signer_pubkeys"

definition initialize_mint ::
  "aligned \<Rightarrow> aligned \<Rightarrow> aligned option \<Rightarrow> aligned option \<Rightarrow> u64 \<Rightarrow> u8 \<Rightarrow> program_error + instruction" where
  "initialize_mint token_program_id mint_pubkey account_pubkey owner_pubkey amount decimals =
     and_then (if amount \<noteq> 0
       then case account_pubkey of
           Some k \<Rightarrow> Inr [meta mint_pubkey False, meta k False]
         | None \<Rightarrow> Inl NotEnoughAccountKeys
       else Inr [meta mint_pubkey False]) (\<lambda>accounts.
     and_then (case owner_pubkey of
         Some k \<Rightarrow> Inr (accounts @ [meta_readonly k False])
       | None \<Rightarrow> if amount = 0 then Inl (Custom 8) else Inr accounts) (\<lambda>accounts'.
     Inr (token_ix token_program_id accounts' (InitializeMint amount decimals))))"

definition initialize_account :: "aligned \<Rightarrow> aligned \<Rightarrow> aligned \<Rightarrow> aligned \<Rightarrow> instruction" where
  "initialize_account token_program_id account_pubkey mint_pubkey owner_pubkey =
     token_ix token_program_id
       [meta account_pubkey False, meta_readonly mint_pubkey False, meta_readonly owner_pubkey False]
       InitializeAccount"

definition is_valid_signer_index :: "nat \<Rightarrow> bool" where
  "is_valid_signer_index index \<longleftrightarrow> \<not> (index < MIN_SIGNERS \<or> MAX_SIGNERS < index)"

definition MissingRequiredSignature :: program_error where
  "MissingRequiredSignature = OtherProgramError 7"

definition initialize_multisig :: "aligned \<Rightarrow> aligned \<Rightarrow> aligned list \<Rightarrow> u8 \<Rightarrow> program_error + instruction" where
  "initialize_multisig token_program_id multisig_pubkey signer_pubkeys m =
     (if \<not> is_valid_signer_index (unat m) \<or> \<not> is_valid_signer_index (length signer_pubkeys) \<or>
        length signer_pubkeys < unat m
      then Inl MissingRequiredSignature
      else Inr (token_ix token_program_id
        (meta multisig_pubkey False # map (\<lambda>k. meta_readonly k False) signer_pubkeys) (InitializeMultisig m)))"

definition transfer_ix :: "aligned \<Rightarrow> aligned \<Rightarrow> aligned \<Rightarrow> aligned \<Rightarrow> aligned list \<Rightarrow> u64 \<Rightarrow> instruction" where
  "transfer_ix token_program_id source_pubkey destination_pubkey authority_pubkey signer_pubkeys amount =
     token_ix token_program_id
       ([meta source_pubkey False, meta destination_pubkey False] @ authority_metas authority_pubkey signer_pubkeys)
       (Transfer amount)"

definition approve_ix :: "aligned \<Rightarrow> aligned \<Rightarrow> aligned \<Rightarrow> aligned \<Rightarrow> aligned list \<Rightarrow> u64 \<Rightarrow> instruction" where
  "approve_ix token_program_id source_pubkey delegate_pubkey owner_pubkey signer_pubkeys amount =
     token_ix token_program_id
       ([meta_readonly source_pubkey False, meta delegate_pubkey False] @ authority_metas owner_pubkey signer_pubkeys)
       (Approve amount)"

definition revoke_ix :: "aligned \<Rightarrow> aligned \<Rightarrow> aligned \<Rightarrow> aligned list \<Rightarrow> instruction" where
  "revoke_ix token_program_id source_pubkey owner_pubkey signer_pubkeys =
     token_ix token_program_id
       (meta_readonly source_pubkey False # authority_metas owner_pubkey signer_pubkeys) Revoke"

definition set_owner_ix :: "aligned \<Rightarrow> aligned \<Rightarrow> aligned \<Rightarrow> aligned \<Rightarrow> aligned list \<Rightarrow> instruction" where
  "set_owner_ix token_program_id owned_pubkey new_owner_pubkey owner_pubkey signer_pubkeys =
     token_ix token_program_id
       ([meta owned_pubkey False, meta_readonly new_owner_pubkey False] @ authority_metas owner_pubkey signer_pubkeys)
       SetOwner"

definition mint_to_ix :: "aligned \<Rightarrow> aligned \<Rightarrow> aligned \<Rightarrow> aligned \<Rightarrow> aligned list \<Rightarrow> u64 \<Rightarrow> instruction" where
  "mint_to_ix token_program_id mint_pubkey account_pubkey owner_pubkey signer_pubkeys amount =
     token_ix token_program_id
       ([meta mint_pubkey False, meta account_pubkey False] @ authority_metas owner_pubkey signer_pubkeys)
       (MintTo amount)"

definition burn_ix :: "aligned \<Rightarrow> aligned \<Rightarrow> aligned \<Rightarrow> aligned list \<Rightarrow> u64 \<Rightarrow> instruction" where
  "burn_ix token_program_id account_pubkey authority_pubkey signer_pubkeys amount =
     token_ix token_program_id (meta account_pubkey False # authority_metas authority_pubkey signer_pubkeys)
       (Burn amount)"

definition close_account_ix :: "aligned \<Rightarrow> aligned \<Rightarrow> aligned \<Rightarrow> aligned \<Rightarrow> aligned list \<Rightarrow> instruction" where
  "close_account_ix token_program_id account_pubkey dest_pubkey authority_pubkey signer_pubkeys =
     token_ix token_program_id
       ([meta account_pubkey False, meta dest_pubkey False] @ authority_metas authority_pubkey signer_pubkeys)
       CloseAccount"

subsection \<open>The wire form\<close>

text \<open>The bytes that carry an instruction; an encoded one is filled up with zeros.\<close>

primrec token_wire :: "token_instruction \<Rightarrow> u8 list" where
  "token_wire (InitializeMint amount decimals) = 0 # u64_to_le amount @ [decimals]"
| "token_wire InitializeAccount = [1]"
| "token_wire (InitializeMultisig m) = [2, m]"
| "token_wire (Transfer amount) = 3 # u64_to_le amount"
| "token_wire (Approve amount) = 4 # u64_to_le amount"
| "token_wire Revoke = [5]"
| "token_wire SetOwner = [6]"
| "token_wire (MintTo amount) = 7 # u64_to_le amount"
| "token_wire (Burn amount) = 8 # u64_to_le amount"
| "token_wire CloseAccount = [9]"

lemma split_amount: "8 \<le> length d \<Longrightarrow> d = u64_to_le (u64_of_le (cut 0 8 d)) @ drop 8 d"
  using split_cut [of 0 8 d] by (simp add: u64_to_of_le)

lemma amount_wire:
  "unpack_amount (t # d) e f = Inr i \<longleftrightarrow> (\<exists>a rest. i = f a \<and> d = u64_to_le a @ rest)"
proof
  assume "unpack_amount (t # d) e f = Inr i"
  then have "8 \<le> length d" "i = f (u64_of_le (cut 0 8 d))"
    by (auto simp: unpack_amount_def split: if_splits)
  then show "\<exists>a rest. i = f a \<and> d = u64_to_le a @ rest" using split_amount by blast
next
  assume "\<exists>a rest. i = f a \<and> d = u64_to_le a @ rest"
  then show "unpack_amount (t # d) e f = Inr i" by (auto simp: unpack_amount_def cut_def)
qed

lemma unpack_token_wire: "unpack_token (token_wire i @ rest) = Inr i"
  by (cases i) (simp_all add: unpack_token_def unpack_amount_def cut_def nth_append)

lemma unpack_token_sound: "unpack_token d = Inr i \<Longrightarrow> \<exists>rest. d = token_wire i @ rest"
proof (cases d)
  case (Cons t ds)
  assume run: "unpack_token d = Inr i"
  consider "t = 0" | "t = 1" | "t = 2" | "t \<in> {3, 4, 7, 8}" | "t = 5" | "t = 6" | "t = 9"
    using run Cons by (auto simp: unpack_token_def Let_def split: if_splits)
  then show ?thesis
  proof cases
    case 1
    then have l: "9 \<le> length ds" and i: "i = InitializeMint (u64_of_le (cut 0 8 ds)) (ds ! 8)"
      using run Cons by (auto simp: unpack_token_def split: if_splits)
    have "ds = u64_to_le (u64_of_le (cut 0 8 ds)) @ drop 8 ds" using l by (intro split_amount) simp
    moreover have "drop 8 ds = ds ! 8 # drop 9 ds" using l by (simp add: Cons_nth_drop_Suc [symmetric])
    ultimately have "ds = u64_to_le (u64_of_le (cut 0 8 ds)) @ ds ! 8 # drop 9 ds" by simp
    then have "d = token_wire i @ drop 9 ds" using 1 Cons i by simp
    then show ?thesis by blast
  next
    case 3
    then show ?thesis using run Cons by (cases ds) (auto simp: unpack_token_def split: if_splits)
  next
    case 4
    then show ?thesis using run Cons by (auto simp: unpack_token_def amount_wire Let_def)
  qed (use run Cons in \<open>simp_all add: unpack_token_def Let_def\<close>)
qed (simp add: unpack_token_def)

lemma pack_token_wire: "pack_token i = token_wire i @ replicate (24 - length (token_wire i)) 0"
proof -
  have r: "replicate 24 0 = (0 :: u8) # replicate 23 0" by (simp add: numeral_eq_Suc)
  show ?thesis
    by (cases i) (simp_all add: pack_token_def TOKEN_INSTRUCTION_SIZE_def write_at_def r)
qed

text \<open>
  Claim C39: the decoder accepts exactly the byte strings that begin with the wire form of an
  instruction, whatever follows, and reports one of eight numbered errors on all others; the
  encoder writes the wire form into 24 bytes, filled up with zeros, and the decoder reads it back.
\<close>

theorem token_instruction_wire:
  "(unpack_token d = Inr i \<longleftrightarrow> (\<exists>rest. d = token_wire i @ rest)) \<and>
   ((\<exists>j. unpack_token d = Inr j) \<or> (\<exists>n. unpack_token d = Inl (Custom n) \<and> n \<le> 7)) \<and>
   pack_token i = token_wire i @ replicate (24 - length (token_wire i)) 0 \<and> length (pack_token i) = 24 \<and>
   unpack_token (pack_token i) = Inr i"
proof (intro conjI)
  show "unpack_token d = Inr i \<longleftrightarrow> (\<exists>rest. d = token_wire i @ rest)"
    using unpack_token_sound unpack_token_wire by blast
  show "(\<exists>j. unpack_token d = Inr j) \<or> (\<exists>n. unpack_token d = Inl (Custom n) \<and> n \<le> 7)"
    by (auto simp: unpack_token_def unpack_amount_def Let_def)
  show "length (pack_token i) = 24" unfolding pack_token_wire by (cases i) simp_all
  show "unpack_token (pack_token i) = Inr i" unfolding pack_token_wire by (rule unpack_token_wire)
qed (rule pack_token_wire)

subsection \<open>Who signs\<close>

definition signer_keys :: "instruction \<Rightarrow> aligned set" where
  "signer_keys ix = set (map am_pubkey (filter am_is_signer (ix_accounts ix)))"

text \<open>What a built instruction is for the token program: its decoded operation and its signers.\<close>

definition built :: "instruction \<Rightarrow> aligned \<Rightarrow> token_instruction \<Rightarrow> aligned \<Rightarrow> aligned list \<Rightarrow> bool" where
  "built ix program i authority signers \<longleftrightarrow> ix_program_id ix = program \<and> unpack_token (ix_data ix) = Inr i \<and>
     signer_keys ix = (if signers = [] then {authority} else set signers)"

lemma meta_simps [simp]:
  "am_pubkey (meta k b) = k" "am_is_signer (meta k b) = b"
  "am_pubkey (meta_readonly k b) = k" "am_is_signer (meta_readonly k b) = b"
  by (simp_all add: meta_def meta_readonly_def)

lemma built_token_ix:
  assumes "\<forall>m\<in>set metas. \<not> am_is_signer m"
  shows "built (token_ix program (metas @ authority_metas authority signers) i) program i authority signers"
proof -
  have "filter am_is_signer metas = []" using assms by (simp add: filter_empty_conv)
  then show ?thesis using unpack_token_wire pack_token_wire
    by (simp add: built_def token_ix_def signer_keys_def authority_metas_def filter_map comp_def image_image)
qed

text \<open>
  Every builder of an instruction that needs an authority addresses the given program,
  carries data that decodes to the operation with its amount, and is signed by the authority
  alone, or, for a multisignature authority, by exactly the given signers. A multisignature
  account is set up for between one and eleven signers of whom at least one and at most all
  are required, and needs no signature.
\<close>

theorem token_builders_sign:
  "built (transfer_ix p source dest authority signers amount) p (Transfer amount) authority signers \<and>
   built (approve_ix p source delegate authority signers amount) p (Approve amount) authority signers \<and>
   built (revoke_ix p source authority signers) p Revoke authority signers \<and>
   built (set_owner_ix p owned new_owner authority signers) p SetOwner authority signers \<and>
   built (mint_to_ix p mint account authority signers amount) p (MintTo amount) authority signers \<and>
   built (burn_ix p account authority signers amount) p (Burn amount) authority signers \<and>
   built (close_account_ix p account dest authority signers) p CloseAccount authority signers \<and>
   initialize_multisig p multisig signers m =
     (if 1 \<le> unat m \<and> unat m \<le> length signers \<and> length signers \<le> 11
      then Inr (token_ix p (meta multisig False # map (\<lambda>k. meta_readonly k False) signers) (InitializeMultisig m))
      else Inl MissingRequiredSignature) \<and>
   signer_keys (token_ix p (meta multisig False # map (\<lambda>k. meta_readonly k False) signers) (InitializeMultisig m)) = {}"
proof (intro conjI)
  show "built (revoke_ix p source authority signers) p Revoke authority signers"
    using built_token_ix [of "[meta_readonly source False]"] by (simp add: revoke_ix_def)
  show "built (burn_ix p account authority signers amount) p (Burn amount) authority signers"
    using built_token_ix [of "[meta account False]"] by (simp add: burn_ix_def)
  show "initialize_multisig p multisig signers m =
     (if 1 \<le> unat m \<and> unat m \<le> length signers \<and> length signers \<le> 11
      then Inr (token_ix p (meta multisig False # map (\<lambda>k. meta_readonly k False) signers) (InitializeMultisig m))
      else Inl MissingRequiredSignature)"
    by (auto simp: initialize_multisig_def is_valid_signer_index_def MIN_SIGNERS_def MAX_SIGNERS_def)
  show "signer_keys (token_ix p (meta multisig False # map (\<lambda>k. meta_readonly k False) signers) (InitializeMultisig m)) = {}"
    by (simp add: signer_keys_def token_ix_def filter_map comp_def)
qed (simp_all add: transfer_ix_def approve_ix_def set_owner_ix_def mint_to_ix_def close_account_ix_def
    del: append.simps add: built_token_ix)

end
