(* ===== verification/ClientGen.thy ===== *)
theory ClientGen
  imports TokenInstruction
begin

text \<open>
  What every client shares: the methods that the macro of \<open>solana-client-gen\<close> writes for each
  instruction of a program (\<open>codegen/src/lib.rs\<close>, where the macro's name of a method stands for
  the instruction), and the calls of \<open>common/src/client/rpc.rs\<close>.  The cluster behind the RPC
  client and the SDK are a parameter, a \<open>cluster\<close>: it answers from a state of the
  network and takes transactions to a next one.  A key pair is its public key, and a newly
  generated one an argument.  What a call that fails may have sent or printed before is not kept
  with the error.
\<close>

subsection \<open>The cluster and the SDK\<close>

type_synonym signature = "u8 list"

record transaction =
  tx_instructions :: "instruction list"
  tx_payer :: aligned
  tx_signers :: "aligned list"
  tx_recent_blockhash :: aligned

text \<open>An error of the RPC client: the failure of an instruction at its index, or any other.\<close>

datatype rpc_error = InstructionFailed nat program_error | OtherRpcError nat

datatype gen_error = InvalidKeyPairFile string | RpcError rpc_error | RawError string

datatype any_error = AnyRpc rpc_error | AnyProgram program_error | AnyText string

datatype 'e client_fault = ClientErr 'e | ClientPanic

text \<open>What the SDK and the token program's library provide.\<close>

datatype (plugins only: code) sdk = Sdk
  (sdk_sign: "instruction list \<Rightarrow> aligned \<Rightarrow> aligned list \<Rightarrow> aligned \<Rightarrow> transaction option")
    \<comment> \<open>\<open>Transaction::new_signed_with_payer\<close>: instructions, payer, signers, hash; \<open>None\<close> is its panic\<close>
  (sdk_create_account: "aligned \<Rightarrow> aligned \<Rightarrow> u64 \<Rightarrow> u64 \<Rightarrow> aligned \<Rightarrow> instruction")
    \<comment> \<open>from, to, lamports, space, owner\<close>
  (sdk_create_account_with_seed: "aligned \<Rightarrow> aligned \<Rightarrow> aligned \<Rightarrow> string \<Rightarrow> u64 \<Rightarrow> u64 \<Rightarrow> aligned \<Rightarrow> instruction")
    \<comment> \<open>from, to, base, seed, lamports, space, owner\<close>
  (sdk_transfer: "aligned \<Rightarrow> aligned \<Rightarrow> u64 \<Rightarrow> instruction")  \<comment> \<open>from, to, lamports\<close>
  (sdk_create_with_seed: "aligned \<Rightarrow> string \<Rightarrow> aligned \<Rightarrow> program_error + aligned")
  (sdk_find_program_address: "u8 list list \<Rightarrow> aligned \<Rightarrow> (aligned \<times> u8) option")  \<comment> \<open>\<open>None\<close> is its panic\<close>
  (sdk_program_address: "u8 list list \<Rightarrow> aligned \<Rightarrow> program_error + aligned")
  (sdk_read_keypair: "string \<Rightarrow> aligned option")
  (sdk_error_text: "program_error \<Rightarrow> string")
  (sdk_debug_string: "string \<Rightarrow> string")  \<comment> \<open>a string as \<open>{:?}\<close> writes it\<close>
  (sdk_rent_id: aligned)
  (sdk_clock_id: aligned)

datatype (plugins only: code) spl = Spl
  (spl_id: aligned)
  (spl_account_len: nat)
  (spl_mint_len: nat)
  (spl_initialize_account: "aligned \<Rightarrow> aligned \<Rightarrow> aligned \<Rightarrow> aligned \<Rightarrow> program_error + instruction")
    \<comment> \<open>token program, account, mint, owner\<close>
  (spl_initialize_mint: "aligned \<Rightarrow> aligned \<Rightarrow> aligned \<Rightarrow> aligned option \<Rightarrow> u8 \<Rightarrow> program_error + instruction")
    \<comment> \<open>token program, mint, authority, freeze authority, decimals\<close>
  (spl_mint_to: "aligned \<Rightarrow> aligned \<Rightarrow> aligned \<Rightarrow> aligned \<Rightarrow> aligned list \<Rightarrow> u64 \<Rightarrow> program_error + instruction")
    \<comment> \<open>token program, mint, account, authority, signers, amount\<close>
  (spl_holding: "u8 list \<Rightarrow> program_error + token_holding")

datatype (plugins only: code) 'w cluster = Cluster
  (cl_min_balance: "nat \<Rightarrow> 'w \<Rightarrow> rpc_error + u64")  \<comment> \<open>\<open>get_minimum_balance_for_rent_exemption\<close>\<close>
  (cl_recent_blockhash: "'w \<Rightarrow> rpc_error + aligned")
  (cl_account: "aligned \<Rightarrow> 'w \<Rightarrow> rpc_error + u8 list option")  \<comment> \<open>\<open>get_account_with_commitment\<close>, the data\<close>
  (cl_data: "aligned \<Rightarrow> 'w \<Rightarrow> rpc_error + u8 list")  \<comment> \<open>\<open>get_account_data\<close>\<close>
  (cl_slot: "'w \<Rightarrow> rpc_error + u64")
  (cl_send: "transaction \<Rightarrow> 'w \<Rightarrow> rpc_error + (signature \<times> 'w)")  \<comment> \<open>and wait for its confirmation\<close>
  (cl_submit: "transaction \<Rightarrow> 'w \<Rightarrow> rpc_error + (signature \<times> 'w)")  \<comment> \<open>without waiting\<close>
  (cl_simulate: "transaction \<Rightarrow> 'w \<Rightarrow> rpc_error + string option")  \<comment> \<open>the error it ends with\<close>
  (cl_error_text: "rpc_error \<Rightarrow> string")
  (cl_sdk: sdk)
  (cl_spl: spl)

abbreviation "create_account_ix cl \<equiv> sdk_create_account (cl_sdk cl)"
abbreviation "token_program_id cl \<equiv> spl_id (cl_spl cl)"
abbreviation "token_account_len cl \<equiv> spl_account_len (cl_spl cl)"
abbreviation "token_mint_len cl \<equiv> spl_mint_len (cl_spl cl)"

text \<open>\<open>expect\<close>, and the two ways of signing and sending: what an error becomes is an argument.\<close>

definition expect :: "'f + 'a \<Rightarrow> 'e client_fault + 'a" where
  "expect r = map_err (\<lambda>_. ClientPanic) r"

definition client_try :: "('f \<Rightarrow> 'e) \<Rightarrow> 'f + 'a \<Rightarrow> 'e client_fault + 'a" where
  "client_try f r = map_err (\<lambda>x. ClientErr (f x)) r"

primrec fault_into :: "('e \<Rightarrow> 'f) \<Rightarrow> 'e client_fault \<Rightarrow> 'f client_fault" where
  "fault_into f (ClientErr e) = ClientErr (f e)"
| "fault_into f ClientPanic = ClientPanic"

text \<open>\<open>map_err\<close> and \<open>?\<close> on a client's error, and \<open>to_string\<close> of one.\<close>

definition into :: "('e \<Rightarrow> 'f) \<Rightarrow> 'e client_fault + 'a \<Rightarrow> 'f client_fault + 'a" where
  "into f r = map_err (fault_into f) r"

primrec any_text :: "'w cluster \<Rightarrow> any_error \<Rightarrow> string" where
  "any_text cl (AnyRpc e) = cl_error_text cl e"
| "any_text cl (AnyProgram e) = sdk_error_text (cl_sdk cl) e"
| "any_text cl (AnyText t) = t"

definition sign ::
  "'w cluster \<Rightarrow> instruction list \<Rightarrow> aligned \<Rightarrow> aligned list \<Rightarrow> aligned \<Rightarrow> 'e client_fault + transaction" where
  "sign cl instructions payer signers recent_hash =
     ok_or (sdk_sign (cl_sdk cl) instructions payer signers recent_hash) ClientPanic"

definition sign_and_send ::
  "'w cluster \<Rightarrow> (rpc_error \<Rightarrow> 'e) \<Rightarrow> (rpc_error \<Rightarrow> 'e) \<Rightarrow> aligned \<Rightarrow> instruction list \<Rightarrow> aligned list \<Rightarrow> 'w \<Rightarrow>
   'e client_fault + (signature \<times> 'w)" where
  "sign_and_send cl hash_error send_error payer instructions signers w =
     and_then (client_try hash_error (cl_recent_blockhash cl w)) (\<lambda>recent_hash.
     and_then (sign cl instructions payer signers recent_hash) (\<lambda>tx.
     client_try send_error (cl_send cl tx w)))"

subsection \<open>The generated client\<close>

text \<open>The RPC client and the options of its requests belong to the cluster.\<close>

record client =
  cn_program_id :: aligned
  cn_payer :: aligned

definition client_from_keypair_file :: "'w cluster \<Rightarrow> aligned \<Rightarrow> string \<Rightarrow> gen_error + client" where
  "client_from_keypair_file cl program_id filename =
     and_then (ok_or (sdk_read_keypair (cl_sdk cl) filename) (InvalidKeyPairFile filename)) (\<lambda>kp.
     Inr \<lparr>cn_program_id = program_id, cn_payer = kp\<rparr>)"

definition client_error_code :: "gen_error \<Rightarrow> u32 option" where
  "client_error_code e =
     (case e of
        RpcError (InstructionFailed _ instr_error) \<Rightarrow>
          (case instr_error of Custom error_code \<Rightarrow> Some error_code | _ \<Rightarrow> None)
      | _ \<Rightarrow> None)"

text \<open>\<open>instruction::<method>\<close>: the instruction in as many bytes as it takes.\<close>

definition instruction_method ::
  "'i codec \<Rightarrow> aligned \<Rightarrow> account_meta list \<Rightarrow> 'i \<Rightarrow> 'e client_fault + instruction" where
  "instruction_method cd program_id accounts i =
     and_then (expect (pack_size cd i)) (\<lambda>size.
     let data = replicate (unat size) 0 in
     and_then (expect (pack_account cd i data)) (\<lambda>data'.
     Inr \<lparr>ix_program_id = program_id, ix_accounts = accounts, ix_data = data'\<rparr>))"

definition method_with_signers ::
  "'w cluster \<Rightarrow> 'i codec \<Rightarrow> client \<Rightarrow> aligned list \<Rightarrow> account_meta list \<Rightarrow> 'i \<Rightarrow> 'w \<Rightarrow>
   gen_error client_fault + (signature \<times> 'w)" where
  "method_with_signers cl cd self signers accounts i w =
     and_then (instruction_method cd (cn_program_id self) accounts i) (\<lambda>ix.
     sign_and_send cl RpcError RpcError (cn_payer self) [ix] signers w)"

definition client_method ::
  "'w cluster \<Rightarrow> 'i codec \<Rightarrow> client \<Rightarrow> account_meta list \<Rightarrow> 'i \<Rightarrow> 'w \<Rightarrow>
   gen_error client_fault + (signature \<times> 'w)" where
  "client_method cl cd self accounts i w = method_with_signers cl cd self [cn_payer self] accounts i w"

definition create_account_and_method_with_signers ::
  "'w cluster \<Rightarrow> 'i codec \<Rightarrow> client \<Rightarrow> u64 \<Rightarrow> aligned \<Rightarrow> aligned list \<Rightarrow> account_meta list \<Rightarrow> 'i \<Rightarrow> 'w \<Rightarrow>
   gen_error client_fault + ((signature \<times> aligned) \<times> 'w)" where
  "create_account_and_method_with_signers cl cd self account_data_size new_account signers accounts i w =
     and_then (client_try RpcError (cl_min_balance cl (unat account_data_size) w)) (\<lambda>lamports.
     let create_account_instr = create_account_ix cl (cn_payer self) new_account lamports account_data_size
           (cn_program_id self) in
     and_then (instruction_method cd (cn_program_id self) accounts i) (\<lambda>variant_instr.
     and_then (sign_and_send cl (\<lambda>e. RawError (cl_error_text cl e)) RpcError (cn_payer self)
       [create_account_instr, variant_instr] signers w) (\<lambda>(sig, w'). Inr ((sig, new_account), w'))))"

definition create_account_and_method ::
  "'w cluster \<Rightarrow> 'i codec \<Rightarrow> client \<Rightarrow> u64 \<Rightarrow> aligned \<Rightarrow> account_meta list \<Rightarrow> 'i \<Rightarrow> 'w \<Rightarrow>
   gen_error client_fault + ((signature \<times> aligned) \<times> 'w)" where
  "create_account_and_method cl cd self account_data_size new_account accounts i w =
     create_account_and_method_with_signers cl cd self account_data_size new_account
       [cn_payer self, new_account] (meta new_account False # accounts) i w"

text \<open>The variant of the macro whose size is a first argument of the method.\<close>

definition create_account_and_method_sized ::
  "'w cluster \<Rightarrow> 'i codec \<Rightarrow> client \<Rightarrow> u64 \<Rightarrow> aligned \<Rightarrow> account_meta list \<Rightarrow> 'i \<Rightarrow> 'w \<Rightarrow>
   gen_error client_fault + ((signature \<times> aligned) \<times> 'w)" where
  "create_account_and_method_sized cl cd self account_data_size new_account accounts i w =
     and_then (client_try RpcError (cl_min_balance cl (unat account_data_size) w)) (\<lambda>lamports.
     let create_account_instr = create_account_ix cl (cn_payer self) new_account lamports account_data_size
           (cn_program_id self);
         new_accounts = meta new_account False # accounts in
     and_then (instruction_method cd (cn_program_id self) new_accounts i) (\<lambda>variant_instr.
     let instructions = [create_account_instr, variant_instr]; signers = [cn_payer self, new_account] in
     and_then (sign_and_send cl (\<lambda>e. RawError (cl_error_text cl e)) RpcError (cn_payer self) instructions signers w)
       (\<lambda>(sig, w'). Inr ((sig, new_account), w'))))"

lemma create_account_and_method_sized_eq:
  "create_account_and_method_sized = create_account_and_method"
  by (intro ext) (simp add: create_account_and_method_sized_def create_account_and_method_def
      create_account_and_method_with_signers_def Let_def)

subsection \<open>Calls shared by the clients\<close>

definition send_txn :: "'w cluster \<Rightarrow> transaction \<Rightarrow> 'w \<Rightarrow> any_error client_fault + (signature \<times> 'w)" where
  "send_txn cl txn w = client_try AnyRpc (cl_send cl txn w)"

definition send_instructions ::
  "'w cluster \<Rightarrow> aligned \<Rightarrow> instruction list \<Rightarrow> aligned list \<Rightarrow> 'w \<Rightarrow> any_error client_fault + (signature \<times> 'w)" where
  "send_instructions cl payer instructions signers w =
     and_then (client_try AnyRpc (cl_recent_blockhash cl w)) (\<lambda>recent_hash.
     and_then (sign cl instructions payer signers recent_hash) (\<lambda>txn. send_txn cl txn w))"

definition create_account_rent_exempt ::
  "'w cluster \<Rightarrow> aligned \<Rightarrow> aligned \<Rightarrow> nat \<Rightarrow> aligned \<Rightarrow> 'w \<Rightarrow> any_error client_fault + (aligned \<times> 'w)" where
  "create_account_rent_exempt cl account payer data_size owner w =
     and_then (client_try AnyRpc (cl_min_balance cl data_size w)) (\<lambda>lamports.
     and_then (send_instructions cl payer
       [create_account_ix cl payer account lamports (of_nat data_size) owner] [payer, account] w) (\<lambda>(_, w').
     Inr (account, w')))"

definition create_token_account ::
  "'w cluster \<Rightarrow> aligned \<Rightarrow> aligned \<Rightarrow> aligned \<Rightarrow> aligned \<Rightarrow> 'w \<Rightarrow> any_error client_fault + (aligned \<times> 'w)" where
  "create_token_account cl spl_account mint_pubkey owner_pubkey payer w =
     and_then (client_try AnyRpc (cl_min_balance cl (token_account_len cl) w)) (\<lambda>lamports.
     let create_account_instr = create_account_ix cl payer spl_account lamports (of_nat (token_account_len cl))
           (token_program_id cl) in
     and_then (client_try AnyProgram (spl_initialize_account (cl_spl cl) (token_program_id cl) spl_account mint_pubkey owner_pubkey))
       (\<lambda>init_account_instr.
     and_then (send_instructions cl payer [create_account_instr, init_account_instr] [payer, spl_account] w)
       (\<lambda>(_, w'). Inr (spl_account, w'))))"

definition create_and_init_mint ::
  "'w cluster \<Rightarrow> aligned \<Rightarrow> aligned \<Rightarrow> aligned \<Rightarrow> u8 \<Rightarrow> 'w \<Rightarrow> any_error client_fault + (signature \<times> 'w)" where
  "create_and_init_mint cl payer_keypair mint_keypair owner_pubkey decimals w =
     and_then (client_try AnyRpc (cl_min_balance cl (token_mint_len cl) w)) (\<lambda>lamports.
     let create_mint_account_instruction = create_account_ix cl payer_keypair mint_keypair lamports
           (of_nat (token_mint_len cl)) (token_program_id cl) in
     and_then (client_try AnyProgram (spl_initialize_mint (cl_spl cl) (token_program_id cl) mint_keypair owner_pubkey None decimals))
       (\<lambda>initialize_mint_instruction.
     send_instructions cl payer_keypair [create_mint_account_instruction, initialize_mint_instruction]
       [payer_keypair, mint_keypair] w))"

definition mint_to_new_account ::
  "'w cluster \<Rightarrow> aligned \<Rightarrow> aligned \<Rightarrow> aligned \<Rightarrow> aligned \<Rightarrow> u64 \<Rightarrow> 'w \<Rightarrow>
   any_error client_fault + (aligned \<times> 'w)" where
  "mint_to_new_account cl recip_keypair payer minting_key mint quantity w =
     and_then (client_try AnyRpc (cl_min_balance cl (token_account_len cl) w)) (\<lambda>lamports.
     let create_recip_instr = create_account_ix cl payer recip_keypair lamports (of_nat (token_account_len cl))
           (token_program_id cl) in
     and_then (client_try AnyProgram (spl_initialize_account (cl_spl cl) (token_program_id cl) recip_keypair mint payer))
       (\<lambda>init_recip_instr.
     and_then (client_try AnyProgram (spl_mint_to (cl_spl cl) (token_program_id cl) mint recip_keypair minting_key [] quantity))
       (\<lambda>mint_tokens_instr.
     and_then (send_instructions cl payer [create_recip_instr, init_recip_instr, mint_tokens_instr]
       [payer, minting_key, recip_keypair] w) (\<lambda>(_, w'). Inr (recip_keypair, w')))))"

text \<open>\<open>get_token_account\<close> and \<open>get_account\<close>; \<open>unpack\<close> of the repository's \<open>Pack\<close> can only fail with an error.\<close>

definition account_not_found :: string where
  "account_not_found = ''Account not found''"

definition get_account_data :: "'w cluster \<Rightarrow> aligned \<Rightarrow> 'w \<Rightarrow> any_error client_fault + u8 list" where
  "get_account_data cl addr w =
     and_then (client_try AnyRpc (cl_account cl addr w)) (\<lambda>value.
     ok_or value (ClientErr (AnyText account_not_found)))"

definition get_token_account :: "'w cluster \<Rightarrow> aligned \<Rightarrow> 'w \<Rightarrow> any_error client_fault + token_holding" where
  "get_token_account cl addr w =
     and_then (get_account_data cl addr w) (\<lambda>data. client_try AnyProgram (spl_holding (cl_spl cl) data))"

primrec any_of_program :: "program_fault \<Rightarrow> any_error client_fault" where
  "any_of_program (Failed e) = ClientErr (AnyProgram e)"
| "any_of_program Panicked = ClientPanic"

definition get_account :: "'w cluster \<Rightarrow> 'a codec \<Rightarrow> aligned \<Rightarrow> 'w \<Rightarrow> any_error client_fault + 'a" where
  "get_account cl cd addr w =
     and_then (get_account_data cl addr w) (\<lambda>data. map_err any_of_program (unpack_account cd data))"

definition account_unpacked :: "'w cluster \<Rightarrow> 'a codec \<Rightarrow> aligned \<Rightarrow> 'w \<Rightarrow> 'e client_fault + 'a" where
  "account_unpacked cl cd addr w = expect (get_account cl cd addr w)"

definition account_token_unpacked :: "'w cluster \<Rightarrow> aligned \<Rightarrow> 'w \<Rightarrow> 'e client_fault + token_holding" where
  "account_token_unpacked cl addr w = expect (get_token_account cl addr w)"

subsection \<open>The context of a command line\<close>

text \<open>\<open>node/context/src/lib.rs\<close>; the cluster that a context names is the parameter \<open>cluster\<close>.\<close>

record cli_context =
  cx_wallet_path :: string
  cx_srm_mint :: aligned

primrec gen_text :: "'w cluster \<Rightarrow> gen_error \<Rightarrow> string" where
  "gen_text cl (InvalidKeyPairFile f) = ''Invalid keypair filename: '' @ f"
| "gen_text cl (RpcError e) = ''Error invoking rpc: '' @ cl_error_text cl e"
| "gen_text cl (RawError t) = t"

definition connect :: "'w cluster \<Rightarrow> cli_context \<Rightarrow> aligned \<Rightarrow> any_error client_fault + client" where
  "connect cl ctx program_id =
     client_try (\<lambda>e. AnyText (gen_text cl e)) (client_from_keypair_file cl program_id (cx_wallet_path ctx))"

definition context_wallet :: "'w cluster \<Rightarrow> cli_context \<Rightarrow> any_error client_fault + aligned" where
  "context_wallet cl ctx =
     ok_or (sdk_read_keypair (cl_sdk cl) (cx_wallet_path ctx))
       (ClientErr (AnyText ''Unable to read provided wallet file''))"

end
