(* ===== verification/LockupClient.thy ===== *)
theory LockupClient
  imports ClientGen LockupProgram
begin

text \<open>
  The client of the lockup program (\<open>lockup/client/src/lib.rs\<close>, \<open>inner.rs\<close>): for each request it looks
  up what the request leaves out, lists the accounts in the program's order, and signs and sends
  the transaction.
\<close>

subsection \<open>Requests and errors\<close>

datatype (plugins only: code) initialize_request = InitializeRequest (ir_mint: aligned) (ir_authority: aligned)

datatype (plugins only: code) initialize_response = InitializeResponse
  (is_tx: signature) (is_safe: aligned) (is_vault: aligned) (is_vault_authority: aligned)
  (is_whitelist: aligned) (is_nonce: u8)

datatype (plugins only: code) create_vesting_request = CreateVestingRequest
  (cv_depositor: aligned) (cv_depositor_owner: aligned) (cv_safe: aligned) (cv_beneficiary: aligned)
  (cv_end_slot: u64) (cv_period_count: u64) (cv_deposit_amount: u64)

datatype (plugins only: code) create_vesting_response = CreateVestingResponse (cvs_tx: signature) (cvs_vesting: aligned) (cvs_mint: aligned)

datatype (plugins only: code) whitelist_change_request = WhitelistChangeRequest  \<comment> \<open>\<open>WhitelistAddRequest\<close>, \<open>WhitelistDeleteRequest\<close>\<close>
  (wc_authority: aligned) (wc_safe: aligned) (wc_entry: whitelist_entry)

datatype (plugins only: code) whitelist_withdraw_request = WhitelistWithdrawRequest
  (ww_beneficiary: aligned) (ww_vesting: aligned) (ww_safe: aligned) (ww_whitelist_program: aligned)
  (ww_relay_accounts: "account_meta list") (ww_vault: aligned) (ww_whitelist_vault: aligned)
  (ww_whitelist_vault_authority: aligned) (ww_delegate_amount: u64) (ww_relay_data: "u8 list")

datatype (plugins only: code) whitelist_deposit_request = WhitelistDepositRequest
  (wd_beneficiary: aligned) (wd_vesting: aligned) (wd_safe: aligned) (wd_whitelist_program: aligned)
  (wd_relay_accounts: "account_meta list") (wd_vault: aligned) (wd_whitelist_vault: aligned)
  (wd_whitelist_vault_authority: aligned) (wd_relay_data: "u8 list")

datatype (plugins only: code) claim_request = ClaimRequest
  (cr_beneficiary: aligned) (cr_safe: aligned) (cr_vesting: aligned) (cr_locked_mint: aligned)
  (cr_locked_token_account: aligned)

datatype (plugins only: code) redeem_request = RedeemRequest
  (rr_beneficiary: aligned) (rr_vesting: aligned) (rr_token_account: aligned) (rr_vault: aligned)
  (rr_safe: aligned) (rr_locked_token_account: aligned) (rr_locked_mint: aligned) (rr_amount: u64)

datatype (plugins only: code) set_authority_request = SetAuthorityRequest
  (sr_authority: aligned) (sr_safe: aligned) (sr_new_authority: aligned)

datatype (plugins only: code) migrate_request = MigrateRequest
  (mr_authority: aligned) (mr_safe: aligned) (mr_new_token_account: aligned)

datatype lockup_client_error =
    InnerError gen_error | ClientRpcError rpc_error | ClientAnyError any_error | ClientLockupError lockup_error

text \<open>\<open>bincode\<close> on the structs the client reads and on the instructions it writes.\<close>

record lockup_codecs =
  lcd_safe :: "safe codec"
  lcd_vesting :: "vesting codec"
  lcd_instruction :: "lockup_instruction codec"

definition safe_default :: safe where
  "safe_default = \<lparr>sf_initialized = False, sf_mint = (0, 0, 0, 0), sf_authority = (0, 0, 0, 0), sf_nonce = 0,
     sf_whitelist = (0, 0, 0, 0), sf_vault = (0, 0, 0, 0)\<rparr>"

definition vesting_default :: vesting where
  "vesting_default =
     \<lparr>v_initialized = False, v_claimed = False, v_safe = (0, 0, 0, 0), v_beneficiary = (0, 0, 0, 0),
      v_balance = 0, v_start_balance = 0, v_start_slot = 0, v_end_slot = 0, v_period_count = 0,
      v_locked_nft_mint = (0, 0, 0, 0), v_locked_nft_token = (0, 0, 0, 0), v_whitelist_owned = 0\<rparr>"

definition vesting_size :: "lockup_codecs \<Rightarrow> 'e client_fault + u64" where
  "vesting_size cd = expect (pack_size (lcd_vesting cd) vesting_default)"

subsection \<open>Accounts\<close>

definition client_safe :: "'w cluster \<Rightarrow> lockup_codecs \<Rightarrow> aligned \<Rightarrow> 'w \<Rightarrow> lockup_client_error client_fault + safe" where
  "client_safe cl cd address w = into ClientAnyError (get_account cl (lcd_safe cd) address w)"

definition client_vesting ::
  "'w cluster \<Rightarrow> lockup_codecs \<Rightarrow> aligned \<Rightarrow> 'w \<Rightarrow> lockup_client_error client_fault + vesting" where
  "client_vesting cl cd addr w = into ClientAnyError (get_account cl (lcd_vesting cd) addr w)"

definition client_vault ::
  "'w cluster \<Rightarrow> lockup_codecs \<Rightarrow> aligned \<Rightarrow> 'w \<Rightarrow> lockup_client_error client_fault + token_holding" where
  "client_vault cl cd safe w =
     and_then (client_safe cl cd safe w) (\<lambda>sf. into ClientAnyError (get_token_account cl (sf_vault sf) w))"

text \<open>What the closure passed to \<open>with_whitelist\<close> is given: the whitelist in its account's bytes.\<close>

primrec client_of_lockup :: "lockup_fault \<Rightarrow> lockup_client_error client_fault" where
  "client_of_lockup (LockupErr e) = ClientErr (ClientLockupError e)"
| "client_of_lockup LockupPanic = ClientPanic"

definition client_whitelist ::
  "'w cluster \<Rightarrow> lockup_codecs \<Rightarrow> aligned \<Rightarrow> 'w \<Rightarrow> lockup_client_error client_fault + u8 list" where
  "client_whitelist cl cd safe w =
     and_then (client_safe cl cd safe w) (\<lambda>sf.
     and_then (client_try ClientRpcError (cl_account cl (sf_whitelist sf) w)) (\<lambda>value.
     and_then (ok_or value (ClientErr (ClientAnyError (AnyText account_not_found)))) (\<lambda>data.
     and_then (map_err client_of_lockup (whitelist_new data)) (\<lambda>_. Inr data))))"

definition vault_authority_error :: "'w cluster \<Rightarrow> program_error \<Rightarrow> lockup_client_error" where
  "vault_authority_error cl e = ClientAnyError (AnyText
     (''unable to derive vault authority: '' @ sdk_debug_string (cl_sdk cl) (sdk_error_text (cl_sdk cl) e)))"

definition client_vault_authority ::
  "'w cluster \<Rightarrow> lockup_codecs \<Rightarrow> client \<Rightarrow> aligned \<Rightarrow> 'w \<Rightarrow> lockup_client_error client_fault + aligned" where
  "client_vault_authority cl cd self safe_addr w =
     and_then (client_safe cl cd safe_addr w) (\<lambda>sf.
     client_try (vault_authority_error cl)
       (sdk_program_address (cl_sdk cl) (signer_seeds safe_addr (sf_nonce sf)) (cn_program_id self)))"

subsection \<open>Initialising a safe\<close>

definition initialize_metas :: "'w cluster \<Rightarrow> aligned \<Rightarrow> aligned \<Rightarrow> aligned \<Rightarrow> aligned \<Rightarrow> account_meta list" where
  "initialize_metas cl safe_acc wl_kp safe_srm_vault srm_mint =
     [meta safe_acc False, meta wl_kp False, meta_readonly safe_srm_vault False, meta_readonly srm_mint False,
      meta_readonly (sdk_rent_id (cl_sdk cl)) False]"

text \<open>The instructions of the last transaction: create the safe and the whitelist, and initialise.\<close>

definition initialize_instructions ::
  "'w cluster \<Rightarrow> lockup_codecs \<Rightarrow> client \<Rightarrow> aligned \<Rightarrow> aligned \<Rightarrow> aligned \<Rightarrow> aligned \<Rightarrow> aligned \<Rightarrow> u8 \<Rightarrow> 'w \<Rightarrow>
   gen_error client_fault + instruction list" where
  "initialize_instructions cl cd client safe_acc wl_kp safe_srm_vault srm_mint safe_authority nonce w =
     and_then (expect (pack_size (lcd_safe cd) safe_default)) (\<lambda>safe_size.
     and_then (client_try RpcError (cl_min_balance cl (unat safe_size) w)) (\<lambda>lamports.
     let create_safe_acc_instr = create_account_ix cl (cn_payer client) safe_acc lamports safe_size
           (cn_program_id client) in
     and_then (client_try RpcError (cl_min_balance cl WHITELIST_SIZE w)) (\<lambda>lamports.
     let create_whitelist_acc_instr = create_account_ix cl (cn_payer client) wl_kp lamports
           (of_nat WHITELIST_SIZE) (cn_program_id client) in
     and_then (instruction_method (lcd_instruction cd) (cn_program_id client)
       (initialize_metas cl safe_acc wl_kp safe_srm_vault srm_mint) (Initialize safe_authority nonce))
       (\<lambda>initialize_instr.
     Inr [create_safe_acc_instr, create_whitelist_acc_instr, initialize_instr]))))"

definition create_all_accounts_and_initialize ::
  "'w cluster \<Rightarrow> lockup_codecs \<Rightarrow> client \<Rightarrow> aligned \<Rightarrow> aligned \<Rightarrow> aligned \<Rightarrow> aligned \<Rightarrow> aligned \<Rightarrow> 'w \<Rightarrow>
   gen_error client_fault + (initialize_response \<times> 'w)" where
  "create_all_accounts_and_initialize cl cd client safe_acc vault_kp wl_kp srm_mint safe_authority w =
     and_then (ok_or (sdk_find_program_address (cl_sdk cl) [aligned_bytes safe_acc] (cn_program_id client))
       ClientPanic) (\<lambda>(safe_vault_authority, nonce).
     and_then (into (\<lambda>e. RawError (any_text cl e))
       (create_token_account cl vault_kp srm_mint safe_vault_authority (cn_payer client) w))
       (\<lambda>(safe_srm_vault, w1).
     and_then (initialize_instructions cl cd client safe_acc wl_kp safe_srm_vault srm_mint safe_authority nonce w1)
       (\<lambda>instructions.
     and_then (sign_and_send cl (\<lambda>e. RawError (cl_error_text cl e)) RpcError (cn_payer client) instructions
       [cn_payer client, safe_acc, wl_kp] w1) (\<lambda>(sig, w2).
     Inr (InitializeResponse sig safe_acc safe_srm_vault safe_vault_authority wl_kp nonce, w2)))))"

definition client_initialize ::
  "'w cluster \<Rightarrow> lockup_codecs \<Rightarrow> client \<Rightarrow> aligned \<Rightarrow> aligned \<Rightarrow> aligned \<Rightarrow> initialize_request \<Rightarrow> 'w \<Rightarrow>
   lockup_client_error client_fault + (initialize_response \<times> 'w)" where
  "client_initialize cl cd self safe_acc vault_kp wl_kp req w =
     into InnerError (create_all_accounts_and_initialize cl cd self safe_acc vault_kp wl_kp
       (ir_mint req) (ir_authority req) w)"

subsection \<open>Depositing\<close>

definition deposit_metas ::
  "'w cluster \<Rightarrow> aligned \<Rightarrow> aligned \<Rightarrow> aligned \<Rightarrow> aligned \<Rightarrow> aligned \<Rightarrow> aligned \<Rightarrow> aligned \<Rightarrow> account_meta list" where
  "deposit_metas cl new_account depositor depositor_owner safe_vault safe_acc mint_kp safe_vault_authority =
     [meta new_account True, meta depositor False, meta depositor_owner True, meta safe_vault False,
      meta safe_acc False, meta mint_kp False, meta_readonly safe_vault_authority False,
      meta_readonly (token_program_id cl) False, meta_readonly (sdk_rent_id (cl_sdk cl)) False,
      meta_readonly (sdk_clock_id (cl_sdk cl)) False]"

definition create_vesting_account ::
  "'w cluster \<Rightarrow> lockup_codecs \<Rightarrow> client \<Rightarrow> aligned \<Rightarrow> aligned \<Rightarrow> aligned \<Rightarrow> aligned \<Rightarrow> aligned \<Rightarrow> aligned \<Rightarrow> aligned \<Rightarrow>
   aligned \<Rightarrow> u64 \<Rightarrow> u64 \<Rightarrow> u64 \<Rightarrow> u8 \<Rightarrow> 'w \<Rightarrow>
   gen_error client_fault + ((signature \<times> aligned \<times> aligned) \<times> 'w)" where
  "create_vesting_account cl cd client mint_kp new_account depositor depositor_owner safe_acc safe_vault
     safe_vault_authority vesting_acc_beneficiary end_slot period_count deposit_amount mint_decimals w =
     and_then (into (\<lambda>e. RawError (any_text cl e))
       (create_and_init_mint cl (cn_payer client) mint_kp safe_vault_authority mint_decimals w)) (\<lambda>(_, w1).
     and_then (vesting_size cd) (\<lambda>size.
     and_then (client_try RpcError (cl_min_balance cl (unat size) w1)) (\<lambda>lamports.
     let create_account_instr = create_account_ix cl (cn_payer client) new_account lamports size
           (cn_program_id client) in
     and_then (instruction_method (lcd_instruction cd) (cn_program_id client)
       (deposit_metas cl new_account depositor depositor_owner safe_vault safe_acc mint_kp safe_vault_authority)
       (CreateVesting vesting_acc_beneficiary end_slot period_count deposit_amount)) (\<lambda>create_vesting_instr.
     and_then (sign_and_send cl (\<lambda>e. RawError (cl_error_text cl e)) RpcError (cn_payer client)
       [create_account_instr, create_vesting_instr] [cn_payer client, depositor_owner, new_account] w1)
       (\<lambda>(sig, w2). Inr ((sig, new_account, mint_kp), w2))))))"

definition client_create_vesting ::
  "'w cluster \<Rightarrow> lockup_codecs \<Rightarrow> client \<Rightarrow> aligned \<Rightarrow> aligned \<Rightarrow> create_vesting_request \<Rightarrow> 'w \<Rightarrow>
   lockup_client_error client_fault + (create_vesting_response \<times> 'w)" where
  "client_create_vesting cl cd self mint_kp new_account req w =
     and_then (client_safe cl cd (cv_safe req) w) (\<lambda>sf.
     let vault = sf_vault sf; mint_decimals = 3 in
     and_then (client_vault_authority cl cd self (cv_safe req) w) (\<lambda>vault_authority.
     and_then (into InnerError (create_vesting_account cl cd self mint_kp new_account (cv_depositor req)
       (cv_depositor_owner req) (cv_safe req) vault vault_authority (cv_beneficiary req) (cv_end_slot req)
       (cv_period_count req) (cv_deposit_amount req) mint_decimals w)) (\<lambda>((tx, vesting, mint), w').
     Inr (CreateVestingResponse tx vesting mint, w'))))"

subsection \<open>The whitelist\<close>

text \<open>A method of the generated client, signed and sent, in a function that returns the client's error.\<close>

definition lockup_method ::
  "'w cluster \<Rightarrow> lockup_codecs \<Rightarrow> client \<Rightarrow> aligned list \<Rightarrow> account_meta list \<Rightarrow> lockup_instruction \<Rightarrow> 'w \<Rightarrow>
   lockup_client_error client_fault + (signature \<times> 'w)" where
  "lockup_method cl cd self signers accounts i w =
     into InnerError (method_with_signers cl (lcd_instruction cd) self signers accounts i w)"

definition whitelist_change_metas :: "aligned \<Rightarrow> aligned \<Rightarrow> aligned \<Rightarrow> account_meta list" where
  "whitelist_change_metas authority safe whitelist =
     [meta_readonly authority True, meta_readonly safe False, meta whitelist False]"

definition client_whitelist_add ::
  "'w cluster \<Rightarrow> lockup_codecs \<Rightarrow> client \<Rightarrow> whitelist_change_request \<Rightarrow> 'w \<Rightarrow>
   lockup_client_error client_fault + (signature \<times> 'w)" where
  "client_whitelist_add cl cd self req w =
     and_then (client_safe cl cd (wc_safe req) w) (\<lambda>sf.
     let whitelist = sf_whitelist sf;
         accounts = whitelist_change_metas (wc_authority req) (wc_safe req) whitelist;
         signers = [cn_payer self, wc_authority req] in
     lockup_method cl cd self signers accounts (WhitelistAdd (wc_entry req)) w)"

definition client_whitelist_delete ::
  "'w cluster \<Rightarrow> lockup_codecs \<Rightarrow> client \<Rightarrow> whitelist_change_request \<Rightarrow> 'w \<Rightarrow>
   lockup_client_error client_fault + (signature \<times> 'w)" where
  "client_whitelist_delete cl cd self req w =
     and_then (client_safe cl cd (wc_safe req) w) (\<lambda>sf.
     let whitelist = sf_whitelist sf;
         accounts = whitelist_change_metas (wc_authority req) (wc_safe req) whitelist;
         signers = [cn_payer self, wc_authority req] in
     lockup_method cl cd self signers accounts (WhitelistDelete (wc_entry req)) w)"

definition relay_metas ::
  "'w cluster \<Rightarrow> aligned \<Rightarrow> aligned \<Rightarrow> aligned \<Rightarrow> aligned \<Rightarrow> aligned \<Rightarrow> aligned \<Rightarrow> aligned \<Rightarrow> aligned \<Rightarrow> aligned \<Rightarrow>
   account_meta list" where
  "relay_metas cl beneficiary vesting safe vault_authority whitelist_program whitelist vault whitelist_vault
     whitelist_vault_authority =
     [meta_readonly beneficiary True, meta vesting False, meta_readonly safe False,
      meta_readonly vault_authority False, meta_readonly whitelist_program False, meta_readonly whitelist False,
      meta vault False, meta whitelist_vault False, meta_readonly whitelist_vault_authority False,
      meta_readonly (token_program_id cl) False]"

text \<open>Here the generated method's result is unwrapped.\<close>

definition client_whitelist_withdraw ::
  "'w cluster \<Rightarrow> lockup_codecs \<Rightarrow> client \<Rightarrow> whitelist_withdraw_request \<Rightarrow> 'w \<Rightarrow>
   lockup_client_error client_fault + (signature \<times> 'w)" where
  "client_whitelist_withdraw cl cd self req w =
     and_then (client_safe cl cd (ww_safe req) w) (\<lambda>sf.
     let whitelist = sf_whitelist sf in
     and_then (client_vault_authority cl cd self (ww_safe req) w) (\<lambda>vault_authority.
     let accounts = relay_metas cl (ww_beneficiary req) (ww_vesting req) (ww_safe req) vault_authority
           (ww_whitelist_program req) whitelist (ww_vault req) (ww_whitelist_vault req)
           (ww_whitelist_vault_authority req) @ ww_relay_accounts req;
         signers = [cn_payer self, ww_beneficiary req] in
     expect (lockup_method cl cd self signers accounts
       (WhitelistWithdraw (ww_delegate_amount req) (ww_relay_data req)) w)))"

definition client_whitelist_deposit ::
  "'w cluster \<Rightarrow> lockup_codecs \<Rightarrow> client \<Rightarrow> whitelist_deposit_request \<Rightarrow> 'w \<Rightarrow>
   lockup_client_error client_fault + (signature \<times> 'w)" where
  "client_whitelist_deposit cl cd self req w =
     and_then (client_safe cl cd (wd_safe req) w) (\<lambda>sf.
     let whitelist = sf_whitelist sf in
     and_then (client_vault_authority cl cd self (wd_safe req) w) (\<lambda>vault_authority.
     let accounts = relay_metas cl (wd_beneficiary req) (wd_vesting req) (wd_safe req) vault_authority
           (wd_whitelist_program req) whitelist (wd_vault req) (wd_whitelist_vault req)
           (wd_whitelist_vault_authority req) @ wd_relay_accounts req;
         signers = [cn_payer self, wd_beneficiary req] in
     expect (lockup_method cl cd self signers accounts (WhitelistDeposit (wd_relay_data req)) w)))"

subsection \<open>Claiming, redeeming, governing\<close>

definition claim_metas ::
  "'w cluster \<Rightarrow> aligned \<Rightarrow> aligned \<Rightarrow> aligned \<Rightarrow> aligned \<Rightarrow> aligned \<Rightarrow> aligned \<Rightarrow> account_meta list" where
  "claim_metas cl beneficiary vesting safe vault_authority locked_mint locked_token_account =
     [meta_readonly beneficiary True, meta vesting False, meta_readonly safe False,
      meta_readonly vault_authority False, meta_readonly (token_program_id cl) False, meta locked_mint False,
      meta locked_token_account False]"

definition client_claim ::
  "'w cluster \<Rightarrow> lockup_codecs \<Rightarrow> client \<Rightarrow> claim_request \<Rightarrow> 'w \<Rightarrow>
   lockup_client_error client_fault + (signature \<times> 'w)" where
  "client_claim cl cd self req w =
     and_then (client_vault_authority cl cd self (cr_safe req) w) (\<lambda>vault_authority.
     let accounts = claim_metas cl (cr_beneficiary req) (cr_vesting req) (cr_safe req) vault_authority
           (cr_locked_mint req) (cr_locked_token_account req);
         signers = [cn_payer self, cr_beneficiary req] in
     lockup_method cl cd self signers accounts Claim w)"

definition redeem_metas ::
  "'w cluster \<Rightarrow> aligned \<Rightarrow> aligned \<Rightarrow> aligned \<Rightarrow> aligned \<Rightarrow> aligned \<Rightarrow> aligned \<Rightarrow> aligned \<Rightarrow> aligned \<Rightarrow>
   account_meta list" where
  "redeem_metas cl beneficiary vesting token_account vault vault_authority safe locked_token_account locked_mint =
     [meta_readonly beneficiary True, meta vesting False, meta token_account False, meta vault False,
      meta_readonly vault_authority False, meta_readonly safe False, meta locked_token_account False,
      meta locked_mint False, meta_readonly (token_program_id cl) False,
      meta_readonly (sdk_clock_id (cl_sdk cl)) False]"

definition client_redeem ::
  "'w cluster \<Rightarrow> lockup_codecs \<Rightarrow> client \<Rightarrow> redeem_request \<Rightarrow> 'w \<Rightarrow>
   lockup_client_error client_fault + (signature \<times> 'w)" where
  "client_redeem cl cd self req w =
     and_then (client_vault_authority cl cd self (rr_safe req) w) (\<lambda>vault_authority.
     let accounts = redeem_metas cl (rr_beneficiary req) (rr_vesting req) (rr_token_account req) (rr_vault req)
           vault_authority (rr_safe req) (rr_locked_token_account req) (rr_locked_mint req);
         signers = [cn_payer self, rr_beneficiary req] in
     lockup_method cl cd self signers accounts (Redeem (rr_amount req)) w)"

definition client_set_authority ::
  "'w cluster \<Rightarrow> lockup_codecs \<Rightarrow> client \<Rightarrow> set_authority_request \<Rightarrow> 'w \<Rightarrow>
   lockup_client_error client_fault + (signature \<times> 'w)" where
  "client_set_authority cl cd self req w =
     (let accounts = [meta_readonly (sr_authority req) True, meta (sr_safe req) False];
          signers = [sr_authority req, cn_payer self] in
      lockup_method cl cd self signers accounts (SetAuthority (sr_new_authority req)) w)"

definition migrate_metas ::
  "'w cluster \<Rightarrow> aligned \<Rightarrow> aligned \<Rightarrow> aligned \<Rightarrow> aligned \<Rightarrow> aligned \<Rightarrow> account_meta list" where
  "migrate_metas cl authority safe vault vault_authority new_token_account =
     [meta_readonly authority True, meta safe False, meta vault False, meta_readonly vault_authority False,
      meta new_token_account False, meta_readonly (token_program_id cl) False]"

definition client_migrate ::
  "'w cluster \<Rightarrow> lockup_codecs \<Rightarrow> client \<Rightarrow> migrate_request \<Rightarrow> 'w \<Rightarrow>
   lockup_client_error client_fault + (signature \<times> 'w)" where
  "client_migrate cl cd self req w =
     and_then (client_safe cl cd (mr_safe req) w) (\<lambda>sf.
     let vault = sf_vault sf in
     and_then (client_vault_authority cl cd self (mr_safe req) w) (\<lambda>vault_authority.
     let accounts = migrate_metas cl (mr_authority req) (mr_safe req) vault vault_authority
           (mr_new_token_account req);
         signers = [mr_authority req, cn_payer self] in
     lockup_method cl cd self signers accounts Migrate w))"

end
