(* ===== verification/RegistryClient.thy ===== *)
theory RegistryClient
  imports ClientGen Registry
begin

text \<open>
  The client of the registry program (\<open>registry/src/client_ext.rs\<close>, beside the generated methods) and
  its command line (\<open>registry/cli/src/lib.rs\<close>) behind the parser.  Entities and members live at
  addresses derived from their owner's key.
\<close>

record registry_codecs =
  rcd_registrar :: "registrar codec"
  rcd_entity :: "entity codec"
  rcd_member :: "member codec"
  rcd_instruction :: "registry_instruction codec"

definition registrar_default :: registrar where
  "registrar_default = \<lparr>rg_initialized = False, rg_authority = (0, 0, 0, 0),
     rg_capabilities_fees_bps = replicate 32 0, rg_withdrawal_timelock = 0\<rparr>"

definition entity_default :: entity where
  "entity_default = \<lparr>en_initialized = False, en_leader = (0, 0, 0, 0), en_amount = 0, en_mega_amount = 0,
     en_capabilities = 0, en_stake_kind = Delegated\<rparr>"

definition member_default :: member where
  "member_default = \<lparr>mb_initialized = False, mb_entity = (0, 0, 0, 0), mb_beneficiary = (0, 0, 0, 0),
     mb_delegate = (0, 0, 0, 0), mb_amount = 0, mb_mega_amount = 0\<rparr>"

text \<open>The lazily computed sizes of the accounts.\<close>

definition registrar_size :: "registry_codecs \<Rightarrow> 'e client_fault + u64" where
  "registrar_size cd = expect (pack_size (rcd_registrar cd) registrar_default)"

definition entity_size :: "registry_codecs \<Rightarrow> 'e client_fault + u64" where
  "entity_size cd = expect (pack_size (rcd_entity cd) entity_default)"

definition member_size :: "registry_codecs \<Rightarrow> 'e client_fault + u64" where
  "member_size cd = expect (pack_size (rcd_member cd) member_default)"

subsection \<open>The extension of the client\<close>

definition entity_seed :: string where "entity_seed = ''srm:registry:entity''"
definition member_seed :: string where "member_seed = ''srm:registry:member''"

definition entity_address_derived :: "'w cluster \<Rightarrow> client \<Rightarrow> aligned \<Rightarrow> gen_error client_fault + aligned" where
  "entity_address_derived cl self leader =
     client_try (\<lambda>e. RawError (sdk_error_text (cl_sdk cl) e))
       (sdk_create_with_seed (cl_sdk cl) leader entity_seed (cn_program_id self))"

definition member_address_derived :: "'w cluster \<Rightarrow> client \<Rightarrow> gen_error client_fault + aligned" where
  "member_address_derived cl self =
     client_try (\<lambda>e. RawError (sdk_error_text (cl_sdk cl) e))
       (sdk_create_with_seed (cl_sdk cl) (cn_payer self) member_seed (cn_program_id self))"

definition create_entity_metas :: "'w cluster \<Rightarrow> aligned \<Rightarrow> aligned \<Rightarrow> account_meta list" where
  "create_entity_metas cl entity_address leader =
     [meta entity_address False, meta_readonly leader True, meta_readonly (sdk_rent_id (cl_sdk cl)) False]"

definition create_entity_derived ::
  "'w cluster \<Rightarrow> registry_codecs \<Rightarrow> client \<Rightarrow> aligned \<Rightarrow> u32 \<Rightarrow> stake_kind \<Rightarrow> 'w \<Rightarrow>
   gen_error client_fault + ((signature \<times> aligned) \<times> 'w)" where
  "create_entity_derived cl cd self leader_kp capabilities stake_kind w =
     and_then (entity_size cd) (\<lambda>entity_account_size.
     and_then (client_try RpcError (cl_min_balance cl (unat entity_account_size) w)) (\<lambda>lamports.
     and_then (entity_address_derived cl self leader_kp) (\<lambda>entity_address.
     let create_acc_instr = sdk_create_account_with_seed (cl_sdk cl) (cn_payer self) entity_address leader_kp
           entity_seed lamports entity_account_size (cn_program_id self) in
     and_then (instruction_method (rcd_instruction cd) (cn_program_id self)
       (create_entity_metas cl entity_address leader_kp) (CreateEntity capabilities stake_kind))
       (\<lambda>create_entity_instr.
     and_then (sign_and_send cl RpcError RpcError (cn_payer self) [create_acc_instr, create_entity_instr]
       [leader_kp, cn_payer self] w) (\<lambda>(sig, w'). Inr ((sig, entity_address), w'))))))"

definition join_entity_metas :: "'w cluster \<Rightarrow> aligned \<Rightarrow> aligned \<Rightarrow> account_meta list" where
  "join_entity_metas cl member_address entity =
     [meta member_address False, meta entity False, meta_readonly (sdk_rent_id (cl_sdk cl)) False]"

definition join_entity_derived ::
  "'w cluster \<Rightarrow> registry_codecs \<Rightarrow> client \<Rightarrow> aligned \<Rightarrow> aligned \<Rightarrow> aligned \<Rightarrow> 'w \<Rightarrow>
   gen_error client_fault + ((signature \<times> aligned) \<times> 'w)" where
  "join_entity_derived cl cd self entity beneficiary delegate w =
     and_then (member_address_derived cl self) (\<lambda>member_address.
     and_then (member_size cd) (\<lambda>size.
     and_then (client_try RpcError (cl_min_balance cl (unat size) w)) (\<lambda>lamports.
     let create_acc_instr = sdk_create_account_with_seed (cl_sdk cl) (cn_payer self) member_address (cn_payer self)
           member_seed lamports size (cn_program_id self) in
     and_then (instruction_method (rcd_instruction cd) (cn_program_id self)
       (join_entity_metas cl member_address entity) (JoinEntity beneficiary delegate)) (\<lambda>member_instr.
     and_then (sign_and_send cl RpcError RpcError (cn_payer self) [create_acc_instr, member_instr]
       [cn_payer self] w) (\<lambda>(sig, w'). Inr ((sig, member_address), w'))))))"

subsection \<open>Commands\<close>

datatype (plugins only: code) registry_command_error = RegistryClientError gen_error | RegistryAnyError any_error

datatype (plugins only: code) registry_accounts_command =
    AccountsRegistrar aligned
  | AccountsEntity "aligned option" "aligned option"  \<comment> \<open>address, leader\<close>
  | AccountsMember "aligned option"

datatype (plugins only: code) registry_gov_command =
    GovInit "aligned option" "string option" u64  \<comment> \<open>authority, authority file, withdrawal timelock\<close>
  | GovRegisterCapability "u8 option" u32 aligned string  \<comment> \<open>forced id, fee, registrar, authority file\<close>

datatype (plugins only: code) registry_sub_command =
    RegistryAccountsCmd registry_accounts_command
  | RegistryGovCmd registry_gov_command
  | CreateEntityCmd string bool  \<comment> \<open>leader file, crank\<close>
  | JoinEntityCmd aligned aligned "aligned option"  \<comment> \<open>entity, beneficiary, delegate\<close>

datatype (plugins only: code) registry_shown =
    ShownRegistrar registrar
  | ShownEntity aligned entity
  | ShownMember member
  | ShownAddress aligned
  | ShownTransaction signature

definition registry_text :: "string \<Rightarrow> registry_command_error client_fault" where
  "registry_text t = ClientErr (RegistryAnyError (AnyText t))"

definition join_entity_cmd ::
  "'w cluster \<Rightarrow> registry_codecs \<Rightarrow> cli_context \<Rightarrow> aligned option \<Rightarrow> aligned \<Rightarrow> aligned \<Rightarrow> aligned option \<Rightarrow> 'w \<Rightarrow>
   registry_command_error client_fault + (registry_shown list \<times> 'w)" where
  "join_entity_cmd cl cd ctx registry_pid entity beneficiary delegate w =
     and_then (ok_or registry_pid (registry_text ''--pid not provided'')) (\<lambda>registry_pid.
     let delegate = (case delegate of Some k \<Rightarrow> k | None \<Rightarrow> (0, 0, 0, 0)) in
     and_then (into RegistryAnyError (connect cl ctx registry_pid)) (\<lambda>client.
     and_then (into RegistryClientError (join_entity_derived cl cd client entity beneficiary delegate w))
       (\<lambda>((tx_sig, stake_addr), w'). Inr ([ShownTransaction tx_sig, ShownAddress stake_addr], w'))))"

definition create_entity_cmd ::
  "'w cluster \<Rightarrow> registry_codecs \<Rightarrow> cli_context \<Rightarrow> aligned option \<Rightarrow> string \<Rightarrow> bool \<Rightarrow> 'w \<Rightarrow>
   registry_command_error client_fault + (registry_shown list \<times> 'w)" where
  "create_entity_cmd cl cd ctx registry_pid leader_filepath crank w =
     and_then (ok_or registry_pid (registry_text ''--pid not provided'')) (\<lambda>registry_pid.
     and_then (guard crank (registry_text ''All nodes must crank for this version'')) (\<lambda>_.
     let capabilities = 1 in
     and_then (ok_or (sdk_read_keypair (cl_sdk cl) leader_filepath)
       (registry_text ''Unable to read leader keypair file'')) (\<lambda>leader_kp.
     and_then (into RegistryAnyError (connect cl ctx registry_pid)) (\<lambda>client.
     and_then (into RegistryClientError (create_entity_derived cl cd client leader_kp capabilities Delegated w))
       (\<lambda>((tx_sig, entity_address), w'). Inr ([ShownTransaction tx_sig, ShownAddress entity_address], w'))))))"

text \<open>\<open>gov::init\<close> and \<open>gov::register_capability\<close>; the key of the new registrar is an argument.\<close>

definition authority_unreadable :: "registry_command_error client_fault" where
  "authority_unreadable = registry_text ''Unable to read provided authority file''"

definition gov_init ::
  "'w cluster \<Rightarrow> registry_codecs \<Rightarrow> cli_context \<Rightarrow> aligned \<Rightarrow> aligned \<Rightarrow> aligned option \<Rightarrow> string option \<Rightarrow> u64 \<Rightarrow> 'w \<Rightarrow>
   registry_command_error client_fault + (registry_shown list \<times> 'w)" where
  "gov_init cl cd ctx registrar_kp registry_pid authority authority_file withdrawal_timelock w =
     and_then (into RegistryAnyError (connect cl ctx registry_pid)) (\<lambda>client.
     and_then (case authority of
         Some a \<Rightarrow> Inr a
       | None \<Rightarrow> and_then (ok_or authority_file ClientPanic) (\<lambda>file.
           ok_or (sdk_read_keypair (cl_sdk cl) file) authority_unreadable)) (\<lambda>authority.
     let accounts = [meta_readonly (sdk_rent_id (cl_sdk cl)) False] in
     and_then (registrar_size cd) (\<lambda>size.
     and_then (into RegistryClientError (create_account_and_method cl (rcd_instruction cd) client size registrar_kp
       accounts (RegistryInitialize authority withdrawal_timelock) w)) (\<lambda>((_, registrar_kp), w').
     Inr ([ShownAddress registrar_kp], w')))))"

definition gov_register_capability ::
  "'w cluster \<Rightarrow> registry_codecs \<Rightarrow> cli_context \<Rightarrow> aligned \<Rightarrow> aligned \<Rightarrow> string \<Rightarrow> u8 option \<Rightarrow> u32 \<Rightarrow> 'w \<Rightarrow>
   registry_command_error client_fault + (registry_shown list \<times> 'w)" where
  "gov_register_capability cl cd ctx registry_pid registrar registrar_authority_file force_id fee_bps w =
     and_then (into RegistryAnyError (connect cl ctx registry_pid)) (\<lambda>client.
     and_then (case force_id of
         Some i \<Rightarrow> Inr i
       | None \<Rightarrow> and_then (into RegistryAnyError (get_account cl (rcd_registrar cd) registrar w)) (\<lambda>registrar_acc.
           ok_or (next_free_capability_id registrar_acc) (registry_text ''No available capability slots left'')))
       (\<lambda>capability_id.
     and_then (ok_or (sdk_read_keypair (cl_sdk cl) registrar_authority_file) authority_unreadable)
       (\<lambda>registrar_authority.
     let accounts = [meta_readonly registrar_authority True, meta registrar False];
         signers = [registrar_authority, cn_payer client] in
     and_then (into RegistryClientError (method_with_signers cl (rcd_instruction cd) client signers accounts
       (RegisterCapability capability_id fee_bps) w)) (\<lambda>(tx_sig, w'). Inr ([ShownTransaction tx_sig], w')))))"

definition registry_gov_cmd ::
  "'w cluster \<Rightarrow> registry_codecs \<Rightarrow> cli_context \<Rightarrow> aligned \<Rightarrow> aligned option \<Rightarrow> registry_gov_command \<Rightarrow> 'w \<Rightarrow>
   registry_command_error client_fault + (registry_shown list \<times> 'w)" where
  "registry_gov_cmd cl cd ctx registrar_kp registry_pid cmd w =
     and_then (ok_or registry_pid (registry_text ''--pid not provided'')) (\<lambda>registry_pid.
     case cmd of
       GovInit authority authority_file withdrawal_timelock \<Rightarrow>
         gov_init cl cd ctx registrar_kp registry_pid authority authority_file withdrawal_timelock w
     | GovRegisterCapability force_id fee_bps registrar registrar_authority_file \<Rightarrow>
         gov_register_capability cl cd ctx registry_pid registrar registrar_authority_file force_id fee_bps w)"

definition registry_account_cmd ::
  "'w cluster \<Rightarrow> registry_codecs \<Rightarrow> cli_context \<Rightarrow> aligned option \<Rightarrow> registry_accounts_command \<Rightarrow> 'w \<Rightarrow>
   registry_command_error client_fault + registry_shown list" where
  "registry_account_cmd cl cd ctx registry_pid cmd w =
     (case cmd of
        AccountsRegistrar address \<Rightarrow>
          and_then (into RegistryAnyError (get_account cl (rcd_registrar cd) address w)) (\<lambda>registrar.
          Inr [ShownRegistrar registrar])
      | AccountsEntity address leader \<Rightarrow>
          and_then (case address of
              Some address \<Rightarrow> Inr address
            | None \<Rightarrow>
                and_then (ok_or registry_pid
                  (registry_text ''Please provide --pid when looking up entities by node leader'')) (\<lambda>registry_pid.
                and_then (ok_or leader ClientPanic) (\<lambda>leader.
                client_try (\<lambda>e. RegistryAnyError (AnyProgram e))
                  (sdk_create_with_seed (cl_sdk cl) leader ''srm:registry:entity'' registry_pid)))) (\<lambda>entity_addr.
          and_then (into RegistryAnyError (get_account cl (rcd_entity cd) entity_addr w)) (\<lambda>acc.
          Inr [ShownEntity entity_addr acc]))
      | AccountsMember address \<Rightarrow>
          and_then (case address of
              Some a \<Rightarrow> Inr a
            | None \<Rightarrow>
                and_then (ok_or registry_pid (registry_text ''--pid not provided'')) (\<lambda>registry_pid.
                and_then (into RegistryAnyError (context_wallet cl ctx)) (\<lambda>k.
                client_try (\<lambda>e. RegistryAnyError (AnyText
                    (''unable to derive stake address: '' @ sdk_error_text (cl_sdk cl) e)))
                  (sdk_create_with_seed (cl_sdk cl) k member_seed registry_pid)))) (\<lambda>address.
          and_then (into RegistryAnyError (get_account cl (rcd_member cd) address w)) (\<lambda>acc.
          Inr [ShownMember acc])))"

definition run_registry_command ::
  "'w cluster \<Rightarrow> registry_codecs \<Rightarrow> cli_context \<Rightarrow> aligned \<Rightarrow> aligned option \<Rightarrow> registry_sub_command \<Rightarrow> 'w \<Rightarrow>
   registry_command_error client_fault + (registry_shown list \<times> 'w)" where
  "run_registry_command cl cd ctx registrar_kp registry_pid cmd w =
     (case cmd of
        RegistryAccountsCmd c \<Rightarrow> and_then (registry_account_cmd cl cd ctx registry_pid c w) (\<lambda>out. Inr (out, w))
      | RegistryGovCmd c \<Rightarrow> registry_gov_cmd cl cd ctx registrar_kp registry_pid c w
      | CreateEntityCmd leader crank \<Rightarrow> create_entity_cmd cl cd ctx registry_pid leader crank w
      | JoinEntityCmd entity beneficiary delegate \<Rightarrow>
          join_entity_cmd cl cd ctx registry_pid entity beneficiary delegate w)"

end
