(* ===== verification/CrankClient.thy ===== *)
theory CrankClient
  imports Consume TokenInstruction
begin

text \<open>
  The client that keeps a market running (\<open>crank/src/lib.rs\<close>), without its network calls: how it
  reads the market and the event queue from the bytes of their accounts, which open-orders
  accounts it passes for consuming events, and the instructions it sends.  What a call of the
  cluster returns is an argument; sending, logging and key generation are left out.
\<close>

subsection \<open>Reading accounts\<close>

datatype crank_error =
    CrankPanic
  | LengthTooSmall nat
  | HeadPaddingMismatch
  | TailPaddingMismatch
  | TransmuteFailed
  | CrankDex dex_fault

text \<open>
  \<open>transmute_many_pedantic\<close> refuses bytes that are not one word at least or not whole words
  (bytes that are not aligned are copied, with the same result).
\<close>

definition remove_dex_account_padding :: "u8 list \<Rightarrow> crank_error + u64 list" where
  "remove_dex_account_padding data =
     (if length data < length ACCOUNT_HEAD_PADDING then Inl CrankPanic
      else if length data < length ACCOUNT_HEAD_PADDING + length ACCOUNT_TAIL_PADDING
      then Inl (LengthTooSmall (length data))
      else case split_padding data of (head, inner, tail) \<Rightarrow>
      if head \<noteq> ACCOUNT_HEAD_PADDING then Inl HeadPaddingMismatch
      else if tail \<noteq> ACCOUNT_TAIL_PADDING then Inl TailPaddingMismatch
      else if length inner < 8 then Inl TransmuteFailed
      else ok_or (words_of_bytes inner) TransmuteFailed)"

record market_pubkeys =
  mp_market :: aligned
  mp_req_q :: aligned
  mp_event_q :: aligned
  mp_bids :: aligned
  mp_asks :: aligned
  mp_coin_vault :: aligned
  mp_pc_vault :: aligned
  mp_vault_signer_key :: aligned

definition get_keys_for_market ::
  "chain \<Rightarrow> aligned \<Rightarrow> aligned \<Rightarrow> u8 list \<Rightarrow> crank_error + market_pubkeys" where
  "get_keys_for_market ch program_id market account_data =
     and_then (remove_dex_account_padding account_data) (\<lambda>words.
     and_then (ok_or (market_of_words words) TransmuteFailed) (\<lambda>m.
     and_then (map_err CrankDex (ms_check_flags m)) (\<lambda>_.
     and_then (map_err CrankDex (gen_vault_signer_key ch (ms_vault_signer_nonce m) market program_id)) (\<lambda>k.
     if ms_own_address m \<noteq> market then Inl CrankPanic
     else Inr \<lparr>mp_market = market, mp_req_q = ms_req_q m, mp_event_q = ms_event_q m, mp_bids = ms_bids m,
               mp_asks = ms_asks m, mp_coin_vault = ms_coin_vault m, mp_pc_vault = ms_pc_vault m,
               mp_vault_signer_key = k\<rparr>))))"

text \<open>The two segments of a ring: from the head to the end of the buffer, and from its start.\<close>

definition queue_segments :: "u64 \<Rightarrow> u64 \<Rightarrow> 'a list \<Rightarrow> crank_error + ('a list \<times> 'a list)" where
  "queue_segments head count elements =
     (if length elements < unat head then Inl CrankPanic
      else
        let tail_seg = take (unat head) elements; head_seg = drop (unat head) elements;
            head_len = min (length head_seg) (unat count);
            tail_len = unat count - head_len
        in if length tail_seg < tail_len then Inl CrankPanic
           else Inr (take head_len head_seg, take tail_len tail_seg))"

definition parse_event_queue :: "u64 list \<Rightarrow> crank_error + (event_queue_header \<times> event list \<times> event list)" where
  "parse_event_queue data_words =
     (if length data_words < 4 then Inl CrankPanic
      else
        let header = event_header_of_words (take 4 data_words); event_words = drop 4 data_words
        in if length event_words < 11 then Inl TransmuteFailed
           else and_then (queue_segments (eqh_head header) (eqh_count header)
                            (map event_of_words (chunks 11 event_words))) (\<lambda>segs.
                Inr (header, segs)))"

definition parse_req_queue :: "u64 list \<Rightarrow> crank_error + (request_queue_header \<times> request list \<times> request list)" where
  "parse_req_queue data_words =
     (if length data_words < 4 then Inl CrankPanic
      else
        let header = request_header_of_words (take 4 data_words); request_words = drop 4 data_words
        in if length request_words < 10 then Inl TransmuteFailed
           else and_then (queue_segments (rqh_head header) (rqh_count header)
                            (map request_of_words (chunks 10 request_words))) (\<lambda>segs.
                Inr (header, segs)))"

definition hash_accounts :: "aligned \<Rightarrow> u64" where
  "hash_accounts val = (case val of (a, b, c, d) \<Rightarrow> fold (\<lambda>x acc. x + acc) [a, b, c, d] 0)"

subsection \<open>Consuming events\<close>

text \<open>
  The loop's \<open>BTreeSet\<close> is an ascending list: owners are inserted from the oldest event on until
  there are as many as asked for.
\<close>

fun used_accounts :: "nat \<Rightarrow> 'k::linorder list \<Rightarrow> 'k list \<Rightarrow> 'k list" where
  "used_accounts num_accounts used [] = used"
| "used_accounts num_accounts used (account # accounts) =
     (let used' = insort_insert account used
      in if num_accounts \<le> length used' then used' else used_accounts num_accounts used' accounts)"

definition consume_metas :: "aligned list \<Rightarrow> market_pubkeys \<Rightarrow> aligned \<Rightarrow> aligned \<Rightarrow> account_meta list" where
  "consume_metas orders_accounts keys coin_wallet pc_wallet =
     map (\<lambda>k. meta k False) orders_accounts @
     map (\<lambda>k. meta k False) [mp_market keys, mp_event_q keys, coin_wallet, pc_wallet]"

text \<open>
  One round of \<open>consume_events_loop\<close> on the data of the two queues: nothing to do, or the
  accounts to pass and the number of threads that send them.
\<close>

definition consume_events_round ::
  "market_pubkeys \<Rightarrow> aligned \<Rightarrow> aligned \<Rightarrow> nat \<Rightarrow> nat \<Rightarrow> nat \<Rightarrow> u8 list \<Rightarrow> u8 list \<Rightarrow>
   crank_error + (account_meta list \<times> nat) option" where
  "consume_events_round keys coin_wallet pc_wallet num_workers events_per_worker num_accounts
     event_q_data req_q_data =
     and_then (remove_dex_account_padding event_q_data) (\<lambda>inner.
     and_then (parse_event_queue inner) (\<lambda>(_, seg0, seg1).
     and_then (remove_dex_account_padding req_q_data) (\<lambda>req_inner.
     and_then (parse_event_queue req_inner) (\<lambda>_.
     let event_q_len = length seg0 + length seg1 in
     if event_q_len = 0 then Inr None
     else
       let orders_accounts = used_accounts num_accounts [] (map ev_owner (seg0 @ seg1));
           account_metas = consume_metas orders_accounts keys coin_wallet pc_wallet
       in if events_per_worker = 0 then Inl CrankPanic
          else Inr (Some (account_metas, min num_workers (2 * event_q_len div events_per_worker + 1)))))))"

text \<open>The instruction of one thread; \<open>serialize\<close> is \<open>bincode\<close>'s encoder, as in \<open>pack\<close>.\<close>

definition consume_events_once ::
  "(u8 \<times> market_instruction \<Rightarrow> u8 list option) \<Rightarrow> aligned \<Rightarrow> account_meta list \<Rightarrow> nat \<Rightarrow> crank_error + instruction" where
  "consume_events_once serialize program_id account_metas to_consume =
     and_then (map_err CrankDex (pack serialize (ConsumeEvents (of_nat to_consume)))) (\<lambda>instruction_data.
     Inr \<lparr>ix_program_id = program_id, ix_accounts = account_metas, ix_data = instruction_data\<rparr>)"

text \<open>\<open>consume_events\<close>, the variant that is run once: the lowest 32 owners of all events.\<close>

definition consume_events ::
  "(u8 \<times> market_instruction \<Rightarrow> u8 list option) \<Rightarrow> aligned \<Rightarrow> market_pubkeys \<Rightarrow> aligned \<Rightarrow> aligned \<Rightarrow> u8 list \<Rightarrow>
   crank_error + instruction option" where
  "consume_events serialize program_id keys coin_wallet pc_wallet event_q_data =
     and_then (remove_dex_account_padding event_q_data) (\<lambda>inner.
     and_then (parse_event_queue inner) (\<lambda>(_, seg0, seg1).
     if length seg0 + length seg1 = 0 then Inr None
     else
       let orders_accounts = take 32 (remdups_adj (sort (map ev_owner (seg0 @ seg1))));
           account_metas = consume_metas orders_accounts keys coin_wallet pc_wallet
       in and_then (map_err CrankDex (pack serialize (ConsumeEvents (of_nat (length account_metas))))) (\<lambda>d.
          Inr (Some \<lparr>ix_program_id = program_id, ix_accounts = account_metas, ix_data = d\<rparr>))))"

subsection \<open>The other instructions\<close>

definition place_order_ix ::
  "(u8 \<times> market_instruction \<Rightarrow> u8 list option) \<Rightarrow> aligned \<Rightarrow> aligned \<Rightarrow> aligned \<Rightarrow> aligned \<Rightarrow> aligned \<Rightarrow>
   market_pubkeys \<Rightarrow> aligned \<Rightarrow> new_order_instruction_v1 \<Rightarrow> crank_error + instruction" where
  "place_order_ix serialize spl_token_id rent_id program_id payer wallet keys orders params =
     and_then (map_err CrankDex (pack serialize (NewOrder params))) (\<lambda>d.
     Inr \<lparr>ix_program_id = program_id,
          ix_accounts =
            [meta (mp_market keys) False, meta orders False, meta (mp_req_q keys) False, meta wallet False,
             meta payer True, meta (mp_coin_vault keys) False, meta (mp_pc_vault keys) False,
             meta spl_token_id False, meta_readonly rent_id False],
          ix_data = d\<rparr>)"

definition settle_funds_ix ::
  "(u8 \<times> market_instruction \<Rightarrow> u8 list option) \<Rightarrow> aligned \<Rightarrow> aligned \<Rightarrow> aligned \<Rightarrow> market_pubkeys \<Rightarrow>
   aligned option \<Rightarrow> aligned \<Rightarrow> aligned \<Rightarrow> aligned \<Rightarrow> crank_error + instruction" where
  "settle_funds_ix serialize spl_token_id program_id payer keys signer orders coin_wallet pc_wallet =
     and_then (map_err CrankDex (pack serialize SettleFunds)) (\<lambda>d.
     Inr \<lparr>ix_program_id = program_id,
          ix_accounts =
            [meta (mp_market keys) False, meta orders False,
             meta_readonly (case signer of None \<Rightarrow> payer | Some s \<Rightarrow> s) True,
             meta (mp_coin_vault keys) False, meta (mp_pc_vault keys) False, meta coin_wallet False,
             meta pc_wallet False, meta_readonly (mp_vault_signer_key keys) False,
             meta_readonly spl_token_id False],
          ix_data = d\<rparr>)"

definition match_orders_ix ::
  "(u8 \<times> market_instruction \<Rightarrow> u8 list option) \<Rightarrow> aligned \<Rightarrow> market_pubkeys \<Rightarrow> aligned \<Rightarrow> aligned \<Rightarrow>
   crank_error + instruction" where
  "match_orders_ix serialize program_id keys coin_wallet pc_wallet =
     and_then (map_err CrankDex (pack serialize (MatchOrders 2))) (\<lambda>d.
     Inr \<lparr>ix_program_id = program_id,
          ix_accounts =
            [meta (mp_market keys) False, meta (mp_req_q keys) False, meta (mp_event_q keys) False,
             meta (mp_bids keys) False, meta (mp_asks keys) False, meta coin_wallet False, meta pc_wallet False],
          ix_data = d\<rparr>)"

text \<open>\<open>serum_dex::instruction::initialize_market\<close>.\<close>

definition initialize_market_ix ::
  "(u8 \<times> market_instruction \<Rightarrow> u8 list option) \<Rightarrow> aligned \<Rightarrow> aligned \<Rightarrow> aligned \<Rightarrow> aligned \<Rightarrow> aligned \<Rightarrow> aligned \<Rightarrow>
   aligned \<Rightarrow> aligned \<Rightarrow> aligned \<Rightarrow> aligned \<Rightarrow> u64 \<Rightarrow> u64 \<Rightarrow> u64 \<Rightarrow> u64 \<Rightarrow> dex_fault + instruction" where
  "initialize_market_ix serialize market program_id coin_mint_pk pc_mint_pk coin_vault_pk pc_vault_pk
     bids_pk asks_pk req_q_pk event_q_pk coin_lot_size pc_lot_size vault_signer_nonce pc_dust_threshold =
     and_then (pack serialize (InitializeMarket
        \<lparr>im_coin_lot_size = coin_lot_size, im_pc_lot_size = pc_lot_size, im_fee_rate_bps = 0,
         im_vault_signer_nonce = vault_signer_nonce, im_pc_dust_threshold = pc_dust_threshold\<rparr>)) (\<lambda>d.
     Inr \<lparr>ix_program_id = program_id,
          ix_accounts =
            [meta market False, meta req_q_pk False, meta event_q_pk False, meta bids_pk False,
             meta asks_pk False, meta coin_vault_pk False, meta pc_vault_pk False,
             meta_readonly coin_mint_pk False, meta_readonly pc_mint_pk False],
          ix_data = d\<rparr>)"

subsection \<open>Listing a market\<close>

text \<open>The lengths of the accounts that \<open>gen_listing_params\<close> creates, in the order it creates them.\<close>

definition dex_account_len :: "nat \<Rightarrow> nat" where  \<comment> \<open>\<open>create_dex_account\<close>\<close>
  "dex_account_len unpadded_len = unpadded_len + 12"

definition listing_lens :: "nat list" where
  "listing_lens = map dex_account_len [376, 640, 2 ^ 20, 2 ^ 16, 2 ^ 16]"

text \<open>The first nonce with an address; the loop asserts that it is below 100.\<close>

function vault_signer_search :: "chain \<Rightarrow> aligned \<Rightarrow> aligned \<Rightarrow> nat \<Rightarrow> crank_error + (u64 \<times> aligned)" where
  "vault_signer_search ch market program_id i =
     (if \<not> i < 100 then Inl CrankPanic
      else case gen_vault_signer_key ch (of_nat i) market program_id of
          Inr pk \<Rightarrow> Inr (of_nat i, pk)
        | Inl _ \<Rightarrow> vault_signer_search ch market program_id (i + 1))"
  by pat_completeness auto
termination by (relation "measure (\<lambda>(ch, market, program_id, i). 100 - i)") auto

declare vault_signer_search.simps [simp del]

end
