(* ===== verification/CrankNet.thy ===== *)
theory CrankNet
  imports CrankClient ClientGen
begin

text \<open>
  The crank's calls of a cluster (\<open>crank/src/lib.rs\<close>): fetching a market's keys, creating
  accounts, listing a market, trading on it, matching, consuming and settling, and its commands.
  The \<open>n\<close>-th key that a function generates is \<open>fresh n\<close>.  Waiting and logging are left out.
\<close>

datatype crank_failure = CrankAny any_error | CrankData crank_error

text \<open>An \<open>Err\<close> of the functions on data goes on as one, and a panic as a panic.\<close>

fun crank_fault :: "crank_error \<Rightarrow> crank_failure client_fault" where
  "crank_fault CrankPanic = ClientPanic"
| "crank_fault (CrankDex Panic) = ClientPanic"
| "crank_fault e = ClientErr (CrankData e)"

definition crank_try :: "crank_error + 'a \<Rightarrow> crank_failure client_fault + 'a" where
  "crank_try r = map_err crank_fault r"

definition rpc_try :: "rpc_error + 'a \<Rightarrow> crank_failure client_fault + 'a" where
  "rpc_try r = client_try (\<lambda>e. CrankAny (AnyRpc e)) r"

definition token_try :: "program_error + 'a \<Rightarrow> crank_failure client_fault + 'a" where
  "token_try r = client_try (\<lambda>e. CrankAny (AnyProgram e)) r"

definition crank_keypair :: "'w cluster \<Rightarrow> string \<Rightarrow> crank_failure client_fault + aligned" where
  "crank_keypair cl s =
     ok_or (sdk_read_keypair (cl_sdk cl) s) (ClientErr (CrankAny (AnyText (''failed to read keypair from '' @ s))))"

definition crank_txn ::
  "'w cluster \<Rightarrow> instruction list \<Rightarrow> aligned \<Rightarrow> aligned list \<Rightarrow> 'w \<Rightarrow> crank_failure client_fault + transaction" where
  "crank_txn cl instructions payer signers w =
     and_then (rpc_try (cl_recent_blockhash cl w)) (\<lambda>recent_hash.
     sign cl instructions payer signers recent_hash)"

definition crank_send :: "'w cluster \<Rightarrow> transaction \<Rightarrow> 'w \<Rightarrow> crank_failure client_fault + (signature \<times> 'w)" where
  "crank_send cl txn w = into CrankAny (send_txn cl txn w)"

text \<open>\<open>simulate_transaction\<close>, and the check of its result.\<close>

definition crank_simulate :: "'w cluster \<Rightarrow> transaction \<Rightarrow> 'w \<Rightarrow> crank_failure client_fault + unit" where
  "crank_simulate cl txn w =
     and_then (rpc_try (cl_simulate cl txn w)) (\<lambda>err.
     case err of
       Some e \<Rightarrow> Inl (ClientErr (CrankAny (AnyText (''simulate_transaction error: '' @ e))))
     | None \<Rightarrow> Inr ())"

definition market_keys ::
  "'w cluster \<Rightarrow> chain \<Rightarrow> aligned \<Rightarrow> aligned \<Rightarrow> 'w \<Rightarrow> crank_failure client_fault + market_pubkeys" where
  "market_keys cl ch program_id market w =
     and_then (rpc_try (cl_data cl market w)) (\<lambda>account_data.
     crank_try (get_keys_for_market ch program_id market account_data))"

subsection \<open>Accounts\<close>

definition create_dex_account ::
  "'w cluster \<Rightarrow> aligned \<Rightarrow> aligned \<Rightarrow> nat \<Rightarrow> aligned \<Rightarrow> 'w \<Rightarrow> crank_failure client_fault + instruction" where
  "create_dex_account cl program_id payer unpadded_len key w =
     (let len = dex_account_len unpadded_len in
      and_then (rpc_try (cl_min_balance cl len w)) (\<lambda>lamports.
      Inr (create_account_ix cl payer key lamports (of_nat len) program_id)))"

definition crank_create_account ::
  "'w cluster \<Rightarrow> aligned \<Rightarrow> aligned \<Rightarrow> aligned \<Rightarrow> aligned \<Rightarrow> 'w \<Rightarrow> crank_failure client_fault + (aligned \<times> 'w)" where
  "crank_create_account cl spl_account mint_pubkey owner_pubkey payer w =
     (let signers = [payer, spl_account] in
      and_then (rpc_try (cl_min_balance cl (token_account_len cl) w)) (\<lambda>lamports.
      let create_account_instr = create_account_ix cl payer spl_account lamports (of_nat (token_account_len cl))
            (token_program_id cl) in
      and_then (token_try (spl_initialize_account (cl_spl cl) (token_program_id cl) spl_account mint_pubkey
        owner_pubkey)) (\<lambda>init_account_instr.
      and_then (crank_txn cl [create_account_instr, init_account_instr] payer signers w) (\<lambda>txn.
      and_then (crank_send cl txn w) (\<lambda>(_, w'). Inr (spl_account, w'))))))"

definition mint_to_existing_account ::
  "'w cluster \<Rightarrow> aligned \<Rightarrow> aligned \<Rightarrow> aligned \<Rightarrow> aligned \<Rightarrow> u64 \<Rightarrow> 'w \<Rightarrow> crank_failure client_fault + 'w" where
  "mint_to_existing_account cl payer minting_key mint recipient quantity w =
     (let signers = [payer, minting_key] in
      and_then (token_try (spl_mint_to (cl_spl cl) (token_program_id cl) mint recipient minting_key [] quantity))
        (\<lambda>mint_tokens_instr.
      and_then (crank_txn cl [mint_tokens_instr] payer signers w) (\<lambda>txn.
      and_then (crank_send cl txn w) (\<lambda>(_, w'). Inr w'))))"

definition initialize_token_account ::
  "'w cluster \<Rightarrow> aligned \<Rightarrow> aligned \<Rightarrow> aligned \<Rightarrow> 'w \<Rightarrow> crank_failure client_fault + (aligned \<times> 'w)" where
  "initialize_token_account cl recip_keypair mint owner w =
     and_then (rpc_try (cl_min_balance cl (token_account_len cl) w)) (\<lambda>lamports.
     let create_recip_instr = create_account_ix cl owner recip_keypair lamports (of_nat (token_account_len cl))
           (token_program_id cl) in
     and_then (token_try (spl_initialize_account (cl_spl cl) (token_program_id cl) recip_keypair mint owner))
       (\<lambda>init_recip_instr.
     let signers = [owner, recip_keypair] in
     and_then (crank_txn cl [create_recip_instr, init_recip_instr] owner signers w) (\<lambda>txn.
     and_then (crank_send cl txn w) (\<lambda>(_, w'). Inr (recip_keypair, w')))))"

subsection \<open>Listing a market\<close>

datatype (plugins only: code) listing_keys = ListingKeys
  (lk_market_key: aligned) (lk_req_q_key: aligned) (lk_event_q_key: aligned) (lk_bids_key: aligned)
  (lk_asks_key: aligned) (lk_vault_signer_pk: aligned) (lk_vault_signer_nonce: u64)

definition gen_listing_params ::
  "'w cluster \<Rightarrow> chain \<Rightarrow> (nat \<Rightarrow> aligned) \<Rightarrow> aligned \<Rightarrow> aligned \<Rightarrow> 'w \<Rightarrow>
   crank_failure client_fault + (listing_keys \<times> instruction list)" where
  "gen_listing_params cl ch fresh program_id payer w =
     and_then (create_dex_account cl program_id payer 376 (fresh 0) w) (\<lambda>create_market.
     and_then (create_dex_account cl program_id payer 640 (fresh 1) w) (\<lambda>create_req_q.
     and_then (create_dex_account cl program_id payer (2 ^ 20) (fresh 2) w) (\<lambda>create_event_q.
     and_then (create_dex_account cl program_id payer (2 ^ 16) (fresh 3) w) (\<lambda>create_bids.
     and_then (create_dex_account cl program_id payer (2 ^ 16) (fresh 4) w) (\<lambda>create_asks.
     and_then (crank_try (vault_signer_search ch (fresh 0) program_id 0)) (\<lambda>(vault_signer_nonce, vault_signer_pk).
     Inr (ListingKeys (fresh 0) (fresh 1) (fresh 2) (fresh 3) (fresh 4) vault_signer_pk vault_signer_nonce,
          [create_market, create_req_q, create_event_q, create_bids, create_asks])))))))"

text \<open>The keys generated for the vaults come after those for the five accounts.\<close>

definition list_market ::
  "'w cluster \<Rightarrow> chain \<Rightarrow> (u8 \<times> market_instruction \<Rightarrow> u8 list option) \<Rightarrow> (nat \<Rightarrow> aligned) \<Rightarrow> aligned \<Rightarrow> aligned \<Rightarrow>
   aligned \<Rightarrow> aligned \<Rightarrow> u64 \<Rightarrow> u64 \<Rightarrow> 'w \<Rightarrow> crank_failure client_fault + (market_pubkeys \<times> 'w)" where
  "list_market cl ch serialize fresh program_id payer coin_mint pc_mint coin_lot_size pc_lot_size w =
     and_then (gen_listing_params cl ch fresh program_id payer w) (\<lambda>(listing_keys, instructions).
     and_then (into CrankAny (create_token_account cl (fresh 5) coin_mint (lk_vault_signer_pk listing_keys) payer w))
       (\<lambda>(coin_vault, w1).
     and_then (into CrankAny (create_token_account cl (fresh 6) pc_mint (lk_vault_signer_pk listing_keys) payer w1))
       (\<lambda>(pc_vault, w2).
     and_then (crank_try (map_err CrankDex (initialize_market_ix serialize (lk_market_key listing_keys) program_id
       coin_mint pc_mint coin_vault pc_vault (lk_bids_key listing_keys) (lk_asks_key listing_keys)
       (lk_req_q_key listing_keys) (lk_event_q_key listing_keys) coin_lot_size pc_lot_size
       (lk_vault_signer_nonce listing_keys) 100))) (\<lambda>init_market_instruction.
     let instructions = instructions @ [init_market_instruction];
         signers = [payer, lk_market_key listing_keys, lk_req_q_key listing_keys, lk_event_q_key listing_keys,
           lk_bids_key listing_keys, lk_asks_key listing_keys, lk_req_q_key listing_keys,
           lk_event_q_key listing_keys] in
     and_then (crank_txn cl instructions payer signers w2) (\<lambda>txn.
     and_then (crank_simulate cl txn w2) (\<lambda>_.
     and_then (crank_send cl txn w2) (\<lambda>(_, w3).
     Inr (\<lparr>mp_market = lk_market_key listing_keys, mp_req_q = lk_req_q_key listing_keys,
           mp_event_q = lk_event_q_key listing_keys, mp_bids = lk_bids_key listing_keys,
           mp_asks = lk_asks_key listing_keys, mp_coin_vault = coin_vault, mp_pc_vault = pc_vault,
           mp_vault_signer_key = lk_vault_signer_pk listing_keys\<rparr>, w3))))))))"

subsection \<open>Trading on a market\<close>

text \<open>Without an orders account a new one, of \<open>OpenOrders\<close>' 402 words, is created in the same transaction.\<close>

definition place_order ::
  "'w cluster \<Rightarrow> (u8 \<times> market_instruction \<Rightarrow> u8 list option) \<Rightarrow> aligned \<Rightarrow> aligned \<Rightarrow> aligned \<Rightarrow> aligned \<Rightarrow>
   market_pubkeys \<Rightarrow> aligned option \<Rightarrow> new_order_instruction_v1 \<Rightarrow> 'w \<Rightarrow>
   crank_failure client_fault + (aligned \<times> 'w)" where
  "place_order cl serialize orders_key program_id payer wallet state orders the_order w =
     and_then (case orders of
         Some pk \<Rightarrow> Inr (pk, [], [])
       | None \<Rightarrow> and_then (create_dex_account cl program_id payer (402 * 8) orders_key w) (\<lambda>instruction.
           Inr (orders_key, [orders_key], [instruction]))) (\<lambda>(orders_pubkey, signers, instructions).
     and_then (crank_try (place_order_ix serialize (token_program_id cl) (sdk_rent_id (cl_sdk cl)) program_id payer
       wallet state orders_pubkey the_order)) (\<lambda>instruction.
     and_then (crank_txn cl (instructions @ [instruction]) payer (signers @ [payer]) w) (\<lambda>txn.
     and_then (crank_send cl txn w) (\<lambda>(_, w'). Inr (orders_pubkey, w')))))"

text \<open>The loop around the simulation ends in its first round, with an error or without.\<close>

definition settle_funds ::
  "'w cluster \<Rightarrow> (u8 \<times> market_instruction \<Rightarrow> u8 list option) \<Rightarrow> aligned \<Rightarrow> aligned \<Rightarrow> market_pubkeys \<Rightarrow>
   aligned option \<Rightarrow> aligned \<Rightarrow> aligned \<Rightarrow> aligned \<Rightarrow> 'w \<Rightarrow> crank_failure client_fault + 'w" where
  "settle_funds cl serialize program_id payer state signer orders coin_wallet pc_wallet w =
     and_then (crank_try (settle_funds_ix serialize (token_program_id cl) program_id payer state signer orders
       coin_wallet pc_wallet)) (\<lambda>instruction.
     let signers = payer # (case signer of Some s \<Rightarrow> [s] | None \<Rightarrow> []) in
     and_then (crank_txn cl [instruction] payer signers w) (\<lambda>txn.
     and_then (crank_simulate cl txn w) (\<lambda>_.
     and_then (crank_send cl txn w) (\<lambda>(_, w'). Inr w'))))"

definition match_orders ::
  "'w cluster \<Rightarrow> (u8 \<times> market_instruction \<Rightarrow> u8 list option) \<Rightarrow> aligned \<Rightarrow> aligned \<Rightarrow> market_pubkeys \<Rightarrow> aligned \<Rightarrow>
   aligned \<Rightarrow> 'w \<Rightarrow> crank_failure client_fault + 'w" where
  "match_orders cl serialize program_id payer state coin_wallet pc_wallet w =
     and_then (crank_try (match_orders_ix serialize program_id state coin_wallet pc_wallet)) (\<lambda>instruction.
     and_then (crank_txn cl [instruction] payer [payer] w) (\<lambda>txn.
     and_then (crank_simulate cl txn w) (\<lambda>_.
     and_then (crank_send cl txn w) (\<lambda>(_, w'). Inr w'))))"

definition crank_consume_events ::
  "'w cluster \<Rightarrow> (u8 \<times> market_instruction \<Rightarrow> u8 list option) \<Rightarrow> aligned \<Rightarrow> aligned \<Rightarrow> market_pubkeys \<Rightarrow> aligned \<Rightarrow>
   aligned \<Rightarrow> 'w \<Rightarrow> crank_failure client_fault + 'w" where
  "crank_consume_events cl serialize program_id payer state coin_wallet pc_wallet w =
     and_then (rpc_try (cl_data cl (mp_event_q state) w)) (\<lambda>event_q_data.
     and_then (crank_try (consume_events serialize program_id state coin_wallet pc_wallet event_q_data))
       (\<lambda>instruction.
     case instruction of
       None \<Rightarrow> Inr w
     | Some instruction \<Rightarrow>
         and_then (crank_txn cl [instruction] payer [payer] w) (\<lambda>txn.
         and_then (crank_send cl txn w) (\<lambda>(_, w'). Inr w'))))"

subsection \<open>The loop that consumes events\<close>

text \<open>One job of the pool; the random amount of its transfer to the payer is an argument.\<close>

definition consume_once_sent ::
  "'w cluster \<Rightarrow> (u8 \<times> market_instruction \<Rightarrow> u8 list option) \<Rightarrow> aligned \<Rightarrow> aligned \<Rightarrow> account_meta list \<Rightarrow> nat \<Rightarrow>
   u64 \<Rightarrow> 'w \<Rightarrow> crank_failure client_fault + (signature \<times> 'w)" where
  "consume_once_sent cl serialize program_id payer account_metas to_consume rnd w =
     and_then (crank_try (consume_events_once serialize program_id account_metas to_consume)) (\<lambda>instruction.
     let random_instruction = sdk_transfer (cl_sdk cl) payer payer (rnd mod 10000 + 1) in
     and_then (crank_txn cl [instruction, random_instruction] payer [payer] w) (\<lambda>txn.
     rpc_try (cl_submit cl txn w)))"

text \<open>An error is logged; a panic ends the job.\<close>

definition consume_events_wrapper ::
  "'w cluster \<Rightarrow> (u8 \<times> market_instruction \<Rightarrow> u8 list option) \<Rightarrow> aligned \<Rightarrow> aligned \<Rightarrow> account_meta list \<Rightarrow> nat \<Rightarrow>
   u64 \<Rightarrow> 'w \<Rightarrow> 'w" where
  "consume_events_wrapper cl serialize program_id payer account_metas to_consume rnd w =
     (case consume_once_sent cl serialize program_id payer account_metas to_consume rnd w of
        Inr (_, w') \<Rightarrow> w'
      | Inl _ \<Rightarrow> w)"

text \<open>
  A round of the loop.  The jobs are the same but for their transfers, and run here one after the
  other: what overlapping jobs can do otherwise is sign with an earlier block's hash.
\<close>

definition fetch_expected :: "'w cluster \<Rightarrow> aligned \<Rightarrow> 'w \<Rightarrow> crank_failure client_fault + u8 list" where
  "fetch_expected cl k w = and_then (rpc_try (cl_account cl k w)) (\<lambda>value. ok_or value ClientPanic)"

definition consume_round ::
  "'w cluster \<Rightarrow> (u8 \<times> market_instruction \<Rightarrow> u8 list option) \<Rightarrow> aligned \<Rightarrow> string \<Rightarrow> market_pubkeys \<Rightarrow> aligned \<Rightarrow>
   aligned \<Rightarrow> nat \<Rightarrow> nat \<Rightarrow> nat \<Rightarrow> (nat \<Rightarrow> u64) \<Rightarrow> 'w \<Rightarrow> crank_failure client_fault + 'w" where
  "consume_round cl serialize program_id payer_path keys coin_wallet pc_wallet num_workers
     events_per_worker num_accounts rnd w =
     and_then (fetch_expected cl (mp_event_q keys) w) (\<lambda>event_q_data.
     and_then (fetch_expected cl (mp_req_q keys) w) (\<lambda>req_q_data.
     and_then (crank_try (consume_events_round keys coin_wallet pc_wallet num_workers events_per_worker
       num_accounts event_q_data req_q_data)) (\<lambda>round.
     case round of
       None \<Rightarrow> Inr w
     | Some (account_metas, threads) \<Rightarrow>
         if threads = 0 then Inr w
         else and_then (crank_keypair cl payer_path) (\<lambda>payer.
           Inr (fold (\<lambda>thread_num. consume_events_wrapper cl serialize program_id payer account_metas
             events_per_worker (rnd thread_num)) [0..<threads] w)))))"

text \<open>\<open>n\<close> rounds of the loop, which only an error or a panic ends; a pool has at least one worker.\<close>

fun consume_rounds ::
  "nat \<Rightarrow> ('w \<Rightarrow> nat \<Rightarrow> crank_failure client_fault + 'w) \<Rightarrow> 'w \<Rightarrow> crank_failure client_fault + 'w" where
  "consume_rounds 0 round w = Inr w"
| "consume_rounds (Suc n) round w = and_then (round w n) (\<lambda>w'. consume_rounds n round w')"

definition consume_events_loop ::
  "nat \<Rightarrow> 'w cluster \<Rightarrow> chain \<Rightarrow> (u8 \<times> market_instruction \<Rightarrow> u8 list option) \<Rightarrow> aligned \<Rightarrow> string \<Rightarrow> aligned \<Rightarrow>
   aligned \<Rightarrow> aligned \<Rightarrow> nat \<Rightarrow> nat \<Rightarrow> nat \<Rightarrow> (nat \<Rightarrow> nat \<Rightarrow> u64) \<Rightarrow> 'w \<Rightarrow> crank_failure client_fault + 'w" where
  "consume_events_loop n cl ch serialize program_id payer_path market coin_wallet pc_wallet num_workers
     events_per_worker num_accounts rnd w =
     and_then (market_keys cl ch program_id market w) (\<lambda>keys.
     and_then (guard (num_workers \<noteq> 0) ClientPanic) (\<lambda>_.
     consume_rounds n (\<lambda>w i. consume_round cl serialize program_id payer_path keys coin_wallet pc_wallet
       num_workers events_per_worker num_accounts (rnd i) w) w))"

text \<open>The answer of the server that monitors a queue: its length, or a panic.\<close>

definition queue_length ::
  "'w cluster \<Rightarrow> chain \<Rightarrow> aligned \<Rightarrow> aligned \<Rightarrow> 'w \<Rightarrow> crank_failure client_fault + nat" where
  "queue_length cl ch program_id market w =
     expect (and_then (market_keys cl ch program_id market w) (\<lambda>keys.
       and_then (fetch_expected cl (mp_event_q keys) w) (\<lambda>event_q_data.
       and_then (crank_try (remove_dex_account_padding event_q_data)) (\<lambda>inner.
       and_then (crank_try (parse_event_queue inner)) (\<lambda>(_, seg0, seg1).
       Inr (length seg0 + length seg1))))))"

end
