(* ===== verification/InstructionFormats.thy ===== *)
theory InstructionFormats
  imports LockupProgram Registry
begin

text \<open>
  The documented format of an enum with fields, and of the instructions of the lockup and
  registry programs: the index of the variant in four bytes, then its fields.
\<close>

subsection \<open>Enums\<close>

text \<open>A codec of a variant's fields, for the values of that variant.\<close>

definition variant_codec :: "('a \<Rightarrow> 'b option) \<Rightarrow> ('b \<Rightarrow> 'a) \<Rightarrow> 'b codec \<Rightarrow> 'a codec" where
  "variant_codec parts build c =
     \<lparr>cd_encode = (\<lambda>x. Option.bind (parts x) (cd_encode c)),
      cd_decode = (\<lambda>bs. map_option (\<lambda>(y, rest). (build y, rest)) (cd_decode c bs)),
      cd_size = (\<lambda>x. Option.bind (parts x) (cd_size c))\<rparr>"

definition enum_codec :: "('a \<Rightarrow> u32) \<Rightarrow> (u32 \<Rightarrow> 'a codec option) \<Rightarrow> 'a codec" where
  "enum_codec index variants =
     \<lparr>cd_encode = (\<lambda>x. Option.bind (variants (index x)) (\<lambda>c.
        map_option (\<lambda>bs. le_bytes 4 (index x) @ bs) (cd_encode c x))),
      cd_decode = (\<lambda>bs. Option.bind (cd_decode u32_codec bs) (\<lambda>(t, rest).
        Option.bind (variants t) (\<lambda>c. cd_decode c rest))),
      cd_size = (\<lambda>x. Option.bind (variants (index x)) (\<lambda>c. map_option (\<lambda>n. 4 + n) (cd_size c x)))\<rparr>"

definition unit_codec :: "unit codec" where
  "unit_codec = fixed_codec 0 (\<lambda>_. []) (\<lambda>_. Some ())"

lemma unit_packing: "packing unit_codec"
  unfolding unit_codec_def by (rule fixed_packing) auto

lemma variant_packing:
  assumes c: "packing c" and inv: "\<And>x y. parts x = Some y \<longleftrightarrow> x = build y"
  shows "packing (variant_codec parts build c)"
proof
  fix x bs rest assume "cd_encode (variant_codec parts build c) x = Some bs"
  then obtain y where "x = build y" "cd_encode c y = Some bs"
    by (auto simp: variant_codec_def bind_eq_Some_conv inv)
  then show "cd_decode (variant_codec parts build c) (bs @ rest) = Some (x, rest)"
    using packing.decode_encode [OF c] by (simp add: variant_codec_def)
next
  fix x bs rest assume "cd_decode (variant_codec parts build c) bs = Some (x, rest)"
  then obtain y where "cd_decode c bs = Some (y, rest)" "x = build y" by (auto simp: variant_codec_def)
  moreover have "parts (build y) = Some y" by (simp add: inv)
  ultimately show "\<exists>e. cd_encode (variant_codec parts build c) x = Some e \<and> bs = e @ rest"
    using packing.encode_decode [OF c] by (simp add: variant_codec_def)
next
  fix x show "cd_size (variant_codec parts build c) x =
      map_option (\<lambda>bs. of_nat (length bs)) (cd_encode (variant_codec parts build c) x)"
    using packing.size_encode [OF c] by (cases "parts x") (simp_all add: variant_codec_def)
qed

lemma enum_packing:
  assumes pack: "\<And>t c. variants t = Some c \<Longrightarrow> packing c"
    and own: "\<And>t c bs x rest. variants t = Some c \<Longrightarrow> cd_decode c bs = Some (x, rest) \<Longrightarrow> index x = t"
  shows "packing (enum_codec index variants)"
proof
  fix x bs rest assume "cd_encode (enum_codec index variants) x = Some bs"
  then obtain c e where c: "variants (index x) = Some c" "cd_encode c x = Some e" "bs = le_bytes 4 (index x) @ e"
    by (auto simp: enum_codec_def bind_eq_Some_conv)
  from packing.decode_encode [OF u32_packing, of "index x" "le_bytes 4 (index x)" "e @ rest"]
  have "cd_decode u32_codec (bs @ rest) = Some (index x, e @ rest)" by (simp add: c(3) u32_codec_def)
  then show "cd_decode (enum_codec index variants) (bs @ rest) = Some (x, rest)"
    using packing.decode_encode [OF pack [OF c(1)] c(2)] c(1) by (simp add: enum_codec_def)
next
  fix x bs rest assume "cd_decode (enum_codec index variants) bs = Some (x, rest)"
  then obtain t r c where r: "cd_decode u32_codec bs = Some (t, r)" "variants t = Some c" "cd_decode c r = Some (x, rest)"
    by (auto simp: enum_codec_def bind_eq_Some_conv)
  have t: "index x = t" by (rule own [OF r(2,3)])
  obtain e where "cd_encode c x = Some e" "r = e @ rest" using packing.encode_decode [OF pack [OF r(2)] r(3)] by blast
  moreover have "bs = le_bytes 4 t @ r" using packing.encode_decode [OF u32_packing r(1)] by (simp add: u32_codec_def)
  ultimately show "\<exists>e. cd_encode (enum_codec index variants) x = Some e \<and> bs = e @ rest"
    using r(2) t by (simp add: enum_codec_def)
next
  fix x show "cd_size (enum_codec index variants) x =
      map_option (\<lambda>bs. of_nat (length bs)) (cd_encode (enum_codec index variants) x)"
  proof (cases "variants (index x)")
    case (Some c)
    then show ?thesis using packing.size_encode [OF pack [OF Some], of x]
      by (cases "cd_encode c x") (simp_all add: enum_codec_def)
  qed (simp add: enum_codec_def)
qed

subsection \<open>The lockup program's instructions\<close>

definition whitelist_entry_format :: "whitelist_entry codec" where
  "whitelist_entry_format = map_codec
     (\<lambda>e. (we_program_id e, we_instance e, we_nonce e))
     (\<lambda>(p, i, n). \<lparr>we_program_id = p, we_instance = i, we_nonce = n\<rparr>)
     (pair_codec key_codec (pair_codec key_codec u8_codec))"

primrec lockup_index :: "lockup_instruction \<Rightarrow> u32" where
  "lockup_index (Initialize a n) = 0"
| "lockup_index (CreateVesting b e p d) = 1"
| "lockup_index Claim = 2"
| "lockup_index (Redeem a) = 3"
| "lockup_index (WhitelistWithdraw a d) = 4"
| "lockup_index (WhitelistDeposit d) = 5"
| "lockup_index (WhitelistAdd e) = 6"
| "lockup_index (WhitelistDelete e) = 7"
| "lockup_index (SetAuthority a) = 8"
| "lockup_index Migrate = 9"

definition lockup_variants :: "u32 \<Rightarrow> lockup_instruction codec option" where
  "lockup_variants t =
     (if t = 0 then Some (variant_codec (\<lambda>x. case x of Initialize a n \<Rightarrow> Some (a, n) | _ \<Rightarrow> None)
        (\<lambda>(a, n). Initialize a n) (pair_codec key_codec u8_codec))
      else if t = 1 then Some (variant_codec (\<lambda>x. case x of CreateVesting b e p d \<Rightarrow> Some (b, e, p, d) | _ \<Rightarrow> None)
        (\<lambda>(b, e, p, d). CreateVesting b e p d) (pair_codec key_codec (pair_codec u64_codec (pair_codec u64_codec u64_codec))))
      else if t = 2 then Some (variant_codec (\<lambda>x. if x = Claim then Some () else None) (\<lambda>_. Claim) unit_codec)
      else if t = 3 then Some (variant_codec (\<lambda>x. case x of Redeem a \<Rightarrow> Some a | _ \<Rightarrow> None) Redeem u64_codec)
      else if t = 4 then Some (variant_codec (\<lambda>x. case x of WhitelistWithdraw a d \<Rightarrow> Some (a, d) | _ \<Rightarrow> None)
        (\<lambda>(a, d). WhitelistWithdraw a d) (pair_codec u64_codec vec_codec))
      else if t = 5 then Some (variant_codec (\<lambda>x. case x of WhitelistDeposit d \<Rightarrow> Some d | _ \<Rightarrow> None) WhitelistDeposit vec_codec)
      else if t = 6 then Some (variant_codec (\<lambda>x. case x of WhitelistAdd e \<Rightarrow> Some e | _ \<Rightarrow> None) WhitelistAdd
        whitelist_entry_format)
      else if t = 7 then Some (variant_codec (\<lambda>x. case x of WhitelistDelete e \<Rightarrow> Some e | _ \<Rightarrow> None) WhitelistDelete
        whitelist_entry_format)
      else if t = 8 then Some (variant_codec (\<lambda>x. case x of SetAuthority a \<Rightarrow> Some a | _ \<Rightarrow> None) SetAuthority key_codec)
      else if t = 9 then Some (variant_codec (\<lambda>x. if x = Migrate then Some () else None) (\<lambda>_. Migrate) unit_codec)
      else None)"

definition lockup_instruction_format :: "lockup_instruction codec" where
  "lockup_instruction_format = enum_codec lockup_index lockup_variants"

lemma whitelist_entry_packing: "packing whitelist_entry_format"
  unfolding whitelist_entry_format_def by (rule map_packing, intro packing_intros) auto

interpretation lockup_instruction_pack: packing lockup_instruction_format
  unfolding lockup_instruction_format_def
proof (rule enum_packing)
  fix t c assume "lockup_variants t = Some c"
  then show "packing c"
    by (auto simp: lockup_variants_def split: if_splits lockup_instruction.splits
        intro!: variant_packing packing_intros unit_packing whitelist_entry_packing)
next
  fix t c bs x rest assume "lockup_variants t = Some c" "cd_decode c bs = Some (x, rest)"
  then show "lockup_index x = t" by (auto simp: lockup_variants_def variant_codec_def split: if_splits)
qed

subsection \<open>The registry program's instructions\<close>

primrec registry_index :: "registry_instruction \<Rightarrow> u32" where
  "registry_index (RegistryInitialize a t) = 0"
| "registry_index (RegisterCapability c f) = 1"
| "registry_index (CreateEntity c k) = 2"
| "registry_index (UpdateEntity l c) = 3"
| "registry_index (JoinEntity b d) = 4"
| "registry_index (Stake a m) = 5"
| "registry_index (StartStakeWithdrawal a m) = 6"
| "registry_index EndStakeWithdrawal = 7"
| "registry_index (Donate a) = 8"

definition registry_variants :: "u32 \<Rightarrow> registry_instruction codec option" where
  "registry_variants t =
     (if t = 0 then Some (variant_codec (\<lambda>x. case x of RegistryInitialize a n \<Rightarrow> Some (a, n) | _ \<Rightarrow> None)
        (\<lambda>(a, n). RegistryInitialize a n) (pair_codec key_codec u64_codec))
      else if t = 1 then Some (variant_codec (\<lambda>x. case x of RegisterCapability c f \<Rightarrow> Some (c, f) | _ \<Rightarrow> None)
        (\<lambda>(c, f). RegisterCapability c f) (pair_codec u8_codec u32_codec))
      else if t = 2 then Some (variant_codec (\<lambda>x. case x of CreateEntity c k \<Rightarrow> Some (c, k) | _ \<Rightarrow> None)
        (\<lambda>(c, k). CreateEntity c k) (pair_codec u32_codec kind_codec))
      else if t = 3 then Some (variant_codec (\<lambda>x. case x of UpdateEntity l c \<Rightarrow> Some (l, c) | _ \<Rightarrow> None)
        (\<lambda>(l, c). UpdateEntity l c) (pair_codec key_codec u32_codec))
      else if t = 4 then Some (variant_codec (\<lambda>x. case x of JoinEntity b d \<Rightarrow> Some (b, d) | _ \<Rightarrow> None)
        (\<lambda>(b, d). JoinEntity b d) (pair_codec key_codec key_codec))
      else if t = 5 then Some (variant_codec (\<lambda>x. case x of Stake a m \<Rightarrow> Some (a, m) | _ \<Rightarrow> None)
        (\<lambda>(a, m). Stake a m) (pair_codec u64_codec bool_codec))
      else if t = 6 then Some (variant_codec (\<lambda>x. case x of StartStakeWithdrawal a m \<Rightarrow> Some (a, m) | _ \<Rightarrow> None)
        (\<lambda>(a, m). StartStakeWithdrawal a m) (pair_codec u64_codec u64_codec))
      else if t = 7 then Some (variant_codec (\<lambda>x. if x = EndStakeWithdrawal then Some () else None)
        (\<lambda>_. EndStakeWithdrawal) unit_codec)
      else if t = 8 then Some (variant_codec (\<lambda>x. case x of Donate a \<Rightarrow> Some a | _ \<Rightarrow> None) Donate u64_codec)
      else None)"

definition registry_instruction_format :: "registry_instruction codec" where
  "registry_instruction_format = enum_codec registry_index registry_variants"

interpretation registry_instruction_pack: packing registry_instruction_format
  unfolding registry_instruction_format_def
proof (rule enum_packing)
  fix t c assume "registry_variants t = Some c"
  then show "packing c"
    by (auto simp: registry_variants_def split: if_splits registry_instruction.splits
        intro!: variant_packing packing_intros unit_packing kind_packing)
next
  fix t c bs x rest assume "registry_variants t = Some c" "cd_decode c bs = Some (x, rest)"
  then show "registry_index x = t" by (auto simp: registry_variants_def variant_codec_def split: if_splits)
qed

end
