(* ===== verification/ClientLaws.thy ===== *)
theory ClientLaws
  imports LockupClient RegistryClient CrankNet InstructionFormats
begin

text \<open>
  What the clients rely on of the SDK and the token program's library, as hypotheses, and the
  calculus of calls that do not panic.
\<close>

declare split_paired_All [simp del] split_paired_Ex [simp del]

subsection \<open>The SDK and the token program's library\<close>

text \<open>The keys whose signatures a transaction needs.\<close>

definition needed_signers :: "instruction list \<Rightarrow> aligned \<Rightarrow> aligned set" where
  "needed_signers ixs payer = insert payer (\<Union>ix\<in>set ixs. signer_keys ix)"

text \<open>
  As documented: signing panics unless the keys are those that are needed; an account is created
  with the signatures of who pays, and of the account or of the key its address is derived from;
  creating an account says which, owned by whom, of what size and balance; minting takes the
  authority's signature, initialising an account or a mint none.
\<close>

definition honest_sdk :: "'w cluster \<Rightarrow> bool" where
  "honest_sdk cl \<longleftrightarrow>
     (\<forall>ixs payer signers h. (sdk_sign (cl_sdk cl) ixs payer signers h \<noteq> None) = (set signers = needed_signers ixs payer)) \<and>
     (\<forall>ixs payer signers h tx. sdk_sign (cl_sdk cl) ixs payer signers h = Some tx \<longrightarrow> tx_instructions tx = ixs) \<and>
     (\<forall>from to l s p. signer_keys (create_account_ix cl from to l s p) = {from, to}) \<and>
     (\<forall>from to b seed l s p. signer_keys (sdk_create_account_with_seed (cl_sdk cl) from to b seed l s p) = {from, b}) \<and>
     (\<forall>from to l. signer_keys (sdk_transfer (cl_sdk cl) from to l) = {from}) \<and>
     (\<forall>t a m own i. spl_initialize_account (cl_spl cl) t a m own = Inr i \<longrightarrow> signer_keys i = {}) \<and>
     (\<forall>t m own f n i. spl_initialize_mint (cl_spl cl) t m own f n = Inr i \<longrightarrow> signer_keys i = {}) \<and>
     (\<forall>t m a own q i. spl_mint_to (cl_spl cl) t m a own [] q = Inr i \<longrightarrow> signer_keys i = {own}) \<and>
     (\<forall>from to l s p from' to' l' s' p'.
        create_account_ix cl from to l s p = create_account_ix cl from' to' l' s' p' \<longrightarrow>
        to = to' \<and> l = l' \<and> s = s' \<and> p = p')"

lemma honest_sdkD:
  assumes "honest_sdk cl"
  shows "(\<exists>tx. sdk_sign (cl_sdk cl) ixs payer signers h = Some tx) \<longleftrightarrow> set signers = needed_signers ixs payer"
    and "sdk_sign (cl_sdk cl) ixs payer signers h = Some tx \<Longrightarrow> tx_instructions tx = ixs"
    and "signer_keys (create_account_ix cl from to l s p) = {from, to}"
    and "signer_keys (sdk_create_account_with_seed (cl_sdk cl) from to b seed l s p) = {from, b}"
    and "signer_keys (sdk_transfer (cl_sdk cl) from to l) = {from}"
    and "spl_initialize_account (cl_spl cl) t a m own = Inr i \<Longrightarrow> signer_keys i = {}"
    and "spl_initialize_mint (cl_spl cl) t m own f n = Inr i \<Longrightarrow> signer_keys i = {}"
    and "spl_mint_to (cl_spl cl) t m a own [] q = Inr i \<Longrightarrow> signer_keys i = {own}"
  using assms by (simp_all add: honest_sdk_def)

lemma creation_tells:
  assumes "honest_sdk cl"
    and "create_account_ix cl from to l s p = create_account_ix cl from' to' l' s' p'"
  shows "to = to' \<and> l = l' \<and> s = s' \<and> p = p'"
  using assms unfolding honest_sdk_def by (elim conjE; metis)

text \<open>An account as the instruction that creates it says.\<close>

definition as_created :: "acct \<Rightarrow> u64 \<Rightarrow> u64 \<Rightarrow> aligned \<Rightarrow> bool" where
  "as_created a lamports space own \<longleftrightarrow>
     ac_lamports a = lamports \<and> ac_data a = replicate (unat space) 0 \<and> ac_owner a = own"

definition created_by :: "'w cluster \<Rightarrow> instruction \<Rightarrow> acct \<Rightarrow> bool" where
  "created_by cl ix a \<longleftrightarrow> (\<exists>from l s p. ix = create_account_ix cl from (ac_key a) l s p \<and> as_created a l s p)"

lemma created_as:
  assumes "honest_sdk cl"
  shows "created_by cl (create_account_ix cl from k l s p) a \<longleftrightarrow> ac_key a = k \<and> as_created a l s p"
  using creation_tells [OF assms] unfolding created_by_def by metis

text \<open>
  The runtime is the SDK's: the same system variables and token program, addresses are derived
  alike, the address that is found is one, and the balance a cluster asks for is exempt from rent.
\<close>

definition same_runtime :: "'w cluster \<Rightarrow> 'm runtime_scheme \<Rightarrow> bool" where
  "same_runtime cl rt \<longleftrightarrow>
     rt_rent_id rt = sdk_rent_id (cl_sdk cl) \<and> rt_clock_id rt = sdk_clock_id (cl_sdk cl) \<and>
     rt_token_id rt = token_program_id cl \<and> rt_program_address rt = sdk_program_address (cl_sdk cl) \<and>
     (\<forall>seeds p k n. sdk_find_program_address (cl_sdk cl) seeds p = Some (k, n) \<longrightarrow>
        sdk_program_address (cl_sdk cl) (seeds @ [[n]]) p = Inr k) \<and>
     (\<forall>a is_exempt n w l. rt_rent rt a = Inr is_exempt \<longrightarrow> cl_min_balance cl n w = Inr l \<longrightarrow> is_exempt l n)"

subsection \<open>Calls that do not panic\<close>

definition calm :: "'e client_fault + 'a \<Rightarrow> bool" where
  "calm r \<longleftrightarrow> r \<noteq> Inl ClientPanic"

named_theorems calm_rules \<open>introduction rules of calm\<close>

lemma calm_basic [calm_rules]:
  "calm (Inr x)" "calm (Inl (ClientErr e))" "calm (client_try f r)" "calm (ok_or v (ClientErr e))"
  "calm (guard b (ClientErr e))"
  by (simp_all add: calm_def client_try_def map_err_def ok_or_def guard_def split: sum.split option.split)

lemma calm_and_then [calm_rules]: "calm r \<Longrightarrow> (\<And>x. r = Inr x \<Longrightarrow> calm (f x)) \<Longrightarrow> calm (and_then r f)"
  by (cases r) (auto simp: calm_def)

lemma calm_Let [calm_rules]: "calm (f t) \<Longrightarrow> calm (Let t f)" by simp

lemma calm_pair [calm_rules]: "(\<And>x y. p = (x, y) \<Longrightarrow> calm (f x y)) \<Longrightarrow> calm (case p of (x, y) \<Rightarrow> f x y)"
  by (cases p) simp

lemma calm_into [calm_rules]: "calm r \<Longrightarrow> calm (into f r)"
proof (cases r)
  case (Inl e)
  then show "calm r \<Longrightarrow> calm (into f r)" by (cases e) (auto simp: calm_def into_def)
qed (simp add: calm_def into_def)

lemma into_eq_Inr [res_simps]: "into f r = Inr x \<longleftrightarrow> r = Inr x"
  by (simp add: into_def map_err_eq_Inr)

lemma client_try_eq_Inr [res_simps]: "client_try f r = Inr x \<longleftrightarrow> r = Inr x"
  by (simp add: client_try_def map_err_eq_Inr)

lemma expect_eq_Inr [res_simps]: "expect r = Inr x \<longleftrightarrow> r = Inr x"
  by (simp add: expect_def map_err_eq_Inr)

lemma calm_expect: "r = Inr x \<Longrightarrow> calm (expect r)"
  by (simp add: expect_def calm_def)

lemma calm_sign:
  assumes "honest_sdk cl" and "set signers = needed_signers ixs payer"
  shows "calm (sign cl ixs payer signers h)"
  using honest_sdkD(1) [OF assms(1), of ixs payer signers h] assms(2) by (auto simp: sign_def calm_def)

lemma calm_sign_and_send:
  assumes "honest_sdk cl" and "set signers = needed_signers ixs payer"
  shows "calm (sign_and_send cl f g payer ixs signers w)"
  unfolding sign_and_send_def by (intro calm_rules calm_sign [OF assms])

lemma calm_send_instructions:
  assumes "honest_sdk cl" and "set signers = needed_signers ixs payer"
  shows "calm (send_instructions cl payer ixs signers w)"
  unfolding send_instructions_def send_txn_def by (intro calm_rules calm_sign [OF assms])

text \<open>Unpacking ends with an error, never with a panic.\<close>

lemma unpack_calm: "calm (map_err any_of_program (unpack_account cd d))"
  by (auto simp: calm_def unpack_account_def unpack_unchecked_def from_reader_def invalid_data_def
      split: option.splits prod.splits)
    (auto simp: and_then_def ok_or_def map_err_def split: option.splits prod.splits if_splits)

lemma calm_get_account: "calm (get_account cl cd k w)" "calm (get_token_account cl k w)"
  unfolding get_account_def get_token_account_def get_account_data_def
  by (intro calm_rules unpack_calm)+

subsection \<open>Instructions as bytes\<close>

text \<open>An instruction that the format writes is written in full.\<close>

lemma instruction_method_run:
  assumes "packing cd" and "cd_encode cd i = Some bs" and "length bs < 2 ^ 64"
  shows "instruction_method cd p metas i = Inr \<lparr>ix_program_id = p, ix_accounts = metas, ix_data = bs\<rparr>"
proof -
  have "pack_size cd i = Inr (of_nat (length bs))"
    using packing.size_encode [OF assms(1), of i] assms(2) by (simp add: pack_size_def bytes_size_def invalid_data_def)
  moreover have "unat (of_nat (length bs) :: u64) = length bs"
    using assms(3) by (simp add: unsigned_of_nat take_bit_nat_eq_self)
  moreover have "pack_account cd i (replicate (length bs) 0) = Inr bs"
    using packing.pack_account_run [OF assms(1), of "replicate (length bs) 0" i bs] assms(2,3) by simp
  ultimately show ?thesis by (simp add: instruction_method_def expect_def Let_def)
qed

end
