(* ===== verification/LockupClientFacts.thy ===== *)
theory LockupClientFacts
  imports ClientLaws LockupLaws LockupGuards
begin

text \<open>
  The lockup program's client and the program: every request's transaction can be signed, and a
  safe is initialised by the transaction that creates its accounts.
\<close>

definition client_formats :: "lockup_codecs \<Rightarrow> bool" where
  "client_formats cd \<longleftrightarrow> lcd_safe cd = safe_format \<and> lcd_vesting cd = vesting_format \<and>
     lcd_instruction cd = lockup_instruction_format"

subsection \<open>Instructions as bytes\<close>

primrec relay_length :: "lockup_instruction \<Rightarrow> nat" where
  "relay_length (Initialize a n) = 0"
| "relay_length (CreateVesting b e p d) = 0"
| "relay_length Claim = 0"
| "relay_length (Redeem a) = 0"
| "relay_length (WhitelistWithdraw a d) = length d"
| "relay_length (WhitelistDeposit d) = length d"
| "relay_length (WhitelistAdd e) = 0"
| "relay_length (WhitelistDelete e) = 0"
| "relay_length (SetAuthority a) = 0"
| "relay_length Migrate = 0"

lemma lockup_instruction_encoded:
  assumes "relay_length i < 2 ^ 32"
  shows "\<exists>bs. cd_encode lockup_instruction_format i = Some bs \<and> length bs < 2 ^ 64"
  using assms
  by (cases i) (simp_all add: lockup_instruction_format_def enum_codec_def lockup_variants_def variant_codec_def
      whitelist_entry_format_def map_codec_def pair_codec_def key_codec_def u8_codec_def u64_codec_def
      vec_codec_def unit_codec_def)

lemma lockup_instruction_method:
  assumes "relay_length i < 2 ^ 32"
  obtains bs where "\<And>p metas. instruction_method lockup_instruction_format p metas i =
      (Inr \<lparr>ix_program_id = p, ix_accounts = metas, ix_data = bs\<rparr> :: 'e client_fault + instruction)"
    "unpack_account lockup_instruction_format bs = Inr i"
proof -
  obtain bs where bs: "cd_encode lockup_instruction_format i = Some bs" "length bs < 2 ^ 64"
    using lockup_instruction_encoded [OF assms] by blast
  have p: "packing lockup_instruction_format" by (rule lockup_instruction_pack.packing_axioms)
  show ?thesis
    using that [OF instruction_method_run [OF p bs]] packing.unpack_exact_bytes [OF p] bs(1) by blast
qed

lemma client_sizes:
  assumes "client_formats cd"
  shows "(expect (pack_size (lcd_safe cd) safe_default) :: 'e client_fault + u64) = Inr 130"
    and "(vesting_size cd :: 'e client_fault + u64) = Inr 178"
  using assms safe_pack.size_encode [of safe_default] vesting_pack.size_encode [of vesting_default]
  by (simp_all add: client_formats_def vesting_size_def pack_size_def bytes_size_def invalid_data_def expect_def
      safe_encoded vesting_encoded)

subsection \<open>Signatures\<close>

definition meta_signers :: "account_meta list \<Rightarrow> aligned set" where
  "meta_signers metas = set (map am_pubkey (filter am_is_signer metas))"

lemma meta_signers_simps [simp]:
  "meta_signers [] = {}"
  "meta_signers (meta k b # ms) = (if b then insert k (meta_signers ms) else meta_signers ms)"
  "meta_signers (meta_readonly k b # ms) = (if b then insert k (meta_signers ms) else meta_signers ms)"
  "meta_signers (ms @ ms') = meta_signers ms \<union> meta_signers ms'"
  by (simp_all add: meta_signers_def)

lemma signer_keys_of [simp]:
  "signer_keys \<lparr>ix_program_id = p, ix_accounts = metas, ix_data = d\<rparr> = meta_signers metas"
  by (simp add: signer_keys_def meta_signers_def)

lemma calm_lockup_method:
  assumes "honest_sdk cl" and "client_formats cd" and "relay_length i < 2 ^ 32"
    and "set signers = insert (cn_payer self) (meta_signers metas)"
  shows "calm (lockup_method cl cd self signers metas i w)"
proof -
  obtain bs where run: "\<And>p metas. instruction_method lockup_instruction_format p metas i =
      (Inr \<lparr>ix_program_id = p, ix_accounts = metas, ix_data = bs\<rparr> :: gen_error client_fault + instruction)"
    using lockup_instruction_method [OF assms(3)] by metis
  have "set signers = needed_signers [\<lparr>ix_program_id = cn_program_id self, ix_accounts = metas, ix_data = bs\<rparr>] (cn_payer self)"
    using assms(4) by (simp add: needed_signers_def)
  then show ?thesis
    using assms(2) by (simp add: lockup_method_def method_with_signers_def client_formats_def run)
      (intro calm_rules calm_sign_and_send [OF assms(1)])
qed

lemma calm_safe: "calm (client_safe cl cd k w)" "calm (client_vesting cl cd k w)"
  unfolding client_safe_def client_vesting_def by (intro calm_rules calm_get_account)+

lemma calm_vault_authority: "calm (client_vault_authority cl cd self k w)"
  unfolding client_vault_authority_def by (intro calm_rules calm_safe)

lemma calm_create_token_account:
  "honest_sdk cl \<Longrightarrow> calm (create_token_account cl k mint own payer w)"
  unfolding create_token_account_def
  by (intro calm_rules calm_send_instructions)
    (auto simp: needed_signers_def honest_sdkD(3) client_try_eq_Inr dest: honest_sdkD(6))

lemma calm_create_and_init_mint:
  "honest_sdk cl \<Longrightarrow> calm (create_and_init_mint cl payer k own n w)"
  unfolding create_and_init_mint_def
  by (intro calm_rules calm_send_instructions)
    (auto simp: needed_signers_def honest_sdkD(3) client_try_eq_Inr dest: honest_sdkD(7))

text \<open>The instructions that initialise a safe.\<close>

lemma initialize_instructions_run:
  assumes "client_formats cd"
    and "initialize_instructions cl cd self safe_acc wl vault mint authority nonce w = Inr ixs"
  obtains l1 l2 bs where
    "ixs = [create_account_ix cl (cn_payer self) safe_acc l1 130 (cn_program_id self),
       create_account_ix cl (cn_payer self) wl l2 3250 (cn_program_id self),
       \<lparr>ix_program_id = cn_program_id self, ix_accounts = initialize_metas cl safe_acc wl vault mint, ix_data = bs\<rparr>]"
    "cl_min_balance cl 130 w = Inr l1" "cl_min_balance cl 3250 w = Inr l2"
    "unpack_account lockup_instruction_format bs = Inr (Initialize authority nonce)"
proof -
  obtain bs where bs: "\<And>p metas. instruction_method lockup_instruction_format p metas (Initialize authority nonce) =
      (Inr \<lparr>ix_program_id = p, ix_accounts = metas, ix_data = bs\<rparr> :: gen_error client_fault + instruction)"
    "unpack_account lockup_instruction_format bs = Inr (Initialize authority nonce)"
    using lockup_instruction_method [of "Initialize authority nonce"] by (metis relay_length.simps(1) zero_less_numeral zero_less_power)
  have f: "lcd_instruction cd = lockup_instruction_format" using assms(1) by (simp add: client_formats_def)
  have w: "WHITELIST_SIZE = 3250" by (simp add: whitelist_sizes)
  show ?thesis
    using assms(2) that [OF _ _ _ bs(2)]
    by (auto simp: initialize_instructions_def client_sizes [OF assms(1)] f bs(1) w res_simps client_try_eq_Inr Let_def)
qed

lemma calm_initialize_instructions:
  assumes "client_formats cd"
  shows "calm (initialize_instructions cl cd self safe_acc wl vault mint authority nonce w)"
proof -
  obtain bs where bs: "\<And>p metas. instruction_method lockup_instruction_format p metas (Initialize authority nonce) =
      (Inr \<lparr>ix_program_id = p, ix_accounts = metas, ix_data = bs\<rparr> :: gen_error client_fault + instruction)"
    using lockup_instruction_method [of "Initialize authority nonce"] by (metis relay_length.simps(1) zero_less_numeral zero_less_power)
  have f: "lcd_instruction cd = lockup_instruction_format" using assms by (simp add: client_formats_def)
  show ?thesis
    unfolding initialize_instructions_def client_sizes [OF assms] f bs by (intro calm_rules)
qed

lemma calm_initialize:
  assumes "honest_sdk cl" and "client_formats cd"
    and "sdk_find_program_address (cl_sdk cl) [aligned_bytes safe_acc] (cn_program_id self) \<noteq> None"
  shows "calm (client_initialize cl cd self safe_acc vault wl req w)"
  unfolding client_initialize_def create_all_accounts_and_initialize_def
proof (intro calm_rules)
  show "calm (ok_or (sdk_find_program_address (cl_sdk cl) [aligned_bytes safe_acc] (cn_program_id self)) ClientPanic)"
    using assms(3) by (auto simp: calm_def)
next
  fix ixs w1 and v :: aligned and nonce :: u8 and va :: aligned
  assume "initialize_instructions cl cd self safe_acc wl v (ir_mint req) (ir_authority req) nonce w1 = Inr ixs"
  then show "calm (sign_and_send cl (\<lambda>e. RawError (cl_error_text cl e)) RpcError (cn_payer self) ixs
      [cn_payer self, safe_acc, wl] w1)"
    by (rule initialize_instructions_run [OF assms(2)])
      (intro calm_sign_and_send assms(1),
        auto simp: needed_signers_def honest_sdkD(3) [OF assms(1)] initialize_metas_def)
qed (simp_all add: calm_create_token_account assms calm_initialize_instructions)

lemma calm_create_vesting:
  assumes "honest_sdk cl" and "client_formats cd"
  shows "calm (client_create_vesting cl cd self mint_kp new_account req w)"
proof -
  have f: "lcd_instruction cd = lockup_instruction_format" using assms(2) by (simp add: client_formats_def)
  have "calm (create_vesting_account cl cd self mint_kp k dep own sf vault va ben e n d decimals w')" for k dep own sf vault va ben e n d decimals w'
  proof -
    obtain bs where bs: "\<And>p metas. instruction_method lockup_instruction_format p metas (CreateVesting ben e n d) =
        (Inr \<lparr>ix_program_id = p, ix_accounts = metas, ix_data = bs\<rparr> :: gen_error client_fault + instruction)"
      using lockup_instruction_method [of "CreateVesting ben e n d"] by (metis relay_length.simps(2) zero_less_numeral zero_less_power)
    show ?thesis
      unfolding create_vesting_account_def client_sizes [OF assms(2)] f bs
      by (intro calm_rules calm_create_and_init_mint calm_sign_and_send assms(1))
        (auto simp: needed_signers_def honest_sdkD(3) [OF assms(1)] deposit_metas_def)
  qed
  then show ?thesis
    unfolding client_create_vesting_def
    by (intro calm_rules calm_safe calm_vault_authority) (auto simp: calm_def split: prod.split)
qed

lemma expect_panics: "(expect r = Inl ClientPanic) = (\<exists>e. r = Inl e)"
  by (cases r) (simp_all add: expect_def)

text \<open>A call whose result is unwrapped.\<close>

lemma unwrapped_panics:
  "(and_then (client_safe cl cd k w) (\<lambda>sf. and_then (client_vault_authority cl cd self k w) (\<lambda>va.
      expect (f sf va))) = (Inl ClientPanic :: lockup_client_error client_fault + 'a)) =
    (\<exists>sf va. client_safe cl cd k w = Inr sf \<and> client_vault_authority cl cd self k w = Inr va \<and>
      (f sf va = Inl ClientPanic \<or> (\<exists>e. f sf va = Inl (ClientErr e :: 'f client_fault))))"
proof -
  have "(expect (f sf va) = (Inl ClientPanic :: lockup_client_error client_fault + 'a)) =
      (f sf va = Inl ClientPanic \<or> (\<exists>e. f sf va = Inl (ClientErr e)))" for sf va
    by (auto simp: expect_panics) (metis client_fault.exhaust)
  then show ?thesis using calm_safe(1) [of cl cd k w] calm_vault_authority [of cl cd self k w]
    by (auto simp: and_then_eq_Inl calm_def)
qed

text \<open>Signing panics exactly when the keys are not those that are needed.\<close>

lemma lockup_method_panics:
  assumes "honest_sdk cl" and "client_formats cd" and "relay_length i < 2 ^ 32"
  shows "lockup_method cl cd self signers metas i w = Inl ClientPanic \<longleftrightarrow>
    set signers \<noteq> insert (cn_payer self) (meta_signers metas) \<and> (\<exists>h. cl_recent_blockhash cl w = Inr h)"
proof (cases "set signers = insert (cn_payer self) (meta_signers metas)")
  case True
  then show ?thesis using calm_lockup_method [OF assms True] by (simp add: calm_def)
next
  case False
  obtain bs where run: "\<And>p metas. instruction_method lockup_instruction_format p metas i =
      (Inr \<lparr>ix_program_id = p, ix_accounts = metas, ix_data = bs\<rparr> :: gen_error client_fault + instruction)"
    using lockup_instruction_method [OF assms(3)] by metis
  let ?ix = "\<lparr>ix_program_id = cn_program_id self, ix_accounts = metas, ix_data = bs\<rparr>"
  have "set signers \<noteq> needed_signers [?ix] (cn_payer self)" using False by (simp add: needed_signers_def)
  then have "sdk_sign (cl_sdk cl) [?ix] (cn_payer self) signers h = None" for h
    using honest_sdkD(1) [OF assms(1), of "[?ix]" "cn_payer self" signers h] by auto
  then have "lockup_method cl cd self signers metas i w =
      (case cl_recent_blockhash cl w of Inl e \<Rightarrow> Inl (ClientErr (InnerError (RpcError e))) | Inr h \<Rightarrow> Inl ClientPanic)"
    using assms(2) by (cases "cl_recent_blockhash cl w")
      (simp_all add: lockup_method_def method_with_signers_def client_formats_def run sign_and_send_def sign_def
        client_try_def into_def ok_or_def)
  then show ?thesis using False by (cases "cl_recent_blockhash cl w") simp_all
qed

text \<open>The keys that sign a relay request are the payer's and the beneficiary's.\<close>

lemma relay_method_panics:
  assumes "honest_sdk cl" and "client_formats cd" and "relay_length i < 2 ^ 32"
  shows "lockup_method cl cd self [cn_payer self, ben] (relay_metas cl ben v s va p l x y z @ ms) i w = Inl ClientPanic \<longleftrightarrow>
    \<not> meta_signers ms \<subseteq> {cn_payer self, ben} \<and> (\<exists>h. cl_recent_blockhash cl w = Inr h)"
  unfolding lockup_method_panics [OF assms] by (auto simp: relay_metas_def)

text \<open>
  Claim C20: the keys that the lockup client signs with are those its transactions need, so that no
  request panics, with two exceptions, the relay requests, whose result is unwrapped and whose further
  accounts are the caller's.  A relay request panics exactly when the safe and its vault authority are
  found and either those accounts need the signature of a key other than the payer and the
  beneficiary (and a recent block hash was there to sign with), or the transaction itself returns an
  error.
\<close>

theorem lockup_client_panics:
  assumes "honest_sdk cl" and "client_formats cd"
    and "sdk_find_program_address (cl_sdk cl) [aligned_bytes safe_acc] (cn_program_id self) \<noteq> None"
    and "length (ww_relay_data out) < 2 ^ 32" and "length (wd_relay_data back) < 2 ^ 32"
  shows "client_initialize cl cd self safe_acc vault wl init w \<noteq> Inl ClientPanic \<and>
    client_create_vesting cl cd self mint_kp vesting_kp create w \<noteq> Inl ClientPanic \<and>
    client_claim cl cd self claim w \<noteq> Inl ClientPanic \<and>
    client_redeem cl cd self redeem w \<noteq> Inl ClientPanic \<and>
    client_whitelist_add cl cd self change w \<noteq> Inl ClientPanic \<and>
    client_whitelist_delete cl cd self change w \<noteq> Inl ClientPanic \<and>
    client_set_authority cl cd self auth w \<noteq> Inl ClientPanic \<and>
    client_migrate cl cd self migrate w \<noteq> Inl ClientPanic \<and>
    (client_whitelist_withdraw cl cd self out w = Inl ClientPanic) =
      (\<exists>sf va. client_safe cl cd (ww_safe out) w = Inr sf \<and>
         client_vault_authority cl cd self (ww_safe out) w = Inr va \<and>
         (\<not> meta_signers (ww_relay_accounts out) \<subseteq> {cn_payer self, ww_beneficiary out} \<and>
            (\<exists>h. cl_recent_blockhash cl w = Inr h) \<or>
          (\<exists>e. lockup_method cl cd self [cn_payer self, ww_beneficiary out]
           (relay_metas cl (ww_beneficiary out) (ww_vesting out) (ww_safe out) va (ww_whitelist_program out)
              (sf_whitelist sf) (ww_vault out) (ww_whitelist_vault out) (ww_whitelist_vault_authority out) @
            ww_relay_accounts out)
           (WhitelistWithdraw (ww_delegate_amount out) (ww_relay_data out)) w = Inl (ClientErr e)))) \<and>
    (client_whitelist_deposit cl cd self back w = Inl ClientPanic) =
      (\<exists>sf va. client_safe cl cd (wd_safe back) w = Inr sf \<and>
         client_vault_authority cl cd self (wd_safe back) w = Inr va \<and>
         (\<not> meta_signers (wd_relay_accounts back) \<subseteq> {cn_payer self, wd_beneficiary back} \<and>
            (\<exists>h. cl_recent_blockhash cl w = Inr h) \<or>
          (\<exists>e. lockup_method cl cd self [cn_payer self, wd_beneficiary back]
           (relay_metas cl (wd_beneficiary back) (wd_vesting back) (wd_safe back) va (wd_whitelist_program back)
              (sf_whitelist sf) (wd_vault back) (wd_whitelist_vault back) (wd_whitelist_vault_authority back) @
            wd_relay_accounts back)
           (WhitelistDeposit (wd_relay_data back)) w = Inl (ClientErr e))))"
proof -
  note m = calm_lockup_method [OF assms(1,2)]
  note rules = calm_rules calm_safe calm_vault_authority m
  have "calm (client_claim cl cd self claim w)"
    unfolding client_claim_def by (intro rules) (auto simp: claim_metas_def)
  moreover have "calm (client_redeem cl cd self redeem w)"
    unfolding client_redeem_def by (intro rules) (auto simp: redeem_metas_def)
  moreover have "calm (client_whitelist_add cl cd self change w)" "calm (client_whitelist_delete cl cd self change w)"
    unfolding client_whitelist_add_def client_whitelist_delete_def
    by (intro rules; auto simp: whitelist_change_metas_def)+
  moreover have "calm (client_set_authority cl cd self auth w)"
    unfolding client_set_authority_def by (intro rules) auto
  moreover have "calm (client_migrate cl cd self migrate w)"
    unfolding client_migrate_def by (intro rules) (auto simp: migrate_metas_def)
  moreover have "calm (client_initialize cl cd self safe_acc vault wl init w)"
    "calm (client_create_vesting cl cd self mint_kp vesting_kp create w)"
    by (rule calm_initialize [OF assms(1-3)], rule calm_create_vesting [OF assms(1,2)])
  ultimately show ?thesis
    unfolding client_whitelist_withdraw_def client_whitelist_deposit_def Let_def unwrapped_panics
    using assms(4,5) by (simp add: calm_def relay_method_panics [OF assms(1,2)])
qed

subsection \<open>A safe is initialised\<close>

lemma zero_bytes: "aligned_bytes (0, 0, 0, 0) = replicate 32 0" by code_simp

lemma safe_default_bytes: "safe_bytes safe_default = replicate 130 0"
proof -
  have "cd_encode safe_format safe_default =
      Some ([0] @ replicate 32 0 @ replicate 32 0 @ [0] @ replicate 32 0 @ replicate 32 0)"
    by (simp add: safe_format_def safe_default_def map_codec_def pair_codec_def bool_codec_def key_codec_def
        u8_codec_def zero_bytes)
  moreover have "[0] @ replicate 32 0 @ replicate 32 0 @ [0] @ replicate 32 0 @ replicate 32 0 = replicate 130 (0 :: u8)"
    by code_simp
  ultimately show ?thesis using safe_encoded(1) [of safe_default] by simp
qed

text \<open>
  Claim C19: initialising a safe works end to end. When accounts as the client's transaction creates
  them, a vault owned by the address that the client has found, and a mint are handed to the
  program in the order the client lists them, the program accepts the instruction's data, records
  the request's authority with the client's accounts and nonce, and from then on the client derives
  from the stored safe the very address that owns the vault.
\<close>

theorem client_initialize_accepted:
  assumes "honest_sdk cl" and "same_runtime cl env" and "client_formats cd" and "le_safe env = safe_format"
    and "sdk_find_program_address (cl_sdk cl) [aligned_bytes safe_acc] (cn_program_id self) = Some (va, nonce)"
    and "initialize_instructions cl cd self safe_acc wl vault mint authority nonce w = Inr ixs"
    and "map ac_key accs = map am_pubkey (ix_accounts (ixs ! 2))"
    and "created_by cl (ixs ! 0) (accs ! 0)" and "created_by cl (ixs ! 1) (accs ! 1)"
    and "access_token env (accs ! 2) = Inr h" and "th_owner h = va"
    and "access_mint env (accs ! 3) = Inr m"
    and "rt_rent env (accs ! 4) = Inr is_exempt"
    and "is_exempt (ac_lamports (accs ! 2)) (length (ac_data (accs ! 2)))"
  shows "\<exists>accs'. lockup_entry env lockup_instruction_format (ix_program_id (ixs ! 2)) accs (ix_data (ixs ! 2)) = Inr accs' \<and>
    unpack_account safe_format (ac_data (accs' ! 0)) =
      Inr \<lparr>sf_initialized = True, sf_mint = mint, sf_authority = authority, sf_nonce = nonce, sf_whitelist = wl,
           sf_vault = vault\<rparr> \<and>
    (\<forall>w'. cl_account cl safe_acc w' = Inr (Some (ac_data (accs' ! 0))) \<longrightarrow>
       client_vault_authority cl cd self safe_acc w' = Inr va)"
proof -
  obtain l1 l2 bs where ixs: "ixs = [create_account_ix cl (cn_payer self) safe_acc l1 130 (cn_program_id self),
      create_account_ix cl (cn_payer self) wl l2 3250 (cn_program_id self),
      \<lparr>ix_program_id = cn_program_id self, ix_accounts = initialize_metas cl safe_acc wl vault mint, ix_data = bs\<rparr>]"
    and l: "cl_min_balance cl 130 w = Inr l1" "cl_min_balance cl 3250 w = Inr l2"
    and bs: "unpack_account lockup_instruction_format bs = Inr (Initialize authority nonce)"
    using initialize_instructions_run [OF assms(3,6)] by metis
  obtain a0 a1 a2 a3 a4 where accs: "accs = [a0, a1, a2, a3, a4]" and keys: "ac_key a0 = safe_acc"
    "ac_key a1 = wl" "ac_key a2 = vault" "ac_key a3 = mint" "ac_key a4 = sdk_rent_id (cl_sdk cl)"
    using assms(7) by (auto simp: ixs initialize_metas_def)
  have new: "ac_lamports a0 = l1" "ac_data a0 = safe_bytes safe_default" "ac_owner a0 = cn_program_id self"
    "ac_lamports a1 = l2" "length (ac_data a1) = 3250" "ac_owner a1 = cn_program_id self"
    using assms(8,9) by (simp_all add: ixs accs created_as [OF assms(1)] as_created_def safe_default_bytes)
  note rt = assms(2) [unfolded same_runtime_def]
  have exempt: "is_exempt l1 130" "is_exempt l2 3250" using rt l assms(13) by blast+
  have "sdk_program_address (cl_sdk cl) ([aligned_bytes safe_acc] @ [[nonce]]) (cn_program_id self) = Inr va"
    using rt assms(5) by blast
  then have found: "sdk_program_address (cl_sdk cl) (signer_seeds safe_acc nonce) (cn_program_id self) = Inr va"
    by (simp add: signer_seeds_def)
  then have addr: "vault_address env safe_acc nonce (cn_program_id self) = Inr va"
    using rt by (simp add: vault_address_def)
  have "initialize_access env (cn_program_id self) accs nonce = Inr ()"
    using assms(4,10-14) new exempt addr rt
    by (simp add: initialize_access_def accs keys access_rent_def safe_encoded(2)) (simp add: safe_default_def)
  moreover have "update_account_with safe_format a0 (\<lambda>sf. Inr (initialize_transition mint authority wl vault nonce sf, accs)) =
      Inr (put_data safe_acc (safe_bytes (initialize_transition mint authority wl vault nonce safe_default)) accs)"
    by (simp add: update_account_with_def unpack_mut_def new(2) pack_safe safe_encoded(2) keys)
  ultimately have "lockup_entry env lockup_instruction_format (ix_program_id (ixs ! 2)) accs (ix_data (ixs ! 2)) =
      Inr (put_data safe_acc (safe_bytes (initialize_transition mint authority wl vault nonce safe_default)) accs)"
    using assms(4) by (simp add: ixs lockup_entry_def bs run_lockup_def handle_initialize_def next_accounts_def accs keys)
  moreover have "initialize_transition mint authority wl vault nonce safe_default =
      \<lparr>sf_initialized = True, sf_mint = mint, sf_authority = authority, sf_nonce = nonce, sf_whitelist = wl, sf_vault = vault\<rparr>"
    by (simp add: initialize_transition_def safe_default_def)
  moreover have "ac_data (put_data safe_acc d accs ! 0) = d" for d by (simp add: put_data_def accs keys)
  ultimately show ?thesis
    using assms(3) found
    by (simp add: client_vault_authority_def client_safe_def get_account_def get_account_data_def client_formats_def
        into_def client_try_def)
qed

end
