(* ===== verification/RegistryClientFacts.thy ===== *)
theory RegistryClientFacts
  imports ClientLaws RegistryFacts
begin

text \<open>
  The registry's client and the program: what the transactions that create an entity and join one
  contain, and that the program accepts them on the accounts that they create.
\<close>

definition registry_client_formats :: "registry_codecs \<Rightarrow> bool" where
  "registry_client_formats cd \<longleftrightarrow> rcd_entity cd = entity_format \<and> rcd_member cd = member_format \<and>
     rcd_instruction cd = registry_instruction_format"

lemma entity_width: "codec_width entity_format 57"
  unfolding entity_format_def
  using codec_width_map [OF codec_width_pair [OF codec_width_prim(2) codec_width_pair [OF codec_width_prim(5)
    codec_width_pair [OF codec_width_prim(4) codec_width_pair [OF codec_width_prim(4)
    codec_width_pair [OF codec_width_prim(3), of kind_codec 4]]]]]]
  by (simp add: codec_width_def kind_codec_def)

lemma member_width: "codec_width member_format 113"
  unfolding member_format_def
  using codec_width_map [OF codec_width_pair [OF codec_width_prim(2) codec_width_pair [OF codec_width_prim(5)
    codec_width_pair [OF codec_width_prim(5) codec_width_pair [OF codec_width_prim(5)
    codec_width_pair [OF codec_width_prim(4) codec_width_prim(4)]]]]]] by simp

lemma registry_sizes:
  assumes "registry_client_formats cd"
  shows "(entity_size cd :: 'e client_fault + u64) = Inr 57" and "(member_size cd :: 'e client_fault + u64) = Inr 113"
proof -
  obtain e m where "cd_encode entity_format entity_default = Some e" "length e = 57"
    "cd_encode member_format member_default = Some m" "length m = 113"
    using entity_width member_width unfolding codec_width_def by metis
  then show "(entity_size cd :: 'e client_fault + u64) = Inr 57" "(member_size cd :: 'e client_fault + u64) = Inr 113"
    using assms entity_pack.size_encode [of entity_default] member_pack.size_encode [of member_default]
    by (simp_all add: registry_client_formats_def entity_size_def member_size_def pack_size_def bytes_size_def
        invalid_data_def expect_def)
qed

lemma zero_key: "aligned_bytes (0, 0, 0, 0) = replicate 32 0" by code_simp

text \<open>An account of zeros is an entity, of the first kind, and a member.\<close>

lemma zero_accounts:
  "unpack_account entity_format (replicate 57 0) = Inr (entity_default\<lparr>en_stake_kind := Voting\<rparr>)"
  "unpack_account member_format (replicate 113 0) = Inr member_default"
proof -
  have "cd_encode entity_format (entity_default\<lparr>en_stake_kind := Voting\<rparr>) =
      Some ([0] @ replicate 32 0 @ u64_to_le 0 @ u64_to_le 0 @ le_bytes 4 (0 :: u32) @ le_bytes 4 (0 :: u32))"
    by (simp add: entity_format_def entity_default_def map_codec_def pair_codec_def bool_codec_def key_codec_def
        u64_codec_def u32_codec_def kind_codec_def zero_key)
  moreover have "[0] @ replicate 32 0 @ u64_to_le 0 @ u64_to_le 0 @ le_bytes 4 (0 :: u32) @ le_bytes 4 (0 :: u32) =
      replicate 57 (0 :: u8)" by code_simp
  ultimately show "unpack_account entity_format (replicate 57 0) = Inr (entity_default\<lparr>en_stake_kind := Voting\<rparr>)"
    by (simp add: entity_pack.unpack_exact_bytes)
  have "cd_encode member_format member_default =
      Some ([0] @ replicate 32 0 @ replicate 32 0 @ replicate 32 0 @ u64_to_le 0 @ u64_to_le 0)"
    by (simp add: member_format_def member_default_def map_codec_def pair_codec_def bool_codec_def key_codec_def
        u64_codec_def zero_key)
  moreover have "[0] @ replicate 32 0 @ replicate 32 0 @ replicate 32 0 @ u64_to_le 0 @ u64_to_le 0 = replicate 113 (0 :: u8)"
    by code_simp
  ultimately show "unpack_account member_format (replicate 113 0) = Inr member_default"
    by (simp add: member_pack.unpack_exact_bytes)
qed

lemma registry_instruction_method:
  assumes "i = CreateEntity c k \<or> i = JoinEntity b d"
  obtains bs where "\<And>p metas. instruction_method registry_instruction_format p metas i =
      (Inr \<lparr>ix_program_id = p, ix_accounts = metas, ix_data = bs\<rparr> :: 'e client_fault + instruction)"
    "unpack_account registry_instruction_format bs = Inr i"
proof -
  obtain bs where bs: "cd_encode registry_instruction_format i = Some bs" "length bs < 2 ^ 64"
    using assms by (auto simp: registry_instruction_format_def enum_codec_def registry_variants_def variant_codec_def
        pair_codec_def u32_codec_def kind_codec_def key_codec_def)
  have p: "packing registry_instruction_format" by (rule registry_instruction_pack.packing_axioms)
  show ?thesis
    using that [OF instruction_method_run [OF p bs]] packing.unpack_exact_bytes [OF p] bs(1) by blast
qed

text \<open>What was sent: a transaction of these instructions, with these signers, on the hash the cluster gave.\<close>

definition sent_as :: "'w cluster \<Rightarrow> aligned \<Rightarrow> instruction list \<Rightarrow> aligned list \<Rightarrow> 'w \<Rightarrow> signature \<times> 'w \<Rightarrow> bool" where
  "sent_as cl payer ixs signers w r \<longleftrightarrow>
     (\<exists>tx h. cl_recent_blockhash cl w = Inr h \<and> sdk_sign (cl_sdk cl) ixs payer signers h = Some tx \<and>
        tx_instructions tx = ixs \<and> cl_send cl tx w = Inr r)"

lemma sign_and_send_sent:
  assumes "honest_sdk cl" and "sign_and_send cl f g payer ixs signers w = Inr r"
  shows "sent_as cl payer ixs signers w r"
  using assms(2)
  by (cases r) (auto simp: sign_and_send_def sign_def res_simps client_try_eq_Inr sent_as_def
      intro!: honest_sdkD(2) [OF assms(1)])

lemma update_new_account:
  assumes "packing cd" and "codec_width cd n" and "n < 1000" and "ac_data a = replicate n 0"
    and "unpack_account cd (replicate n 0) = Inr x"
  shows "\<exists>d. update_registry_account cd accs a (\<lambda>y. Inr (f y)) = Inr (put_data (ac_key a) d accs) \<and>
    unpack_account cd d = Inr (f x)"
proof -
  obtain d where "cd_encode cd (f x) = Some d" "length d = n" using assms(2) unfolding codec_width_def by blast
  moreover then have "pack_account cd (f x) (replicate n 0) = Inr d"
    using packing.pack_account_run [OF assms(1), of "replicate n 0" "f x" d] assms(3) by simp
  ultimately show ?thesis
    using packing.unpack_exact_bytes [OF assms(1), of d "f x"] assms(4,5)
    by (simp add: update_registry_account_def unpack_mut_def) blast
qed

lemma create_entity_sent:
  assumes hs: "honest_sdk cl" and fm: "registry_client_formats cd" and rf: "registry_formats env"
    and run: "create_entity_derived cl cd self leader capabilities kind w = Inr ((sig, addr), w')"
  shows "\<exists>l i. cl_min_balance cl 57 w = Inr l \<and>
      sdk_create_with_seed (cl_sdk cl) leader entity_seed (cn_program_id self) = Inr addr \<and>
      sent_as cl (cn_payer self)
        [sdk_create_account_with_seed (cl_sdk cl) (cn_payer self) addr leader entity_seed l 57 (cn_program_id self), i]
        [leader, cn_payer self] w (sig, w') \<and>
      ix_program_id i = cn_program_id self \<and>
      ix_accounts i = [meta addr False, meta_readonly leader True, meta_readonly (sdk_rent_id (cl_sdk cl)) False] \<and>
      (\<forall>accs. map ac_key accs = map am_pubkey (ix_accounts i) \<and> as_created (accs ! 0) l 57 (cn_program_id self) \<longrightarrow>
         (if kind = Delegated then
            (\<exists>d. registry_entry env registry_instruction_format (cn_program_id self) accs (ix_data i) = Inr (put_data addr d accs) \<and>
               unpack_account entity_format d =
              Inr \<lparr>en_initialized = True, en_leader = leader, en_amount = 0, en_mega_amount = 0,
                   en_capabilities = capabilities, en_stake_kind = Delegated\<rparr>)
          else registry_entry env registry_instruction_format (cn_program_id self) accs (ix_data i) =
            Inl (program_of_registry (registry_code MustBeDelegated))))"
proof -
  obtain bs where bs: "\<And>p metas. instruction_method registry_instruction_format p metas (CreateEntity capabilities kind) =
      (Inr \<lparr>ix_program_id = p, ix_accounts = metas, ix_data = bs\<rparr> :: gen_error client_fault + instruction)"
    "unpack_account registry_instruction_format bs = Inr (CreateEntity capabilities kind)"
    using registry_instruction_method by metis
  let ?i = "\<lparr>ix_program_id = cn_program_id self, ix_accounts = create_entity_metas cl addr leader, ix_data = bs\<rparr>"
  obtain l where l: "cl_min_balance cl 57 w = Inr l" and addr: "sdk_create_with_seed (cl_sdk cl) leader entity_seed (cn_program_id self) = Inr addr"
    and sent: "sign_and_send cl RpcError RpcError (cn_payer self)
      [sdk_create_account_with_seed (cl_sdk cl) (cn_payer self) addr leader entity_seed l 57 (cn_program_id self), ?i]
      [leader, cn_payer self] w = Inr (sig, w')"
    using run fm bs(1) by (auto simp: create_entity_derived_def registry_sizes [OF fm] registry_client_formats_def
        entity_address_derived_def res_simps client_try_eq_Inr Let_def)
  have answer: "if kind = Delegated then
      (\<exists>d. registry_entry env registry_instruction_format (cn_program_id self) accs bs = Inr (put_data addr d accs) \<and>
         unpack_account entity_format d =
              Inr \<lparr>en_initialized = True, en_leader = leader, en_amount = 0, en_mega_amount = 0,
                   en_capabilities = capabilities, en_stake_kind = Delegated\<rparr>)
      else registry_entry env registry_instruction_format (cn_program_id self) accs bs =
        Inl (program_of_registry (registry_code MustBeDelegated))"
    if keys: "map ac_key accs = [addr, leader, sdk_rent_id (cl_sdk cl)]"
      and new: "as_created (accs ! 0) l 57 (cn_program_id self)" for accs
  proof -
    obtain a0 a1 a2 where accs: "accs = [a0, a1, a2]" "ac_key a0 = addr" "ac_key a1 = leader" using keys by auto
    have "ac_data a0 = replicate 57 0" using new accs by (simp add: as_created_def)
    then obtain d where "update_registry_account entity_format accs a0 (\<lambda>e. Inr (entity_created leader capabilities Delegated e)) =
        Inr (put_data (ac_key a0) d accs)"
      "unpack_account entity_format d = Inr (entity_created leader capabilities Delegated (entity_default\<lparr>en_stake_kind := Voting\<rparr>))"
      using update_new_account [OF entity_pack.packing_axioms entity_width _ _ zero_accounts(1),
        of a0 accs "entity_created leader capabilities Delegated"] by auto
    then show ?thesis
      using rf accs by (auto simp: registry_entry_def bs(2) run_registry_def create_entity_def next_accounts_def
          create_entity_access_def registry_formats_def entity_created_def entity_default_def guard_def)
  qed
  have metas: "ix_accounts ?i = [meta addr False, meta_readonly leader True, meta_readonly (sdk_rent_id (cl_sdk cl)) False]"
    by (simp add: create_entity_metas_def)
  show ?thesis
    using l addr sign_and_send_sent [OF hs sent] metas answer
    by (intro exI [of _ l] exI [of _ ?i] conjI allI impI) (simp_all add: meta_def meta_readonly_def)
qed

lemma join_entity_sent:
  assumes hs: "honest_sdk cl" and fm: "registry_client_formats cd" and rf: "registry_formats env"
    and run: "join_entity_derived cl cd self en beneficiary delegate w = Inr ((sig, addr), w')"
  shows "\<exists>l i. cl_min_balance cl 113 w = Inr l \<and>
      sdk_create_with_seed (cl_sdk cl) (cn_payer self) member_seed (cn_program_id self) = Inr addr \<and>
      sent_as cl (cn_payer self)
        [sdk_create_account_with_seed (cl_sdk cl) (cn_payer self) addr (cn_payer self) member_seed l 113 (cn_program_id self), i]
        [cn_payer self] w (sig, w') \<and>
      ix_program_id i = cn_program_id self \<and>
      ix_accounts i = [meta addr False, meta en False, meta_readonly (sdk_rent_id (cl_sdk cl)) False] \<and>
      (\<forall>accs. map ac_key accs = map am_pubkey (ix_accounts i) \<and> as_created (accs ! 0) l 113 (cn_program_id self) \<longrightarrow>
         (\<exists>d. registry_entry env registry_instruction_format (cn_program_id self) accs (ix_data i) = Inr (put_data addr d accs) \<and>
            unpack_account member_format d =
              Inr \<lparr>mb_initialized = True, mb_entity = en, mb_beneficiary = beneficiary, mb_delegate = delegate,
                   mb_amount = 0, mb_mega_amount = 0\<rparr>))"
proof -
  obtain bs where bs: "\<And>p metas. instruction_method registry_instruction_format p metas (JoinEntity beneficiary delegate) =
      (Inr \<lparr>ix_program_id = p, ix_accounts = metas, ix_data = bs\<rparr> :: gen_error client_fault + instruction)"
    "unpack_account registry_instruction_format bs = Inr (JoinEntity beneficiary delegate)"
    using registry_instruction_method by metis
  let ?i = "\<lparr>ix_program_id = cn_program_id self, ix_accounts = join_entity_metas cl addr en, ix_data = bs\<rparr>"
  obtain l where l: "cl_min_balance cl 113 w = Inr l" and addr: "sdk_create_with_seed (cl_sdk cl) (cn_payer self) member_seed (cn_program_id self) = Inr addr"
    and sent: "sign_and_send cl RpcError RpcError (cn_payer self)
      [sdk_create_account_with_seed (cl_sdk cl) (cn_payer self) addr (cn_payer self) member_seed l 113 (cn_program_id self), ?i]
      [cn_payer self] w = Inr (sig, w')"
    using run fm bs(1) by (auto simp: join_entity_derived_def registry_sizes [OF fm] registry_client_formats_def
        member_address_derived_def res_simps client_try_eq_Inr Let_def)
  have answer: "\<exists>d. registry_entry env registry_instruction_format (cn_program_id self) accs bs = Inr (put_data addr d accs) \<and>
      unpack_account member_format d =
              Inr \<lparr>mb_initialized = True, mb_entity = en, mb_beneficiary = beneficiary, mb_delegate = delegate,
                   mb_amount = 0, mb_mega_amount = 0\<rparr>"
    if keys: "map ac_key accs = [addr, en, sdk_rent_id (cl_sdk cl)]"
      and new: "as_created (accs ! 0) l 113 (cn_program_id self)" for accs
  proof -
    obtain a0 a1 a2 where accs: "accs = [a0, a1, a2]" "ac_key a0 = addr" "ac_key a1 = en" using keys by auto
    have "ac_data a0 = replicate 113 0" using new accs by (simp add: as_created_def)
    then obtain d where "update_registry_account member_format accs a0 (\<lambda>m. Inr (member_joined en beneficiary delegate m)) =
        Inr (put_data (ac_key a0) d accs)"
      "unpack_account member_format d = Inr (member_joined en beneficiary delegate member_default)"
      using update_new_account [OF member_pack.packing_axioms member_width _ _ zero_accounts(2),
        of a0 accs "member_joined en beneficiary delegate"] by auto
    then show ?thesis
      using rf accs by (auto simp: registry_entry_def bs(2) run_registry_def join_entity_def next_accounts_def
          registry_formats_def member_joined_def)
  qed
  have metas: "ix_accounts ?i = [meta addr False, meta en False, meta_readonly (sdk_rent_id (cl_sdk cl)) False]"
    by (simp add: join_entity_metas_def)
  show ?thesis
    using l addr sign_and_send_sent [OF hs sent] metas answer
    by (intro exI [of _ l] exI [of _ ?i] conjI allI impI) (simp_all add: meta_def meta_readonly_def)
qed

text \<open>
  Claim C21: what the client sends to create an entity, or to join one, end to end. It is one signed
  transaction: first the creation of an account of the program at the address derived from the
  leader's, or the payer's, key, then an instruction to the client's program, on the account, the
  leader (or the entity) and the rent, with these signer and writable flags. On the account as created,
  with the others in that order, the program accepts the instruction's data and rewrites that
  account alone, to an initialised entity of the leader with the capabilities asked for, or a
  member of the entity with beneficiary and delegate, nothing staked. That is so of an entity asked
  for with the stake kind \<open>Delegated\<close>; the client sends any other kind just so, and the program refuses it.
\<close>

theorem registry_client_accepted:
  assumes "honest_sdk cl" and "registry_client_formats cd" and "registry_formats env"
    and "create_entity_derived cl cd self leader capabilities kind w = Inr ((sig, addr), w')"
    and "join_entity_derived cl cd self en beneficiary delegate v = Inr ((sig', addr'), v')"
  shows "(\<exists>l i. cl_min_balance cl 57 w = Inr l \<and>
      sdk_create_with_seed (cl_sdk cl) leader entity_seed (cn_program_id self) = Inr addr \<and>
      sent_as cl (cn_payer self)
        [sdk_create_account_with_seed (cl_sdk cl) (cn_payer self) addr leader entity_seed l 57 (cn_program_id self), i]
        [leader, cn_payer self] w (sig, w') \<and>
      ix_program_id i = cn_program_id self \<and>
      ix_accounts i = [meta addr False, meta_readonly leader True, meta_readonly (sdk_rent_id (cl_sdk cl)) False] \<and>
      (\<forall>accs. map ac_key accs = map am_pubkey (ix_accounts i) \<and> as_created (accs ! 0) l 57 (cn_program_id self) \<longrightarrow>
         (if kind = Delegated then
            (\<exists>d. registry_entry env registry_instruction_format (cn_program_id self) accs (ix_data i) = Inr (put_data addr d accs) \<and>
               unpack_account entity_format d =
              Inr \<lparr>en_initialized = True, en_leader = leader, en_amount = 0, en_mega_amount = 0,
                   en_capabilities = capabilities, en_stake_kind = Delegated\<rparr>)
          else registry_entry env registry_instruction_format (cn_program_id self) accs (ix_data i) =
            Inl (program_of_registry (registry_code MustBeDelegated))))) \<and>
    (\<exists>l i. cl_min_balance cl 113 v = Inr l \<and>
      sdk_create_with_seed (cl_sdk cl) (cn_payer self) member_seed (cn_program_id self) = Inr addr' \<and>
      sent_as cl (cn_payer self)
        [sdk_create_account_with_seed (cl_sdk cl) (cn_payer self) addr' (cn_payer self) member_seed l 113 (cn_program_id self), i]
        [cn_payer self] v (sig', v') \<and>
      ix_program_id i = cn_program_id self \<and>
      ix_accounts i = [meta addr' False, meta en False, meta_readonly (sdk_rent_id (cl_sdk cl)) False] \<and>
      (\<forall>accs. map ac_key accs = map am_pubkey (ix_accounts i) \<and> as_created (accs ! 0) l 113 (cn_program_id self) \<longrightarrow>
         (\<exists>d. registry_entry env registry_instruction_format (cn_program_id self) accs (ix_data i) = Inr (put_data addr' d accs) \<and>
            unpack_account member_format d =
              Inr \<lparr>mb_initialized = True, mb_entity = en, mb_beneficiary = beneficiary, mb_delegate = delegate,
                   mb_amount = 0, mb_mega_amount = 0\<rparr>)))"
  using create_entity_sent [OF assms(1-4)] join_entity_sent [OF assms(1-3,5)] by blast

end
