(* ===== verification/CrankFacts.thy ===== *)
theory CrankFacts
  imports CrankClient Launch
begin

text \<open>
  The crank against the program it drives: it reads the same events in the same order, the
  accounts it passes are in the order the program's binary search needs and let it consume at
  least the oldest event, and what it reads off the market's account passes the program's checks.
\<close>

declare split_paired_All [simp del] split_paired_Ex [simp del]

subsection \<open>The padding\<close>

lemma padding_agrees:
  assumes "20 \<le> length d"
  shows "remove_dex_account_padding d = Inr ws \<longleftrightarrow> check_account_padding d = Inr (d, ws)"
  using assms
  by (auto simp: remove_dex_account_padding_def check_account_padding_def split_padding_def
      check_assert_def res_simps ACCOUNT_HEAD_PADDING_def ACCOUNT_TAIL_PADDING_def)

lemma padding_needs: "remove_dex_account_padding d = Inr ws \<Longrightarrow> 20 \<le> length d"
  by (auto simp: remove_dex_account_padding_def split_padding_def ACCOUNT_HEAD_PADDING_def
      ACCOUNT_TAIL_PADDING_def split: if_splits)

lemma padding_stored:
  assumes "ws \<noteq> []"
  shows "remove_dex_account_padding (ACCOUNT_HEAD_PADDING @ bytes_of_words ws @ ACCOUNT_TAIL_PADDING) = Inr ws"
proof -
  have "1 \<le> length ws" using assms by (cases ws) simp_all
  then have "20 \<le> length (ACCOUNT_HEAD_PADDING @ bytes_of_words ws @ ACCOUNT_TAIL_PADDING)"
    by (simp add: ACCOUNT_HEAD_PADDING_def ACCOUNT_TAIL_PADDING_def)
  then show ?thesis using padding_agrees check_padding_stored by blast
qed

text \<open>On an account too short for the head padding the check of the length comes too late.\<close>

lemma short_account_panics:
  "length d < 5 \<Longrightarrow> remove_dex_account_padding d = Inl CrankPanic"
  "5 \<le> length d \<Longrightarrow> length d < 12 \<Longrightarrow> remove_dex_account_padding d = Inl (LengthTooSmall (length d))"
  by (simp_all add: remove_dex_account_padding_def ACCOUNT_HEAD_PADDING_def ACCOUNT_TAIL_PADDING_def)

subsection \<open>The queues\<close>

lemma segments_nth:
  fixes h c n i :: nat
  assumes "h < n" "c \<le> n" "i < c" "n = length buf"
  shows "(take (min (n - h) c) (drop h buf) @ take (c - min (n - h) c) (take h buf)) ! i = buf ! ((h + i) mod n)"
proof (cases "i < n - h")
  case True
  then show ?thesis using assms by (simp add: nth_append)
next
  case False
  then have "(h + i) mod n = h + i - n" "min (n - h) c = n - h" "i - (n - h) = h + i - n"
    using assms by (auto simp: le_mod_geq not_less)
  then show ?thesis using assms False by (simp add: nth_append)
qed

lemma segments_list:
  assumes "h < length buf" "c \<le> length buf"
  shows "take (min (length buf - h) c) (drop h buf) @ take (c - min (length buf - h) c) (take h buf) =
    map (\<lambda>i. buf ! ((h + i) mod length buf)) [0..<c]" (is "?l = _")
proof (rule nth_equalityI)
  show "length ?l = length (map (\<lambda>i. buf ! ((h + i) mod length buf)) [0..<c])" using assms by simp
next
  fix i assume "i < length ?l"
  then have "i < c" using assms by simp
  then show "?l ! i = map (\<lambda>i. buf ! ((h + i) mod length buf)) [0..<c] ! i"
    unfolding segments_nth [OF assms \<open>i < c\<close> refl] by simp
qed

lemma queue_segments_list:
  assumes inv: "queue_inv ops q"
  shows "\<exists>seg0 seg1. queue_segments (qh_head ops (q_header q)) (qh_count ops (q_header q)) (q_buf q) = Inr (seg0, seg1) \<and>
    seg0 @ seg1 = queue_list ops q"
proof -
  define h c buf where d: "h = unat (qh_head ops (q_header q))" "c = unat (qh_count ops (q_header q))" "buf = q_buf q"
  have b: "h < length buf" "c \<le> length buf" using inv by (simp_all add: queue_inv_def d)
  have "c - min (length buf - h) c \<le> h" using b by simp
  then have "queue_segments (qh_head ops (q_header q)) (qh_count ops (q_header q)) (q_buf q) =
    Inr (take (min (length buf - h) c) (drop h buf), take (c - min (length buf - h) c) (take h buf))"
    using b by (simp add: queue_segments_def Let_def d [symmetric])
  then show ?thesis using segments_list [OF b] by (simp add: queue_list_def d)
qed

lemma event_queue_parsed:
  assumes "event_queue_ok q" "length slop < 11"
  shows "\<exists>seg0 seg1. parse_event_queue (event_queue_words q @ slop) = Inr (q_header q, seg0, seg1) \<and>
    seg0 @ seg1 = events q"
proof -
  have inv: "queue_inv event_header_ops q" using assms(1) by (simp add: event_queue_ok_def)
  then have "0 < length (q_buf q)" by (auto simp: queue_inv_def)
  then have l: "11 \<le> length (concat (map event_words (q_buf q)) @ slop)"
    using event_array.array_length [of "q_buf q"] by (cases "q_buf q") simp_all
  have h: "take 4 (event_queue_words q @ slop) = event_header_words (q_header q)"
    "drop 4 (event_queue_words q @ slop) = concat (map event_words (q_buf q)) @ slop"
    "event_header_of_words (event_header_words (q_header q)) = q_header q"
    "4 \<le> length (event_queue_words q @ slop)"
    by (simp_all add: event_queue_words_def event_header_words_def event_header_of_words_def)
  obtain seg0 seg1 where s: "queue_segments (eqh_head (q_header q)) (eqh_count (q_header q)) (q_buf q) = Inr (seg0, seg1)"
    "seg0 @ seg1 = events q"
    using queue_segments_list [OF inv] by (auto simp: event_header_ops_def events_def)
  have "map event_of_words (chunks 11 (concat (map event_words (q_buf q)) @ slop)) = q_buf q"
    by (rule event_array.read_array [OF assms(2)])
  then show ?thesis using s h l by (auto simp: parse_event_queue_def Let_def)
qed

lemma request_queue_parsed:
  assumes inv: "queue_inv request_header_ops q" and slop: "length slop < 10"
  shows "\<exists>seg0 seg1. parse_req_queue (request_queue_words q @ slop) = Inr (q_header q, seg0, seg1) \<and>
    seg0 @ seg1 = queue_list request_header_ops q"
proof -
  have "0 < length (q_buf q)" using inv by (auto simp: queue_inv_def)
  then have l: "10 \<le> length (concat (map request_words (q_buf q)) @ slop)"
    using request_array.array_length [of "q_buf q"] by (cases "q_buf q") simp_all
  have h: "take 4 (request_queue_words q @ slop) = request_header_words (q_header q)"
    "drop 4 (request_queue_words q @ slop) = concat (map request_words (q_buf q)) @ slop"
    "request_header_of_words (request_header_words (q_header q)) = q_header q"
    "4 \<le> length (request_queue_words q @ slop)"
    by (simp_all add: request_queue_words_def request_header_words_def request_header_of_words_def)
  obtain seg0 seg1 where s: "queue_segments (rqh_head (q_header q)) (rqh_count (q_header q)) (q_buf q) = Inr (seg0, seg1)"
    "seg0 @ seg1 = queue_list request_header_ops q"
    using queue_segments_list [OF inv] by (auto simp: request_header_ops_def)
  have "map request_of_words (chunks 10 (concat (map request_words (q_buf q)) @ slop)) = q_buf q"
    by (rule request_array.read_array [OF slop])
  then show ?thesis using s h l by (auto simp: parse_req_queue_def Let_def)
qed

text \<open>
  What the crank reads off the account of a well-formed event queue or request queue are
  the header and, in its two segments one after the other, exactly the items the program's own
  iteration of the queue yields, from the oldest on; it neither fails nor panics.
\<close>

theorem crank_reads_queues:
  assumes "queue_inv event_header_ops eq" and "length slop < 11"
    and "queue_inv request_header_ops rq" and "length slop' < 10"
  shows "(\<exists>seg0 seg1. and_then (remove_dex_account_padding
        (ACCOUNT_HEAD_PADDING @ bytes_of_words (event_queue_words eq @ slop) @ ACCOUNT_TAIL_PADDING)) parse_event_queue
        = Inr (q_header eq, seg0, seg1) \<and> queue_iter event_header_ops eq = Inr (seg0 @ seg1)) \<and>
    (\<exists>seg0 seg1. and_then (remove_dex_account_padding
        (ACCOUNT_HEAD_PADDING @ bytes_of_words (request_queue_words rq @ slop') @ ACCOUNT_TAIL_PADDING)) parse_req_queue
        = Inr (q_header rq, seg0, seg1) \<and> queue_iter request_header_ops rq = Inr (seg0 @ seg1))"
proof (intro conjI)
  have "event_queue_words eq @ slop \<noteq> []" "request_queue_words rq @ slop' \<noteq> []"
    by (simp_all add: event_queue_words_def event_header_words_def request_queue_words_def request_header_words_def)
  note p = this [THEN padding_stored]
  obtain seg0 seg1 where "parse_event_queue (event_queue_words eq @ slop) = Inr (q_header eq, seg0, seg1)"
    "seg0 @ seg1 = queue_list event_header_ops eq"
    using event_queue_parsed [of eq slop] assms(1,2) by (auto simp: event_queue_ok_def events_def)
  then show "\<exists>seg0 seg1. and_then (remove_dex_account_padding
        (ACCOUNT_HEAD_PADDING @ bytes_of_words (event_queue_words eq @ slop) @ ACCOUNT_TAIL_PADDING)) parse_event_queue
        = Inr (q_header eq, seg0, seg1) \<and> queue_iter event_header_ops eq = Inr (seg0 @ seg1)"
    using event_q.queue_iter_list [OF assms(1)] p(1) by (intro exI [of _ seg0] exI [of _ seg1]) simp
  obtain seg0 seg1 where "parse_req_queue (request_queue_words rq @ slop') = Inr (q_header rq, seg0, seg1)"
    "seg0 @ seg1 = queue_list request_header_ops rq"
    using request_queue_parsed [OF assms(3,4)] by blast
  then show "\<exists>seg0 seg1. and_then (remove_dex_account_padding
        (ACCOUNT_HEAD_PADDING @ bytes_of_words (request_queue_words rq @ slop') @ ACCOUNT_TAIL_PADDING)) parse_req_queue
        = Inr (q_header rq, seg0, seg1) \<and> queue_iter request_header_ops rq = Inr (seg0 @ seg1)"
    using request_q.queue_iter_list [OF assms(3)] p(2) by (intro exI [of _ seg0] exI [of _ seg1]) simp
qed

subsection \<open>The accounts passed\<close>

lemma used_accounts_sorted:
  "sorted used \<Longrightarrow> distinct used \<Longrightarrow> sorted (used_accounts n used xs) \<and> distinct (used_accounts n used xs)"
  by (induction n used xs rule: used_accounts.induct)
    (simp_all add: Let_def sorted_insort_insert distinct_insort_insert)

lemma used_accounts_keeps: "set used \<subseteq> set (used_accounts n used xs)"
proof (induction n used xs rule: used_accounts.induct)
  case (2 n used x xs)
  then show ?case using set_insort_insert [of x used] by (auto simp: Let_def)
qed simp

lemma used_accounts_first: "x \<in> set (used_accounts n used (x # xs))"
proof (cases "n \<le> length (insort_insert x used)")
  case True
  then show ?thesis by (simp add: Let_def set_insort_insert)
next
  case False
  then show ?thesis using used_accounts_keeps [of "insort_insert x used" n xs]
    by (auto simp: Let_def set_insort_insert)
qed

lemma used_accounts_all: "set xs \<subseteq> set (used_accounts n used xs) \<or> n \<le> length (used_accounts n used xs)"
proof (induction n used xs rule: used_accounts.induct)
  case (2 n used x xs)
  show ?case
  proof (cases "n \<le> length (insort_insert x used)")
    case False
    have "x \<in> set (used_accounts n used (x # xs))" by (rule used_accounts_first)
    then show ?thesis using 2 [OF refl False] False by (simp add: Let_def)
  qed (simp add: Let_def)
qed simp

lemma distinct_keys_coherent: "distinct (map ai_key accs) \<Longrightarrow> coherent accs"
  unfolding coherent_def distinct_map by (blast dest: inj_onD)

lemma consume_metas_keys: "map am_pubkey (consume_metas owners keys coin_wallet pc_wallet) =
  owners @ [mp_market keys, mp_event_q keys, coin_wallet, pc_wallet]"
  by (simp add: consume_metas_def comp_def)

text \<open>What the program makes of ascending owners: it stops only where the next owner is not among them.\<close>

lemma consume_with_owners:
  assumes metas: "map ai_key accs = map am_pubkey (consume_metas owners keys coin_wallet pc_wallet)"
    and sorted: "sorted owners" "distinct owners"
    and parse: "consume_events_args_parse program_id accs limit = Inr a" and q: "cea_event_q a = q" "event_queue_ok q"
    and run: "process_consume_events a = Inr (accs', q')"
  shows "map ai_key (cea_open_orders_accounts a) = owners \<and> (\<exists>es. events q = es @ events q' \<and>
    length es \<le> unat limit \<and> (length es = unat limit \<or> events q' = [] \<or> ev_owner (hd (events q')) \<notin> set owners))"
proof -
  have k: "map ai_key accs = owners @ [mp_market keys, mp_event_q keys, coin_wallet, pc_wallet]"
    using metas by (simp add: consume_metas_keys)
  have "length (map ai_key accs) = length owners + 4" unfolding k by simp
  then have "length accs = length owners + 4" by simp
  moreover have a: "cea_open_orders_accounts a = take (length accs - 4) accs" "cea_limit a = limit"
    using parse by (auto simp: consume_events_args_parse_def Let_def res_simps)
  ultimately have ks: "map ai_key (cea_open_orders_accounts a) = owners"
    using k by (simp add: take_map [symmetric])
  then have "coherent (cea_open_orders_accounts a)" using sorted(2) by (intro distinct_keys_coherent) simp
  from consume_events_loop_run [OF run [unfolded process_consume_events_def] _ this] obtain es where
    "events q = es @ events q'" "length es \<le> unat limit"
    "length es = unat limit \<or> events q' = [] \<or> binary_search owners (ev_owner (hd (events q'))) = None"
    using q a(2) ks by auto
  then show ?thesis using binary_search_None [OF sorted(1)] ks by blast
qed

text \<open>
  Claim C11: the instruction a round of the crank's loop sends when it finds events is decoded by the
  program as consuming \<open>events_per_worker as u16\<close> events, and when the program accepts it, whatever
  thread sends it, it consumes at least the oldest event, unless that limit is zero: the count asked for is
  truncated to 16 bits, and on a multiple of 65536 nothing is consumed.  The queue is the one the crank
  read (had it changed since, the round would be another's).  It stops before its limit with
  events left only if at least as many owners as asked for were passed, none of which is the next
  event's.  The accounts come in the ascending order the program searches them in.
\<close>

theorem crank_round_progress:
  assumes "\<And>version i. serialize (version, i) = Some (wire version i)"
    and "consume_events_round keys coin_wallet pc_wallet workers per_worker num_accounts
      (ACCOUNT_HEAD_PADDING @ bytes_of_words (event_queue_words q @ slop) @ ACCOUNT_TAIL_PADDING) req_q_data
      = Inr (Some (metas, threads))"
    and "event_queue_ok q" "length slop < 11"
    and "consume_events_once serialize program_id metas per_worker = Inr ix"
    and "map ai_key accs = map am_pubkey (ix_accounts ix)"
    and "consume_events_args_parse program_id accs (of_nat per_worker) = Inr a" "cea_event_q a = q"
    and "process_consume_events a = Inr (accs', q')"
  shows "ix_program_id ix = program_id \<and> unpack (ix_data ix) = Some (ConsumeEvents (of_nat per_worker)) \<and>
    sorted (map ai_key (cea_open_orders_accounts a)) \<and> distinct (map ai_key (cea_open_orders_accounts a)) \<and>
    (\<exists>es. events q = es @ events q' \<and> (es \<noteq> [] \<longleftrightarrow> per_worker mod 65536 \<noteq> 0) \<and>
      (length es = per_worker mod 65536 \<or> events q' = [] \<or>
       num_accounts \<le> length (cea_open_orders_accounts a) \<and>
       ev_owner (hd (events q')) \<notin> set (map ai_key (cea_open_orders_accounts a))))"
proof -
  have "event_queue_words q @ slop \<noteq> []" by (simp add: event_queue_words_def event_header_words_def)
  note pad = padding_stored [OF this]
  obtain seg0 seg1 where p: "parse_event_queue (event_queue_words q @ slop) = Inr (q_header q, seg0, seg1)"
    "seg0 @ seg1 = events q"
    using event_queue_parsed [OF assms(3,4)] by blast
  let ?owners = "used_accounts num_accounts [] (map ev_owner (events q))"
  have ne: "events q \<noteq> []" and metas: "metas = consume_metas ?owners keys coin_wallet pc_wallet"
    using assms(2) p by (auto simp: consume_events_round_def pad res_simps Let_def split: if_splits)
  have srt: "sorted ?owners" "distinct ?owners" using used_accounts_sorted [of "[]" num_accounts "map ev_owner (events q)"] by simp_all
  have ix: "ix_accounts ix = metas" "ix_program_id ix = program_id" "ix_data ix = wire 0 (ConsumeEvents (of_nat per_worker))"
    using assms(1,5) by (auto simp: consume_events_once_def pack_def res_simps)
  have dec: "unpack (ix_data ix) = Some (ConsumeEvents (of_nat per_worker))"
    using ix(3) by (simp add: unpack_wire instruction_ok_def)
  have "map ai_key accs = map am_pubkey (consume_metas ?owners keys coin_wallet pc_wallet)"
    using assms(6) metas ix(1) by simp
  from consume_with_owners [OF this srt assms(7,8,3,9)] obtain es where
    ks: "map ai_key (cea_open_orders_accounts a) = ?owners" and es: "events q = es @ events q'"
    "length es \<le> per_worker mod 65536"
    "length es = per_worker mod 65536 \<or> events q' = [] \<or> ev_owner (hd (events q')) \<notin> set ?owners"
    by (auto simp: unat_of_nat)
  have "ev_owner (hd (events q)) \<in> set ?owners" using ne used_accounts_first by (cases "events q") auto
  then have "length es = 0 \<longleftrightarrow> per_worker mod 65536 = 0" using es ne by (cases "per_worker mod 65536 = 0") auto
  then have "es \<noteq> [] \<longleftrightarrow> per_worker mod 65536 \<noteq> 0" by simp
  moreover have "num_accounts \<le> length ?owners" if "events q' \<noteq> []" "ev_owner (hd (events q')) \<notin> set ?owners"
    using used_accounts_all [of "map ev_owner (events q)" num_accounts "[]"] es(1) that by (cases "events q'") auto
  moreover have "length (cea_open_orders_accounts a) = length ?owners" using ks by (metis length_map)
  ultimately show ?thesis using ks srt es ix(2) dec by auto
qed

text \<open>
  The variant that is run once passes the lowest owners of all events, in the same order: every
  owner when there are at most 32 of them.
\<close>

lemma remdups_adj_distinct_sorted: "sorted xs \<Longrightarrow> distinct (remdups_adj xs)"
  by (induction xs rule: remdups_adj.induct) (auto simp: order.antisym)

lemma consume_events_owners:
  assumes "consume_events serialize program_id keys coin_wallet pc_wallet
      (ACCOUNT_HEAD_PADDING @ bytes_of_words (event_queue_words q @ slop) @ ACCOUNT_TAIL_PADDING) = Inr (Some ix)"
    and "event_queue_ok q" "length slop < 11"
  obtains owners where "ix_accounts ix = consume_metas owners keys coin_wallet pc_wallet"
    "sorted owners" "distinct owners" "set owners \<subseteq> ev_owner ` set (events q)"
    "card (ev_owner ` set (events q)) \<le> 32 \<Longrightarrow> set owners = ev_owner ` set (events q)"
proof -
  have "event_queue_words q @ slop \<noteq> []" by (simp add: event_queue_words_def event_header_words_def)
  note pad = padding_stored [OF this]
  obtain seg0 seg1 where p: "parse_event_queue (event_queue_words q @ slop) = Inr (q_header q, seg0, seg1)"
    "seg0 @ seg1 = events q"
    using event_queue_parsed [OF assms(2,3)] by blast
  let ?all = "remdups_adj (sort (map ev_owner (events q)))"
  have d: "distinct ?all" "sorted ?all" by (simp_all add: remdups_adj_distinct_sorted)
  then have "length ?all = card (ev_owner ` set (events q))" using distinct_card [of ?all] by simp
  moreover have "ix_accounts ix = consume_metas (take 32 ?all) keys coin_wallet pc_wallet"
    using assms(1) p by (auto simp: consume_events_def pad res_simps Let_def split: if_splits)
  moreover have "set (take 32 ?all) \<subseteq> ev_owner ` set (events q)" using set_take_subset [of 32 ?all] by simp
  ultimately show thesis using d by (intro that [of "take 32 ?all"]) (simp_all add: sorted_wrt_take)
qed

end
