(* ===== verification/CrankAccepted.thy ===== *)
theory CrankAccepted
  imports CrankFacts
begin

text \<open>
  The crank's instructions at the program: what it reads off a market's account passes the
  program's address checks, a match it asks for is parsed to the market's queues and sides, a
  market it lists is initialised, and where its two ways of choosing accounts differ.
\<close>

declare split_paired_All [simp del] split_paired_Ex [simp del]

subsection \<open>Stored accounts load\<close>

abbreviation padded :: "u64 list \<Rightarrow> u8 list" where
  "padded ws \<equiv> ACCOUNT_HEAD_PADDING @ bytes_of_words ws @ ACCOUNT_TAIL_PADDING"

lemma stored_event_queue_loads:
  assumes "ai_data acc = padded (event_queue_words q @ slop)" "length slop < 11" "ai_key acc = ms_event_q m"
    and "eqh_account_flags (q_header q) = AF_Initialized OR AF_EventQueue"
  shows "load_event_queue_mut m acc = Inr q"
  using assms by (simp add: load_event_queue_mut_def check_or_code_def strip_padding_stored event_queue_layout
      flags_check init_flags)

lemma stored_request_queue_loads:
  assumes "ai_data acc = padded (request_queue_words q @ slop)" "length slop < 10" "ai_key acc = ms_req_q m"
    and "rqh_account_flags (q_header q) = AF_Initialized OR AF_RequestQueue"
  shows "load_request_queue_mut m acc = Inr q"
  using assms by (simp add: load_request_queue_mut_def check_or_code_def strip_padding_stored request_queue_layout
      flags_check init_flags)

lemma stored_side_loads:
  assumes "ai_data acc = padded ((AF_Initialized OR flag) # slab_words s @ slop)" "length slop < 9"
    and "account_flags_from_bits (AF_Initialized OR flag) = Some (AF_Initialized OR flag)"
  shows "load_side l flag acc = Inr s"
  using assms by (simp add: load_side_def strip_padding_stored slab_layout flags_check)

text \<open>What the crank accepts as a market's account, the program loads as the same market.\<close>

lemma market_keys_load:
  assumes "get_keys_for_market ch program_id market (ai_data acc) = Inr keys" "ai_owner acc = program_id"
  obtains m where "load_market program_id acc = Inr m" "ms_own_address m = market" "mp_market keys = market"
    "mp_req_q keys = ms_req_q m" "mp_event_q keys = ms_event_q m" "mp_bids keys = ms_bids m"
    "mp_asks keys = ms_asks m" "mp_coin_vault keys = ms_coin_vault m" "mp_pc_vault keys = ms_pc_vault m"
    "\<And>sig. ai_key sig = mp_vault_signer_key keys \<Longrightarrow> vault_signer_new ch sig m program_id = Inr ()"
proof -
  obtain ws m k where r: "remove_dex_account_padding (ai_data acc) = Inr ws" "market_of_words ws = Some m"
    "ms_check_flags m = Inr ()" "gen_vault_signer_key ch (ms_vault_signer_nonce m) market program_id = Inr k"
    "ms_own_address m = market"
    "keys = \<lparr>mp_market = market, mp_req_q = ms_req_q m, mp_event_q = ms_event_q m, mp_bids = ms_bids m,
             mp_asks = ms_asks m, mp_coin_vault = ms_coin_vault m, mp_pc_vault = ms_pc_vault m,
             mp_vault_signer_key = k\<rparr>"
    using assms(1) by (auto simp: get_keys_for_market_def res_simps split: if_splits)
  have "check_account_padding (ai_data acc) = Inr (ai_data acc, ws)"
    using padding_agrees [OF padding_needs [OF r(1)]] r(1) by blast
  then have "load_market program_id acc = Inr m"
    using r(2,3) assms(2) by (simp add: load_market_def check_assert_def)
  then show thesis
    by (rule that) (simp_all add: r(5,6) r(4) vault_signer_new_def check_assert_def)
qed

text \<open>
  Claim C35: the instruction to match orders that the crank builds from a market's account is the one
  the program means: its bytes decode to matching two requests, its accounts are
  the market's queues and sides in the order the program takes them, and when these hold what
  the program stores there, the program parses them to exactly that book and those queues.
\<close>

theorem crank_match_accepted:
  assumes "\<And>version i. serialize (version, i) = Some (wire version i)"
    and "length accs = 7" "ai_owner (accs ! 0) = program_id"
    and "get_keys_for_market ch program_id (ai_key (accs ! 0)) (ai_data (accs ! 0)) = Inr keys"
    and "match_orders_ix serialize program_id keys coin_wallet pc_wallet = Inr ix"
    and "map ai_key accs = map am_pubkey (ix_accounts ix)"
    and "ai_data (accs ! 1) = padded (request_queue_words rq @ slop1)" "length slop1 < 10"
      "rqh_account_flags (q_header rq) = AF_Initialized OR AF_RequestQueue"
    and "ai_data (accs ! 2) = padded (event_queue_words eq @ slop2)" "length slop2 < 11"
      "eqh_account_flags (q_header eq) = AF_Initialized OR AF_EventQueue"
    and "ai_data (accs ! 3) = padded ((AF_Initialized OR AF_Bids) # slab_words bids @ slop3)" "length slop3 < 9"
    and "ai_data (accs ! 4) = padded ((AF_Initialized OR AF_Asks) # slab_words asks @ slop4)" "length slop4 < 9"
  shows "ix_program_id ix = program_id \<and> unpack (ix_data ix) = Some (MatchOrders 2) \<and>
    (\<exists>m. load_market program_id (accs ! 0) = Inr m \<and> ms_own_address m = ai_key (accs ! 0) \<and>
      match_orders_args_parse program_id accs 2 = Inr
        \<lparr>moa_limit = 2, moa_order_book = \<lparr>ob_bids = bids, ob_asks = asks, ob_market = m\<rparr>,
         moa_req_q = rq, moa_event_q = eq\<rparr>)"
proof -
  have ix: "ix_program_id ix = program_id" "ix_data ix = wire 0 (MatchOrders 2)"
    "map am_pubkey (ix_accounts ix) = [mp_market keys, mp_req_q keys, mp_event_q keys, mp_bids keys,
       mp_asks keys, coin_wallet, pc_wallet]"
    using assms(1,5) by (auto simp: match_orders_ix_def pack_def res_simps)
  obtain m where m: "load_market program_id (accs ! 0) = Inr m" "ms_own_address m = ai_key (accs ! 0)"
    "mp_req_q keys = ms_req_q m" "mp_event_q keys = ms_event_q m" "mp_bids keys = ms_bids m" "mp_asks keys = ms_asks m"
    using market_keys_load [OF assms(4,3)] by blast
  have "map ai_key accs ! i = [mp_market keys, mp_req_q keys, mp_event_q keys, mp_bids keys,
       mp_asks keys, coin_wallet, pc_wallet] ! i" for i using assms(6) ix(3) by simp
  from this [of 1] this [of 2] this [of 3] this [of 4]
  have k: "ai_key (accs ! 1) = ms_req_q m" "ai_key (accs ! 2) = ms_event_q m" "ai_key (accs ! 3) = ms_bids m"
    "ai_key (accs ! 4) = ms_asks m"
    using m assms(2) by simp_all
  have "load_request_queue_mut m (accs ! 1) = Inr rq"
    by (rule stored_request_queue_loads [OF assms(7,8) k(1) assms(9)])
  moreover have "load_event_queue_mut m (accs ! 2) = Inr eq"
    by (rule stored_event_queue_loads [OF assms(10,11) k(2) assms(12)])
  moreover have "load_bids_mut m (accs ! 3) = Inr bids" "load_asks_mut m (accs ! 4) = Inr asks"
    using stored_side_loads [OF assms(13,14)] stored_side_loads [OF assms(15,16)] k(3,4)
    by (simp_all add: load_bids_mut_def load_asks_mut_def check_or_code_def init_flags)
  ultimately have "match_orders_args_parse program_id accs 2 = Inr
        \<lparr>moa_limit = 2, moa_order_book = \<lparr>ob_bids = bids, ob_asks = asks, ob_market = m\<rparr>,
         moa_req_q = rq, moa_event_q = eq\<rparr>"
    using m(1) assms(2) by (simp add: match_orders_args_parse_def check_assert_def or_assertion_def)
  then show ?thesis using ix m by (simp add: unpack_wire instruction_ok_def)
qed

subsection \<open>Orders and settling\<close>

text \<open>
  Who signs, and that what an instruction to settle takes from the market's account is what the program
  compares: its vaults, and the signer of the vaults.
\<close>

lemma order_and_settle_signers:
  assumes "\<And>version i. serialize (version, i) = Some (wire version i)" and "v1_ok params"
    and "place_order_ix serialize spl_token_id rent_id program_id payer wallet keys orders params = Inr ix"
    and "settle_funds_ix serialize spl_token_id program_id payer keys signer orders coin_wallet pc_wallet = Inr ix'"
  shows "unpack (ix_data ix) = Some (NewOrder params) \<and> signer_keys ix = {payer} \<and>
    unpack (ix_data ix') = Some SettleFunds \<and> signer_keys ix' = {case signer of None \<Rightarrow> payer | Some s \<Rightarrow> s}"
proof -
  note placed = assms(3) [unfolded place_order_ix_def, simplified pack_def assms(1), simplified, symmetric]
    and settled = assms(4) [unfolded settle_funds_ix_def, simplified pack_def assms(1), simplified, symmetric]
  have "ix_data ix = wire 0 (NewOrder params)" "signer_keys ix = {payer}"
    "ix_data ix' = wire 0 SettleFunds" "signer_keys ix' = {case signer of None \<Rightarrow> payer | Some s \<Rightarrow> s}"
    using placed settled by (simp_all add: signer_keys_def del: set_map set_filter)
  then show ?thesis using assms(2) by (simp add: unpack_wire instruction_ok_def)
qed

lemma settle_addresses:
  assumes "get_keys_for_market ch program_id (ai_key (accs ! 0)) (ai_data (accs ! 0)) = Inr keys"
    and "ai_owner (accs ! 0) = program_id" and "length accs = 9"
    and "settle_funds_ix serialize spl_token_id program_id payer keys signer orders coin_wallet pc_wallet = Inr ix"
    and "map ai_key accs = map am_pubkey (ix_accounts ix)"
  obtains m where "load_market program_id (accs ! 0) = Inr m" "ai_key (accs ! 3) = ms_coin_vault m"
    "ai_key (accs ! 4) = ms_pc_vault m" "vault_signer_new ch (accs ! 7) m program_id = Inr ()"
    "ai_key (accs ! 8) = spl_token_id"
proof -
  obtain m where m: "load_market program_id (accs ! 0) = Inr m" "mp_coin_vault keys = ms_coin_vault m"
    "mp_pc_vault keys = ms_pc_vault m"
    "\<And>sig. ai_key sig = mp_vault_signer_key keys \<Longrightarrow> vault_signer_new ch sig m program_id = Inr ()"
    using market_keys_load [OF assms(1,2)] by metis
  have "map ai_key accs = [mp_market keys, orders, case signer of None \<Rightarrow> payer | Some s \<Rightarrow> s, mp_coin_vault keys,
      mp_pc_vault keys, coin_wallet, pc_wallet, mp_vault_signer_key keys, spl_token_id]"
    using assms(4,5) by (auto simp: settle_funds_ix_def res_simps)
  then have "map ai_key accs ! i = [mp_market keys, orders, case signer of None \<Rightarrow> payer | Some s \<Rightarrow> s, mp_coin_vault keys,
      mp_pc_vault keys, coin_wallet, pc_wallet, mp_vault_signer_key keys, spl_token_id] ! i" for i by simp
  from this [of 3] this [of 4] this [of 7] this [of 8]
  have "ai_key (accs ! 3) = mp_coin_vault keys" "ai_key (accs ! 4) = mp_pc_vault keys"
    "ai_key (accs ! 7) = mp_vault_signer_key keys" "ai_key (accs ! 8) = spl_token_id"
    using assms(3) by simp_all
  then show thesis using m by (intro that [of m]) simp_all
qed

subsection \<open>A round fails on a request queue that is full\<close>

text \<open>
  The round reads the request queue as if it held events.  A listing's request queue has room
  for 7 requests, in which it sees 6 events: when it is full, from its first slot on, the slice of the
  second segment is out of range.
\<close>

lemma length_chunks_div: "0 < n \<Longrightarrow> length (chunks n d) = length d div n"
proof (induction n d rule: chunks.induct)
  case (1 n d)
  then show ?case by (subst chunks.simps) (auto simp: le_div_geq not_less)
qed

lemma full_request_queue_panics:
  assumes "queue_full request_header_ops q" "rqh_head (q_header q) = 0" "length (q_buf q) = 7" "length slop = 6"
  shows "parse_event_queue (request_queue_words q @ slop) = Inl CrankPanic"
proof -
  let ?ws = "concat (map request_words (q_buf q)) @ slop"
  have l: "length ?ws = 76" using request_array.array_length [of "q_buf q"] assms(3,4) by simp
  have h: "take 4 (request_queue_words q @ slop) = request_header_words (q_header q)"
    "drop 4 (request_queue_words q @ slop) = ?ws" "\<not> length (request_queue_words q @ slop) < 4"
    by (simp_all add: request_queue_words_def request_header_words_def)
  have e: "eqh_head (event_header_of_words (request_header_words (q_header q))) = 0"
    "unat (eqh_count (event_header_of_words (request_header_words (q_header q)))) = 7"
    using assms(1,2,3) by (simp_all add: event_header_of_words_def request_header_words_def queue_full_def
        request_header_ops_def)
  have c: "length (chunks 11 ?ws) = 6" using length_chunks_div [of 11 ?ws] l by simp
  show ?thesis unfolding parse_event_queue_def h Let_def by (simp add: queue_segments_def Let_def e c l del: length_append)
qed

subsection \<open>Listing a market\<close>

lemma zero_account_fresh:
  assumes "ai_data acc = replicate (12 + 8 * n) 0" "ai_owner acc = p" "0 < n"
  shows "check_fresh_account p acc = Inr ()"
proof -
  have "(12 + 8 * n) mod 8 = 4" by presburger
  then show ?thesis using assms by (simp add: check_fresh_account_def check_assert_def cut_def Let_def)
qed

lemma zero_account_init:
  assumes "ai_data acc = replicate (12 + 8 * n) 0"
  shows "14 \<le> n \<Longrightarrow> \<exists>acc'. init_request_queue acc = Inr acc'"
    and "4 + 11 * 128 \<le> n \<Longrightarrow> \<exists>acc'. init_event_queue acc = Inr acc'"
    and "5 + 9 * 201 \<le> n \<Longrightarrow> \<exists>acc'. init_side f acc = Inr acc'"
    and "n = 47 \<Longrightarrow> \<exists>acc'. init_market_account m acc = Inr acc'"
proof -
  note pad = init_padding_replicate [of n, folded assms]
  show "\<exists>acc'. init_request_queue acc = Inr acc'" if "14 \<le> n"
  proof -
    have "length (chunks 10 (replicate (n - 4) (0 :: u64))) = (n - 4) div 10" by (simp add: length_chunks_div)
    moreover have "0 < (n - 4) div 10" using that by (simp add: div_greater_zero_iff)
    ultimately have "chunks 10 (replicate (n - 4) (0 :: u64)) \<noteq> []" by auto
    then show ?thesis using that by (simp add: init_request_queue_def pad)
  qed
  show "\<exists>acc'. init_event_queue acc = Inr acc'" if "4 + 11 * 128 \<le> n"
  proof -
    have "128 \<le> (n - 4) div 11" using that div_le_mono [of "11 * 128" "n - 4" 11] by simp
    then show ?thesis using that by (simp add: init_event_queue_def pad length_chunks_div check_assert_def)
  qed
  show "\<exists>acc'. init_side f acc = Inr acc'" if "5 + 9 * 201 \<le> n"
  proof -
    have "201 \<le> (n - 5) div 9" using that div_le_mono [of "9 * 201" "n - 5" 9] by simp
    then show ?thesis using that
      by (simp add: init_side_def pad length_chunks_div check_assert_def slab_of_words_def slab_assert_minimum_capacity_def)
  qed
  show "\<exists>acc'. init_market_account m acc = Inr acc'" if "n = 47"
    using that by (simp add: init_market_account_def pad check_assert_def)
qed

lemma vault_signer_found:
  "vault_signer_search ch market p i = Inr (nonce, pk) \<Longrightarrow>
   gen_vault_signer_key ch nonce market p = Inr pk \<and> i \<le> unat nonce \<and> unat nonce < 100"
proof (induction ch market p i rule: vault_signer_search.induct)
  case (1 ch market p i)
  show ?case
  proof (cases "gen_vault_signer_key ch (of_nat i) market p")
    case (Inl e)
    then show ?thesis using 1 by (subst (asm) (2) vault_signer_search.simps) (auto split: if_splits)
  next
    case (Inr k)
    then show ?thesis using "1.prems"
      by (subst (asm) vault_signer_search.simps) (auto simp: unat_of_nat split: if_splits)
  qed
qed

lemma listing_words:
  "listing_lens ! 0 = 12 + 8 * 47" "listing_lens ! 1 = 12 + 8 * 80" "listing_lens ! 2 = 12 + 8 * 131072"
  "listing_lens ! 3 = 12 + 8 * 8192" "listing_lens ! 4 = 12 + 8 * 8192"
  by (simp_all add: listing_lens_def dex_account_len_def)

text \<open>The market that listing asks for, at the keys it returns.\<close>

definition listed_market :: "market_pubkeys \<Rightarrow> aligned \<Rightarrow> aligned \<Rightarrow> u64 \<Rightarrow> u64 \<Rightarrow> u64 \<Rightarrow> market_state" where
  "listed_market keys coin_mint pc_mint coin_lot_size pc_lot_size nonce =
     \<lparr>ms_account_flags = AF_Initialized OR AF_Market, ms_own_address = mp_market keys,
      ms_vault_signer_nonce = nonce, ms_coin_mint = coin_mint, ms_pc_mint = pc_mint,
      ms_coin_vault = mp_coin_vault keys, ms_coin_deposits_total = 0, ms_coin_fees_accrued = 0,
      ms_pc_vault = mp_pc_vault keys, ms_pc_deposits_total = 0, ms_pc_fees_accrued = 0,
      ms_pc_dust_threshold = 100,
      ms_req_q = mp_req_q keys, ms_event_q = mp_event_q keys, ms_bids = mp_bids keys, ms_asks = mp_asks keys,
      ms_coin_lot_size = coin_lot_size, ms_pc_lot_size = pc_lot_size, ms_fee_rate_bps = 0,
      ms_referrer_rebates_accrued = 0\<rparr>"

lemma five_below: "(i :: nat) < 5 \<Longrightarrow> i = 0 \<or> i = 1 \<or> i = 2 \<or> i = 3 \<or> i = 4"
  by linarith

lemma listing_lens_small: "i < 5 \<Longrightarrow> listing_lens ! i < 2 ^ 32"
  by (drule five_below) (auto simp: listing_words listing_words(2) [unfolded One_nat_def])

text \<open>
  A market that the crank lists is initialised: the instruction decodes to the
  terms asked for with the nonce the crank found, and on five new accounts of the lengths it creates
  and vaults that belong to the address it found, the program accepts the accounts and leaves five
  accounts that are loaded as the market asked for, with empty queues and an empty book.
\<close>

theorem crank_listing_accepted:
  assumes "\<And>version i. serialize (version, i) = Some (wire version i)"
    and "vault_signer_search ch (mp_market keys) program_id 0 = Inr (nonce, mp_vault_signer_key keys)"
    and "initialize_market_ix serialize (mp_market keys) program_id coin_mint pc_mint (mp_coin_vault keys)
      (mp_pc_vault keys) (mp_bids keys) (mp_asks keys) (mp_req_q keys) (mp_event_q keys) coin_lot_size pc_lot_size
      nonce 100 = Inr ix"
    and "map ai_key accs = map am_pubkey (ix_accounts ix)"
    and "\<And>i. i < 5 \<Longrightarrow> ai_owner (accs ! i) = program_id \<and> ai_data (accs ! i) = replicate (listing_lens ! i) 0"
    and "check_vault ch (mp_vault_signer_key keys) (accs ! 5) (accs ! 7) = Inr ()"
    and "check_vault ch (mp_vault_signer_key keys) (accs ! 6) (accs ! 8) = Inr ()"
  shows "\<exists>inst a accs'. unpack (ix_data ix) = Some (InitializeMarket inst) \<and>
    initialize_market_args_new ch program_id inst accs = Inr a \<and> process_initialize_market a = Inr accs' \<and>
    launched program_id (listed_market keys coin_mint pc_mint coin_lot_size pc_lot_size nonce) accs'"
proof -
  let ?inst = "\<lparr>im_coin_lot_size = coin_lot_size, im_pc_lot_size = pc_lot_size, im_fee_rate_bps = 0,
         im_vault_signer_nonce = nonce, im_pc_dust_threshold = 100\<rparr>"
  have ix: "ix_data ix = wire 0 (InitializeMarket ?inst)"
    "map am_pubkey (ix_accounts ix) = [mp_market keys, mp_req_q keys, mp_event_q keys, mp_bids keys, mp_asks keys,
       mp_coin_vault keys, mp_pc_vault keys, coin_mint, pc_mint]"
    using assms(1,3) by (auto simp: initialize_market_ix_def pack_def res_simps)
  note keyed = assms(4) [unfolded ix(2)]
  have len: "length accs = 9" using arg_cong [OF keyed, of length] by simp
  have at: "ai_key (accs ! i) = [mp_market keys, mp_req_q keys, mp_event_q keys, mp_bids keys, mp_asks keys,
       mp_coin_vault keys, mp_pc_vault keys, coin_mint, pc_mint] ! i" if "i < 9" for i
    using arg_cong [OF keyed, of "\<lambda>ks. ks ! i"] len that by simp
  note k = at [of 0, simplified] at [of 1, simplified] at [of 2, simplified] at [of 3, simplified] at [of 4, simplified]
    at [of 5, simplified] at [of 6, simplified] at [of 7, simplified] at [of 8, simplified]
  have d: "ai_data (accs ! 0) = replicate (12 + 8 * 47) 0" "ai_data (accs ! 1) = replicate (12 + 8 * 80) 0"
    "ai_data (accs ! 2) = replicate (12 + 8 * 131072) 0" "ai_data (accs ! 3) = replicate (12 + 8 * 8192) 0"
    "ai_data (accs ! 4) = replicate (12 + 8 * 8192) 0"
    using assms(5) [of 0] assms(5) [of 1] assms(5) [of 2] assms(5) [of 3] assms(5) [of 4]
    by (simp_all add: listing_words listing_words(2) [unfolded One_nat_def])
  have "ai_owner (accs ! i) = program_id" if "i < 5" for i using assms(5) that by blast
  note o' = this [of 0] this [of 1] this [of 2] this [of 3] this [of 4]
  have "check_fresh_account program_id (accs ! 0) = Inr ()" "check_fresh_account program_id (accs ! 1) = Inr ()"
    "check_fresh_account program_id (accs ! 2) = Inr ()" "check_fresh_account program_id (accs ! 3) = Inr ()"
    "check_fresh_account program_id (accs ! 4) = Inr ()"
    by (rule zero_account_fresh [OF d(1)] zero_account_fresh [OF d(2)] zero_account_fresh [OF d(3)]
        zero_account_fresh [OF d(4)] zero_account_fresh [OF d(5)]; use o' in simp)+
  moreover have t: "take 5 accs = [accs ! 0, accs ! 1, accs ! 2, accs ! 3, accs ! 4]"
    using len by (simp add: list_eq_iff_nth_eq nth_Cons' less_Suc_eq numeral_eq_Suc)
  ultimately have fresh: "check_fresh_accounts program_id (take 5 accs) = Inr ()" by simp
  have "gen_vault_signer_key ch nonce (mp_market keys) program_id = Inr (mp_vault_signer_key keys)"
    using vault_signer_found [OF assms(2)] by blast
  note signer = this
  define a where "a = \<lparr>ima_instruction = ?inst, ima_accounts = take 5 accs, ima_coin_vault = mp_coin_vault keys,
    ima_coin_mint = coin_mint, ima_pc_vault = mp_pc_vault keys, ima_pc_mint = pc_mint\<rparr>"
  have a: "initialize_market_args_new ch program_id ?inst accs = Inr a" "ima_accounts a = take 5 accs"
    using signer fresh len assms(6,7) k by (simp_all add: initialize_market_args_new_def check_assert_def a_def)
  obtain rq eq b s m where "init_request_queue (accs ! 1) = Inr rq" "init_event_queue (accs ! 2) = Inr eq"
    "init_side AF_Bids (accs ! 3) = Inr b" "init_side AF_Asks (accs ! 4) = Inr s"
    "init_market_account (initial_market a) (accs ! 0) = Inr m"
    using zero_account_init(1) [OF d(2)] zero_account_init(2) [OF d(3)] zero_account_init(3) [OF d(4), of AF_Bids]
      zero_account_init(3) [OF d(5), of AF_Asks] zero_account_init(4) [OF d(1), of "initial_market a"] by auto
  then have run: "process_initialize_market a = Inr [m, rq, eq, b, s]"
    using a(2) t by (simp add: process_initialize_market_def Let_def)
  have "initial_market a = listed_market keys coin_mint pc_mint coin_lot_size pc_lot_size nonce"
    using k len by (simp add: a_def initial_market_def listed_market_def Let_def)
  moreover have "launched program_id (initial_market a) [m, rq, eq, b, s]"
    by (rule initialized_launched [OF a(1) run]) (use assms(5) listing_lens_small in auto)
  ultimately show ?thesis using ix(1) a(1) run by (auto simp: unpack_wire instruction_ok_def)
qed

end
