(* ===== verification/CrankNetFacts.thy ===== *)
theory CrankNetFacts
  imports ClientLaws CrankAccepted
begin

text \<open>
  The crank's transactions: what they are signed with, that those that match, settle and list
  are simulated before they are sent, and that a market which it lists is one.
\<close>

declare split_paired_All [simp del] split_paired_Ex [simp del]

lemma case_pair_Inr: "(case p of (x, y) \<Rightarrow> f x y) = Inr z \<longleftrightarrow> (\<exists>x y. p = (x, y) \<and> f x y = Inr z)"
  by (cases p) auto

lemma crank_basic [calm_rules]:
  "calm (rpc_try r)" "calm (token_try t)" "calm (crank_keypair cl s)"
  by (simp_all add: rpc_try_def token_try_def crank_keypair_def calm_basic)

lemma calm_crank_send [calm_rules]: "calm (crank_send cl txn w)"
  unfolding crank_send_def send_txn_def by (intro calm_rules)

lemma calm_crank_simulate [calm_rules]: "calm (crank_simulate cl txn w)"
  unfolding crank_simulate_def by (intro calm_rules) (auto simp: calm_def split: option.split)

lemma calm_create_dex_account [calm_rules]: "calm (create_dex_account cl p payer n k w)"
  unfolding create_dex_account_def by (intro calm_rules)

lemma calm_crank_txn:
  "honest_sdk cl \<Longrightarrow> set signers = needed_signers ixs payer \<Longrightarrow> calm (crank_txn cl ixs payer signers w)"
  unfolding crank_txn_def by (intro calm_rules calm_sign)

lemma crank_try_eq_Inr [res_simps]:
  "crank_try r = Inr x \<longleftrightarrow> r = Inr x" "rpc_try r' = Inr x' \<longleftrightarrow> r' = Inr x'"
  by (simp_all add: crank_try_def rpc_try_def map_err_eq_Inr client_try_eq_Inr)

lemma crank_txn_run:
  assumes "honest_sdk cl" and "crank_txn cl ixs payer signers w = Inr tx"
  shows "tx_instructions tx = ixs \<and> set signers = needed_signers ixs payer"
proof -
  obtain h where "sdk_sign (cl_sdk cl) ixs payer signers h = Some tx"
    using assms(2) by (auto simp: crank_txn_def sign_def res_simps)
  then show ?thesis using honest_sdkD(1,2) [OF assms(1)] by blast
qed

lemma crank_simulate_run: "crank_simulate cl tx w = Inr u \<longleftrightarrow> cl_simulate cl tx w = Inr None"
  by (auto simp: crank_simulate_def res_simps split: option.splits)

lemma crank_send_run: "crank_send cl tx w = Inr r \<longleftrightarrow> cl_send cl tx w = Inr r"
  by (simp add: crank_send_def send_txn_def into_eq_Inr client_try_eq_Inr)

text \<open>The crank's own instructions, when the serialiser writes them.\<close>

definition total_serialize :: "(u8 \<times> market_instruction \<Rightarrow> u8 list option) \<Rightarrow> bool" where
  "total_serialize serialize \<longleftrightarrow> (\<forall>i. serialize (0, i) \<noteq> None)"

lemma crank_instructions:
  assumes "total_serialize serialize"
  shows "\<exists>i. place_order_ix serialize t r p payer wlt keys orders params = Inr i \<and> signer_keys i = {payer}"
    and "\<exists>i. settle_funds_ix serialize t p payer keys signer orders cw pw = Inr i \<and>
      signer_keys i = {case signer of None \<Rightarrow> payer | Some s \<Rightarrow> s}"
    and "\<exists>i. match_orders_ix serialize p keys cw pw = Inr i \<and> signer_keys i = {}"
proof -
  have w: "\<exists>d. pack serialize i = Inr d" for i
    using assms unfolding total_serialize_def pack_def unwrap_def by (metis ok_or_simps(2) option.exhaust)
  show "\<exists>i. place_order_ix serialize t r p payer wlt keys orders params = Inr i \<and> signer_keys i = {payer}"
    using w [of "NewOrder params"] by (auto simp: place_order_ix_def signer_keys_def simp del: set_filter)
  show "\<exists>i. settle_funds_ix serialize t p payer keys signer orders cw pw = Inr i \<and>
      signer_keys i = {case signer of None \<Rightarrow> payer | Some s \<Rightarrow> s}"
    using w [of SettleFunds] by (auto simp: settle_funds_ix_def signer_keys_def simp del: set_filter)
  show "\<exists>i. match_orders_ix serialize p keys cw pw = Inr i \<and> signer_keys i = {}"
    using w [of "MatchOrders 2"] by (auto simp: match_orders_ix_def signer_keys_def simp del: set_filter)
qed

lemma calm_place_order:
  assumes "honest_sdk cl" and "total_serialize serialize"
  shows "calm (place_order cl serialize k p payer wlt state orders params w)"
proof (cases orders)
  case None
  obtain i where i: "place_order_ix serialize (token_program_id cl) (sdk_rent_id (cl_sdk cl)) p payer wlt state k params = Inr i"
    "signer_keys i = {payer}" using crank_instructions(1) [OF assms(2)] by blast
  show ?thesis
  proof (cases "create_dex_account cl p payer (402 * 8) k w")
    case (Inl e)
    then show ?thesis using None calm_create_dex_account [of cl p payer "402 * 8" k w]
      by (simp add: place_order_def calm_def)
  next
    case (Inr c)
    then have c: "signer_keys c = {payer, k}"
      by (auto simp: create_dex_account_def res_simps Let_def honest_sdkD(3) [OF assms(1)])
    have "calm (crank_txn cl [c, i] payer [k, payer] w)"
      by (rule calm_crank_txn [OF assms(1)]) (auto simp: needed_signers_def c i(2))
    then show ?thesis using None Inr
      by (simp add: place_order_def i(1) crank_try_def) (intro calm_rules, auto)
  qed
next
  case (Some pk)
  obtain i where i: "place_order_ix serialize (token_program_id cl) (sdk_rent_id (cl_sdk cl)) p payer wlt state pk params = Inr i"
    "signer_keys i = {payer}" using crank_instructions(1) [OF assms(2)] by blast
  have "calm (crank_txn cl [i] payer [payer] w)"
    by (rule calm_crank_txn [OF assms(1)]) (auto simp: needed_signers_def i(2))
  then show ?thesis using Some by (simp add: place_order_def i(1) crank_try_def) (intro calm_rules, auto)
qed

lemma settle_transaction:
  assumes "honest_sdk cl" and "total_serialize serialize"
  shows "calm (settle_funds cl serialize p payer state signer orders cw pw w)"
    and "settle_funds cl serialize p payer state signer orders cw pw w = Inr w' \<Longrightarrow>
      \<exists>tx sig i. settle_funds_ix serialize (token_program_id cl) p payer state signer orders cw pw = Inr i \<and>
        tx_instructions tx = [i] \<and> cl_simulate cl tx w = Inr None \<and> cl_send cl tx w = Inr (sig, w')"
proof -
  obtain i where i: "settle_funds_ix serialize (token_program_id cl) p payer state signer orders cw pw = Inr i"
    "signer_keys i = {case signer of None \<Rightarrow> payer | Some s \<Rightarrow> s}" using crank_instructions(2) [OF assms(2)] by blast
  let ?signers = "payer # (case signer of Some s \<Rightarrow> [s] | None \<Rightarrow> [])"
  have c: "calm (crank_txn cl [i] payer ?signers w)"
    by (rule calm_crank_txn [OF assms(1)]) (auto simp: needed_signers_def i(2) split: option.splits)
  show "calm (settle_funds cl serialize p payer state signer orders cw pw w)"
    unfolding settle_funds_def i(1) crank_try_def map_err_simps and_then_simps Let_def
    by (intro calm_rules c)
  assume "settle_funds cl serialize p payer state signer orders cw pw w = Inr w'"
  then obtain tx sig where tx: "crank_txn cl [i] payer ?signers w = Inr tx" "cl_simulate cl tx w = Inr None"
    "cl_send cl tx w = Inr (sig, w')"
    using i(1) by (auto simp: settle_funds_def crank_try_eq_Inr and_then_eq_Inr crank_simulate_run crank_send_run)
  then show "\<exists>tx sig i. settle_funds_ix serialize (token_program_id cl) p payer state signer orders cw pw = Inr i \<and>
        tx_instructions tx = [i] \<and> cl_simulate cl tx w = Inr None \<and> cl_send cl tx w = Inr (sig, w')"
    using crank_txn_run [OF assms(1) tx(1)] i(1) by blast
qed

lemma match_transaction:
  assumes "honest_sdk cl" and "total_serialize serialize"
  shows "calm (match_orders cl serialize p payer state cw pw w)"
    and "match_orders cl serialize p payer state cw pw w = Inr w' \<Longrightarrow>
      \<exists>tx sig i. match_orders_ix serialize p state cw pw = Inr i \<and>
        tx_instructions tx = [i] \<and> cl_simulate cl tx w = Inr None \<and> cl_send cl tx w = Inr (sig, w')"
proof -
  obtain i where i: "match_orders_ix serialize p state cw pw = Inr i" "signer_keys i = {}"
    using crank_instructions(3) [OF assms(2)] by blast
  have c: "calm (crank_txn cl [i] payer [payer] w)"
    by (rule calm_crank_txn [OF assms(1)]) (auto simp: needed_signers_def i(2))
  show "calm (match_orders cl serialize p payer state cw pw w)"
    unfolding match_orders_def i(1) crank_try_def map_err_simps and_then_simps Let_def
    by (intro calm_rules c)
  assume "match_orders cl serialize p payer state cw pw w = Inr w'"
  then obtain tx sig where tx: "crank_txn cl [i] payer [payer] w = Inr tx" "cl_simulate cl tx w = Inr None"
    "cl_send cl tx w = Inr (sig, w')"
    using i(1) by (auto simp: match_orders_def crank_try_eq_Inr and_then_eq_Inr crank_simulate_run crank_send_run)
  then show "\<exists>tx sig i. match_orders_ix serialize p state cw pw = Inr i \<and>
        tx_instructions tx = [i] \<and> cl_simulate cl tx w = Inr None \<and> cl_send cl tx w = Inr (sig, w')"
    using crank_txn_run [OF assms(1) tx(1)] i(1) by blast
qed

text \<open>
  Claim C22: what the crank sends to place an order, to match and to settle is signed with the keys
  it needs, with and without an own signer and for a new or an existing orders account, so that
  none of the three panics; and matching and settling send one instruction, as they build it, and
  only in a transaction whose simulation in the same state has ended without an error.
\<close>

theorem crank_sends_simulated:
  assumes "honest_sdk cl" and "total_serialize serialize"
  shows "place_order cl serialize k p payer wlt state orders params w \<noteq> Inl ClientPanic \<and>
    match_orders cl serialize p payer state cw pw w \<noteq> Inl ClientPanic \<and>
    settle_funds cl serialize p payer state signer open_orders cw pw w \<noteq> Inl ClientPanic \<and>
    (match_orders cl serialize p payer state cw pw w = Inr w' \<longrightarrow>
      (\<exists>tx sig i. match_orders_ix serialize p state cw pw = Inr i \<and>
         tx_instructions tx = [i] \<and> cl_simulate cl tx w = Inr None \<and> cl_send cl tx w = Inr (sig, w'))) \<and>
    (settle_funds cl serialize p payer state signer open_orders cw pw w = Inr w' \<longrightarrow>
      (\<exists>tx sig i. settle_funds_ix serialize (token_program_id cl) p payer state signer open_orders cw pw = Inr i \<and>
         tx_instructions tx = [i] \<and> cl_simulate cl tx w = Inr None \<and> cl_send cl tx w = Inr (sig, w')))"
  by (intro conjI impI match_transaction(2) [OF assms] settle_transaction(2) [OF assms])
    (use calm_place_order [OF assms] match_transaction(1) [OF assms] settle_transaction(1) [OF assms] in
      \<open>simp_all add: calm_def\<close>)

subsection \<open>Listing a market\<close>

lemma listing_params_run:
  assumes "gen_listing_params cl ch fresh p payer w = Inr (lk, ixs)"
  obtains l0 l1 l2 l3 l4 nonce pk where
    "lk = ListingKeys (fresh 0) (fresh 1) (fresh 2) (fresh 3) (fresh 4) pk nonce"
    "vault_signer_search ch (fresh 0) p 0 = Inr (nonce, pk)"
    "ixs = [create_account_ix cl payer (fresh 0) l0 (of_nat (listing_lens ! 0)) p,
       create_account_ix cl payer (fresh 1) l1 (of_nat (listing_lens ! 1)) p,
       create_account_ix cl payer (fresh 2) l2 (of_nat (listing_lens ! 2)) p,
       create_account_ix cl payer (fresh 3) l3 (of_nat (listing_lens ! 3)) p,
       create_account_ix cl payer (fresh 4) l4 (of_nat (listing_lens ! 4)) p]"
proof -
  have lens: "listing_lens ! 0 = dex_account_len 376" "listing_lens ! 1 = dex_account_len 640"
    "listing_lens ! 2 = dex_account_len (2 ^ 20)" "listing_lens ! 3 = dex_account_len (2 ^ 16)"
    "listing_lens ! 4 = dex_account_len (2 ^ 16)"
    by (simp_all add: listing_lens_def)
  have c: "create_dex_account cl p payer n k w = Inr i \<longleftrightarrow>
      (\<exists>l. cl_min_balance cl (dex_account_len n) w = Inr l \<and>
        i = create_account_ix cl payer k l (of_nat (dex_account_len n)) p)" for n k i
    by (auto simp: create_dex_account_def res_simps Let_def)
  show ?thesis
    using assms that unfolding lens
    by (auto simp: gen_listing_params_def and_then_eq_Inr c crank_try_eq_Inr simp del: of_nat_numeral power_numeral)
qed

lemma list_market_run:
  assumes "honest_sdk cl"
    and "list_market cl ch serialize fresh p payer coin_mint pc_mint coin_lot_size pc_lot_size w = Inr (keys, w')"
  obtains lk creations cv pv ix tx w2 sig where
    "gen_listing_params cl ch fresh p payer w = Inr (lk, creations)"
    "initialize_market_ix serialize (lk_market_key lk) p coin_mint pc_mint cv pv (lk_bids_key lk) (lk_asks_key lk)
       (lk_req_q_key lk) (lk_event_q_key lk) coin_lot_size pc_lot_size (lk_vault_signer_nonce lk) 100 = Inr ix"
    "tx_instructions tx = creations @ [ix]" "cl_simulate cl tx w2 = Inr None" "cl_send cl tx w2 = Inr (sig, w')"
    "keys = \<lparr>mp_market = lk_market_key lk, mp_req_q = lk_req_q_key lk, mp_event_q = lk_event_q_key lk,
       mp_bids = lk_bids_key lk, mp_asks = lk_asks_key lk, mp_coin_vault = cv, mp_pc_vault = pv,
       mp_vault_signer_key = lk_vault_signer_pk lk\<rparr>"
proof -
  have "\<exists>lk creations. gen_listing_params cl ch fresh p payer w = Inr (lk, creations) \<and> (\<exists>cv pv w2 ix tx sig.
    initialize_market_ix serialize (lk_market_key lk) p coin_mint pc_mint cv pv (lk_bids_key lk) (lk_asks_key lk)
       (lk_req_q_key lk) (lk_event_q_key lk) coin_lot_size pc_lot_size (lk_vault_signer_nonce lk) 100 = Inr ix \<and>
    crank_txn cl (creations @ [ix]) payer [payer, lk_market_key lk, lk_req_q_key lk, lk_event_q_key lk,
       lk_bids_key lk, lk_asks_key lk, lk_req_q_key lk, lk_event_q_key lk] w2 = Inr tx \<and>
    cl_simulate cl tx w2 = Inr None \<and> cl_send cl tx w2 = Inr (sig, w') \<and>
    keys = \<lparr>mp_market = lk_market_key lk, mp_req_q = lk_req_q_key lk, mp_event_q = lk_event_q_key lk,
       mp_bids = lk_bids_key lk, mp_asks = lk_asks_key lk, mp_coin_vault = cv, mp_pc_vault = pv,
       mp_vault_signer_key = lk_vault_signer_pk lk\<rparr>)"
    using assms(2) unfolding list_market_def Let_def and_then_eq_Inr case_pair_Inr crank_try_eq_Inr map_err_eq_Inr crank_simulate_run crank_send_run sum.inject prod.inject
    by - (elim exE conjE, hypsubst, intro exI conjI, assumption+, rule refl)
  then obtain lk creations cv pv ix tx w2 sig where
    r: "gen_listing_params cl ch fresh p payer w = Inr (lk, creations)"
    "initialize_market_ix serialize (lk_market_key lk) p coin_mint pc_mint cv pv (lk_bids_key lk) (lk_asks_key lk)
       (lk_req_q_key lk) (lk_event_q_key lk) coin_lot_size pc_lot_size (lk_vault_signer_nonce lk) 100 = Inr ix"
    "cl_simulate cl tx w2 = Inr None" "cl_send cl tx w2 = Inr (sig, w')"
    "keys = \<lparr>mp_market = lk_market_key lk, mp_req_q = lk_req_q_key lk, mp_event_q = lk_event_q_key lk,
       mp_bids = lk_bids_key lk, mp_asks = lk_asks_key lk, mp_coin_vault = cv, mp_pc_vault = pv,
       mp_vault_signer_key = lk_vault_signer_pk lk\<rparr>"
    and t: "crank_txn cl (creations @ [ix]) payer [payer, lk_market_key lk, lk_req_q_key lk, lk_event_q_key lk,
       lk_bids_key lk, lk_asks_key lk, lk_req_q_key lk, lk_event_q_key lk] w2 = Inr tx"
    by blast
  show ?thesis by (rule that [OF r(1,2) _ r(3-5)]) (use crank_txn_run [OF assms(1) t] in blast)
qed

lemma initialize_market_keys:
  "initialize_market_ix serialize mk p coin_mint pc_mint cv pv bk ak rk ek coin_lot_size pc_lot_size nonce dust = Inr ix \<Longrightarrow>
   map am_pubkey (ix_accounts ix) = [mk, rk, ek, bk, ak, cv, pv, coin_mint, pc_mint]"
  by (auto simp: initialize_market_ix_def res_simps)

text \<open>The transaction and its instructions, in terms of the keys that are returned.\<close>

lemma market_listed_run:
  assumes "honest_sdk cl"
    and "list_market cl ch serialize fresh p payer coin_mint pc_mint coin_lot_size pc_lot_size w = Inr (keys, w')"
  obtains tx w2 sig ix nonce where "cl_simulate cl tx w2 = Inr None" "cl_send cl tx w2 = Inr (sig, w')"
    "length (tx_instructions tx) = 6" "tx_instructions tx ! 5 = ix"
    "initialize_market_ix serialize (mp_market keys) p coin_mint pc_mint (mp_coin_vault keys) (mp_pc_vault keys)
       (mp_bids keys) (mp_asks keys) (mp_req_q keys) (mp_event_q keys) coin_lot_size pc_lot_size nonce 100 = Inr ix"
    "vault_signer_search ch (mp_market keys) p 0 = Inr (nonce, mp_vault_signer_key keys)"
    "\<And>i. i < 5 \<Longrightarrow> \<exists>l. tx_instructions tx ! i = create_account_ix cl payer
       ([mp_market keys, mp_req_q keys, mp_event_q keys, mp_bids keys, mp_asks keys] ! i) l (of_nat (listing_lens ! i)) p"
proof -
  obtain lk creations cv pv ix tx w2 sig where
    lp: "gen_listing_params cl ch fresh p payer w = Inr (lk, creations)"
    and ix: "initialize_market_ix serialize (lk_market_key lk) p coin_mint pc_mint cv pv (lk_bids_key lk)
       (lk_asks_key lk) (lk_req_q_key lk) (lk_event_q_key lk) coin_lot_size pc_lot_size (lk_vault_signer_nonce lk) 100 = Inr ix"
    and tx: "tx_instructions tx = creations @ [ix]" "cl_simulate cl tx w2 = Inr None" "cl_send cl tx w2 = Inr (sig, w')"
    and keys: "keys = \<lparr>mp_market = lk_market_key lk, mp_req_q = lk_req_q_key lk, mp_event_q = lk_event_q_key lk,
       mp_bids = lk_bids_key lk, mp_asks = lk_asks_key lk, mp_coin_vault = cv, mp_pc_vault = pv,
       mp_vault_signer_key = lk_vault_signer_pk lk\<rparr>"
    by (rule list_market_run [OF assms])
  obtain l0 l1 l2 l3 l4 nonce pk where
    lk: "lk = ListingKeys (fresh 0) (fresh 1) (fresh 2) (fresh 3) (fresh 4) pk nonce"
    and search: "vault_signer_search ch (fresh 0) p 0 = Inr (nonce, pk)"
    and cs: "creations = [create_account_ix cl payer (fresh 0) l0 (of_nat (listing_lens ! 0)) p,
       create_account_ix cl payer (fresh 1) l1 (of_nat (listing_lens ! 1)) p,
       create_account_ix cl payer (fresh 2) l2 (of_nat (listing_lens ! 2)) p,
       create_account_ix cl payer (fresh 3) l3 (of_nat (listing_lens ! 3)) p,
       create_account_ix cl payer (fresh 4) l4 (of_nat (listing_lens ! 4)) p]"
    by (rule listing_params_run [OF lp])
  show ?thesis
  proof (rule that [OF tx(2,3), of ix nonce])
    fix i :: nat assume "i < 5"
    then have "i = 0 \<or> i = 1 \<or> i = 2 \<or> i = 3 \<or> i = 4" by linarith
    then show "\<exists>l. tx_instructions tx ! i = create_account_ix cl payer
       ([mp_market keys, mp_req_q keys, mp_event_q keys, mp_bids keys, mp_asks keys] ! i) l (of_nat (listing_lens ! i)) p"
      by (elim disjE) (auto simp: tx(1) cs keys lk)
  qed (use ix search in \<open>simp_all add: tx(1) cs keys lk\<close>)
qed

text \<open>
  Claim C33: a market that the crank lists is a market. When listing returns its keys, one transaction
  was sent whose simulation had ended without an error. It creates five accounts and then
  initialises them, naming exactly the keys that are returned; and on accounts as it creates them,
  with vaults that belong to the returned signer, the program accepts it and leaves five accounts
  that every later instruction loads as the market asked for: its keys those returned, its mints and
  lot sizes those given, nothing deposited or accrued, its queues and both sides empty and with room.
\<close>

theorem crank_market_listed:
  assumes "honest_sdk cl" and "\<And>version i. serialize (version, i) = Some (wire version i)"
    and "list_market cl ch serialize fresh program_id payer coin_mint pc_mint coin_lot_size pc_lot_size w = Inr (keys, w')"
  shows "\<exists>tx w2 sig. cl_simulate cl tx w2 = Inr None \<and> cl_send cl tx w2 = Inr (sig, w') \<and>
    length (tx_instructions tx) = 6 \<and>
    map am_pubkey (ix_accounts (tx_instructions tx ! 5)) =
      [mp_market keys, mp_req_q keys, mp_event_q keys, mp_bids keys, mp_asks keys, mp_coin_vault keys,
       mp_pc_vault keys, coin_mint, pc_mint] \<and>
    (\<forall>i<5. \<exists>l. tx_instructions tx ! i = create_account_ix cl payer
       ([mp_market keys, mp_req_q keys, mp_event_q keys, mp_bids keys, mp_asks keys] ! i) l
       (of_nat (listing_lens ! i)) program_id) \<and>
    (\<forall>accs. map ai_key accs = map am_pubkey (ix_accounts (tx_instructions tx ! 5)) \<and>
       (\<forall>i<5. ai_owner (accs ! i) = program_id \<and> ai_data (accs ! i) = replicate (listing_lens ! i) 0) \<and>
       check_vault ch (mp_vault_signer_key keys) (accs ! 5) (accs ! 7) = Inr () \<and>
       check_vault ch (mp_vault_signer_key keys) (accs ! 6) (accs ! 8) = Inr () \<longrightarrow>
       (\<exists>inst a accs' nonce. unpack (ix_data (tx_instructions tx ! 5)) = Some (InitializeMarket inst) \<and>
          initialize_market_args_new ch program_id inst accs = Inr a \<and> process_initialize_market a = Inr accs' \<and>
          gen_vault_signer_key ch nonce (mp_market keys) program_id = Inr (mp_vault_signer_key keys) \<and>
          launched program_id (listed_market keys coin_mint pc_mint coin_lot_size pc_lot_size nonce) accs'))"
proof -
  obtain tx w2 sig ix nonce where tx: "cl_simulate cl tx w2 = Inr None" "cl_send cl tx w2 = Inr (sig, w')"
      "length (tx_instructions tx) = 6" "tx_instructions tx ! 5 = ix"
    and ix: "initialize_market_ix serialize (mp_market keys) program_id coin_mint pc_mint (mp_coin_vault keys)
       (mp_pc_vault keys) (mp_bids keys) (mp_asks keys) (mp_req_q keys) (mp_event_q keys) coin_lot_size pc_lot_size
       nonce 100 = Inr ix" "vault_signer_search ch (mp_market keys) program_id 0 = Inr (nonce, mp_vault_signer_key keys)"
    and made: "\<And>i. i < 5 \<Longrightarrow> \<exists>l. tx_instructions tx ! i = create_account_ix cl payer
       ([mp_market keys, mp_req_q keys, mp_event_q keys, mp_bids keys, mp_asks keys] ! i) l
       (of_nat (listing_lens ! i)) program_id"
    using market_listed_run [OF assms(1,3)] by blast
  note accepted = crank_listing_accepted [OF assms(2) ix(2,1)] vault_signer_found [OF ix(2)]
  show ?thesis
  proof (rule exI [of _ tx], rule exI [of _ w2], rule exI [of _ sig], intro conjI allI impI)
    show "map am_pubkey (ix_accounts (tx_instructions tx ! 5)) = [mp_market keys, mp_req_q keys, mp_event_q keys,
        mp_bids keys, mp_asks keys, mp_coin_vault keys, mp_pc_vault keys, coin_mint, pc_mint]"
      unfolding tx(4) by (rule initialize_market_keys [OF ix(1)])
  qed (rule tx | erule made | (unfold tx(4), elim conjE, use accepted in blast))+
qed

end
