(* ===== verification/CrankSample.thy ===== *)
theory CrankSample
  imports CrankAccepted
begin

text \<open>The crank's properties on a market with one resting event.\<close>

declare split_paired_All [simp del] split_paired_Ex [simp del]

definition stored_account :: "aligned \<Rightarrow> u64 list \<Rightarrow> account_info" where
  "stored_account k ws =
     \<lparr>ai_key = k, ai_owner = (30, 0, 0, 0), ai_is_signer = False, ai_lamports = 100000, ai_data = padded ws\<rparr>"

definition idle_requests :: request_queue_account where
  "idle_requests =
     \<lparr>q_header = \<lparr>rqh_account_flags = 9, rqh_head = 0, rqh_count = 0, rqh_next_seq_num = 5\<rparr>,
      q_buf = replicate 2 \<lparr>rq_flags = 0, rq_owner_slot = 0, rq_fee_tier = 0, rq_self_trade_behavior = 0,
        rq_max_coin_qty_or_cancel_id = 0, rq_native_pc_qty_locked = 0, rq_order_id = 0, rq_owner = (0, 0, 0, 0),
        rq_client_order_id = 0\<rparr>\<rparr>"

abbreviation resting_events :: event_queue_account where
  "resting_events \<equiv> cea_event_q sample_consume"

abbreviation sample_market_acc :: account_info where
  "sample_market_acc \<equiv> stored_account (1, 2, 3, 4) (market_words sample_market)"

definition sample_keys :: market_pubkeys where
  "sample_keys =
     \<lparr>mp_market = (1, 2, 3, 4), mp_req_q = (15, 0, 0, 0), mp_event_q = (16, 0, 0, 0), mp_bids = (17, 0, 0, 0),
      mp_asks = (18, 0, 0, 0), mp_coin_vault = (13, 0, 0, 0), mp_pc_vault = (14, 0, 0, 0),
      mp_vault_signer_key = (19, 0, 0, 0)\<rparr>"

definition bincode :: "u8 \<times> market_instruction \<Rightarrow> u8 list option" where
  "bincode p = (case p of (v, i) \<Rightarrow> Some (wire v i))"

lemma bincode_wire: "bincode (v, i) = Some (wire v i)"
  by (simp add: bincode_def)

lemma market_words_ne: "market_words m \<noteq> []"
  by (simp add: market_words_def)

lemma sample_market_flags: "ms_check_flags sample_market = Inr ()"
  by (simp add: ms_check_flags_def sample_market_def account_flags_from_bits_def flags_contain_def account_flag_defs)

lemma sample_market_keys:
  "get_keys_for_market sample_chain (30, 0, 0, 0) (1, 2, 3, 4) (ai_data sample_market_acc) = Inr sample_keys"
  by (simp add: get_keys_for_market_def stored_account_def padding_stored [OF market_words_ne] market_layout
      sample_market_flags gen_vault_signer_key_def sample_chain_def sample_keys_def)
    (simp add: sample_market_def)

lemma resting_events_ok: "event_queue_ok resting_events" "events resting_events = [event_new sample_fill]"
  by (simp_all add: sample_consume_def event_queue_ok_def events_def queue_inv_def queue_list_def event_header_ops_def)

lemma idle_requests_ok: "queue_inv request_header_ops idle_requests"
  by (simp add: idle_requests_def queue_inv_def request_header_ops_def)

theorem crank_reads_queues_witness:
  "\<exists>seg0 seg1. and_then (remove_dex_account_padding
      (ACCOUNT_HEAD_PADDING @ bytes_of_words (event_queue_words resting_events @ []) @ ACCOUNT_TAIL_PADDING))
      parse_event_queue = Inr (q_header resting_events, seg0, seg1) \<and>
    seg0 @ seg1 = [event_new sample_fill]"
proof -
  have inv: "queue_inv event_header_ops resting_events" using resting_events_ok(1) by (simp add: event_queue_ok_def)
  have "queue_iter event_header_ops resting_events = Inr [event_new sample_fill]"
    using event_q.queue_iter_list [OF inv] resting_events_ok(2) by (simp add: events_def)
  then show ?thesis
    using crank_reads_queues [of resting_events "[]" idle_requests "[]"] inv idle_requests_ok by auto
qed

lemma idle_requests_as_events: "\<exists>h. parse_event_queue (request_queue_words idle_requests) = Inr (h, [], [])"
proof -
  have l: "length (concat (map request_words (q_buf idle_requests))) = 20"
    using request_array.array_length [of "q_buf idle_requests"] by (simp add: idle_requests_def)
  have h: "take 4 (request_queue_words idle_requests) = request_header_words (q_header idle_requests)"
    "drop 4 (request_queue_words idle_requests) = concat (map request_words (q_buf idle_requests))"
    "\<not> length (request_queue_words idle_requests) < 4"
    by (simp_all add: request_queue_words_def request_header_words_def)
  have "eqh_head (event_header_of_words (request_header_words (q_header idle_requests))) = 0"
    "eqh_count (event_header_of_words (request_header_words (q_header idle_requests))) = 0"
    by (simp_all add: event_header_of_words_def request_header_words_def idle_requests_def)
  then show ?thesis unfolding parse_event_queue_def Let_def h(1,2) l using h(3) by (simp add: queue_segments_def)
qed

lemma sample_round:
  "consume_events_round sample_keys (21, 0, 0, 0) (22, 0, 0, 0) 2 5 3
      (padded (event_queue_words resting_events @ [])) (padded (request_queue_words idle_requests))
    = Inr (Some (consume_metas [(20, 0, 0, 0)] sample_keys (21, 0, 0, 0) (22, 0, 0, 0), 1))"
proof -
  obtain h where h: "parse_event_queue (request_queue_words idle_requests) = Inr (h, [], [])"
    using idle_requests_as_events by blast
  obtain seg0 seg1 where p: "parse_event_queue (event_queue_words resting_events @ []) = Inr (q_header resting_events, seg0, seg1)"
    "seg0 @ seg1 = [event_new sample_fill]"
    using event_queue_parsed [OF resting_events_ok(1), of "[]"] resting_events_ok(2) by auto
  have ne: "event_queue_words resting_events @ [] \<noteq> []" "request_queue_words idle_requests \<noteq> []"
    by (simp_all add: event_queue_words_def event_header_words_def request_queue_words_def request_header_words_def)
  have l: "length seg0 + length seg1 = 1" using arg_cong [OF p(2), of length] by simp
  have "seg0 = [] \<longrightarrow> seg1 \<noteq> []" using p(2) by auto
  moreover have "map ev_owner (seg0 @ seg1) = [(20, 0, 0, 0)]" unfolding p(2) by (simp add: event_new_def sample_fill_def)
  ultimately show ?thesis
    by (simp add: consume_events_round_def padding_stored [OF ne(1)] padding_stored [OF ne(2)] p(1) h l Let_def
        insort_insert_key_def del: append_Nil2 map_append)
qed

lemma sample_consume_parse:
  "consume_events_args_parse (30, 0, 0, 0)
    [sample_orders_account, sample_market_acc, stored_account (16, 0, 0, 0) (event_queue_words resting_events @ []),
     stored_account (21, 0, 0, 0) [], stored_account (22, 0, 0, 0) []] 5 = Inr sample_consume"
proof -
  have "load_market (30, 0, 0, 0) sample_market_acc = Inr sample_market"
    by (simp add: load_market_def check_assert_def stored_account_def check_padding_stored market_layout sample_market_flags)
  moreover have "load_event_queue_mut sample_market (stored_account (16, 0, 0, 0) (event_queue_words resting_events @ []))
    = Inr resting_events"
    by (rule stored_event_queue_loads [where slop = "[]"])
      (simp_all add: stored_account_def sample_market_def sample_consume_def account_flag_defs)
  ultimately show ?thesis
    by (simp add: consume_events_args_parse_def check_assert_def Let_def) (simp add: sample_consume_def)
qed

theorem crank_round_progress_witness:
  "\<exists>accs q. process_consume_events sample_consume = Inr (accs, q) \<and> events q = []"
proof -
  let ?metas = "consume_metas [(20, 0, 0, 0)] sample_keys (21, 0, 0, 0) (22, 0, 0, 0)"
  obtain accs q where run: "process_consume_events sample_consume = Inr (accs, q)" using sample_consume_run by blast
  obtain ix where ix: "consume_events_once bincode (30, 0, 0, 0) ?metas 5 = Inr ix" "ix_accounts ix = ?metas"
    by (auto simp: consume_events_once_def pack_def bincode_def)
  let ?accs = "[sample_orders_account, sample_market_acc, stored_account (16, 0, 0, 0) (event_queue_words resting_events @ []),
     stored_account (21, 0, 0, 0) [], stored_account (22, 0, 0, 0) []]"
  have k: "map ai_key ?accs = map am_pubkey (ix_accounts ix)"
    by (simp add: ix(2) consume_metas_keys) (simp add: sample_orders_account_def stored_account_def sample_keys_def)
  have "\<exists>es. es \<noteq> [] \<and> events resting_events = es @ events q"
    using crank_round_progress [OF bincode_wire sample_round resting_events_ok(1) _ ix(1) k _ refl run]
      sample_consume_parse by auto
  then have "events q = []" unfolding resting_events_ok(2) by (auto simp: Cons_eq_append_conv)
  then show ?thesis using run by blast
qed

definition sample_match_accounts :: "account_info list" where
  "sample_match_accounts =
     [sample_market_acc, stored_account (15, 0, 0, 0) (request_queue_words idle_requests @ []),
      stored_account (16, 0, 0, 0) (event_queue_words resting_events @ []),
      stored_account (17, 0, 0, 0) ((AF_Initialized OR AF_Bids) # slab_words (blank_slab 5) @ []),
      stored_account (18, 0, 0, 0) ((AF_Initialized OR AF_Asks) # slab_words (blank_slab 5) @ []),
      stored_account (21, 0, 0, 0) [], stored_account (22, 0, 0, 0) []]"

theorem crank_match_accepted_witness:
  "\<exists>ix a. match_orders_ix bincode (30, 0, 0, 0) sample_keys (21, 0, 0, 0) (22, 0, 0, 0) = Inr ix \<and>
    unpack (ix_data ix) = Some (MatchOrders 2) \<and>
    match_orders_args_parse (30, 0, 0, 0) sample_match_accounts 2 = Inr a \<and> moa_req_q a = idle_requests"
proof -
  obtain ix where ix: "match_orders_ix bincode (30, 0, 0, 0) sample_keys (21, 0, 0, 0) (22, 0, 0, 0) = Inr ix"
    "map am_pubkey (ix_accounts ix) = map ai_key sample_match_accounts"
    by (auto simp: match_orders_ix_def pack_def bincode_def sample_keys_def sample_match_accounts_def stored_account_def)
  have flags: "rqh_account_flags (q_header idle_requests) = AF_Initialized OR AF_RequestQueue"
    "eqh_account_flags (q_header resting_events) = AF_Initialized OR AF_EventQueue"
    by (simp_all add: idle_requests_def sample_consume_def account_flag_defs)
  have keys: "get_keys_for_market sample_chain (30, 0, 0, 0) (ai_key (sample_match_accounts ! 0))
      (ai_data (sample_match_accounts ! 0)) = Inr sample_keys"
    using sample_market_keys by (simp add: sample_match_accounts_def) (simp add: stored_account_def)
  show ?thesis
    using crank_match_accepted [where serialize = bincode and ?slop1.0 = "[]" and ?slop2.0 = "[]" and ?slop3.0 = "[]"
        and ?slop4.0 = "[]" and accs = sample_match_accounts and bids = "blank_slab 5" and asks = "blank_slab 5",
        OF bincode_wire _ _ keys ix(1) ix(2) [symmetric] _ _ flags(1) _ _ flags(2)] ix(1)
    by (auto simp: sample_match_accounts_def stored_account_def)
qed

definition sample_listing_accounts :: "account_info list" where
  "sample_listing_accounts =
     map (\<lambda>(k, n). \<lparr>ai_key = (k, 0, 0, 0), ai_owner = (30, 0, 0, 0), ai_is_signer = False, ai_lamports = 100000,
            ai_data = replicate n 0\<rparr>) (zip [1, 15, 16, 17, 18] listing_lens) @
     [sample_vault_account 13 11, sample_vault_account 14 12, sample_mint_account 11, sample_mint_account 12]"

lemma sample_listing_nth:
  "i < 5 \<Longrightarrow> ai_owner (sample_listing_accounts ! i) = (30, 0, 0, 0) \<and>
     ai_data (sample_listing_accounts ! i) = replicate (listing_lens ! i) 0"
proof -
  have "length listing_lens = 5" by (simp add: listing_lens_def)
  then show "i < 5 \<Longrightarrow> ai_owner (sample_listing_accounts ! i) = (30, 0, 0, 0) \<and>
     ai_data (sample_listing_accounts ! i) = replicate (listing_lens ! i) 0"
    by (simp add: sample_listing_accounts_def nth_append)
qed

lemma sample_listing_keys:
  "map ai_key sample_listing_accounts = map (\<lambda>k. (k, 0, 0, 0)) [1, 15, 16, 17, 18, 13, 14, 11, 12]"
  by (simp add: sample_listing_accounts_def listing_lens_def sample_vault_account_def sample_mint_account_def)

lemma sample_listing_vaults:
  "sample_listing_accounts ! 5 = sample_vault_account 13 11" "sample_listing_accounts ! 6 = sample_vault_account 14 12"
  "sample_listing_accounts ! 7 = sample_mint_account 11" "sample_listing_accounts ! 8 = sample_mint_account 12"
proof -
  have "length listing_lens = 5" by (simp add: listing_lens_def)
  then show "sample_listing_accounts ! 5 = sample_vault_account 13 11" "sample_listing_accounts ! 6 = sample_vault_account 14 12"
    "sample_listing_accounts ! 7 = sample_mint_account 11" "sample_listing_accounts ! 8 = sample_mint_account 12"
    by (simp_all add: sample_listing_accounts_def nth_append)
qed

lemma sample_found: "vault_signer_search sample_chain k p 0 = Inr (0, (19, 0, 0, 0))"
  by (subst vault_signer_search.simps) (simp add: gen_vault_signer_key_def sample_chain_def)

abbreviation sample_listed_keys :: market_pubkeys where
  "sample_listed_keys \<equiv>
     \<lparr>mp_market = (1, 0, 0, 0), mp_req_q = (15, 0, 0, 0), mp_event_q = (16, 0, 0, 0), mp_bids = (17, 0, 0, 0),
      mp_asks = (18, 0, 0, 0), mp_coin_vault = (13, 0, 0, 0), mp_pc_vault = (14, 0, 0, 0),
      mp_vault_signer_key = (19, 0, 0, 0)\<rparr>"

theorem crank_listing_accepted_witness:
  "\<exists>inst a accs. initialize_market_args_new sample_chain (30, 0, 0, 0) inst sample_listing_accounts = Inr a \<and>
    process_initialize_market a = Inr accs \<and>
    launched (30, 0, 0, 0) (listed_market sample_listed_keys (11, 0, 0, 0) (12, 0, 0, 0) 10 100 0) accs"
proof -
  let ?k = sample_listed_keys
  obtain ix where ix: "initialize_market_ix bincode (mp_market ?k) (30, 0, 0, 0) (11, 0, 0, 0) (12, 0, 0, 0)
      (mp_coin_vault ?k) (mp_pc_vault ?k) (mp_bids ?k) (mp_asks ?k) (mp_req_q ?k) (mp_event_q ?k) 10 100 0 100 = Inr ix"
    "map am_pubkey (ix_accounts ix) = map (\<lambda>k. (k, 0, 0, 0)) [1, 15, 16, 17, 18, 13, 14, 11, 12]"
    by (auto simp: initialize_market_ix_def pack_def bincode_def)
  have s: "vault_signer_search sample_chain (mp_market ?k) (30, 0, 0, 0) 0 = Inr (0, mp_vault_signer_key ?k)"
    using sample_found by simp
  show ?thesis
    using crank_listing_accepted [where serialize = bincode and accs = sample_listing_accounts, OF bincode_wire s
        ix(1) sample_listing_keys [folded ix(2)]] sample_listing_nth sample_vault_check
    by (simp add: sample_listing_vaults) blast
qed

end
