(* ===== verification/ClientSample.thy ===== *)
theory ClientSample
  imports LockupClientFacts RegistryClientFacts CrankNetFacts LockupSample CrankSample
begin

text \<open>
  A cluster that answers from a list of accounts and takes down every transaction, or takes none,
  with an SDK that keeps the laws; the clients' properties applied to it.
\<close>

declare split_paired_All [simp del] split_paired_Ex [simp del]

subsection \<open>The cluster\<close>

definition sample_creation :: "account_meta list \<Rightarrow> u64 \<Rightarrow> u64 \<Rightarrow> aligned \<Rightarrow> u8 list \<Rightarrow> instruction" where
  "sample_creation metas lamports space own seed =
     \<lparr>ix_program_id = (0, 0, 0, 0), ix_accounts = metas,
      ix_data = u64_to_le lamports @ u64_to_le space @ aligned_bytes own @ seed\<rparr>"

lemma sample_creation_tells:
  "sample_creation ms l s p d = sample_creation ms' l' s' p' d' \<longleftrightarrow> ms = ms' \<and> l = l' \<and> s = s' \<and> p = p' \<and> d = d'"
proof -
  have "u64_to_le x = u64_to_le y \<longleftrightarrow> x = y" for x y by (metis u64_le)
  then show ?thesis by (auto simp: sample_creation_def)
qed

lemma sample_creation_signers [simp]: "signer_keys (sample_creation ms l s p d) = meta_signers ms"
  by (simp add: sample_creation_def)

lemma meta_eq [simp]:
  "meta k b = meta k' b' \<longleftrightarrow> k = k' \<and> b = b'" "meta_readonly k b = meta_readonly k' b' \<longleftrightarrow> k = k' \<and> b = b'"
  by (simp_all add: meta_def meta_readonly_def)

definition sample_sdk :: sdk where
  "sample_sdk = Sdk
     (\<lambda>ixs payer signers h. if set signers = needed_signers ixs payer
        then Some \<lparr>tx_instructions = ixs, tx_payer = payer, tx_signers = signers, tx_recent_blockhash = h\<rparr> else None)
     (\<lambda>from to l s p. sample_creation [meta from True, meta to True] l s p [])
     (\<lambda>from to b seed l s p. sample_creation [meta from True, meta to False, meta_readonly b True] l s p (map of_char seed))
     (\<lambda>from to l. \<lparr>ix_program_id = (0, 0, 0, 0), ix_accounts = [meta from True, meta to False], ix_data = u64_to_le l\<rparr>)
     (\<lambda>b seed p. Inr (case b of (x, y, z, u) \<Rightarrow> (x, of_nat (length seed), z, u)))
     (\<lambda>seeds p. if seeds = [aligned_bytes (ky 1)] \<and> p = lockup_id then Some (ky 8, 1) else None)
     (rt_program_address sample_env)
     (\<lambda>f. Some (ky 40)) (\<lambda>e. []) (\<lambda>t. t) (ky 10) (ky 11)"

definition sample_spl :: spl where
  "sample_spl = Spl tokens_id 165 82
     (\<lambda>t a m own. Inr \<lparr>ix_program_id = t, ix_accounts = [meta a False, meta_readonly m False], ix_data = [1]\<rparr>)
     (\<lambda>t m own f n. Inr \<lparr>ix_program_id = t, ix_accounts = [meta m False], ix_data = [0]\<rparr>)
     (\<lambda>t m a own ss q. Inr \<lparr>ix_program_id = t, ix_accounts = [meta m False, meta a False, meta_readonly own True],
        ix_data = 7 # u64_to_le q\<rparr>)
     sample_holding"

type_synonym sample_net = "(aligned \<times> u8 list) list \<times> transaction list"

definition sample_cluster :: "bool \<Rightarrow> u64 \<Rightarrow> sample_net cluster" where
  "sample_cluster up balance = Cluster (\<lambda>n w. Inr balance) (\<lambda>w. Inr (ky 50))
     (\<lambda>k w. Inr (map_of (fst w) k)) (\<lambda>k w. ok_or (map_of (fst w) k) (OtherRpcError 0)) (\<lambda>w. Inr 20)
     (\<lambda>tx w. if up then Inr ([9], (fst w, tx # snd w)) else Inl (OtherRpcError 0))
     (\<lambda>tx w. if up then Inr ([9], (fst w, tx # snd w)) else Inl (OtherRpcError 0))
     (\<lambda>tx w. Inr None) (\<lambda>e. []) sample_sdk sample_spl"

lemma sample_cluster_simps [simp]:
  "cl_sdk (sample_cluster up b) = sample_sdk" "cl_spl (sample_cluster up b) = sample_spl"
  "cl_min_balance (sample_cluster up b) n w = Inr b" "cl_recent_blockhash (sample_cluster up b) w = Inr (ky 50)"
  "cl_account (sample_cluster up b) k w = Inr (map_of (fst w) k)"
  "cl_send (sample_cluster True b) tx w = Inr ([9], (fst w, tx # snd w))" "cl_send (sample_cluster False b) tx w = Inl (OtherRpcError 0)"
  "cl_simulate (sample_cluster up b) tx w = Inr None"
  by (simp_all add: sample_cluster_def)

lemma sample_spl_simps [simp]:
  "spl_id sample_spl = tokens_id" "spl_account_len sample_spl = 165"
  "spl_initialize_account sample_spl t a m own =
     Inr \<lparr>ix_program_id = t, ix_accounts = [meta a False, meta_readonly m False], ix_data = [1]\<rparr>"
  by (simp_all add: sample_spl_def)

lemma sample_sdk_simps [simp]:
  "sdk_rent_id sample_sdk = ky 10" "sdk_program_address sample_sdk = rt_program_address sample_env"
  "sdk_find_program_address sample_sdk [aligned_bytes (ky 1)] lockup_id = Some (ky 8, 1)"
  by (simp_all add: sample_sdk_def)

lemma sdk_honest: "honest_sdk (sample_cluster up b)"
  unfolding honest_sdk_def
  by (intro conjI) (simp_all add: sample_sdk_def sample_spl_def sample_creation_tells insert_commute split: if_splits)

lemma sample_same_runtime: "same_runtime (sample_cluster up b) sample_env"
  by (auto simp: same_runtime_def sample_sdk_def signer_seeds_def)

lemma sample_sign:
  "set signers = needed_signers ixs payer \<Longrightarrow> sdk_sign sample_sdk ixs payer signers h =
     Some \<lparr>tx_instructions = ixs, tx_payer = payer, tx_signers = signers, tx_recent_blockhash = h\<rparr>"
  by (simp add: sample_sdk_def)

subsection \<open>The lockup program's client\<close>

definition sample_codecs :: lockup_codecs where
  "sample_codecs = \<lparr>lcd_safe = safe_format, lcd_vesting = vesting_format, lcd_instruction = lockup_instruction_format\<rparr>"

abbreviation "sample_client \<equiv> \<lparr>cn_program_id = lockup_id, cn_payer = ky 40\<rparr>"

lemma sample_formats: "client_formats sample_codecs"
  by (simp add: client_formats_def sample_codecs_def)

lemma sample_client_safe:
  "map_of (fst w) (ky 1) = Some (safe_bytes sample_safe) \<Longrightarrow>
   client_safe (sample_cluster up b) sample_codecs (ky 1) w = Inr sample_safe"
  by (simp add: client_safe_def get_account_def get_account_data_def sample_codecs_def client_try_def into_def
      safe_encoded)

lemma sample_authority:
  "map_of (fst w) (ky 1) = Some (safe_bytes sample_safe) \<Longrightarrow>
   client_vault_authority (sample_cluster up b) sample_codecs sample_client (ky 1) w = Inr (ky 8)"
  by (simp add: client_vault_authority_def sample_client_safe client_try_def) (simp add: sample_safe_def)

text \<open>On a cluster that takes no transaction a relay request panics.\<close>

definition sample_withdrawal :: whitelist_withdraw_request where
  "sample_withdrawal = WhitelistWithdrawRequest (ky 12) (ky 5) (ky 1) (ky 60) [] (ky 2) (ky 61) (ky 62) 3 [1, 2]"

definition sample_return :: whitelist_deposit_request where
  "sample_return = WhitelistDepositRequest (ky 12) (ky 5) (ky 1) (ky 60) [] (ky 2) (ky 61) (ky 62) [3]"

lemma sample_refused:
  assumes "relay_length i < 2 ^ 32" and "set signers = insert (ky 40) (meta_signers metas)"
  shows "lockup_method (sample_cluster False b) sample_codecs sample_client signers metas i w =
    Inl (ClientErr (InnerError (RpcError (OtherRpcError 0))))"
proof -
  obtain bs where run: "\<And>p metas. instruction_method lockup_instruction_format p metas i =
      (Inr \<lparr>ix_program_id = p, ix_accounts = metas, ix_data = bs\<rparr> :: gen_error client_fault + instruction)"
    using lockup_instruction_method [OF assms(1)] by metis
  show ?thesis
    using assms(2) by (simp add: lockup_method_def method_with_signers_def sample_codecs_def run sign_and_send_def
        sign_def client_try_def into_def sample_sign needed_signers_def)
qed

theorem lockup_client_panics_witness:
  "client_whitelist_withdraw (sample_cluster False 1) sample_codecs sample_client sample_withdrawal
     ([(ky 1, safe_bytes sample_safe)], []) = Inl ClientPanic \<and>
   client_claim (sample_cluster False 1) sample_codecs sample_client (ClaimRequest (ky 12) (ky 1) (ky 5) (ky 6) (ky 13))
     ([(ky 1, safe_bytes sample_safe)], []) \<noteq> Inl ClientPanic"
proof -
  have found: "sdk_find_program_address (cl_sdk (sample_cluster False 1)) [aligned_bytes (ky 1)]
      (cn_program_id sample_client) \<noteq> None" by simp
  let ?w = "([(ky 1, safe_bytes sample_safe)], [])"
  have s: "client_safe (sample_cluster False 1) sample_codecs (ky 1) ?w = Inr sample_safe"
    "client_vault_authority (sample_cluster False 1) sample_codecs sample_client (ky 1) ?w = Inr (ky 8)"
    by (rule sample_client_safe sample_authority, simp)+
  note all = lockup_client_panics [OF sdk_honest sample_formats found, of sample_withdrawal sample_return
      "ky 2" "ky 31" "InitializeRequest (ky 20) (ky 30)" ?w "ky 6" "ky 5"
      "CreateVestingRequest (ky 3) (ky 4) (ky 1) (ky 12) 20 10 10" "ClaimRequest (ky 12) (ky 1) (ky 5) (ky 6) (ky 13)"
      "RedeemRequest (ky 12) (ky 5) (ky 14) (ky 2) (ky 1) (ky 13) (ky 6) 5"
      "WhitelistChangeRequest (ky 30) (ky 1) \<lparr>we_program_id = ky 60, we_instance = ky 61, we_nonce = 1\<rparr>"
      "SetAuthorityRequest (ky 30) (ky 1) (ky 33)" "MigrateRequest (ky 30) (ky 1) (ky 34)"]
  have "\<exists>sf va. client_safe (sample_cluster False 1) sample_codecs (ww_safe sample_withdrawal) ?w = Inr sf \<and>
      client_vault_authority (sample_cluster False 1) sample_codecs sample_client (ww_safe sample_withdrawal) ?w = Inr va \<and>
      (\<exists>e. lockup_method (sample_cluster False 1) sample_codecs sample_client
        [cn_payer sample_client, ww_beneficiary sample_withdrawal]
        (relay_metas (sample_cluster False 1) (ww_beneficiary sample_withdrawal) (ww_vesting sample_withdrawal)
          (ww_safe sample_withdrawal) va (ww_whitelist_program sample_withdrawal) (sf_whitelist sf)
          (ww_vault sample_withdrawal) (ww_whitelist_vault sample_withdrawal)
          (ww_whitelist_vault_authority sample_withdrawal) @ ww_relay_accounts sample_withdrawal)
        (WhitelistWithdraw (ww_delegate_amount sample_withdrawal) (ww_relay_data sample_withdrawal)) ?w = Inl (ClientErr e))"
    using s by (simp add: sample_withdrawal_def) (subst sample_refused, simp_all add: relay_metas_def)
  then show ?thesis using all by (simp add: sample_withdrawal_def sample_return_def)
qed

lemma sample_initialize_instructions:
  "\<exists>ixs. initialize_instructions (sample_cluster True 1) sample_codecs sample_client (ky 1) (ky 31) (ky 2) (ky 20) (ky 30) 1 w = Inr ixs"
proof -
  obtain bs where bs: "\<And>p metas. instruction_method lockup_instruction_format p metas (Initialize (ky 30) 1) =
      (Inr \<lparr>ix_program_id = p, ix_accounts = metas, ix_data = bs\<rparr> :: gen_error client_fault + instruction)"
    using lockup_instruction_method [of "Initialize (ky 30) 1"] by (metis relay_length.simps(1) zero_less_numeral zero_less_power)
  have f: "lcd_instruction sample_codecs = lockup_instruction_format" by (simp add: sample_codecs_def)
  show ?thesis by (simp add: initialize_instructions_def client_sizes [OF sample_formats] f bs client_try_def)
qed

definition sample_safe_accounts :: "acct list" where
  "sample_safe_accounts =
     [sacct 1 lockup_id True (replicate 130 0), sacct 31 lockup_id True (replicate 3250 0), sacct 2 tokens_id False [1],
      sacct 20 tokens_id False [], sacct 10 (ky 0) False []]"

lemma sample_safe_nth:
  "sample_safe_accounts ! 0 = sacct 1 lockup_id True (replicate 130 0)"
  "sample_safe_accounts ! 1 = sacct 31 lockup_id True (replicate 3250 0)"
  "sample_safe_accounts ! 2 = sacct 2 tokens_id False [1]" "sample_safe_accounts ! 3 = sacct 20 tokens_id False []"
  "sample_safe_accounts ! 4 = sacct 10 (ky 0) False []"
  "map ac_key sample_safe_accounts = [ky 1, ky 31, ky 2, ky 20, ky 10]"
  by (simp_all add: sample_safe_accounts_def)

theorem client_initialize_accepted_witness:
  "\<exists>d accs'. lockup_entry sample_env lockup_instruction_format lockup_id sample_safe_accounts d = Inr accs' \<and>
     unpack_account safe_format (ac_data (accs' ! 0)) =
       Inr \<lparr>sf_initialized = True, sf_mint = ky 20, sf_authority = ky 30, sf_nonce = 1, sf_whitelist = ky 31, sf_vault = ky 2\<rparr>"
proof -
  let ?cl = "sample_cluster True 1"
  obtain ixs where ixs: "initialize_instructions ?cl sample_codecs sample_client (ky 1) (ky 31) (ky 2) (ky 20) (ky 30) 1 ([], []) = Inr ixs"
    using sample_initialize_instructions by blast
  obtain l1 l2 bs where run: "ixs = [create_account_ix ?cl (cn_payer sample_client) (ky 1) l1 130 (cn_program_id sample_client),
       create_account_ix ?cl (cn_payer sample_client) (ky 31) l2 3250 (cn_program_id sample_client),
       \<lparr>ix_program_id = cn_program_id sample_client, ix_accounts = initialize_metas ?cl (ky 1) (ky 31) (ky 2) (ky 20), ix_data = bs\<rparr>]"
    and b: "cl_min_balance ?cl 130 ([], []) = Inr l1" "cl_min_balance ?cl 3250 ([], []) = Inr l2"
    using initialize_instructions_run [OF sample_formats ixs] by metis
  have l: "l1 = 1" "l2 = 1" using b by simp_all
  have i: "ixs ! 0 = create_account_ix ?cl (cn_payer sample_client) (ky 1) 1 130 (cn_program_id sample_client)"
    "ixs ! 1 = create_account_ix ?cl (cn_payer sample_client) (ky 31) 1 3250 (cn_program_id sample_client)"
    "ix_program_id (ixs ! 2) = lockup_id"
    by (simp_all add: run l)
  have found: "sdk_find_program_address (cl_sdk ?cl) [aligned_bytes (ky 1)] (cn_program_id sample_client) = Some (ky 8, 1)" by simp
  have keys: "map ac_key sample_safe_accounts = map am_pubkey (ix_accounts (ixs ! 2))"
    unfolding sample_safe_nth by (simp add: run(1) initialize_metas_def)
  have words: "unat (130 :: u64) = 130" "unat (3250 :: u64) = 3250" by simp_all
  have made: "created_by ?cl (ixs ! 0) (sample_safe_accounts ! 0)" "created_by ?cl (ixs ! 1) (sample_safe_accounts ! 1)"
    unfolding i created_as [OF sdk_honest] as_created_def sample_safe_nth words
    by (simp_all add: sacct_def)
  have vault: "access_token sample_env (sample_safe_accounts ! 2) = Inr \<lparr>th_mint = ky 20, th_owner = ky 8, th_amount = 0,
      th_is_initialized = True, th_delegated_amount = 0\<rparr>" (is "_ = Inr ?h")
    unfolding sample_safe_nth by (simp add: access_token_def sample_holding_def)
  have mint: "access_mint sample_env (sample_safe_accounts ! 3) =
      Inr \<lparr>tm_is_initialized = True, tm_mint_authority = Some (ky 8), tm_supply = 0\<rparr>"
    unfolding sample_safe_nth by (simp add: access_mint_def)
  have rent: "rt_rent sample_env (sample_safe_accounts ! 4) = Inr (\<lambda>_ _. True)" by simp
  have "le_safe sample_env = safe_format" "th_owner ?h = ky 8" by simp_all
  then show ?thesis
    using client_initialize_accepted [OF sdk_honest sample_same_runtime sample_formats _ found ixs keys made vault _ mint rent]
    unfolding i(3) by blast
qed

subsection \<open>The registry's client\<close>

definition sample_registry_codecs :: registry_codecs where
  "sample_registry_codecs = \<lparr>rcd_registrar = registrar_format, rcd_entity = entity_format, rcd_member = member_format,
     rcd_instruction = registry_instruction_format\<rparr>"

lemma sample_registry_formats: "registry_client_formats sample_registry_codecs"
  by (simp add: registry_client_formats_def sample_registry_codecs_def)

lemma sample_sent:
  "set signers = needed_signers ixs payer \<Longrightarrow> sign_and_send (sample_cluster True b) f g payer ixs signers w =
     Inr ([9], (fst w, \<lparr>tx_instructions = ixs, tx_payer = payer, tx_signers = signers, tx_recent_blockhash = ky 50\<rparr> # snd w))"
  by (simp add: sign_and_send_def sign_def client_try_def sample_sign)

lemma sample_registry_sends:
  "\<exists>tx. create_entity_derived (sample_cluster True 1) sample_registry_codecs sample_client (ky 70) 1 k ([], []) =
     Inr (([9], (70, 19, 0, 0)), ([], [tx]))"
  "\<exists>tx. join_entity_derived (sample_cluster True 1) sample_registry_codecs sample_client (70, 19, 0, 0) (ky 71) (ky 72) ([], []) =
     Inr (([9], (40, 19, 0, 0)), ([], [tx]))"
proof -
  obtain bs where bs: "\<And>p metas. instruction_method registry_instruction_format p metas (CreateEntity 1 k) =
      (Inr \<lparr>ix_program_id = p, ix_accounts = metas, ix_data = bs\<rparr> :: gen_error client_fault + instruction)"
    using registry_instruction_method [of "CreateEntity 1 k"] by blast
  obtain cs where cs: "\<And>p metas. instruction_method registry_instruction_format p metas (JoinEntity (ky 71) (ky 72)) =
      (Inr \<lparr>ix_program_id = p, ix_accounts = metas, ix_data = cs\<rparr> :: gen_error client_fault + instruction)"
    using registry_instruction_method [of "JoinEntity (ky 71) (ky 72)"] by blast
  have f: "rcd_instruction sample_registry_codecs = registry_instruction_format" by (simp add: sample_registry_codecs_def)
  have seed: "sdk_create_with_seed sample_sdk (ky n) s p = Inr (n, of_nat (length s), 0, 0)" for n s p
    by (simp add: sample_sdk_def ky_def)
  note hs = honest_sdkD(4) [OF sdk_honest [of True 1], unfolded sample_cluster_simps(1)]
  have len: "length entity_seed = 19" "length member_seed = 19" by (simp_all add: entity_seed_def member_seed_def)
  show "\<exists>tx. create_entity_derived (sample_cluster True 1) sample_registry_codecs sample_client (ky 70) 1 k ([], []) =
     Inr (([9], (70, 19, 0, 0)), ([], [tx]))"
    by (simp add: create_entity_derived_def registry_sizes [OF sample_registry_formats] f bs client_try_def
        entity_address_derived_def seed len sample_sent needed_signers_def hs create_entity_metas_def insert_commute)
  show "\<exists>tx. join_entity_derived (sample_cluster True 1) sample_registry_codecs sample_client (70, 19, 0, 0) (ky 71) (ky 72) ([], []) =
     Inr (([9], (40, 19, 0, 0)), ([], [tx]))"
    by (simp add: join_entity_derived_def registry_sizes [OF sample_registry_formats] f cs client_try_def
        member_address_derived_def seed len sample_sent needed_signers_def hs join_entity_metas_def)
qed

definition sample_registry :: registry_env where
  "sample_registry = (undefined :: registry_env)\<lparr>re_registrar := registrar_format, re_entity := entity_format,
     re_member := member_format\<rparr>"

definition sample_entity_accounts :: "acct list" where
  "sample_entity_accounts =
     [\<lparr>ac_key = (70, 19, 0, 0), ac_owner = lockup_id, ac_is_signer = False, ac_is_writable = True, ac_lamports = 1,
       ac_data = replicate 57 0\<rparr>, sacct 70 (ky 0) True [], sacct 10 (ky 0) False []]"

theorem registry_client_accepted_witness:
  "(\<exists>tx ix d. create_entity_derived (sample_cluster True 1) sample_registry_codecs sample_client (ky 70) 1 Delegated ([], []) =
       Inr (([9], (70, 19, 0, 0)), ([], [tx])) \<and> tx_instructions tx ! 1 = ix \<and>
     registry_entry sample_registry registry_instruction_format lockup_id sample_entity_accounts (ix_data ix) =
       Inr (put_data (70, 19, 0, 0) d sample_entity_accounts) \<and>
     unpack_account entity_format d = Inr \<lparr>en_initialized = True, en_leader = ky 70, en_amount = 0,
       en_mega_amount = 0, en_capabilities = 1, en_stake_kind = Delegated\<rparr>) \<and>
   (\<exists>tx ix. create_entity_derived (sample_cluster True 1) sample_registry_codecs sample_client (ky 70) 1 Voting ([], []) =
       Inr (([9], (70, 19, 0, 0)), ([], [tx])) \<and> tx_instructions tx ! 1 = ix \<and>
     registry_entry sample_registry registry_instruction_format lockup_id sample_entity_accounts (ix_data ix) =
       Inl (program_of_registry (registry_code MustBeDelegated)))"
proof -
  have env: "registry_formats sample_registry" by (simp add: registry_formats_def sample_registry_def)
  have new: "as_created (sample_entity_accounts ! 0) 1 57 lockup_id"
    by (simp add: as_created_def sample_entity_accounts_def)
  have keys: "map ac_key sample_entity_accounts = [(70, 19, 0, 0), ky 70, ky 10]" by (simp add: sample_entity_accounts_def)
  have "\<exists>tx ix. create_entity_derived (sample_cluster True 1) sample_registry_codecs sample_client (ky 70) 1 k ([], []) =
        Inr (([9], (70, 19, 0, 0)), ([], [tx])) \<and> tx_instructions tx ! 1 = ix \<and>
      (if k = Delegated then
         \<exists>d. registry_entry sample_registry registry_instruction_format lockup_id sample_entity_accounts (ix_data ix) =
             Inr (put_data (70, 19, 0, 0) d sample_entity_accounts) \<and>
           unpack_account entity_format d = Inr \<lparr>en_initialized = True, en_leader = ky 70, en_amount = 0,
             en_mega_amount = 0, en_capabilities = 1, en_stake_kind = Delegated\<rparr>
       else registry_entry sample_registry registry_instruction_format lockup_id sample_entity_accounts (ix_data ix) =
         Inl (program_of_registry (registry_code MustBeDelegated)))" for k
  proof -
    obtain tx tx' where
      c: "create_entity_derived (sample_cluster True 1) sample_registry_codecs sample_client (ky 70) 1 k ([], []) =
        Inr (([9], (70, 19, 0, 0)), ([], [tx]))"
      and j: "join_entity_derived (sample_cluster True 1) sample_registry_codecs sample_client (70, 19, 0, 0) (ky 71) (ky 72) ([], []) =
        Inr (([9], (40, 19, 0, 0)), ([], [tx']))"
      using sample_registry_sends by blast
    from registry_client_accepted [OF sdk_honest sample_registry_formats env c j, THEN conjunct1]
    obtain l i where i: "cl_min_balance (sample_cluster True 1) 57 ([], []) = Inr l"
        "sent_as (sample_cluster True 1) (cn_payer sample_client)
          [sdk_create_account_with_seed (cl_sdk (sample_cluster True 1)) (cn_payer sample_client) (70, 19, 0, 0) (ky 70)
             entity_seed l 57 (cn_program_id sample_client), i] [ky 70, cn_payer sample_client] ([], []) ([9], ([], [tx]))"
        "ix_accounts i = [meta (70, 19, 0, 0) False, meta_readonly (ky 70) True,
           meta_readonly (sdk_rent_id (cl_sdk (sample_cluster True 1))) False]"
      and answer: "\<forall>accs. map ac_key accs = map am_pubkey (ix_accounts i) \<and>
          as_created (accs ! 0) l 57 (cn_program_id sample_client) \<longrightarrow>
        (if k = Delegated then
           \<exists>d. registry_entry sample_registry registry_instruction_format (cn_program_id sample_client) accs (ix_data i) =
               Inr (put_data (70, 19, 0, 0) d accs) \<and>
             unpack_account entity_format d = Inr \<lparr>en_initialized = True, en_leader = ky 70, en_amount = 0,
               en_mega_amount = 0, en_capabilities = 1, en_stake_kind = Delegated\<rparr>
         else registry_entry sample_registry registry_instruction_format (cn_program_id sample_client) accs (ix_data i) =
           Inl (program_of_registry (registry_code MustBeDelegated)))"
      by - (elim exE conjE, rule that, assumption+)
    have "l = 1" "tx_instructions tx ! 1 = i" using i(1,2) by (auto simp: sent_as_def)
    moreover have "map ac_key sample_entity_accounts = map am_pubkey (ix_accounts i)"
      unfolding keys i(3) by (simp add: meta_def meta_readonly_def)
    ultimately show ?thesis using answer [rule_format, of sample_entity_accounts] new c by auto
  qed
  from this [of Delegated] this [of Voting] show ?thesis by simp
qed

subsection \<open>The crank\<close>

lemma bincode_total: "total_serialize bincode"
  by (simp add: total_serialize_def bincode_wire)

lemma sample_crank_txn:
  "set signers = needed_signers ixs payer \<Longrightarrow> crank_txn (sample_cluster up b) ixs payer signers w =
     Inr \<lparr>tx_instructions = ixs, tx_payer = payer, tx_signers = signers, tx_recent_blockhash = ky 50\<rparr>"
  by (simp add: crank_txn_def sign_def rpc_try_def client_try_def sample_sign)

lemma sample_crank_send:
  "crank_send (sample_cluster True b) tx w = Inr ([9], (fst w, tx # snd w))"
  "crank_simulate (sample_cluster up b) tx w = Inr ()"
  by (simp_all add: crank_send_run crank_simulate_run)

abbreviation "sample_match up w \<equiv>
  match_orders (sample_cluster up 1) bincode (30, 0, 0, 0) (ky 40) sample_keys (21, 0, 0, 0) (22, 0, 0, 0) w"

theorem crank_sends_simulated_witness:
  "\<exists>i tx. match_orders_ix bincode (30, 0, 0, 0) sample_keys (21, 0, 0, 0) (22, 0, 0, 0) = Inr i \<and>
     tx_instructions tx = [i] \<and> sample_match True ([], []) = Inr ([], [tx]) \<and>
     cl_simulate (sample_cluster True 1) tx ([], []) = Inr None \<and> sample_match False ([], []) \<noteq> Inl ClientPanic"
proof -
  obtain i where i: "match_orders_ix bincode (30, 0, 0, 0) sample_keys (21, 0, 0, 0) (22, 0, 0, 0) = Inr i" "signer_keys i = {}"
    using crank_instructions(3) [OF bincode_total] by blast
  obtain tx where run: "sample_match True ([], []) = Inr ([], [tx])"
    by (simp add: match_orders_def i(1) crank_try_def sample_crank_txn needed_signers_def i(2) sample_crank_send)
  note sent = crank_sends_simulated [OF _ bincode_total, where payer = "ky 40" and state = sample_keys and
      p = "(30, 0, 0, 0)" and cw = "(21, 0, 0, 0)" and pw = "(22, 0, 0, 0)" and w = "([], [])" and w' = "([], [tx])"]
  obtain tx' sig where "tx_instructions tx' = [i]" "cl_simulate (sample_cluster True 1) tx' ([], []) = Inr None"
    "cl_send (sample_cluster True 1) tx' ([], []) = Inr (sig, ([], [tx]))"
    using sent [OF sdk_honest [of True 1], THEN conjunct2, THEN conjunct2, THEN conjunct2, THEN conjunct1, THEN mp, OF run] i(1)
    by auto
  moreover have "sample_match False ([], []) \<noteq> Inl ClientPanic" using sent [OF sdk_honest [of False 1]] by blast
  ultimately show ?thesis using i(1) run by auto
qed

definition sample_fresh :: "nat \<Rightarrow> aligned" where
  "sample_fresh n = ([1, 15, 16, 17, 18, 13, 14] ! n, 0, 0, 0)"

lemma sample_fresh_simps [simp]:
  "sample_fresh 0 = (1, 0, 0, 0)" "sample_fresh (Suc 0) = (15, 0, 0, 0)" "sample_fresh 2 = (16, 0, 0, 0)"
  "sample_fresh 3 = (17, 0, 0, 0)" "sample_fresh 4 = (18, 0, 0, 0)" "sample_fresh 5 = (13, 0, 0, 0)"
  "sample_fresh 6 = (14, 0, 0, 0)"
  by (simp_all add: sample_fresh_def)

lemma sample_token_account:
  "\<exists>tx. create_token_account (sample_cluster True 1) k mint own payer w = Inr (k, (fst w, tx # snd w))"
  by (simp add: create_token_account_def client_try_def send_instructions_def sign_def send_txn_def sample_sign
      needed_signers_def honest_sdkD(3) [OF sdk_honest [of True 1], unfolded sample_cluster_simps(1)])

lemma sample_creates_account:
  "create_dex_account (sample_cluster up b) p payer n k w =
     Inr (create_account_ix (sample_cluster up b) payer k b (of_nat (dex_account_len n)) p)"
  by (simp add: create_dex_account_def rpc_try_def client_try_def)

lemma sample_listing:
  "\<exists>keys tx cv pv. list_market (sample_cluster True 1) sample_chain bincode sample_fresh (30, 0, 0, 0) (ky 40) (11, 0, 0, 0)
     (12, 0, 0, 0) 10 100 ([], []) = Inr (keys, ([], [tx, pv, cv])) \<and>
     keys = \<lparr>mp_market = (1, 0, 0, 0), mp_req_q = (15, 0, 0, 0), mp_event_q = (16, 0, 0, 0), mp_bids = (17, 0, 0, 0),
       mp_asks = (18, 0, 0, 0), mp_coin_vault = (13, 0, 0, 0), mp_pc_vault = (14, 0, 0, 0),
       mp_vault_signer_key = (19, 0, 0, 0)\<rparr>"
proof -
  obtain ix where ix: "initialize_market_ix bincode (1, 0, 0, 0) (30, 0, 0, 0) (11, 0, 0, 0) (12, 0, 0, 0) (13, 0, 0, 0)
      (14, 0, 0, 0) (17, 0, 0, 0) (18, 0, 0, 0) (15, 0, 0, 0) (16, 0, 0, 0) 10 100 0 100 = Inr ix" "signer_keys ix = {}"
    by (auto simp: initialize_market_ix_def pack_def bincode_def signer_keys_def)
  obtain cv where cv: "create_token_account (sample_cluster True 1) (13, 0, 0, 0) (11, 0, 0, 0) (19, 0, 0, 0) (ky 40) ([], []) =
      Inr ((13, 0, 0, 0), ([], [cv]))" using sample_token_account [of "(13, 0, 0, 0)" "(11, 0, 0, 0)" "(19, 0, 0, 0)" "ky 40" "([], [])"] by auto
  obtain pv where pv: "create_token_account (sample_cluster True 1) (14, 0, 0, 0) (12, 0, 0, 0) (19, 0, 0, 0) (ky 40) ([], [cv]) =
      Inr ((14, 0, 0, 0), ([], [pv, cv]))" using sample_token_account [of "(14, 0, 0, 0)" "(12, 0, 0, 0)" "(19, 0, 0, 0)" "ky 40" "([], [cv])"] by auto
  let ?make = "\<lambda>k n. create_account_ix (sample_cluster True 1) (ky 40) (k, 0, 0, 0) 1 (of_nat (dex_account_len n)) (30, 0, 0, 0)"
  have params: "gen_listing_params (sample_cluster True 1) sample_chain sample_fresh (30, 0, 0, 0) (ky 40) ([], []) =
      Inr (ListingKeys (1, 0, 0, 0) (15, 0, 0, 0) (16, 0, 0, 0) (17, 0, 0, 0) (18, 0, 0, 0) (19, 0, 0, 0) 0,
        [?make 1 376, ?make 15 640, ?make 16 (2 ^ 20), ?make 17 (2 ^ 16), ?make 18 (2 ^ 16)])"
    by (simp add: gen_listing_params_def sample_creates_account sample_found crank_try_def)
  have signed: "set [ky 40, (1, 0, 0, 0), (15, 0, 0, 0), (16, 0, 0, 0), (17, 0, 0, 0), (18, 0, 0, 0), (15, 0, 0, 0), (16, 0, 0, 0)] =
      needed_signers ([?make 1 376, ?make 15 640, ?make 16 (2 ^ 20), ?make 17 (2 ^ 16), ?make 18 (2 ^ 16)] @ [ix]) (ky 40)"
    unfolding needed_signers_def set_append set_simps UN_insert UN_Un honest_sdkD(3) [OF sdk_honest] ix(2) by auto
  show ?thesis
    unfolding list_market_def params and_then_simps prod.case
    by (simp add: cv pv into_def crank_try_def ix(1) sample_crank_send sample_crank_txn [OF signed, simplified])
qed

theorem crank_market_listed_witness:
  "\<exists>keys sent inst a accs nonce.
     list_market (sample_cluster True 1) sample_chain bincode sample_fresh (30, 0, 0, 0) (ky 40) (11, 0, 0, 0)
       (12, 0, 0, 0) 10 100 ([], []) = Inr (keys, ([], sent)) \<and> length sent = 3 \<and>
     initialize_market_args_new sample_chain (30, 0, 0, 0) inst sample_listing_accounts = Inr a \<and>
     process_initialize_market a = Inr accs \<and>
     launched (30, 0, 0, 0) (listed_market keys (11, 0, 0, 0) (12, 0, 0, 0) 10 100 nonce) accs"
proof -
  obtain keys tx cv pv where
    run: "list_market (sample_cluster True 1) sample_chain bincode sample_fresh (30, 0, 0, 0) (ky 40) (11, 0, 0, 0)
     (12, 0, 0, 0) 10 100 ([], []) = Inr (keys, ([], [tx, pv, cv]))"
    and keys: "keys = sample_listed_keys"
    using sample_listing by blast
  obtain ix :: instruction where named: "map am_pubkey (ix_accounts ix) = [mp_market keys, mp_req_q keys, mp_event_q keys, mp_bids keys,
      mp_asks keys, mp_coin_vault keys, mp_pc_vault keys, (11, 0, 0, 0), (12, 0, 0, 0)]"
    and accepted: "\<forall>accs. map ai_key accs = map am_pubkey (ix_accounts ix) \<and>
       (\<forall>i<5. ai_owner (accs ! i) = (30, 0, 0, 0) \<and> ai_data (accs ! i) = replicate (listing_lens ! i) 0) \<and>
       check_vault sample_chain (mp_vault_signer_key keys) (accs ! 5) (accs ! 7) = Inr () \<and>
       check_vault sample_chain (mp_vault_signer_key keys) (accs ! 6) (accs ! 8) = Inr () \<longrightarrow>
       (\<exists>inst a accs' nonce. unpack (ix_data ix) = Some (InitializeMarket inst) \<and>
          initialize_market_args_new sample_chain (30, 0, 0, 0) inst accs = Inr a \<and> process_initialize_market a = Inr accs' \<and>
          gen_vault_signer_key sample_chain nonce (mp_market keys) (30, 0, 0, 0) = Inr (mp_vault_signer_key keys) \<and>
          launched (30, 0, 0, 0) (listed_market keys (11, 0, 0, 0) (12, 0, 0, 0) 10 100 nonce) accs')"
    using crank_market_listed [OF sdk_honest bincode_wire run] by - (elim exE conjE, rule that, assumption, assumption)
  have "map ai_key sample_listing_accounts = map am_pubkey (ix_accounts ix)"
    unfolding named sample_listing_keys by (simp add: keys)
  moreover have "check_vault sample_chain (mp_vault_signer_key keys) (sample_listing_accounts ! 5) (sample_listing_accounts ! 7) = Inr ()"
    "check_vault sample_chain (mp_vault_signer_key keys) (sample_listing_accounts ! 6) (sample_listing_accounts ! 8) = Inr ()"
    using sample_vault_check by (simp_all add: sample_listing_vaults keys)
  ultimately show ?thesis
    using accepted [THEN spec, of sample_listing_accounts] sample_listing_nth run
    by - (erule impE, blast, elim exE conjE, intro exI conjI, assumption, simp, assumption+)
qed

end
