(* ===== verification/ClusterNames.thy ===== *)
theory ClusterNames
  imports Prelude
begin

text \<open>
  The networks a client can be told to use (\<open>common/src/client/mod.rs\<close>): their names, as they are
  parsed and as they are written, and their addresses.
\<close>

datatype named_cluster = Testnet | Mainnet | VipMainnet | Devnet | Localnet | Debug

text \<open>\<open>to_lowercase\<close>, of whose characters only the ASCII ones can become letters of a name.\<close>

definition to_lower :: "char \<Rightarrow> char" where
  "to_lower c = (let n = (of_char c :: nat) in if 65 \<le> n \<and> n \<le> 90 then char_of (n + 32) else c)"

definition cluster_from_str :: "string \<Rightarrow> string + named_cluster" where
  "cluster_from_str s =
     (let l = map to_lower s in
      if l = ''t'' \<or> l = ''testnet'' then Inr Testnet
      else if l = ''m'' \<or> l = ''mainnet'' then Inr Mainnet
      else if l = ''v'' \<or> l = ''vipmainnet'' then Inr VipMainnet
      else if l = ''d'' \<or> l = ''devnet'' then Inr Devnet
      else if l = ''l'' \<or> l = ''localnet'' then Inr Localnet
      else if l = ''g'' \<or> l = ''debug'' then Inr Debug
      else Inl ''Cluster must be one of [testnet, mainnet, devnet]\<newline>'')"

primrec cluster_display :: "named_cluster \<Rightarrow> string" where
  "cluster_display Testnet = ''testnet''"
| "cluster_display Mainnet = ''mainnet''"
| "cluster_display VipMainnet = ''vipmainnet''"
| "cluster_display Devnet = ''devnet''"
| "cluster_display Localnet = ''localnet''"
| "cluster_display Debug = ''debut''"

primrec cluster_url :: "named_cluster \<Rightarrow> string" where
  "cluster_url Devnet = ''https://devnet.solana.com''"
| "cluster_url Testnet = ''https://testnet.solana.com''"
| "cluster_url Mainnet = ''https://api.mainnet-beta.solana.com''"
| "cluster_url VipMainnet = ''https://vip-api.mainnet-beta.solana.com''"
| "cluster_url Localnet = ''http://127.0.0.1:8899''"
| "cluster_url Debug = ''http://34.90.18.145:8899''"

lemma cluster_display_parsed:
  "cluster_from_str (cluster_display c) = Inr d \<longleftrightarrow> d = c \<and> c \<noteq> Debug"
  by (cases c) (simp_all add: cluster_from_str_def to_lower_def of_char_def char_of_def, auto)

end
