(* ===== verification/LockupCommands.thy ===== *)
theory LockupCommands
  imports LockupClient
begin

text \<open>
  The command line of the lockup client (\<open>lockup/cli/src/lib.rs\<close>) behind its parser: which requests
  a command makes, from which accounts, and what it shows.
\<close>

datatype (plugins only: code) command_error = CommandClient lockup_client_error | CommandAny any_error

subsection \<open>Commands\<close>

datatype (plugins only: code) accounts_command = SafeAccount aligned | VestingAccount aligned | WhitelistAccount aligned | VaultAccount aligned

datatype (plugins only: code) gov_command =
    GovWhitelistAdd aligned aligned u8  \<comment> \<open>program id, instance, nonce\<close>
  | GovWhitelistDelete aligned aligned u8
  | GovSetAuthority aligned
  | GovMigrate aligned

datatype (plugins only: code) sub_command =
    AccountsCmd accounts_command
  | GovCmd string aligned gov_command  \<comment> \<open>authority file, safe\<close>
  | InitializeCmd aligned
  | CreateVestingCmd aligned aligned aligned u64 u64 u64
      \<comment> \<open>depositor, safe, beneficiary, end slot, period count, deposit amount\<close>
  | ClaimCmd aligned
  | RedeemCmd u64 aligned aligned  \<comment> \<open>amount, vesting, token account\<close>

text \<open>What is printed.\<close>

datatype (plugins only: code) shown =
    ShownInitialize initialize_response
  | ShownCreateVesting create_vesting_response
  | ShownTokenAccount aligned
  | ShownSignature signature
  | ShownSafe safe
  | ShownVesting vesting
  | ShownRedeemable u64
  | ShownWhitelistable u64
  | ShownWhitelist "u8 list"
  | ShownVault token_holding

definition account_cmd ::
  "'w cluster \<Rightarrow> lockup_codecs \<Rightarrow> cli_context \<Rightarrow> aligned \<Rightarrow> accounts_command \<Rightarrow> 'w \<Rightarrow>
   command_error client_fault + shown list" where
  "account_cmd cl cd ctx pid cmd w =
     and_then (into CommandAny (connect cl ctx pid)) (\<lambda>client.
     case cmd of
       SafeAccount address \<Rightarrow>
         and_then (into CommandClient (client_safe cl cd address w)) (\<lambda>safe. Inr [ShownSafe safe])
     | VestingAccount address \<Rightarrow>
         and_then (into CommandClient (client_vesting cl cd address w)) (\<lambda>vault.
         and_then (client_try (\<lambda>e. CommandAny (AnyRpc e)) (cl_slot cl w)) (\<lambda>current_slot.
         and_then (expect (available_for_withdrawal vault current_slot)) (\<lambda>amount.
         Inr [ShownVesting vault, ShownRedeemable amount, ShownWhitelistable amount])))
     | WhitelistAccount safe \<Rightarrow>
         and_then (into CommandClient (client_whitelist cl cd safe w)) (\<lambda>whitelist. Inr [ShownWhitelist whitelist])
     | VaultAccount safe \<Rightarrow>
         and_then (into CommandClient (client_vault cl cd safe w)) (\<lambda>vault. Inr [ShownVault vault]))"

definition gov_cmd ::
  "'w cluster \<Rightarrow> lockup_codecs \<Rightarrow> cli_context \<Rightarrow> aligned \<Rightarrow> string \<Rightarrow> aligned \<Rightarrow> gov_command \<Rightarrow> 'w \<Rightarrow>
   command_error client_fault + 'w" where
  "gov_cmd cl cd ctx pid authority_file safe cmd w =
     and_then (into CommandAny (connect cl ctx pid)) (\<lambda>client.
     and_then (ok_or (sdk_read_keypair (cl_sdk cl) authority_file)
       (ClientErr (CommandAny (AnyText ''Unable to read leader keypair file'')))) (\<lambda>authority.
     and_then (into CommandClient
       (case cmd of
          GovWhitelistAdd program_id instance nonce \<Rightarrow>
            client_whitelist_add cl cd client (WhitelistChangeRequest authority safe
              \<lparr>we_program_id = program_id, we_instance = instance, we_nonce = nonce\<rparr>) w
        | GovWhitelistDelete program_id instance nonce \<Rightarrow>
            client_whitelist_delete cl cd client (WhitelistChangeRequest authority safe
              \<lparr>we_program_id = program_id, we_instance = instance, we_nonce = nonce\<rparr>) w
        | GovSetAuthority new_authority \<Rightarrow>
            client_set_authority cl cd client (SetAuthorityRequest authority safe new_authority) w
        | GovMigrate new_token_account \<Rightarrow>
            client_migrate cl cd client (MigrateRequest authority safe new_token_account) w)) (\<lambda>(_, w'). Inr w')))"

text \<open>The request that the redeem command makes from the vesting account and its safe.\<close>

definition redeem_command_request :: "aligned \<Rightarrow> aligned \<Rightarrow> u64 \<Rightarrow> aligned \<Rightarrow> vesting \<Rightarrow> safe \<Rightarrow> redeem_request" where
  "redeem_command_request beneficiary vesting amount token_account vesting_account safe_account =
     RedeemRequest beneficiary vesting token_account (sf_vault safe_account) (v_safe vesting_account)
       (v_locked_nft_token vesting_account) (v_locked_nft_mint vesting_account) amount"

text \<open>\<open>run\<close>; the keys it generates are, in this order, those of the safe, its vault and its whitelist, or of
  the mint and the vesting account, or of the receipt's account.\<close>

definition run_lockup_command ::
  "'w cluster \<Rightarrow> lockup_codecs \<Rightarrow> cli_context \<Rightarrow> aligned \<Rightarrow> aligned \<times> aligned \<times> aligned \<Rightarrow> sub_command \<Rightarrow> 'w \<Rightarrow>
   command_error client_fault + (shown list \<times> 'w)" where
  "run_lockup_command cl cd ctx pid fresh cmd w =
     (case fresh of (key1, key2, key3) \<Rightarrow>
      case cmd of
        AccountsCmd c \<Rightarrow> and_then (account_cmd cl cd ctx pid c w) (\<lambda>out. Inr (out, w))
      | GovCmd authority_file safe c \<Rightarrow>
          and_then (gov_cmd cl cd ctx pid authority_file safe c w) (\<lambda>w'. Inr ([], w'))
      | InitializeCmd authority \<Rightarrow>
          and_then (into CommandAny (connect cl ctx pid)) (\<lambda>client.
          and_then (into CommandClient (client_initialize cl cd client key1 key2 key3
            (InitializeRequest (cx_srm_mint ctx) authority) w)) (\<lambda>(resp, w'). Inr ([ShownInitialize resp], w')))
      | CreateVestingCmd depositor safe beneficiary end_slot period_count deposit_amount \<Rightarrow>
          and_then (into CommandAny (connect cl ctx pid)) (\<lambda>client.
          and_then (into CommandAny (context_wallet cl ctx)) (\<lambda>depositor_owner.
          and_then (into CommandClient (client_create_vesting cl cd client key1 key2
            (CreateVestingRequest depositor depositor_owner safe beneficiary end_slot period_count deposit_amount) w))
            (\<lambda>(resp, w'). Inr ([ShownCreateVesting resp], w'))))
      | ClaimCmd vesting \<Rightarrow>
          and_then (into CommandAny (connect cl ctx pid)) (\<lambda>client.
          and_then (into CommandAny (context_wallet cl ctx)) (\<lambda>beneficiary.
          and_then (into CommandClient (client_vesting cl cd vesting w)) (\<lambda>v_acc.
          and_then (into CommandAny (create_token_account cl key1 (v_locked_nft_mint v_acc) beneficiary
            (cn_payer client) w)) (\<lambda>(locked_token_account, w1).
          and_then (into CommandClient (client_claim cl cd client (ClaimRequest beneficiary (v_safe v_acc) vesting
            (v_locked_nft_mint v_acc) locked_token_account) w1)) (\<lambda>(tx, w2).
          Inr ([ShownTokenAccount locked_token_account, ShownSignature tx], w2))))))
      | RedeemCmd amount vesting token_account \<Rightarrow>
          and_then (into CommandAny (context_wallet cl ctx)) (\<lambda>beneficiary.
          and_then (into CommandAny (connect cl ctx pid)) (\<lambda>client.
          and_then (into CommandClient (client_vesting cl cd vesting w)) (\<lambda>vesting_account.
          and_then (into CommandClient (client_safe cl cd (v_safe vesting_account) w)) (\<lambda>safe_account.
          and_then (into CommandClient (client_redeem cl cd client (redeem_command_request beneficiary vesting amount
            token_account vesting_account safe_account) w)) (\<lambda>(tx, w'). Inr ([ShownSignature tx], w')))))))"

end
