(* ===== verification/CrankCommands.thy ===== *)
theory CrankCommands
  imports CrankNet
begin

text \<open>
  The crank's commands (\<open>start\<close> of \<open>crank/src/lib.rs\<close>) behind their parser, with the one that runs
  a market from its listing to the settlement of a trade.
\<close>

definition shebang_order :: "side \<Rightarrow> u64 \<Rightarrow> u64 \<Rightarrow> new_order_instruction_v1" where
  "shebang_order sd limit_price client_id =
     \<lparr>n1_side = sd, n1_limit_price = limit_price, n1_max_qty = 1000, n1_order_type = Limit,
      n1_client_id = client_id\<rparr>"

text \<open>Generated are the mints, the seven keys of the listing, two wallets and two orders accounts.\<close>

definition whole_shebang ::
  "'w cluster \<Rightarrow> chain \<Rightarrow> (u8 \<times> market_instruction \<Rightarrow> u8 list option) \<Rightarrow> (nat \<Rightarrow> aligned) \<Rightarrow> aligned \<Rightarrow> aligned \<Rightarrow>
   'w \<Rightarrow> crank_failure client_fault + 'w" where
  "whole_shebang cl ch serialize fresh program_id payer w =
     (let coin_mint = fresh 0; pc_mint = fresh 1 in
      and_then (into CrankAny (create_and_init_mint cl payer coin_mint payer 3 w)) (\<lambda>(_, w1).
      and_then (into CrankAny (create_and_init_mint cl payer pc_mint payer 3 w1)) (\<lambda>(_, w2).
      and_then (list_market cl ch serialize (\<lambda>n. fresh (2 + n)) program_id payer coin_mint pc_mint 1000000 10000 w2)
        (\<lambda>(keys, w3).
      and_then (into CrankAny (mint_to_new_account cl (fresh 9) payer payer coin_mint 1000000000000000 w3))
        (\<lambda>(coin_wallet, w4).
      and_then (into CrankAny (mint_to_new_account cl (fresh 10) payer payer pc_mint 1000000000000000 w4))
        (\<lambda>(pc_wallet, w5).
      and_then (place_order cl serialize (fresh 11) program_id payer pc_wallet keys None
        (shebang_order Bid 500 19269) w5) (\<lambda>(_, w6).
      and_then (place_order cl serialize (fresh 12) program_id payer coin_wallet keys None
        (shebang_order Ask 499 985982) w6) (\<lambda>(orders, w7).
      and_then (match_orders cl serialize program_id payer keys coin_wallet pc_wallet w7) (\<lambda>w8.
      and_then (crank_consume_events cl serialize program_id payer keys coin_wallet pc_wallet w8) (\<lambda>w9.
      settle_funds cl serialize program_id payer keys (Some payer) orders coin_wallet pc_wallet w9))))))))))"

subsection \<open>Commands\<close>

datatype (plugins only: code) crank_command =
    Genesis string string aligned u8  \<comment> \<open>payer, mint, owner, decimals\<close>
  | MintCommand string string aligned "aligned option" u64  \<comment> \<open>payer, signer, mint, recipient, quantity\<close>
  | CreateAccount aligned aligned string
  | ConsumeEventsCommand aligned string aligned aligned aligned nat nat "nat option"
      \<comment> \<open>program, payer, market, wallets, workers, events per worker, accounts\<close>
  | MatchOrdersCommand aligned string aligned aligned aligned
  | MonitorQueue aligned aligned u16
  | PrintEventQueue aligned aligned
  | WholeShebang string aligned
  | SettleFundsCommand string aligned aligned aligned aligned aligned "string option"
      \<comment> \<open>payer, program, market, orders, wallets, signer\<close>
  | ListMarket string aligned aligned aligned "u64 option" "u64 option"
  | InitializeTokenAccount aligned string

datatype (plugins only: code) crank_shown =
    ShownQueue event_queue_header "event list" "event list"
  | ShownMarket market_pubkeys
  | Serving aligned aligned u16  \<comment> \<open>\<open>queue_length\<close> of a program's market, at a port\<close>

text \<open>
  The command that loops is followed for \<open>n\<close> rounds, with a random amount for every job of every
  round; the one that serves is told by what it serves.
\<close>

definition start_crank ::
  "nat \<Rightarrow> (nat \<Rightarrow> nat \<Rightarrow> u64) \<Rightarrow> 'w cluster \<Rightarrow> chain \<Rightarrow> (u8 \<times> market_instruction \<Rightarrow> u8 list option) \<Rightarrow>
   (nat \<Rightarrow> aligned) \<Rightarrow> crank_command \<Rightarrow> 'w \<Rightarrow> crank_failure client_fault + (crank_shown list \<times> 'w)" where
  "start_crank n rnd cl ch serialize fresh cmd w =
     (case cmd of
        Genesis payer mint owner_pubkey decimals \<Rightarrow>
          and_then (crank_keypair cl payer) (\<lambda>payer.
          and_then (crank_keypair cl mint) (\<lambda>mint.
          and_then (into CrankAny (create_and_init_mint cl payer mint owner_pubkey decimals w)) (\<lambda>(_, w').
          Inr ([], w'))))
      | MintCommand payer signer mint_pubkey recipient quantity \<Rightarrow>
          and_then (crank_keypair cl payer) (\<lambda>payer.
          and_then (crank_keypair cl signer) (\<lambda>minter.
          case recipient of
            Some recipient \<Rightarrow>
              and_then (mint_to_existing_account cl payer minter mint_pubkey recipient quantity w) (\<lambda>w'. Inr ([], w'))
          | None \<Rightarrow>
              and_then (into CrankAny (mint_to_new_account cl (fresh 0) payer minter mint_pubkey quantity w))
                (\<lambda>(_, w'). Inr ([], w'))))
      | CreateAccount _ _ _ \<Rightarrow> Inl ClientPanic
      | MatchOrdersCommand dex_program_id payer market coin_wallet pc_wallet \<Rightarrow>
          and_then (crank_keypair cl payer) (\<lambda>payer.
          and_then (market_keys cl ch dex_program_id market w) (\<lambda>keys.
          and_then (match_orders cl serialize dex_program_id payer keys coin_wallet pc_wallet w) (\<lambda>w'. Inr ([], w'))))
      | ConsumeEventsCommand dex_program_id payer market coin_wallet pc_wallet num_workers events_per_worker
          num_accounts \<Rightarrow>
          and_then (expect (consume_events_loop n cl ch serialize dex_program_id payer market coin_wallet pc_wallet
            num_workers events_per_worker (case num_accounts of Some k \<Rightarrow> k | None \<Rightarrow> 32) rnd w)) (\<lambda>w'. Inr ([], w'))
      | MonitorQueue dex_program_id market port \<Rightarrow> Inr ([Serving dex_program_id market port], w)
      | PrintEventQueue dex_program_id market \<Rightarrow>
          and_then (market_keys cl ch dex_program_id market w) (\<lambda>keys.
          and_then (rpc_try (cl_data cl (mp_event_q keys) w)) (\<lambda>event_q_data.
          and_then (crank_try (remove_dex_account_padding event_q_data)) (\<lambda>inner.
          and_then (crank_try (parse_event_queue inner)) (\<lambda>(header, events_seg0, events_seg1).
          Inr ([ShownQueue header events_seg0 events_seg1], w)))))
      | WholeShebang payer dex_program_id \<Rightarrow>
          and_then (crank_keypair cl payer) (\<lambda>payer.
          and_then (whole_shebang cl ch serialize fresh dex_program_id payer w) (\<lambda>w'. Inr ([], w')))
      | SettleFundsCommand payer dex_program_id market orders coin_wallet pc_wallet signer \<Rightarrow>
          and_then (crank_keypair cl payer) (\<lambda>payer.
          and_then (case signer of
              Some s \<Rightarrow> and_then (crank_keypair cl s) (\<lambda>k. Inr (Some k))
            | None \<Rightarrow> Inr None) (\<lambda>signer.
          and_then (market_keys cl ch dex_program_id market w) (\<lambda>keys.
          and_then (settle_funds cl serialize dex_program_id payer keys signer orders coin_wallet pc_wallet w) (\<lambda>w'.
          Inr ([], w')))))
      | ListMarket payer dex_program_id coin_mint pc_mint coin_lot_size pc_lot_size \<Rightarrow>
          and_then (crank_keypair cl payer) (\<lambda>payer.
          and_then (list_market cl ch serialize fresh dex_program_id payer coin_mint pc_mint
            (case coin_lot_size of Some n \<Rightarrow> n | None \<Rightarrow> 1000000) (case pc_lot_size of Some n \<Rightarrow> n | None \<Rightarrow> 10000) w)
            (\<lambda>(keys, w'). Inr ([ShownMarket keys], w')))
      | InitializeTokenAccount mint owner_account \<Rightarrow>
          and_then (crank_keypair cl owner_account) (\<lambda>owner.
          and_then (initialize_token_account cl (fresh 0) mint owner w) (\<lambda>(_, w'). Inr ([], w'))))"

end
