(* ===== verification/NodeCommands.thy ===== *)
theory NodeCommands
  imports ClusterNames LockupCommands RegistryClient CrankCommands
begin

text \<open>
  The command line of the node (\<open>node/src/lib.rs\<close> and its services' \<open>run_cmd\<close>), which passes a
  command on to the crank, the registry's or the lockup's client, or sets up mints and funded
  accounts for development (\<open>node/dev/src/lib.rs\<close>, with \<open>genesis\<close> of \<open>common/tests/src/lib.rs\<close>).
  \<open>net\<close> is the cluster behind each network's address.
\<close>

subsection \<open>Setting up for development\<close>

datatype (plugins only: code) genesis = Genesis
  (gs_client: client) (gs_mint_authority: aligned) (gs_srm_mint: aligned) (gs_msrm_mint: aligned)
  (gs_god: aligned) (gs_god_msrm: aligned) (gs_god_balance_before: u64) (gs_god_msrm_balance_before: u64)
  (gs_god_owner: aligned)

text \<open>The environment that \<open>client_at\<close> reads is what the caller has put there.\<close>

definition client_at ::
  "(named_cluster \<Rightarrow> 'w cluster) \<Rightarrow> string \<Rightarrow> string \<Rightarrow> aligned \<Rightarrow> 'e client_fault + ('w cluster \<times> client)" where
  "client_at net payer_filepath cluster program_id =
     and_then (expect (cluster_from_str cluster)) (\<lambda>named.
     and_then (expect (client_from_keypair_file (net named) program_id payer_filepath)) (\<lambda>c. Inr (net named, c)))"

text \<open>Whether the second mint is created is not looked at; its panic is.\<close>

definition genesis_run ::
  "(named_cluster \<Rightarrow> 'w cluster) \<Rightarrow> string \<Rightarrow> string \<Rightarrow> aligned \<Rightarrow> (nat \<Rightarrow> aligned) \<Rightarrow> 'w \<Rightarrow>
   'e client_fault + (genesis \<times> 'w)" where
  "genesis_run net payer_filepath cluster program_id fresh w =
     and_then (client_at net payer_filepath cluster program_id) (\<lambda>(cl, client).
     let mint_authority = cn_payer client; srm_mint = fresh 0; msrm_mint = fresh 1 in
     and_then (expect (create_and_init_mint cl (cn_payer client) srm_mint mint_authority 3 w)) (\<lambda>(_, w1).
     and_then (case create_and_init_mint cl (cn_payer client) msrm_mint mint_authority 3 w1 of
         Inr (_, w2) \<Rightarrow> Inr w2
       | Inl (ClientErr _) \<Rightarrow> Inr w1
       | Inl ClientPanic \<Rightarrow> Inl ClientPanic) (\<lambda>w2.
     and_then (expect (mint_to_new_account cl (fresh 2) (cn_payer client) mint_authority srm_mint 1000000 w2))
       (\<lambda>(god, w3).
     and_then (expect (mint_to_new_account cl (fresh 3) (cn_payer client) mint_authority msrm_mint 1000000 w3))
       (\<lambda>(god_msrm, w4).
     Inr (Genesis client mint_authority srm_mint msrm_mint god god_msrm 1000000 1000000 (cn_payer client), w4))))))"

text \<open>The cluster goes through the environment by its written name.\<close>

definition init_mint ::
  "(named_cluster \<Rightarrow> 'w cluster) \<Rightarrow> named_cluster \<Rightarrow> cli_context \<Rightarrow> (nat \<Rightarrow> aligned) \<Rightarrow> 'w \<Rightarrow>
   'e client_fault + (genesis \<times> 'w)" where
  "init_mint net named ctx fresh w =
     genesis_run net (cx_wallet_path ctx) (cluster_display named) (0, 0, 0, 0) fresh w"

subsection \<open>Passing commands on\<close>

datatype (plugins only: code) node_command =
    CrankCmd crank_command
  | RegistryCmd "aligned option" registry_sub_command  \<comment> \<open>the program's id\<close>
  | DevInitMint
  | LockupCmd aligned sub_command

datatype node_error = NodeCrank crank_failure | NodeRegistry registry_command_error | NodeLockup command_error

datatype (plugins only: code) node_shown =
    ShownByCrank "crank_shown list"
  | ShownByRegistry "registry_shown list"
  | ShownGenesis genesis
  | ShownByLockup "shown list"

definition run_node_command ::
  "(named_cluster \<Rightarrow> 'w cluster) \<Rightarrow> lockup_codecs \<Rightarrow> registry_codecs \<Rightarrow> chain \<Rightarrow>
   (u8 \<times> market_instruction \<Rightarrow> u8 list option) \<Rightarrow> nat \<Rightarrow> (nat \<Rightarrow> nat \<Rightarrow> u64) \<Rightarrow> (nat \<Rightarrow> aligned) \<Rightarrow>
   named_cluster \<Rightarrow> cli_context \<Rightarrow> node_command \<Rightarrow> 'w \<Rightarrow> node_error client_fault + (node_shown \<times> 'w)" where
  "run_node_command net lcd rcd ch serialize n rnd fresh named ctx cmd w =
     (case cmd of
        CrankCmd crank_cmd \<Rightarrow>
          and_then (into NodeCrank (start_crank n rnd (net named) ch serialize fresh crank_cmd w)) (\<lambda>(out, w').
          Inr (ShownByCrank out, w'))
      | RegistryCmd pid reg_cmd \<Rightarrow>
          and_then (into NodeRegistry (run_registry_command (net named) rcd ctx (fresh 0) pid reg_cmd w)) (\<lambda>(out, w').
          Inr (ShownByRegistry out, w'))
      | DevInitMint \<Rightarrow>
          and_then (init_mint net named ctx fresh w) (\<lambda>(g, w'). Inr (ShownGenesis g, w'))
      | LockupCmd pid lockup_cmd \<Rightarrow>
          and_then (into NodeLockup (run_lockup_command (net named) lcd ctx pid (fresh 0, fresh 1, fresh 2) lockup_cmd w))
            (\<lambda>(out, w'). Inr (ShownByLockup out, w')))"

subsection \<open>The names of the networks\<close>

lemma to_lower_idem: "to_lower (to_lower c) = to_lower c"
  by (auto simp: to_lower_def Let_def)

text \<open>
  Parsing the name of a network ignores case and accepts exactly its name and one letter, and
  reads back what is written of every network but one: \<open>Debug\<close> is written as a name that is
  refused, so on it setting up for development panics, whatever the network would answer.
\<close>

theorem network_names:
  "cluster_from_str (map to_lower s) = cluster_from_str s \<and>
   (cluster_from_str (cluster_display c) = Inr d \<longleftrightarrow> d = c \<and> c \<noteq> Debug) \<and>
   (cluster_from_str s = Inr c \<longleftrightarrow>
      map to_lower s \<in> (if c = Debug then {''g'', ''debug''} else {cluster_display c, [hd (cluster_display c)]})) \<and>
   init_mint net Debug ctx fresh w = Inl ClientPanic"
proof (intro conjI)
  show "cluster_from_str (map to_lower s) = cluster_from_str s"
    by (simp add: cluster_from_str_def comp_def to_lower_idem)
  show "cluster_from_str s = Inr c \<longleftrightarrow>
      map to_lower s \<in> (if c = Debug then {''g'', ''debug''} else {cluster_display c, [hd (cluster_display c)]})"
    by (cases c) (auto simp: cluster_from_str_def Let_def)
  have "cluster_from_str (cluster_display Debug) = Inl ''Cluster must be one of [testnet, mainnet, devnet]\<newline>''"
    by (simp add: cluster_from_str_def to_lower_def of_char_def char_of_def)
  then show "init_mint net Debug ctx fresh w = Inl ClientPanic"
    by (simp add: init_mint_def genesis_run_def client_at_def expect_def)
qed (rule cluster_display_parsed)

end
