(* ===== verification/AssertOwner.thy ===== *)
theory AssertOwner
  imports Runtime
begin

text \<open>
  The program that checks an account's owner (\<open>assert-owner/src/lib.rs\<close>): a transaction that
  includes it goes through only while the account has the owner the instruction names.
\<close>

definition InvalidInstructionData :: program_error where
  "InvalidInstructionData = OtherProgramError 2"

definition assert_owner_entry :: "acct list \<Rightarrow> u8 list \<Rightarrow> program_error + unit" where
  "assert_owner_entry accounts instruction_data =
     and_then (case accounts of [] \<Rightarrow> Inl NotEnoughAccountKeys | a # _ \<Rightarrow> Inr a) (\<lambda>account.
     if length instruction_data \<noteq> 32 then Inl InvalidInstructionData
     else if aligned_of_bytes instruction_data \<noteq> ac_owner account then Inl (Custom 0x100)
     else Inr ())"

lemma assert_owner_iff:
  "assert_owner_entry accounts d = Inr () \<longleftrightarrow> accounts \<noteq> [] \<and> d = aligned_bytes (ac_owner (hd accounts))"
proof (cases accounts)
  case (Cons a as)
  have "d = aligned_bytes (ac_owner a)" if "length d = 32" "aligned_of_bytes d = ac_owner a"
    using aligned_bytes_of_bytes [OF that(1)] that(2) by simp
  then show ?thesis using Cons by (auto simp: assert_owner_entry_def)
qed (simp add: assert_owner_entry_def)

end
