(* ===== verification/Spec2Isabelle.thy ===== *)
theory Spec2Isabelle
  imports BestPrice OrderMap Backlog Exchange Gateway Launch LockupSample RegistryFacts
    ClientSample NodeCommands AssertOwner
begin

text \<open>
  A verification of the on-chain programs of Serum: the exchange of \<open>dex/src\<close>, the lockup
  program of \<open>lockup/src\<close> and \<open>lockup/program/src\<close> with the account packing of \<open>common/src\<close>, the
  registry of \<open>registry/src\<close> and \<open>registry/program/src\<close>; and of the clients and command lines that
  drive them: \<open>crank/src\<close>, \<open>lockup/client\<close>, \<open>lockup/cli\<close>, \<open>registry/cli\<close> and the \<open>node\<close>.

  The exchange.  A market is five accounts: the market record, a request queue, an event queue
  and the two sides of the book.  Traders own open-orders accounts, with balances and 128
  order slots each, and token accounts of the token program.  \<open>NewOrder\<close> locks a trader's funds
  (depositing what is missing into the market's vault), takes a slot and appends a request;
  \<open>CancelOrder\<close> and \<open>CancelOrderByClientId\<close> append requests too.  \<open>MatchOrders\<close> takes requests
  off the request queue, works them on the book and appends fill and out events to the event
  queue; \<open>ConsumeEvents\<close> takes events off and moves their amounts into the accounts of their
  owners; \<open>SettleFunds\<close> pays the free balances out of the vaults, \<open>SweepFees\<close> the fees;
  \<open>DisableMarket\<close> sets a flag, and \<open>InitializeMarket\<close> builds the five accounts.

  The theories, from the bottom up.

  \<^item> \<open>Prelude\<close>: results (\<open>and_then\<close>, \<open>map_err\<close>, the collection \<open>res_simps\<close>), words, checked
    arithmetic, lists.
  \<^item> \<open>DexErrors\<close> (\<open>error.rs\<close>): error numbers; a fault is an error, a panic or a divergence.
  \<^item> \<open>Fees\<close> (\<open>fees.rs\<close>): fee tiers and the 64.64 fixed-point rates.
  \<^item> \<open>Queue\<close> (\<open>state.rs\<close>, \<open>Queue\<close>): the ring buffer over a header interface, the locale
    \<open>queue_header\<close>, interpreted on both headers.
  \<^item> \<open>KeyBits\<close>, \<open>Slab\<close>, \<open>CritTree\<close>, \<open>Critbit\<close>, \<open>CritbitCorrect\<close>, \<open>CritbitRemove\<close>, \<open>OrderMap\<close>
    (\<open>critbit.rs\<close>): the node store with its free list, behind the locale \<open>handle_store\<close>, the
    crit-bit tree in it, and their refinement of a finite map from order ids to orders.
    \<open>CritTree\<close> is the specification: trees over keys without the store.
  \<^item> \<open>Orders\<close> (\<open>state.rs\<close>, \<open>RequestQueue\<close>, \<open>Request\<close>, \<open>Event\<close>): order ids and the wire forms.
  \<^item> \<open>OpenOrders\<close>, \<open>Market\<close> (\<open>state.rs\<close>): the two records with their checks and updates.
  \<^item> \<open>Matching\<close> (\<open>matching.rs\<close>): \<open>process_requests\<close> and everything under it.  \<open>Outcomes\<close>,
    \<open>MatchingCorrect\<close>, \<open>MatchingSafe\<close>, \<open>RequestsSafe\<close>, \<open>BestPrice\<close>, \<open>CoinConserve\<close> are its
    correctness: quote and base currency are conserved, the book stays well formed and
    uncrossed, nothing panics, and fills are with the best opposite order.  \<open>EventRoom\<close> bounds the
    events of a call (five to a unit of the limit), and \<open>Backlog\<close> shows that matching comes to an
    end over many calls, by a measure that every pass of the engine lowers.
  \<^item> \<open>Bytes\<close>, \<open>Instruction\<close> (\<open>instruction.rs\<close>): the instructions and their decoder.
  \<^item> \<open>Layout\<close> (the structs of \<open>state.rs\<close> and \<open>critbit.rs\<close>): the records as little-endian words,
    with the locale \<open>fixed_width\<close> for what the casts of arrays rely on.
  \<^item> \<open>Accounts\<close>, \<open>Parsers\<close> (\<open>state.rs\<close>, loaders and \<open>account_parser\<close>), \<open>Processor\<close>, \<open>Program\<close>
    (\<open>state.rs\<close>, \<open>State::process_*\<close> and \<open>State::process\<close>; \<open>lib.rs\<close>): accounts in, accounts out.
  \<^item> \<open>Funds\<close>, \<open>Settling\<close>, \<open>Consume\<close>, \<open>Storage\<close>, \<open>Launch\<close>, \<open>Gateway\<close>: what each handler does to
    funds, slots, queues and accounts, who may run it, and what it writes.
  \<^item> \<open>Exchange\<close>: one market as a state machine with a step for every handler, and the
    invariant of its reachable states.

  The lockup program.  A safe has a vault, a token account whose owner is an address derived from
  the safe's, and a whitelist of programs.  \<open>CreateVesting\<close> deposits tokens into the vault for a
  beneficiary, who can \<open>Claim\<close> a receipt once, \<open>Redeem\<close> what his schedule has released, and lend
  his balance to whitelisted programs (\<open>WhitelistWithdraw\<close>, \<open>WhitelistDeposit\<close>, which relay an
  instruction).  The safe's authority keeps the whitelist, can hand over its role, and can
  \<open>Migrate\<close> the whole vault.  Its theories, from the bottom up.

  \<^item> \<open>Packing\<close> (\<open>common/src/pack.rs\<close>): structs as account data over a serialiser, with the locale
    \<open>packing\<close> for what the serialiser promises and its interpretations on the accounts' formats.
  \<^item> \<open>VestingSchedule\<close> (\<open>accounts/vesting.rs\<close>): the schedule's arithmetic and its reference.
  \<^item> \<open>LockupErrors\<close> (\<open>error.rs\<close>), \<open>Runtime\<close> (what the SDK, the token program and the runtime provide),
    \<open>LockupAccounts\<close> (\<open>accounts/safe.rs\<close>, \<open>token_vault.rs\<close>, \<open>whitelist.rs\<close>).
  \<^item> \<open>LockupAccess\<close>, \<open>LockupHandlers\<close>, \<open>LockupProgram\<close> (\<open>program/src\<close>): checks, handlers, entrypoint.
  \<^item> \<open>LockupWhitelist\<close>, \<open>LockupGuards\<close>: what the whitelist can hold, which bytes are which account,
    and who has to sign.
  \<^item> \<open>LockupCustody\<close>: the specification, vesting accounts and vault of one safe as a transition
    system with its invariant.  \<open>LockupLaws\<close>: the assumptions on the runtime and the chain's
    accounts.  \<open>LockupRefines\<close>, \<open>LockupHandling\<close>, \<open>LockupRelay\<close>, \<open>LockupChain\<close>: every handler is a step of the
    custody.  \<open>LockupSafety\<close>: the properties of all reachable states; \<open>LockupSample\<close>: a runtime that
    meets the assumptions, and the properties in it.

  The registry program.  A registrar holds the fees of 32 capabilities, an entity is a node that
  members stake with.  \<open>RegistryAccounts\<close> (\<open>accounts/*.rs\<close>, \<open>error.rs\<close>) has the three structs with their
  stored formats, \<open>Registry\<close> (\<open>program/src\<close>) the handlers and the entrypoint, \<open>RegistryFacts\<close> what holds
  of them: exactly what is accepted and which account it rewrites to what (accounts keep their kinds),
  and that no instruction is protected, since the access controls are todos.  Staking, donating and withdrawing have handlers that the entrypoint does not reach yet.

  The crank.  \<open>TokenInstruction\<close> (\<open>crank/src/token_instruction.rs\<close>) is the token program's instructions as
  bytes and their builders; \<open>CrankClient\<close> (\<open>crank/src/lib.rs\<close>, \<open>initialize_market\<close> of \<open>dex/src/instruction.rs\<close>)
  is the client's side of the exchange: reading the market and the queues, choosing the open-orders
  accounts for consuming events, and the instructions it sends.  \<open>CrankFacts\<close> and \<open>CrankAccepted\<close> join the
  client to the program: it reads what the program iterates, the program finds the accounts it passes and
  makes progress on them, and what it lists and asks to match is accepted; \<open>CrankSample\<close> is a run.
  \<open>AssertOwner\<close> (\<open>assert-owner/src/lib.rs\<close>) is the program that checks an account's owner.

  The clients.  They share the methods that the macro of \<open>solana-client-gen\<close> writes for every
  instruction of a program and the calls of \<open>common/src/client\<close>, over a parameter \<open>cluster\<close>: what the
  RPC client answers from a state of the network, what a transaction makes of that state, and the
  functions of the SDK and of the token program's library.

  \<^item> \<open>ClientGen\<close> (\<open>codegen/src/lib.rs\<close>, \<open>common/src/client/rpc.rs\<close>, \<open>node/context/src/lib.rs\<close>), \<open>ClusterNames\<close>
    (\<open>common/src/client/mod.rs\<close>).
  \<^item> \<open>LockupClient\<close> (\<open>lockup/client/src\<close>), \<open>LockupCommands\<close> (\<open>lockup/cli/src/lib.rs\<close>); \<open>RegistryClient\<close>
    (\<open>registry/src/client_ext.rs\<close>, \<open>registry/cli/src/lib.rs\<close>); \<open>CrankNet\<close>, \<open>CrankCommands\<close> (\<open>crank/src/lib.rs\<close>,
    what calls a cluster); \<open>NodeCommands\<close> (\<open>node/src/lib.rs\<close>, \<open>node/dev\<close>, \<open>genesis\<close> of \<open>common/tests\<close>).
  \<^item> \<open>InstructionFormats\<close>: the documented format of the two programs' instructions as interpretations of
    \<open>packing\<close>.  \<open>ClientLaws\<close>: the assumptions on the SDK (\<open>honest_sdk\<close>: signing takes exactly the keys that
    are needed, and which those are for the SDK's own instructions; \<open>same_runtime\<close>: it derives
    addresses as the runtime does) and rules for calls that do not panic.
  \<^item> \<open>LockupClientFacts\<close>, \<open>RegistryClientFacts\<close>, \<open>CrankNetFacts\<close> join clients and programs: transactions can be
    signed, and a safe, an entity, a member and a market that a client sets up are what the
    program accepts.  \<open>ClientSample\<close>: a cluster that meets the assumptions, and the properties on it.

  How code is rendered.  Integers are words of their width and wrap as in a release build
  (\<open>debug_assert\<close> is not checked); checked operations return options, and an \<open>unwrap\<close> of
  nothing, an index out of range or a failed \<open>assert\<close> is \<open>Panic\<close>.  A handler returns what it has
  written; on an error all of it is dropped, as the runtime does.  \<open>check_assert\<close> carries the line
  number of the source, which the error code contains.  The walks of the tree, which follow
  handles, and the loop of \<open>process_requests\<close> take fuel and end in \<open>Diverges\<close> without it: a walk
  has one more than there are nodes in the slab, and the loop one more than its limit, of which
  every pass uses some.  That no well-formed state runs out of it is part of the refinement of
  the tree to maps and of \<open>process_requests_safe\<close>.  Accounts that share an address share their data.

  Parameters.  \<open>chain\<close> holds the addresses, lengths and functions of the SDK, the token
  program and the base-58 constants; \<open>token_program\<close> builds and runs transfers on a ledger.
  \<open>honest_tokens\<close> is the one assumption on it: a transfer that succeeds moves its amount and the
  source had it.  The encoder of \<open>pack\<close> is an argument, its documented format the hypothesis.

  For the lockup program they are the records \<open>runtime\<close> and \<open>lockup_env\<close>, and \<open>honest_runtime\<close> names the
  assumptions: other programs do not write its accounts, the token program does what its
  instructions say, tokens are taken from an account only with its owner's signature or within
  a delegation, addresses derived from different safes differ, and accounts are stored in the
  documented format.  Where the program checks nothing, the transactions of a run (\<open>lockup_reach\<close>) are
  \<open>careful\<close>: the token program that a withdrawal names is the token program (with another one the
  vault can be emptied), and nothing is relayed to the lockup program itself.  A run records whether
  the safe's authority has migrated the vault, which empties it; what is said of its tokens is said
  of runs that have not.

  The exchange's steps ask of their arguments what parsers check, instruction types guarantee or the
  runtime does (the accounts are those of the market, prices and quantities are not zero, an account
  that is opened has zeroed data).  They have a parameter \<open>users\<close>, the token accounts that may be named
  as payer, wallet, referrer's account and fee receiver.  The invariants of book, queues and records
  hold for all of them; that the vaults hold what is recorded needs transfers that move what they
  say and \<open>users\<close> without the vaults, since nobody checks that no user names a vault as his own account.

  A client's call returns the network's next state, an error or a panic; with an error, what the call
  has sent or printed before it is not kept.  A key pair is its public key, and the keys and random
  numbers that are generated are arguments.  The loop that consumes events is its first \<open>n\<close>
  rounds, for any \<open>n\<close>; the jobs of a round run one after the other.  A command returns the values it prints.

  Not modelled.  The errors of \<open>RefCell\<close> for an account borrowed twice (but for the one within
  \<open>stake\<close> of the registry); \<open>check_invariants\<close> and printing of the tree, the fuzzing harness and the
  property tests (tests); how the procedural macros parse a program and put tokens together (what
  they generate is modelled); of the clients and the \<open>node\<close>, the parsing of arguments and of the
  configuration file, logging, waiting, the layout of what is printed, the JSON-RPC server and the
  HTTP server around the length of a queue.
\<close>

end
